(* ===== verification/Prelude.thy ===== *)
theory Prelude
  imports Complex_Main "HOL-Library.Char_ord" "HOL-Library.List_Lexorder"
begin

text \<open>
  Shared vocabulary of the development: the error-or-value monad in which the services are
  written, tables as lists of rows with the four statements the services issue (select, insert,
  update, delete), and the collections of rewrite rules the component theories extend.
\<close>

named_theorems guard_simps \<open>inversion rules for guards and sequenced service calls\<close>
named_theorems row_simps \<open>what a statement does to the rows of a table\<close>
named_theorems js_simps \<open>exact evaluation of JavaScript number operations\<close>

section \<open>Sequencing of calls that may throw\<close>

text \<open>
  A service call is a value of \<^typ>\<open>'e + 'a\<close>: \<^term>\<open>Inl e\<close> when the code throws \<open>e\<close>,
  \<^term>\<open>Inr x\<close> when it returns. \<open>bindE m f\<close> is \<open>const x = await m; ...\<close>.
\<close>

definition bindE :: "'e + 'a \<Rightarrow> ('a \<Rightarrow> 'e + 'b) \<Rightarrow> 'e + 'b" where
  "bindE m f = (case m of Inl e \<Rightarrow> Inl e | Inr x \<Rightarrow> f x)"

definition guardE :: "bool \<Rightarrow> 'e \<Rightarrow> 'e + unit" where
  "guardE ok e = (if ok then Inr () else Inl e)"

definition ofOption :: "'e \<Rightarrow> 'a option \<Rightarrow> 'e + 'a" where
  "ofOption e v = (case v of None \<Rightarrow> Inl e | Some x \<Rightarrow> Inr x)"

text \<open>The nullish operator \<open>a ?? b\<close> with a non-null right side, and with a nullable one.\<close>

definition nullish :: "'a option \<Rightarrow> 'a \<Rightarrow> 'a" where
  "nullish v d = (case v of None \<Rightarrow> d | Some x \<Rightarrow> x)"

definition orElse :: "'a option \<Rightarrow> 'a option \<Rightarrow> 'a option" where
  "orElse v w = (case v of None \<Rightarrow> w | Some x \<Rightarrow> Some x)"

fun mapE :: "('a \<Rightarrow> 'e + 'b) \<Rightarrow> 'a list \<Rightarrow> 'e + 'b list" where
  "mapE f [] = Inr []"
| "mapE f (x # xs) = bindE (f x) (\<lambda>y. bindE (mapE f xs) (\<lambda>ys. Inr (y # ys)))"

text \<open>A loop whose body may throw, over an accumulated state.\<close>

fun foldE :: "('a \<Rightarrow> 's \<Rightarrow> 'e + 's) \<Rightarrow> 'a list \<Rightarrow> 's \<Rightarrow> 'e + 's" where
  "foldE f [] s = Inr s"
| "foldE f (x # xs) s = bindE (f x s) (foldE f xs)"

lemma bindE_simps [simp]:
  "bindE (Inl e) f = Inl e" "bindE (Inr x) f = f x"
  by (simp_all add: bindE_def)

text \<open>The continuation is rewritten only once the first call has returned.\<close>

lemma bindE_weak_cong [cong]: "m = m' \<Longrightarrow> bindE m f = bindE m' f"
  by simp

lemma guardE_simps [simp]:
  "guardE True e = Inr ()" "guardE False e = Inl e"
  by (simp_all add: guardE_def)

lemma ofOption_simps [simp]:
  "ofOption e None = Inl e" "ofOption e (Some x) = Inr x"
  by (simp_all add: ofOption_def)

lemma nullish_simps [simp]:
  "nullish None d = d" "nullish (Some x) d = x"
  by (simp_all add: nullish_def)

lemma orElse_simps [simp]:
  "orElse None w = w" "orElse (Some x) w = Some x"
  by (simp_all add: orElse_def)

lemma bindE_eq_Inr [guard_simps]:
  "bindE m f = Inr y \<longleftrightarrow> (\<exists>x. m = Inr x \<and> f x = Inr y)"
  by (cases m) auto

lemma bindE_eq_Inl [guard_simps]:
  "bindE m f = Inl e \<longleftrightarrow> m = Inl e \<or> (\<exists>x. m = Inr x \<and> f x = Inl e)"
  by (cases m) auto

lemma guardE_eq_Inr [guard_simps]: "guardE ok e = Inr u \<longleftrightarrow> ok"
  by (simp add: guardE_def)

lemma guardE_eq_Inl [guard_simps]: "guardE ok e = Inl e' \<longleftrightarrow> \<not> ok \<and> e' = e"
  by (auto simp: guardE_def)

lemma ofOption_eq_Inr [guard_simps]: "ofOption e v = Inr x \<longleftrightarrow> v = Some x"
  by (cases v) auto

lemma ofOption_eq_Inl [guard_simps]: "ofOption e v = Inl e' \<longleftrightarrow> v = None \<and> e' = e"
  by (cases v) auto

lemma bindE_Inl_or_Inr: "(\<exists>e. bindE m f = Inl e) \<or> (\<exists>x y. m = Inr x \<and> f x = Inr y \<and> bindE m f = Inr y)"
  by (cases "bindE m f") (auto simp: bindE_eq_Inr)

lemma foldE_invariant:
  assumes "foldE f xs s = Inr t" and "P s"
    and "\<And>x s s'. x \<in> set xs \<Longrightarrow> P s \<Longrightarrow> f x s = Inr s' \<Longrightarrow> P s'"
  shows "P t"
  using assms
proof (induction xs arbitrary: s)
  case Nil
  then show ?case by simp
next
  case (Cons x xs)
  from Cons.prems(1) obtain s' where "f x s = Inr s'" and rest: "foldE f xs s' = Inr t"
    by (auto simp: bindE_eq_Inr)
  with Cons.prems have "P s'" by auto
  with rest show ?case using Cons.IH Cons.prems(3) by (meson list.set_intros(2))
qed

section \<open>Tables\<close>

text \<open>
  A table is the list of its rows in insertion order. \<open>selectWhere\<close>, \<open>selectOne\<close>
  (a select with \<open>limit(1)\<close>), \<open>updateWhere\<close> and \<open>deleteWhere\<close> are the statements of the
  query builder; an insert appends a row whose key the caller drew from the key supply.
\<close>

definition selectWhere :: "('r \<Rightarrow> bool) \<Rightarrow> 'r list \<Rightarrow> 'r list" where
  "selectWhere P t = filter P t"

definition selectOne :: "('r \<Rightarrow> bool) \<Rightarrow> 'r list \<Rightarrow> 'r option" where
  "selectOne P t = List.find P t"

definition updateWhere :: "('r \<Rightarrow> bool) \<Rightarrow> ('r \<Rightarrow> 'r) \<Rightarrow> 'r list \<Rightarrow> 'r list" where
  "updateWhere P f t = map (\<lambda>r. if P r then f r else r) t"

definition deleteWhere :: "('r \<Rightarrow> bool) \<Rightarrow> 'r list \<Rightarrow> 'r list" where
  "deleteWhere P t = filter (\<lambda>r. \<not> P r) t"

definition insertRow :: "'r \<Rightarrow> 'r list \<Rightarrow> 'r list" where
  "insertRow r t = t @ [r]"

text \<open>\<open>orderBy(col)\<close>: ascending by an integer column, ties in row order.\<close>

definition orderByInt :: "('r \<Rightarrow> int) \<Rightarrow> 'r list \<Rightarrow> 'r list" where
  "orderByInt k t = sort_key k t"

lemma selectOne_Some:
  "selectOne P t = Some r \<Longrightarrow> r \<in> set t \<and> P r"
  by (auto simp: selectOne_def find_Some_iff)

lemma selectOne_None: "selectOne P t = None \<longleftrightarrow> (\<forall>r \<in> set t. \<not> P r)"
  by (auto simp: selectOne_def find_None_iff)

lemma selectOne_append:
  "selectOne P (t @ u) = (case selectOne P t of None \<Rightarrow> selectOne P u | Some r \<Rightarrow> Some r)"
  by (induction t) (auto simp: selectOne_def)

lemma selectOne_insertRow [row_simps]:
  "selectOne P (insertRow r t) =
     (case selectOne P t of None \<Rightarrow> (if P r then Some r else None) | Some q \<Rightarrow> Some q)"
  unfolding insertRow_def selectOne_append by (simp add: selectOne_def split: option.split)

lemma selectWhere_insertRow [row_simps]:
  "selectWhere P (insertRow r t) = selectWhere P t @ (if P r then [r] else [])"
  by (simp add: selectWhere_def insertRow_def)

lemma set_insertRow [row_simps]: "set (insertRow r t) = insert r (set t)"
  by (simp add: insertRow_def)

lemma set_updateWhere [row_simps]:
  "set (updateWhere P f t) = (\<lambda>r. if P r then f r else r) ` set t"
  by (simp add: updateWhere_def)

lemma set_deleteWhere [row_simps]: "set (deleteWhere P t) = {r \<in> set t. \<not> P r}"
  by (auto simp: deleteWhere_def)

lemma set_selectWhere [row_simps]: "set (selectWhere P t) = {r \<in> set t. P r}"
  by (auto simp: selectWhere_def)

text \<open>A statement that keeps a column keeps every selection by that column.\<close>

lemma selectOne_updateWhere [row_simps]:
  assumes "\<And>r. P r \<Longrightarrow> k (f r) = k r"
  shows "selectOne (\<lambda>r. k r = v) (updateWhere P f t) =
    map_option (\<lambda>r. if P r then f r else r) (selectOne (\<lambda>r. k r = v) t)"
  using assms by (induction t) (auto simp: selectOne_def updateWhere_def)

lemma selectOne_updateWhere_same:
  "(\<And>r. P r \<Longrightarrow> P (f r)) \<Longrightarrow> selectOne P (updateWhere P f t) = map_option f (selectOne P t)"
  by (induction t) (auto simp: selectOne_def updateWhere_def)

lemma selectOne_updateWhere_other:
  "(\<And>r. P r \<Longrightarrow> \<not> Q r \<and> \<not> Q (f r)) \<Longrightarrow> selectOne Q (updateWhere P f t) = selectOne Q t"
  by (induction t) (auto simp: selectOne_def updateWhere_def)

lemma selectOne_deleteWhere_same [simp]: "selectOne P (deleteWhere P t) = None"
  by (auto simp: selectOne_None deleteWhere_def)

lemma selectOne_deleteWhere_other:
  "(\<And>r. P r \<Longrightarrow> \<not> Q r) \<Longrightarrow> selectOne Q (deleteWhere P t) = selectOne Q t"
  by (induction t) (auto simp: selectOne_def deleteWhere_def)

lemma selectWhere_updateWhere:
  assumes "\<And>r. P r \<Longrightarrow> Q (f r) = Q r"
  shows "selectWhere Q (updateWhere P f t) = updateWhere P f (selectWhere Q t)"
  using assms by (induction t) (auto simp: selectWhere_def updateWhere_def)

lemma updateWhere_none [row_simps]:
  "(\<And>r. r \<in> set t \<Longrightarrow> \<not> P r) \<Longrightarrow> updateWhere P f t = t"
  by (induction t) (auto simp: updateWhere_def)

lemma map_updateWhere:
  assumes "\<And>r. P r \<Longrightarrow> k (f r) = k r"
  shows "map k (updateWhere P f t) = map k t"
  using assms by (induction t) (auto simp: updateWhere_def)

text \<open>An update that keeps a key and a mark keeps the keys of the marked rows.\<close>

lemma updateWhere_marks:
  assumes "\<And>r. k (f r) = k r" "\<And>r. Q (f r) = Q r"
  shows "k ` {r \<in> set (updateWhere P f ts). Q r} = k ` {r \<in> set ts. Q r}"
proof -
  have "map k (filter Q (updateWhere P f ts)) = map k (filter Q ts)" using assms by (induction ts) (simp_all add: updateWhere_def)
  then show ?thesis by (metis set_map set_filter)
qed

lemma length_updateWhere [simp]: "length (updateWhere P f t) = length t"
  by (simp add: updateWhere_def)

subsection \<open>Keys\<close>

text \<open>\<open>key_ok k n t\<close>: the primary key \<open>k\<close> is unique in \<open>t\<close> and was drawn from the supply below \<open>n\<close>.\<close>

definition key_ok :: "('r \<Rightarrow> nat) \<Rightarrow> nat \<Rightarrow> 'r list \<Rightarrow> bool" where
  "key_ok k n t \<longleftrightarrow> distinct (map k t) \<and> (\<forall>r \<in> set t. k r < n)"

lemma key_ok_Nil [simp]: "key_ok k n []"
  by (simp add: key_ok_def)

lemma key_ok_mono: "key_ok k n t \<Longrightarrow> n \<le> m \<Longrightarrow> key_ok k m t"
  by (auto simp: key_ok_def)

lemma key_ok_insertRow: "key_ok k n t \<Longrightarrow> k r = n \<Longrightarrow> key_ok k (Suc n) (insertRow r t)"
  by (auto simp: key_ok_def insertRow_def)

lemma key_ok_updateWhere:
  assumes "key_ok k n t" and "\<And>r. P r \<Longrightarrow> k (f r) = k r"
  shows "key_ok k n (updateWhere P f t)"
  using assms by (auto simp: key_ok_def map_updateWhere set_updateWhere)

lemma key_ok_map: "map k t' = map k t \<Longrightarrow> key_ok k n t' = key_ok k n t"
  unfolding key_ok_def by (metis (mono_tags, lifting) image_iff list.set_map)

lemma key_ok_updateWhere_iff: "(\<And>r. P r \<Longrightarrow> k (f r) = k r) \<Longrightarrow> key_ok k n (updateWhere P f t) = key_ok k n t"
  by (rule key_ok_map[OF map_updateWhere])

lemma key_ok_deleteWhere: "key_ok k n t \<Longrightarrow> key_ok k n (deleteWhere P t)"
  by (auto simp: key_ok_def deleteWhere_def distinct_map_filter)

lemma key_ok_unique:
  "key_ok k n t \<Longrightarrow> r \<in> set t \<Longrightarrow> q \<in> set t \<Longrightarrow> k r = k q \<Longrightarrow> r = q"
  by (auto simp: key_ok_def distinct_map inj_on_def)

lemma selectOne_key:
  assumes "key_ok k n t" "r \<in> set t"
  shows "selectOne (\<lambda>q. k q = k r) t = Some r"
proof (cases "selectOne (\<lambda>q. k q = k r) t")
  case None
  with assms(2) show ?thesis by (auto simp: selectOne_None)
next
  case (Some q)
  then show ?thesis using selectOne_Some[OF Some] key_ok_unique[OF assms(1)] assms(2) by simp
qed

lemma selectOne_fresh: "key_ok k n t \<Longrightarrow> n \<le> i \<Longrightarrow> selectOne (\<lambda>r. k r = i) t = None"
  by (auto simp: key_ok_def selectOne_None)

section \<open>Sums and maxima over rows\<close>

lemma sum_list_map_cong: "(\<And>x. x \<in> set xs \<Longrightarrow> f x = g x) \<Longrightarrow> sum_list (map f xs) = sum_list (map g xs)"
  by (metis map_cong)

lemma filter_True_if: "(\<And>x. x \<in> set xs \<Longrightarrow> P x) \<Longrightarrow> filter P xs = xs"
  by (induction xs) auto

end
