(* ===== verification/JsNumber.thy ===== *)
theory JsNumber
  imports Prelude
begin

text \<open>
  JavaScript numbers as the money code uses them. A finite double is the rational it denotes;
  \<open>rnd\<close> is the IEEE 754 binary64 rounding (round to nearest, ties to even, gradual underflow at
  exponent -1074) that every arithmetic operation and every \<open>Number(s)\<close> conversion applies to
  the exact result. Magnitudes of \<open>2\<^sup>1\<^sup>0\<^sup>2\<^sup>4\<close> and above (infinities) are outside the range:
  the amounts of the program come from \<open>numeric(12,2)\<close> columns.
  The second half is a small relative-error calculus: \<open>approx k x y\<close> says that \<open>x\<close> is \<open>y\<close>
  up to \<open>k\<close> units of \<open>2\<^sup>-\<^sup>5\<^sup>3\<close>.
\<close>

type_synonym jsnum = rat

section \<open>Definitions\<close>

fun blen :: "int \<Rightarrow> int" where
  "blen n = (if n \<le> 0 then 0 else 1 + blen (n div 2))"

definition flog2 :: "rat \<Rightarrow> int" where
  "flog2 x = (case quotient_of x of (p, q) \<Rightarrow>
     let l = blen p - blen q
     in if (2 :: rat) powi l \<le> x then l else l - 1)"

definition round_even :: "rat \<Rightarrow> int" where
  "round_even y = (let f = \<lfloor>y\<rfloor>; r = y - of_int f
     in if r < 1 / 2 then f else if 1 / 2 < r then f + 1 else if even f then f else f + 1)"

definition rnd :: "rat \<Rightarrow> jsnum" where
  "rnd x = (if x = 0 then 0
     else let e = max (flog2 \<bar>x\<bar> - 52) (- 1074)
          in of_int (round_even (x / 2 powi e)) * 2 powi e)"

text \<open>\<open>Number(s)\<close> of a decimal literal, and the arithmetic operators.\<close>

definition js_Number :: "rat \<Rightarrow> jsnum" where
  "js_Number v = rnd v"

definition fadd :: "jsnum \<Rightarrow> jsnum \<Rightarrow> jsnum" where
  "fadd a b = rnd (a + b)"

definition fsub :: "jsnum \<Rightarrow> jsnum \<Rightarrow> jsnum" where
  "fsub a b = rnd (a - b)"

definition fmul :: "jsnum \<Rightarrow> jsnum \<Rightarrow> jsnum" where
  "fmul a b = rnd (a * b)"

definition fdiv :: "jsnum \<Rightarrow> jsnum \<Rightarrow> jsnum" where
  "fdiv a b = rnd (a / b)"

definition Math_floor :: "jsnum \<Rightarrow> jsnum" where
  "Math_floor x = of_int \<lfloor>x\<rfloor>"

text \<open>\<open>Math.round\<close>: the closest integer, the larger one on a tie.\<close>

definition Math_round :: "jsnum \<Rightarrow> jsnum" where
  "Math_round x = of_int \<lfloor>x + 1 / 2\<rfloor>"

text \<open>
  \<open>x.toFixed(d)\<close>: the decimal with \<open>d\<close> places closest to the exact value of the double, the
  larger magnitude on a tie; the sign is put in front. The result is the value of the string.
\<close>

definition toFixed :: "nat \<Rightarrow> jsnum \<Rightarrow> rat" where
  "toFixed d x = sgn x * (of_int \<lfloor>\<bar>x\<bar> * 10 ^ d + 1 / 2\<rfloor> / 10 ^ d)"

text \<open>\<open>a % b\<close> on integers: the remainder has the sign of the dividend.\<close>

definition js_rem :: "int \<Rightarrow> int \<Rightarrow> int" where
  "js_rem a b = (if a < 0 then - ((- a) mod \<bar>b\<bar>) else a mod \<bar>b\<bar>)"

section \<open>Rounding\<close>

declare blen.simps [simp del]

lemma blen_nonneg: "0 \<le> blen n"
  by (induction n rule: blen.induct) (subst blen.simps, simp)

lemma blen_bounds:
  "0 < n \<Longrightarrow> (2::rat) powi (blen n - 1) \<le> of_int n \<and> of_int n < (2::rat) powi (blen n)"
proof (induction n rule: blen.induct)
  case (1 n)
  have eq: "blen n = 1 + blen (n div 2)" using 1(2) by (simp add: blen.simps[of n])
  show ?case
  proof (cases "n div 2 \<le> 0")
    case True
    then have "n = 1" using 1(2) by linarith
    then show ?thesis by (simp add: eq blen.simps)
  next
    case False
    define b where "b = blen (n div 2)"
    have ih: "(2::rat) powi (b - 1) \<le> of_int (n div 2)" "of_int (n div 2) < (2::rat) powi b"
      using 1 False by (auto simp: b_def)
    have "1 \<le> b" using False by (simp add: b_def blen.simps[of "n div 2"] blen_nonneg)
    then have ib: "(2::rat) powi b = of_int (2 ^ nat b)" by (simp add: power_int_def)
    have "n div 2 < 2 ^ nat b" using ih(2) unfolding ib by (simp only: of_int_less_iff)
    then have "n < 2 * 2 ^ nat b" by linarith
    then have "of_int n < (of_int (2 * 2 ^ nat b) :: rat)" by (simp only: of_int_less_iff)
    then have u: "of_int n < (2::rat) * 2 powi b" by (simp add: ib)
    have "(2::rat) powi (b - 1) * 2 \<le> of_int (n div 2) * 2" using ih(1) by simp
    also have "\<dots> = of_int (n div 2 * 2)" by simp
    also have "\<dots> \<le> of_int n" using 1(2) by (simp only: of_int_le_iff)
    finally have l: "(2::rat) powi b \<le> of_int n" by (simp add: power_int_diff)
    show ?thesis using l u by (simp add: eq power_int_add flip: b_def)
  qed
qed

lemma powi2_pos [simp]: "0 < (2::rat) powi k"
  by simp

lemma flog2_bounds:
  assumes "0 < x"
  shows "(2::rat) powi (flog2 x) \<le> x" "x < 2 powi (flog2 x + 1)"
proof -
  obtain p q where pq: "quotient_of x = (p, q)" by (cases "quotient_of x")
  have q: "0 < q" using quotient_of_denom_pos[OF pq] .
  have x: "x = of_int p / of_int q" using quotient_of_div[OF pq] .
  have p: "0 < p" using assms x q by (simp add: zero_less_divide_iff)
  define l where "l = blen p - blen q"
  note bp = blen_bounds[OF p, THEN conjunct1] blen_bounds[OF p, THEN conjunct2]
  note bq = blen_bounds[OF q, THEN conjunct1] blen_bounds[OF q, THEN conjunct2]
  have "x < 2 powi blen p / 2 powi (blen q - 1)"
    unfolding x by (rule frac_less) (use p q bp bq in auto)
  also have "\<dots> = 2 powi (l + 1)" by (simp add: l_def power_int_diff power_int_add)
  finally have up: "x < 2 powi (l + 1)" .
  have "2 powi (l - 1) = 2 powi (blen p - 1) / (2::rat) powi blen q"
    by (simp add: l_def power_int_diff)
  also have "\<dots> \<le> x"
    unfolding x by (rule frac_le) (use p q bp bq in auto)
  finally have low: "2 powi (l - 1) \<le> x" .
  have f: "flog2 x = (if (2 :: rat) powi l \<le> x then l else l - 1)"
    by (simp add: flog2_def pq l_def Let_def)
  show "(2::rat) powi (flog2 x) \<le> x" "x < 2 powi (flog2 x + 1)"
    using low up by (auto simp: f)
qed

lemma round_even_error: "\<bar>of_int (round_even y) - y\<bar> \<le> 1 / 2"
proof -
  have "of_int \<lfloor>y\<rfloor> \<le> y" "y < of_int \<lfloor>y\<rfloor> + 1" by linarith+
  then show ?thesis by (auto simp: round_even_def Let_def abs_le_iff)
qed

lemma round_even_of_int [simp]: "round_even (of_int n) = n"
  by (simp add: round_even_def Let_def)

lemma rnd_0 [simp]: "rnd 0 = 0"
  by (simp add: rnd_def)

lemma rnd_error:
  assumes "2 powi (- 1022) \<le> \<bar>x\<bar>"
  shows "\<bar>rnd x - x\<bar> \<le> \<bar>x\<bar> * 2 powi (- 53)"
proof -
  have x: "0 < \<bar>x\<bar>" using assms by (meson less_le_trans powi2_pos)
  define k where "k = flog2 \<bar>x\<bar>"
  have kb: "(2::rat) powi k \<le> \<bar>x\<bar>" "\<bar>x\<bar> < 2 powi (k + 1)"
    using flog2_bounds[OF x] by (simp_all add: k_def)
  have "- 1022 \<le> k"
  proof (rule ccontr)
    assume "\<not> - 1022 \<le> k"
    then have "(2::rat) powi (k + 1) \<le> 2 powi (- 1022)" by (intro power_int_increasing) auto
    with kb(2) assms show False by linarith
  qed
  then have e: "max (k - 52) (- 1074) = k - 52" by simp
  define u where "u = (2::rat) powi (k - 52)"
  have u: "0 < u" by (simp add: u_def)
  have r: "rnd x = of_int (round_even (x / u)) * u"
    using x by (simp add: rnd_def Let_def u_def e flip: k_def)
  have "rnd x - x = (of_int (round_even (x / u)) - x / u) * u"
    using u by (simp add: r algebra_simps)
  then have "\<bar>rnd x - x\<bar> = \<bar>of_int (round_even (x / u)) - x / u\<bar> * u"
    using u by (simp add: abs_mult)
  also have "\<dots> \<le> (1 / 2) * u"
    using round_even_error u by (intro mult_right_mono) auto
  also have "\<dots> = 2 powi k * 2 powi (- 53)"
    by (simp add: u_def power_int_diff power_int_minus field_simps)
  also have "\<dots> \<le> \<bar>x\<bar> * 2 powi (- 53)"
    using kb(1) by (intro mult_right_mono) auto
  finally show ?thesis .
qed

lemma rnd_exact:
  assumes "x = of_int m * 2 powi e" "\<bar>m\<bar> < 2 ^ 53" "- 1074 \<le> e"
  shows "rnd x = x"
proof (cases "m = 0")
  case True
  then show ?thesis using assms by simp
next
  case False
  define k where "k = flog2 \<bar>x\<bar>"
  have x: "0 < \<bar>x\<bar>" using False assms by simp
  have kb: "(2::rat) powi k \<le> \<bar>x\<bar>" using flog2_bounds[OF x] by (simp add: k_def)
  have "\<bar>x\<bar> = of_int \<bar>m\<bar> * 2 powi e" using assms by (simp add: abs_mult)
  also have "\<dots> < of_int (2 ^ 53) * 2 powi e"
    using assms(2) by (intro mult_strict_right_mono) (simp_all only: of_int_less_iff powi2_pos)
  also have "\<dots> = 2 powi (53 + e)" by (simp add: power_int_add)
  finally have "(2::rat) powi k < 2 powi (53 + e)" using kb by linarith
  then have "k < 53 + e" by (metis not_less power_int_increasing one_le_numeral leD)
  define f where "f = max (k - 52) (- 1074)"
  have fe: "f \<le> e" using \<open>k < 53 + e\<close> assms(3) by (simp add: f_def)
  have "x / 2 powi f = of_int m * 2 powi (e - f)" using assms(1) by (simp add: power_int_diff)
  also have "\<dots> = of_int (m * 2 ^ nat (e - f))" using fe by (simp add: power_int_def)
  finally have y: "x / 2 powi f = of_int (m * 2 ^ nat (e - f))" .
  have "rnd x = of_int (round_even (x / 2 powi f)) * 2 powi f"
    using x by (simp add: rnd_def Let_def f_def flip: k_def)
  also have "\<dots> = x / 2 powi f * 2 powi f" unfolding y round_even_of_int ..
  also have "\<dots> = x" by simp
  finally show ?thesis .
qed

lemma rnd_of_int [js_simps]: "\<bar>n\<bar> < 2 ^ 53 \<Longrightarrow> rnd (of_int n) = of_int n"
  using rnd_exact[of "of_int n" n 0] by simp

lemma rnd_half_int: "\<bar>n\<bar> < 2 ^ 53 \<Longrightarrow> rnd (of_int n / 2) = of_int n / 2"
  using rnd_exact[of "of_int n / 2" n "- 1"] by simp

lemma fadd_of_int [js_simps]:
  "\<bar>a + b\<bar> < 2 ^ 53 \<Longrightarrow> fadd (of_int a) (of_int b) = of_int (a + b)"
  using rnd_of_int[of "a + b"] by (simp add: fadd_def)

lemma fsub_of_int [js_simps]:
  "\<bar>a - b\<bar> < 2 ^ 53 \<Longrightarrow> fsub (of_int a) (of_int b) = of_int (a - b)"
  using rnd_of_int[of "a - b"] by (simp add: fsub_def)

lemma fmul_0 [simp]: "fmul x 0 = 0" "fmul 0 x = 0"
  by (simp_all add: fmul_def)

lemma js_Number_0 [simp]: "js_Number 0 = 0"
  by (simp add: js_Number_def)

lemma Math_round_of_int [simp]: "Math_round (of_int n) = of_int n"
  by (simp add: Math_round_def) linarith

lemma Math_floor_of_int [simp]: "Math_floor (of_int n) = of_int n"
  by (simp add: Math_floor_def)

lemma toFixed_0 [simp]: "toFixed d 0 = 0"
  by (simp add: toFixed_def)

section \<open>Relative error\<close>

definition approx :: "rat \<Rightarrow> rat \<Rightarrow> rat \<Rightarrow> bool" where
  "approx k x y \<longleftrightarrow> \<bar>x - y\<bar> \<le> \<bar>y\<bar> * (k / 2 ^ 53)"

text \<open>\<open>in_range y\<close>: zero, or far above the subnormal range.\<close>

definition in_range :: "rat \<Rightarrow> bool" where
  "in_range y \<longleftrightarrow> y = 0 \<or> 1 / 2 ^ 64 \<le> \<bar>y\<bar>"

lemma powi_m1022_le: "(2::rat) powi (- 1022) \<le> 1 / 2 ^ 65"
proof -
  have "(2::rat) powi (- 1022) \<le> 2 powi (- 65)" by (rule power_int_increasing) auto
  also have "\<dots> = 1 / 2 ^ 65" by (simp add: power_int_minus field_simps)
  finally show ?thesis .
qed

lemma approx_refl [simp]: "0 \<le> k \<Longrightarrow> approx k x x"
  by (simp add: approx_def)

lemma approx_mono: "approx k x y \<Longrightarrow> k \<le> l \<Longrightarrow> approx l x y"
  unfolding approx_def by (meson order_trans mult_left_mono divide_right_mono abs_ge_zero zero_le_power zero_le_numeral)

lemma approx_rnd:
  assumes "approx k x y" "0 \<le> k" "k \<le> 2 ^ 20" "in_range y"
  shows "approx (k + 2) (rnd x) y"
proof (cases "y = 0")
  case True
  then show ?thesis using assms(1) by (simp add: approx_def)
next
  case False
  define d where "d = k / (2::rat) ^ 53"
  have d: "0 \<le> d" "d \<le> 1 / 2" using assms(2,3) by (simp_all add: d_def)
  have xy: "\<bar>x - y\<bar> \<le> \<bar>y\<bar> * d" using assms(1) by (simp add: approx_def d_def)
  have xu: "\<bar>x\<bar> \<le> \<bar>y\<bar> * (1 + d)" using xy by (simp add: algebra_simps)
  have yd: "\<bar>y\<bar> * d \<le> \<bar>y\<bar> * (1 / 2)" using d(2) by (rule mult_left_mono) simp
  have "1 / 2 ^ 64 \<le> \<bar>y\<bar>" using assms(4) False by (simp add: in_range_def)
  moreover have "\<bar>y\<bar> / 2 \<le> \<bar>x\<bar>" using xy yd by linarith
  ultimately have "1 / 2 ^ 65 \<le> \<bar>x\<bar>" by (simp add: field_simps)
  then have "2 powi (- 1022) \<le> \<bar>x\<bar>" using powi_m1022_le by linarith
  from rnd_error[OF this] have "\<bar>rnd x - x\<bar> \<le> \<bar>x\<bar> * (1 / 2 ^ 53)"
    by (simp add: power_int_minus field_simps)
  also have "\<dots> \<le> (\<bar>y\<bar> * 2) * (1 / 2 ^ 53)"
    using xu yd by (intro mult_right_mono) (auto simp: algebra_simps)
  finally have r: "\<bar>rnd x - x\<bar> \<le> \<bar>y\<bar> * (2 / 2 ^ 53)" by simp
  have "\<bar>rnd x - y\<bar> \<le> \<bar>y\<bar> * (2 / 2 ^ 53) + \<bar>y\<bar> * d" using r xy by linarith
  also have "\<dots> = \<bar>y\<bar> * ((k + 2) / 2 ^ 53)" by (simp add: d_def field_simps)
  finally show ?thesis by (simp add: approx_def)
qed

lemma approx_scale: "approx k x y \<Longrightarrow> approx k (x * c) (y * c)"
proof -
  assume "approx k x y"
  then have "\<bar>x - y\<bar> * \<bar>c\<bar> \<le> \<bar>y\<bar> * (k / 2 ^ 53) * \<bar>c\<bar>"
    unfolding approx_def by (rule mult_right_mono) simp
  moreover have "\<bar>x * c - y * c\<bar> = \<bar>x - y\<bar> * \<bar>c\<bar>"
    by (metis abs_mult left_diff_distrib)
  ultimately show ?thesis by (simp add: approx_def abs_mult ac_simps)
qed

lemma approx_mult:
  assumes "approx k a y" "approx l b z" "0 \<le> k" "0 \<le> l" "k \<le> 2 ^ 20" "l \<le> 2 ^ 20"
  shows "approx (k + l + 1) (a * b) (y * z)"
proof -
  define p where "p = k / (2::rat) ^ 53"
  define q where "q = l / (2::rat) ^ 53"
  have pq: "0 \<le> p" "0 \<le> q" using assms by (simp_all add: p_def q_def)
  have ay: "\<bar>a - y\<bar> \<le> \<bar>y\<bar> * p" and bz: "\<bar>b - z\<bar> \<le> \<bar>z\<bar> * q"
    using assms by (simp_all add: approx_def p_def q_def)
  have b: "\<bar>b\<bar> \<le> \<bar>z\<bar> * (1 + q)" using bz by (simp add: algebra_simps)
  have "a * b - y * z = (a - y) * b + y * (b - z)" by (simp add: algebra_simps)
  then have "\<bar>a * b - y * z\<bar> \<le> \<bar>a - y\<bar> * \<bar>b\<bar> + \<bar>y\<bar> * \<bar>b - z\<bar>"
    by (metis abs_mult abs_triangle_ineq)
  also have "\<dots> \<le> (\<bar>y\<bar> * p) * (\<bar>z\<bar> * (1 + q)) + \<bar>y\<bar> * (\<bar>z\<bar> * q)"
    by (intro add_mono mult_mono ay b mult_left_mono bz) (use pq in auto)
  also have "\<dots> = \<bar>y * z\<bar> * (p + q + p * q)" by (simp add: abs_mult algebra_simps)
  also have "\<dots> \<le> \<bar>y * z\<bar> * ((k + l + 1) / 2 ^ 53)"
  proof (rule mult_left_mono)
    have "k * l \<le> 2 ^ 20 * 2 ^ 20" using assms by (intro mult_mono) auto
    then have "p * q \<le> 1 / 2 ^ 53" by (simp add: p_def q_def field_simps)
    then show "p + q + p * q \<le> (k + l + 1) / 2 ^ 53"
      by (simp add: p_def q_def add_divide_distrib)
  qed simp
  finally show ?thesis by (simp add: approx_def)
qed

lemma approx_int_bound:
  assumes "approx k x (of_int c)" "\<bar>of_int c\<bar> * k < (2::rat) ^ 52"
  shows "\<bar>x - of_int c\<bar> < 1 / 2"
proof -
  have "\<bar>x - of_int c\<bar> \<le> \<bar>of_int c\<bar> * k / 2 ^ 53" using assms(1) by (simp add: approx_def)
  also have "\<dots> < 2 ^ 52 / 2 ^ 53" using assms(2) by (intro divide_strict_right_mono) auto
  finally show ?thesis by simp
qed

lemma Math_round_near: "\<bar>x - of_int c\<bar> < 1 / 2 \<Longrightarrow> Math_round x = of_int c"
proof -
  assume "\<bar>x - of_int c\<bar> < 1 / 2"
  then have "\<lfloor>x + 1 / 2\<rfloor> = c" by (intro floor_unique) linarith+
  then show ?thesis by (simp add: Math_round_def)
qed

lemma toFixed_near:
  assumes "\<bar>x * 10 ^ d - of_int c\<bar> < 1 / 2"
  shows "toFixed d x = of_int c / 10 ^ d"
proof -
  consider "x = 0" | "0 < x" | "x < 0" by linarith
  then show ?thesis
  proof cases
    case 1
    with assms have "\<bar>of_int c :: rat\<bar> < 1 / 2" by simp
    then have "c = 0" by linarith
    with 1 show ?thesis by simp
  next
    case 2
    have "\<lfloor>x * 10 ^ d + 1 / 2\<rfloor> = c" using assms by (intro floor_unique) linarith+
    with 2 show ?thesis by (simp add: toFixed_def)
  next
    case 3
    have "\<lfloor>- x * 10 ^ d + 1 / 2\<rfloor> = - c" using assms by (intro floor_unique) linarith+
    with 3 show ?thesis by (simp add: toFixed_def)
  qed
qed

lemma in_range_of_int [simp]: "in_range (of_int c)"
proof (cases "c = 0")
  case False
  then have "(1::rat) \<le> of_int \<bar>c\<bar>" by (simp del: of_int_abs)
  moreover have "(1::rat) / 2 ^ 64 \<le> 1" by simp
  ultimately show ?thesis unfolding in_range_def of_int_abs by linarith
qed (simp add: in_range_def)

lemma in_range_dec: "0 < n \<Longrightarrow> n \<le> 2 ^ 64 \<Longrightarrow> in_range (of_int c / n)"
proof (cases "c = 0")
  case False
  assume n: "0 < n" "n \<le> 2 ^ 64"
  have "(1::rat) \<le> of_int \<bar>c\<bar>" using False by (simp del: of_int_abs)
  then have "1 / 2 ^ 64 \<le> of_int \<bar>c\<bar> / n" using n by (intro frac_le) auto
  then show ?thesis using n by (simp add: in_range_def)
qed (simp add: in_range_def)

end
