(* ===== verification/Calendar.thy ===== *)
theory Calendar
  imports Prelude
begin

text \<open>
  The part of the JavaScript standard library the billing code uses for dates: decimal rendering
  (\<open>String(n)\<close>, \<open>padStart\<close>), \<open>split('-')\<close>, and the UTC side of \<open>Date\<close> (day numbers since
  1970-01-01, \<open>Date.UTC\<close>, the UTC getters, \<open>toISOString().slice(0, 10)\<close>), as ECMAScript
  defines them. Dates in the program are ISO strings \<open>YYYY-MM-DD\<close> compared with \<open><\<close> on
  strings; the last section proves that on years 1000 to 9999 this is chronological order.
\<close>

type_synonym iso_date = string

text \<open>Milliseconds since the epoch, the value of \<open>getTime()\<close>.\<close>

type_synonym instant = int

section \<open>Decimal strings\<close>

definition digit_char :: "int \<Rightarrow> char" where
  "digit_char n = ''0123456789'' ! nat n"

fun show_digits :: "int \<Rightarrow> string" where
  "show_digits n = (if n < 10 then [digit_char n] else show_digits (n div 10) @ [digit_char (n mod 10)])"

definition js_String :: "int \<Rightarrow> string" where
  "js_String n = (if n < 0 then CHR ''-'' # show_digits (- n) else show_digits n)"

definition padStart :: "nat \<Rightarrow> char \<Rightarrow> string \<Rightarrow> string" where
  "padStart w c s = replicate (w - length s) c @ s"

fun splitOn :: "char \<Rightarrow> string \<Rightarrow> string list" where
  "splitOn c [] = [[]]"
| "splitOn c (x # xs) = (if x = c then [] # splitOn c xs
     else case splitOn c xs of [] \<Rightarrow> [[x]] | s # ss \<Rightarrow> (x # s) # ss)"

text \<open>\<open>Number(s)\<close> of a string of decimal digits.\<close>

definition digit_val :: "char \<Rightarrow> int" where
  "digit_val c = of_char c - 48"

fun parse_digits :: "string \<Rightarrow> int" where
  "parse_digits [] = 0"
| "parse_digits (c # cs) = digit_val c * 10 ^ length cs + parse_digits cs"

section \<open>Day numbers\<close>

definition leap_year :: "int \<Rightarrow> bool" where
  "leap_year y \<longleftrightarrow> y mod 4 = 0 \<and> (y mod 100 \<noteq> 0 \<or> y mod 400 = 0)"

definition leap_day :: "int \<Rightarrow> int" where
  "leap_day y = (if leap_year y then 1 else 0)"

definition dayFromYear :: "int \<Rightarrow> int" where
  "dayFromYear y = 365 * (y - 1970) + (y - 1969) div 4 - (y - 1901) div 100 + (y - 1601) div 400"

text \<open>Days of the year before month \<open>m\<close> (0 to 11), given the leap day.\<close>

definition daysBefore :: "int \<Rightarrow> int \<Rightarrow> int" where
  "daysBefore l m =
     (if m = 0 then 0 else if m = 1 then 31 else if m = 2 then 59 + l else if m = 3 then 90 + l
      else if m = 4 then 120 + l else if m = 5 then 151 + l else if m = 6 then 181 + l
      else if m = 7 then 212 + l else if m = 8 then 243 + l else if m = 9 then 273 + l
      else if m = 10 then 304 + l else 334 + l)"

text \<open>\<open>MakeDay\<close>: month and day may lie outside their usual ranges.\<close>

definition makeDay :: "int \<Rightarrow> int \<Rightarrow> int \<Rightarrow> int" where
  "makeDay y m d = (let ym = y + m div 12; mn = m mod 12
     in dayFromYear ym + daysBefore (leap_day ym) mn + d - 1)"

text \<open>\<open>Date.UTC(y, m, d)\<close> as a day number: two-digit years count from 1900.\<close>

definition Date_UTC :: "int \<Rightarrow> int \<Rightarrow> int \<Rightarrow> int" where
  "Date_UTC y m d = makeDay (if 0 \<le> y \<and> y \<le> 99 then 1900 + y else y) m d"

definition yearFromDay :: "int \<Rightarrow> int" where
  "yearFromDay n = (let y = 1970 + (n * 400) div 146097
     in if n < dayFromYear y then y - 1 else if dayFromYear (y + 1) \<le> n then y + 1 else y)"

definition monthFromDay :: "int \<Rightarrow> int" where
  "monthFromDay n = (let y = yearFromDay n; r = n - dayFromYear y; l = leap_day y
     in if r < 31 then 0 else if r < 59 + l then 1 else if r < 90 + l then 2
        else if r < 120 + l then 3 else if r < 151 + l then 4 else if r < 181 + l then 5
        else if r < 212 + l then 6 else if r < 243 + l then 7 else if r < 273 + l then 8
        else if r < 304 + l then 9 else if r < 334 + l then 10 else 11)"

definition dateFromDay :: "int \<Rightarrow> int" where
  "dateFromDay n = (let y = yearFromDay n
     in n - dayFromYear y - daysBefore (leap_day y) (monthFromDay n) + 1)"

abbreviation ms_per_day :: int where
  "ms_per_day \<equiv> 86400000"

definition getUTCFullYear :: "instant \<Rightarrow> int" where
  "getUTCFullYear t = yearFromDay (t div ms_per_day)"

text \<open>\<open>YYYY-MM-DD\<close> of a day number, the date part of \<open>toISOString()\<close>.\<close>

definition isoOfDay :: "int \<Rightarrow> iso_date" where
  "isoOfDay n = padStart 4 (CHR ''0'') (js_String (yearFromDay n)) @ ''-'' @
     padStart 2 (CHR ''0'') (js_String (monthFromDay n + 1)) @ ''-'' @
     padStart 2 (CHR ''0'') (js_String (dateFromDay n))"

definition utcDay :: "instant \<Rightarrow> iso_date" where
  "utcDay t = isoOfDay (t div ms_per_day)"

text \<open>
  Year, month (1 to 12) and day of an ISO date. Every date reaches the code through the
  \<open>YYYY-MM-DD\<close> validator or a \<open>date\<close> column, so there are three segments of digits.
\<close>

definition parts :: "iso_date \<Rightarrow> int \<times> int \<times> int" where
  "parts s = (case splitOn (CHR ''-'') s of
     y # m # d # _ \<Rightarrow> (parse_digits y, parse_digits m, parse_digits d) | _ \<Rightarrow> (0, 0, 0))"

text \<open>The day number of an ISO date, as the \<open>Date\<close> constructor parses it.\<close>

definition dayOfIso :: "iso_date \<Rightarrow> int" where
  "dayOfIso s = (case parts s of (y, m, d) \<Rightarrow> makeDay y (m - 1) d)"

text \<open>\<open>new Date(s + 'T00:00:00Z').getTime()\<close> and \<open>new Date(s + 'T23:59:59Z').getTime()\<close>.\<close>

definition startOfDay :: "iso_date \<Rightarrow> instant" where
  "startOfDay s = dayOfIso s * ms_per_day"

definition endOfDay :: "iso_date \<Rightarrow> instant" where
  "endOfDay s = dayOfIso s * ms_per_day + 86399000"

section \<open>Valid dates\<close>

definition monthLength :: "int \<Rightarrow> int \<Rightarrow> int" where
  "monthLength y m = (if m = 2 then 28 + leap_day y else if m = 4 \<or> m = 6 \<or> m = 9 \<or> m = 11 then 30 else 31)"

definition valid_ymd :: "int \<Rightarrow> int \<Rightarrow> int \<Rightarrow> bool" where
  "valid_ymd y m d \<longleftrightarrow> 1000 \<le> y \<and> y \<le> 9999 \<and> 1 \<le> m \<and> m \<le> 12 \<and> 1 \<le> d \<and> d \<le> monthLength y m"

text \<open>The ISO rendering the program uses, \<open>`${y}-${mm}-${dd}`\<close>.\<close>

definition fmt :: "int \<Rightarrow> int \<Rightarrow> int \<Rightarrow> iso_date" where
  "fmt y m d = js_String y @ ''-'' @ padStart 2 (CHR ''0'') (js_String m) @ ''-'' @
     padStart 2 (CHR ''0'') (js_String d)"

definition valid_iso :: "iso_date \<Rightarrow> bool" where
  "valid_iso s \<longleftrightarrow> (case parts s of (y, m, d) \<Rightarrow> valid_ymd y m d \<and> s = fmt y m d)"

section \<open>Digits\<close>

declare show_digits.simps [simp del]

lemma digit_val_digit [simp]: "0 \<le> n \<Longrightarrow> n < 10 \<Longrightarrow> digit_val (digit_char n) = n"
proof -
  assume "0 \<le> n" "n < 10"
  then have "n = 0 \<or> n = 1 \<or> n = 2 \<or> n = 3 \<or> n = 4 \<or> n = 5 \<or> n = 6 \<or> n = 7 \<or> n = 8 \<or> n = 9"
    by presburger
  then show ?thesis by (auto simp: digit_char_def digit_val_def)
qed

definition all_digits :: "string \<Rightarrow> bool" where
  "all_digits s \<longleftrightarrow> (\<forall>c \<in> set s. 0 \<le> digit_val c \<and> digit_val c < 10)"

lemma parse_append: "parse_digits (s @ t) = parse_digits s * 10 ^ length t + parse_digits t"
  by (induction s) (auto simp: algebra_simps power_add)

lemma parse_show_digits: "0 \<le> n \<Longrightarrow> parse_digits (show_digits n) = n"
proof (induction n rule: show_digits.induct)
  case (1 n)
  then show ?case
    by (subst show_digits.simps) (simp add: parse_append pos_imp_zdiv_nonneg_iff)
qed

lemma all_digits_show_digits: "0 \<le> n \<Longrightarrow> all_digits (show_digits n)"
proof (induction n rule: show_digits.induct)
  case (1 n)
  then show ?case
    by (subst show_digits.simps) (simp add: all_digits_def pos_imp_zdiv_nonneg_iff)
qed

lemma length_show_digits:
  "10 ^ k \<le> n \<Longrightarrow> n < 10 ^ Suc k \<Longrightarrow> length (show_digits n) = Suc k"
proof (induction k arbitrary: n)
  case 0
  then show ?case by (subst show_digits.simps) simp
next
  case (Suc k)
  then have "10 ^ k \<le> n div 10" "n div 10 < 10 ^ Suc k" by simp_all
  moreover have "\<not> n < 10"
    using Suc.prems(1) one_le_power[of "10::int" k] unfolding power_Suc by linarith
  ultimately show ?case using Suc.IH by (subst show_digits.simps) simp
qed

lemma parse_bounds: "all_digits s \<Longrightarrow> 0 \<le> parse_digits s \<and> parse_digits s < 10 ^ length s"
proof (induction s)
  case (Cons c s)
  then have ih: "0 \<le> parse_digits s" "parse_digits s < 10 ^ length s"
    and c: "0 \<le> digit_val c" "digit_val c \<le> 9"
    by (auto simp: all_digits_def)
  have "digit_val c * 10 ^ length s \<le> 9 * 10 ^ length s"
    using c(2) by (rule mult_right_mono) simp
  moreover have "0 \<le> digit_val c * 10 ^ length s" using c(1) by simp
  moreover have "(10::int) ^ length (c # s) = 10 * 10 ^ length s" by simp
  ultimately show ?case using ih unfolding parse_digits.simps by linarith
qed simp

lemma char_less_digit: "(c < d) = (digit_val c < digit_val d)"
proof -
  have "(of_char c < (of_char d :: int)) = (of_char c < (of_char d :: nat))"
    using of_nat_of_char[of c, where 'a = int] of_nat_of_char[of d, where 'a = int]
    by linarith
  then show ?thesis by (simp add: less_char_def digit_val_def)
qed

lemma char_eq_digit: "(c = d) = (digit_val c = digit_val d)"
  by (simp add: digit_val_def)

text \<open>On digit strings of one length, string order is numeric order.\<close>

lemma digits_less_iff:
  "length s = length t \<Longrightarrow> all_digits s \<Longrightarrow> all_digits t \<Longrightarrow>
   (s < t) = (parse_digits s < parse_digits t)"
proof (induction s t rule: list_induct2)
  case (Cons c s d t)
  then have s: "0 \<le> parse_digits s" "parse_digits s < 10 ^ length s"
    and t: "0 \<le> parse_digits t" "parse_digits t < 10 ^ length t"
    using parse_bounds[of s] parse_bounds[of t] by (auto simp: all_digits_def)
  have ih: "(s < t) = (parse_digits s < parse_digits t)"
    using Cons by (auto simp: all_digits_def)
  have step: "digit_val c * 10 ^ length s + parse_digits s < digit_val d * 10 ^ length s + parse_digits t"
    if "digit_val c < digit_val d" "parse_digits s < 10 ^ length s" "0 \<le> parse_digits t" for c d s t
  proof -
    have "(digit_val c + 1) * 10 ^ length s \<le> digit_val d * 10 ^ length s"
      using that(1) by (intro mult_right_mono) auto
    then show ?thesis using that by (simp add: algebra_simps)
  qed
  consider "digit_val c < digit_val d" | "digit_val c = digit_val d" | "digit_val d < digit_val c"
    by linarith
  then show ?case
  proof cases
    case 1
    then show ?thesis using step[OF 1 s(2) t(1)] Cons.hyps by (simp add: char_less_digit)
  next
    case 2
    then have "c = d" by (simp only: char_eq_digit)
    then show ?thesis using ih Cons.hyps by simp
  next
    case 3
    have "\<not> c < d" "c \<noteq> d" using 3 by (auto simp: char_less_digit)
    then show ?thesis using step[OF 3 t(2) s(1)] Cons.hyps by simp
  qed
qed simp

lemma digits_eq_iff:
  assumes "length s = length t" "all_digits s" "all_digits t"
  shows "(s = t) = (parse_digits s = parse_digits t)"
  using digits_less_iff[OF assms] digits_less_iff[of t s] assms
  by (metis linorder_neq_iff)

lemma append_less_iff:
  "length s = length t \<Longrightarrow> ((s @ u :: string) < t @ v) = (s < t \<or> s = t \<and> u < v)"
  by (induction s t rule: list_induct2) auto

section \<open>ISO dates\<close>

lemma valid_ymd_ranges:
  assumes "valid_ymd y m d"
  shows "1000 \<le> y" "y \<le> 9999" "1 \<le> m" "m \<le> 12" "1 \<le> d" "d \<le> 31"
proof -
  have "monthLength y m \<le> 31" by (simp add: monthLength_def leap_day_def)
  then show "1000 \<le> y" "y \<le> 9999" "1 \<le> m" "m \<le> 12" "1 \<le> d" "d \<le> 31"
    using assms by (auto simp: valid_ymd_def)
qed

lemma js_String_pad2:
  assumes "0 \<le> n" "n < 100"
  shows "length (padStart 2 (CHR ''0'') (js_String n)) = 2"
    and "parse_digits (padStart 2 (CHR ''0'') (js_String n)) = n"
    and "all_digits (padStart 2 (CHR ''0'') (js_String n))"
proof -
  have z: "digit_val (CHR ''0'') = 0" by (simp add: digit_val_def)
  have s: "js_String n = show_digits n" using assms by (simp add: js_String_def)
  have len: "length (show_digits n) = (if n < 10 then 1 else 2)"
    using assms length_show_digits[of 1 n] by (auto simp: show_digits.simps[of n])
  show "length (padStart 2 (CHR ''0'') (js_String n)) = 2"
    using len by (simp add: s padStart_def)
  show "parse_digits (padStart 2 (CHR ''0'') (js_String n)) = n"
    using len z assms by (simp add: s padStart_def parse_show_digits)
  show "all_digits (padStart 2 (CHR ''0'') (js_String n))"
    using all_digits_show_digits[of n] z assms by (auto simp: s padStart_def all_digits_def)
qed

lemma js_String_year:
  assumes "1000 \<le> y" "y \<le> 9999"
  shows "length (js_String y) = 4" "parse_digits (js_String y) = y" "all_digits (js_String y)"
  using assms length_show_digits[of 3 y] parse_show_digits[of y] all_digits_show_digits[of y]
  by (simp_all add: js_String_def)

lemma fmt_less_iff:
  assumes "valid_ymd y m d" "valid_ymd y' m' d'"
  shows "fmt y m d < fmt y' m' d' \<longleftrightarrow> y < y' \<or> y = y' \<and> (m < m' \<or> m = m' \<and> d < d')"
proof -
  note r = valid_ymd_ranges[OF assms(1)] valid_ymd_ranges[OF assms(2)]
  have Y: "length (js_String y) = 4" "parse_digits (js_String y) = y" "all_digits (js_String y)"
    using r by (simp_all add: js_String_year)
  have Y': "length (js_String y') = 4" "parse_digits (js_String y') = y'" "all_digits (js_String y')"
    using r by (simp_all add: js_String_year)
  have P: "length (padStart 2 (CHR ''0'') (js_String n)) = 2"
     "parse_digits (padStart 2 (CHR ''0'') (js_String n)) = n"
     "all_digits (padStart 2 (CHR ''0'') (js_String n))" if "1 \<le> n" "n \<le> 31" for n
    using js_String_pad2[of n] that by simp_all
  have M: "1 \<le> m" "m \<le> 31" and M': "1 \<le> m'" "m' \<le> 31" using r by auto
  note m = P[OF M] and m' = P[OF M'] and d = P[OF r(5,6)] and d' = P[OF r(11,12)]
  show ?thesis
    by (simp add: fmt_def append_less_iff Y Y' m m' d d' digits_less_iff digits_eq_iff)
qed

lemma splitOn_digits:
  "all_digits s \<Longrightarrow> splitOn (CHR ''-'') (s @ CHR ''-'' # t) = s # splitOn (CHR ''-'') t"
proof (induction s)
  case (Cons c s)
  then have "c \<noteq> CHR ''-''" by (auto simp: all_digits_def digit_val_def)
  then show ?case using Cons by (simp add: all_digits_def)
qed simp

lemma splitOn_digits_end: "all_digits s \<Longrightarrow> splitOn (CHR ''-'') s = [s]"
proof (induction s)
  case (Cons c s)
  then have "c \<noteq> CHR ''-''" by (auto simp: all_digits_def digit_val_def)
  then show ?case using Cons by (simp add: all_digits_def)
qed simp

lemma parts_fmt:
  assumes "valid_ymd y m d"
  shows "parts (fmt y m d) = (y, m, d)"
proof -
  note r = valid_ymd_ranges[OF assms]
  note Y = js_String_year[OF r(1,2)]
  have M: "0 \<le> m" "m < 100" and D: "0 \<le> d" "d < 100" using r by auto
  note m = js_String_pad2[OF M] and d = js_String_pad2[OF D]
  show ?thesis
    by (simp add: parts_def fmt_def splitOn_digits splitOn_digits_end Y m d)
qed

lemma valid_iso_fmt: "valid_ymd y m d \<Longrightarrow> valid_iso (fmt y m d)"
  by (simp add: valid_iso_def parts_fmt)

lemma valid_isoE:
  assumes "valid_iso s"
  obtains y m d where "valid_ymd y m d" "s = fmt y m d"
  using assms by (auto simp: valid_iso_def split: prod.splits)

lemma fmt_le_iff:
  assumes "valid_ymd y m d" "valid_ymd y' m' d'"
  shows "fmt y m d \<le> fmt y' m' d' \<longleftrightarrow> y < y' \<or> y = y' \<and> (m < m' \<or> m = m' \<and> d \<le> d')"
  using fmt_less_iff[OF assms(2,1)] by (auto simp: not_less[symmetric])

lemma fmt_inject:
  "valid_ymd y m d \<Longrightarrow> valid_ymd y' m' d' \<Longrightarrow>
   fmt y m d = fmt y' m' d' \<longleftrightarrow> y = y' \<and> m = m' \<and> d = d'"
  by (metis parts_fmt prod.inject)

section \<open>Day numbers and civil dates\<close>

lemma div_step:
  assumes "0 < (k::int)" "b = a + 1" "b = x + k * c"
  shows "b div k = a div k + (if x mod k = 0 then 1 else 0)"
proof -
  define q r where "q = x div k" and "r = x mod k"
  have x: "x = k * q + r" and r: "0 \<le> r" "r < k" using assms(1) by (simp_all add: q_def r_def)
  have b: "b div k = q + c" using assms(1,3) by (simp add: q_def)
  show ?thesis
  proof (cases "r = 0")
    case True
    have "a div k = q + c - 1"
      by (rule int_div_pos_eq[of _ _ _ "k - 1"]) (use x True assms in \<open>auto simp: algebra_simps\<close>)
    then show ?thesis using b True by (simp add: r_def)
  next
    case False
    have "a div k = q + c"
      by (rule int_div_pos_eq[of _ _ _ "r - 1"]) (use x r False assms in \<open>auto simp: algebra_simps\<close>)
    then show ?thesis using b False by (simp add: r_def)
  qed
qed

lemma dayFromYear_Suc: "dayFromYear (y + 1) = dayFromYear y + 365 + leap_day y"
proof -
  have s4: "(y + 1 - 1969) div 4 = (y - 1969) div 4 + (if y mod 4 = 0 then 1 else 0)"
    by (rule div_step[of _ _ _ _ "- 492"]) simp_all
  have s100: "(y + 1 - 1901) div 100 = (y - 1901) div 100 + (if y mod 100 = 0 then 1 else 0)"
    by (rule div_step[of _ _ _ _ "- 19"]) simp_all
  have s400: "(y + 1 - 1601) div 400 = (y - 1601) div 400 + (if y mod 400 = 0 then 1 else 0)"
    by (rule div_step[of _ _ _ _ "- 4"]) simp_all
  have m: "y mod 100 mod 4 = y mod 4" "y mod 400 mod 100 = y mod 100"
    by (rule mod_mod_cancel, simp)+
  have m': "y mod 400 = 0 \<Longrightarrow> y mod 100 = 0" "y mod 100 = 0 \<Longrightarrow> y mod 4 = 0"
    using m by (metis mod_0)+
  have gen: "365 * (y + 1 - 1970) + (A + P) - (B + Q) + (C + R) =
      365 * (y - 1970) + A - B + C + 365 + (P - Q + R)" for A B C P Q R :: int
    by simp
  have leap: "leap_day y = (if y mod 4 = 0 then 1 else 0) - (if y mod 100 = 0 then 1 else 0)
      + (if y mod 400 = 0 then 1 else 0)"
    unfolding leap_day_def leap_year_def using m'
    by (cases "y mod 4 = 0"; cases "y mod 100 = 0"; cases "y mod 400 = 0")
       (simp_all only: simp_thms if_True if_False if_cancel refl diff_0_right diff_self add_0 add_0_right)
  show ?thesis unfolding leap dayFromYear_def s4 s100 s400 by (rule gen)
qed

lemma leap_day_range: "0 \<le> leap_day y" "leap_day y \<le> 1"
  by (simp_all add: leap_day_def)

lemma dayFromYear_mono: "x \<le> y \<Longrightarrow> dayFromYear x \<le> dayFromYear y"
proof (induction y rule: int_ge_induct)
  case (step y)
  then show ?case using dayFromYear_Suc[of y] leap_day_range(1)[of y] by linarith
qed simp

lemma div_range: "0 < (c::int) \<Longrightarrow> c * (x div c) \<le> x \<and> x \<le> c * (x div c) + c - 1"
  using mult_div_mod_eq[of c x] pos_mod_sign[of c x] pos_mod_bound[of c x] by linarith

lemma dayFromYear_bounds:
  shows dayFromYear_upper: "400 * dayFromYear (1970 + k) \<le> 146097 * k + 589"
    and dayFromYear_lower: "146097 * k - 506 \<le> 400 * dayFromYear (1970 + k)"
proof -
  have d: "dayFromYear (1970 + k) = 365 * k + (k + 1) div 4 - (k + 69) div 100 + (k + 369) div 400"
    by (simp add: dayFromYear_def algebra_simps)
  note b = div_range[of 4 "k + 1"] div_range[of 100 "k + 69"] div_range[of 400 "k + 369"]
  show "400 * dayFromYear (1970 + k) \<le> 146097 * k + 589" using b d by simp
  show "146097 * k - 506 \<le> 400 * dayFromYear (1970 + k)" using b d by simp
qed

lemma yearFromDay_spec: "dayFromYear (yearFromDay n) \<le> n \<and> n < dayFromYear (yearFromDay n + 1)"
proof -
  define e where "e = (n * 400) div 146097"
  have e: "146097 * e \<le> 400 * n" "400 * n < 146097 * e + 146097"
    using div_range[of 146097 "n * 400"] by (simp_all add: e_def)
  define lo hi where "lo = dayFromYear (1970 + (e - 1))" and "hi = dayFromYear (1970 + (e + 2))"
  have "400 * lo \<le> 146097 * (e - 1) + 589" "146097 * (e + 2) - 506 \<le> 400 * hi"
    unfolding lo_def hi_def by (rule dayFromYear_upper dayFromYear_lower)+
  then have "dayFromYear (1970 + (e - 1)) \<le> n" "n < dayFromYear (1970 + (e + 2))"
    using e unfolding lo_def[symmetric] hi_def[symmetric] by simp_all
  then show ?thesis
    by (auto simp: yearFromDay_def Let_def algebra_simps simp flip: e_def)
qed

lemma yearFromDay_unique:
  assumes "dayFromYear y \<le> n" "n < dayFromYear (y + 1)"
  shows "yearFromDay n = y"
proof -
  define z where "z = yearFromDay n"
  have z: "dayFromYear z \<le> n" "n < dayFromYear (z + 1)"
    using yearFromDay_spec[of n] by (auto simp: z_def)
  have "\<not> y + 1 \<le> z" using dayFromYear_mono[of "y + 1" z] z assms by linarith
  moreover have "\<not> z + 1 \<le> y" using dayFromYear_mono[of "z + 1" y] z assms by linarith
  ultimately show ?thesis by (simp add: z_def)
qed

lemma month_cases:
  assumes "1 \<le> m" "m \<le> (12::int)"
  shows "m = 1 \<or> m = 2 \<or> m = 3 \<or> m = 4 \<or> m = 5 \<or> m = 6 \<or> m = 7 \<or> m = 8 \<or> m = 9 \<or> m = 10
    \<or> m = 11 \<or> m = 12"
  using assms by presburger

lemma makeDay_in_year:
  "1 \<le> m \<Longrightarrow> m \<le> 12 \<Longrightarrow>
   makeDay y (m - 1) d = dayFromYear y + daysBefore (leap_day y) (m - 1) + d - 1"
  by (simp add: makeDay_def Let_def)

lemma day_of_year_range:
  assumes "1 \<le> m" "m \<le> 12" "1 \<le> d" "d \<le> monthLength y m"
  shows "0 \<le> daysBefore (leap_day y) (m - 1) + d - 1"
    and "daysBefore (leap_day y) (m - 1) + d - 1 < 365 + leap_day y"
  using month_cases[OF assms(1,2)] assms leap_day_range[of y]
  by (auto simp: daysBefore_def monthLength_def)

text \<open>\<open>Date.UTC\<close> followed by the UTC getters gives back year, month and day.\<close>

lemma civil_makeDay:
  assumes "1 \<le> m" "m \<le> 12" "1 \<le> d" "d \<le> monthLength y m"
  shows "yearFromDay (makeDay y (m - 1) d) = y"
    and "monthFromDay (makeDay y (m - 1) d) = m - 1"
    and "dateFromDay (makeDay y (m - 1) d) = d"
proof -
  define n where "n = makeDay y (m - 1) d"
  have D: "n = dayFromYear y + (daysBefore (leap_day y) (m - 1) + d - 1)"
    using makeDay_in_year[OF assms(1,2), of y d] by (simp add: n_def)
  note r = day_of_year_range[OF assms]
  have y: "yearFromDay n = y"
    by (rule yearFromDay_unique) (use D r dayFromYear_Suc[of y] in auto)
  have s: "n - dayFromYear y = daysBefore (leap_day y) (m - 1) + d - 1" using D by simp
  have m: "monthFromDay n = m - 1"
    using month_cases[OF assms(1,2)] assms(3,4) leap_day_range[of y]
    unfolding monthFromDay_def y Let_def s by (elim disjE) (simp_all add: daysBefore_def monthLength_def)
  have "dateFromDay n = d"
    unfolding dateFromDay_def y m Let_def s by simp
  then show "yearFromDay (makeDay y (m - 1) d) = y" "monthFromDay (makeDay y (m - 1) d) = m - 1"
    "dateFromDay (makeDay y (m - 1) d) = d"
    using y m by (simp_all add: n_def)
qed

lemma isoOfDay_makeDay:
  assumes "valid_ymd y m d"
  shows "isoOfDay (makeDay y (m - 1) d) = fmt y m d"
proof -
  have "1 \<le> m" "m \<le> 12" "1 \<le> d" "d \<le> monthLength y m" using assms by (auto simp: valid_ymd_def)
  note c = civil_makeDay[OF this]
  have "length (js_String y) = 4" using valid_ymd_ranges[OF assms] by (simp add: js_String_year)
  then show ?thesis by (simp add: isoOfDay_def c fmt_def padStart_def)
qed

lemma dayOfIso_fmt: "valid_ymd y m d \<Longrightarrow> dayOfIso (fmt y m d) = makeDay y (m - 1) d"
  by (simp add: dayOfIso_def parts_fmt)

lemma isoOfDay_dayOfIso: "valid_iso s \<Longrightarrow> isoOfDay (dayOfIso s) = s"
  by (elim valid_isoE) (simp add: dayOfIso_fmt isoOfDay_makeDay)

lemma makeDay_year_less:
  assumes "y < y'" "1 \<le> m" "m \<le> 12" "1 \<le> d" "d \<le> monthLength y m" "1 \<le> m'" "m' \<le> 12" "1 \<le> d'" "d' \<le> monthLength y' m'"
  shows "makeDay y (m - 1) d < makeDay y' (m' - 1) d'"
proof -
  have "makeDay y (m - 1) d < dayFromYear (y + 1)"
    using makeDay_in_year[OF assms(2,3), of y d] day_of_year_range(2)[OF assms(2-5)]
      dayFromYear_Suc[of y]
    by linarith
  also have "\<dots> \<le> dayFromYear y'" using assms(1) by (intro dayFromYear_mono) simp
  also have "\<dots> \<le> makeDay y' (m' - 1) d'"
    using makeDay_in_year[OF assms(6,7)] day_of_year_range(1)[OF assms(6-9)] by simp
  finally show ?thesis .
qed

lemma makeDay_month_less:
  assumes "m < m'" "1 \<le> m" "m' \<le> 12" "d \<le> monthLength y m" "1 \<le> d'"
  shows "makeDay y (m - 1) d < makeDay y (m' - 1) d'"
proof -
  have "daysBefore (leap_day y) (m - 1) + monthLength y m \<le> daysBefore (leap_day y) (m' - 1)"
    using month_cases[of m] assms leap_day_range[of y] by (auto simp: daysBefore_def monthLength_def)
  then show ?thesis using assms makeDay_in_year[of m y d] makeDay_in_year[of m' y d'] by simp
qed

text \<open>String order of ISO dates is the order of the days they name.\<close>

lemma fmt_less_imp_day:
  assumes "valid_ymd y m d" "valid_ymd y' m' d'" "fmt y m d < fmt y' m' d'"
  shows "makeDay y (m - 1) d < makeDay y' (m' - 1) d'"
proof -
  have v: "1 \<le> m" "m \<le> 12" "1 \<le> d" "d \<le> monthLength y m" "1 \<le> m'" "m' \<le> 12" "1 \<le> d'" "d' \<le> monthLength y' m'"
    using assms by (auto simp: valid_ymd_def)
  from assms(3) fmt_less_iff[OF assms(1,2)]
  consider "y < y'" | "y = y'" "m < m'" | "y = y'" "m = m'" "d < d'" by blast
  then show ?thesis
  proof cases
    case 1
    then show ?thesis using v by (intro makeDay_year_less)
  next
    case 2
    then show ?thesis using v makeDay_month_less[of m m' d y d'] by simp
  next
    case 3
    then show ?thesis by (simp add: makeDay_def Let_def)
  qed
qed

lemma iso_less_iff:
  assumes "valid_iso s" "valid_iso t"
  shows "s < t \<longleftrightarrow> dayOfIso s < dayOfIso t"
proof -
  obtain y m d where s: "valid_ymd y m d" "s = fmt y m d" using assms(1) by (rule valid_isoE)
  obtain y' m' d' where t: "valid_ymd y' m' d'" "t = fmt y' m' d'" using assms(2) by (rule valid_isoE)
  consider "s < t" | "s = t" | "t < s" by (rule linorder_cases)
  then show ?thesis
  proof cases
    case 1
    then show ?thesis using fmt_less_imp_day[OF s(1) t(1)] s t by (simp add: dayOfIso_fmt)
  next
    case 3
    then show ?thesis using fmt_less_imp_day[OF t(1) s(1)] s t by (simp add: dayOfIso_fmt)
  qed simp
qed

lemma iso_le_iff: "valid_iso s \<Longrightarrow> valid_iso t \<Longrightarrow> s \<le> t \<longleftrightarrow> dayOfIso s \<le> dayOfIso t"
  using iso_less_iff[of t s] by (simp add: not_less[symmetric])

end
