(* ===== verification/Money.thy ===== *)
theory Money
  imports JsNumber Calendar
begin

text \<open>
  The money arithmetic: \<open>invoiceMath.ts\<close>, \<open>quoteMath.ts\<close> and \<open>stripeMoney.ts\<close>. Amounts are
  decimal strings in the code (columns \<open>numeric(12,2)\<close>, rates \<open>numeric(6,3)\<close>); a string is
  represented by the rational it denotes, and every \<open>Number(s)\<close>, product and sum rounds to
  binary64 as in the code. The lemmas show when this double arithmetic equals exact
  round-half-up arithmetic on cents, which is the contract the comments of the code state.
\<close>

type_synonym money = rat

datatype invoice_status =
  Inv_draft | Inv_sent | Inv_partially_paid | Inv_overdue | Inv_paid | Inv_void

datatype recurrence = Rec_one_time | Rec_monthly | Rec_annual

section \<open>Definitions\<close>

subsection \<open>invoiceMath.ts\<close>

definition toCents :: "money option \<Rightarrow> jsnum" where
  "toCents v = (case v of None \<Rightarrow> 0 | Some x \<Rightarrow> Math_round (fmul (js_Number x) 100))"

definition fromCents :: "jsnum \<Rightarrow> money" where
  "fromCents cents = toFixed 2 (fdiv cents 100)"

definition roundHalfUp :: "jsnum \<Rightarrow> jsnum" where
  "roundHalfUp n = Math_floor (fadd n (1 / 2))"

definition computeLineTotal :: "rat \<Rightarrow> money \<Rightarrow> money" where
  "computeLineTotal quantity unitPrice =
     (let fractionalCents = fmul (fmul (js_Number quantity) (js_Number unitPrice)) 100
      in fromCents (roundHalfUp fractionalCents))"

record totals_line =
  lineTotal :: money
  taxable :: bool
  customerVisible :: bool

record totals =
  subtotal :: money
  taxTotal :: money
  total :: money

text \<open>The loop of \<open>computeInvoiceTotals\<close>: subtotal cents and taxable cents so far.\<close>

fun totalsLoop :: "totals_line list \<Rightarrow> jsnum \<times> jsnum \<Rightarrow> jsnum \<times> jsnum" where
  "totalsLoop [] acc = acc"
| "totalsLoop (l # ls) (subtotalCents, taxableCents) =
     (if \<not> customerVisible l then totalsLoop ls (subtotalCents, taxableCents)
      else let c = toCents (Some (lineTotal l))
           in totalsLoop ls (fadd subtotalCents c,
                if taxable l then fadd taxableCents c else taxableCents))"

definition computeInvoiceTotals :: "totals_line list \<Rightarrow> rat option \<Rightarrow> totals" where
  "computeInvoiceTotals ls taxRate = (case totalsLoop ls (0, 0) of (subtotalCents, taxableCents) \<Rightarrow>
     let rate = (case taxRate of None \<Rightarrow> 0 | Some r \<Rightarrow> js_Number r);
         taxCents = roundHalfUp (fmul taxableCents rate);
         totalCents = fadd subtotalCents taxCents
     in \<lparr> subtotal = fromCents subtotalCents, taxTotal = fromCents taxCents, total = fromCents totalCents \<rparr>)"

definition resolveEffectiveTaxRate :: "bool \<Rightarrow> rat option \<Rightarrow> rat option \<Rightarrow> rat" where
  "resolveEffectiveTaxRate taxExempt orgRate partnerRate =
     (if taxExempt then 0
      else toFixed 3 (js_Number (nullish (orElse orgRate partnerRate) 0)))"

definition deriveInvoiceStatus ::
    "bool \<Rightarrow> bool \<Rightarrow> money \<Rightarrow> money \<Rightarrow> iso_date option \<Rightarrow> instant \<Rightarrow> invoice_status" where
  "deriveInvoiceStatus voided issued tot amountPaid dueDate asOf =
     (if voided then Inv_void
      else if \<not> issued then Inv_draft
      else let balanceCents = fsub (toCents (Some tot)) (toCents (Some amountPaid))
           in if balanceCents \<le> 0 then Inv_paid
              else if (case dueDate of None \<Rightarrow> False | Some d \<Rightarrow> endOfDay d < asOf) then Inv_overdue
              else if toCents (Some amountPaid) > 0 then Inv_partially_paid
              else Inv_sent)"

subsection \<open>quoteMath.ts\<close>

record quote_math_line =
  qm_quantity :: rat
  qm_unitPrice :: money
  qm_taxable :: bool
  qm_customerVisible :: bool
  qm_recurrence :: recurrence

record quote_totals =
  qt_subtotal :: money
  qt_taxTotal :: money
  qt_total :: money
  qt_oneTimeTotal :: money
  qt_monthlyRecurringTotal :: money
  qt_annualRecurringTotal :: money
  qt_dueOnAcceptanceTotal :: money

record quote_sums =
  qs_oneTime :: jsnum
  qs_monthly :: jsnum
  qs_annual :: jsnum
  qs_taxableBasis :: jsnum
  qs_oneTimeTaxableBasis :: jsnum

definition quoteSumsStep :: "quote_math_line \<Rightarrow> quote_sums \<Rightarrow> quote_sums" where
  "quoteSumsStep l s =
     (if \<not> qm_customerVisible l then s
      else let lineCents = toCents (Some (computeLineTotal (qm_quantity l) (qm_unitPrice l)));
               s1 = (case qm_recurrence l of
                       Rec_monthly \<Rightarrow> s \<lparr> qs_monthly := fadd (qs_monthly s) lineCents \<rparr>
                     | Rec_annual \<Rightarrow> s \<lparr> qs_annual := fadd (qs_annual s) lineCents \<rparr>
                     | Rec_one_time \<Rightarrow> s \<lparr> qs_oneTime := fadd (qs_oneTime s) lineCents \<rparr>)
           in if qm_taxable l
              then let s2 = s1 \<lparr> qs_taxableBasis := fadd (qs_taxableBasis s1) lineCents \<rparr>
                   in if qm_recurrence l = Rec_one_time
                      then s2 \<lparr> qs_oneTimeTaxableBasis := fadd (qs_oneTimeTaxableBasis s2) lineCents \<rparr>
                      else s2
              else s1)"

definition quoteSums :: "quote_math_line list \<Rightarrow> quote_sums" where
  "quoteSums ls = fold quoteSumsStep ls
     \<lparr> qs_oneTime = 0, qs_monthly = 0, qs_annual = 0, qs_taxableBasis = 0, qs_oneTimeTaxableBasis = 0 \<rparr>"

definition computeQuoteTotals :: "quote_math_line list \<Rightarrow> jsnum option \<Rightarrow> quote_totals" where
  "computeQuoteTotals ls taxRate =
     (let s = quoteSums ls;
          sub = fadd (fadd (qs_oneTime s) (qs_monthly s)) (qs_annual s);
          rate = nullish taxRate 0;
          taxCents = Math_floor (fadd (fmul (qs_taxableBasis s) rate) (1 / 2));
          oneTimeTaxCents = Math_floor (fadd (fmul (qs_oneTimeTaxableBasis s) rate) (1 / 2))
      in \<lparr> qt_subtotal = fromCents sub, qt_taxTotal = fromCents taxCents,
           qt_total = fromCents (fadd sub taxCents),
           qt_oneTimeTotal = fromCents (qs_oneTime s),
           qt_monthlyRecurringTotal = fromCents (qs_monthly s),
           qt_annualRecurringTotal = fromCents (qs_annual s),
           qt_dueOnAcceptanceTotal = fromCents (fadd (qs_oneTime s) oneTimeTaxCents) \<rparr>)"

subsection \<open>stripeMoney.ts\<close>

datatype stripe_money_error = NonFiniteAmount

definition toUpperChar :: "char \<Rightarrow> char" where
  "toUpperChar c = (if 97 \<le> (of_char c :: int) \<and> (of_char c :: int) \<le> 122
     then char_of ((of_char c :: int) - 32) else c)"

definition ZERO_DECIMAL :: "string list" where
  "ZERO_DECIMAL = [''BIF'', ''CLP'', ''DJF'', ''GNF'', ''JPY'', ''KMF'', ''KRW'', ''MGA'', ''PYG'',
     ''RWF'', ''UGX'', ''VND'', ''VUV'', ''XAF'', ''XOF'', ''XPF'']"

definition isZeroDecimal :: "string \<Rightarrow> bool" where
  "isZeroDecimal currency \<longleftrightarrow> map toUpperChar currency \<in> set ZERO_DECIMAL"

text \<open>The amount is \<open>None\<close> where \<open>Number(amount)\<close> is not finite.\<close>

definition toMinorUnits :: "rat option \<Rightarrow> string \<Rightarrow> stripe_money_error + jsnum" where
  "toMinorUnits amountMajor currency = bindE (ofOption NonFiniteAmount amountMajor) (\<lambda>v.
     let n = js_Number v
     in Inr (if isZeroDecimal currency then Math_round n else Math_round (fmul n 100)))"

definition fromMinorUnits :: "rat option \<Rightarrow> string \<Rightarrow> stripe_money_error + money" where
  "fromMinorUnits minor currency = bindE (ofOption NonFiniteAmount minor) (\<lambda>v.
     let n = js_Number v
     in Inr (if isZeroDecimal currency then toFixed 2 n else toFixed 2 (fdiv n 100)))"

section \<open>Cents\<close>

lemma approx_js_Number: "in_range y \<Longrightarrow> approx 2 (js_Number y) y"
  using approx_rnd[of 0 y y] by (simp add: js_Number_def)

lemma approx_cents: "approx 4 (fmul (js_Number (of_int c / 100)) 100) (of_int c)"
proof -
  have "approx 2 (js_Number (of_int c / 100) * 100) (of_int c / 100 * 100)"
    by (intro approx_scale approx_js_Number in_range_dec) simp_all
  then show ?thesis
    using approx_rnd[of 2 "js_Number (of_int c / 100) * 100" "of_int c"] by (simp add: fmul_def)
qed

lemma toCents_dec [js_simps]:
  assumes "\<bar>c\<bar> < 2 ^ 50"
  shows "toCents (Some (of_int c / 100)) = of_int c"
proof -
  have "of_int \<bar>c\<bar> < (of_int (2 ^ 50) :: rat)" using assms by (simp only: of_int_less_iff)
  then have "\<bar>of_int c\<bar> * 4 < (2::rat) ^ 52" by simp
  from approx_int_bound[OF approx_cents this] show ?thesis
    by (simp add: toCents_def Math_round_near)
qed

lemma fromCents_int [js_simps]:
  assumes "\<bar>c\<bar> < 2 ^ 51"
  shows "fromCents (of_int c) = of_int c / 100"
proof -
  have "approx 2 (rnd (of_int c / 100)) (of_int c / 100)"
    using approx_js_Number[OF in_range_dec[of 100 c]] by (simp add: js_Number_def)
  then have a: "approx 2 (rnd (of_int c / 100) * 100) (of_int c)"
    using approx_scale[of 2 _ "of_int c / 100" 100] by fastforce
  have "of_int \<bar>c\<bar> < (of_int (2 ^ 51) :: rat)" using assms by (simp only: of_int_less_iff)
  then have "\<bar>of_int c\<bar> * 2 < (2::rat) ^ 52" by simp
  from approx_int_bound[OF a this] show ?thesis
    using toFixed_near[of "fdiv (of_int c) 100" 2 c] by (simp add: fromCents_def fdiv_def)
qed

lemma toCents_fromCents: "\<bar>c\<bar> < 2 ^ 50 \<Longrightarrow> toCents (Some (fromCents (of_int c))) = of_int c"
  by (simp add: fromCents_int toCents_dec)

section \<open>Round half up\<close>

text \<open>
  Away from ties, adding one half and flooring in double arithmetic rounds the exact quotient
  \<open>n / (2 h)\<close> half up.
\<close>

lemma floor_away_from_int:
  fixes m d :: int and z :: rat
  assumes "0 < d" "m mod d \<noteq> 0" "\<bar>z - of_int m / of_int d\<bar> < 1 / of_int d"
  shows "\<lfloor>z\<rfloor> = m div d"
proof -
  define q r where "q = m div d" and "r = m mod d"
  have m: "m = d * q + r" by (simp add: q_def r_def)
  have "1 \<le> r" "r \<le> d - 1" using assms(1,2) pos_mod_sign[of d m] pos_mod_bound[of d m]
    unfolding r_def by linarith+
  then have r: "(1::rat) \<le> of_int r" "of_int r \<le> (of_int d - 1 :: rat)"
    using of_int_le_iff[of r "d - 1"] by auto
  have d: "(0::rat) < of_int d" using assms(1) by simp
  have e: "(of_int m :: rat) / of_int d = of_int q + of_int r / of_int d"
    using d by (simp add: m field_simps)
  have "1 / of_int d \<le> (of_int r / of_int d :: rat)" using r d by (simp add: divide_right_mono)
  moreover have "of_int r / of_int d \<le> (1 - 1 / of_int d :: rat)" using r d by (simp add: field_simps)
  ultimately show ?thesis using assms(3) unfolding e q_def[symmetric]
    by (intro floor_unique) linarith+
qed

lemma roundHalfUp_near:
  fixes n h :: int and k x :: rat
  assumes "approx k x (of_int n / of_int (2 * h))" "0 \<le> k" "k \<le> 2 ^ 20" "0 \<le> n" "0 < h"
    and "n mod (2 * h) \<noteq> h" "of_int n * (k + 2) + of_int (2 * h) < (2::rat) ^ 53"
  shows "roundHalfUp x = of_int ((n + h) div (2 * h))"
proof -
  define d where "d = 2 * h"
  define y where "y = (of_int n :: rat) / of_int d"
  define w where "w = (1::rat) / 2 ^ 53"
  have d0: "(0::rat) < of_int d" using assms(5) by (simp add: d_def)
  have y0: "0 \<le> y" using assms(4) d0 by (simp add: y_def)
  have w0: "0 < w" by (simp add: w_def)
  have kw: "0 \<le> k * w" "k * w \<le> 1 / 2" using assms(2,3) by (simp_all add: w_def)
  have xy: "\<bar>x - y\<bar> \<le> y * (k * w)" using assms(1) abs_of_nonneg[OF y0]
    unfolding approx_def d_def[symmetric] y_def[symmetric] w_def by simp
  have yk: "y * (k * w) \<le> y * (1 / 2)" using kw(2) y0 by (rule mult_left_mono)
  have s: "1 / 2 \<le> x + 1 / 2" "x + 1 / 2 \<le> 2 * y + 1 / 2" using xy yk y0 by linarith+
  have "2 powi (- 1022) \<le> \<bar>x + 1 / 2\<bar>" using s(1) powi_m1022_le by simp
  moreover have "2 powi (- 53) = w" by (simp add: w_def power_int_minus field_simps)
  moreover have "\<bar>x + 1 / 2\<bar> = x + 1 / 2" using s(1) by simp
  ultimately have "\<bar>rnd (x + 1 / 2) - (x + 1 / 2)\<bar> \<le> (x + 1 / 2) * w"
    using rnd_error[of "x + 1 / 2"] by metis
  also have "\<dots> \<le> (2 * y + 1 / 2) * w" using s(2) w0 by (intro mult_right_mono) auto
  finally have "\<bar>rnd (x + 1 / 2) - (y + 1 / 2)\<bar> \<le> (2 * y + 1 / 2) * w + y * (k * w)"
    using xy by linarith
  also have "\<dots> = (y * (k + 2) + 1 / 2) * w" by (simp add: algebra_simps)
  also have "\<dots> < 1 / of_int d"
  proof -
    have "(y * (k + 2) + 1 / 2) * of_int d = of_int n * (k + 2) + of_int d / 2"
      using d0 by (simp add: y_def field_simps)
    also have "\<dots> < 2 ^ 53" using assms(7) d0 unfolding d_def[symmetric] by linarith
    finally have "(y * (k + 2) + 1 / 2) * of_int d * w < 2 ^ 53 * w"
      using w0 by (rule mult_strict_right_mono)
    then show ?thesis using d0 by (simp add: w_def field_simps)
  qed
  finally have err: "\<bar>rnd (x + 1 / 2) - (y + 1 / 2)\<bar> < 1 / of_int d" .
  have yh: "y + 1 / 2 = of_int (n + h) / of_int d" using assms(5) by (simp add: y_def d_def field_simps)
  have "(n + h) mod d \<noteq> 0"
  proof
    assume "(n + h) mod d = 0"
    then have "(n + h + h) mod d = h mod d" by (metis add_0 mod_add_left_eq)
    then show False using assms(5,6) by (simp add: d_def add.assoc mult_2[symmetric] del: mult_2)
  qed
  then have "\<lfloor>rnd (x + 1 / 2)\<rfloor> = (n + h) div d"
    using assms(5) err unfolding yh by (intro floor_away_from_int) (auto simp: d_def)
  then show ?thesis by (simp add: roundHalfUp_def Math_floor_def fadd_def d_def)
qed

section \<open>Totals of integer cents\<close>

lemma abs_sum_list_le: "\<bar>sum_list (map f xs)\<bar> \<le> (\<Sum>x\<leftarrow>xs. \<bar>f x\<bar> :: int)"
  by (induction xs) auto

lemma sum_list_filter_le: "(\<Sum>x\<leftarrow>filter P xs. \<bar>f x\<bar> :: int) \<le> (\<Sum>x\<leftarrow>xs. \<bar>f x\<bar>)"
  by (induction xs) auto

text \<open>
  \<open>cents_of\<close> reads the cents of a two-decimal amount; \<open>cents_ok\<close> says an amount has two
  decimals.
\<close>

definition cents_of :: "money \<Rightarrow> int" where
  "cents_of x = \<lfloor>x * 100\<rfloor>"

definition cents_ok :: "money \<Rightarrow> bool" where
  "cents_ok x \<longleftrightarrow> of_int (cents_of x) / 100 = x"

lemma cents_of_dec [simp]: "cents_of (of_int c / 100) = c" and cents_ok_dec [simp]: "cents_ok (of_int c / 100)"
  by (simp_all add: cents_of_def cents_ok_def)

lemma cents_ok_0 [simp]: "cents_ok 0" and cents_of_0 [simp]: "cents_of 0 = 0"
  by (simp_all add: cents_of_def cents_ok_def)

lemma toCents_ok [js_simps]: "cents_ok x \<Longrightarrow> \<bar>cents_of x\<bar> < 2 ^ 50 \<Longrightarrow> toCents (Some x) = of_int (cents_of x)"
  using toCents_dec[of "cents_of x"] by (simp add: cents_ok_def)

definition visible_cents :: "totals_line list \<Rightarrow> int" where
  "visible_cents ls = (\<Sum>l\<leftarrow>filter customerVisible ls. cents_of (lineTotal l))"

definition taxable_cents :: "totals_line list \<Rightarrow> int" where
  "taxable_cents ls = (\<Sum>l\<leftarrow>filter (\<lambda>l. customerVisible l \<and> taxable l) ls. cents_of (lineTotal l))"

definition gross_cents :: "totals_line list \<Rightarrow> int" where
  "gross_cents ls = (\<Sum>l\<leftarrow>ls. \<bar>cents_of (lineTotal l)\<bar>)"

lemma gross_nonneg: "0 \<le> gross_cents ls"
  by (induction ls) (auto simp: gross_cents_def)

lemma totalsLoop_exact:
  assumes "\<forall>l \<in> set ls. cents_ok (lineTotal l)" "gross_cents ls + \<bar>a\<bar> < 2 ^ 50" "gross_cents ls + \<bar>b\<bar> < 2 ^ 50"
  shows "totalsLoop ls (of_int a, of_int b) = (of_int (a + visible_cents ls), of_int (b + taxable_cents ls))"
  using assms
proof (induction ls arbitrary: a b)
  case Nil
  then show ?case by (simp add: visible_cents_def taxable_cents_def)
next
  case (Cons l ls)
  define c where "c = cents_of (lineTotal l)"
  have g: "gross_cents (l # ls) = \<bar>c\<bar> + gross_cents ls" by (simp add: gross_cents_def c_def)
  note n = gross_nonneg[of ls]
  have c: "toCents (Some (lineTotal l)) = of_int c"
    using Cons.prems g n by (simp add: toCents_ok flip: c_def)
  have add: "fadd (of_int a) (of_int c) = of_int (a + c)" "fadd (of_int b) (of_int c) = of_int (b + c)"
    using Cons.prems g n by (simp_all add: fadd_of_int del: of_int_add)
  have v: "visible_cents (l # ls) = (if customerVisible l then c else 0) + visible_cents ls"
    "taxable_cents (l # ls) = (if customerVisible l \<and> taxable l then c else 0) + taxable_cents ls"
    by (simp_all add: visible_cents_def taxable_cents_def c_def)
  have ih: "totalsLoop ls (of_int a', of_int b') = (of_int (a' + visible_cents ls), of_int (b' + taxable_cents ls))"
    if "\<bar>a'\<bar> \<le> \<bar>a\<bar> + \<bar>c\<bar>" "\<bar>b'\<bar> \<le> \<bar>b\<bar> + \<bar>c\<bar>" for a' b'
    using Cons.prems g that by (intro Cons.IH) auto
  show ?case
    using ih[of a b] ih[of "a + c" b] ih[of "a + c" "b + c"]
    by (simp add: c v add Let_def add.assoc del: of_int_add)
qed

lemma visible_le_gross: "\<bar>visible_cents ls\<bar> \<le> gross_cents ls"
  using abs_sum_list_le[of "\<lambda>l. cents_of (lineTotal l)" "filter customerVisible ls"]
    sum_list_filter_le[of "\<lambda>l. cents_of (lineTotal l)" customerVisible ls]
  by (simp add: visible_cents_def gross_cents_def)

lemma taxable_le_gross: "\<bar>taxable_cents ls\<bar> \<le> gross_cents ls"
  using abs_sum_list_le[of "\<lambda>l. cents_of (lineTotal l)" "filter (\<lambda>l. customerVisible l \<and> taxable l) ls"]
    sum_list_filter_le[of "\<lambda>l. cents_of (lineTotal l)" "\<lambda>l. customerVisible l \<and> taxable l" ls]
  by (simp add: taxable_cents_def gross_cents_def)

lemma approx_tax:
  "approx 4 (fmul (of_int t) (js_Number (of_int r / 1000))) (of_int (t * r) / 1000)"
proof -
  have "approx 2 (js_Number (of_int r / 1000) * of_int t) (of_int r / 1000 * of_int t)"
    by (intro approx_scale approx_js_Number in_range_dec) simp_all
  then have "approx 2 (of_int t * js_Number (of_int r / 1000)) (of_int (t * r) / 1000)"
    by (simp add: mult.commute)
  then show ?thesis
    using approx_rnd[of 2 _ "of_int (t * r) / 1000"] in_range_dec[of 1000 "t * r"]
    by (simp add: fmul_def)
qed

lemma tax_half_up:
  assumes "0 \<le> t" "0 \<le> r" "t * r \<le> 10 ^ 15" "(t * r) mod 1000 \<noteq> 500"
  shows "roundHalfUp (fmul (of_int t) (js_Number (of_int r / 1000))) = of_int ((t * r + 500) div 1000)"
proof -
  have "of_int (t * r) \<le> (of_int (10 ^ 15) :: rat)" using assms(3) by (simp only: of_int_le_iff)
  then have "of_int (t * r) * (4 + 2) + of_int (2 * 500) < (2::rat) ^ 53"
    by (simp del: of_int_mult)
  from roundHalfUp_near[OF _ _ _ _ _ _ this] approx_tax[of t r] assms show ?thesis by simp
qed

lemma line_half_up:
  assumes "0 \<le> a" "0 \<le> b" "a * b \<le> 10 ^ 14" "(a * b) mod 100 \<noteq> 50"
  shows "roundHalfUp (fmul (fmul (js_Number (of_int a / 100)) (js_Number (of_int b / 100))) 100)
    = of_int ((a * b + 50) div 100)"
proof -
  define y z where "y = (of_int a / 100 :: rat)" and "z = (of_int b / 100 :: rat)"
  have yz: "y * z = of_int (a * b) / 10000" by (simp add: y_def z_def)
  have "approx (2 + 2 + 1) (js_Number y * js_Number z) (y * z)"
    by (intro approx_mult approx_js_Number) (simp_all add: y_def z_def in_range_dec)
  then have "approx 7 (fmul (js_Number y) (js_Number z)) (y * z)"
    using approx_rnd[of 5 _ "y * z"] in_range_dec[of 10000 "a * b"] unfolding yz by (simp add: fmul_def)
  then have "approx 7 (fmul (js_Number y) (js_Number z) * 100) (y * z * 100)" by (rule approx_scale)
  then have "approx 9 (fmul (fmul (js_Number y) (js_Number z)) 100) (of_int (a * b) / 100)"
    using approx_rnd[of 7 _ "of_int (a * b) / 100"] in_range_dec[of 100 "a * b"] unfolding yz
    by (simp add: fmul_def)
  then have ap: "approx 9 (fmul (fmul (js_Number y) (js_Number z)) 100) (of_int (a * b) / of_int (2 * 50))"
    by simp
  have "of_int (a * b) \<le> (of_int (10 ^ 14) :: rat)" using assms(3) by (simp only: of_int_le_iff)
  then have "of_int (a * b) * (9 + 2) + of_int (2 * 50) < (2::rat) ^ 53"
    by (simp del: of_int_mult)
  from roundHalfUp_near[OF ap _ _ _ _ _ this] assms show ?thesis by (simp add: y_def z_def)
qed

section \<open>Quotes and invoices\<close>

text \<open>The line of an invoice that a quote line becomes.\<close>

definition quoteLineTotals :: "quote_math_line \<Rightarrow> totals_line" where
  "quoteLineTotals l = \<lparr> lineTotal = computeLineTotal (qm_quantity l) (qm_unitPrice l),
     taxable = qm_taxable l, customerVisible = qm_customerVisible l \<rparr>"

abbreviation oneTime :: "quote_math_line \<Rightarrow> bool" where
  "oneTime l \<equiv> qm_recurrence l = Rec_one_time"

lemma quoteSums_oneTime:
  "totalsLoop (map quoteLineTotals (filter oneTime ls)) (qs_oneTime s, qs_oneTimeTaxableBasis s) =
   (qs_oneTime (fold quoteSumsStep ls s), qs_oneTimeTaxableBasis (fold quoteSumsStep ls s))"
proof (induction ls arbitrary: s)
  case (Cons l ls)
  note ih = Cons[of "quoteSumsStep l s"]
  show ?case
    using ih by (cases "qm_recurrence l")
      (auto simp: quoteSumsStep_def quoteLineTotals_def Let_def split: if_splits)
qed simp

section \<open>Properties\<close>

text \<open>
  The cents helpers are exact inverses of each other on every amount a \<open>numeric(12,2)\<close>
  column can hold (and far beyond): writing cents as a decimal string and reading them back in
  double arithmetic loses nothing.
\<close>

theorem cents_round_trip:
  assumes "\<bar>c\<bar> < 2 ^ 50"
  shows "fromCents (of_int c) = of_int c / 100 \<and> toCents (Some (fromCents (of_int c))) = of_int c"
proof -
  have "\<bar>c\<bar> < 2 ^ 51" using assms by simp
  then show ?thesis using assms toCents_fromCents fromCents_int by blast
qed

text \<open>
  \<open>computeLineTotal\<close> rounds the exact product of a two-decimal quantity and a two-decimal
  price half up to cents, for every product that fits \<open>numeric(12,2)\<close> and is not exactly
  halfway between two cents.
\<close>

lemma computeLineTotal_half_up:
  assumes "0 \<le> a" "0 \<le> b" "a * b \<le> 10 ^ 14" "(a * b) mod 100 \<noteq> 50"
  shows "computeLineTotal (of_int a / 100) (of_int b / 100) = of_int ((a * b + 50) div 100) / 100"
proof -
  have "0 \<le> a * b" using assms by simp
  then have "\<bar>(a * b + 50) div 100\<bar> < 2 ^ 51" using assms(3) by simp
  then show ?thesis
    using fromCents_int line_half_up[OF assms] by (simp add: computeLineTotal_def Let_def)
qed

lemma computeLineTotal_half_up_witness:
  "computeLineTotal (of_int 125 / 100) (of_int 1999 / 100) = 2499 / 100"
  using computeLineTotal_half_up[of 125 1999] by simp

text \<open>
  On an exact half cent the double product can fall below the tie: 1.15 hours at 0.50 is
  0.575, which round-half-up makes 0.58, and the code computes 0.57.
\<close>

lemma computeLineTotal_tie_rounds_down:
  "computeLineTotal (115 / 100) (50 / 100) = 57 / 100 \<and> (115 * 50 + 50) div (100::int) = 58"
  by code_simp

text \<open>
  (C26) \<open>computeInvoiceTotals\<close> is exact on cents: the subtotal is the sum of the
  customer-visible lines, the tax is the rate applied to the visible taxable lines rounded half
  up (away from exact ties), and the total is their sum. Hidden lines never count.
\<close>

theorem computeInvoiceTotals_exact:
  assumes "\<forall>l \<in> set ls. cents_ok (lineTotal l)" "gross_cents ls \<le> 10 ^ 12"
    and "0 \<le> taxable_cents ls" "0 \<le> r" "r \<le> 1000" "(taxable_cents ls * r) mod 1000 \<noteq> 500"
  shows "computeInvoiceTotals ls (Some (of_int r / 1000)) =
    \<lparr> subtotal = of_int (visible_cents ls) / 100,
      taxTotal = of_int ((taxable_cents ls * r + 500) div 1000) / 100,
      total = of_int (visible_cents ls + (taxable_cents ls * r + 500) div 1000) / 100 \<rparr>"
proof -
  define v t where "v = visible_cents ls" and "t = taxable_cents ls"
  have vt: "\<bar>v\<bar> \<le> 10 ^ 12" "t \<le> 10 ^ 12" "0 \<le> t"
    using visible_le_gross[of ls] taxable_le_gross[of ls] assms(2,3) by (simp_all add: v_def t_def)
  have loop: "totalsLoop ls (0, 0) = (of_int v, of_int t)"
    using totalsLoop_exact[OF assms(1), of 0 0] assms(2) by (simp add: v_def t_def)
  have tr: "t * r \<le> 10 ^ 12 * 1000" using vt assms(4,5) by (intro mult_mono) auto
  have tax: "roundHalfUp (fmul (of_int t) (js_Number (of_int r / 1000))) = of_int ((t * r + 500) div 1000)"
    using tr vt assms(4,6) by (intro tax_half_up) (auto simp: t_def)
  define w where "w = (t * r + 500) div 1000"
  have "0 \<le> t * r" using vt assms(4) by simp
  then have w: "0 \<le> w" "w \<le> 2 * 10 ^ 12" using tr unfolding w_def by simp_all
  have "fadd (of_int v) (of_int w) = of_int (v + w)" using vt w by (simp add: fadd_of_int del: of_int_add)
  moreover have "fromCents (of_int v) = of_int v / 100" "fromCents (of_int w) = of_int w / 100"
    "fromCents (of_int (v + w)) = of_int (v + w) / 100"
    using vt w by (simp_all add: fromCents_int del: of_int_add)
  ultimately show ?thesis
    using loop tax by (simp add: computeInvoiceTotals_def Let_def flip: v_def t_def w_def)
qed

theorem computeInvoiceTotals_exact_witness:
  "total (computeInvoiceTotals
     [\<lparr> lineTotal = of_int 12999 / 100, taxable = True, customerVisible = True \<rparr>,
      \<lparr> lineTotal = of_int 5000 / 100, taxable = False, customerVisible = True \<rparr>,
      \<lparr> lineTotal = of_int 700 / 100, taxable = True, customerVisible = False \<rparr>] (Some (of_int 83 / 1000)))
   = of_int 19078 / 100"
  by (subst computeInvoiceTotals_exact)
     (simp_all add: gross_cents_def taxable_cents_def visible_cents_def del: of_int_numeral)

text \<open>
  (C27) The amount a quote advertises as due on acceptance is the total of the invoice that
  acceptance creates: \<open>computeQuoteTotals\<close> on all lines agrees exactly, in double arithmetic,
  with \<open>computeInvoiceTotals\<close> on the line totals of the one-time lines, for every tax rate.
\<close>

theorem due_on_acceptance_is_invoice_total:
  "qt_dueOnAcceptanceTotal (computeQuoteTotals ls (map_option js_Number r)) =
   total (computeInvoiceTotals (map quoteLineTotals (filter oneTime ls)) r)"
  using quoteSums_oneTime[of ls "\<lparr> qs_oneTime = 0, qs_monthly = 0, qs_annual = 0, qs_taxableBasis = 0,
      qs_oneTimeTaxableBasis = 0 \<rparr>"]
  by (cases r) (simp_all add: computeQuoteTotals_def computeInvoiceTotals_def quoteSums_def Let_def
      roundHalfUp_def)

text \<open>
  The status of an issued invoice follows its cents exactly: paid when the payments reach
  the total, otherwise overdue once the due date has passed, otherwise partially paid or sent
  according to whether anything was paid.
\<close>

theorem deriveInvoiceStatus_exact:
  assumes "\<bar>t\<bar> < 2 ^ 50" "\<bar>p\<bar> < 2 ^ 50"
  shows "deriveInvoiceStatus False True (of_int t / 100) (of_int p / 100) due now =
    (if t \<le> p then Inv_paid
     else if (case due of None \<Rightarrow> False | Some d \<Rightarrow> endOfDay d < now) then Inv_overdue
     else if 0 < p then Inv_partially_paid else Inv_sent)"
proof -
  have "fsub (of_int t) (of_int p) = of_int (t - p)"
    using assms by (intro fsub_of_int) simp
  then show ?thesis using assms by (simp add: deriveInvoiceStatus_def toCents_dec)
qed

text \<open>
  Stripe's minor units survive the conversion to our decimal string and back, in every
  currency: cents in ordinary ones, whole units in the zero-decimal ones.
\<close>

lemma minor_units_round_trip:
  assumes "\<bar>c\<bar> < 2 ^ 50"
  shows "bindE (fromMinorUnits (Some (of_int c)) cur) (\<lambda>v. toMinorUnits (Some v) cur) = Inr (of_int c)"
proof -
  have n: "js_Number (of_int c) = of_int c" using assms by (simp add: js_Number_def rnd_of_int)
  show ?thesis
  proof (cases "isZeroDecimal cur")
    case True
    have "toFixed 2 (of_int c) = of_int (100 * c) / 10\<^sup>2" by (rule toFixed_near) simp
    then show ?thesis using True by (simp add: fromMinorUnits_def toMinorUnits_def n)
  next
    case False
    have "\<bar>c\<bar> < 2 ^ 51" using assms by simp
    then have f: "toFixed 2 (fdiv (of_int c) 100) = of_int c / 100"
      using fromCents_int[of c] by (simp add: fromCents_def)
    show ?thesis using False toCents_dec[OF assms]
      by (simp add: fromMinorUnits_def toMinorUnits_def n f toCents_def)
  qed
qed

lemma minor_units_round_trip_witness:
  "bindE (fromMinorUnits (Some 1050) ''jpy'') (\<lambda>v. toMinorUnits (Some v) ''jpy'') = Inr 1050 \<and>
   bindE (fromMinorUnits (Some 1050) ''usd'') (\<lambda>v. toMinorUnits (Some v) ''usd'') = Inr 1050 \<and>
   isZeroDecimal ''jpy''"
proof -
  have "isZeroDecimal ''jpy''" by code_simp
  then show ?thesis
    using minor_units_round_trip[of 1050 "''jpy''"] minor_units_round_trip[of 1050 "''usd''"] by simp
qed

text \<open>
  Rates are kept with three decimals of the fraction, so a sales tax of 8.25 percent is
  applied as 8.3 percent.
\<close>

lemma effective_rate_loses_quarter_percent:
  "resolveEffectiveTaxRate False (Some (825 / 10000)) None = 83 / 1000"
  by code_simp

end
