(* ===== verification/ContractMath.thy ===== *)
theory ContractMath
  imports JsNumber Calendar
begin

text \<open>
  The date arithmetic of recurring billing: \<open>contractMath.ts\<close> (period computation, notice
  window, term extension), \<open>quoteExpiry.ts\<close> and the date part of \<open>quoteToContract.ts\<close>.
  Dates are ISO strings, as in the code. The locale \<open>period_schedule\<close> states what the rest
  of the billing code relies on (period starts strictly increase) and derives that a date lies
  in exactly one period; it is interpreted on \<open>computePeriod\<close>.
\<close>

datatype billing_timing = Timing_advance | Timing_arrears

record period =
  periodStart :: iso_date
  periodEnd :: iso_date

section \<open>Definitions\<close>

definition daysInMonth :: "int \<Rightarrow> int \<Rightarrow> int" where
  "daysInMonth year month1 = dateFromDay (Date_UTC year month1 0)"

definition addMonthsClamped :: "iso_date \<Rightarrow> int \<Rightarrow> iso_date" where
  "addMonthsClamped s months = (case parts s of (y, m, d) \<Rightarrow>
     let zeroBased = (m - 1) + months;
         ny = y + zeroBased div 12;
         nm1 = js_rem (js_rem zeroBased 12 + 12) 12 + 1;
         clampedDay = min d (daysInMonth ny nm1)
     in fmt ny nm1 clampedDay)"

text \<open>The same computation with its intermediate values as arguments, for evaluation.\<close>

definition clampYmd :: "int \<Rightarrow> int \<Rightarrow> int \<Rightarrow> iso_date" where
  "clampYmd ny nm1 d = fmt ny nm1 (min d (daysInMonth ny nm1))"

definition shiftYmd :: "int \<Rightarrow> int \<Rightarrow> int \<Rightarrow> iso_date" where
  "shiftYmd y z d = clampYmd (y + z div 12) (js_rem (js_rem z 12 + 12) 12 + 1) d"

lemma addMonthsClamped_code [code]:
  "addMonthsClamped s k = shiftYmd (fst (parts s)) ((fst (snd (parts s)) - 1) + k) (snd (snd (parts s)))"
  by (simp add: addMonthsClamped_def shiftYmd_def clampYmd_def Let_def split: prod.split)

definition computePeriod :: "iso_date \<Rightarrow> int \<Rightarrow> int \<Rightarrow> period" where
  "computePeriod startDate intervalMonths periodIndex =
     \<lparr> periodStart = addMonthsClamped startDate (intervalMonths * periodIndex),
       periodEnd = addMonthsClamped startDate (intervalMonths * (periodIndex + 1)) \<rparr>"

text \<open>The \<open>while\<close> loop of \<open>periodIndexFor\<close> from \<open>idx\<close> on, with its runaway guard.\<close>

function periodIndexLoop :: "iso_date \<Rightarrow> int \<Rightarrow> iso_date \<Rightarrow> int \<Rightarrow> int" where
  "periodIndexLoop startDate intervalMonths asOf idx =
     (if periodStart (computePeriod startDate intervalMonths (idx + 1)) \<le> asOf
      then (if idx + 1 > 100000 then idx + 1
            else periodIndexLoop startDate intervalMonths asOf (idx + 1))
      else idx)"
  by pat_completeness auto
termination
  by (relation "measure (\<lambda>(s, k, a, idx). nat (100001 - idx))") auto

definition periodIndexFor :: "iso_date \<Rightarrow> int \<Rightarrow> iso_date \<Rightarrow> int" where
  "periodIndexFor startDate intervalMonths asOf = periodIndexLoop startDate intervalMonths asOf 0"

definition nextBillingDate :: "iso_date \<Rightarrow> int \<Rightarrow> billing_timing \<Rightarrow> int \<Rightarrow> iso_date" where
  "nextBillingDate startDate intervalMonths billingTiming periodIndex =
     (let p = computePeriod startDate intervalMonths periodIndex
      in if billingTiming = Timing_advance then periodStart p else periodEnd p)"

definition isExpired :: "iso_date option \<Rightarrow> iso_date \<Rightarrow> bool" where
  "isExpired endDate pStart = (case endDate of None \<Rightarrow> False | Some e \<Rightarrow> e \<le> pStart)"

definition addDaysISO :: "iso_date \<Rightarrow> int \<Rightarrow> iso_date" where
  "addDaysISO s days = (case parts s of (y, m, d) \<Rightarrow>
     let dt = Date_UTC y (m - 1) (d + days)
     in fmt (yearFromDay dt) (monthFromDay dt + 1) (dateFromDay dt))"

definition duePeriodStartFor :: "billing_timing \<Rightarrow> iso_date \<Rightarrow> int \<Rightarrow> iso_date" where
  "duePeriodStartFor billingTiming nextBillingAt intervalMonths =
     (if billingTiming = Timing_advance then nextBillingAt
      else addMonthsClamped nextBillingAt (- intervalMonths))"

definition isWithinNoticeWindow :: "iso_date \<Rightarrow> iso_date \<Rightarrow> int \<Rightarrow> bool" where
  "isWithinNoticeWindow asOf endDate noticeDays =
     (let windowStart = addDaysISO endDate (- noticeDays)
      in windowStart \<le> asOf \<and> asOf < endDate)"

function extendTermLoop :: "iso_date \<Rightarrow> int \<Rightarrow> iso_date \<Rightarrow> bool \<Rightarrow> int \<Rightarrow> iso_date \<times> bool" where
  "extendTermLoop duePeriodStart termMonths endDate renewed guard =
     (if isExpired (Some endDate) duePeriodStart
      then let endDate' = addMonthsClamped endDate termMonths
           in if guard + 1 > 100000 then (endDate', True)
              else extendTermLoop duePeriodStart termMonths endDate' True (guard + 1)
      else (endDate, renewed))"
  by pat_completeness auto
termination
  by (relation "measure (\<lambda>(s, t, e, r, guard). nat (100001 - guard))") auto

definition extendTermPastDue :: "iso_date \<Rightarrow> iso_date \<Rightarrow> int \<Rightarrow> iso_date \<times> bool" where
  "extendTermPastDue endDate duePeriodStart termMonths =
     extendTermLoop duePeriodStart termMonths endDate False 0"

text \<open>\<open>isQuoteExpired\<close>: an absent or empty expiry date never expires.\<close>

definition isQuoteExpired :: "iso_date option \<Rightarrow> instant \<Rightarrow> bool" where
  "isQuoteExpired expiryDate asOf = (case expiryDate of
     None \<Rightarrow> False | Some e \<Rightarrow> e \<noteq> [] \<and> e < utcDay asOf)"

datatype month_error = NotIsoDate | MonthsNotPositive

text \<open>The regular expression \<open>^\d{4}-\d{2}-\d{2}$\<close>.\<close>

definition isDigit :: "char \<Rightarrow> bool" where
  "isDigit c \<longleftrightarrow> 0 \<le> digit_val c \<and> digit_val c \<le> 9"

definition isIsoShape :: "string \<Rightarrow> bool" where
  "isIsoShape s \<longleftrightarrow> length s = 10 \<and> s ! 4 = CHR ''-'' \<and> s ! 7 = CHR ''-'' \<and>
     list_all isDigit (take 4 s) \<and> list_all isDigit (take 2 (drop 5 s)) \<and>
     list_all isDigit (take 2 (drop 8 s))"

definition addMonthsToDate :: "iso_date \<Rightarrow> int \<Rightarrow> month_error + iso_date" where
  "addMonthsToDate dateStr months =
     bindE (guardE (isIsoShape dateStr) NotIsoDate) (\<lambda>_.
     bindE (guardE (1 \<le> months) MonthsNotPositive) (\<lambda>_.
     case parts dateStr of (y, m, d) \<Rightarrow>
       let base = Date_UTC y (m - 1) d;
           moved = makeDay (yearFromDay base) (monthFromDay base + months) (dateFromDay base)
       in Inr (isoOfDay moved)))"

section \<open>Adding months\<close>

declare periodIndexLoop.simps [simp del] extendTermLoop.simps [simp del]

text \<open>Months since year 0: the quantity that \<open>addMonthsClamped\<close> shifts.\<close>

definition monthIndex :: "iso_date \<Rightarrow> int" where
  "monthIndex s = (case parts s of (y, m, d) \<Rightarrow> 12 * y + (m - 1))"

definition dayOfMonth :: "iso_date \<Rightarrow> int" where
  "dayOfMonth s = snd (snd (parts s))"

text \<open>The date of month index \<open>k\<close> with day \<open>d\<close>, clamped to the month's length.\<close>

definition clampedDate :: "int \<Rightarrow> int \<Rightarrow> iso_date" where
  "clampedDate d k = fmt (k div 12) (k mod 12 + 1) (min d (monthLength (k div 12) (k mod 12 + 1)))"

text \<open>Month indices of the years 1000 to 9999.\<close>

definition month_ok :: "int \<Rightarrow> bool" where
  "month_ok k \<longleftrightarrow> 12000 \<le> k \<and> k < 120000"

lemma js_rem_mod12: "js_rem (js_rem z 12 + 12) 12 = z mod 12"
proof (cases "z < 0")
  case True
  have "js_rem z 12 + 12 = 12 - (- z) mod 12" using True by (simp add: js_rem_def)
  moreover have "0 \<le> 12 - (- z) mod 12"
    using pos_mod_bound[of 12 "- z"] by linarith
  moreover have "(12 - (- z) mod 12) mod 12 = (12 - (- z)) mod 12" by (rule mod_diff_right_eq)
  ultimately show ?thesis by (simp add: js_rem_def)
next
  case False
  then show ?thesis using pos_mod_sign[of 12 z] by (simp add: js_rem_def)
qed

lemma daysInMonth_eq:
  assumes "100 \<le> y" "1 \<le> m" "m \<le> 12"
  shows "daysInMonth y m = monthLength y m"
proof -
  have d: "1 \<le> monthLength y m" by (simp add: monthLength_def leap_day_def)
  have "makeDay y m 0 = makeDay y (m - 1) (monthLength y m)"
  proof (cases "m = 12")
    case True
    then show ?thesis
      using dayFromYear_Suc[of y] by (simp add: makeDay_def Let_def daysBefore_def monthLength_def)
  next
    case False
    then have "1 \<le> m" "m \<le> 11" using assms by auto
    then show ?thesis using month_cases[of m] False
      by (auto simp: makeDay_def Let_def daysBefore_def monthLength_def)
  qed
  then show ?thesis
    using civil_makeDay(3)[OF assms(2,3) d order_refl] assms(1)
    by (simp add: daysInMonth_def Date_UTC_def)
qed

lemma addMonthsClamped_eq:
  assumes "month_ok (monthIndex s + k)"
  shows "addMonthsClamped s k = clampedDate (dayOfMonth s) (monthIndex s + k)"
proof -
  obtain y m d where p: "parts s = (y, m, d)" by (cases "parts s")
  define z where "z = m - 1 + k"
  have i: "monthIndex s + k = z + y * 12" by (simp add: monthIndex_def p z_def)
  have ny: "y + z div 12 = (z + y * 12) div 12" and nm: "z mod 12 = (z + y * 12) mod 12"
    by simp_all
  have "1000 \<le> (z + y * 12) div 12"
    using assms unfolding i month_ok_def by linarith
  then have "daysInMonth (y + z div 12) (z mod 12 + 1) = monthLength (y + z div 12) (z mod 12 + 1)"
    unfolding ny by (intro daysInMonth_eq) auto
  then show ?thesis
    unfolding addMonthsClamped_def p Let_def js_rem_mod12 dayOfMonth_def clampedDate_def i
      prod.case fst_conv snd_conv z_def[symmetric] ny[symmetric] nm[symmetric]
    by simp
qed

lemma clampedDate_ymd:
  assumes "month_ok k" "1 \<le> d"
  shows "valid_ymd (k div 12) (k mod 12 + 1) (min d (monthLength (k div 12) (k mod 12 + 1)))"
proof -
  have "1 \<le> monthLength (k div 12) (k mod 12 + 1)" by (simp add: monthLength_def leap_day_def)
  moreover have "k mod 12 < 12" "0 \<le> k mod 12" by simp_all
  moreover have "1000 \<le> k div 12" "k div 12 \<le> 9999"
    using assms(1) unfolding month_ok_def by linarith+
  ultimately show ?thesis using assms(2) by (simp add: valid_ymd_def)
qed

lemma valid_clampedDate: "month_ok k \<Longrightarrow> 1 \<le> d \<Longrightarrow> valid_iso (clampedDate d k)"
  unfolding clampedDate_def by (intro valid_iso_fmt clampedDate_ymd)

lemma monthIndex_clampedDate: "month_ok k \<Longrightarrow> 1 \<le> d \<Longrightarrow> monthIndex (clampedDate d k) = k"
  using parts_fmt[OF clampedDate_ymd[of k d]] by (simp add: clampedDate_def monthIndex_def)

lemma dayOfMonth_clampedDate:
  "month_ok k \<Longrightarrow> 1 \<le> d \<Longrightarrow>
   dayOfMonth (clampedDate d k) = min d (monthLength (k div 12) (k mod 12 + 1))"
  using parts_fmt[OF clampedDate_ymd[of k d]] by (simp add: clampedDate_def dayOfMonth_def)

lemma valid_iso_month:
  assumes "valid_iso s"
  shows "month_ok (monthIndex s)" "1 \<le> dayOfMonth s" "s = clampedDate (dayOfMonth s) (monthIndex s)"
proof -
  obtain y m d where v: "valid_ymd y m d" and s: "s = fmt y m d" using assms by (rule valid_isoE)
  note r = valid_ymd_ranges[OF v]
  have p: "parts s = (y, m, d)" using v by (simp add: s parts_fmt)
  have i: "monthIndex s = (m - 1) + y * 12" by (simp add: monthIndex_def p)
  show "month_ok (monthIndex s)" using r by (simp add: i month_ok_def)
  show "1 \<le> dayOfMonth s" using r by (simp add: dayOfMonth_def p)
  have "monthIndex s div 12 = y" "monthIndex s mod 12 = m - 1" using r by (simp_all add: i)
  moreover have "dayOfMonth s = d" by (simp add: dayOfMonth_def p)
  ultimately show "s = clampedDate (dayOfMonth s) (monthIndex s)"
    using v by (simp add: clampedDate_def valid_ymd_def s)
qed

lemma clampedDate_less:
  assumes "month_ok k" "month_ok l" "1 \<le> d" "1 \<le> e" "k < l"
  shows "clampedDate d k < clampedDate e l"
proof -
  have "k div 12 < l div 12 \<or> k div 12 = l div 12 \<and> k mod 12 < l mod 12"
    using assms(5) by presburger
  then show ?thesis
    unfolding clampedDate_def fmt_less_iff[OF clampedDate_ymd[OF assms(1,3)] clampedDate_ymd[OF assms(2,4)]]
    by auto
qed

lemma monthIndex_mono:
  assumes "valid_iso s" "valid_iso t" "s \<le> t"
  shows "monthIndex s \<le> monthIndex t"
  using clampedDate_less[of "monthIndex t" "monthIndex s" "dayOfMonth t" "dayOfMonth s"]
    valid_iso_month[OF assms(1)] valid_iso_month[OF assms(2)] assms(3)
  by (metis leD not_le_imp_less)

lemma month_ok_between: "month_ok a \<Longrightarrow> month_ok c \<Longrightarrow> a \<le> b \<Longrightarrow> b \<le> c \<Longrightarrow> month_ok b"
  by (simp add: month_ok_def)

lemma valid_addMonthsClamped:
  "valid_iso s \<Longrightarrow> month_ok (monthIndex s + k) \<Longrightarrow> valid_iso (addMonthsClamped s k)"
  by (simp add: addMonthsClamped_eq valid_clampedDate valid_iso_month)

lemma monthIndex_addMonthsClamped:
  "valid_iso s \<Longrightarrow> month_ok (monthIndex s + k) \<Longrightarrow> monthIndex (addMonthsClamped s k) = monthIndex s + k"
  by (simp add: addMonthsClamped_eq monthIndex_clampedDate valid_iso_month)

lemma addMonthsClamped_0: "valid_iso s \<Longrightarrow> addMonthsClamped s 0 = s"
  using valid_iso_month[of s] addMonthsClamped_eq[of s 0] by simp

section \<open>Periods\<close>

text \<open>
  What billing relies on: the starts of the periods of a schedule strictly increase (as long as
  they can be represented). Then every date from the first start on lies in exactly one period.
\<close>

locale period_schedule =
  fixes pstart :: "'c \<Rightarrow> int \<Rightarrow> 'd::linorder"
    and sched_ok :: "'c \<Rightarrow> int \<Rightarrow> bool"
  assumes ok_down: "sched_ok c j \<Longrightarrow> 0 \<le> i \<Longrightarrow> i \<le> j \<Longrightarrow> sched_ok c i"
    and pstart_less: "sched_ok c j \<Longrightarrow> 0 \<le> i \<Longrightarrow> i < j \<Longrightarrow> pstart c i < pstart c j"
begin

lemma pstart_mono: "sched_ok c j \<Longrightarrow> 0 \<le> i \<Longrightarrow> i \<le> j \<Longrightarrow> pstart c i \<le> pstart c j"
  using pstart_less[of c j i] by (cases "i = j") auto

lemma period_unique:
  assumes "sched_ok c (i + 1)" "sched_ok c (j + 1)" "0 \<le> i" "0 \<le> j"
    and "pstart c i \<le> a" "a < pstart c (i + 1)" "pstart c j \<le> a" "a < pstart c (j + 1)"
  shows "i = j"
proof (rule ccontr)
  assume "i \<noteq> j"
  then consider "i + 1 \<le> j" | "j + 1 \<le> i" by linarith
  then show False
  proof cases
    case 1
    then have "pstart c (i + 1) \<le> pstart c j"
      using assms by (intro pstart_mono ok_down[of c "j + 1" j]) auto
    then show False using assms by order
  next
    case 2
    then have "pstart c (j + 1) \<le> pstart c i"
      using assms by (intro pstart_mono ok_down[of c "i + 1" i]) auto
    then show False using assms by order
  qed
qed

lemma before_end: "sched_ok c n \<Longrightarrow> 0 \<le> n \<Longrightarrow> pstart c i \<le> a \<Longrightarrow> a < pstart c n \<Longrightarrow> i \<le> n \<Longrightarrow> i < n"
  by (cases "i = n") auto

end

definition schedStart :: "iso_date \<times> int \<Rightarrow> int \<Rightarrow> iso_date" where
  "schedStart c i = periodStart (computePeriod (fst c) (snd c) i)"

definition schedOk :: "iso_date \<times> int \<Rightarrow> int \<Rightarrow> bool" where
  "schedOk c i \<longleftrightarrow> valid_iso (fst c) \<and> 1 \<le> snd c \<and> monthIndex (fst c) + snd c * i < 120000"

lemma schedOk_month_ok:
  assumes "schedOk c i" "0 \<le> i"
  shows "month_ok (monthIndex (fst c) + snd c * i)"
proof -
  have "0 \<le> snd c * i" using assms by (intro mult_nonneg_nonneg) (auto simp: schedOk_def)
  then show ?thesis using assms valid_iso_month(1)[of "fst c"]
    unfolding schedOk_def month_ok_def by linarith
qed

lemma schedStart_eq:
  "schedOk c i \<Longrightarrow> 0 \<le> i \<Longrightarrow>
   schedStart c i = clampedDate (dayOfMonth (fst c)) (monthIndex (fst c) + snd c * i)"
  using schedOk_month_ok[of c i] by (simp add: schedStart_def computePeriod_def addMonthsClamped_eq)

interpretation billing: period_schedule schedStart schedOk
proof
  fix c and i j :: int
  assume ok: "schedOk c j" and i: "0 \<le> i"
  show ok': "schedOk c i" if "i \<le> j"
  proof -
    have "snd c * i \<le> snd c * j" using ok that by (intro mult_left_mono) (auto simp: schedOk_def)
    then show ?thesis using ok unfolding schedOk_def by linarith
  qed
  assume ij: "i < j"
  then have "snd c * i < snd c * j" using ok by (simp add: schedOk_def)
  moreover have "schedOk c i" using ok' ij by simp
  moreover have "1 \<le> dayOfMonth (fst c)" using ok valid_iso_month(2) by (simp add: schedOk_def)
  ultimately show "schedStart c i < schedStart c j"
    using ok i ij schedOk_month_ok[of c i] schedOk_month_ok[of c j]
    by (simp add: schedStart_eq clampedDate_less)
qed

lemma periodEnd_eq: "periodEnd (computePeriod s k i) = schedStart (s, k) (i + 1)"
  by (simp add: schedStart_def computePeriod_def)

lemma periodStart_eq: "periodStart (computePeriod s k i) = schedStart (s, k) i"
  by (simp add: schedStart_def)

lemma periodIndexLoop_spec:
  "schedOk (s, k) n \<Longrightarrow> n \<le> 100000 \<Longrightarrow> a < schedStart (s, k) n \<Longrightarrow> 0 \<le> i \<Longrightarrow> i < n \<Longrightarrow> schedStart (s, k) i \<le> a \<Longrightarrow> i \<le> periodIndexLoop s k a i \<and>
    periodIndexLoop s k a i < n \<and> schedStart (s, k) (periodIndexLoop s k a i) \<le> a \<and>
    a < schedStart (s, k) (periodIndexLoop s k a i + 1)"
proof (induction s k a i rule: periodIndexLoop.induct)
  case (1 s k a i)
  show ?case
  proof (cases "schedStart (s, k) (i + 1) \<le> a")
    case True
    have "i + 1 < n" using "1.prems" True 
      by (intro billing.before_end[of "(s, k)" n "i + 1" a]) auto
    moreover have "periodIndexLoop s k a i = periodIndexLoop s k a (i + 1)"
      using True \<open>i + 1 < n\<close> "1.prems" by (subst periodIndexLoop.simps) (simp add: periodStart_eq)
    ultimately show ?thesis using "1.IH" "1.prems" True by (auto simp: periodStart_eq)
  next
    case False
    then have "periodIndexLoop s k a i = i"
      by (subst periodIndexLoop.simps) (simp add: periodStart_eq)
    then show ?thesis using "1.prems" False by simp
  qed
qed

lemma iso_less_of_month:
  assumes "valid_iso s" "valid_iso t" "monthIndex s < monthIndex t"
  shows "s < t"
  using clampedDate_less[of "monthIndex s" "monthIndex t" "dayOfMonth s" "dayOfMonth t"]
    valid_iso_month[OF assms(1)] valid_iso_month[OF assms(2)] assms(3) by simp

text \<open>The number of the first period that starts after \<open>a\<close>'s month.\<close>

lemma schedule_passes:
  assumes "valid_iso s" "valid_iso a" "s \<le> a" "1 \<le> k" "monthIndex a + k < 120000"
    and "monthIndex a < monthIndex s + 99999"
  obtains n where "schedOk (s, k) n" "0 < n" "n \<le> 100000" "a < schedStart (s, k) n"
proof -
  define q where "q = (monthIndex a - monthIndex s) div k"
  have d: "0 \<le> monthIndex a - monthIndex s" using monthIndex_mono[OF assms(1-3)] by simp
  have q: "k * q \<le> monthIndex a - monthIndex s" "monthIndex a - monthIndex s < k * q + k"
    using div_range[of k "monthIndex a - monthIndex s"] assms(4) by (simp_all add: q_def)
  have q0: "0 \<le> q" using d assms(4) by (simp add: q_def pos_imp_zdiv_nonneg_iff)
  have "q \<le> k * q" using mult_right_mono[of 1 k q] q0 assms(4) by simp
  then have n: "q + 1 \<le> 100000" using q(1) assms(6) by linarith
  have dist: "k * (q + 1) = k * q + k" by (simp add: algebra_simps)
  have ok: "schedOk (s, k) (q + 1)" using assms q(1) unfolding schedOk_def fst_conv snd_conv dist by simp
  have "schedStart (s, k) (q + 1) = clampedDate (dayOfMonth s) (monthIndex s + k * (q + 1))"
    using schedStart_eq[OF ok] q0 by simp
  moreover have mo: "month_ok (monthIndex s + k * (q + 1))" using schedOk_month_ok[OF ok] q0 by simp
  ultimately have "a < schedStart (s, k) (q + 1)"
    using assms valid_iso_month[OF assms(1)] valid_iso_month[OF assms(2)] q(2)
    by (intro iso_less_of_month) (simp_all add: valid_clampedDate monthIndex_clampedDate dist)
  with ok n q0 show ?thesis by (intro that[of "q + 1"]) auto
qed

section \<open>Extending a term\<close>

lemma extendTermLoop_spec:
  "valid_iso e \<Longrightarrow> valid_iso due \<Longrightarrow> 1 \<le> t \<Longrightarrow> monthIndex due + t < 120000 \<Longrightarrow>
   monthIndex due + g < monthIndex e + 99999 \<Longrightarrow> g \<le> 99999 \<Longrightarrow>
   extendTermLoop due t e r g = (e', r') \<Longrightarrow>
   valid_iso e' \<and> due < e' \<and> (r' \<longleftrightarrow> r \<or> e \<le> due) \<and>
   (\<exists>n \<ge> 0. monthIndex e' = monthIndex e + t * n) \<and>
   (e \<le> due \<longrightarrow> monthIndex e' - t \<le> monthIndex due) \<and> (due < e \<longrightarrow> e' = e)"
proof (induction due t e r g rule: extendTermLoop.induct)
  case (1 due t e r g)
  show ?case
  proof (cases "e \<le> due")
    case False
    then have "e' = e" "r' = r" using "1.prems"
      by (simp_all add: extendTermLoop.simps[of due t e r g] isExpired_def)
    then show ?thesis using False "1.prems" by (auto intro: exI[of _ 0])
  next
    case True
    define f where "f = addMonthsClamped e t"
    have ed: "monthIndex e \<le> monthIndex due" using monthIndex_mono True "1.prems" by blast
    have mo: "month_ok (monthIndex e + t)"
      using valid_iso_month(1)[OF "1.prems"(1)] ed "1.prems"(3,4) by (simp add: month_ok_def)
    have f: "valid_iso f" "monthIndex f = monthIndex e + t"
      using "1.prems"(1) mo by (simp_all add: f_def valid_addMonthsClamped monthIndex_addMonthsClamped)
    have g: "\<not> g + 1 > 100000" using "1.prems"(6) by simp
    have eq: "extendTermLoop due t f True (g + 1) = (e', r')"
      using "1.prems"(7) True g
      by (simp add: extendTermLoop.simps[of due t e r g] isExpired_def Let_def flip: f_def)
    have ih: "valid_iso e' \<and> due < e' \<and> (r' \<longleftrightarrow> True \<or> f \<le> due) \<and>
        (\<exists>n \<ge> 0. monthIndex e' = monthIndex f + t * n) \<and>
        (f \<le> due \<longrightarrow> monthIndex e' - t \<le> monthIndex due) \<and> (due < f \<longrightarrow> e' = f)"
      using "1.IH"[OF _ f_def g f(1) "1.prems"(2-4) _ _ eq] "1.prems"(3,5,6) ed f(2) True
      by (simp add: isExpired_def)
    then obtain n where n: "0 \<le> n" "monthIndex e' = monthIndex e + t * (n + 1)"
      by (auto simp: f(2) algebra_simps)
    have "\<exists>n \<ge> 0. monthIndex e' = monthIndex e + t * n"
      by (rule exI[of _ "n + 1"]) (use n in auto)
    moreover have "monthIndex e' - t \<le> monthIndex due"
      using ih f(2) ed by (cases "f \<le> due") auto
    ultimately show ?thesis using ih True by auto
  qed
qed

section \<open>Adding days\<close>

lemma civil_of_day:
  shows "1 \<le> monthFromDay n + 1" "monthFromDay n + 1 \<le> 12"
    and "1 \<le> dateFromDay n" "dateFromDay n \<le> monthLength (yearFromDay n) (monthFromDay n + 1)"
proof -
  define y r where "y = yearFromDay n" and "r = n - dayFromYear y"
  have r: "0 \<le> r" "r < 365 + leap_day y"
    using yearFromDay_spec[of n] dayFromYear_Suc[of y] by (auto simp: y_def r_def)
  note m = monthFromDay_def[of n, folded y_def, unfolded Let_def, folded r_def]
  show "1 \<le> monthFromDay n + 1" "monthFromDay n + 1 \<le> 12" by (simp_all add: m)
  have d: "dateFromDay n = r - daysBefore (leap_day y) (monthFromDay n) + 1"
    by (simp add: dateFromDay_def Let_def r_def flip: y_def)
  show "1 \<le> dateFromDay n" using r unfolding d m by (auto simp: daysBefore_def)
  show "dateFromDay n \<le> monthLength (yearFromDay n) (monthFromDay n + 1)"
    using r leap_day_range[of y] unfolding d m y_def[symmetric]
    by (auto simp: daysBefore_def monthLength_def)
qed

lemma makeDay_civil: "makeDay (yearFromDay n) (monthFromDay n) (dateFromDay n) = n"
proof -
  have "monthFromDay n = (monthFromDay n + 1) - 1" by simp
  then show ?thesis using makeDay_in_year[of "monthFromDay n + 1" "yearFromDay n" "dateFromDay n"]
      civil_of_day(1,2)[of n] by (simp add: dateFromDay_def Let_def)
qed

text \<open>Day numbers of the years 1000 to 9999.\<close>

definition day_ok :: "int \<Rightarrow> bool" where
  "day_ok n \<longleftrightarrow> dayFromYear 1000 \<le> n \<and> n < dayFromYear 10000"

lemma valid_ymd_of_day:
  assumes "day_ok n"
  shows "valid_ymd (yearFromDay n) (monthFromDay n + 1) (dateFromDay n)"
proof -
  define y where "y = yearFromDay n"
  have y: "dayFromYear y \<le> n" "n < dayFromYear (y + 1)" using yearFromDay_spec[of n] by (auto simp: y_def)
  have "\<not> y + 1 \<le> 1000" using dayFromYear_mono[of "y + 1" 1000] y assms by (auto simp: day_ok_def)
  moreover have "\<not> 10000 \<le> y" using dayFromYear_mono[of 10000 y] y assms by (auto simp: day_ok_def)
  ultimately show ?thesis using civil_of_day[of n] by (simp add: valid_ymd_def flip: y_def)
qed

lemma isoOfDay_ok:
  assumes "day_ok n"
  shows "isoOfDay n = fmt (yearFromDay n) (monthFromDay n + 1) (dateFromDay n)"
    and "valid_iso (isoOfDay n)" and "dayOfIso (isoOfDay n) = n"
proof -
  note v = valid_ymd_of_day[OF assms]
  show e: "isoOfDay n = fmt (yearFromDay n) (monthFromDay n + 1) (dateFromDay n)"
    using isoOfDay_makeDay[OF v] makeDay_civil[of n] by simp
  show "valid_iso (isoOfDay n)" unfolding e by (rule valid_iso_fmt[OF v])
  show "dayOfIso (isoOfDay n) = n" unfolding e dayOfIso_fmt[OF v] using makeDay_civil[of n] by simp
qed

lemma dayOfIso_ok:
  assumes "valid_iso s"
  shows "day_ok (dayOfIso s)"
proof -
  obtain y m d where v: "valid_ymd y m d" and s: "s = fmt y m d" using assms by (rule valid_isoE)
  have r: "1 \<le> m" "m \<le> 12" "1 \<le> d" "d \<le> monthLength y m" "1000 \<le> y" "y + 1 \<le> 10000"
    using v by (auto simp: valid_ymd_def)
  have "dayOfIso s = dayFromYear y + (daysBefore (leap_day y) (m - 1) + d - 1)"
    using makeDay_in_year[OF r(1,2), of y d] by (simp add: s dayOfIso_fmt[OF v])
  then show ?thesis
    using day_of_year_range[OF r(1-4)] dayFromYear_mono[OF r(5)] dayFromYear_mono[OF r(6)]
      dayFromYear_Suc[of y] by (simp add: day_ok_def)
qed

lemma addDaysISO_eq:
  assumes "valid_iso s" "day_ok (dayOfIso s + n)"
  shows "addDaysISO s n = isoOfDay (dayOfIso s + n)"
proof -
  obtain y m d where v: "valid_ymd y m d" and s: "s = fmt y m d" using assms(1) by (rule valid_isoE)
  have "makeDay y (m - 1) (d + n) = makeDay y (m - 1) d + n" by (simp add: makeDay_def Let_def)
  then have "Date_UTC y (m - 1) (d + n) = dayOfIso s + n"
    using v valid_ymd_ranges[OF v] by (simp add: Date_UTC_def s dayOfIso_fmt)
  then show ?thesis
    using isoOfDay_ok(1)[OF assms(2)] parts_fmt[OF v] by (simp add: addDaysISO_def s Let_def)
qed

section \<open>Properties\<close>

lemma sane_dates:
  assumes "valid_iso s" "''1970-01-01'' \<le> s" "s < ''9990-01-01''"
  shows "23640 \<le> monthIndex s" "monthIndex s \<le> 119880" "0 \<le> dayOfIso s" "dayOfIso s \<le> 2929245"
proof -
  have v: "valid_iso ''1970-01-01''" "valid_iso ''9990-01-01''" by code_simp+
  have m: "monthIndex ''1970-01-01'' = 23640" "monthIndex ''9990-01-01'' = 119880" by code_simp+
  have d: "dayOfIso ''1970-01-01'' = 0" "dayOfIso ''9990-01-01'' = 2929245" by code_simp+
  show "23640 \<le> monthIndex s" "monthIndex s \<le> 119880"
    using monthIndex_mono[OF v(1) assms(1,2)] monthIndex_mono[OF assms(1) v(2)] assms(3)
    by (simp_all add: m)
  show "0 \<le> dayOfIso s" "dayOfIso s \<le> 2929245"
    using iso_le_iff[OF v(1) assms(1)] iso_less_iff[OF assms(1) v(2)] assms(2,3) by (simp_all add: d)
qed

lemma day_ok_sane: "- 354000 \<le> n \<Longrightarrow> n \<le> 2932000 \<Longrightarrow> day_ok n"
  by (simp add: day_ok_def dayFromYear_def)

text \<open>
  (C28) \<open>periodIndexFor\<close> returns the index of the one billing period that contains the given
  date: the walk ends before its runaway guard, the date lies in the half-open period it
  returns, and in no other period of the schedule (start dates from 1970, dates up to 9989, the
  validator's intervals of 1 to 60 months).
\<close>

theorem periodIndexFor_correct:
  assumes "valid_iso s" "valid_iso a" "''1970-01-01'' \<le> s" "s \<le> a" "a < ''9990-01-01''"
    and "1 \<le> k" "k \<le> 60"
  shows "0 \<le> periodIndexFor s k a \<and>
    periodStart (computePeriod s k (periodIndexFor s k a)) \<le> a \<and>
    a < periodEnd (computePeriod s k (periodIndexFor s k a)) \<and>
    (\<forall>j \<ge> 0. monthIndex s + k * (j + 1) < 120000 \<and>
       periodStart (computePeriod s k j) \<le> a \<and> a < periodEnd (computePeriod s k j) \<longrightarrow>
       j = periodIndexFor s k a)"
proof -
  have lo: "''1970-01-01'' \<le> a" and hi: "s < ''9990-01-01''" using assms(3-5) by order+
  note b = sane_dates[OF assms(1,3) hi] sane_dates[OF assms(2) lo assms(5)]
  obtain n where n: "schedOk (s, k) n" "0 < n" "n \<le> 100000" "a < schedStart (s, k) n"
    by (rule schedule_passes[OF assms(1,2,4,6)]) (use b assms(7) in auto)
  have "schedStart (s, k) 0 = s"
    using assms(1) by (simp add: schedStart_def computePeriod_def addMonthsClamped_0)
  then have "schedStart (s, k) 0 \<le> a" using assms(4) by simp
  note r = periodIndexLoop_spec[OF n(1,3,4) order_refl n(2) this]
  define i where "i = periodIndexFor s k a"
  have i: "0 \<le> i" "i < n" "schedStart (s, k) i \<le> a" "a < schedStart (s, k) (i + 1)"
    using r by (simp_all add: i_def periodIndexFor_def)
  have "schedOk (s, k) (i + 1)" using billing.ok_down[OF n(1)] i(1,2) by simp
  then have "j = i" if "0 \<le> j" "monthIndex s + k * (j + 1) < 120000"
      "schedStart (s, k) j \<le> a" "a < schedStart (s, k) (j + 1)" for j
    using that i assms(1,6) by (intro billing.period_unique[of "(s, k)" j i a]) (auto simp: schedOk_def)
  then show ?thesis using i by (simp add: periodStart_eq periodEnd_eq flip: i_def)
qed

theorem periodIndexFor_correct_witness:
  "periodStart (computePeriod ''2025-01-31'' 1 (periodIndexFor ''2025-01-31'' 1 ''2025-03-15'')) = ''2025-02-28''
   \<and> periodEnd (computePeriod ''2025-01-31'' 1 (periodIndexFor ''2025-01-31'' 1 ''2025-03-15'')) = ''2025-03-31''
   \<and> ''2025-03-15'' < periodEnd (computePeriod ''2025-01-31'' 1 (periodIndexFor ''2025-01-31'' 1 ''2025-03-15''))"
proof -
  have v: "valid_iso ''2025-01-31''" "valid_iso ''2025-03-15''" by code_simp+
  have "''2025-03-15'' < periodEnd (computePeriod ''2025-01-31'' 1 (periodIndexFor ''2025-01-31'' 1 ''2025-03-15''))"
    using periodIndexFor_correct[OF v, of 1] by simp
  moreover have "periodIndexFor ''2025-01-31'' 1 ''2025-03-15'' = 1" by code_simp
  moreover have "computePeriod ''2025-01-31'' 1 1 = \<lparr> periodStart = ''2025-02-28'', periodEnd = ''2025-03-31'' \<rparr>"
    by code_simp
  ultimately show ?thesis by simp
qed

text \<open>
  (C29) \<open>extendTermPastDue\<close> ends before its runaway guard with an end date after the due
  period: it reports a renewal exactly when the contract would have expired, moves the end by a
  whole number of terms, by no more than needed (one term less is not past the due month), and
  leaves an end date that is not expired alone.
\<close>

theorem extendTermPastDue_correct:
  assumes "valid_iso e" "valid_iso due" "''1970-01-01'' \<le> e" "e < ''9990-01-01''"
    and "''1970-01-01'' \<le> due" "due < ''9980-01-01''" "1 \<le> t" "t \<le> 120"
    and "extendTermPastDue e due t = (e', renewed)"
  shows "valid_iso e' \<and> \<not> isExpired (Some e') due \<and> (renewed \<longleftrightarrow> isExpired (Some e) due) \<and>
    (\<exists>n \<ge> 0. monthIndex e' = monthIndex e + t * n) \<and>
    (isExpired (Some e) due \<longrightarrow> monthIndex e' - t \<le> monthIndex due) \<and>
    (\<not> isExpired (Some e) due \<longrightarrow> e' = e)"
proof -
  have v: "valid_iso ''9980-01-01''" "monthIndex ''9980-01-01'' = 119760" by code_simp+
  have hi: "due < ''9990-01-01''" using assms(6) by (rule order_less_trans) simp
  have m: "monthIndex due \<le> 119760"
    using monthIndex_mono[OF assms(2) v(1)] assms(6) by (simp add: v(2))
  note b = sane_dates[OF assms(1,3,4)] sane_dates[OF assms(2,5) hi]
  have "monthIndex due + t < 120000" "monthIndex due + 0 < monthIndex e + 99999" "(0::int) \<le> 99999"
    using b m assms(8) by simp_all
  from extendTermLoop_spec[OF assms(1,2,7) this, of False e' renewed] assms(9)
  show ?thesis by (auto simp: extendTermPastDue_def isExpired_def not_le)
qed

theorem extendTermPastDue_correct_witness:
  "extendTermPastDue ''2025-12-31'' ''2027-01-15'' 12 = (''2027-12-31'', True) \<and>
   \<not> isExpired (Some ''2027-12-31'') ''2027-01-15''"
proof -
  have v: "valid_iso ''2025-12-31''" "valid_iso ''2027-01-15''" by code_simp+
  have r: "extendTermPastDue ''2025-12-31'' ''2027-01-15'' 12 = (''2027-12-31'', True)" by code_simp
  show ?thesis using extendTermPastDue_correct[OF v _ _ _ _ _ _ r] r by simp
qed

text \<open>
  The advance notice window is the stated number of calendar days: \<open>isWithinNoticeWindow\<close>
  holds exactly when the end date lies between one and \<open>noticeDays\<close> days ahead.
\<close>

theorem noticeWindow_days:
  assumes "valid_iso a" "valid_iso e" "''1970-01-01'' \<le> e" "e < ''9990-01-01''" "0 \<le> n" "n \<le> 365"
  shows "isWithinNoticeWindow a e n \<longleftrightarrow> 0 < dayOfIso e - dayOfIso a \<and> dayOfIso e - dayOfIso a \<le> n"
proof -
  have ok: "day_ok (dayOfIso e + - n)"
    using sane_dates[OF assms(2-4)] assms(5,6) by (intro day_ok_sane) auto
  note w = addDaysISO_eq[OF assms(2) ok] and iso = isoOfDay_ok(2,3)[OF ok]
  show ?thesis
    unfolding isWithinNoticeWindow_def Let_def w iso_le_iff[OF iso(1) assms(1)]
      iso_less_iff[OF assms(1,2)] iso(2) by auto
qed

text \<open>
  A quote is valid through the end of its expiry date, UTC: it is expired exactly from the
  first millisecond of the following day on.
\<close>

theorem isQuoteExpired_end_of_day:
  assumes "valid_iso e" "0 \<le> now" "now < startOfDay ''9990-01-01''"
  shows "isQuoteExpired (Some e) now \<longleftrightarrow> startOfDay e + ms_per_day \<le> now"
proof -
  define n where "n = now div ms_per_day"
  have n: "n * ms_per_day \<le> now" "now < n * ms_per_day + ms_per_day"
    using div_range[of ms_per_day now] by (simp_all add: n_def)
  have "startOfDay ''9990-01-01'' = 2929245 * ms_per_day" by code_simp
  then have "0 \<le> n" "n \<le> 2929245" using n assms(2,3) by simp_all
  then have ok: "day_ok n" by (intro day_ok_sane) auto
  have "e < utcDay now \<longleftrightarrow> dayOfIso e < n"
    using iso_less_iff[OF assms(1) isoOfDay_ok(2)[OF ok]] by (simp add: utcDay_def isoOfDay_ok(3)[OF ok] flip: n_def)
  moreover have "e \<noteq> []" using assms(1) by (auto simp: valid_iso_def fmt_def split: prod.splits)
  ultimately show ?thesis using n by (auto simp: isQuoteExpired_def startOfDay_def)
qed

text \<open>
  For contracts that start on day 1 to 28, \<open>duePeriodStartFor\<close> recovers the start of the
  period whose billing date the contract waits for, in advance and in arrears.
\<close>

lemma duePeriodStart_of_nextBilling:
  assumes "valid_iso s" "dayOfMonth s \<le> 28" "0 \<le> i" "1 \<le> k" "monthIndex s + k * (i + 1) < 120000"
  shows "duePeriodStartFor timing (nextBillingDate s k timing i) k = periodStart (computePeriod s k i)"
proof (cases timing)
  case Timing_arrears
  have ok: "schedOk (s, k) (i + 1)" using assms by (simp add: schedOk_def)
  then have ok': "schedOk (s, k) i" by (rule billing.ok_down) (use assms in auto)
  have mo: "month_ok (monthIndex s + k * (i + 1))" "month_ok (monthIndex s + k * i)"
    using schedOk_month_ok[OF ok] schedOk_month_ok[OF ok'] assms(3) by simp_all
  have d: "1 \<le> dayOfMonth s" using valid_iso_month[OF assms(1)] by simp
  have "28 \<le> monthLength y m" for y m by (simp add: monthLength_def leap_day_def)
  then have clip: "min (dayOfMonth s) (monthLength y m) = dayOfMonth s" for y m
    using assms(2) by (meson min.absorb1 order_trans)
  define e where "e = clampedDate (dayOfMonth s) (monthIndex s + k * (i + 1))"
  have e: "monthIndex e = monthIndex s + k * (i + 1)" "dayOfMonth e = dayOfMonth s"
    using mo d by (simp_all add: e_def monthIndex_clampedDate dayOfMonth_clampedDate clip)
  have "addMonthsClamped e (- k) = clampedDate (dayOfMonth s) (monthIndex s + k * i)"
    using mo(2) addMonthsClamped_eq[of e "- k"] by (simp add: e algebra_simps)
  then show ?thesis
    using schedStart_eq[OF ok] schedStart_eq[OF ok'] assms(3) Timing_arrears
    by (simp add: duePeriodStartFor_def nextBillingDate_def Let_def periodEnd_eq periodStart_eq flip: e_def)
qed (simp add: duePeriodStartFor_def nextBillingDate_def Let_def)

text \<open>
  For a contract that starts at the end of a month the two disagree: the contract of
  2025-01-31, billed monthly in arrears, waits for 2025-02-28, from which
  \<open>duePeriodStartFor\<close> computes the period start 2025-01-28 instead of 2025-01-31.
\<close>

lemma duePeriodStart_month_end_drift:
  "nextBillingDate ''2025-01-31'' 1 Timing_arrears 0 = ''2025-02-28'' \<and>
   duePeriodStartFor Timing_arrears ''2025-02-28'' 1 = ''2025-01-28'' \<and>
   periodStart (computePeriod ''2025-01-31'' 1 0) = ''2025-01-31''"
  by code_simp

end
