(* ===== verification/BillingDb.thy ===== *)
theory BillingDb
  imports Money ContractMath
begin

text \<open>
  The database of the billing and ticketing subsystems: one record per table row (\<open>db/schema/*.ts\<close>), the
  enumerations, the errors the services throw, the events they emit, and the state all services
  share. A table is the list of its rows; primary keys (\<open>uuid\<close> columns with a random default)
  are natural numbers drawn from one supply, so a fresh key differs from every earlier one. Money
  columns hold the value of their decimal string; a write to a \<open>numeric\<close> column rounds to its
  scale. A service call that throws leaves the state of its transaction unchanged.
\<close>

type_synonym uuid = nat

section \<open>Enumerations\<close>

datatype payment_method = Pay_cash | Pay_check | Pay_bank_transfer | Pay_card | Pay_other

datatype line_source = Src_time_entry | Src_part | Src_catalog | Src_bundle | Src_manual | Src_contract

datatype billing_status = Bill_not_billed | Bill_billed | Bill_no_charge | Bill_contract

datatype quote_status =
  Quote_draft | Quote_sent | Quote_viewed | Quote_accepted | Quote_declined | Quote_expired | Quote_converted

datatype quote_line_source = QSrc_catalog | QSrc_bundle | QSrc_manual

datatype block_type = Block_heading | Block_rich_text | Block_image | Block_line_items

datatype item_type = Item_hardware | Item_software | Item_service

datatype billing_type = Billing_one_time | Billing_recurring

datatype billing_frequency = Freq_monthly | Freq_quarterly | Freq_annual

datatype contract_status = Ct_draft | Ct_active | Ct_paused | Ct_cancelled | Ct_expired

datatype contract_line_type = Cl_flat | Cl_per_device | Cl_per_seat | Cl_manual

datatype notice_kind = Notice_advance | Notice_renewed

datatype stripe_object_type = Obj_checkout_session | Obj_payment_intent | Obj_charge

datatype stripe_payment_status =
  Sp_pending | Sp_succeeded | Sp_failed | Sp_refunded | Sp_partially_refunded

datatype stripe_connect_status = Conn_connected | Conn_disconnected

datatype device_status = Dev_online | Dev_offline | Dev_decommissioned

datatype user_status = User_active | User_inactive

datatype ticket_status = Tk_new | Tk_open | Tk_pending | Tk_on_hold | Tk_resolved | Tk_closed

datatype ticket_priority = Prio_low | Prio_normal | Prio_high | Prio_urgent

datatype ticket_source = From_portal | From_email | From_alert | From_manual | From_api | From_ai

datatype comment_type = Com_comment | Com_internal | Com_status_change | Com_assignment | Com_time_entry | Com_system

datatype alert_severity = Sev_critical | Sev_high | Sev_medium | Sev_low | Sev_info

datatype alert_link_type = Link_created_from | Link_attached | Link_auto

datatype sla_target = Sla_response | Sla_resolution

datatype parse_status = Mail_matched | Mail_created | Mail_quarantined | Mail_failed | Mail_ignored | Mail_skipped

datatype partner_status = Partner_pending | Partner_active | Partner_suspended | Partner_churned

datatype inbound_provider = Prov_mailgun | Prov_resend

section \<open>Rows\<close>

text \<open>A value of a \<open>jsonb\<close> column.\<close>

datatype json = J_null | J_bool bool | J_num rat | J_str string | J_arr "json list" | J_obj "(string \<times> json) list"

record address =
  addr_line1 :: "string option"
  addr_line2 :: "string option"
  addr_city :: "string option"
  addr_region :: "string option"
  addr_postalCode :: "string option"
  addr_country :: "string option"

record seller_snapshot =
  ss_name :: "string option"
  ss_address :: address
  ss_phone :: "string option"
  ss_email :: "string option"
  ss_website :: "string option"

record partner =
  pr_id :: uuid
  pr_name :: string
  pr_slug :: string
  pr_status :: partner_status
  pr_settings :: "json option"
  pr_billingEmail :: "string option"
  pr_currencyCode :: string
  pr_defaultTaxRate :: "rat option"
  pr_invoiceNumberPrefix :: string
  pr_invoiceTermsDays :: int
  pr_invoiceFooter :: "string option"
  pr_billingCompanyName :: "string option"
  pr_billingPhone :: "string option"
  pr_billingWebsite :: "string option"
  pr_billingAddress :: address
  pr_billingTermsAndConditions :: "string option"

record organization =
  org_id :: uuid
  org_partnerId :: uuid
  org_name :: string
  org_taxId :: "string option"
  org_taxExempt :: bool
  org_taxRate :: "rat option"
  org_billingAddress :: address

record catalog_item =
  ci_id :: uuid
  ci_partnerId :: uuid
  ci_itemType :: item_type
  ci_name :: string
  ci_sku :: "string option"
  ci_description :: "string option"
  ci_billingType :: billing_type
  ci_billingFrequency :: "billing_frequency option"
  ci_commitmentTermMonths :: "int option"
  ci_unitPrice :: money
  ci_costBasis :: "money option"
  ci_markupPercent :: "rat option"
  ci_unitOfMeasure :: string
  ci_taxable :: bool
  ci_taxCategory :: "string option"
  ci_isBundle :: bool
  ci_isActive :: bool
  ci_createdBy :: "uuid option"
  ci_updatedAt :: instant

record org_pricing =
  op_id :: uuid
  op_catalogItemId :: uuid
  op_orgId :: uuid
  op_unitPrice :: money
  op_updatedAt :: instant

record bundle_component =
  bc_id :: uuid
  bc_partnerId :: uuid
  bc_bundleItemId :: uuid
  bc_componentItemId :: uuid
  bc_quantity :: rat
  bc_showOnInvoice :: bool
  bc_revenueAllocation :: "money option"

record ticket =
  tk_id :: uuid
  tk_orgId :: uuid
  tk_ticketNumber :: string
  tk_submittedBy :: "uuid option"
  tk_submitterEmail :: "string option"
  tk_submitterName :: "string option"
  tk_subject :: string
  tk_description :: "string option"
  tk_status :: ticket_status
  tk_priority :: ticket_priority
  tk_assignedTo :: "uuid option"
  tk_deviceId :: "uuid option"
  tk_tags :: "string list"
  tk_firstResponseAt :: "instant option"
  tk_resolvedAt :: "instant option"
  tk_closedAt :: "instant option"
  tk_partnerId :: "uuid option"
  tk_categoryId :: "uuid option"
  tk_pendingReason :: "string option"
  tk_dueDate :: "instant option"
  tk_responseSlaMinutes :: "int option"
  tk_resolutionSlaMinutes :: "int option"
  tk_slaBreachedAt :: "instant option"
  tk_slaBreachReason :: "string option"
  tk_slaPausedAt :: "instant option"
  tk_slaPausedMinutes :: "int option"
  tk_source :: ticket_source
  tk_internalNumber :: "string option"
  tk_emailMessageId :: "string option"
  tk_emailThreadKey :: "string option"
  tk_closedBy :: "uuid option"
  tk_resolutionNote :: "string option"
  tk_statusId :: "uuid option"
  tk_createdAt :: instant
  tk_updatedAt :: instant

record ticket_category =
  tcat_id :: uuid
  tcat_partnerId :: uuid
  tcat_responseSlaMinutes :: "int option"
  tcat_resolutionSlaMinutes :: "int option"
  tcat_defaultBillable :: bool
  tcat_defaultHourlyRate :: "money option"

record org_ticket_settings =
  ots_orgId :: uuid
  ots_slaOverrides :: json
  ots_defaultHourlyRate :: "money option"
  ots_defaultBillable :: "bool option"
  ots_updatedAt :: instant

record ticket_status_row =
  tst_id :: uuid
  tst_partnerId :: uuid
  tst_name :: string
  tst_coreStatus :: ticket_status
  tst_color :: "string option"
  tst_sortOrder :: int
  tst_isSystem :: bool
  tst_isActive :: bool
  tst_updatedAt :: instant

record priority_setting =
  tps_partnerId :: uuid
  tps_priority :: ticket_priority
  tps_label :: "string option"
  tps_responseSlaMinutes :: "int option"
  tps_resolutionSlaMinutes :: "int option"
  tps_updatedAt :: instant

text \<open>
  A line of the ticket's feed. The old and new value are text columns that hold a status or a key.
  Comments are never deleted from the table, so the position of a row serves as its key.
\<close>

datatype feed_value = Fv_status ticket_status | Fv_id uuid

record ticket_comment =
  tcm_id :: nat
  tcm_ticketId :: uuid
  tcm_portalUserId :: "uuid option"
  tcm_userId :: "uuid option"
  tcm_authorName :: "string option"
  tcm_authorType :: "string option"
  tcm_content :: string
  tcm_isPublic :: bool
  tcm_commentType :: comment_type
  tcm_oldValue :: "feed_value option"
  tcm_newValue :: "feed_value option"
  tcm_deletedAt :: "instant option"
  tcm_editedAt :: "instant option"
  tcm_createdAt :: instant

record portal_user =
  pu_id :: uuid
  pu_orgId :: uuid
  pu_email :: string
  pu_name :: "string option"
  pu_passwordHash :: "string option"
  pu_authMethod :: string
  pu_status :: string

record alert =
  al_id :: uuid
  al_deviceId :: uuid
  al_orgId :: uuid
  al_severity :: alert_severity
  al_title :: string
  al_message :: "string option"

record alert_link =
  lk_id :: uuid
  lk_ticketId :: uuid
  lk_orgId :: uuid
  lk_alertId :: uuid
  lk_linkType :: alert_link_type
  lk_createdBy :: "uuid option"

record email_inbound =
  em_id :: uuid
  em_partnerId :: "uuid option"
  em_provider :: inbound_provider
  em_providerMessageId :: string
  em_fromAddress :: "string option"
  em_toAddress :: "string option"
  em_subject :: "string option"
  em_messageId :: "string option"
  em_inReplyTo :: "string option"
  em_references :: "string option"
  em_parseStatus :: parse_status
  em_ticketId :: "uuid option"
  em_error :: "string option"
  em_raw :: "json option"
  em_createdAt :: instant

record inbound_domain =
  pid_partnerId :: uuid
  pid_domain :: string

record email_domain =
  ced_id :: uuid
  ced_partnerId :: uuid
  ced_orgId :: uuid
  ced_domain :: string
  ced_autoCreateContact :: bool
  ced_isActive :: bool
  ced_createdBy :: "uuid option"
  ced_updatedAt :: instant

record time_entry =
  te_id :: uuid
  te_partnerId :: uuid
  te_orgId :: "uuid option"
  te_ticketId :: "uuid option"
  te_userId :: uuid
  te_startedAt :: instant
  te_endedAt :: "instant option"
  te_durationMinutes :: "int option"
  te_description :: "string option"
  te_isBillable :: bool
  te_hourlyRate :: "money option"
  te_billingStatus :: billing_status
  te_isApproved :: bool
  te_approvedBy :: "uuid option"
  te_approvedAt :: "instant option"
  te_updatedAt :: instant

record ticket_part =
  tp_id :: uuid
  tp_ticketId :: uuid
  tp_orgId :: uuid
  tp_description :: string
  tp_partNumber :: "string option"
  tp_vendor :: "string option"
  tp_quantity :: rat
  tp_unitPrice :: money
  tp_costBasis :: "money option"
  tp_isBillable :: bool
  tp_billingStatus :: billing_status
  tp_addedBy :: "uuid option"
  tp_catalogItemId :: "uuid option"
  tp_notes :: "string option"
  tp_createdAt :: instant
  tp_updatedAt :: instant

record invoice =
  inv_id :: uuid
  inv_partnerId :: uuid
  inv_orgId :: uuid
  inv_siteId :: "uuid option"
  inv_invoiceNumber :: "string option"
  inv_status :: invoice_status
  inv_currencyCode :: string
  inv_issueDate :: "iso_date option"
  inv_dueDate :: "iso_date option"
  inv_subtotal :: money
  inv_taxRate :: "rat option"
  inv_taxTotal :: money
  inv_total :: money
  inv_amountPaid :: money
  inv_balance :: money
  inv_billToName :: "string option"
  inv_billToAddress :: "address option"
  inv_billToTaxId :: "string option"
  inv_billToTaxExempt :: bool
  inv_notes :: "string option"
  inv_terms :: "string option"
  inv_sellerSnapshot :: "seller_snapshot option"
  inv_termsAndConditions :: "string option"
  inv_firstViewedAt :: "instant option"
  inv_viewedAt :: "instant option"
  inv_paidAt :: "instant option"
  inv_markedOverdueAt :: "instant option"
  inv_voidedAt :: "instant option"
  inv_voidReason :: "string option"
  inv_replacesInvoiceId :: "uuid option"
  inv_replacedByInvoiceId :: "uuid option"
  inv_createdBy :: "uuid option"
  inv_createdAt :: instant
  inv_updatedAt :: instant

record invoice_line =
  il_id :: uuid
  il_invoiceId :: uuid
  il_orgId :: uuid
  il_sourceType :: line_source
  il_sourceId :: "uuid option"
  il_catalogItemId :: "uuid option"
  il_parentLineId :: "uuid option"
  il_ticketId :: "uuid option"
  il_description :: string
  il_quantity :: rat
  il_unitPrice :: money
  il_costBasis :: "money option"
  il_revenueAllocation :: "money option"
  il_taxable :: bool
  il_customerVisible :: bool
  il_lineTotal :: money
  il_isUnapprovedTime :: bool
  il_sortOrder :: int

record invoice_payment =
  pay_id :: uuid
  pay_invoiceId :: uuid
  pay_orgId :: uuid
  pay_amount :: money
  pay_method :: payment_method
  pay_reference :: "string option"
  pay_receivedAt :: iso_date
  pay_recordedBy :: "uuid option"
  pay_note :: "string option"

record quote =
  q_id :: uuid
  q_partnerId :: uuid
  q_orgId :: uuid
  q_siteId :: "uuid option"
  q_quoteNumber :: "string option"
  q_status :: quote_status
  q_currencyCode :: string
  q_issueDate :: "iso_date option"
  q_expiryDate :: "iso_date option"
  q_acceptedAt :: "instant option"
  q_declinedAt :: "instant option"
  q_convertedAt :: "instant option"
  q_subtotal :: money
  q_taxRate :: "rat option"
  q_taxTotal :: money
  q_total :: money
  q_oneTimeTotal :: money
  q_monthlyRecurringTotal :: money
  q_annualRecurringTotal :: money
  q_billToName :: "string option"
  q_billToAddress :: "address option"
  q_billToTaxId :: "string option"
  q_introNotes :: "string option"
  q_terms :: "string option"
  q_sellerSnapshot :: "seller_snapshot option"
  q_termsAndConditions :: "string option"
  q_declineReason :: "string option"
  q_convertedInvoiceId :: "uuid option"
  q_sentAt :: "instant option"
  q_firstViewedAt :: "instant option"
  q_viewedAt :: "instant option"
  q_createdBy :: "uuid option"
  q_createdAt :: instant
  q_updatedAt :: instant

record quote_block =
  qb_id :: uuid
  qb_quoteId :: uuid
  qb_orgId :: uuid
  qb_blockType :: block_type
  qb_content :: string
  qb_sortOrder :: int

record quote_line =
  ql_id :: uuid
  ql_quoteId :: uuid
  ql_blockId :: "uuid option"
  ql_orgId :: uuid
  ql_sourceType :: quote_line_source
  ql_catalogItemId :: "uuid option"
  ql_description :: string
  ql_quantity :: rat
  ql_unitPrice :: money
  ql_taxable :: bool
  ql_customerVisible :: bool
  ql_lineTotal :: money
  ql_recurrence :: recurrence
  ql_termMonths :: "int option"
  ql_billingFrequency :: "billing_frequency option"
  ql_sortOrder :: int

record quote_acceptance =
  qa_id :: uuid
  qa_quoteId :: uuid
  qa_orgId :: uuid
  qa_signerName :: string
  qa_signerEmail :: "string option"
  qa_ipAddress :: "string option"
  qa_userAgent :: "string option"
  qa_quoteSha256 :: string
  qa_acceptanceTokenJti :: "string option"

record sequence_row =
  seq_partnerId :: uuid
  seq_year :: int
  seq_counter :: int

record contract =
  c_id :: uuid
  c_partnerId :: uuid
  c_orgId :: uuid
  c_name :: string
  c_status :: contract_status
  c_billingTiming :: billing_timing
  c_intervalMonths :: int
  c_startDate :: iso_date
  c_endDate :: "iso_date option"
  c_nextBillingAt :: "iso_date option"
  c_autoIssue :: bool
  c_autoRenew :: bool
  c_renewalTermMonths :: "int option"
  c_renewalNoticeDays :: "int option"
  c_currencyCode :: string
  c_notes :: "string option"
  c_terms :: "string option"
  c_createdBy :: "uuid option"
  c_createdAt :: instant
  c_updatedAt :: instant

record contract_line =
  cl_id :: uuid
  cl_contractId :: uuid
  cl_orgId :: uuid
  cl_lineType :: contract_line_type
  cl_description :: string
  cl_catalogItemId :: "uuid option"
  cl_unitPrice :: money
  cl_manualQuantity :: "rat option"
  cl_siteId :: "uuid option"
  cl_taxable :: bool
  cl_sortOrder :: int

record billing_period =
  bp_id :: uuid
  bp_contractId :: uuid
  bp_orgId :: uuid
  bp_periodStart :: iso_date
  bp_periodEnd :: iso_date
  bp_invoiceId :: "uuid option"

record renewal_notice =
  rn_id :: uuid
  rn_contractId :: uuid
  rn_orgId :: uuid
  rn_endDate :: iso_date
  rn_kind :: notice_kind

record stripe_account =
  sa_partnerId :: uuid
  sa_stripeAccountId :: string
  sa_livemode :: bool
  sa_status :: stripe_connect_status
  sa_apiKey :: "string option"
  sa_keyLast4 :: "string option"
  sa_connectedBy :: "uuid option"
  sa_connectedAt :: instant
  sa_disconnectedAt :: "instant option"
  sa_updatedAt :: instant

record stripe_payment =
  sp_id :: uuid
  sp_orgId :: uuid
  sp_invoiceId :: uuid
  sp_invoicePaymentId :: "uuid option"
  sp_stripeAccountId :: string
  sp_objectType :: stripe_object_type
  sp_objectId :: string
  sp_paymentIntentId :: "string option"
  sp_amount :: money
  sp_currency :: string
  sp_status :: stripe_payment_status
  sp_lastEventAt :: "instant option"
  sp_createdAt :: instant
  sp_updatedAt :: instant

record device =
  dev_id :: uuid
  dev_orgId :: uuid
  dev_siteId :: uuid
  dev_status :: device_status

record org_user =
  ou_orgId :: uuid
  ou_userId :: uuid

record user =
  usr_id :: uuid
  usr_partnerId :: uuid
  usr_email :: string
  usr_status :: user_status

record user_notification =
  un_id :: uuid
  un_userId :: uuid
  un_orgId :: "uuid option"
  un_type :: string
  un_priority :: string
  un_title :: string
  un_message :: "string option"
  un_link :: "string option"

section \<open>Events and errors\<close>

datatype invoice_event_type =
  Ev_invoice_issued | Ev_invoice_viewed | Ev_invoice_overdue | Ev_invoice_paid | Ev_invoice_voided
  | Ev_payment_recorded | Ev_payment_voided | Ev_payment_failed

datatype contract_event_type =
  Ev_contract_activated | Ev_contract_invoiced | Ev_contract_paused | Ev_contract_cancelled
  | Ev_contract_expired | Ev_contract_auto_renewed

datatype time_event_type =
  Ev_time_created uuid "int option" bool | Ev_time_updated "string list" | Ev_time_deleted uuid | Ev_time_approved "uuid list" uuid

datatype ticket_event_type =
  Ev_ticket_created string string "uuid option" ticket_source | Ev_ticket_status_changed ticket_status ticket_status "string option"
  | Ev_ticket_assigned "uuid option" | Ev_ticket_commented nat bool bool | Ev_ticket_updated "string list"
  | Ev_ticket_sla_breached sla_target "string option" string "uuid option" | Ev_ticket_autoresponse string "string option" string

datatype catalog_event_type = Ev_item_created | Ev_item_updated | Ev_item_archived

text \<open>Events carry the subject, its tenant, and the payment or invoice where the code has one.\<close>

datatype billing_event =
  InvoiceEvent invoice_event_type uuid uuid uuid "uuid option"
| ContractEvent contract_event_type uuid uuid uuid "uuid option"
| CatalogEvent catalog_event_type uuid uuid
| TimeEntryEvent time_event_type uuid uuid "uuid option" uuid
| TicketEvent ticket_event_type uuid uuid "uuid option" "uuid option"
| TriageFeedback string uuid uuid uuid
| BusPublish ticket_event_type uuid uuid
| PdfRender uuid

datatype invoice_error =
  PARTNER_UNRESOLVABLE | ORG_DENIED | INVOICE_NOT_FOUND | NOT_A_DRAFT | NOTHING_TO_INVOICE
| NO_VISIBLE_LINES | SOURCE_ALREADY_BILLED | OVERPAYMENT | INVALID_STATE | INVALID_AMOUNT
| LINE_NOT_FOUND | PAYMENT_NOT_FOUND | NUMBER_ALLOCATION_FAILED | NOT_PAYABLE | NOTHING_TO_PAY
| STRIPE_NOT_CONNECTED | STRIPE_NO_URL | STRIPE_INIT_FAILED

datatype catalog_error =
  CAT_PARTNER_UNRESOLVABLE | ITEM_NOT_FOUND | NOT_A_BUNDLE | DUPLICATE_SKU | CAT_ORG_DENIED
| PRICE_OUT_OF_RANGE | BUNDLE_SELF_REFERENCE | BUNDLE_NESTED | BUNDLE_CROSS_PARTNER
| BUNDLE_COMPONENT_NOT_FOUND | BUNDLE_DUPLICATE_COMPONENT

datatype quote_error =
  Q_PARTNER_UNRESOLVABLE | Q_ORG_DENIED | QUOTE_NOT_FOUND | Q_NOT_A_DRAFT | Q_LINE_NOT_FOUND
| BLOCK_NOT_FOUND | CATALOG_ITEM_NOT_FOUND | Q_INVALID_STATE | QUOTE_EXPIRED | NOT_CONVERTED

datatype contract_error =
  C_ORG_DENIED | CONTRACT_NOT_FOUND | C_NOT_A_DRAFT | NO_LINES | C_INVALID_STATE | C_NO_CODE

datatype stripe_error = NO_STRIPE_KEY | INVALID_STRIPE_KEY | STRIPE_KEY_UNREADABLE

datatype time_error =
  TICKET_NOT_FOUND | TICKET_WRONG_PARTNER | TICKET_ORG_DENIED | ENTRY_NOT_FOUND | PART_NOT_FOUND | NOT_OWN_ENTRY
| ADMIN_REQUIRED | APPROVED_IMMUTABLE | NO_RUNNING_TIMER | ENTRY_RUNNING | T_PARTNER_UNRESOLVABLE | INVALID_RANGE

datatype ticket_error =
  ASSIGNEE_NOT_FOUND | ASSIGNEE_WRONG_PARTNER | REQUESTER_NOT_FOUND | REQUESTER_WRONG_ORG | CATEGORY_NOT_FOUND
| CATEGORY_WRONG_PARTNER | TICKET_PARTNER_UNRESOLVABLE | INVALID_TRANSITION | CONCURRENT_MODIFICATION | STATUS_NOT_FOUND
| STATUS_INACTIVE | INVALID_INPUT

datatype ticket_config_error =
  STATUS_NAME_TAKEN | CFG_STATUS_NOT_FOUND | SYSTEM_STATUS_IMMUTABLE | SYSTEM_STATUS_REQUIRED | INBOUND_ROW_NOT_FOUND
| INBOUND_ROW_ALREADY_RESOLVED | INBOUND_ROW_NO_SENDER | ORG_NOT_ACCESSIBLE | DOMAIN_ALREADY_MAPPED | DOMAIN_MAPPING_NOT_FOUND

text \<open>
  An error of a service carries its HTTP status and its code; \<open>JsError\<close> is a plain \<open>Error\<close>. \<open>DbError\<close> is an error
  of the database where a caller that goes on tells it from a plain one: it has aborted the transaction.
\<close>

datatype svc_error =
  InvoiceErr int invoice_error
| CatalogErr int catalog_error
| QuoteErr int quote_error
| ContractErr int contract_error
| StripeErr int stripe_error
| TimeErr int time_error
| TicketErr int "ticket_error option"
| TicketConfigErr int ticket_config_error
| JsError string
| DbError string

record actor =
  a_userId :: "uuid option"
  a_partnerId :: "uuid option"
  a_accessibleOrgIds :: "uuid list option"

section \<open>The state\<close>

record db =
  db_next :: nat
  db_partners :: "partner list"
  db_organizations :: "organization list"
  db_catalogItems :: "catalog_item list"
  db_orgPricing :: "org_pricing list"
  db_bundleComponents :: "bundle_component list"
  db_tickets :: "ticket list"
  db_ticketCategories :: "ticket_category list"
  db_orgTicketSettings :: "org_ticket_settings list"
  db_ticketComments :: "ticket_comment list"
  db_ticketSequences :: "sequence_row list"
  db_ticketStatuses :: "ticket_status_row list"
  db_prioritySettings :: "priority_setting list"
  db_portalUsers :: "portal_user list"
  db_alerts :: "alert list"
  db_alertLinks :: "alert_link list"
  db_inboundEmails :: "email_inbound list"
  db_emailDomains :: "email_domain list"
  db_inboundDomains :: "inbound_domain list"
  db_timeEntries :: "time_entry list"
  db_ticketParts :: "ticket_part list"
  db_invoices :: "invoice list"
  db_invoiceLines :: "invoice_line list"
  db_invoicePayments :: "invoice_payment list"
  db_invoiceSequences :: "sequence_row list"
  db_quotes :: "quote list"
  db_quoteBlocks :: "quote_block list"
  db_quoteLines :: "quote_line list"
  db_quoteAcceptances :: "quote_acceptance list"
  db_quoteSequences :: "sequence_row list"
  db_contracts :: "contract list"
  db_contractLines :: "contract_line list"
  db_billingPeriods :: "billing_period list"
  db_renewalNotices :: "renewal_notice list"
  db_stripeAccounts :: "stripe_account list"
  db_stripePayments :: "stripe_payment list"
  db_devices :: "device list"
  db_orgUsers :: "org_user list"
  db_users :: "user list"
  db_userNotifications :: "user_notification list"
  db_events :: "billing_event list"

text \<open>A service call: it throws, or returns a result and the new state.\<close>

type_synonym 'a svc = "svc_error + ('a \<times> db)"

definition empty_db :: db where
  "empty_db = \<lparr> db_next = 0, db_partners = [], db_organizations = [], db_catalogItems = [],
     db_orgPricing = [], db_bundleComponents = [], db_tickets = [], db_ticketCategories = [], db_orgTicketSettings = [],
     db_ticketComments = [], db_ticketSequences = [], db_ticketStatuses = [], db_prioritySettings = [], db_portalUsers = [],
     db_alerts = [], db_alertLinks = [], db_inboundEmails = [], db_emailDomains = [], db_inboundDomains = [], db_timeEntries = [],
     db_ticketParts = [], db_invoices = [], db_invoiceLines = [], db_invoicePayments = [],
     db_invoiceSequences = [], db_quotes = [], db_quoteBlocks = [], db_quoteLines = [],
     db_quoteAcceptances = [], db_quoteSequences = [], db_contracts = [], db_contractLines = [],
     db_billingPeriods = [], db_renewalNotices = [], db_stripeAccounts = [], db_stripePayments = [],
     db_devices = [], db_orgUsers = [], db_users = [], db_userNotifications = [], db_events = [] \<rparr>"

definition no_address :: address where
  "no_address = \<lparr> addr_line1 = None, addr_line2 = None, addr_city = None, addr_region = None,
     addr_postalCode = None, addr_country = None \<rparr>"

text \<open>\<open>emitInvoiceEvent\<close>, \<open>emitContractEvent\<close>, \<open>emitCatalogEvent\<close>, \<open>emitTimeEntryEvent\<close>, \<open>emitTicketEvent\<close>, the event bus and the PDF queue: they never throw.\<close>

definition emit :: "billing_event \<Rightarrow> db \<Rightarrow> db" where
  "emit e s = s \<lparr> db_events := db_events s @ [e] \<rparr>"

definition isPgText :: "string option \<Rightarrow> bool" where
  "isPgText v = (case v of None \<Rightarrow> False | Some t \<Rightarrow> t \<noteq> [])"

text \<open>A write to a \<open>numeric(p, 2)\<close> or \<open>numeric(6, 3)\<close> column rounds half away from zero.\<close>

definition numeric2 :: "rat \<Rightarrow> rat" where
  "numeric2 v = toFixed 2 v"

definition numeric3 :: "rat \<Rightarrow> rat" where
  "numeric3 v = toFixed 3 v"

text \<open>The org-axis guard all services share, up to the error they throw.\<close>

definition orgAccessible :: "actor \<Rightarrow> uuid \<Rightarrow> bool" where
  "orgAccessible a orgId = (case a_accessibleOrgIds a of None \<Rightarrow> True | Some ids \<Rightarrow> orgId \<in> set ids)"

text \<open>\<open>s.trim()\<close> and truthiness of an optional string.\<close>

definition isBlank :: "char \<Rightarrow> bool" where
  "isBlank c \<longleftrightarrow> c = CHR '' '' \<or> (9 \<le> (of_char c :: int) \<and> (of_char c :: int) \<le> 13)"

definition js_trim :: "string \<Rightarrow> string" where
  "js_trim s = rev (dropWhile isBlank (rev (dropWhile isBlank s)))"

subsection \<open>sellerSnapshot.ts\<close>

definition buildSellerSnapshot :: "partner option \<Rightarrow> seller_snapshot" where
  "buildSellerSnapshot p = (case p of
     None \<Rightarrow> \<lparr> ss_name = None, ss_address = no_address, ss_phone = None, ss_email = None, ss_website = None \<rparr>
   | Some r \<Rightarrow> \<lparr> ss_name = Some (nullish (pr_billingCompanyName r) (pr_name r)),
       ss_address = pr_billingAddress r, ss_phone = pr_billingPhone r, ss_email = pr_billingEmail r,
       ss_website = pr_billingWebsite r \<rparr>)"

fun joinComma :: "string list \<Rightarrow> string" where
  "joinComma [] = []"
| "joinComma [s] = s"
| "joinComma (s # t # ss) = s @ '', '' @ joinComma (t # ss)"

definition presentStrings :: "string option list \<Rightarrow> string list" where
  "presentStrings ss = [s. Some s \<leftarrow> ss, s \<noteq> []]"

definition sellerAddressLines :: "seller_snapshot option \<Rightarrow> string list" where
  "sellerAddressLines snap = (case snap of None \<Rightarrow> [] | Some q \<Rightarrow>
     let a = ss_address q;
         cityLine = joinComma (presentStrings [addr_city a, addr_region a, addr_postalCode a])
     in filter (\<lambda>s. js_trim s \<noteq> []) (presentStrings [addr_line1 a, addr_line2 a, Some cityLine, addr_country a]))"

section \<open>Events touch no table\<close>

lemma emit_simps [simp]:
  "db_next (emit e s) = db_next s"
  "db_partners (emit e s) = db_partners s"
  "db_organizations (emit e s) = db_organizations s"
  "db_catalogItems (emit e s) = db_catalogItems s"
  "db_orgPricing (emit e s) = db_orgPricing s"
  "db_bundleComponents (emit e s) = db_bundleComponents s"
  "db_tickets (emit e s) = db_tickets s"
  "db_ticketCategories (emit e s) = db_ticketCategories s"
  "db_orgTicketSettings (emit e s) = db_orgTicketSettings s"
  "db_ticketComments (emit e s) = db_ticketComments s"
  "db_ticketSequences (emit e s) = db_ticketSequences s"
  "db_ticketStatuses (emit e s) = db_ticketStatuses s"
  "db_prioritySettings (emit e s) = db_prioritySettings s"
  "db_portalUsers (emit e s) = db_portalUsers s"
  "db_alerts (emit e s) = db_alerts s"
  "db_alertLinks (emit e s) = db_alertLinks s"
  "db_inboundEmails (emit e s) = db_inboundEmails s"
  "db_emailDomains (emit e s) = db_emailDomains s"
  "db_inboundDomains (emit e s) = db_inboundDomains s"
  "db_timeEntries (emit e s) = db_timeEntries s"
  "db_ticketParts (emit e s) = db_ticketParts s"
  "db_invoices (emit e s) = db_invoices s"
  "db_invoiceLines (emit e s) = db_invoiceLines s"
  "db_invoicePayments (emit e s) = db_invoicePayments s"
  "db_invoiceSequences (emit e s) = db_invoiceSequences s"
  "db_quotes (emit e s) = db_quotes s"
  "db_quoteBlocks (emit e s) = db_quoteBlocks s"
  "db_quoteLines (emit e s) = db_quoteLines s"
  "db_quoteAcceptances (emit e s) = db_quoteAcceptances s"
  "db_quoteSequences (emit e s) = db_quoteSequences s"
  "db_contracts (emit e s) = db_contracts s"
  "db_contractLines (emit e s) = db_contractLines s"
  "db_billingPeriods (emit e s) = db_billingPeriods s"
  "db_renewalNotices (emit e s) = db_renewalNotices s"
  "db_stripeAccounts (emit e s) = db_stripeAccounts s"
  "db_stripePayments (emit e s) = db_stripePayments s"
  "db_devices (emit e s) = db_devices s"
  "db_orgUsers (emit e s) = db_orgUsers s"
  "db_users (emit e s) = db_users s"
  "db_userNotifications (emit e s) = db_userNotifications s"
  "db_events (emit e s) = db_events s @ [e]"
  by (simp_all add: emit_def)

end
