(* ===== verification/Numbering.thy ===== *)
theory Numbering
  imports BillingDb
begin

text \<open>
  Document numbers: the per-partner, per-year counters of \<open>invoiceNumbers.ts\<close> and
  \<open>quoteNumbers.ts\<close> and the number format. The locale \<open>counter_sequence\<close> states the contract
  of one allocation (the next integer of its own key, other keys untouched) and derives that
  any interleaving of allocations hands out consecutive numbers per key.
\<close>

section \<open>Definitions\<close>

text \<open>\<open>INSERT ... ON CONFLICT (partner_id, year) DO UPDATE SET counter = counter + 1 RETURNING counter\<close>.\<close>

definition seqKey :: "uuid \<Rightarrow> int \<Rightarrow> sequence_row \<Rightarrow> bool" where
  "seqKey partnerId year r \<longleftrightarrow> seq_partnerId r = partnerId \<and> seq_year r = year"

definition nextCounter :: "uuid \<Rightarrow> int \<Rightarrow> sequence_row list \<Rightarrow> int \<times> sequence_row list" where
  "nextCounter partnerId year t = (case selectOne (seqKey partnerId year) t of
     None \<Rightarrow> (1, insertRow \<lparr> seq_partnerId = partnerId, seq_year = year, seq_counter = 1 \<rparr> t)
   | Some r \<Rightarrow> (seq_counter r + 1,
       updateWhere (seqKey partnerId year) (\<lambda>q. q \<lparr> seq_counter := seq_counter q + 1 \<rparr>) t))"

definition formatInvoiceNumber :: "string \<Rightarrow> int \<Rightarrow> int \<Rightarrow> string" where
  "formatInvoiceNumber prefix year counter =
     prefix @ ''-'' @ js_String year @ ''-'' @ padStart 4 (CHR ''0'') (js_String counter)"

definition formatQuoteNumber :: "string \<Rightarrow> int \<Rightarrow> int \<Rightarrow> string" where
  "formatQuoteNumber prefix year counter =
     prefix @ ''-'' @ js_String year @ ''-'' @ padStart 4 (CHR ''0'') (js_String counter)"

text \<open>
  The standalone allocators run in a transaction of their own: the counter advance is committed
  whatever the caller does next.
\<close>

definition allocateInvoiceCounter :: "uuid \<Rightarrow> int \<Rightarrow> db \<Rightarrow> (svc_error + int) \<times> db" where
  "allocateInvoiceCounter partnerId year s = (case nextCounter partnerId year (db_invoiceSequences s) of
     (counter, t) \<Rightarrow> (bindE (guardE (1 \<le> counter) (InvoiceErr 500 NUMBER_ALLOCATION_FAILED)) (\<lambda>_. Inr counter),
       s \<lparr> db_invoiceSequences := t \<rparr>))"

definition allocateQuoteCounter :: "uuid \<Rightarrow> int \<Rightarrow> db \<Rightarrow> (svc_error + int) \<times> db" where
  "allocateQuoteCounter partnerId year s = (case nextCounter partnerId year (db_quoteSequences s) of
     (counter, t) \<Rightarrow> (bindE (guardE (1 \<le> counter) (QuoteErr 500 Q_INVALID_STATE)) (\<lambda>_. Inr counter),
       s \<lparr> db_quoteSequences := t \<rparr>))"

section \<open>Allocation\<close>

locale counter_sequence =
  fixes alloc :: "'k \<Rightarrow> 's \<Rightarrow> int \<times> 's"
    and last :: "'k \<Rightarrow> 's \<Rightarrow> int"
  assumes alloc_next: "alloc k s = (c, s') \<Longrightarrow> c = last k s + 1"
    and alloc_last: "alloc k s = (c, s') \<Longrightarrow> last k s' = c"
    and alloc_other: "alloc k s = (c, s') \<Longrightarrow> j \<noteq> k \<Longrightarrow> last j s' = last j s"
begin

fun allocs :: "'k list \<Rightarrow> 's \<Rightarrow> ('k \<times> int) list \<times> 's" where
  "allocs [] s = ([], s)"
| "allocs (k # ks) s = (case alloc k s of (c, s1) \<Rightarrow> case allocs ks s1 of (cs, s2) \<Rightarrow> ((k, c) # cs, s2))"

definition given :: "'k \<Rightarrow> ('k \<times> int) list \<Rightarrow> int list" where
  "given k cs = map snd (filter (\<lambda>p. fst p = k) cs)"

lemma given_simps [simp]:
  "given k [] = []"
  "given k ((j, c) # cs) = (if j = k then c # given k cs else given k cs)"
  by (simp_all add: given_def)

lemma last_allocs: "allocs ks s = (cs, s') \<Longrightarrow> last k s' = last k s + int (length (given k cs))"
proof (induction ks arbitrary: s cs)
  case (Cons j ks)
  then obtain c s1 cs' where 1: "alloc j s = (c, s1)" "allocs ks s1 = (cs', s')" "cs = (j, c) # cs'"
    by (auto split: prod.splits)
  from Cons.IH[OF 1(2)] have "last k s' = last k s1 + int (length (given k cs'))" .
  then show ?case
    using alloc_next[OF 1(1)] alloc_last[OF 1(1)] alloc_other[OF 1(1), of k] 1(3) by auto
qed simp

lemma allocs_consecutive:
  "allocs ks s = (cs, s') \<Longrightarrow>
   given k cs = map (\<lambda>i. last k s + 1 + int i) [0..<length (given k cs)]"
proof (induction ks arbitrary: s cs)
  case (Cons j ks)
  then obtain c s1 cs' where 1: "alloc j s = (c, s1)" "allocs ks s1 = (cs', s')" "cs = (j, c) # cs'"
    by (auto split: prod.splits)
  note ih = Cons.IH[OF 1(2)]
  show ?case
  proof (cases "j = k")
    case True
    have n: "last k s1 = last k s + 1" "c = last k s + 1"
      using alloc_next[OF 1(1)] alloc_last[OF 1(1)] True by simp_all
    have "map (\<lambda>i. last k s + 1 + int i) [0..<Suc (length (given k cs'))]
        = (last k s + 1) # map (\<lambda>i. last k s + 1 + int (Suc i)) [0..<length (given k cs')]"
      by (simp add: upt_conv_Cons map_Suc_upt[symmetric] del: upt_Suc)
    then show ?thesis using ih n True by (simp add: 1(3) algebra_simps del: upt_Suc)
  next
    case False
    then show ?thesis using ih alloc_other[OF 1(1), of k] by (simp add: 1(3))
  qed
qed simp

lemma allocs_distinct:
  assumes "allocs ks s = (cs, s')"
  shows "distinct (given k cs)"
proof -
  have "distinct (map (\<lambda>i. last k s + 1 + int i) [0..<length (given k cs)])"
    by (simp add: distinct_map inj_on_def)
  then show ?thesis using allocs_consecutive[OF assms, of k] by simp
qed

end

definition seqValue :: "uuid \<times> int \<Rightarrow> sequence_row list \<Rightarrow> int" where
  "seqValue k t = (case selectOne (seqKey (fst k) (snd k)) t of None \<Rightarrow> 0 | Some r \<Rightarrow> seq_counter r)"

lemma selectOne_seq_update:
  "selectOne (seqKey p y) (updateWhere (seqKey q z) (\<lambda>r. r \<lparr> seq_counter := seq_counter r + 1 \<rparr>) t) =
   map_option (\<lambda>r. if seqKey q z r then r \<lparr> seq_counter := seq_counter r + 1 \<rparr> else r) (selectOne (seqKey p y) t)"
proof (induction t)
  case (Cons r t)
  have "seqKey p y (r \<lparr> seq_counter := n \<rparr>) = seqKey p y r" for n by (simp add: seqKey_def)
  then show ?case using Cons by (auto simp: selectOne_def updateWhere_def)
qed (simp add: selectOne_def updateWhere_def)

lemma nextCounter_value:
  assumes "nextCounter p y t = (c, t')"
  shows "c = seqValue (p, y) t + 1" "seqValue (p, y) t' = c"
    and "j \<noteq> (p, y) \<Longrightarrow> seqValue j t' = seqValue j t"
proof -
  have key: "seqKey p y \<lparr> seq_partnerId = p, seq_year = y, seq_counter = 1 \<rparr>" by (simp add: seqKey_def)
  show "c = seqValue (p, y) t + 1"
    using assms by (auto simp: nextCounter_def seqValue_def split: option.splits)
  show "seqValue (p, y) t' = c"
  proof (cases "selectOne (seqKey p y) t")
    case None
    then show ?thesis using assms key
      by (auto simp: nextCounter_def seqValue_def selectOne_insertRow)
  next
    case (Some r)
    then show ?thesis using assms selectOne_Some[OF Some]
      by (auto simp: nextCounter_def seqValue_def selectOne_seq_update)
  qed
  assume "j \<noteq> (p, y)"
  then have no: "\<not> (seqKey (fst j) (snd j) r \<and> seqKey p y r)" for r by (auto simp: seqKey_def prod_eq_iff)
  then have "\<not> seqKey (fst j) (snd j) \<lparr> seq_partnerId = p, seq_year = y, seq_counter = 1 \<rparr>"
    using key by blast
  with no show "seqValue j t' = seqValue j t"
    using assms key selectOne_Some[of "seqKey (fst j) (snd j)" t]
    by (auto simp: nextCounter_def seqValue_def selectOne_insertRow selectOne_seq_update
        split: option.splits)
qed

lemma nextCounter_pos: "nextCounter p y t = (c, t') \<Longrightarrow> 0 \<le> seqValue (p, y) t \<Longrightarrow> 1 \<le> c"
  using nextCounter_value(1) by fastforce

definition allocSeq :: "uuid \<times> int \<Rightarrow> sequence_row list \<Rightarrow> int \<times> sequence_row list" where
  "allocSeq k t = nextCounter (fst k) (snd k) t"

interpretation numbers: counter_sequence allocSeq seqValue
proof
  fix k j :: "uuid \<times> int" and s c s'
  assume a: "allocSeq k s = (c, s')"
  then have n: "nextCounter (fst k) (snd k) s = (c, s')" by (simp add: allocSeq_def)
  show "c = seqValue k s + 1" "seqValue k s' = c" using nextCounter_value(1,2)[OF n] by simp_all
  show "seqValue j s' = seqValue j s" if "j \<noteq> k" using nextCounter_value(3)[OF n] that by simp
qed

section \<open>The number format\<close>

lemma parse_padStart0: "0 \<le> n \<Longrightarrow> parse_digits (padStart w (CHR ''0'') (js_String n)) = n"
proof -
  assume "0 \<le> n"
  then have "parse_digits (js_String n) = n" by (simp add: js_String_def parse_show_digits)
  moreover have "parse_digits (replicate k (CHR ''0'') @ s) = parse_digits s" for k s
    by (induction k) (simp_all add: digit_val_def)
  ultimately show ?thesis by (simp add: padStart_def)
qed

lemma all_digits_js_String: "0 \<le> n \<Longrightarrow> all_digits (js_String n)"
  by (simp add: js_String_def all_digits_show_digits)

text \<open>
  Under one prefix, different years or counters give different document numbers.
\<close>

theorem document_number_injective:
  assumes "formatInvoiceNumber prefix y c = formatInvoiceNumber prefix y' c'"
    and "0 \<le> y" "0 \<le> c" "0 \<le> y'" "0 \<le> c'"
  shows "y = y' \<and> c = c'"
proof -
  let ?p = "\<lambda>n. padStart 4 (CHR ''0'') (js_String n)"
  have "js_String y @ CHR ''-'' # ?p c = js_String y' @ CHR ''-'' # ?p c'"
    using assms(1) by (simp add: formatInvoiceNumber_def)
  from arg_cong[OF this, of "splitOn (CHR ''-'')"]
  have e: "js_String y = js_String y'" by (simp add: splitOn_digits all_digits_js_String assms)
  have "?p c = ?p c'" using assms(1) e by (simp add: formatInvoiceNumber_def)
  then have "parse_digits (?p c) = parse_digits (?p c')" by simp
  moreover have "parse_digits (js_String y) = parse_digits (js_String y')" using e by simp
  moreover have "parse_digits (js_String n) = n" if "0 \<le> n" for n
    using that by (simp add: js_String_def parse_show_digits)
  ultimately show ?thesis using assms by (simp add: parse_padStart0)
qed

text \<open>
  Counters are gapless and never repeat: whatever the order in which partners and years
  allocate, the counters one partner receives in one year are the consecutive integers that
  follow the last one stored, and no allocation disturbs another partner or year.
\<close>

lemma counters_gapless:
  "(case numbers.allocs ks t of (cs, t') \<Rightarrow>
     numbers.given k cs = map (\<lambda>i. seqValue k t + 1 + int i) [0..<length (numbers.given k cs)] \<and>
     distinct (numbers.given k cs) \<and>
     seqValue k t' = seqValue k t + int (length (numbers.given k cs)))"
  by (cases "numbers.allocs ks t")
     (simp add: numbers.allocs_consecutive[symmetric] numbers.allocs_distinct numbers.last_allocs)

end
