(* ===== verification/Catalog.thy ===== *)
theory Catalog
  imports BillingDb
begin

text \<open>
  The product catalog: \<open>catalogPricing.ts\<close> (price derivation, bundle checks, bundle economics)
  and \<open>catalogService.ts\<close> (items, per-organization price overrides, bundles). The invariant
  \<open>catalog_ok\<close> says that a bundle never contains a bundle, itself, a foreign or a missing item,
  and every operation keeps it.
\<close>

section \<open>catalogPricing.ts\<close>

definition deriveUnitPrice :: "rat option \<Rightarrow> money option \<Rightarrow> rat option \<Rightarrow> money" where
  "deriveUnitPrice explicitPrice costBasis markupPercent =
     (case explicitPrice of
        Some p \<Rightarrow> toFixed 2 (js_Number p)
      | None \<Rightarrow> (case (costBasis, markupPercent) of
          (Some cost, Some markup) \<Rightarrow>
            fromCents (Math_round (fmul (toCents (Some cost)) (fadd 1 (fdiv (js_Number markup) 100))))
        | _ \<Rightarrow> 0))"

datatype price_source = Price_org_override | Price_item

record resolved_price =
  rp_unitPrice :: money
  rp_costBasis :: "money option"
  rp_taxable :: bool
  rp_taxCategory :: "string option"
  rp_source :: price_source

definition resolvePriceFrom :: "catalog_item \<Rightarrow> money option \<Rightarrow> resolved_price" where
  "resolvePriceFrom item override =
     \<lparr> rp_unitPrice = nullish override (ci_unitPrice item), rp_costBasis = ci_costBasis item,
       rp_taxable = ci_taxable item, rp_taxCategory = ci_taxCategory item,
       rp_source = (if override \<noteq> None then Price_org_override else Price_item) \<rparr>"

datatype bundle_problem =
  SELF_REFERENCE | NESTED_BUNDLE | CROSS_PARTNER | COMPONENT_NOT_FOUND | DUPLICATE_COMPONENT

text \<open>\<open>Set.add\<close>, in insertion order.\<close>

definition setAdd :: "'a \<Rightarrow> 'a list \<Rightarrow> 'a list" where
  "setAdd x xs = (if x \<in> set xs then xs else xs @ [x])"

text \<open>One turn of the loop of \<open>detectBundleProblems\<close>, on the problems and the ids seen so far.\<close>

definition bundleCheck ::
    "uuid \<Rightarrow> uuid \<Rightarrow> (uuid \<Rightarrow> (bool \<times> uuid) option) \<Rightarrow> uuid \<Rightarrow> bundle_problem list \<times> uuid list
      \<Rightarrow> bundle_problem list \<times> uuid list" where
  "bundleCheck bundleId bundlePartnerId meta cid st =
     (let problems = fst st; seen = snd st;
          p1 = (if cid \<in> set seen then setAdd DUPLICATE_COMPONENT problems else problems);
          p2 = (if cid = bundleId then setAdd SELF_REFERENCE p1 else p1);
          p3 = (case meta cid of
                  None \<Rightarrow> setAdd COMPONENT_NOT_FOUND p2
                | Some (isBundle, partnerId) \<Rightarrow>
                    let p4 = (if isBundle then setAdd NESTED_BUNDLE p2 else p2)
                    in if partnerId \<noteq> bundlePartnerId then setAdd CROSS_PARTNER p4 else p4)
      in (p3, setAdd cid seen))"

definition detectBundleProblems ::
    "uuid \<Rightarrow> uuid \<Rightarrow> uuid list \<Rightarrow> (uuid \<Rightarrow> (bool \<times> uuid) option) \<Rightarrow> bundle_problem list" where
  "detectBundleProblems bundleId bundlePartnerId components meta =
     fst (fold (bundleCheck bundleId bundlePartnerId meta) components ([], []))"

record bundle_part =
  bpt_quantity :: rat
  bpt_costBasis :: "money option"
  bpt_revenueAllocation :: "money option"

record bundle_economics =
  be_headlinePrice :: money
  be_totalCost :: money
  be_margin :: money
  be_marginPct :: jsnum
  be_allocationTotal :: money
  be_allocationMatchesHeadline :: bool

text \<open>The loop of \<open>computeBundleEconomicsFrom\<close>: cost cents, allocated cents, any allocation.\<close>

fun economicsLoop :: "bundle_part list \<Rightarrow> jsnum \<times> jsnum \<times> bool \<Rightarrow> jsnum \<times> jsnum \<times> bool" where
  "economicsLoop [] acc = acc"
| "economicsLoop (c # cs) (costCents, allocCents, anyAlloc) =
     (let cost' = fadd costCents (Math_round (fmul (toCents (bpt_costBasis c)) (js_Number (bpt_quantity c))))
      in case bpt_revenueAllocation c of
           None \<Rightarrow> economicsLoop cs (cost', allocCents, anyAlloc)
         | Some r \<Rightarrow> economicsLoop cs (cost', fadd allocCents (toCents (Some r)), True))"

definition computeBundleEconomicsFrom :: "money \<Rightarrow> bundle_part list \<Rightarrow> bundle_economics" where
  "computeBundleEconomicsFrom headlinePrice components =
     (case economicsLoop components (0, 0, False) of (costCents, allocCents, anyAllocation) \<Rightarrow>
      let headlineCents = toCents (Some headlinePrice);
          marginCents = fsub headlineCents costCents
      in \<lparr> be_headlinePrice = fromCents headlineCents, be_totalCost = fromCents costCents,
           be_margin = fromCents marginCents,
           be_marginPct = (if headlineCents = 0 then 0
             else fdiv (Math_round (fmul (fdiv marginCents headlineCents) 10000)) 100),
           be_allocationTotal = fromCents allocCents,
           be_allocationMatchesHeadline = (if anyAllocation then allocCents = headlineCents else True) \<rparr>)"

section \<open>catalogService.ts\<close>

text \<open>Escaping of the \<open>LIKE\<close> metacharacters of a search term.\<close>

definition escapeChar :: "char \<Rightarrow> string" where
  "escapeChar c = (if c = CHR 0x5C \<or> c = CHR ''%'' \<or> c = CHR ''_'' then [CHR 0x5C, c] else [c])"

definition escapeLikePattern :: "string \<Rightarrow> string" where
  "escapeLikePattern term0 = concat (map escapeChar term0)"

definition cat_requirePartner :: "actor \<Rightarrow> svc_error + uuid" where
  "cat_requirePartner a = ofOption (CatalogErr 400 CAT_PARTNER_UNRESOLVABLE) (a_partnerId a)"

definition cat_requireOrgAccess :: "actor \<Rightarrow> uuid \<Rightarrow> svc_error + unit" where
  "cat_requireOrgAccess a orgId = guardE (orgAccessible a orgId) (CatalogErr 403 CAT_ORG_DENIED)"

definition assertPriceInRange :: "money \<Rightarrow> svc_error + unit" where
  "assertPriceInRange unitPrice =
     guardE (\<not> js_Number unitPrice > js_Number (999999999999 / 100)) (CatalogErr 400 PRICE_OUT_OF_RANGE)"

text \<open>The partial unique index on \<open>(partner_id, sku)\<close>.\<close>

definition skuTaken :: "uuid \<Rightarrow> string option \<Rightarrow> uuid option \<Rightarrow> catalog_item list \<Rightarrow> bool" where
  "skuTaken partnerId sku except items = (case sku of None \<Rightarrow> False | Some k \<Rightarrow>
     list_ex (\<lambda>i. ci_partnerId i = partnerId \<and> ci_sku i = Some k \<and> Some (ci_id i) \<noteq> except) items)"

record create_item_input =
  cii_itemType :: item_type
  cii_name :: string
  cii_sku :: "string option"
  cii_description :: "string option"
  cii_billingType :: billing_type
  cii_billingFrequency :: "billing_frequency option"
  cii_commitmentTermMonths :: "int option"
  cii_unitPrice :: rat
  cii_costBasis :: "rat option"
  cii_markupPercent :: "rat option"
  cii_unitOfMeasure :: string
  cii_taxable :: bool
  cii_taxCategory :: "string option"
  cii_isBundle :: bool

definition createCatalogItem :: "create_item_input \<Rightarrow> actor \<Rightarrow> instant \<Rightarrow> db \<Rightarrow> catalog_item svc" where
  "createCatalogItem input a now s =
     bindE (cat_requirePartner a) (\<lambda>partnerId.
     let cost = map_option (\<lambda>v. toFixed 2 (js_Number v)) (cii_costBasis input);
         markup = map_option (\<lambda>v. toFixed 2 (js_Number v)) (cii_markupPercent input);
         unitPrice = deriveUnitPrice (Some (cii_unitPrice input)) cost markup
     in bindE (assertPriceInRange unitPrice) (\<lambda>_.
        bindE (guardE (\<not> skuTaken partnerId (cii_sku input) None (db_catalogItems s))
                 (CatalogErr 409 DUPLICATE_SKU)) (\<lambda>_.
        let item = \<lparr> ci_id = db_next s, ci_partnerId = partnerId, ci_itemType = cii_itemType input,
              ci_name = cii_name input, ci_sku = cii_sku input, ci_description = cii_description input,
              ci_billingType = cii_billingType input, ci_billingFrequency = cii_billingFrequency input,
              ci_commitmentTermMonths = cii_commitmentTermMonths input, ci_unitPrice = unitPrice,
              ci_costBasis = cost, ci_markupPercent = markup, ci_unitOfMeasure = cii_unitOfMeasure input,
              ci_taxable = cii_taxable input, ci_taxCategory = cii_taxCategory input,
              ci_isBundle = cii_isBundle input, ci_isActive = True, ci_createdBy = a_userId a,
              ci_updatedAt = now \<rparr>
        in Inr (item, emit (CatalogEvent Ev_item_created (ci_id item) partnerId)
             (s \<lparr> db_next := Suc (db_next s), db_catalogItems := insertRow item (db_catalogItems s) \<rparr>)))))"

definition itemOf :: "db \<Rightarrow> uuid \<Rightarrow> catalog_item option" where
  "itemOf s i = selectOne (\<lambda>r. ci_id r = i) (db_catalogItems s)"

definition getOwnedItemOr404 :: "uuid \<Rightarrow> uuid \<Rightarrow> db \<Rightarrow> svc_error + catalog_item" where
  "getOwnedItemOr404 i partnerId s = ofOption (CatalogErr 404 ITEM_NOT_FOUND)
     (selectOne (\<lambda>r. ci_id r = i \<and> ci_partnerId r = partnerId) (db_catalogItems s))"

text \<open>A PATCH field is absent (\<open>None\<close>), or present with a value (for nullable columns, maybe null).\<close>

record update_item_input =
  uii_itemType :: "item_type option"
  uii_name :: "string option"
  uii_sku :: "string option option"
  uii_description :: "string option option"
  uii_billingType :: "billing_type option"
  uii_billingFrequency :: "billing_frequency option option"
  uii_commitmentTermMonths :: "int option option"
  uii_unitPrice :: "rat option"
  uii_costBasis :: "rat option option"
  uii_markupPercent :: "rat option option"
  uii_unitOfMeasure :: "string option"
  uii_taxable :: "bool option"
  uii_taxCategory :: "string option option"
  uii_isBundle :: "bool option"
  uii_isActive :: "bool option"

definition patchItem :: "update_item_input \<Rightarrow> money option \<Rightarrow> instant \<Rightarrow> catalog_item \<Rightarrow> catalog_item" where
  "patchItem input unitPrice now i = i \<lparr>
     ci_itemType := nullish (uii_itemType input) (ci_itemType i),
     ci_name := nullish (uii_name input) (ci_name i),
     ci_sku := nullish (uii_sku input) (ci_sku i),
     ci_description := nullish (uii_description input) (ci_description i),
     ci_billingType := nullish (uii_billingType input) (ci_billingType i),
     ci_billingFrequency := nullish (uii_billingFrequency input) (ci_billingFrequency i),
     ci_commitmentTermMonths := nullish (uii_commitmentTermMonths input) (ci_commitmentTermMonths i),
     ci_unitPrice := nullish unitPrice (ci_unitPrice i),
     ci_costBasis := nullish (map_option (map_option (\<lambda>v. toFixed 2 (js_Number v))) (uii_costBasis input)) (ci_costBasis i),
     ci_markupPercent := nullish (map_option (map_option (\<lambda>v. toFixed 2 (js_Number v))) (uii_markupPercent input)) (ci_markupPercent i),
     ci_unitOfMeasure := nullish (uii_unitOfMeasure input) (ci_unitOfMeasure i),
     ci_taxable := nullish (uii_taxable input) (ci_taxable i),
     ci_taxCategory := nullish (uii_taxCategory input) (ci_taxCategory i),
     ci_isBundle := nullish (uii_isBundle input) (ci_isBundle i),
     ci_isActive := nullish (uii_isActive input) (ci_isActive i),
     ci_updatedAt := now \<rparr>"

text \<open>The price a PATCH writes, if any: explicit, or derived when a driver changed and both exist.\<close>

definition patchedPrice :: "update_item_input \<Rightarrow> catalog_item \<Rightarrow> money option" where
  "patchedPrice input existing =
     (let nextCost = (case uii_costBasis input of Some v \<Rightarrow> v | None \<Rightarrow> ci_costBasis existing);
          nextMarkup = (case uii_markupPercent input of Some v \<Rightarrow> v | None \<Rightarrow> ci_markupPercent existing);
          driverChanged = (uii_unitPrice input \<noteq> None \<or> uii_costBasis input \<noteq> None \<or> uii_markupPercent input \<noteq> None);
          shouldDerive = (uii_unitPrice input \<noteq> None \<or> driverChanged \<and> nextCost \<noteq> None \<and> nextMarkup \<noteq> None)
      in if shouldDerive
         then Some (case uii_unitPrice input of
                Some p \<Rightarrow> toFixed 2 (js_Number p)
              | None \<Rightarrow> deriveUnitPrice None (map_option (\<lambda>v. toFixed 2 (js_Number v)) nextCost)
                          (map_option (\<lambda>v. toFixed 2 (js_Number v)) nextMarkup))
         else None)"

definition updateCatalogItem ::
    "uuid \<Rightarrow> update_item_input \<Rightarrow> actor \<Rightarrow> instant \<Rightarrow> db \<Rightarrow> catalog_item svc" where
  "updateCatalogItem i input a now s =
     bindE (cat_requirePartner a) (\<lambda>partnerId.
     bindE (getOwnedItemOr404 i partnerId s) (\<lambda>existing.
     bindE (case patchedPrice input existing of None \<Rightarrow> Inr () | Some p \<Rightarrow> assertPriceInRange p) (\<lambda>_.
     bindE (guardE (\<not> (uii_isBundle input = Some True \<and> \<not> ci_isBundle existing \<and>
              selectOne (\<lambda>b. bc_componentItemId b = i) (db_bundleComponents s) \<noteq> None))
              (CatalogErr 409 BUNDLE_NESTED)) (\<lambda>_.
     let patched = patchItem input (patchedPrice input existing) now;
         owned = (\<lambda>r. ci_id r = i \<and> ci_partnerId r = partnerId)
     in bindE (guardE (\<not> skuTaken partnerId (ci_sku (patched existing)) (Some i) (db_catalogItems s))
                (CatalogErr 409 DUPLICATE_SKU)) (\<lambda>_.
        let s1 = s \<lparr> db_catalogItems := updateWhere owned patched (db_catalogItems s) \<rparr>;
            s2 = (if uii_isBundle input = Some False \<and> ci_isBundle existing
                  then s1 \<lparr> db_bundleComponents := deleteWhere (\<lambda>b. bc_bundleItemId b = i) (db_bundleComponents s1) \<rparr>
                  else s1)
        in Inr (patched existing, emit (CatalogEvent Ev_item_updated i partnerId) s2))))))"

definition archiveCatalogItem :: "uuid \<Rightarrow> actor \<Rightarrow> instant \<Rightarrow> db \<Rightarrow> catalog_item svc" where
  "archiveCatalogItem i a now s =
     bindE (cat_requirePartner a) (\<lambda>partnerId.
     bindE (getOwnedItemOr404 i partnerId s) (\<lambda>existing.
     let f = (\<lambda>r. r \<lparr> ci_isActive := False, ci_updatedAt := now \<rparr>)
     in Inr (f existing, emit (CatalogEvent Ev_item_archived i partnerId)
          (s \<lparr> db_catalogItems := updateWhere (\<lambda>r. ci_id r = i \<and> ci_partnerId r = partnerId) f (db_catalogItems s) \<rparr>))))"

record list_catalog_query =
  lcq_itemType :: "item_type option"
  lcq_isActive :: "bool option"
  lcq_isBundle :: "bool option"
  lcq_search :: "string option"
  lcq_limit :: nat
  lcq_cursor :: "uuid option"

text \<open>
  \<open>ilike(name, '%term%')\<close> with the term escaped: a substring test, up to the letter case folded
  by \<open>toUpperChar\<close>.
\<close>

definition ilikeContains :: "string \<Rightarrow> string \<Rightarrow> bool" where
  "ilikeContains name term0 =
     list_ex (\<lambda>k. take (length term0) (drop k (map toUpperChar name)) = map toUpperChar term0) [0..<Suc (length name)]"

definition listCatalogItems :: "list_catalog_query \<Rightarrow> actor \<Rightarrow> db \<Rightarrow> svc_error + catalog_item list" where
  "listCatalogItems query a s = bindE (cat_requirePartner a) (\<lambda>partnerId.
     Inr (take (lcq_limit query) (sort_key ci_id (selectWhere (\<lambda>i. ci_partnerId i = partnerId \<and>
       (case lcq_itemType query of None \<Rightarrow> True | Some t \<Rightarrow> ci_itemType i = t) \<and>
       (case lcq_isActive query of None \<Rightarrow> True | Some v \<Rightarrow> ci_isActive i = v) \<and>
       (case lcq_isBundle query of None \<Rightarrow> True | Some v \<Rightarrow> ci_isBundle i = v) \<and>
       (case lcq_search query of None \<Rightarrow> True | Some t \<Rightarrow> t = [] \<or> ilikeContains (ci_name i) t) \<and>
       (case lcq_cursor query of None \<Rightarrow> True | Some c \<Rightarrow> c < ci_id i)) (db_catalogItems s)))))"

definition getCatalogItem ::
    "uuid \<Rightarrow> actor \<Rightarrow> db \<Rightarrow> svc_error + (catalog_item \<times> org_pricing list \<times> bundle_component list)" where
  "getCatalogItem i a s =
     bindE (cat_requirePartner a) (\<lambda>partnerId.
     bindE (getOwnedItemOr404 i partnerId s) (\<lambda>item.
     Inr (item, selectWhere (\<lambda>o'. op_catalogItemId o' = i) (db_orgPricing s),
       if ci_isBundle item then selectWhere (\<lambda>b. bc_bundleItemId b = i) (db_bundleComponents s) else [])))"

definition setOrgPriceOverride ::
    "uuid \<Rightarrow> uuid \<Rightarrow> rat \<Rightarrow> actor \<Rightarrow> instant \<Rightarrow> db \<Rightarrow> unit svc" where
  "setOrgPriceOverride itemId orgId price a now s =
     bindE (cat_requirePartner a) (\<lambda>partnerId.
     bindE (cat_requireOrgAccess a orgId) (\<lambda>_.
     bindE (getOwnedItemOr404 itemId partnerId s) (\<lambda>_.
     let unitPrice = toFixed 2 (js_Number price);
         key = (\<lambda>r. op_catalogItemId r = itemId \<and> op_orgId r = orgId)
     in bindE (assertPriceInRange unitPrice) (\<lambda>_.
        Inr ((), case selectOne key (db_orgPricing s) of
            Some _ \<Rightarrow> s \<lparr> db_orgPricing := updateWhere key
                (\<lambda>r. r \<lparr> op_unitPrice := unitPrice, op_updatedAt := now \<rparr>) (db_orgPricing s) \<rparr>
          | None \<Rightarrow> s \<lparr> db_next := Suc (db_next s), db_orgPricing := insertRow
                \<lparr> op_id = db_next s, op_catalogItemId = itemId, op_orgId = orgId,
                  op_unitPrice = unitPrice, op_updatedAt = now \<rparr> (db_orgPricing s) \<rparr>)))))"

definition removeOrgPriceOverride :: "uuid \<Rightarrow> uuid \<Rightarrow> actor \<Rightarrow> db \<Rightarrow> unit svc" where
  "removeOrgPriceOverride itemId orgId a s =
     bindE (cat_requirePartner a) (\<lambda>partnerId.
     bindE (cat_requireOrgAccess a orgId) (\<lambda>_.
     bindE (getOwnedItemOr404 itemId partnerId s) (\<lambda>_.
     Inr ((), s \<lparr> db_orgPricing :=
       deleteWhere (\<lambda>r. op_catalogItemId r = itemId \<and> op_orgId r = orgId) (db_orgPricing s) \<rparr>))))"

record component_input =
  cmi_componentItemId :: uuid
  cmi_quantity :: rat
  cmi_showOnInvoice :: bool
  cmi_revenueAllocation :: "rat option"

definition bundleErrors :: "bundle_problem list \<Rightarrow> svc_error + unit" where
  "bundleErrors problems =
     bindE (guardE (SELF_REFERENCE \<notin> set problems) (CatalogErr 400 BUNDLE_SELF_REFERENCE)) (\<lambda>_.
     bindE (guardE (NESTED_BUNDLE \<notin> set problems) (CatalogErr 400 BUNDLE_NESTED)) (\<lambda>_.
     bindE (guardE (CROSS_PARTNER \<notin> set problems) (CatalogErr 400 BUNDLE_CROSS_PARTNER)) (\<lambda>_.
     bindE (guardE (COMPONENT_NOT_FOUND \<notin> set problems) (CatalogErr 404 BUNDLE_COMPONENT_NOT_FOUND)) (\<lambda>_.
     guardE (DUPLICATE_COMPONENT \<notin> set problems) (CatalogErr 400 BUNDLE_DUPLICATE_COMPONENT)))))"

fun insertComponents :: "component_input list \<Rightarrow> uuid \<Rightarrow> uuid \<Rightarrow> db \<Rightarrow> db" where
  "insertComponents [] partnerId bundleId s = s"
| "insertComponents (c # cs) partnerId bundleId s = insertComponents cs partnerId bundleId
     (s \<lparr> db_next := Suc (db_next s), db_bundleComponents := insertRow
        \<lparr> bc_id = db_next s, bc_partnerId = partnerId, bc_bundleItemId = bundleId,
          bc_componentItemId = cmi_componentItemId c, bc_quantity = toFixed 2 (js_Number (cmi_quantity c)),
          bc_showOnInvoice = cmi_showOnInvoice c,
          bc_revenueAllocation = map_option (\<lambda>v. toFixed 2 (js_Number v)) (cmi_revenueAllocation c) \<rparr>
        (db_bundleComponents s) \<rparr>)"

definition componentMeta :: "db \<Rightarrow> uuid \<Rightarrow> (bool \<times> uuid) option" where
  "componentMeta s i = map_option (\<lambda>r. (ci_isBundle r, ci_partnerId r)) (itemOf s i)"

definition setBundleComponents ::
    "uuid \<Rightarrow> component_input list \<Rightarrow> actor \<Rightarrow> db \<Rightarrow> (catalog_item \<times> org_pricing list \<times> bundle_component list) svc" where
  "setBundleComponents bundleId components a s =
     bindE (cat_requirePartner a) (\<lambda>partnerId.
     bindE (getOwnedItemOr404 bundleId partnerId s) (\<lambda>bundle.
     bindE (guardE (ci_isBundle bundle) (CatalogErr 400 NOT_A_BUNDLE)) (\<lambda>_.
     bindE (bundleErrors (detectBundleProblems bundleId partnerId
              (map cmi_componentItemId components) (componentMeta s))) (\<lambda>_.
     let s1 = s \<lparr> db_bundleComponents := deleteWhere (\<lambda>b. bc_bundleItemId b = bundleId) (db_bundleComponents s) \<rparr>;
         s2 = insertComponents components partnerId bundleId s1;
         s3 = emit (CatalogEvent Ev_item_updated bundleId partnerId) s2
     in bindE (getCatalogItem bundleId a s3) (\<lambda>r. Inr (r, s3))))))"

definition resolvePrice :: "uuid \<Rightarrow> uuid option \<Rightarrow> actor \<Rightarrow> db \<Rightarrow> svc_error + resolved_price" where
  "resolvePrice catalogItemId orgId a s =
     bindE (cat_requirePartner a) (\<lambda>partnerId.
     bindE (case orgId of None \<Rightarrow> Inr () | Some org \<Rightarrow> cat_requireOrgAccess a org) (\<lambda>_.
     bindE (getOwnedItemOr404 catalogItemId partnerId s) (\<lambda>item.
     Inr (resolvePriceFrom item (case orgId of None \<Rightarrow> None | Some org \<Rightarrow>
       map_option op_unitPrice (selectOne (\<lambda>r. op_catalogItemId r = catalogItemId \<and> op_orgId r = org) (db_orgPricing s)))))))"

text \<open>The components of a bundle joined with their items.\<close>

definition bundleJoin :: "uuid \<Rightarrow> db \<Rightarrow> (bundle_component \<times> catalog_item) list" where
  "bundleJoin bundleId s =
     [(b, i). b \<leftarrow> selectWhere (\<lambda>b. bc_bundleItemId b = bundleId) (db_bundleComponents s),
              i \<leftarrow> selectWhere (\<lambda>i. ci_id i = bc_componentItemId b) (db_catalogItems s)]"

definition computeBundleEconomics :: "uuid \<Rightarrow> uuid option \<Rightarrow> actor \<Rightarrow> db \<Rightarrow> svc_error + bundle_economics" where
  "computeBundleEconomics bundleId orgId a s =
     bindE (cat_requirePartner a) (\<lambda>partnerId.
     bindE (case orgId of None \<Rightarrow> Inr () | Some org \<Rightarrow> cat_requireOrgAccess a org) (\<lambda>_.
     bindE (getOwnedItemOr404 bundleId partnerId s) (\<lambda>bundle.
     bindE (guardE (ci_isBundle bundle) (CatalogErr 400 NOT_A_BUNDLE)) (\<lambda>_.
     bindE (case orgId of None \<Rightarrow> Inr (ci_unitPrice bundle)
              | Some org \<Rightarrow> bindE (resolvePrice bundleId (Some org) a s) (\<lambda>r. Inr (rp_unitPrice r))) (\<lambda>headline.
     Inr (computeBundleEconomicsFrom headline (map (\<lambda>p. \<lparr> bpt_quantity = bc_quantity (fst p),
       bpt_costBasis = ci_costBasis (snd p), bpt_revenueAllocation = bc_revenueAllocation (fst p) \<rparr>)
       (bundleJoin bundleId s))))))))"

section \<open>Bundle checks\<close>

lemma set_setAdd [simp]: "set (setAdd x xs) = insert x (set xs)"
  by (auto simp: setAdd_def)

lemma bundleCheck_problems:
  "set (fst (bundleCheck b p meta c st)) = set (fst st)
     \<union> (if c \<in> set (snd st) then {DUPLICATE_COMPONENT} else {})
     \<union> (if c = b then {SELF_REFERENCE} else {})
     \<union> (case meta c of None \<Rightarrow> {COMPONENT_NOT_FOUND} | Some (isB, q) \<Rightarrow>
          (if isB then {NESTED_BUNDLE} else {}) \<union> (if q \<noteq> p then {CROSS_PARTNER} else {}))"
  by (auto simp: bundleCheck_def Let_def split: option.splits prod.splits)

lemma bundleCheck_seen [simp]: "set (snd (bundleCheck b p meta c st)) = insert c (set (snd st))"
  by (simp add: bundleCheck_def Let_def)

lemma bundleFold_problems:
  "x \<in> set (fst (fold (bundleCheck b p meta) cs st)) \<longleftrightarrow> x \<in> set (fst st) \<or> (case x of
     SELF_REFERENCE \<Rightarrow> b \<in> set cs
   | NESTED_BUNDLE \<Rightarrow> \<exists>c \<in> set cs. \<exists>q. meta c = Some (True, q)
   | CROSS_PARTNER \<Rightarrow> \<exists>c \<in> set cs. \<exists>i q. meta c = Some (i, q) \<and> q \<noteq> p
   | COMPONENT_NOT_FOUND \<Rightarrow> \<exists>c \<in> set cs. meta c = None
   | DUPLICATE_COMPONENT \<Rightarrow> \<not> distinct cs \<or> set cs \<inter> set (snd st) \<noteq> {})"
proof (induction cs arbitrary: st)
  case (Cons c cs)
  show ?case
    using Cons[of "bundleCheck b p meta c st"]
    by (cases x; cases "meta c") (auto simp: bundleCheck_problems split: if_splits)
qed (cases x; simp)

lemma detectBundleProblems_iff:
  "x \<in> set (detectBundleProblems b p cs meta) \<longleftrightarrow> (case x of
     SELF_REFERENCE \<Rightarrow> b \<in> set cs
   | NESTED_BUNDLE \<Rightarrow> \<exists>c \<in> set cs. \<exists>q. meta c = Some (True, q)
   | CROSS_PARTNER \<Rightarrow> \<exists>c \<in> set cs. \<exists>i q. meta c = Some (i, q) \<and> q \<noteq> p
   | COMPONENT_NOT_FOUND \<Rightarrow> \<exists>c \<in> set cs. meta c = None
   | DUPLICATE_COMPONENT \<Rightarrow> \<not> distinct cs)"
  unfolding detectBundleProblems_def bundleFold_problems by (cases x) simp_all

lemma bundleErrors_ok [guard_simps]: "bundleErrors ps = Inr u \<longleftrightarrow> ps = []"
proof -
  have "ps = [] \<longleftrightarrow> (\<forall>x. x \<notin> set ps)" by (cases ps) auto
  moreover have "(\<forall>x. x \<notin> set ps) \<longleftrightarrow> SELF_REFERENCE \<notin> set ps \<and> NESTED_BUNDLE \<notin> set ps \<and>
      CROSS_PARTNER \<notin> set ps \<and> COMPONENT_NOT_FOUND \<notin> set ps \<and> DUPLICATE_COMPONENT \<notin> set ps"
    by (metis bundle_problem.exhaust)
  moreover have "bundleErrors ps = Inr u \<longleftrightarrow> SELF_REFERENCE \<notin> set ps \<and> NESTED_BUNDLE \<notin> set ps \<and>
      CROSS_PARTNER \<notin> set ps \<and> COMPONENT_NOT_FOUND \<notin> set ps \<and> DUPLICATE_COMPONENT \<notin> set ps"
    by (simp add: bundleErrors_def guard_simps)
  ultimately show ?thesis by simp
qed

section \<open>The catalog invariant\<close>

definition component_ok :: "db \<Rightarrow> bundle_component \<Rightarrow> bool" where
  "component_ok s b \<longleftrightarrow>
     (case itemOf s (bc_bundleItemId b) of None \<Rightarrow> False
      | Some x \<Rightarrow> ci_isBundle x \<and> ci_partnerId x = bc_partnerId b) \<and>
     (case itemOf s (bc_componentItemId b) of None \<Rightarrow> False
      | Some y \<Rightarrow> \<not> ci_isBundle y \<and> ci_partnerId y = bc_partnerId b)"

definition catalog_ok :: "db \<Rightarrow> bool" where
  "catalog_ok s \<longleftrightarrow> key_ok ci_id (db_next s) (db_catalogItems s) \<and>
     list_all (component_ok s) (db_bundleComponents s) \<and>
     distinct (map (\<lambda>b. (bc_bundleItemId b, bc_componentItemId b)) (db_bundleComponents s))"

text \<open>One call of the catalog service that changed the state.\<close>

inductive catalog_step :: "db \<Rightarrow> db \<Rightarrow> bool" where
  create: "createCatalogItem input a now s = Inr (r, s') \<Longrightarrow> catalog_step s s'"
| update: "updateCatalogItem i patch a now s = Inr (r, s') \<Longrightarrow> catalog_step s s'"
| archive: "archiveCatalogItem i a now s = Inr (r, s') \<Longrightarrow> catalog_step s s'"
| set_override: "setOrgPriceOverride i org price a now s = Inr (u, s') \<Longrightarrow> catalog_step s s'"
| remove_override: "removeOrgPriceOverride i org a s = Inr (u, s') \<Longrightarrow> catalog_step s s'"
| set_components: "setBundleComponents b cs a s = Inr (v, s') \<Longrightarrow> catalog_step s s'"

inductive_cases catalog_stepE: "catalog_step s s'"

lemma owned_itemOf:
  assumes "key_ok ci_id n (db_catalogItems s)" "getOwnedItemOr404 i p s = Inr x"
  shows "itemOf s i = Some x" "ci_partnerId x = p" "ci_id x = i"
proof -
  have x: "x \<in> set (db_catalogItems s)" "ci_id x = i" "ci_partnerId x = p"
    using assms(2) selectOne_Some by (fastforce simp: getOwnedItemOr404_def ofOption_eq_Inr)+
  then show "itemOf s i = Some x" "ci_partnerId x = p" "ci_id x = i"
    using selectOne_key[OF assms(1) x(1)] by (simp_all add: itemOf_def)
qed

lemma itemOf_frame [simp]:
  "itemOf (emit e s) i = itemOf s i"
  "itemOf (s \<lparr> db_bundleComponents := t \<rparr>) i = itemOf s i"
  "itemOf (s \<lparr> db_next := n \<rparr>) i = itemOf s i"
  by (simp_all add: itemOf_def emit_def)

lemma component_ok_frame [simp]:
  "component_ok (emit e s) = component_ok s"
  "component_ok (s \<lparr> db_bundleComponents := t \<rparr>) = component_ok s"
  "component_ok (s \<lparr> db_next := n \<rparr>) = component_ok s"
  by (simp_all add: component_ok_def fun_eq_iff)

lemma catalog_ok_emit [simp]: "catalog_ok (emit e s) = catalog_ok s"
  by (simp add: catalog_ok_def)

lemma catalog_ok_create:
  assumes "catalog_ok s" "createCatalogItem input a now s = Inr (r, s')"
  shows "catalog_ok s'"
proof -
  let ?s = "s \<lparr> db_next := Suc (db_next s), db_catalogItems := insertRow r (db_catalogItems s) \<rparr>"
  have x: "ci_id r = db_next s" and "\<exists>p. s' = emit (CatalogEvent Ev_item_created (ci_id r) p) ?s"
    using assms(2) by (auto simp: createCatalogItem_def Let_def guard_simps)
  then obtain e where s': "s' = emit e ?s" by blast
  have "itemOf ?s i = Some y" if "itemOf s i = Some y" for i y
    using that by (simp add: itemOf_def selectOne_insertRow)
  then have "component_ok ?s b" if "component_ok s b" for b
    using that by (auto simp: component_ok_def split: option.splits)
  then have "list_all (component_ok ?s) (db_bundleComponents s)"
    using assms(1) by (auto simp: catalog_ok_def list_all_iff)
  then show ?thesis
    unfolding s' using assms(1) key_ok_insertRow[of ci_id "db_next s" "db_catalogItems s" r] x
    by (auto simp: catalog_ok_def)
qed

lemma itemOf_update:
  assumes "\<And>r. P r \<Longrightarrow> ci_id (f r) = ci_id r"
  shows "itemOf (s \<lparr> db_catalogItems := updateWhere P f (db_catalogItems s) \<rparr>) i =
    map_option (\<lambda>r. if P r then f r else r) (itemOf s i)"
  using assms unfolding itemOf_def by (simp add: selectOne_updateWhere)

lemma itemOf_update_one:
  assumes "itemOf s i = Some x" "P x" "\<And>q. P q \<Longrightarrow> ci_id q = i" "\<And>q. ci_id (f q) = ci_id q"
  shows "itemOf (s \<lparr> db_catalogItems := updateWhere P f (db_catalogItems s) \<rparr>) j =
    (if j = i then Some (f x) else itemOf s j)"
proof -
  have eq: "itemOf (s \<lparr> db_catalogItems := updateWhere P f (db_catalogItems s) \<rparr>) j =
      map_option (\<lambda>q. if P q then f q else q) (itemOf s j)"
    by (rule itemOf_update) (simp add: assms(4))
  have np: "\<not> P q" if "itemOf s j = Some q" "j \<noteq> i" for q
    using selectOne_Some[of "\<lambda>q. ci_id q = j"] assms(3)[of q] that by (auto simp: itemOf_def)
  show ?thesis
  proof (cases "j = i")
    case True
    then show ?thesis using eq assms(1,2) by simp
  next
    case False
    then show ?thesis using eq np by (cases "itemOf s j") simp_all
  qed
qed

text \<open>Updates that keep the bundle flag keep the invariant.\<close>

lemma catalog_ok_update_plain:
  assumes "catalog_ok s"
    and "\<And>r. P r \<Longrightarrow> ci_id (f r) = ci_id r \<and> ci_partnerId (f r) = ci_partnerId r \<and> ci_isBundle (f r) = ci_isBundle r"
  shows "catalog_ok (s \<lparr> db_catalogItems := updateWhere P f (db_catalogItems s) \<rparr>)"
proof -
  have "component_ok (s \<lparr> db_catalogItems := updateWhere P f (db_catalogItems s) \<rparr>) b" if "component_ok s b" for b
    using that assms(2) by (auto simp: component_ok_def itemOf_update split: option.splits)
  moreover have "key_ok ci_id (db_next s) (updateWhere P f (db_catalogItems s))"
    using assms by (intro key_ok_updateWhere) (auto simp: catalog_ok_def)
  ultimately show ?thesis using assms(1) by (auto simp: catalog_ok_def list_all_iff)
qed

lemma catalog_ok_archive:
  assumes "catalog_ok s" "archiveCatalogItem i a now s = Inr (r, s')"
  shows "catalog_ok s'"
  using assms by (auto simp: archiveCatalogItem_def Let_def guard_simps intro!: catalog_ok_update_plain)

lemma catalog_ok_pricing [simp]:
  "catalog_ok (s \<lparr> db_orgPricing := t \<rparr>) = catalog_ok s"
  by (simp add: catalog_ok_def component_ok_def[abs_def] itemOf_def)

lemma catalog_ok_next: "catalog_ok s \<Longrightarrow> catalog_ok (s \<lparr> db_next := Suc (db_next s) \<rparr>)"
  by (auto simp: catalog_ok_def intro: key_ok_mono)

lemma catalog_ok_set_override:
  assumes "catalog_ok s" "setOrgPriceOverride i org price a now s = Inr (u, s')"
  shows "catalog_ok s'"
proof -
  have "s' = s \<lparr> db_orgPricing := db_orgPricing s' \<rparr> \<or>
      s' = s \<lparr> db_next := Suc (db_next s), db_orgPricing := db_orgPricing s' \<rparr>"
    using assms(2) by (auto simp: setOrgPriceOverride_def Let_def guard_simps split: option.splits)
  then show ?thesis
    using assms(1) catalog_ok_next[OF assms(1)] catalog_ok_pricing by metis
qed

lemma catalog_ok_remove_override:
  assumes "catalog_ok s" "removeOrgPriceOverride i org a s = Inr (u, s')"
  shows "catalog_ok s'"
  using assms by (auto simp: removeOrgPriceOverride_def guard_simps)

lemma catalog_ok_delete_components:
  "catalog_ok s \<Longrightarrow> catalog_ok (s \<lparr> db_bundleComponents := deleteWhere P (db_bundleComponents s) \<rparr>)"
  by (auto simp: catalog_ok_def deleteWhere_def list_all_iff distinct_map_filter)

lemma component_ok_change:
  assumes "component_ok s b" "itemOf s i = Some x"
    and "\<And>j. itemOf s' j = (if j = i then Some y else itemOf s j)" "ci_partnerId y = ci_partnerId x"
    and "bc_bundleItemId b = i \<Longrightarrow> ci_isBundle y = ci_isBundle x"
    and "bc_componentItemId b = i \<Longrightarrow> ci_isBundle y = ci_isBundle x"
  shows "component_ok s' b"
  using assms by (auto simp: component_ok_def split: option.splits)

lemma catalog_ok_update:
  assumes ok: "catalog_ok s" and step: "updateCatalogItem i patch a now s = Inr (r, s')"
  shows "catalog_ok s'"
proof -
  obtain p x e where p: "getOwnedItemOr404 i p s = Inr x"
    and nest: "\<not> (uii_isBundle patch = Some True \<and> \<not> ci_isBundle x \<and>
      selectOne (\<lambda>b. bc_componentItemId b = i) (db_bundleComponents s) \<noteq> None)"
    and s': "emit e (let s1 = s \<lparr> db_catalogItems := updateWhere (\<lambda>q. ci_id q = i \<and> ci_partnerId q = p)
          (patchItem patch (patchedPrice patch x) now) (db_catalogItems s) \<rparr>
        in if uii_isBundle patch = Some False \<and> ci_isBundle x
           then s1 \<lparr> db_bundleComponents := deleteWhere (\<lambda>b. bc_bundleItemId b = i) (db_bundleComponents s1) \<rparr> else s1) = s'"
    using step unfolding updateCatalogItem_def Let_def
    by (simp only: guard_simps sum.inject prod.inject) blast
  define f where "f = patchItem patch (patchedPrice patch x) now"
  define P :: "catalog_item \<Rightarrow> bool" where "P = (\<lambda>q. ci_id q = i \<and> ci_partnerId q = p)"
  define s1 where "s1 = s \<lparr> db_catalogItems := updateWhere P f (db_catalogItems s) \<rparr>"
  have f: "ci_id (f q) = ci_id q" "ci_partnerId (f q) = ci_partnerId q"
    "ci_isBundle (f q) = nullish (uii_isBundle patch) (ci_isBundle q)" for q
    by (simp_all add: f_def patchItem_def)
  have key: "key_ok ci_id (db_next s) (db_catalogItems s)" using ok by (simp add: catalog_ok_def)
  note x = owned_itemOf[OF key p]
  have item: "itemOf s1 j = (if j = i then Some (f x) else itemOf s j)" for j
    unfolding s1_def by (rule itemOf_update_one) (use x f in \<open>auto simp: P_def\<close>)
  have comp: "component_ok s b" if "b \<in> set (db_bundleComponents s)" for b
    using ok that by (auto simp: catalog_ok_def list_all_iff)
  have keep: "component_ok s1 b" if b: "b \<in> set (db_bundleComponents s)"
    and del: "uii_isBundle patch = Some False \<and> ci_isBundle x \<Longrightarrow> bc_bundleItemId b \<noteq> i" for b
  proof (rule component_ok_change[OF comp[OF b] x(1) item])
    show "ci_partnerId (f x) = ci_partnerId x" by (simp add: f)
    show "ci_isBundle (f x) = ci_isBundle x" if "bc_bundleItemId b = i"
      using that comp[OF b] x del
      by (cases "uii_isBundle patch") (auto simp: f component_ok_def split: option.splits)
    show "ci_isBundle (f x) = ci_isBundle x" if "bc_componentItemId b = i"
      using that comp[OF b] x nest b
      by (cases "uii_isBundle patch") (auto simp: f component_ok_def selectOne_None split: option.splits)
  qed
  have key1: "key_ok ci_id (db_next s) (db_catalogItems s1)"
    using key unfolding s1_def by (auto intro: key_ok_updateWhere simp: f)
  have s1: "db_next s1 = db_next s" "db_bundleComponents s1 = db_bundleComponents s"
    by (simp_all add: s1_def)
  have "s' = emit e (if uii_isBundle patch = Some False \<and> ci_isBundle x
           then s1 \<lparr> db_bundleComponents := deleteWhere (\<lambda>b. bc_bundleItemId b = i) (db_bundleComponents s) \<rparr> else s1)"
    using s' unfolding Let_def P_def[symmetric] f_def[symmetric] s1_def[symmetric] s1 by simp
  then show ?thesis
    using key1 keep ok
    by (auto simp: catalog_ok_def s1 list_all_iff deleteWhere_def distinct_map_filter)
qed

text \<open>The rows that \<open>setBundleComponents\<close> inserts.\<close>

lemma insertComponents_eq:
  "\<exists>rows. db_bundleComponents (insertComponents cs p b s) = db_bundleComponents s @ rows \<and>
     map bc_componentItemId rows = map cmi_componentItemId cs \<and>
     (\<forall>r \<in> set rows. bc_partnerId r = p \<and> bc_bundleItemId r = b)"
proof (induction cs arbitrary: s)
  case (Cons c cs)
  define r where "r = \<lparr> bc_id = db_next s, bc_partnerId = p, bc_bundleItemId = b,
          bc_componentItemId = cmi_componentItemId c, bc_quantity = toFixed 2 (js_Number (cmi_quantity c)),
          bc_showOnInvoice = cmi_showOnInvoice c,
          bc_revenueAllocation = map_option (\<lambda>v. toFixed 2 (js_Number v)) (cmi_revenueAllocation c) \<rparr>"
  obtain rows where "db_bundleComponents (insertComponents (c # cs) p b s) = (db_bundleComponents s @ [r]) @ rows"
    "map bc_componentItemId rows = map cmi_componentItemId cs"
    "\<forall>r \<in> set rows. bc_partnerId r = p \<and> bc_bundleItemId r = b"
    using Cons[of "s \<lparr> db_next := Suc (db_next s), db_bundleComponents := insertRow r (db_bundleComponents s) \<rparr>"]
    by (auto simp: r_def insertRow_def)
  then show ?case by (intro exI[of _ "r # rows"]) (simp add: r_def)
qed simp

lemma insertComponents_frame [simp]:
  "db_catalogItems (insertComponents cs p b s) = db_catalogItems s"
  "db_next (insertComponents cs p b s) = db_next s + length cs"
  "db_orgPricing (insertComponents cs p b s) = db_orgPricing s"
  by (induction cs arbitrary: s) simp_all

lemma catalog_ok_set_components:
  assumes ok: "catalog_ok s" and step: "setBundleComponents b cs a s = Inr (v, s')"
  shows "catalog_ok s'"
proof -
  define s1 where "s1 = s \<lparr> db_bundleComponents := deleteWhere (\<lambda>c. bc_bundleItemId c = b) (db_bundleComponents s) \<rparr>"
  obtain p x e where p: "getOwnedItemOr404 b p s = Inr x" and x: "ci_isBundle x"
    and none: "detectBundleProblems b p (map cmi_componentItemId cs) (componentMeta s) = []"
    and s': "emit e (insertComponents cs p b s1) = s'"
    using step unfolding setBundleComponents_def Let_def s1_def
    by (simp only: guard_simps sum.inject prod.inject) blast
  have key: "key_ok ci_id (db_next s) (db_catalogItems s)" using ok by (simp add: catalog_ok_def)
  note xs = owned_itemOf[OF key p]
  obtain rows where rows: "db_bundleComponents (insertComponents cs p b s1) = db_bundleComponents s1 @ rows"
    "map bc_componentItemId rows = map cmi_componentItemId cs"
    "\<forall>r \<in> set rows. bc_partnerId r = p \<and> bc_bundleItemId r = b"
    using insertComponents_eq by blast
  have no: "z \<notin> set (detectBundleProblems b p (map cmi_componentItemId cs) (componentMeta s))" for z
    using none by simp
  note no' = no[unfolded detectBundleProblems_iff]
  note nf = no'[of COMPONENT_NOT_FOUND, unfolded bundle_problem.case]
    and nb = no'[of NESTED_BUNDLE, unfolded bundle_problem.case]
    and cp = no'[of CROSS_PARTNER, unfolded bundle_problem.case]
  have dist: "distinct (map bc_componentItemId rows)"
    using no'[of DUPLICATE_COMPONENT] rows(2) by simp
  have comp: "\<exists>y. itemOf s c = Some y \<and> \<not> ci_isBundle y \<and> ci_partnerId y = p"
    if c: "c \<in> set (map cmi_componentItemId cs)" for c
  proof -
    have "componentMeta s c \<noteq> None" using nf c by metis
    then obtain y where y: "itemOf s c = Some y" by (auto simp: componentMeta_def)
    then have m: "componentMeta s c = Some (ci_isBundle y, ci_partnerId y)" by (simp add: componentMeta_def)
    have "\<not> ci_isBundle y" using nb c m by (cases "ci_isBundle y") auto
    moreover have "ci_partnerId y = p" using cp c m by metis
    ultimately show ?thesis using y by blast
  qed
  have "component_ok s r" if "r \<in> set rows" for r
  proof -
    have "bc_componentItemId r \<in> set (map cmi_componentItemId cs)"
      using that rows(2) by (metis image_eqI list.set_map)
    from comp[OF this] show ?thesis using that rows(3) xs x by (auto simp: component_ok_def)
  qed
  moreover have "catalog_ok s1" unfolding s1_def by (rule catalog_ok_delete_components[OF ok])
  moreover have "component_ok s' = component_ok s"
    by (simp add: s'[symmetric] component_ok_def[abs_def] itemOf_def s1_def)
  moreover have "component_ok s1 = component_ok s" by (simp add: s1_def)
  moreover have "distinct (map (\<lambda>c. (bc_bundleItemId c, bc_componentItemId c)) (db_bundleComponents s1 @ rows))"
  proof -
    have "(bc_bundleItemId c, bc_componentItemId c) \<noteq> (bc_bundleItemId r, bc_componentItemId r)"
      if "c \<in> set (db_bundleComponents s1)" "r \<in> set rows" for c r
      using that rows(3) by (auto simp: s1_def deleteWhere_def)
    moreover have "distinct (map (\<lambda>c. (bc_bundleItemId c, bc_componentItemId c)) rows)"
      using dist by (auto simp: distinct_map inj_on_def)
    ultimately show ?thesis using \<open>catalog_ok s1\<close> by (fastforce simp: catalog_ok_def)
  qed
  moreover have "key_ok ci_id (db_next s') (db_catalogItems s')"
    using key by (auto simp: s'[symmetric] s1_def intro: key_ok_mono)
  ultimately show ?thesis
    using rows(1) unfolding catalog_ok_def list_all_iff
    by (auto simp: s'[symmetric])
qed

lemmas catalog_ok_ops =
  catalog_ok_create catalog_ok_update catalog_ok_archive catalog_ok_set_override
  catalog_ok_remove_override catalog_ok_set_components

lemma catalog_step_ok: "catalog_step s s' \<Longrightarrow> catalog_ok s \<Longrightarrow> catalog_ok s'"
  by (induction rule: catalog_step.induct) (blast intro: catalog_ok_ops)+

section \<open>Prices\<close>

lemma resolvePrice_owned:
  assumes "resolvePrice i (Some org) a s = Inr r"
  obtains p item where "a_partnerId a = Some p" "getOwnedItemOr404 i p s = Inr item" "orgAccessible a org"
    "r = resolvePriceFrom item (map_option op_unitPrice
       (selectOne (\<lambda>q. op_catalogItemId q = i \<and> op_orgId q = org) (db_orgPricing s)))"
  using assms by (auto simp: resolvePrice_def guard_simps cat_requirePartner_def cat_requireOrgAccess_def)

text \<open>The pricing rows after an override was set: the row of the key, and no other row changed.\<close>

lemma setOrgPriceOverride_rows:
  assumes "setOrgPriceOverride i org price a now s = Inr ((), s')"
  shows "db_catalogItems s' = db_catalogItems s"
    and "\<exists>p x. a_partnerId a = Some p \<and> getOwnedItemOr404 i p s = Inr x \<and> orgAccessible a org"
    and "map_option op_unitPrice (selectOne (\<lambda>q. op_catalogItemId q = i \<and> op_orgId q = org) (db_orgPricing s'))
      = Some (toFixed 2 (js_Number price))"
    and "org' \<noteq> org \<Longrightarrow> selectOne (\<lambda>q. op_catalogItemId q = i \<and> op_orgId q = org') (db_orgPricing s')
      = selectOne (\<lambda>q. op_catalogItemId q = i \<and> op_orgId q = org') (db_orgPricing s)"
  using assms
  by (auto simp: setOrgPriceOverride_def Let_def guard_simps cat_requirePartner_def cat_requireOrgAccess_def
      selectOne_updateWhere_same selectOne_insertRow split: option.splits
      intro!: selectOne_updateWhere_other)

lemma resolvePrice_eq:
  assumes "a_partnerId a = Some p" "getOwnedItemOr404 i p s = Inr x" "orgAccessible a org"
  shows "resolvePrice i (Some org) a s = Inr (resolvePriceFrom x (map_option op_unitPrice
    (selectOne (\<lambda>q. op_catalogItemId q = i \<and> op_orgId q = org) (db_orgPricing s))))"
  using assms by (simp add: resolvePrice_def cat_requirePartner_def cat_requireOrgAccess_def)

section \<open>Sample data\<close>

definition demo_item :: create_item_input where
  "demo_item = \<lparr> cii_itemType = Item_service, cii_name = ''Backup'', cii_sku = Some ''BK'',
     cii_description = None, cii_billingType = Billing_recurring, cii_billingFrequency = Some Freq_monthly,
     cii_commitmentTermMonths = None, cii_unitPrice = 10, cii_costBasis = None, cii_markupPercent = None,
     cii_unitOfMeasure = ''each'', cii_taxable = True, cii_taxCategory = None, cii_isBundle = False \<rparr>"

definition msp :: actor where
  "msp = \<lparr> a_userId = Some 7, a_partnerId = Some 10, a_accessibleOrgIds = None \<rparr>"

definition demo_catalog :: db where
  "demo_catalog = empty_db \<lparr> db_next := 1, db_catalogItems := [\<lparr> ci_id = 0, ci_partnerId = 10,
     ci_itemType = Item_service, ci_name = ''Backup'', ci_sku = None, ci_description = None,
     ci_billingType = Billing_recurring, ci_billingFrequency = Some Freq_monthly,
     ci_commitmentTermMonths = None, ci_unitPrice = 10, ci_costBasis = Some 4, ci_markupPercent = None,
     ci_unitOfMeasure = ''each'', ci_taxable = True, ci_taxCategory = None, ci_isBundle = False,
     ci_isActive = True, ci_createdBy = None, ci_updatedAt = 0 \<rparr>] \<rparr>"

text \<open>A patch that only renames the item and sets a markup.\<close>

definition demo_patch :: update_item_input where
  "demo_patch = \<lparr> uii_itemType = None, uii_name = Some ''Backup Pro'', uii_sku = None, uii_description = None,
     uii_billingType = None, uii_billingFrequency = None, uii_commitmentTermMonths = None,
     uii_unitPrice = None, uii_costBasis = Some None, uii_markupPercent = Some (Some 20), uii_unitOfMeasure = None,
     uii_taxable = None, uii_taxCategory = None, uii_isBundle = None, uii_isActive = None \<rparr>"

lemma demo_prices:
  "assertPriceInRange (deriveUnitPrice (Some 10) None None) = Inr ()"
  "assertPriceInRange 8 = Inr ()"
  "toFixed 2 (js_Number 8) = 8"
  by code_simp+

lemma demo_owned: "getOwnedItemOr404 0 10 demo_catalog = Inr (hd (db_catalogItems demo_catalog))"
  by (simp add: getOwnedItemOr404_def demo_catalog_def selectOne_def)

section \<open>Properties\<close>

text \<open>
  \<open>detectBundleProblems\<close> reports each problem exactly when it is there: the bundle among its
  own components, a component that is itself a bundle, belongs to another partner or does not
  exist, or a component listed twice.
\<close>

lemma detectBundleProblems_exact:
  "(SELF_REFERENCE \<in> set (detectBundleProblems b p cs meta) \<longleftrightarrow> b \<in> set cs) \<and>
   (NESTED_BUNDLE \<in> set (detectBundleProblems b p cs meta) \<longleftrightarrow> (\<exists>c q. c \<in> set cs \<and> meta c = Some (True, q))) \<and>
   (CROSS_PARTNER \<in> set (detectBundleProblems b p cs meta) \<longleftrightarrow>
      (\<exists>c i q. c \<in> set cs \<and> meta c = Some (i, q) \<and> q \<noteq> p)) \<and>
   (COMPONENT_NOT_FOUND \<in> set (detectBundleProblems b p cs meta) \<longleftrightarrow> (\<exists>c. c \<in> set cs \<and> meta c = None)) \<and>
   (DUPLICATE_COMPONENT \<in> set (detectBundleProblems b p cs meta) \<longleftrightarrow> \<not> distinct cs)"
  by (simp add: detectBundleProblems_iff) blast

text \<open>
  (C30) No nested bundles, ever: after any sequence of catalog operations from an empty catalog,
  every bundle component refers to an existing bundle and an existing plain item of the same
  partner, an item occurs at most once per bundle, and no bundle is a component of a bundle
  (neither by setting components nor by turning an item into a bundle or back).
\<close>

theorem catalog_never_nests:
  assumes "catalog_step\<^sup>*\<^sup>* empty_db s"
  shows "catalog_ok s"
  using assms
proof (induction rule: rtranclp_induct)
  case base
  show ?case by (simp add: catalog_ok_def empty_db_def)
next
  case (step y z)
  then show ?case using catalog_step_ok by blast
qed

theorem catalog_never_nests_witness:
  "\<exists>s. catalog_step\<^sup>*\<^sup>* empty_db s \<and> length (db_catalogItems s) = 1 \<and> catalog_ok s"
proof -
  obtain r s where c: "createCatalogItem demo_item msp 0 empty_db = Inr (r, s)" "length (db_catalogItems s) = 1"
    by (simp add: createCatalogItem_def demo_item_def msp_def cat_requirePartner_def Let_def demo_prices
        skuTaken_def empty_db_def insertRow_def)
  have "catalog_step\<^sup>*\<^sup>* empty_db s" using catalog_step.create[OF c(1)] by blast
  then show ?thesis using c(2) catalog_never_nests by blast
qed

text \<open>
  An update never loses the sell price: it changes only when the patch gives a price, or
  touches cost or markup while both are known; in every other case the stored price stays.
\<close>

theorem update_keeps_price:
  assumes "updateCatalogItem i patch a now s = Inr (r, s')"
  shows "\<exists>existing. getOwnedItemOr404 i (the (a_partnerId a)) s = Inr existing \<and>
    (case uii_unitPrice patch of
       Some price \<Rightarrow> ci_unitPrice r = toFixed 2 (js_Number price)
     | None \<Rightarrow>
         if (uii_costBasis patch \<noteq> None \<or> uii_markupPercent patch \<noteq> None) \<and>
            nullish (uii_costBasis patch) (ci_costBasis existing) \<noteq> None \<and>
            nullish (uii_markupPercent patch) (ci_markupPercent existing) \<noteq> None
         then ci_unitPrice r = deriveUnitPrice None
                (map_option (\<lambda>v. toFixed 2 (js_Number v)) (nullish (uii_costBasis patch) (ci_costBasis existing)))
                (map_option (\<lambda>v. toFixed 2 (js_Number v)) (nullish (uii_markupPercent patch) (ci_markupPercent existing)))
         else ci_unitPrice r = ci_unitPrice existing)"
proof -
  obtain p x where p: "a_partnerId a = Some p" "getOwnedItemOr404 i p s = Inr x"
    and r: "r = patchItem patch (patchedPrice patch x) now x"
    using assms by (auto simp: updateCatalogItem_def cat_requirePartner_def guard_simps Let_def)
  have u: "ci_unitPrice r = nullish (patchedPrice patch x) (ci_unitPrice x)" by (simp add: r patchItem_def)
  have n: "nullish v d = (case v of Some w \<Rightarrow> w | None \<Rightarrow> d)" for v d
    by (simp add: nullish_def split: option.split)
  show ?thesis
    using p by (auto simp: u patchedPrice_def Let_def n split: option.splits)
qed

text \<open>
  Price overrides: after \<open>setOrgPriceOverride\<close> the price resolved for that organization is
  the override, for every other organization it is what it was, and
  \<open>removeOrgPriceOverride\<close> brings the item price back.
\<close>

lemma override_round_trip:
  assumes "setOrgPriceOverride i org price a now s = Inr ((), s1)"
    and "removeOrgPriceOverride i org a s1 = Inr ((), s2)"
  shows "map_sum id rp_unitPrice (resolvePrice i (Some org) a s1) = Inr (toFixed 2 (js_Number price)) \<and>
    (org' \<noteq> org \<longrightarrow> resolvePrice i (Some org') a s1 = resolvePrice i (Some org') a s) \<and>
    map_sum id rp_source (resolvePrice i (Some org) a s2) = Inr Price_item"
proof -
  note rows = setOrgPriceOverride_rows[OF assms(1)]
  obtain p x where p: "a_partnerId a = Some p" "getOwnedItemOr404 i p s = Inr x" "orgAccessible a org"
    using rows(2) by blast
  have owned: "getOwnedItemOr404 i p s1 = Inr x" using p(2) rows(1) by (simp add: getOwnedItemOr404_def)
  have s2: "s2 = s1 \<lparr> db_orgPricing :=
      deleteWhere (\<lambda>r. op_catalogItemId r = i \<and> op_orgId r = org) (db_orgPricing s1) \<rparr>"
    using assms(2) by (auto simp: removeOrgPriceOverride_def guard_simps)
  have owned2: "getOwnedItemOr404 i p s2 = Inr x" using owned by (simp add: s2 getOwnedItemOr404_def)
  have "resolvePrice i (Some org') a s1 = resolvePrice i (Some org') a s" if "org' \<noteq> org"
    using p owned rows(4)[OF that]
    by (cases "orgAccessible a org'") (simp_all add: resolvePrice_def cat_requirePartner_def cat_requireOrgAccess_def)
  then show ?thesis
    using resolvePrice_eq[OF p(1) owned p(3)] resolvePrice_eq[OF p(1) owned2 p(3)] rows(3)
    by (auto simp: resolvePriceFrom_def s2)
qed

lemma override_round_trip_witness:
  "\<exists>s1. setOrgPriceOverride 0 4 8 msp 5 demo_catalog = Inr ((), s1) \<and>
     map_sum id rp_unitPrice (resolvePrice 0 (Some 4) msp s1) = Inr 8"
proof -
  obtain s1 where 1: "setOrgPriceOverride 0 4 8 msp 5 demo_catalog = Inr ((), s1)"
    by (simp add: setOrgPriceOverride_def cat_requirePartner_def cat_requireOrgAccess_def orgAccessible_def
        msp_def demo_owned demo_prices Let_def)
  have "getOwnedItemOr404 0 10 s1 = Inr (hd (db_catalogItems demo_catalog))"
    using setOrgPriceOverride_rows(1)[OF 1] demo_owned by (simp add: getOwnedItemOr404_def)
  then obtain s2 where 2: "removeOrgPriceOverride 0 4 msp s1 = Inr ((), s2)"
    by (simp add: removeOrgPriceOverride_def cat_requirePartner_def cat_requireOrgAccess_def orgAccessible_def msp_def)
  show ?thesis using override_round_trip[OF 1 2, of 0] 1 by (simp add: demo_prices)
qed

end
