(* ===== verification/InvoiceService.thy ===== *)
theory InvoiceService
  imports Numbering Catalog "HOL-Library.Product_Lexorder"
begin

text \<open>
  The invoice service (\<open>invoiceService.ts\<close>) and the assembly of drafts from unbilled work
  (\<open>invoiceAssembly.ts\<close>): drafts and their lines, issuing with number allocation, tax snapshot
  and double-bill guard, payments and status, void and reissue, the overdue sweep. Each function
  is one transaction on the state; \<open>now\<close> is the clock of the call. The theory holds the
  definitions; \<open>InvoiceLedger\<close> and \<open>InvoiceRefinement\<close> hold their correctness.
\<close>

section \<open>Guards and lookups\<close>

definition invOf :: "db \<Rightarrow> uuid \<Rightarrow> invoice option" where
  "invOf s i = selectOne (\<lambda>r. inv_id r = i) (db_invoices s)"

definition linesOf :: "db \<Rightarrow> uuid \<Rightarrow> invoice_line list" where
  "linesOf s i = selectWhere (\<lambda>l. il_invoiceId l = i) (db_invoiceLines s)"

definition paymentsOf :: "db \<Rightarrow> uuid \<Rightarrow> invoice_payment list" where
  "paymentsOf s i = selectWhere (\<lambda>p. pay_invoiceId p = i) (db_invoicePayments s)"

definition partnerOf :: "db \<Rightarrow> uuid \<Rightarrow> partner option" where
  "partnerOf s i = selectOne (\<lambda>r. pr_id r = i) (db_partners s)"

definition orgOf :: "db \<Rightarrow> uuid \<Rightarrow> organization option" where
  "orgOf s i = selectOne (\<lambda>r. org_id r = i) (db_organizations s)"

definition updateInvoices :: "uuid \<Rightarrow> (invoice \<Rightarrow> invoice) \<Rightarrow> db \<Rightarrow> db" where
  "updateInvoices i f s = s \<lparr> db_invoices := updateWhere (\<lambda>r. inv_id r = i) f (db_invoices s) \<rparr>"

definition requirePartner :: "actor \<Rightarrow> svc_error + uuid" where
  "requirePartner a = ofOption (InvoiceErr 400 PARTNER_UNRESOLVABLE) (a_partnerId a)"

definition requireOrgAccess :: "actor \<Rightarrow> uuid \<Rightarrow> svc_error + unit" where
  "requireOrgAccess a orgId = guardE (orgAccessible a orgId) (InvoiceErr 403 ORG_DENIED)"

definition getOwnedInvoiceOr404 :: "uuid \<Rightarrow> db \<Rightarrow> svc_error + invoice" where
  "getOwnedInvoiceOr404 i s = ofOption (InvoiceErr 404 INVOICE_NOT_FOUND) (invOf s i)"

definition assertDraft :: "invoice \<Rightarrow> svc_error + unit" where
  "assertDraft invc = guardE (inv_status invc = Inv_draft) (InvoiceErr 409 NOT_A_DRAFT)"

text \<open>The guard every draft edit opens with.\<close>

definition draftForEdit :: "uuid \<Rightarrow> actor \<Rightarrow> db \<Rightarrow> svc_error + invoice" where
  "draftForEdit i a s =
     bindE (getOwnedInvoiceOr404 i s) (\<lambda>invc.
     bindE (assertDraft invc) (\<lambda>_.
     bindE (requireOrgAccess a (inv_orgId invc)) (\<lambda>_. Inr invc)))"

section \<open>Drafts\<close>

text \<open>A new row of \<open>invoices\<close>: the column defaults of the schema.\<close>

definition blankInvoice :: "uuid \<Rightarrow> uuid \<Rightarrow> uuid \<Rightarrow> instant \<Rightarrow> invoice" where
  "blankInvoice i partnerId orgId now = \<lparr> inv_id = i, inv_partnerId = partnerId, inv_orgId = orgId,
     inv_siteId = None, inv_invoiceNumber = None, inv_status = Inv_draft, inv_currencyCode = ''USD'',
     inv_issueDate = None, inv_dueDate = None, inv_subtotal = 0, inv_taxRate = None, inv_taxTotal = 0,
     inv_total = 0, inv_amountPaid = 0, inv_balance = 0, inv_billToName = None, inv_billToAddress = None,
     inv_billToTaxId = None, inv_billToTaxExempt = False, inv_notes = None, inv_terms = None,
     inv_sellerSnapshot = None, inv_termsAndConditions = None, inv_firstViewedAt = None,
     inv_viewedAt = None, inv_paidAt = None, inv_markedOverdueAt = None, inv_voidedAt = None,
     inv_voidReason = None, inv_replacesInvoiceId = None, inv_replacedByInvoiceId = None,
     inv_createdBy = None, inv_createdAt = now, inv_updatedAt = now \<rparr>"

text \<open>
  The database rejects an invoice whose organization is not one of its partner's
  (\<open>invoices_org_partner_fkey\<close>), and a value too wide for a \<open>numeric(12,2)\<close> column.
\<close>

definition orgOfPartner :: "uuid \<Rightarrow> uuid \<Rightarrow> db \<Rightarrow> bool" where
  "orgOfPartner orgId partnerId s \<longleftrightarrow> (\<exists>r \<in> set (db_organizations s). org_id r = orgId \<and> org_partnerId r = partnerId)"

definition moneyFits :: "money \<Rightarrow> bool" where
  "moneyFits v \<longleftrightarrow> \<bar>numeric2 v\<bar> < 10 ^ 10"

definition insertInvoice :: "invoice \<Rightarrow> db \<Rightarrow> svc_error + db" where
  "insertInvoice invc s =
     bindE (guardE (orgOfPartner (inv_orgId invc) (inv_partnerId invc) s) (JsError ''foreign key violation'')) (\<lambda>_.
     Inr (s \<lparr> db_next := Suc (db_next s), db_invoices := insertRow invc (db_invoices s) \<rparr>))"

definition createManualInvoice ::
    "uuid \<Rightarrow> uuid option \<Rightarrow> string option \<Rightarrow> string option \<Rightarrow> actor \<Rightarrow> instant \<Rightarrow> db \<Rightarrow> invoice svc" where
  "createManualInvoice orgId siteId notes termsAndConditions a now s =
     bindE (requirePartner a) (\<lambda>partnerId.
     bindE (requireOrgAccess a orgId) (\<lambda>_.
     let invc = (blankInvoice (db_next s) partnerId orgId now) \<lparr> inv_siteId := siteId, inv_notes := notes,
                  inv_termsAndConditions := termsAndConditions, inv_createdBy := a_userId a \<rparr>
     in bindE (insertInvoice invc s) (\<lambda>s1. Inr (invc, s1))))"

definition effectiveRateForOrg :: "uuid \<Rightarrow> db \<Rightarrow> rat" where
  "effectiveRateForOrg orgId s = (case orgOf s orgId of
     None \<Rightarrow> resolveEffectiveTaxRate False None None
   | Some org \<Rightarrow> resolveEffectiveTaxRate (org_taxExempt org) (org_taxRate org) None)"

definition lineTotalsRow :: "invoice_line \<Rightarrow> totals_line" where
  "lineTotalsRow l = \<lparr> lineTotal = il_lineTotal l, taxable = il_taxable l, customerVisible = il_customerVisible l \<rparr>"

definition writeTotals :: "totals \<Rightarrow> rat option \<Rightarrow> money \<Rightarrow> instant \<Rightarrow> invoice \<Rightarrow> invoice" where
  "writeTotals t taxRate balance now r = r \<lparr> inv_subtotal := subtotal t, inv_taxRate := taxRate,
     inv_taxTotal := taxTotal t, inv_total := total t, inv_balance := balance, inv_updatedAt := now \<rparr>"

text \<open>The override is absent (\<open>None\<close>), or present and maybe null.\<close>

definition recomputeInvoiceTotals :: "uuid \<Rightarrow> rat option option \<Rightarrow> instant \<Rightarrow> db \<Rightarrow> unit svc" where
  "recomputeInvoiceTotals i override now s =
     bindE (getOwnedInvoiceOr404 i s) (\<lambda>invc.
     bindE (assertDraft invc) (\<lambda>_.
     let taxRate = (case override of Some r \<Rightarrow> r | None \<Rightarrow> Some (effectiveRateForOrg (inv_orgId invc) s));
         t = computeInvoiceTotals (map lineTotalsRow (linesOf s i)) taxRate;
         balance = fromCents (fsub (toCents (Some (total t))) (toCents (Some (inv_amountPaid invc))))
     in bindE (guardE (moneyFits (subtotal t) \<and> moneyFits (taxTotal t) \<and> moneyFits (total t) \<and> moneyFits balance)
                (JsError ''numeric field overflow'')) (\<lambda>_.
        Inr ((), updateInvoices i (writeTotals t taxRate balance now) s))))"

text \<open>The insert values of a line, without invoice, organization and sort order.\<close>

record line_spec =
  ls_sourceType :: line_source
  ls_sourceId :: "uuid option"
  ls_catalogItemId :: "uuid option"
  ls_parentLineId :: "uuid option"
  ls_ticketId :: "uuid option"
  ls_description :: string
  ls_quantity :: rat
  ls_unitPrice :: money
  ls_costBasis :: "money option"
  ls_revenueAllocation :: "money option"
  ls_taxable :: bool
  ls_customerVisible :: bool
  ls_lineTotal :: money
  ls_isUnapprovedTime :: bool

definition lineRow :: "uuid \<Rightarrow> uuid \<Rightarrow> uuid \<Rightarrow> int \<Rightarrow> line_spec \<Rightarrow> invoice_line" where
  "lineRow lineId i orgId ord p = \<lparr> il_id = lineId, il_invoiceId = i, il_orgId = orgId,
     il_sourceType = ls_sourceType p, il_sourceId = ls_sourceId p, il_catalogItemId = ls_catalogItemId p,
     il_parentLineId = ls_parentLineId p, il_ticketId = ls_ticketId p, il_description = ls_description p,
     il_quantity = numeric2 (ls_quantity p), il_unitPrice = numeric2 (ls_unitPrice p),
     il_costBasis = ls_costBasis p, il_revenueAllocation = ls_revenueAllocation p, il_taxable = ls_taxable p,
     il_customerVisible = ls_customerVisible p, il_lineTotal = numeric2 (ls_lineTotal p),
     il_isUnapprovedTime = ls_isUnapprovedTime p, il_sortOrder = ord \<rparr>"

definition lineFits :: "invoice_line \<Rightarrow> bool" where
  "lineFits l \<longleftrightarrow> moneyFits (il_quantity l) \<and> moneyFits (il_unitPrice l) \<and> moneyFits (il_lineTotal l) \<and>
     (case il_costBasis l of None \<Rightarrow> True | Some v \<Rightarrow> moneyFits v)"

definition insertLine :: "invoice_line \<Rightarrow> db \<Rightarrow> svc_error + db" where
  "insertLine l s = bindE (guardE (lineFits l) (JsError ''numeric field overflow'')) (\<lambda>_.
     Inr (s \<lparr> db_next := Suc (db_next s), db_invoiceLines := insertRow l (db_invoiceLines s) \<rparr>))"

text \<open>\<open>(max sortOrder ?? 0) + 1\<close>.\<close>

definition nextSort :: "invoice_line list \<Rightarrow> int" where
  "nextSort ls = (case map il_sortOrder ls of [] \<Rightarrow> 0 | x # xs \<Rightarrow> fold max xs x) + 1"

definition insertLineAndRecompute :: "uuid \<Rightarrow> uuid \<Rightarrow> line_spec \<Rightarrow> instant \<Rightarrow> db \<Rightarrow> invoice_line svc" where
  "insertLineAndRecompute i orgId p now s =
     (let line = lineRow (db_next s) i orgId (nextSort (linesOf s i)) p
      in bindE (insertLine line s) (\<lambda>s1.
         bindE (recomputeInvoiceTotals i None now s1) (\<lambda>r. Inr (line, snd r))))"

record manual_line_input =
  mli_description :: string
  mli_quantity :: rat
  mli_unitPrice :: rat
  mli_taxable :: bool
  mli_costBasis :: "rat option"

definition addManualLine :: "uuid \<Rightarrow> manual_line_input \<Rightarrow> actor \<Rightarrow> instant \<Rightarrow> db \<Rightarrow> invoice_line svc" where
  "addManualLine i input a now s =
     bindE (draftForEdit i a s) (\<lambda>invc.
     insertLineAndRecompute i (inv_orgId invc)
       \<lparr> ls_sourceType = Src_manual, ls_sourceId = None, ls_catalogItemId = None, ls_parentLineId = None,
         ls_ticketId = None, ls_description = mli_description input, ls_quantity = mli_quantity input,
         ls_unitPrice = toFixed 2 (js_Number (mli_unitPrice input)),
         ls_costBasis = map_option (\<lambda>v. toFixed 2 (js_Number v)) (mli_costBasis input),
         ls_revenueAllocation = None, ls_taxable = mli_taxable input, ls_customerVisible = True,
         ls_lineTotal = computeLineTotal (mli_quantity input) (mli_unitPrice input),
         ls_isUnapprovedTime = False \<rparr> now s)"

definition addCatalogLine :: "uuid \<Rightarrow> uuid \<Rightarrow> rat \<Rightarrow> actor \<Rightarrow> instant \<Rightarrow> db \<Rightarrow> invoice_line svc" where
  "addCatalogLine i catalogItemId quantity a now s =
     bindE (draftForEdit i a s) (\<lambda>invc.
     bindE (resolvePrice catalogItemId (Some (inv_orgId invc)) a s) (\<lambda>resolved.
     let item = itemOf s catalogItemId
     in bindE (guardE (\<not> (case item of None \<Rightarrow> False | Some x \<Rightarrow> ci_isBundle x)) (InvoiceErr 400 INVALID_STATE)) (\<lambda>_.
     insertLineAndRecompute i (inv_orgId invc)
       \<lparr> ls_sourceType = Src_catalog, ls_sourceId = None, ls_catalogItemId = Some catalogItemId,
         ls_parentLineId = None, ls_ticketId = None,
         ls_description = (case item of None \<Rightarrow> ''Catalog item'' | Some x \<Rightarrow> ci_name x),
         ls_quantity = quantity, ls_unitPrice = rp_unitPrice resolved, ls_costBasis = rp_costBasis resolved,
         ls_revenueAllocation = None, ls_taxable = rp_taxable resolved, ls_customerVisible = True,
         ls_lineTotal = computeLineTotal quantity (rp_unitPrice resolved), ls_isUnapprovedTime = False \<rparr> now s)))"

text \<open>One child line of a bundle: price zero, sorted with its parent.\<close>

definition bundleChild :: "uuid \<Rightarrow> uuid \<Rightarrow> invoice_line \<Rightarrow> bundle_component \<times> catalog_item \<Rightarrow> db \<Rightarrow> svc_error + db" where
  "bundleChild i orgId parent c s = insertLine (lineRow (db_next s) i orgId (il_sortOrder parent)
     \<lparr> ls_sourceType = Src_bundle, ls_sourceId = None, ls_catalogItemId = Some (bc_componentItemId (fst c)),
       ls_parentLineId = Some (il_id parent), ls_ticketId = None, ls_description = ci_name (snd c),
       ls_quantity = bc_quantity (fst c), ls_unitPrice = 0, ls_costBasis = ci_costBasis (snd c),
       ls_revenueAllocation = bc_revenueAllocation (fst c), ls_taxable = False,
       ls_customerVisible = bc_showOnInvoice (fst c), ls_lineTotal = 0, ls_isUnapprovedTime = False \<rparr>) s"

definition bundleParentSpec :: "uuid \<Rightarrow> rat \<Rightarrow> bundle_economics \<Rightarrow> catalog_item option \<Rightarrow> line_spec" where
  "bundleParentSpec bundleId quantity econ bundle =
     \<lparr> ls_sourceType = Src_bundle, ls_sourceId = None, ls_catalogItemId = Some bundleId,
       ls_parentLineId = None, ls_ticketId = None,
       ls_description = (case bundle of None \<Rightarrow> ''Bundle'' | Some x \<Rightarrow> ci_name x),
       ls_quantity = quantity, ls_unitPrice = be_headlinePrice econ, ls_costBasis = Some (be_totalCost econ),
       ls_revenueAllocation = None, ls_taxable = True, ls_customerVisible = True,
       ls_lineTotal = computeLineTotal quantity (be_headlinePrice econ), ls_isUnapprovedTime = False \<rparr>"

definition addBundleLine :: "uuid \<Rightarrow> uuid \<Rightarrow> rat \<Rightarrow> actor \<Rightarrow> instant \<Rightarrow> db \<Rightarrow> invoice_line svc" where
  "addBundleLine i bundleId quantity a now s =
     bindE (draftForEdit i a s) (\<lambda>invc.
     bindE (computeBundleEconomics bundleId (Some (inv_orgId invc)) a s) (\<lambda>econ.
     bindE (insertLineAndRecompute i (inv_orgId invc)
       (bundleParentSpec bundleId quantity econ (itemOf s bundleId)) now s) (\<lambda>r.
     bindE (foldE (bundleChild i (inv_orgId invc) (fst r)) (bundleJoin bundleId (snd r)) (snd r)) (\<lambda>s2.
     bindE (recomputeInvoiceTotals i None now s2) (\<lambda>u. Inr (fst r, snd u))))))"

record contract_line_input =
  cli_description :: string
  cli_quantity :: rat
  cli_unitPrice :: money
  cli_taxable :: bool
  cli_catalogItemId :: "uuid option"
  cli_sourceId :: "uuid option"

text \<open>Price, taxability and cost of a contract line: from the catalog, or as supplied.\<close>

definition contractLinePrice ::
    "contract_line_input \<Rightarrow> uuid \<Rightarrow> actor \<Rightarrow> db \<Rightarrow> svc_error + (money \<times> bool \<times> money option)" where
  "contractLinePrice input orgId a s = (case cli_catalogItemId input of
     Some item \<Rightarrow> bindE (resolvePrice item (Some orgId) a s) (\<lambda>r.
       Inr (rp_unitPrice r, rp_taxable r, rp_costBasis r))
   | None \<Rightarrow> let unitPrice = toFixed 2 (js_Number (cli_unitPrice input))
       in bindE (guardE (\<not> (js_Number (cli_quantity input) < 0 \<or> js_Number unitPrice < 0))
                  (InvoiceErr 400 INVALID_AMOUNT)) (\<lambda>_. Inr (unitPrice, cli_taxable input, None)))"

definition addContractLine :: "uuid \<Rightarrow> contract_line_input \<Rightarrow> actor \<Rightarrow> instant \<Rightarrow> db \<Rightarrow> invoice_line svc" where
  "addContractLine i input a now s =
     bindE (draftForEdit i a s) (\<lambda>invc.
     bindE (contractLinePrice input (inv_orgId invc) a s) (\<lambda>p.
     insertLineAndRecompute i (inv_orgId invc)
       \<lparr> ls_sourceType = Src_contract, ls_sourceId = cli_sourceId input, ls_catalogItemId = cli_catalogItemId input,
         ls_parentLineId = None, ls_ticketId = None, ls_description = cli_description input,
         ls_quantity = cli_quantity input, ls_unitPrice = fst p, ls_costBasis = snd (snd p),
         ls_revenueAllocation = None, ls_taxable = fst (snd p), ls_customerVisible = True,
         ls_lineTotal = computeLineTotal (cli_quantity input) (fst p), ls_isUnapprovedTime = False \<rparr> now s))"

record line_patch =
  lp_description :: "string option"
  lp_quantity :: "rat option"
  lp_unitPrice :: "rat option"
  lp_taxable :: "bool option"
  lp_customerVisible :: "bool option"

definition patchLine :: "line_patch \<Rightarrow> invoice_line \<Rightarrow> invoice_line \<Rightarrow> invoice_line" where
  "patchLine patch existing l =
     (let quantity = nullish (lp_quantity patch) (il_quantity existing);
          unitPrice = (case lp_unitPrice patch of Some v \<Rightarrow> toFixed 2 (js_Number v) | None \<Rightarrow> il_unitPrice existing)
      in l \<lparr> il_description := nullish (lp_description patch) (il_description existing),
             il_quantity := numeric2 quantity, il_unitPrice := numeric2 unitPrice,
             il_taxable := nullish (lp_taxable patch) (il_taxable existing),
             il_customerVisible := nullish (lp_customerVisible patch) (il_customerVisible existing),
             il_lineTotal := numeric2 (computeLineTotal quantity unitPrice) \<rparr>)"

definition updateLine :: "uuid \<Rightarrow> uuid \<Rightarrow> line_patch \<Rightarrow> actor \<Rightarrow> instant \<Rightarrow> db \<Rightarrow> invoice svc" where
  "updateLine i lineId patch a now s =
     bindE (draftForEdit i a s) (\<lambda>invc.
     bindE (ofOption (InvoiceErr 404 LINE_NOT_FOUND)
       (selectOne (\<lambda>l. il_id l = lineId \<and> il_invoiceId l = i) (db_invoiceLines s))) (\<lambda>existing.
     bindE (guardE (lineFits (patchLine patch existing existing)) (JsError ''numeric field overflow'')) (\<lambda>_.
     bindE (recomputeInvoiceTotals i None now (s \<lparr> db_invoiceLines :=
       updateWhere (\<lambda>l. il_id l = lineId) (patchLine patch existing) (db_invoiceLines s) \<rparr>)) (\<lambda>r.
     bindE (getOwnedInvoiceOr404 i (snd r)) (\<lambda>invc'. Inr (invc', snd r))))))"

text \<open>
  Deleting a line deletes its bundle children (cascading foreign key). Children have no children
  of their own: only \<open>addBundleLine\<close> and the clone of a void create them, under top-level lines.
\<close>

definition deleteLine :: "uuid \<Rightarrow> uuid \<Rightarrow> invoice_line list \<Rightarrow> invoice_line list" where
  "deleteLine i lineId t =
     (if selectOne (\<lambda>l. il_id l = lineId \<and> il_invoiceId l = i) t = None then t
      else deleteWhere (\<lambda>l. il_id l = lineId \<or> il_parentLineId l = Some lineId) t)"

definition removeLine :: "uuid \<Rightarrow> uuid \<Rightarrow> actor \<Rightarrow> instant \<Rightarrow> db \<Rightarrow> invoice svc" where
  "removeLine i lineId a now s =
     bindE (draftForEdit i a s) (\<lambda>invc.
     bindE (recomputeInvoiceTotals i None now
       (s \<lparr> db_invoiceLines := deleteLine i lineId (db_invoiceLines s) \<rparr>)) (\<lambda>r.
     bindE (getOwnedInvoiceOr404 i (snd r)) (\<lambda>invc'. Inr (invc', snd r))))"

text \<open>The foreign keys on \<open>invoices.id\<close>: cascading for lines, payments and Stripe mappings, set null elsewhere.\<close>

definition deleteInvoiceRow :: "uuid \<Rightarrow> db \<Rightarrow> db" where
  "deleteInvoiceRow i s = s \<lparr>
     db_invoices := updateWhere (\<lambda>r. inv_replacesInvoiceId r = Some i) (\<lambda>r. r \<lparr> inv_replacesInvoiceId := None \<rparr>)
       (updateWhere (\<lambda>r. inv_replacedByInvoiceId r = Some i) (\<lambda>r. r \<lparr> inv_replacedByInvoiceId := None \<rparr>)
         (deleteWhere (\<lambda>r. inv_id r = i) (db_invoices s))),
     db_invoiceLines := deleteWhere (\<lambda>l. il_invoiceId l = i) (db_invoiceLines s),
     db_invoicePayments := deleteWhere (\<lambda>p. pay_invoiceId p = i) (db_invoicePayments s),
     db_stripePayments := deleteWhere (\<lambda>m. sp_invoiceId m = i) (db_stripePayments s),
     db_billingPeriods := updateWhere (\<lambda>b. bp_invoiceId b = Some i) (\<lambda>b. b \<lparr> bp_invoiceId := None \<rparr>) (db_billingPeriods s),
     db_quotes := updateWhere (\<lambda>q. q_convertedInvoiceId q = Some i) (\<lambda>q. q \<lparr> q_convertedInvoiceId := None \<rparr>) (db_quotes s) \<rparr>"

definition deleteDraftInvoice :: "uuid \<Rightarrow> actor \<Rightarrow> db \<Rightarrow> unit svc" where
  "deleteDraftInvoice i a s = bindE (draftForEdit i a s) (\<lambda>_. Inr ((), deleteInvoiceRow i s))"

record invoice_patch =
  ip_notes :: "string option"
  ip_siteId :: "uuid option option"
  ip_dueDate :: "iso_date option"
  ip_termsAndConditions :: "string option option"

definition updateInvoice :: "uuid \<Rightarrow> invoice_patch \<Rightarrow> actor \<Rightarrow> instant \<Rightarrow> db \<Rightarrow> invoice svc" where
  "updateInvoice i patch a now s =
     bindE (draftForEdit i a s) (\<lambda>_.
     let s1 = updateInvoices i (\<lambda>r. r \<lparr> inv_updatedAt := now,
            inv_notes := (case ip_notes patch of None \<Rightarrow> inv_notes r | Some v \<Rightarrow> Some v),
            inv_siteId := nullish (ip_siteId patch) (inv_siteId r),
            inv_dueDate := (case ip_dueDate patch of None \<Rightarrow> inv_dueDate r | Some v \<Rightarrow> Some v),
            inv_termsAndConditions := nullish (ip_termsAndConditions patch) (inv_termsAndConditions r) \<rparr>) s
     in bindE (getOwnedInvoiceOr404 i s1) (\<lambda>invc. Inr (invc, s1)))"

section \<open>Reads\<close>

definition getConnection :: "uuid \<Rightarrow> db \<Rightarrow> stripe_account option" where
  "getConnection partnerId s = selectOne (\<lambda>c. sa_partnerId c = partnerId) (db_stripeAccounts s)"

definition getInvoice :: "uuid \<Rightarrow> actor \<Rightarrow> db \<Rightarrow> svc_error + (invoice \<times> invoice_line list \<times> bool)" where
  "getInvoice i a s =
     bindE (getOwnedInvoiceOr404 i s) (\<lambda>invc.
     bindE (requireOrgAccess a (inv_orgId invc)) (\<lambda>_.
     Inr (invc, orderByInt il_sortOrder (linesOf s i),
       (case getConnection (inv_partnerId invc) s of None \<Rightarrow> False | Some c \<Rightarrow> sa_status c = Conn_connected))))"

definition getCustomerInvoice :: "uuid \<Rightarrow> uuid option \<Rightarrow> db \<Rightarrow> svc_error + (invoice \<times> invoice_line list)" where
  "getCustomerInvoice i orgId s =
     bindE (getOwnedInvoiceOr404 i s) (\<lambda>invc.
     bindE (guardE (case orgId of None \<Rightarrow> True | Some org \<Rightarrow> inv_orgId invc = org) (InvoiceErr 404 INVOICE_NOT_FOUND)) (\<lambda>_.
     Inr (invc, orderByInt il_sortOrder
       (selectWhere (\<lambda>l. il_invoiceId l = i \<and> il_customerVisible l) (db_invoiceLines s)))))"

record list_invoices_query =
  liq_orgId :: "uuid option"
  liq_status :: "invoice_status option"
  liq_limit :: nat
  liq_cursor :: "uuid option"

text \<open>Newest first: descending by \<open>(createdAt, id)\<close>.\<close>

definition newestFirst :: "invoice list \<Rightarrow> invoice list" where
  "newestFirst t = rev (sort_key (\<lambda>r. (inv_createdAt r, inv_id r)) t)"

definition afterCursor :: "uuid option \<Rightarrow> db \<Rightarrow> invoice \<Rightarrow> bool" where
  "afterCursor cursor s r = (case cursor of None \<Rightarrow> True | Some k \<Rightarrow> (case invOf s k of None \<Rightarrow> True
     | Some c \<Rightarrow> inv_createdAt r < inv_createdAt c \<or> (inv_createdAt r = inv_createdAt c \<and> inv_id r < k)))"

definition listInvoices :: "list_invoices_query \<Rightarrow> actor \<Rightarrow> db \<Rightarrow> svc_error + invoice list" where
  "listInvoices query a s =
     bindE (case liq_orgId query of None \<Rightarrow> Inr () | Some org \<Rightarrow> requireOrgAccess a org) (\<lambda>_.
     Inr (take (liq_limit query) (newestFirst (selectWhere (\<lambda>r.
       (case liq_orgId query of None \<Rightarrow> True | Some org \<Rightarrow> inv_orgId r = org) \<and>
       (case liq_status query of None \<Rightarrow> True | Some st \<Rightarrow> inv_status r = st) \<and>
       afterCursor (liq_cursor query) s r) (db_invoices s)))))"

section \<open>Billing settings\<close>

record address_patch =
  ap_line1 :: "string option option"
  ap_line2 :: "string option option"
  ap_city :: "string option option"
  ap_region :: "string option option"
  ap_postalCode :: "string option option"
  ap_country :: "string option option"

definition patchAddress :: "address_patch \<Rightarrow> address \<Rightarrow> address" where
  "patchAddress p r = \<lparr> addr_line1 = nullish (ap_line1 p) (addr_line1 r),
     addr_line2 = nullish (ap_line2 p) (addr_line2 r), addr_city = nullish (ap_city p) (addr_city r),
     addr_region = nullish (ap_region p) (addr_region r),
     addr_postalCode = nullish (ap_postalCode p) (addr_postalCode r),
     addr_country = nullish (ap_country p) (addr_country r) \<rparr>"

record partner_settings =
  ps_currencyCode :: string
  ps_defaultTaxRate :: "rat option option"
  ps_invoiceNumberPrefix :: string
  ps_invoiceTermsDays :: int
  ps_invoiceFooter :: "string option option"
  ps_billingCompanyName :: "string option option"
  ps_billingPhone :: "string option option"
  ps_billingWebsite :: "string option option"
  ps_billingAddress :: address_patch
  ps_billingTermsAndConditions :: "string option option"

definition updatePartnerBillingSettings :: "partner_settings \<Rightarrow> actor \<Rightarrow> db \<Rightarrow> partner svc" where
  "updatePartnerBillingSettings patch a s =
     bindE (requirePartner a) (\<lambda>partnerId.
     let s1 = s \<lparr> db_partners := updateWhere (\<lambda>r. pr_id r = partnerId) (\<lambda>r. r \<lparr>
            pr_currencyCode := ps_currencyCode patch,
            pr_invoiceNumberPrefix := ps_invoiceNumberPrefix patch,
            pr_invoiceTermsDays := ps_invoiceTermsDays patch,
            pr_defaultTaxRate := nullish (map_option (map_option (\<lambda>v. toFixed 3 (js_Number v))) (ps_defaultTaxRate patch)) (pr_defaultTaxRate r),
            pr_invoiceFooter := nullish (ps_invoiceFooter patch) (pr_invoiceFooter r),
            pr_billingCompanyName := nullish (ps_billingCompanyName patch) (pr_billingCompanyName r),
            pr_billingPhone := nullish (ps_billingPhone patch) (pr_billingPhone r),
            pr_billingWebsite := nullish (ps_billingWebsite patch) (pr_billingWebsite r),
            pr_billingAddress := patchAddress (ps_billingAddress patch) (pr_billingAddress r),
            pr_billingTermsAndConditions := nullish (ps_billingTermsAndConditions patch) (pr_billingTermsAndConditions r) \<rparr>)
            (db_partners s) \<rparr>
     in bindE (ofOption (InvoiceErr 400 PARTNER_UNRESOLVABLE) (partnerOf s1 partnerId)) (\<lambda>row. Inr (row, s1)))"

record org_settings =
  os_taxId :: "string option option"
  os_taxExempt :: "bool option"
  os_taxRate :: "rat option option"
  os_billingAddress :: address_patch

definition updateOrgBillingSettings :: "uuid \<Rightarrow> org_settings \<Rightarrow> actor \<Rightarrow> db \<Rightarrow> organization svc" where
  "updateOrgBillingSettings orgId patch a s =
     bindE (requireOrgAccess a orgId) (\<lambda>_.
     let s1 = s \<lparr> db_organizations := updateWhere (\<lambda>r. org_id r = orgId) (\<lambda>r. r \<lparr>
            org_taxId := nullish (os_taxId patch) (org_taxId r),
            org_taxExempt := nullish (os_taxExempt patch) (org_taxExempt r),
            org_taxRate := nullish (map_option (map_option (\<lambda>v. toFixed 3 (js_Number v))) (os_taxRate patch)) (org_taxRate r),
            org_billingAddress := patchAddress (os_billingAddress patch) (org_billingAddress r) \<rparr>)
            (db_organizations s) \<rparr>
     in bindE (ofOption (InvoiceErr 404 INVOICE_NOT_FOUND) (orgOf s1 orgId)) (\<lambda>row. Inr (row, s1)))"

section \<open>Assembly from unbilled work\<close>

definition timeEntryToLineSpec :: "time_entry \<Rightarrow> line_spec" where
  "timeEntryToLineSpec r =
     (let hours = toFixed 2 (fdiv (of_int (nullish (te_durationMinutes r) 0)) 60);
          unitPrice = (case te_hourlyRate r of None \<Rightarrow> 0 | Some v \<Rightarrow> toFixed 2 (js_Number v));
          d = (case te_description r of None \<Rightarrow> [] | Some t \<Rightarrow> js_trim t)
      in \<lparr> ls_sourceType = Src_time_entry, ls_sourceId = Some (te_id r), ls_catalogItemId = None,
           ls_parentLineId = None, ls_ticketId = te_ticketId r,
           ls_description = (if d = [] then ''Labor'' else d), ls_quantity = hours, ls_unitPrice = unitPrice,
           ls_costBasis = None, ls_revenueAllocation = None, ls_taxable = False, ls_customerVisible = True,
           ls_lineTotal = computeLineTotal hours unitPrice, ls_isUnapprovedTime = (\<not> te_isApproved r) \<rparr>)"

definition ticketPartToLineSpec :: "ticket_part \<Rightarrow> line_spec" where
  "ticketPartToLineSpec r =
     \<lparr> ls_sourceType = Src_part, ls_sourceId = Some (tp_id r), ls_catalogItemId = tp_catalogItemId r,
       ls_parentLineId = None, ls_ticketId = Some (tp_ticketId r), ls_description = tp_description r,
       ls_quantity = tp_quantity r, ls_unitPrice = tp_unitPrice r, ls_costBasis = tp_costBasis r,
       ls_revenueAllocation = None, ls_taxable = True, ls_customerVisible = True,
       ls_lineTotal = computeLineTotal (tp_quantity r) (tp_unitPrice r), ls_isUnapprovedTime = False \<rparr>"

definition unbilledTime :: "time_entry \<Rightarrow> bool" where
  "unbilledTime t \<longleftrightarrow> te_isBillable t \<and> te_billingStatus t = Bill_not_billed \<and>
     te_billingStatus t \<noteq> Bill_contract \<and> te_billingStatus t \<noteq> Bill_no_charge \<and> te_endedAt t \<noteq> None"

definition unbilledPart :: "ticket_part \<Rightarrow> bool" where
  "unbilledPart p \<longleftrightarrow> tp_isBillable p \<and> tp_billingStatus p = Bill_not_billed \<and>
     tp_billingStatus p \<noteq> Bill_contract \<and> tp_billingStatus p \<noteq> Bill_no_charge"

definition gatherOrgTimeEntries :: "uuid \<Rightarrow> instant \<Rightarrow> instant \<Rightarrow> db \<Rightarrow> line_spec list" where
  "gatherOrgTimeEntries orgId from to s = map timeEntryToLineSpec (selectWhere (\<lambda>t.
     te_orgId t = Some orgId \<and> unbilledTime t \<and>
     (case te_endedAt t of None \<Rightarrow> False | Some e \<Rightarrow> from \<le> e \<and> e \<le> to)) (db_timeEntries s))"

definition gatherOrgParts :: "uuid \<Rightarrow> instant \<Rightarrow> instant \<Rightarrow> db \<Rightarrow> line_spec list" where
  "gatherOrgParts orgId from to s = map ticketPartToLineSpec (selectWhere (\<lambda>p.
     tp_orgId p = orgId \<and> unbilledPart p \<and> from \<le> tp_createdAt p \<and> tp_createdAt p \<le> to) (db_ticketParts s))"

definition gatherTicketBillables :: "uuid \<Rightarrow> db \<Rightarrow> line_spec list" where
  "gatherTicketBillables ticketId s =
     map timeEntryToLineSpec (selectWhere (\<lambda>t. te_ticketId t = Some ticketId \<and> unbilledTime t) (db_timeEntries s)) @
     map ticketPartToLineSpec (selectWhere (\<lambda>p. tp_ticketId p = ticketId \<and> unbilledPart p) (db_ticketParts s))"

fun materializeLines :: "uuid \<Rightarrow> uuid \<Rightarrow> line_spec list \<Rightarrow> int \<Rightarrow> db \<Rightarrow> svc_error + db" where
  "materializeLines i orgId [] ord s = Inr s"
| "materializeLines i orgId (p # ps) ord s =
     bindE (insertLine (lineRow (db_next s) i orgId ord p) s) (materializeLines i orgId ps (ord + 1))"

text \<open>Insert the draft, its lines, recompute, read back: the common tail of both assemblies.\<close>

definition assembleDraft ::
    "uuid \<Rightarrow> uuid \<Rightarrow> uuid option \<Rightarrow> line_spec list \<Rightarrow> actor \<Rightarrow> instant \<Rightarrow> db \<Rightarrow> (invoice \<times> invoice_line list \<times> bool) svc" where
  "assembleDraft partnerId orgId siteId specs a now s =
     bindE (guardE (specs \<noteq> []) (InvoiceErr 409 NOTHING_TO_INVOICE)) (\<lambda>_.
     let invc = (blankInvoice (db_next s) partnerId orgId now) \<lparr> inv_siteId := siteId, inv_createdBy := a_userId a \<rparr>
     in bindE (insertInvoice invc s) (\<lambda>s1.
        bindE (materializeLines (inv_id invc) orgId specs 0 s1) (\<lambda>s2.
        bindE (recomputeInvoiceTotals (inv_id invc) None now s2) (\<lambda>r.
        bindE (getInvoice (inv_id invc) a (snd r)) (\<lambda>v. Inr (v, snd r))))))"

definition assembleDraftFromOrg ::
    "uuid \<Rightarrow> uuid option \<Rightarrow> iso_date \<Rightarrow> iso_date \<Rightarrow> actor \<Rightarrow> instant \<Rightarrow> db \<Rightarrow> (invoice \<times> invoice_line list \<times> bool) svc" where
  "assembleDraftFromOrg orgId siteId from to a now s =
     bindE (requirePartner a) (\<lambda>partnerId.
     bindE (requireOrgAccess a orgId) (\<lambda>_.
     assembleDraft partnerId orgId siteId
       (gatherOrgTimeEntries orgId (startOfDay from) (endOfDay to) s @
        gatherOrgParts orgId (startOfDay from) (endOfDay to) s) a now s))"

definition assembleDraftFromTicket ::
    "uuid \<Rightarrow> actor \<Rightarrow> instant \<Rightarrow> db \<Rightarrow> (invoice \<times> invoice_line list \<times> bool) svc" where
  "assembleDraftFromTicket ticketId a now s =
     bindE (requirePartner a) (\<lambda>partnerId.
     bindE (ofOption (InvoiceErr 404 INVOICE_NOT_FOUND) (selectOne (\<lambda>t. tk_id t = ticketId) (db_tickets s))) (\<lambda>tk.
     bindE (requireOrgAccess a (tk_orgId tk)) (\<lambda>_.
     assembleDraft partnerId (tk_orgId tk) None (gatherTicketBillables ticketId s) a now s)))"

section \<open>Issuing\<close>

definition timeIdsOf :: "invoice_line list \<Rightarrow> uuid list" where
  "timeIdsOf ls = [x. l \<leftarrow> ls, il_sourceType l = Src_time_entry, Some x \<leftarrow> [il_sourceId l]]"

definition partIdsOf :: "invoice_line list \<Rightarrow> uuid list" where
  "partIdsOf ls = [x. l \<leftarrow> ls, il_sourceType l = Src_part, Some x \<leftarrow> [il_sourceId l]]"

text \<open>
  What the call reads before its system transaction opens: the draft and the identities of the
  source rows its lines bill.
\<close>

definition issueRead :: "uuid \<Rightarrow> actor \<Rightarrow> db \<Rightarrow> svc_error + (invoice \<times> uuid list \<times> uuid list)" where
  "issueRead i a s =
     bindE (draftForEdit i a s) (\<lambda>invc.
     let ls = linesOf s i
     in bindE (guardE (\<exists>l \<in> set ls. il_customerVisible l) (InvoiceErr 409 NO_VISIBLE_LINES)) (\<lambda>_.
        Inr (invc, timeIdsOf ls, partIdsOf ls)))"

text \<open>The double-bill guard: the first statements of the transaction.\<close>

definition issueGuard :: "uuid list \<Rightarrow> uuid list \<Rightarrow> db \<Rightarrow> svc_error + unit" where
  "issueGuard timeIds partIds s =
     bindE (guardE (\<forall>t \<in> set (db_timeEntries s). te_id t \<in> set timeIds \<longrightarrow> te_billingStatus t = Bill_not_billed)
       (InvoiceErr 409 SOURCE_ALREADY_BILLED)) (\<lambda>_.
     guardE (\<forall>p \<in> set (db_ticketParts s). tp_id p \<in> set partIds \<longrightarrow> tp_billingStatus p = Bill_not_billed)
       (InvoiceErr 409 SOURCE_ALREADY_BILLED))"

definition setSources :: "billing_status \<Rightarrow> uuid list \<Rightarrow> uuid list \<Rightarrow> instant \<Rightarrow> db \<Rightarrow> db" where
  "setSources st timeIds partIds now s = s \<lparr>
     db_timeEntries := updateWhere (\<lambda>t. te_id t \<in> set timeIds)
       (\<lambda>t. t \<lparr> te_billingStatus := st, te_updatedAt := now \<rparr>) (db_timeEntries s),
     db_ticketParts := updateWhere (\<lambda>p. tp_id p \<in> set partIds)
       (\<lambda>p. p \<lparr> tp_billingStatus := st, tp_updatedAt := now \<rparr>) (db_ticketParts s) \<rparr>"

text \<open>The columns \<open>issueInvoice\<close> writes.\<close>

definition issueFields ::
    "organization option \<Rightarrow> partner option \<Rightarrow> string \<Rightarrow> rat \<Rightarrow> totals \<Rightarrow> string option \<Rightarrow> instant \<Rightarrow> invoice \<Rightarrow> invoice" where
  "issueFields org partner number taxRate t draftTerms now r = r \<lparr>
     inv_status := Inv_sent, inv_invoiceNumber := Some number,
     inv_currencyCode := (case partner of None \<Rightarrow> ''USD'' | Some p \<Rightarrow> pr_currencyCode p),
     inv_issueDate := Some (utcDay now),
     inv_dueDate := Some (utcDay (now + (case partner of None \<Rightarrow> 30 | Some p \<Rightarrow> pr_invoiceTermsDays p) * 86400000)),
     inv_taxRate := Some taxRate, inv_subtotal := subtotal t, inv_taxTotal := taxTotal t,
     inv_total := total t, inv_balance := total t,
     inv_billToName := map_option org_name org,
     inv_billToAddress := Some (case org of None \<Rightarrow> no_address | Some g \<Rightarrow> org_billingAddress g),
     inv_billToTaxId := (case org of None \<Rightarrow> None | Some g \<Rightarrow> org_taxId g),
     inv_billToTaxExempt := (case org of None \<Rightarrow> False | Some g \<Rightarrow> org_taxExempt g),
     inv_terms := (case partner of None \<Rightarrow> None | Some p \<Rightarrow> pr_invoiceFooter p),
     inv_sellerSnapshot := Some (buildSellerSnapshot partner),
     inv_termsAndConditions := orElse draftTerms (case partner of None \<Rightarrow> None | Some p \<Rightarrow> pr_billingTermsAndConditions p),
     inv_updatedAt := now \<rparr>"

definition issueWrite :: "uuid \<Rightarrow> invoice \<Rightarrow> uuid list \<Rightarrow> uuid list \<Rightarrow> instant \<Rightarrow> db \<Rightarrow> svc_error + db" where
  "issueWrite i invc timeIds partIds now s =
     (let org = orgOf s (inv_orgId invc);
          partner = partnerOf s (inv_partnerId invc);
          taxRate = resolveEffectiveTaxRate (case org of None \<Rightarrow> False | Some g \<Rightarrow> org_taxExempt g)
            (case org of None \<Rightarrow> None | Some g \<Rightarrow> org_taxRate g)
            (case partner of None \<Rightarrow> None | Some p \<Rightarrow> pr_defaultTaxRate p);
          year = getUTCFullYear now;
          (counter, sequences) = nextCounter (inv_partnerId invc) year (db_invoiceSequences s)
      in bindE (guardE (1 \<le> counter) (InvoiceErr 500 NUMBER_ALLOCATION_FAILED)) (\<lambda>_.
         let number = formatInvoiceNumber (case partner of None \<Rightarrow> ''INV'' | Some p \<Rightarrow> pr_invoiceNumberPrefix p) year counter;
             t = computeInvoiceTotals (map lineTotalsRow (linesOf s i)) (Some taxRate)
         in bindE (guardE (moneyFits (subtotal t) \<and> moneyFits (taxTotal t) \<and> moneyFits (total t))
                    (JsError ''numeric field overflow'')) (\<lambda>_.
            Inr (setSources Bill_billed timeIds partIds now
              (updateInvoices i (issueFields org partner number taxRate t (inv_termsAndConditions invc) now)
                (s \<lparr> db_invoiceSequences := sequences \<rparr>))))))"

definition issueInvoice :: "uuid \<Rightarrow> actor \<Rightarrow> instant \<Rightarrow> db \<Rightarrow> invoice svc" where
  "issueInvoice i a now s =
     bindE (issueRead i a s) (\<lambda>(invc, timeIds, partIds).
     bindE (issueGuard timeIds partIds s) (\<lambda>_.
     bindE (issueWrite i invc timeIds partIds now s) (\<lambda>s1.
     let s2 = emit (PdfRender i) (emit (InvoiceEvent Ev_invoice_issued i (inv_orgId invc) (inv_partnerId invc) None) s1)
     in bindE (getOwnedInvoiceOr404 i s2) (\<lambda>invc'. Inr (invc', s2)))))"

section \<open>Payments\<close>

definition sumCents :: "invoice_payment list \<Rightarrow> jsnum" where
  "sumCents ps = fold (\<lambda>p acc. fadd acc (toCents (Some (pay_amount p)))) ps 0"

definition restate :: "invoice_payment list \<Rightarrow> instant \<Rightarrow> invoice \<Rightarrow> invoice" where
  "restate ps now r =
     (let amountPaid = fromCents (sumCents ps);
          balance = fromCents (fsub (toCents (Some (inv_total r))) (toCents (Some amountPaid)));
          status = deriveInvoiceStatus (inv_voidedAt r \<noteq> None) (inv_invoiceNumber r \<noteq> None) (inv_total r)
                     amountPaid (inv_dueDate r) now
      in r \<lparr> inv_amountPaid := amountPaid, inv_balance := balance, inv_status := status, inv_updatedAt := now,
             inv_paidAt := (if status = Inv_paid \<and> inv_paidAt r = None then Some now else inv_paidAt r),
             inv_markedOverdueAt := (if status = Inv_overdue \<and> inv_markedOverdueAt r = None then Some now
                                     else inv_markedOverdueAt r) \<rparr>)"

definition recomputeInvoiceStatus :: "uuid \<Rightarrow> instant \<Rightarrow> db \<Rightarrow> svc_error + db" where
  "recomputeInvoiceStatus i now s =
     bindE (getOwnedInvoiceOr404 i s) (\<lambda>invc.
     let invc' = restate (paymentsOf s i) now invc
     in bindE (guardE (moneyFits (inv_amountPaid invc') \<and> moneyFits (inv_balance invc'))
                (JsError ''numeric field overflow'')) (\<lambda>_.
        Inr (updateInvoices i (restate (paymentsOf s i) now) s)))"

text \<open>An insert into \<open>invoice_payments\<close>, with its check \<open>amount > 0\<close>.\<close>

definition insertPayment :: "invoice_payment \<Rightarrow> db \<Rightarrow> svc_error + db" where
  "insertPayment p s =
     bindE (guardE (moneyFits (pay_amount p)) (JsError ''numeric field overflow'')) (\<lambda>_.
     bindE (guardE (0 < pay_amount p) (JsError ''check violation'')) (\<lambda>_.
     Inr (s \<lparr> db_next := Suc (db_next s), db_invoicePayments := insertRow p (db_invoicePayments s) \<rparr>)))"

record record_payment_input =
  rpi_amount :: rat
  rpi_method :: payment_method
  rpi_reference :: "string option"
  rpi_receivedAt :: iso_date
  rpi_note :: "string option"

definition paymentValues :: "uuid \<Rightarrow> uuid \<Rightarrow> uuid \<Rightarrow> record_payment_input \<Rightarrow> actor \<Rightarrow> invoice_payment" where
  "paymentValues paymentId i orgId input a =
     \<lparr> pay_id = paymentId, pay_invoiceId = i, pay_orgId = orgId,
       pay_amount = toFixed 2 (js_Number (rpi_amount input)), pay_method = rpi_method input,
       pay_reference = rpi_reference input, pay_receivedAt = rpi_receivedAt input,
       pay_recordedBy = a_userId a, pay_note = rpi_note input \<rparr>"

definition recordPayment ::
    "uuid \<Rightarrow> record_payment_input \<Rightarrow> actor \<Rightarrow> instant \<Rightarrow> db \<Rightarrow> (invoice \<times> invoice_payment) svc" where
  "recordPayment i input a now s =
     bindE (getOwnedInvoiceOr404 i s) (\<lambda>invc.
     bindE (requireOrgAccess a (inv_orgId invc)) (\<lambda>_.
     bindE (guardE (inv_status invc \<noteq> Inv_draft) (InvoiceErr 409 INVALID_STATE)) (\<lambda>_.
     bindE (guardE (inv_status invc \<noteq> Inv_void) (InvoiceErr 409 INVALID_STATE)) (\<lambda>_.
     bindE (guardE (\<not> Math_round (fmul (js_Number (rpi_amount input)) 100) > Math_round (fmul (js_Number (inv_balance invc)) 100))
       (InvoiceErr 400 OVERPAYMENT)) (\<lambda>_.
     let payment = paymentValues (db_next s) i (inv_orgId invc) input a
     in bindE (insertPayment payment s) (\<lambda>s1.
        bindE (recomputeInvoiceStatus i now s1) (\<lambda>s2.
        let s3 = emit (InvoiceEvent Ev_payment_recorded i (inv_orgId invc) (inv_partnerId invc) (Some (pay_id payment))) s2
        in bindE (getOwnedInvoiceOr404 i s3) (\<lambda>updated.
           Inr ((updated, payment),
             if inv_status updated = Inv_paid
             then emit (InvoiceEvent Ev_invoice_paid i (inv_orgId invc) (inv_partnerId invc) None) s3 else s3)))))))))"

text \<open>
  Deleting a payment nulls the link of its Stripe mapping (foreign key), which the check
  \<open>invoice_stripe_payments_succeeded_has_payment\<close> forbids while the mapping is \<open>succeeded\<close>.
\<close>

definition deletePaymentRow :: "uuid \<Rightarrow> db \<Rightarrow> svc_error + db" where
  "deletePaymentRow paymentId s =
     bindE (guardE (\<forall>m \<in> set (db_stripePayments s). sp_invoicePaymentId m = Some paymentId \<longrightarrow> sp_status m \<noteq> Sp_succeeded)
       (JsError ''check violation'')) (\<lambda>_.
     Inr (s \<lparr> db_invoicePayments := deleteWhere (\<lambda>p. pay_id p = paymentId) (db_invoicePayments s),
              db_stripePayments := updateWhere (\<lambda>m. sp_invoicePaymentId m = Some paymentId)
                (\<lambda>m. m \<lparr> sp_invoicePaymentId := None \<rparr>) (db_stripePayments s) \<rparr>))"

definition voidPayment :: "uuid \<Rightarrow> actor \<Rightarrow> instant \<Rightarrow> db \<Rightarrow> (invoice \<times> invoice_payment) svc" where
  "voidPayment paymentId a now s =
     bindE (ofOption (InvoiceErr 404 PAYMENT_NOT_FOUND) (selectOne (\<lambda>p. pay_id p = paymentId) (db_invoicePayments s))) (\<lambda>pay.
     bindE (requireOrgAccess a (pay_orgId pay)) (\<lambda>_.
     bindE (deletePaymentRow paymentId s) (\<lambda>s1.
     bindE (recomputeInvoiceStatus (pay_invoiceId pay) now s1) (\<lambda>s2.
     bindE (getOwnedInvoiceOr404 (pay_invoiceId pay) s2) (\<lambda>invc.
     Inr ((invc, pay), emit (InvoiceEvent Ev_payment_voided (pay_invoiceId pay) (pay_orgId pay) (inv_partnerId invc) (Some paymentId)) s2))))))"

definition listPayments :: "uuid \<Rightarrow> actor \<Rightarrow> db \<Rightarrow> svc_error + (invoice_payment \<times> bool) list" where
  "listPayments i a s =
     bindE (getOwnedInvoiceOr404 i s) (\<lambda>invc.
     bindE (requireOrgAccess a (inv_orgId invc)) (\<lambda>_.
     let linked = selectWhere (\<lambda>m. sp_invoiceId m = i \<and> sp_status m = Sp_succeeded) (db_stripePayments s)
     in Inr (map (\<lambda>p. (p, Some (pay_id p) \<in> set (map sp_invoicePaymentId linked)))
              (sort_key pay_receivedAt (paymentsOf s i)))))"

section \<open>Void, reissue, sweeps\<close>

definition cloneLine :: "uuid \<Rightarrow> uuid \<Rightarrow> uuid option \<Rightarrow> invoice_line \<Rightarrow> invoice_line" where
  "cloneLine lineId draftId parentLineId l =
     l \<lparr> il_id := lineId, il_invoiceId := draftId, il_parentLineId := parentLineId \<rparr>"

fun cloneLines :: "(invoice_line \<Rightarrow> uuid option) \<Rightarrow> uuid \<Rightarrow> invoice_line list \<Rightarrow> db \<Rightarrow> db" where
  "cloneLines parentOf draftId [] s = s"
| "cloneLines parentOf draftId (l # ls) s = cloneLines parentOf draftId ls
     (s \<lparr> db_next := Suc (db_next s),
          db_invoiceLines := insertRow (cloneLine (db_next s) draftId (parentOf l) l) (db_invoiceLines s) \<rparr>)"

text \<open>\<open>oldToNew\<close>: the ids \<open>inserted[i]\<close> of the cloned parents, in order.\<close>

definition oldToNew :: "invoice_line list \<Rightarrow> uuid \<Rightarrow> uuid \<Rightarrow> uuid option" where
  "oldToNew parents first x = map_of (zip (map il_id parents) [first ..< first + length parents]) x"

definition reissueDraft :: "uuid \<Rightarrow> invoice \<Rightarrow> actor \<Rightarrow> instant \<Rightarrow> db \<Rightarrow> svc_error + (uuid \<times> db)" where
  "reissueDraft i invc a now s =
     (let draft = (blankInvoice (db_next s) (inv_partnerId invc) (inv_orgId invc) now) \<lparr>
            inv_siteId := inv_siteId invc, inv_notes := inv_notes invc,
            inv_replacesInvoiceId := Some i, inv_createdBy := a_userId a \<rparr>
      in bindE (insertInvoice draft s) (\<lambda>s1.
         let s2 = updateInvoices i (\<lambda>r. r \<lparr> inv_replacedByInvoiceId := Some (inv_id draft) \<rparr>) s1;
             srcLines = orderByInt il_sortOrder (linesOf s2 i);
             parents = filter (\<lambda>l. il_parentLineId l = None) srcLines;
             children = filter (\<lambda>l. il_parentLineId l \<noteq> None) srcLines;
             mapped = oldToNew parents (db_next s2);
             s3 = cloneLines (\<lambda>_. None) (inv_id draft) parents s2;
             s4 = cloneLines (\<lambda>l. case il_parentLineId l of None \<Rightarrow> None | Some x \<Rightarrow> mapped x) (inv_id draft) children s3
         in Inr (inv_id draft, s4)))"

definition voidFields :: "string \<Rightarrow> instant \<Rightarrow> invoice \<Rightarrow> invoice" where
  "voidFields reason now r = r \<lparr> inv_status := Inv_void, inv_voidedAt := Some now,
     inv_voidReason := Some reason, inv_updatedAt := now \<rparr>"

text \<open>
  The transaction of a void, with the draft of a reissue. It is committed before the totals of that draft are
  computed: a call whose computation fails has voided and cloned.
\<close>

definition voidCommit :: "uuid \<Rightarrow> string \<Rightarrow> bool \<Rightarrow> actor \<Rightarrow> instant \<Rightarrow> db \<Rightarrow> (uuid option) svc" where
  "voidCommit i reason reissue a now s =
     bindE (getOwnedInvoiceOr404 i s) (\<lambda>invc.
     bindE (requireOrgAccess a (inv_orgId invc)) (\<lambda>_.
     bindE (guardE (inv_status invc \<noteq> Inv_draft) (InvoiceErr 409 INVALID_STATE)) (\<lambda>_.
     bindE (guardE (inv_status invc \<noteq> Inv_void) (InvoiceErr 409 INVALID_STATE)) (\<lambda>_.
     let ls = linesOf s i;
         s1 = setSources Bill_not_billed (timeIdsOf ls) (partIdsOf ls) now (updateInvoices i (voidFields reason now) s);
         voided = InvoiceEvent Ev_invoice_voided i (inv_orgId invc) (inv_partnerId invc) None
     in if \<not> reissue then Inr (None, emit voided s1)
        else bindE (reissueDraft i invc a now s1) (\<lambda>(draftId, s2). Inr (Some draftId, emit voided s2))))))"

definition voidInvoice ::
    "uuid \<Rightarrow> string \<Rightarrow> bool \<Rightarrow> actor \<Rightarrow> instant \<Rightarrow> db \<Rightarrow> (invoice \<times> invoice_line list \<times> bool) svc" where
  "voidInvoice i reason reissue a now s =
     bindE (voidCommit i reason reissue a now s) (\<lambda>(draft, s1). case draft of
       None \<Rightarrow> bindE (getInvoice i a s1) (\<lambda>v. Inr (v, s1))
     | Some draftId \<Rightarrow>
         bindE (recomputeInvoiceTotals draftId None now s1) (\<lambda>r.
         bindE (getInvoice draftId a (snd r)) (\<lambda>v. Inr (v, snd r))))"

definition isOverdue :: "iso_date \<Rightarrow> invoice \<Rightarrow> bool" where
  "isOverdue today r \<longleftrightarrow> (inv_status r = Inv_sent \<or> inv_status r = Inv_partially_paid) \<and>
     (case inv_dueDate r of None \<Rightarrow> False | Some d \<Rightarrow> d < today) \<and> 0 < inv_balance r"

definition markOverdue :: "instant \<Rightarrow> invoice \<Rightarrow> db \<Rightarrow> db" where
  "markOverdue asOf r s = emit (InvoiceEvent Ev_invoice_overdue (inv_id r) (inv_orgId r) (inv_partnerId r) None)
     (updateInvoices (inv_id r) (\<lambda>q. q \<lparr> inv_status := Inv_overdue, inv_markedOverdueAt := Some asOf,
        inv_updatedAt := asOf \<rparr>) s)"

definition runOverdueSweep :: "instant \<Rightarrow> db \<Rightarrow> nat \<times> db" where
  "runOverdueSweep asOf s =
     (let due = selectWhere (isOverdue (utcDay asOf)) (db_invoices s)
      in (length due, fold (markOverdue asOf) due s))"

definition markViewed :: "uuid \<Rightarrow> uuid option \<Rightarrow> instant \<Rightarrow> db \<Rightarrow> unit svc" where
  "markViewed i orgId now s =
     bindE (getOwnedInvoiceOr404 i s) (\<lambda>invc.
     bindE (guardE (case orgId of None \<Rightarrow> True | Some org \<Rightarrow> inv_orgId invc = org) (InvoiceErr 404 INVOICE_NOT_FOUND)) (\<lambda>_.
     let s1 = updateInvoices i (\<lambda>r. r \<lparr> inv_viewedAt := Some now,
                inv_firstViewedAt := (case inv_firstViewedAt r of None \<Rightarrow> Some now | Some v \<Rightarrow> Some v) \<rparr>) s
     in Inr ((), if inv_firstViewedAt invc = None
                 then emit (InvoiceEvent Ev_invoice_viewed i (inv_orgId invc) (inv_partnerId invc) None) s1 else s1)))"

end
