(* ===== verification/InvoiceLedger.thy ===== *)
theory InvoiceLedger
  imports InvoiceService
begin

text \<open>
  The contract of the invoice engine, as an abstract ledger: invoices by key, their lines and
  payments, the number counters, and which pieces of work exist and are billed. \<open>ledger_step\<close>
  lists the moves any service may make (create a draft, edit its lines, issue it, take, adjust or
  return a payment, void); \<open>ledger_ok\<close> is the invariant every move keeps. The flag of the relation
  says whether a payment on record may also be raised: without it no invoice is ever overpaid
  (\<open>solvent\<close>). The refinement theories show that each service call is a sequence of such moves.
\<close>

section \<open>The ledger\<close>

datatype source = TimeSource uuid | PartSource uuid

definition sourceOf :: "invoice_line \<Rightarrow> source option" where
  "sourceOf l = (case il_sourceId l of None \<Rightarrow> None | Some x \<Rightarrow>
     if il_sourceType l = Src_time_entry then Some (TimeSource x)
     else if il_sourceType l = Src_part then Some (PartSource x) else None)"

record ledger =
  lg_next :: nat
  lg_inv :: "uuid \<Rightarrow> invoice option"
  lg_lines :: "invoice_line set"
  lg_pays :: "invoice_payment list"
  lg_seq :: "uuid \<times> int \<Rightarrow> int"
  lg_known :: "source set"
  lg_billed :: "source set"

definition knownSources :: "db \<Rightarrow> source set" where
  "knownSources s = TimeSource ` te_id ` set (db_timeEntries s) \<union> PartSource ` tp_id ` set (db_ticketParts s)"

definition billedSources :: "db \<Rightarrow> source set" where
  "billedSources s =
     TimeSource ` te_id ` {t \<in> set (db_timeEntries s). te_billingStatus t \<noteq> Bill_not_billed} \<union>
     PartSource ` tp_id ` {p \<in> set (db_ticketParts s). tp_billingStatus p \<noteq> Bill_not_billed}"

definition ledgerOf :: "db \<Rightarrow> ledger" where
  "ledgerOf s = \<lparr> lg_next = db_next s, lg_inv = invOf s, lg_lines = set (db_invoiceLines s),
     lg_pays = db_invoicePayments s, lg_seq = (\<lambda>k. seqValue k (db_invoiceSequences s)),
     lg_known = knownSources s, lg_billed = billedSources s \<rparr>"

subsection \<open>Moves\<close>

text \<open>An issued invoice that is not void: the customer owes or has paid it.\<close>

definition live :: "invoice \<Rightarrow> bool" where
  "live r \<longleftrightarrow> inv_status r \<noteq> Inv_draft \<and> inv_status r \<noteq> Inv_void"

definition money_ok :: "money \<Rightarrow> bool" where
  "money_ok v \<longleftrightarrow> cents_ok v \<and> \<bar>cents_of v\<bar> < 10 ^ 12"

text \<open>The two-decimal amount of a number of cents.\<close>

definition dollars :: "int \<Rightarrow> money" where
  "dollars c = of_int c / 100"

definition paidCents :: "uuid \<Rightarrow> invoice_payment list \<Rightarrow> int" where
  "paidCents i ps = (\<Sum>p\<leftarrow>filter (\<lambda>p. pay_invoiceId p = i) ps. cents_of (pay_amount p))"

definition same_identity :: "invoice \<Rightarrow> invoice \<Rightarrow> bool" where
  "same_identity r r' \<longleftrightarrow> inv_id r' = inv_id r \<and> inv_partnerId r' = inv_partnerId r \<and> inv_orgId r' = inv_orgId r"

definition same_facts :: "invoice \<Rightarrow> invoice \<Rightarrow> bool" where
  "same_facts r r' \<longleftrightarrow> same_identity r r' \<and> inv_invoiceNumber r' = inv_invoiceNumber r \<and>
     inv_status r' = inv_status r \<and> inv_voidedAt r' = inv_voidedAt r \<and> inv_total r' = inv_total r \<and>
     inv_amountPaid r' = inv_amountPaid r \<and> inv_balance r' = inv_balance r"

text \<open>The row after its payments changed to \<open>ps\<close>.\<close>

definition restated :: "invoice_payment list \<Rightarrow> invoice \<Rightarrow> invoice \<Rightarrow> bool" where
  "restated ps r r' \<longleftrightarrow> same_identity r r' \<and> inv_invoiceNumber r' = inv_invoiceNumber r \<and>
     inv_voidedAt r' = inv_voidedAt r \<and> inv_total r' = inv_total r \<and>
     inv_amountPaid r' = dollars (paidCents (inv_id r) ps) \<and>
     inv_balance r' = dollars (cents_of (inv_total r) - paidCents (inv_id r) ps) \<and>
     (if inv_voidedAt r \<noteq> None then inv_status r' = Inv_void
      else if inv_balance r' \<le> 0 then inv_status r' = Inv_paid
      else inv_status r' \<in> {Inv_sent, Inv_partially_paid, Inv_overdue} \<and>
        (inv_status r' = Inv_partially_paid \<longrightarrow> 0 < inv_amountPaid r'))"

definition sources :: "ledger \<Rightarrow> uuid \<Rightarrow> source set" where
  "sources L i = {x. \<exists>l \<in> lg_lines L. il_invoiceId l = i \<and> sourceOf l = Some x}"

definition line_fits :: "ledger \<Rightarrow> invoice_line \<Rightarrow> bool" where
  "line_fits L l \<longleftrightarrow>
     (\<exists>r. lg_inv L (il_invoiceId l) = Some r \<and> inv_status r = Inv_draft \<and> inv_orgId r = il_orgId l) \<and>
     (\<forall>p. il_parentLineId l = Some p \<longrightarrow>
        (\<exists>q \<in> lg_lines L. il_id q = p \<and> il_invoiceId q = il_invoiceId l \<and> il_parentLineId q = None)) \<and>
     (\<forall>x. sourceOf l = Some x \<longrightarrow> x \<in> lg_known L \<and> x \<notin> sources L (il_invoiceId l))"

inductive ledger_step :: "bool \<Rightarrow> ledger \<Rightarrow> ledger \<Rightarrow> bool" for raises where
  frame: "\<lbrakk> \<And>j. rel_option same_facts (lg_inv L j) (inv' j); lg_next L \<le> n \<rbrakk>
    \<Longrightarrow> ledger_step raises L (L \<lparr> lg_inv := inv', lg_next := n \<rparr>)"
| work: "\<lbrakk> \<And>i. sources L i \<subseteq> K; \<And>i r. lg_inv L i = Some r \<Longrightarrow> live r \<Longrightarrow> sources L i \<subseteq> B \<rbrakk>
    \<Longrightarrow> ledger_step raises L (L \<lparr> lg_known := K, lg_billed := B \<rparr>)"
| create: "\<lbrakk> inv_id r = lg_next L; inv_status r = Inv_draft; inv_invoiceNumber r = None; inv_voidedAt r = None;
      inv_amountPaid r = 0; money_ok (inv_total r) \<rbrakk>
    \<Longrightarrow> ledger_step raises L (L \<lparr> lg_next := Suc (lg_next L), lg_inv := (lg_inv L)(inv_id r \<mapsto> r) \<rparr>)"
| add_line: "\<lbrakk> il_id l = lg_next L; line_fits L l \<rbrakk>
    \<Longrightarrow> ledger_step raises L (L \<lparr> lg_next := Suc (lg_next L), lg_lines := insert l (lg_lines L) \<rparr>)"
| edit_line: "\<lbrakk> l \<in> lg_lines L; il_id l' = il_id l; il_invoiceId l' = il_invoiceId l; il_orgId l' = il_orgId l;
      il_parentLineId l' = il_parentLineId l; sourceOf l' = sourceOf l;
      lg_inv L (il_invoiceId l) = Some r; inv_status r = Inv_draft \<rbrakk>
    \<Longrightarrow> ledger_step raises L (L \<lparr> lg_lines := insert l' (lg_lines L - {l}) \<rparr>)"
| cut_lines: "\<lbrakk> \<And>l. l \<in> D \<Longrightarrow> \<exists>r. lg_inv L (il_invoiceId l) = Some r \<and> inv_status r = Inv_draft;
      \<And>l q. l \<in> lg_lines L \<Longrightarrow> il_parentLineId l = Some (il_id q) \<Longrightarrow> q \<in> lg_lines L \<Longrightarrow> q \<in> D \<Longrightarrow> l \<in> D \<rbrakk>
    \<Longrightarrow> ledger_step raises L (L \<lparr> lg_lines := lg_lines L - D \<rparr>)"
| retotal: "\<lbrakk> lg_inv L i = Some r; inv_status r = Inv_draft; same_identity r r';
      inv_invoiceNumber r' = inv_invoiceNumber r; inv_status r' = inv_status r; inv_voidedAt r' = inv_voidedAt r;
      inv_amountPaid r' = inv_amountPaid r; money_ok (inv_total r') \<rbrakk>
    \<Longrightarrow> ledger_step raises L (L \<lparr> lg_inv := (lg_inv L)(i \<mapsto> r') \<rparr>)"
| drop: "\<lbrakk> lg_inv L i = Some r; inv_status r = Inv_draft \<rbrakk>
    \<Longrightarrow> ledger_step raises L (L \<lparr> lg_inv := (lg_inv L)(i := None), lg_lines := {l \<in> lg_lines L. il_invoiceId l \<noteq> i},
          lg_pays := filter (\<lambda>p. pay_invoiceId p \<noteq> i) (lg_pays L) \<rparr>)"
| issue: "\<lbrakk> lg_inv L i = Some r; inv_status r = Inv_draft; sources L i \<inter> lg_billed L = {};
      same_identity r r'; inv_status r' = Inv_sent; inv_voidedAt r' = inv_voidedAt r;
      inv_amountPaid r' = inv_amountPaid r; money_ok (inv_total r'); inv_balance r' = inv_total r';
      0 \<le> y; lg_seq L (inv_partnerId r, y) + 1 = c; 1 \<le> c;
      inv_invoiceNumber r' = Some (formatInvoiceNumber prefix y c) \<rbrakk>
    \<Longrightarrow> ledger_step raises L (L \<lparr> lg_inv := (lg_inv L)(i \<mapsto> r'), lg_seq := (lg_seq L)((inv_partnerId r, y) := c),
          lg_billed := lg_billed L \<union> (sources L i \<inter> lg_known L) \<rparr>)"
| pay: "\<lbrakk> lg_inv L i = Some r; live r; pay_id p = lg_next L; pay_invoiceId p = i; pay_orgId p = inv_orgId r;
      money_ok (pay_amount p); 0 < cents_of (pay_amount p); cents_of (pay_amount p) \<le> cents_of (inv_balance r);
      restated (lg_pays L @ [p]) r r' \<rbrakk>
    \<Longrightarrow> ledger_step raises L (L \<lparr> lg_next := Suc (lg_next L), lg_pays := lg_pays L @ [p], lg_inv := (lg_inv L)(i \<mapsto> r') \<rparr>)"
| unpay: "\<lbrakk> p \<in> set (lg_pays L); lg_inv L (pay_invoiceId p) = Some r;
      restated (filter (\<lambda>q. pay_id q \<noteq> pay_id p) (lg_pays L)) r r' \<rbrakk>
    \<Longrightarrow> ledger_step raises L (L \<lparr> lg_pays := filter (\<lambda>q. pay_id q \<noteq> pay_id p) (lg_pays L),
          lg_inv := (lg_inv L)(pay_invoiceId p \<mapsto> r') \<rparr>)"
| adjust: "\<lbrakk> p \<in> set (lg_pays L); lg_inv L (pay_invoiceId p) = Some r; money_ok a; 0 < cents_of a;
      raises \<or> cents_of a \<le> cents_of (pay_amount p);
      ps = map (\<lambda>q. if pay_id q = pay_id p then q \<lparr> pay_amount := a \<rparr> else q) (lg_pays L); restated ps r r';
      money_ok (inv_balance r') \<rbrakk>
    \<Longrightarrow> ledger_step raises L (L \<lparr> lg_pays := ps, lg_inv := (lg_inv L)(pay_invoiceId p \<mapsto> r') \<rparr>)"
| void: "\<lbrakk> lg_inv L i = Some r; live r; same_identity r r'; inv_invoiceNumber r' = inv_invoiceNumber r;
      inv_status r' = Inv_void; inv_voidedAt r' \<noteq> None; inv_total r' = inv_total r;
      inv_amountPaid r' = inv_amountPaid r; inv_balance r' = inv_balance r \<rbrakk>
    \<Longrightarrow> ledger_step raises L (L \<lparr> lg_inv := (lg_inv L)(i \<mapsto> r'), lg_billed := lg_billed L - sources L i \<rparr>)"
| overdue: "\<lbrakk> lg_inv L i = Some r; inv_status r = Inv_sent \<or> inv_status r = Inv_partially_paid; 0 < inv_balance r;
      same_identity r r'; inv_invoiceNumber r' = inv_invoiceNumber r; inv_status r' = Inv_overdue;
      inv_voidedAt r' = inv_voidedAt r; inv_total r' = inv_total r; inv_amountPaid r' = inv_amountPaid r;
      inv_balance r' = inv_balance r \<rbrakk>
    \<Longrightarrow> ledger_step raises L (L \<lparr> lg_inv := (lg_inv L)(i \<mapsto> r') \<rparr>)"

section \<open>The invariant\<close>

text \<open>What a status says of an invoice with \<open>c\<close> cents of payments.\<close>

definition doc_state :: "invoice_status \<Rightarrow> bool \<Rightarrow> bool \<Rightarrow> money \<Rightarrow> money \<Rightarrow> money \<Rightarrow> int \<Rightarrow> bool" where
  "doc_state st numbered voided tot paid bal c \<longleftrightarrow>
     money_ok tot \<and> paid = dollars c \<and> \<bar>cents_of tot - c\<bar> < 10 ^ 12 \<and>
     numbered = (st \<noteq> Inv_draft) \<and> voided = (st = Inv_void) \<and>
     (st \<noteq> Inv_draft \<longrightarrow> bal = dollars (cents_of tot - c)) \<and>
     (st = Inv_paid \<longrightarrow> cents_of tot \<le> c) \<and> (st = Inv_partially_paid \<longrightarrow> 0 < c) \<and>
     (st \<in> {Inv_partially_paid, Inv_overdue} \<longrightarrow> c < cents_of tot)"

definition doc_ok :: "ledger \<Rightarrow> uuid \<Rightarrow> invoice \<Rightarrow> bool" where
  "doc_ok L i r \<longleftrightarrow> inv_id r = i \<and> i < lg_next L \<and>
     doc_state (inv_status r) (inv_invoiceNumber r \<noteq> None) (inv_voidedAt r \<noteq> None) (inv_total r)
       (inv_amountPaid r) (inv_balance r) (paidCents i (lg_pays L))"

definition docs_ok :: "ledger \<Rightarrow> bool" where
  "docs_ok L \<longleftrightarrow> (\<forall>i r. lg_inv L i = Some r \<longrightarrow> doc_ok L i r)"

definition pays_ok :: "ledger \<Rightarrow> bool" where
  "pays_ok L \<longleftrightarrow> key_ok pay_id (lg_next L) (lg_pays L) \<and>
     (\<forall>p \<in> set (lg_pays L). money_ok (pay_amount p) \<and> 0 < cents_of (pay_amount p) \<and>
        (\<exists>r. lg_inv L (pay_invoiceId p) = Some r \<and> inv_orgId r = pay_orgId p \<and> inv_status r \<noteq> Inv_draft))"

definition lines_ok :: "ledger \<Rightarrow> bool" where
  "lines_ok L \<longleftrightarrow> inj_on il_id (lg_lines L) \<and>
     (\<forall>l \<in> lg_lines L. il_id l < lg_next L \<and>
        (\<exists>r. lg_inv L (il_invoiceId l) = Some r \<and> inv_orgId r = il_orgId l) \<and>
        (\<forall>p. il_parentLineId l = Some p \<longrightarrow>
           (\<exists>q \<in> lg_lines L. il_id q = p \<and> il_invoiceId q = il_invoiceId l \<and> il_parentLineId q = None)))"

definition sources_ok :: "ledger \<Rightarrow> bool" where
  "sources_ok L \<longleftrightarrow>
     (\<forall>i. sources L i \<subseteq> lg_known L) \<and>
     (\<forall>l \<in> lg_lines L. \<forall>m \<in> lg_lines L.
        il_invoiceId l = il_invoiceId m \<and> sourceOf l = sourceOf m \<and> sourceOf l \<noteq> None \<longrightarrow> l = m) \<and>
     (\<forall>i r. lg_inv L i = Some r \<and> live r \<longrightarrow> sources L i \<subseteq> lg_billed L) \<and>
     (\<forall>i j r q. lg_inv L i = Some r \<and> live r \<and> lg_inv L j = Some q \<and> live q \<and> i \<noteq> j \<longrightarrow>
        sources L i \<inter> sources L j = {})"

definition numbers_ok :: "ledger \<Rightarrow> bool" where
  "numbers_ok L \<longleftrightarrow> (\<forall>k. 0 \<le> lg_seq L k) \<and>
     (\<forall>i r n. lg_inv L i = Some r \<and> inv_invoiceNumber r = Some n \<longrightarrow>
        (\<exists>prefix y c. n = formatInvoiceNumber prefix y c \<and> 0 \<le> y \<and> 1 \<le> c \<and> c \<le> lg_seq L (inv_partnerId r, y))) \<and>
     (\<forall>i j r q. lg_inv L i = Some r \<and> lg_inv L j = Some q \<and> inv_partnerId r = inv_partnerId q \<and>
        inv_invoiceNumber r = inv_invoiceNumber q \<and> inv_invoiceNumber r \<noteq> None \<longrightarrow> i = j)"

definition ledger_ok :: "ledger \<Rightarrow> bool" where
  "ledger_ok L \<longleftrightarrow> docs_ok L \<and> pays_ok L \<and> lines_ok L \<and> sources_ok L \<and> numbers_ok L"

section \<open>Every move keeps the invariant\<close>

lemmas identity_defs = same_identity_def same_facts_def

lemma rel_option_Some:
  "rel_option R a (Some y) \<longleftrightarrow> (\<exists>x. a = Some x \<and> R x y)" "rel_option R (Some x) b \<longleftrightarrow> (\<exists>y. b = Some y \<and> R x y)"
  by (auto simp: rel_option_iff split: option.splits)

lemma dollars_simps [simp]:
  "cents_of (dollars c) = c" "cents_ok (dollars c)" "dollars c \<le> 0 \<longleftrightarrow> c \<le> 0" "0 < dollars c \<longleftrightarrow> 0 < c"
  "dollars 0 = 0" "dollars c = dollars d \<longleftrightarrow> c = d"
  by (simp_all add: dollars_def zero_less_divide_iff divide_le_0_iff)

lemma dollars_cents_of: "cents_ok v \<Longrightarrow> dollars (cents_of v) = v"
  by (simp add: dollars_def cents_ok_def)

lemma paidCents_append: "paidCents i (ps @ [p]) = paidCents i ps + (if pay_invoiceId p = i then cents_of (pay_amount p) else 0)"
  by (simp add: paidCents_def)

lemma paidCents_nonneg: "(\<And>p. p \<in> set ps \<Longrightarrow> 0 < cents_of (pay_amount p)) \<Longrightarrow> 0 \<le> paidCents i ps"
  unfolding paidCents_def by (intro sum_list_nonneg) fastforce

lemma paidCents_filter_other: "pay_invoiceId p \<noteq> i \<Longrightarrow> (\<And>q. q \<in> set ps \<Longrightarrow> pay_id q = pay_id p \<Longrightarrow> q = p) \<Longrightarrow>
  paidCents i (filter (\<lambda>q. pay_id q \<noteq> pay_id p) ps) = paidCents i ps"
  unfolding paidCents_def filter_filter by (intro arg_cong[where f=sum_list] map_cong filter_cong) auto

lemma paidCents_filter_le: "(\<And>p. p \<in> set ps \<Longrightarrow> 0 < cents_of (pay_amount p)) \<Longrightarrow> paidCents i (filter Q ps) \<le> paidCents i ps"
proof (induction ps)
  case (Cons q ps)
  have "paidCents i (filter Q ps) \<le> paidCents i ps" "0 < cents_of (pay_amount q)" using Cons by auto
  then show ?case by (simp add: paidCents_def)
qed simp

lemma paidCents_lower:
  assumes "\<And>q. q \<in> set ps \<Longrightarrow> P q \<Longrightarrow> cents_of a \<le> cents_of (pay_amount q)"
  shows "paidCents i (map (\<lambda>q. if P q then q \<lparr> pay_amount := a \<rparr> else q) ps) \<le> paidCents i ps"
  using assms
proof (induction ps)
  case (Cons q ps)
  have "P q \<Longrightarrow> cents_of a \<le> cents_of (pay_amount q)" using Cons.prems by simp
  moreover have "paidCents i (map (\<lambda>q. if P q then q \<lparr> pay_amount := a \<rparr> else q) ps) \<le> paidCents i ps"
    using Cons by simp
  ultimately show ?case by (cases "P q") (auto simp: paidCents_def)
qed simp

lemma paidCents_lower_other:
  assumes "\<And>q. q \<in> set ps \<Longrightarrow> P q \<Longrightarrow> pay_invoiceId q \<noteq> i"
  shows "paidCents i (map (\<lambda>q. if P q then q \<lparr> pay_amount := a \<rparr> else q) ps) = paidCents i ps"
  using assms by (induction ps) (auto simp: paidCents_def)

lemma paidCents_none: "(\<And>p. p \<in> set ps \<Longrightarrow> pay_invoiceId p \<noteq> i) \<Longrightarrow> paidCents i ps = 0"
  by (simp add: paidCents_def filter_False)

lemma pays_unique: "pays_ok L \<Longrightarrow> p \<in> set (lg_pays L) \<Longrightarrow> q \<in> set (lg_pays L) \<Longrightarrow> pay_id q = pay_id p \<Longrightarrow> q = p"
  by (rule key_ok_unique[of pay_id "lg_next L" "lg_pays L"]) (simp_all add: pays_ok_def)

text \<open>The row of one invoice after its payments changed, with a balance the column can hold.\<close>

lemma doc_ok_restated:
  assumes "doc_ok L i r" "inv_status r \<noteq> Inv_draft" "restated ps r r'"
    "\<bar>cents_of (inv_total r) - paidCents i ps\<bar> < 10 ^ 12" "lg_next L \<le> lg_next M" "lg_pays M = ps"
  shows "doc_ok M i r'"
proof -
  have r: "doc_state (inv_status r) (inv_invoiceNumber r \<noteq> None) (inv_voidedAt r \<noteq> None) (inv_total r)
       (inv_amountPaid r) (inv_balance r) (paidCents i (lg_pays L))" "inv_id r = i" "i < lg_next L"
    using assms(1) by (simp_all add: doc_ok_def)
  define c where "c = paidCents i ps"
  have f: "inv_id r' = i" "inv_invoiceNumber r' = inv_invoiceNumber r" "inv_voidedAt r' = inv_voidedAt r"
    "inv_total r' = inv_total r" "inv_amountPaid r' = dollars c" "inv_balance r' = dollars (cents_of (inv_total r) - c)"
    using assms(3) r(2) by (simp_all add: restated_def same_identity_def c_def)
  have n: "inv_invoiceNumber r \<noteq> None" "money_ok (inv_total r)" "\<bar>cents_of (inv_total r) - c\<bar> < 10 ^ 12"
    using r(1) assms(2,4) by (simp_all add: doc_state_def c_def)
  consider "inv_voidedAt r \<noteq> None" "inv_status r' = Inv_void"
    | "inv_voidedAt r = None" "cents_of (inv_total r) \<le> c" "inv_status r' = Inv_paid"
    | "inv_voidedAt r = None" "c < cents_of (inv_total r)" "inv_status r' \<in> {Inv_sent, Inv_partially_paid, Inv_overdue}"
      "inv_status r' = Inv_partially_paid \<longrightarrow> 0 < c"
    using assms(3) f by (auto simp: restated_def split: if_splits)
  then have "doc_state (inv_status r') (inv_invoiceNumber r' \<noteq> None) (inv_voidedAt r' \<noteq> None) (inv_total r')
       (inv_amountPaid r') (inv_balance r') c"
    using f n by cases (auto simp: doc_state_def)
  then show ?thesis using f r assms by (simp add: doc_ok_def c_def)
qed

lemma doc_ok_other:
  assumes "doc_ok L i r" "paidCents i (lg_pays M) = paidCents i (lg_pays L)" "lg_next L \<le> lg_next M"
  shows "doc_ok M i r"
  using assms by (simp add: doc_ok_def)

lemma doc_ok_same_facts: "doc_ok L i r \<Longrightarrow> same_facts r r' \<Longrightarrow> doc_ok L i r'"
  by (simp add: doc_ok_def identity_defs)

lemma docs_ok_update:
  assumes "docs_ok L" "doc_ok M i r" "lg_inv M = (lg_inv L)(i \<mapsto> r)" "lg_next L \<le> lg_next M"
    "\<And>j. j \<noteq> i \<Longrightarrow> paidCents j (lg_pays M) = paidCents j (lg_pays L)"
  shows "docs_ok M"
  unfolding docs_ok_def
proof (intro allI impI)
  fix j q assume q: "lg_inv M j = Some q"
  show "doc_ok M j q"
  proof (cases "j = i")
    case False
    show ?thesis by (rule doc_ok_other[of L]) (use q False assms in \<open>simp_all add: docs_ok_def\<close>)
  qed (use q assms in simp)
qed

lemma draft_unpaid: "pays_ok L \<Longrightarrow> lg_inv L i = Some r \<Longrightarrow> inv_status r = Inv_draft \<Longrightarrow> paidCents i (lg_pays L) = 0"
  by (rule paidCents_none) (auto simp: pays_ok_def)

lemma docs_ok_step:
  assumes step: "ledger_step raises L M" and d: "docs_ok L" and p: "pays_ok L"
  shows "docs_ok M"
  using step
proof cases
  case (frame inv' n)
  have "doc_ok M i r" if "inv' i = Some r" for i r
  proof -
    have "rel_option same_facts (lg_inv L i) (Some r)" using frame(2)[of i] that by simp
    then obtain q where q: "lg_inv L i = Some q" "same_facts q r" by (auto simp: rel_option_Some)
    then have "doc_ok L i q" using d by (simp add: docs_ok_def)
    then have "doc_ok L i r" using q(2) by (rule doc_ok_same_facts)
    then show ?thesis using frame by (auto intro: doc_ok_other)
  qed
  then show ?thesis using frame by (simp add: docs_ok_def)
next
  case (create r)
  have none: "paidCents (inv_id r) (lg_pays L) = 0"
  proof (intro paidCents_none notI)
    fix p assume "p \<in> set (lg_pays L)" "pay_invoiceId p = inv_id r"
    then obtain q where "lg_inv L (inv_id r) = Some q" using p by (auto simp: pays_ok_def)
    then have "inv_id r < lg_next L" using d by (auto simp: docs_ok_def doc_ok_def)
    with create show False by simp
  qed
  have "doc_ok M (inv_id r) r" using create none by (simp add: doc_ok_def doc_state_def money_ok_def)
  then show ?thesis by (rule docs_ok_update[OF d]) (use create in simp_all)
next
  case (drop i r)
  have "paidCents j (filter (\<lambda>p. pay_invoiceId p \<noteq> i) (lg_pays L)) = paidCents j (lg_pays L)" if "j \<noteq> i" for j
    using that unfolding paidCents_def filter_filter
    by (intro arg_cong[where f=sum_list] map_cong filter_cong) auto
  with drop d show ?thesis by (auto simp: docs_ok_def doc_ok_def)
next
  case (issue i r r' y c prefix)
  have "doc_ok L i r" using d issue by (simp add: docs_ok_def)
  then have "doc_ok M i r'" using issue draft_unpaid[OF p issue(2,3)]
    by (simp add: doc_ok_def doc_state_def identity_defs money_ok_def dollars_cents_of)
  then show ?thesis by (rule docs_ok_update[OF d]) (use issue in simp_all)
next
  case (add_line l)
  then show ?thesis using d unfolding docs_ok_def by (auto intro: doc_ok_other[of L])
next
  case (retotal i r r')
  have "doc_ok L i r" using d retotal by (simp add: docs_ok_def)
  then have "doc_ok M i r'" using retotal draft_unpaid[OF p retotal(2,3)]
    by (simp add: doc_ok_def doc_state_def identity_defs money_ok_def)
  then show ?thesis by (rule docs_ok_update[OF d]) (use retotal in simp_all)
next
  case (pay i r p r')
  have r: "doc_ok L i r" using d pay by (simp add: docs_ok_def)
  have "doc_ok M i r'"
  proof (rule doc_ok_restated[OF r])
    show "restated (lg_pays L @ [p]) r r'" by (rule pay)
    have "cents_of (inv_balance r) = cents_of (inv_total r) - paidCents i (lg_pays L)" "\<bar>cents_of (inv_total r) - paidCents i (lg_pays L)\<bar> < 10 ^ 12"
      using r pay(3) by (simp_all add: doc_ok_def doc_state_def live_def)
    then show "\<bar>cents_of (inv_total r) - paidCents i (lg_pays L @ [p])\<bar> < 10 ^ 12" using pay by (simp add: paidCents_append)
  qed (use pay in \<open>simp_all add: live_def\<close>)
  then show ?thesis by (rule docs_ok_update[OF d]) (use pay in \<open>simp_all add: paidCents_append\<close>)
next
  case (unpay p r r')
  let ?ps = "filter (\<lambda>q. pay_id q \<noteq> pay_id p) (lg_pays L)"
  have r: "doc_ok L (pay_invoiceId p) r" using d unpay by (simp add: docs_ok_def)
  have "paidCents (pay_invoiceId p) ?ps \<le> paidCents (pay_invoiceId p) (lg_pays L)"
    using p by (intro paidCents_filter_le) (auto simp: pays_ok_def)
  moreover have "0 \<le> paidCents (pay_invoiceId p) ?ps" using p by (intro paidCents_nonneg) (auto simp: pays_ok_def)
  moreover have "\<bar>cents_of (inv_total r)\<bar> < 10 ^ 12" "\<bar>cents_of (inv_total r) - paidCents (pay_invoiceId p) (lg_pays L)\<bar> < 10 ^ 12"
    using r by (simp_all add: doc_ok_def doc_state_def money_ok_def)
  ultimately have b: "\<bar>cents_of (inv_total r) - paidCents (pay_invoiceId p) ?ps\<bar> < 10 ^ 12" by linarith
  have "inv_status r \<noteq> Inv_draft" using p unpay by (auto simp: pays_ok_def)
  then have "doc_ok M (pay_invoiceId p) r'"
    by (rule doc_ok_restated[OF r _ unpay(4)]) (use unpay b in simp_all)
  then show ?thesis
  proof (rule docs_ok_update[OF d])
    show "paidCents j (lg_pays M) = paidCents j (lg_pays L)" if "j \<noteq> pay_invoiceId p" for j
      using that unpay(1) paidCents_filter_other[of p j "lg_pays L"] pays_unique[OF p unpay(2)] by simp
  qed (use unpay in simp_all)
next
  case (adjust p r a ps r')
  have r: "doc_ok L (pay_invoiceId p) r" using d adjust by (simp add: docs_ok_def)
  have u: "q = p" if "q \<in> set (lg_pays L)" "pay_id q = pay_id p" for q using pays_unique[OF p] adjust that by blast
  have b: "\<bar>cents_of (inv_total r) - paidCents (pay_invoiceId p) ps\<bar> < 10 ^ 12"
    using r adjust(8,9) by (simp add: doc_ok_def restated_def money_ok_def)
  have "inv_status r \<noteq> Inv_draft" using p adjust by (auto simp: pays_ok_def)
  then have "doc_ok M (pay_invoiceId p) r'"
    by (rule doc_ok_restated[OF r _ adjust(8)]) (use adjust(1) b in simp_all)
  then show ?thesis
  proof (rule docs_ok_update[OF d])
    fix j assume "j \<noteq> pay_invoiceId p"
    then have "paidCents j ps = paidCents j (lg_pays L)"
      unfolding adjust by (intro paidCents_lower_other) (use u in blast)
    then show "paidCents j (lg_pays M) = paidCents j (lg_pays L)" using adjust by simp
  qed (use adjust in simp_all)
qed (use d in \<open>auto simp: docs_ok_def doc_ok_def doc_state_def identity_defs live_def\<close>)

lemma restated_draft: "restated ps r r' \<Longrightarrow> inv_status r' \<noteq> Inv_draft \<and> inv_orgId r' = inv_orgId r \<and>
    inv_partnerId r' = inv_partnerId r \<and> inv_id r' = inv_id r \<and> inv_invoiceNumber r' = inv_invoiceNumber r"
  by (auto simp: restated_def same_identity_def split: if_splits)

lemma pays_ok_step:
  assumes step: "ledger_step raises L M" and d: "docs_ok L" and p: "pays_ok L"
  shows "pays_ok M"
  using step
proof cases
  case (frame inv' n)
  have "\<exists>r'. inv' i = Some r' \<and> inv_orgId r' = inv_orgId r \<and> inv_status r' = inv_status r" if "lg_inv L i = Some r" for i r
    using frame(2)[of i] that by (auto simp: rel_option_Some identity_defs)
  with frame p show ?thesis unfolding pays_ok_def by (fastforce intro: key_ok_mono)
next
  case (create r)
  then show ?thesis using p d unfolding pays_ok_def by (fastforce intro: key_ok_mono simp: docs_ok_def doc_ok_def)
next
  case (add_line l)
  then show ?thesis using p unfolding pays_ok_def by (auto intro: key_ok_mono)
next
  case (drop i r)
  then show ?thesis using p key_ok_deleteWhere[of pay_id "lg_next L" "lg_pays L" "\<lambda>p. pay_invoiceId p = i"]
    by (auto simp: pays_ok_def deleteWhere_def)
next
  case (pay i r p r')
  have "key_ok pay_id (Suc (lg_next L)) (insertRow p (lg_pays L))"
    using assms(3) pay by (intro key_ok_insertRow) (simp_all add: pays_ok_def)
  then show ?thesis using pay assms(3) restated_draft[OF pay(10)]
    by (auto simp: pays_ok_def insertRow_def)
next
  case (unpay p r r')
  have "key_ok pay_id (lg_next L) (filter (\<lambda>q. pay_id q \<noteq> pay_id p) (lg_pays L))"
    using key_ok_deleteWhere[of pay_id "lg_next L" "lg_pays L" "\<lambda>q. pay_id q = pay_id p"] assms(3)
    by (simp add: pays_ok_def deleteWhere_def)
  then show ?thesis using unpay assms(3) restated_draft[OF unpay(4)] by (auto simp: pays_ok_def)
next
  case (adjust p r a ps r')
  have "key_ok pay_id (lg_next L) ps"
    using key_ok_updateWhere[of pay_id "lg_next L" "lg_pays L" "\<lambda>q. pay_id q = pay_id p" "\<lambda>q. q \<lparr> pay_amount := a \<rparr>"]
      assms(3) adjust by (simp add: pays_ok_def updateWhere_def)
  then show ?thesis using adjust assms(3) restated_draft[OF adjust(8)] by (auto simp: pays_ok_def)
qed (use p in \<open>auto simp: pays_ok_def identity_defs live_def\<close>)

text \<open>A move that changes one invoice keeps identities; only \<open>drop\<close> removes one.\<close>

lemma lines_ok_update:
  assumes "lines_ok L" "\<And>i r. lg_inv L i = Some r \<Longrightarrow> \<exists>r'. lg_inv M i = Some r' \<and> inv_orgId r' = inv_orgId r"
    "lg_lines M = lg_lines L" "lg_next L \<le> lg_next M"
  shows "lines_ok M"
proof -
  have "il_id l < lg_next M \<and> (\<exists>r. lg_inv M (il_invoiceId l) = Some r \<and> inv_orgId r = il_orgId l)"
    if "l \<in> lg_lines L" for l
  proof -
    obtain r where "lg_inv L (il_invoiceId l) = Some r" "inv_orgId r = il_orgId l" "il_id l < lg_next L"
      using assms(1) \<open>l \<in> lg_lines L\<close> by (auto simp: lines_ok_def)
    then show ?thesis using assms(2)[of "il_invoiceId l" r] assms(4) by auto
  qed
  then show ?thesis using assms(1,3) by (simp add: lines_ok_def)
qed

lemma lines_ok_step:
  assumes step: "ledger_step raises L M" and d: "docs_ok L" and l: "lines_ok L"
  shows "lines_ok M"
  using step
proof cases
  case (frame inv' n)
  have "\<exists>r'. inv' i = Some r' \<and> inv_orgId r' = inv_orgId r" if "lg_inv L i = Some r" for i r
    using frame(2)[of i] that by (auto simp: rel_option_Some identity_defs)
  then show ?thesis using frame by (intro lines_ok_update[OF l]) auto
next
  case (add_line k)
  have "il_id k \<notin> il_id ` lg_lines L" using add_line l by (auto simp: lines_ok_def)
  then have "inj_on il_id (insert k (lg_lines L))" using l by (auto simp: lines_ok_def inj_on_insert)
  then show ?thesis using add_line l unfolding lines_ok_def line_fits_def by (fastforce simp: less_Suc_eq)
next
  case (edit_line k k' r)
  have inj: "inj_on il_id (insert k' (lg_lines L - {k}))" using edit_line l by (auto simp: lines_ok_def inj_on_def)
  have "\<exists>q' \<in> insert k' (lg_lines L - {k}). il_id q' = il_id q \<and> il_invoiceId q' = il_invoiceId q \<and>
      il_parentLineId q' = il_parentLineId q" if "q \<in> lg_lines L" for q
    using that edit_line by (cases "q = k") auto
  note twin = this
  have old: "il_id m < lg_next L" "\<exists>r. lg_inv L (il_invoiceId m) = Some r \<and> inv_orgId r = il_orgId m"
      "il_parentLineId m = Some x \<Longrightarrow>
         \<exists>q \<in> lg_lines L. il_id q = x \<and> il_invoiceId q = il_invoiceId m \<and> il_parentLineId q = None"
    if "m \<in> lg_lines L" for m x using l that by (auto simp: lines_ok_def)
  have "\<exists>m \<in> lg_lines L. il_id m = il_id q \<and> il_invoiceId m = il_invoiceId q \<and> il_orgId m = il_orgId q \<and>
      il_parentLineId m = il_parentLineId q" if "q \<in> insert k' (lg_lines L - {k})" for q
    using that edit_line by auto
  note prior = this
  have "il_id q < lg_next M \<and> (\<exists>r. lg_inv M (il_invoiceId q) = Some r \<and> inv_orgId r = il_orgId q) \<and>
      (\<forall>x. il_parentLineId q = Some x \<longrightarrow>
        (\<exists>w \<in> lg_lines M. il_id w = x \<and> il_invoiceId w = il_invoiceId q \<and> il_parentLineId w = None))"
    if q: "q \<in> lg_lines M" for q
  proof -
    obtain m where m: "m \<in> lg_lines L" "il_id m = il_id q" "il_invoiceId m = il_invoiceId q"
      "il_orgId m = il_orgId q" "il_parentLineId m = il_parentLineId q" using prior[of q] q edit_line(1) by auto
    have "\<exists>w \<in> lg_lines M. il_id w = x \<and> il_invoiceId w = il_invoiceId q \<and> il_parentLineId w = None"
      if x: "il_parentLineId q = Some x" for x
    proof -
      obtain v where v: "v \<in> lg_lines L" "il_id v = x" "il_invoiceId v = il_invoiceId m" "il_parentLineId v = None"
        using old(3)[OF m(1)] m(5) x by auto
      then show ?thesis using twin[OF v(1)] m edit_line(1) by auto
    qed
    then show ?thesis using old(1,2)[OF m(1)] m edit_line(1) by auto
  qed
  then show ?thesis using inj edit_line(1) by (simp add: lines_ok_def)
next
  case (cut_lines D)
  have "inj_on il_id (lg_lines L - D)" using l by (auto simp: lines_ok_def inj_on_def)
  then show ?thesis using cut_lines l unfolding lines_ok_def by simp blast
next
  case (drop i r)
  have "inj_on il_id {k \<in> lg_lines L. il_invoiceId k \<noteq> i}" using l by (auto simp: lines_ok_def inj_on_def)
  then show ?thesis using drop l unfolding lines_ok_def by fastforce
next
  case (create r)
  then show ?thesis using d by (intro lines_ok_update[OF l]) (auto simp: docs_ok_def doc_ok_def)
next
  case (pay i r p r')
  then show ?thesis using restated_draft[OF pay(10)] by (intro lines_ok_update[OF l]) auto
next
  case (unpay p r r')
  then show ?thesis using restated_draft[OF unpay(4)] by (intro lines_ok_update[OF l]) auto
next
  case (adjust p r a ps r')
  then show ?thesis using restated_draft[OF adjust(8)] by (intro lines_ok_update[OF l]) auto
qed (rule lines_ok_update[OF l]; auto simp: identity_defs)+

text \<open>A move that changes neither lines nor what is live keeps the sources.\<close>

lemma sources_lines: "lg_lines M = lg_lines L \<Longrightarrow> sources M = sources L"
  by (simp add: sources_def fun_eq_iff)

lemma sources_okI:
  assumes "\<And>i. sources L i \<subseteq> lg_known L"
    "\<And>l m. l \<in> lg_lines L \<Longrightarrow> m \<in> lg_lines L \<Longrightarrow> il_invoiceId l = il_invoiceId m \<Longrightarrow> sourceOf l = sourceOf m \<Longrightarrow>
       sourceOf l \<noteq> None \<Longrightarrow> l = m"
    "\<And>i r. lg_inv L i = Some r \<Longrightarrow> live r \<Longrightarrow> sources L i \<subseteq> lg_billed L"
    "\<And>i j r q. lg_inv L i = Some r \<Longrightarrow> live r \<Longrightarrow> lg_inv L j = Some q \<Longrightarrow> live q \<Longrightarrow> i \<noteq> j \<Longrightarrow>
       sources L i \<inter> sources L j = {}"
  shows "sources_ok L"
  using assms unfolding sources_ok_def by blast

lemma sources_okD:
  assumes "sources_ok L"
  shows "sources L i \<subseteq> lg_known L"
    and "l \<in> lg_lines L \<Longrightarrow> m \<in> lg_lines L \<Longrightarrow> il_invoiceId l = il_invoiceId m \<Longrightarrow> sourceOf l = sourceOf m \<Longrightarrow>
       sourceOf l \<noteq> None \<Longrightarrow> l = m"
    and "lg_inv L i = Some r \<Longrightarrow> live r \<Longrightarrow> sources L i \<subseteq> lg_billed L"
    and "lg_inv L i = Some r \<Longrightarrow> live r \<Longrightarrow> lg_inv L j = Some q \<Longrightarrow> live q \<Longrightarrow> i \<noteq> j \<Longrightarrow>
       sources L i \<inter> sources L j = {}"
  using assms unfolding sources_ok_def by (simp, simp, simp, metis)

lemma sources_ok_update:
  assumes so: "sources_ok L" and "lg_lines M = lg_lines L" "lg_known L \<subseteq> lg_known M" "lg_billed L \<subseteq> lg_billed M"
    and l: "\<And>i r'. lg_inv M i = Some r' \<Longrightarrow> live r' \<Longrightarrow> \<exists>r. lg_inv L i = Some r \<and> live r"
  shows "sources_ok M"
proof -
  note S = sources_lines[OF assms(2)]
  show ?thesis
  proof (rule sources_okI, unfold S assms(2))
    show "sources L i \<subseteq> lg_known M" for i using sources_okD(1)[OF so] assms(3) by blast
    show "sources L i \<subseteq> lg_billed M" if "lg_inv M i = Some r" "live r" for i r
      using l[OF that] sources_okD(3)[OF so] assms(4) by blast
    show "sources L i \<inter> sources L j = {}"
      if "lg_inv M i = Some r" "live r" "lg_inv M j = Some q" "live q" "i \<noteq> j" for i j r q
      using l[OF that(1,2)] l[OF that(3,4)] that(5) sources_okD(4)[OF so] by blast
  qed (rule sources_okD(2)[OF so])
qed

lemma sources_ok_fewer:
  assumes so: "sources_ok L" and s: "\<And>i. sources M i \<subseteq> sources L i"
    and u: "\<And>l m. l \<in> lg_lines M \<Longrightarrow> m \<in> lg_lines M \<Longrightarrow> il_invoiceId l = il_invoiceId m \<Longrightarrow> sourceOf l = sourceOf m \<Longrightarrow>
       sourceOf l \<noteq> None \<Longrightarrow> l = m"
    and k: "lg_known M = lg_known L" "lg_billed M = lg_billed L"
    and l: "\<And>i r. lg_inv M i = Some r \<Longrightarrow> live r \<Longrightarrow> lg_inv L i = Some r"
  shows "sources_ok M"
proof (rule sources_okI, unfold k)
  show "sources M i \<subseteq> lg_known L" for i using s sources_okD(1)[OF so] by blast
  show "sources M i \<subseteq> lg_billed L" if "lg_inv M i = Some r" "live r" for i r
    using s[of i] sources_okD(3)[OF so l[OF that] that(2)] by blast
  show "sources M i \<inter> sources M j = {}"
    if "lg_inv M i = Some r" "live r" "lg_inv M j = Some q" "live q" "i \<noteq> j" for i j r q
    using s[of i] s[of j] sources_okD(4)[OF so l[OF that(1,2)] that(2) l[OF that(3,4)] that(4,5)] by blast
qed (rule u)

lemma sources_ok_step:
  assumes step: "ledger_step raises L M" and d: "docs_ok L" and p: "pays_ok L" and so: "sources_ok L"
  shows "sources_ok M"
  using step
proof cases
  case (frame inv' n)
  have "\<exists>r. lg_inv L i = Some r \<and> live r" if "inv' i = Some r'" "live r'" for i r'
    using frame(2)[of i] that by (auto simp: rel_option_Some identity_defs live_def)
  then show ?thesis using frame by (intro sources_ok_update[OF so]) auto
next
  case (work K B)
  have S: "sources M = sources L" using work by (intro sources_lines) simp
  show ?thesis
    by (rule sources_okI, unfold S) (use work sources_okD(2,4)[OF so] in \<open>simp_all\<close>)
next
  case (add_line l)
  then obtain r0 where r0: "lg_inv L (il_invoiceId l) = Some r0" "inv_status r0 = Inv_draft"
    by (auto simp: line_fits_def)
  have src: "sources M i = sources L i \<union> {x. i = il_invoiceId l \<and> sourceOf l = Some x}" for i
    using add_line by (auto simp: sources_def)
  have other: "sources M i = sources L i" if "lg_inv L i = Some r" "live r" for i r
    using r0 that by (auto simp: src live_def)
  have new: "m = l" if "m \<in> lg_lines L" "il_invoiceId m = il_invoiceId l" "sourceOf m = sourceOf l" "sourceOf l \<noteq> None" for m
    using that add_line(3) by (auto simp: line_fits_def sources_def)
  show ?thesis
  proof (rule sources_okI)
    show "sources M i \<subseteq> lg_known M" for i
      unfolding src using sources_okD(1)[OF so, of i] add_line(3) by (auto simp: add_line(1) line_fits_def)
    show "x = m" if "x \<in> lg_lines M" "m \<in> lg_lines M" "il_invoiceId x = il_invoiceId m"
      "sourceOf x = sourceOf m" "sourceOf x \<noteq> None" for x m
      using that new[of x] new[of m] sources_okD(2)[OF so, of x m] add_line(1) by (cases "x = l"; cases "m = l") auto
    show "sources M i \<subseteq> lg_billed M" if "lg_inv M i = Some r" "live r" for i r
      using that other sources_okD(3)[OF so] add_line(1) by simp
    show "sources M i \<inter> sources M j = {}"
      if "lg_inv M i = Some r" "live r" "lg_inv M j = Some q" "live q" "i \<noteq> j" for i j r q
      using that other sources_okD(4)[OF so] add_line(1) by simp
  qed
next
  case (edit_line l l' r)
  have fewer: "sources M i \<subseteq> sources L i" for i using edit_line by (auto simp: sources_def)
  have uniq: "x = m" if "x \<in> lg_lines M" "m \<in> lg_lines M" "il_invoiceId x = il_invoiceId m"
      "sourceOf x = sourceOf m" "sourceOf x \<noteq> None" for x m
  proof -
    define prior where "prior q = (if q = l' then l else q)" for q
    have b: "prior q \<in> lg_lines L" "il_invoiceId (prior q) = il_invoiceId q" "sourceOf (prior q) = sourceOf q"
      if "q \<in> lg_lines M" for q using that edit_line by (auto simp: prior_def)
    have "prior x = prior m" using sources_okD(2)[OF so, of "prior x" "prior m"] b that by simp
    then show ?thesis using that(1,2) edit_line(1) by (auto simp: prior_def split: if_splits)
  qed
  show ?thesis by (rule sources_ok_fewer[OF so fewer uniq]) (simp_all add: edit_line(1))
next
  case (cut_lines D)
  then show ?thesis
    by (intro sources_ok_fewer[OF so] sources_okD(2)[OF so]) (auto simp: sources_def)
next
  case (drop i r)
  then show ?thesis
    by (intro sources_ok_fewer[OF so] sources_okD(2)[OF so]) (auto simp: sources_def split: if_splits)
next
  case (issue i r r' y c prefix)
  have S: "sources M = sources L" using issue by (intro sources_lines) simp
  have x: "sources L i \<inter> sources L j = {}" if "lg_inv L j = Some q" "live q" for j q
    using sources_okD(3)[OF so that] issue(4) by blast
  show ?thesis
  proof (rule sources_okI, unfold S)
    show "sources L j \<subseteq> lg_billed M" if "lg_inv M j = Some q" "live q" for j q
      using that issue(1) sources_okD(1)[OF so, of i] sources_okD(3)[OF so, of j] by (cases "j = i") auto
    show "sources L j \<inter> sources L k = {}"
      if "lg_inv M j = Some q" "live q" "lg_inv M k = Some w" "live w" "j \<noteq> k" for j k q w
      using that issue(1) x[of j] x[of k] sources_okD(4)[OF so, of j q k w] by (cases "j = i"; cases "k = i") auto
  qed (use sources_okD(1,2)[OF so] issue(1) in auto)
next
  case (void i r r')
  have S: "sources M = sources L" using void by (intro sources_lines) simp
  have nl: "\<not> live r'" using void by (simp add: live_def)
  show ?thesis
  proof (rule sources_okI, unfold S)
    show "sources L j \<subseteq> lg_billed M" if "lg_inv M j = Some q" "live q" for j q
    proof -
      have "j \<noteq> i" "lg_inv L j = Some q" using that void(1) nl by (auto split: if_splits)
      then show ?thesis
        using sources_okD(3)[OF so, of j q] sources_okD(4)[OF so, of j q i r] that(2) void(1,2,3) by auto
    qed
    show "sources L j \<inter> sources L k = {}"
      if "lg_inv M j = Some q" "live q" "lg_inv M k = Some w" "live w" "j \<noteq> k" for j k q w
      using that void(1) nl sources_okD(4)[OF so, of j q k w] by (auto split: if_splits)
  qed (use sources_okD(1,2)[OF so] void(1) in auto)
next
  case (unpay q r r')
  then have "live r' \<Longrightarrow> live r"
    using d p by (fastforce simp: restated_def live_def docs_ok_def doc_ok_def doc_state_def pays_ok_def split: if_splits)
  then show ?thesis using unpay by (intro sources_ok_update[OF so]) (auto split: if_splits)
next
  case (adjust q r a ps r')
  then have "live r' \<Longrightarrow> live r"
    using d p by (fastforce simp: restated_def live_def docs_ok_def doc_ok_def doc_state_def pays_ok_def split: if_splits)
  then show ?thesis using adjust by (intro sources_ok_update[OF so]) (auto split: if_splits)
qed (rule sources_ok_update[OF so]; auto simp: live_def split: if_splits)+

subsection \<open>Numbers\<close>

lemma last_dash_unique:
  assumes "xs @ d # ys = xs' @ d # ys'" "d \<notin> set ys" "d \<notin> set ys'"
  shows "xs = xs' \<and> ys = ys'"
proof -
  have tw: "takeWhile (\<lambda>c. c \<noteq> d) (rev zs @ d # rev ws) = rev zs" if "d \<notin> set zs" for zs ws
    using that by (subst takeWhile_append2) auto
  have "rev ys @ d # rev xs = rev ys' @ d # rev xs'" using arg_cong[OF assms(1), of rev] by simp
  then have "rev ys = rev ys'" using tw[OF assms(2)] tw[OF assms(3)] by metis
  then show ?thesis using assms(1) by simp
qed

lemma no_dash: "all_digits t \<Longrightarrow> CHR ''-'' \<notin> set t"
  by (auto simp: all_digits_def digit_val_def)

lemma all_digits_pad: "0 \<le> c \<Longrightarrow> all_digits (padStart w (CHR ''0'') (js_String c))"
  using all_digits_js_String[of c] by (auto simp: padStart_def all_digits_def digit_val_def)

lemma number_components:
  assumes "formatInvoiceNumber p y c = formatInvoiceNumber p' y' c'" "0 \<le> y" "0 \<le> c" "0 \<le> y'" "0 \<le> c'"
  shows "y = y' \<and> c = c'"
proof -
  let ?C = "\<lambda>n. padStart 4 (CHR ''0'') (js_String n)"
  have "(p @ CHR ''-'' # js_String y) @ CHR ''-'' # ?C c = (p' @ CHR ''-'' # js_String y') @ CHR ''-'' # ?C c'"
    using assms(1) by (simp add: formatInvoiceNumber_def)
  from last_dash_unique[OF this no_dash[OF all_digits_pad[OF assms(3)]] no_dash[OF all_digits_pad[OF assms(5)]]]
  have e: "p @ CHR ''-'' # js_String y = p' @ CHR ''-'' # js_String y'" and C: "?C c = ?C c'" by simp_all
  from last_dash_unique[OF e no_dash[OF all_digits_js_String[OF assms(2)]] no_dash[OF all_digits_js_String[OF assms(4)]]]
  have "js_String y = js_String y'" by simp
  then have "parse_digits (js_String y) = parse_digits (js_String y')" by simp
  then have "y = y'" using assms by (simp add: js_String_def parse_show_digits)
  moreover have "parse_digits (?C c) = parse_digits (?C c')" using C by simp
  then have "c = c'" using assms by (simp add: parse_padStart0)
  ultimately show ?thesis by simp
qed

lemma numbers_ok_update:
  assumes n: "numbers_ok L" and "lg_seq M = lg_seq L"
    and l: "\<And>i r. lg_inv M i = Some r \<Longrightarrow> inv_invoiceNumber r \<noteq> None \<Longrightarrow>
      \<exists>q. lg_inv L i = Some q \<and> inv_invoiceNumber q = inv_invoiceNumber r \<and> inv_partnerId q = inv_partnerId r"
  shows "numbers_ok M"
  unfolding numbers_ok_def assms(2)
proof (intro conjI allI impI)
  show "0 \<le> lg_seq L k" for k using n by (cases k) (simp add: numbers_ok_def)
  show "\<exists>prefix y c. num = formatInvoiceNumber prefix y c \<and> 0 \<le> y \<and> 1 \<le> c \<and> c \<le> lg_seq L (inv_partnerId r, y)"
    if a: "lg_inv M i = Some r \<and> inv_invoiceNumber r = Some num" for i r num
  proof -
    obtain q where "lg_inv L i = Some q" "inv_invoiceNumber q = Some num" "inv_partnerId q = inv_partnerId r"
      using l[of i r] a by auto
    then show ?thesis using n unfolding numbers_ok_def by metis
  qed
  show "i = j" if a: "lg_inv M i = Some r \<and> lg_inv M j = Some q \<and> inv_partnerId r = inv_partnerId q \<and>
        inv_invoiceNumber r = inv_invoiceNumber q \<and> inv_invoiceNumber r \<noteq> None" for i j r q
  proof -
    obtain r' q' where "lg_inv L i = Some r'" "lg_inv L j = Some q'" "inv_invoiceNumber r' = inv_invoiceNumber r"
      "inv_invoiceNumber q' = inv_invoiceNumber q" "inv_partnerId r' = inv_partnerId r" "inv_partnerId q' = inv_partnerId q"
      using l[of i r] l[of j q] a by metis
    then show ?thesis using n a unfolding numbers_ok_def by metis
  qed
qed

lemma numbers_ok_issue:
  assumes n: "numbers_ok L" and r: "lg_inv L i = Some r" and y: "0 \<le> y" and c: "c = lg_seq L (inv_partnerId r, y) + 1"
    and num: "inv_invoiceNumber r' = Some (formatInvoiceNumber prefix y c)" and p: "inv_partnerId r' = inv_partnerId r"
    and M: "lg_inv M = (lg_inv L)(i \<mapsto> r')" "lg_seq M = (lg_seq L)((inv_partnerId r, y) := c)"
  shows "numbers_ok M"
proof -
  have pos: "0 \<le> lg_seq L k" for k using n by (cases k) (simp add: numbers_ok_def)
  have old: "\<exists>prefix y c. t = formatInvoiceNumber prefix y c \<and> 0 \<le> y \<and> 1 \<le> c \<and> c \<le> lg_seq L (inv_partnerId q, y)"
    if "lg_inv L j = Some q" "inv_invoiceNumber q = Some t" for j q t
    using n that unfolding numbers_ok_def by blast
  have mono: "lg_seq L k \<le> lg_seq M k" for k using M(2) c by auto
  have fresh: "inv_invoiceNumber q \<noteq> inv_invoiceNumber r'"
    if q: "lg_inv L j = Some q" "inv_partnerId q = inv_partnerId r" for j q
  proof
    assume e: "inv_invoiceNumber q = inv_invoiceNumber r'"
    then obtain pre y' c' where 1: "formatInvoiceNumber prefix y c = formatInvoiceNumber pre y' c'" "0 \<le> y'" "1 \<le> c'"
        "c' \<le> lg_seq L (inv_partnerId q, y')"
      using old[of j q] q num by auto
    have "y = y' \<and> c = c'" 
      by (rule number_components[OF 1(1) y _ 1(2)]) (use c pos[of "(inv_partnerId r, y)"] 1(3) in linarith)+
    with 1 c q show False by simp
  qed
  show ?thesis
    unfolding numbers_ok_def
  proof (intro conjI allI impI)
    show "0 \<le> lg_seq M k" for k using pos[of k] mono[of k] by simp
    show "\<exists>prefix y c. t = formatInvoiceNumber prefix y c \<and> 0 \<le> y \<and> 1 \<le> c \<and> c \<le> lg_seq M (inv_partnerId q, y)"
      if a: "lg_inv M j = Some q \<and> inv_invoiceNumber q = Some t" for j q t
    proof (cases "j = i")
      case True
      then have "q = r'" "t = formatInvoiceNumber prefix y c" using a M(1) num by simp_all
      then show ?thesis using M(2) p y c pos[of "(inv_partnerId r, y)"] by (intro exI[of _ prefix] exI[of _ y] exI[of _ c]) simp
    next
      case False
      then have "lg_inv L j = Some q" "inv_invoiceNumber q = Some t" using a M(1) by simp_all
      from old[OF this] show ?thesis using mono order.trans by blast
    qed
    show "j = k" if a: "lg_inv M j = Some q \<and> lg_inv M k = Some w \<and> inv_partnerId q = inv_partnerId w \<and>
        inv_invoiceNumber q = inv_invoiceNumber w \<and> inv_invoiceNumber q \<noteq> None" for j k q w
    proof (rule ccontr)
      assume ne: "j \<noteq> k"
      have o: "lg_inv L x = Some v" if "lg_inv M x = Some v" "x \<noteq> i" for x v using that M(1) by simp
      have i: "v = r'" if "lg_inv M i = Some v" for v using that M(1) by simp
      show False
      proof (cases "j = i")
        case True
        then have "q = r'" "lg_inv L k = Some w" using i o a ne by blast+
        then show False using fresh[of k w] a p by simp
      next
        case False
        then have q: "lg_inv L j = Some q" using o a by blast
        show False
        proof (cases "k = i")
          case True
          then have "w = r'" using i a by blast
          then show False using fresh[OF q] a p by simp
        next
          case False
          then have "lg_inv L k = Some w" using o a by blast
          with q show False using n a ne unfolding numbers_ok_def by blast
        qed
      qed
    qed
  qed
qed

lemma numbers_ok_step:
  assumes step: "ledger_step raises L M" and n: "numbers_ok L"
  shows "numbers_ok M"
  using step
proof cases
  case (frame inv' m)
  have "\<exists>q. lg_inv L i = Some q \<and> inv_invoiceNumber q = inv_invoiceNumber r \<and> inv_partnerId q = inv_partnerId r"
    if "inv' i = Some r" for i r
    using frame(2)[of i] that by (auto simp: rel_option_Some identity_defs)
  then show ?thesis using frame by (intro numbers_ok_update[OF n]) auto
next
  case (issue i r r' y c prefix)
  then show ?thesis by (intro numbers_ok_issue[OF n issue(2)]) (auto simp: identity_defs)
next
  case (pay i r p r')
  then show ?thesis using restated_draft[OF pay(10)] by (intro numbers_ok_update[OF n]) (auto split: if_splits)
next
  case (unpay p r r')
  then show ?thesis using restated_draft[OF unpay(4)] by (intro numbers_ok_update[OF n]) (auto split: if_splits)
next
  case (adjust p r a ps r')
  then show ?thesis using restated_draft[OF adjust(8)] by (intro numbers_ok_update[OF n]) (auto split: if_splits)
qed (rule numbers_ok_update[OF n]; auto simp: identity_defs split: if_splits)+

lemma ledger_ok_step: "ledger_step raises L M \<Longrightarrow> ledger_ok L \<Longrightarrow> ledger_ok M"
  using docs_ok_step pays_ok_step lines_ok_step sources_ok_step numbers_ok_step unfolding ledger_ok_def by simp

lemma ledger_ok_steps: "(ledger_step raises)\<^sup>*\<^sup>* L M \<Longrightarrow> ledger_ok L \<Longrightarrow> ledger_ok M"
  by (induction rule: rtranclp_induct) (auto intro: ledger_ok_step)

lemma ledger_step_mono: "ledger_step False L M \<Longrightarrow> ledger_step raises L M"
  by (induction rule: ledger_step.induct) ((rule ledger_step.intros; (assumption | blast))+)

lemma ledger_steps_mono: "(ledger_step False)\<^sup>*\<^sup>* L M \<Longrightarrow> (ledger_step raises)\<^sup>*\<^sup>* L M"
  by (metis (no_types, lifting) ledger_step_mono mono_rtranclp)

section \<open>No overpayment\<close>

text \<open>No invoice has more payments than its total. Every move keeps this but one that raises a payment.\<close>

definition solvent :: "ledger \<Rightarrow> bool" where
  "solvent L \<longleftrightarrow> (\<forall>i r. lg_inv L i = Some r \<longrightarrow> paidCents i (lg_pays L) \<le> max 0 (cents_of (inv_total r)))"

lemma solvent_update:
  assumes "solvent L" "lg_inv M = (lg_inv L)(i \<mapsto> r)" "paidCents i (lg_pays M) \<le> max 0 (cents_of (inv_total r))"
    "\<And>j. j \<noteq> i \<Longrightarrow> paidCents j (lg_pays M) = paidCents j (lg_pays L)"
  shows "solvent M"
  using assms unfolding solvent_def by (metis fun_upd_apply option.inject)

lemma solvent_step:
  assumes step: "ledger_step False L M" and ok: "ledger_ok L" and so: "solvent L"
  shows "solvent M"
proof -
  have d: "docs_ok L" and p: "pays_ok L" using ok by (simp_all add: ledger_ok_def)
  have le: "paidCents i (lg_pays L) \<le> max 0 (cents_of (inv_total r))" if "lg_inv L i = Some r" for i r
    using so that by (simp add: solvent_def)
  from step show ?thesis
  proof cases
    case (frame inv' n)
    have "paidCents i (lg_pays L) \<le> max 0 (cents_of (inv_total r))" if "inv' i = Some r" for i r
      using frame(2)[of i] that le[of i] by (auto simp: rel_option_Some identity_defs)
    then show ?thesis using frame(1) by (simp add: solvent_def)
  next
    case (create r)
    have "paidCents (inv_id r) (lg_pays L) = 0"
      using p d create(2) by (intro paidCents_none notI) (fastforce simp: pays_ok_def docs_ok_def doc_ok_def)
    then show ?thesis using create by (intro solvent_update[OF so]) auto
  next
    case (retotal i r r')
    then show ?thesis using draft_unpaid[OF p retotal(2,3)] by (intro solvent_update[OF so]) auto
  next
    case (issue i r r' y c prefix)
    then show ?thesis using draft_unpaid[OF p issue(2,3)] by (intro solvent_update[OF so]) auto
  next
    case (drop i r)
    have "paidCents j (lg_pays M) \<le> paidCents j (lg_pays L)" for j
      unfolding drop(1) using p by (simp, intro paidCents_filter_le) (auto simp: pays_ok_def)
    moreover have "lg_inv L j = Some q" if "lg_inv M j = Some q" for j q using that drop(1) by (auto split: if_splits)
    ultimately show ?thesis using le unfolding solvent_def by (meson order_trans)
  next
    case (pay i r q r')
    have "doc_ok L i r" using d pay by (simp add: docs_ok_def)
    then have "cents_of (inv_balance r) = cents_of (inv_total r) - paidCents i (lg_pays L)"
      using pay(3) by (simp add: doc_ok_def doc_state_def live_def)
    then have "paidCents i (lg_pays M) \<le> max 0 (cents_of (inv_total r'))" using pay by (simp add: paidCents_append restated_def)
    then show ?thesis by (rule solvent_update[OF so, rotated]) (use pay in \<open>simp_all add: paidCents_append\<close>)
  next
    case (unpay q r r')
    have "paidCents (pay_invoiceId q) (lg_pays M) \<le> paidCents (pay_invoiceId q) (lg_pays L)"
      unfolding unpay using p by (simp, intro paidCents_filter_le) (auto simp: pays_ok_def)
    then have "paidCents (pay_invoiceId q) (lg_pays M) \<le> max 0 (cents_of (inv_total r'))"
      using le[OF unpay(3)] unpay(4) by (simp add: restated_def)
    then show ?thesis
      by (rule solvent_update[OF so, rotated]) (use unpay(1) paidCents_filter_other pays_unique[OF p unpay(2)] in auto)
  next
    case (adjust q r a ps r')
    have u: "w = q" if "w \<in> set (lg_pays L)" "pay_id w = pay_id q" for w using pays_unique[OF p] adjust that by blast
    have "paidCents (pay_invoiceId q) ps \<le> paidCents (pay_invoiceId q) (lg_pays L)"
      unfolding adjust by (intro paidCents_lower) (use u adjust in blast)
    then have "paidCents (pay_invoiceId q) (lg_pays M) \<le> max 0 (cents_of (inv_total r'))"
      using le[OF adjust(3)] adjust(1,8) by (simp add: restated_def)
    then show ?thesis
    proof (rule solvent_update[OF so, rotated])
      fix j assume "j \<noteq> pay_invoiceId q"
      then have "paidCents j ps = paidCents j (lg_pays L)" unfolding adjust by (intro paidCents_lower_other) (use u in blast)
      then show "paidCents j (lg_pays M) = paidCents j (lg_pays L)" using adjust(1) by simp
    qed (use adjust in simp)
  next
    case (void i r r')
    then show ?thesis using le by (intro solvent_update[OF so]) auto
  next
    case (overdue i r r')
    then show ?thesis using le by (intro solvent_update[OF so]) auto
  qed (use so in \<open>auto simp: solvent_def\<close>)
qed

lemma solvent_steps:
  assumes "(ledger_step False)\<^sup>*\<^sup>* L M" "ledger_ok L" "solvent L"
  shows "solvent M"
  using assms(1)
proof (induction rule: rtranclp_induct)
  case (step K N)
  then show ?case using solvent_step ledger_ok_steps[OF step(1)] assms(2) by blast
qed (rule assms(3))

section \<open>What is final\<close>

text \<open>An issued invoice keeps its parties, number and total, and a void one stays void.\<close>

definition kept :: "invoice \<Rightarrow> invoice \<Rightarrow> bool" where
  "kept r r' \<longleftrightarrow> same_identity r r' \<and> inv_invoiceNumber r' = inv_invoiceNumber r \<and> inv_total r' = inv_total r \<and>
     (inv_status r = Inv_void \<longrightarrow> inv_status r' = Inv_void)"

lemma same_refl [simp]: "same_identity r r" "same_facts r r"
  by (simp_all add: identity_defs)

lemma kept_refl [simp]: "kept r r"
  by (simp add: kept_def)

lemma kept_trans: "kept r q \<Longrightarrow> kept q w \<Longrightarrow> kept r w"
  by (simp add: kept_def same_identity_def)

lemma issued_kept_step:
  assumes "ledger_step raises L M" "ledger_ok L" "lg_inv L i = Some r" "inv_status r \<noteq> Inv_draft"
  shows "\<exists>r'. lg_inv M i = Some r' \<and> kept r r' \<and> inv_status r' \<noteq> Inv_draft"
proof -
  have ok: "doc_ok L i r" using assms by (simp add: ledger_ok_def docs_ok_def)
  then have void: "inv_status r = Inv_void \<longleftrightarrow> inv_voidedAt r \<noteq> None" by (auto simp: doc_ok_def doc_state_def)
  have res: "kept q r' \<and> inv_status r' \<noteq> Inv_draft" if "restated ps q r'" "lg_inv L i = Some q" for ps q r'
    using that assms(3) void by (auto simp: restated_def kept_def split: if_splits)
  show ?thesis using assms(1)
  proof cases
    case (frame inv' n)
    then show ?thesis using frame(2)[of i] assms(3,4) by (auto simp: rel_option_Some kept_def identity_defs)
  next
    case (create q)
    then show ?thesis using ok assms(3,4) by (auto simp: doc_ok_def)
  next
    case (pay j q p r')
    then show ?thesis using res[OF pay(10)] assms(3,4) by (cases "j = i") auto
  next
    case (unpay p q r')
    then show ?thesis using res[OF unpay(4)] assms(3,4) by (cases "pay_invoiceId p = i") auto
  next
    case (adjust p q a ps r')
    then show ?thesis using res[OF adjust(8)] assms(3,4) by (cases "pay_invoiceId p = i") auto
  qed (use assms(3,4) in \<open>auto simp: kept_def live_def\<close>)
qed

lemma issued_kept:
  assumes "(ledger_step raises)\<^sup>*\<^sup>* L M" "ledger_ok L" "lg_inv L i = Some r" "inv_status r \<noteq> Inv_draft"
  shows "\<exists>r'. lg_inv M i = Some r' \<and> kept r r' \<and> inv_status r' \<noteq> Inv_draft"
  using assms(1)
proof (induction rule: rtranclp_induct)
  case base
  then show ?case using assms by auto
next
  case (step K N)
  then obtain q where "lg_inv K i = Some q" "kept r q" "inv_status q \<noteq> Inv_draft" by blast
  moreover have "ledger_ok K" using ledger_ok_steps[OF step(1)] assms(2) by blast
  ultimately show ?case using issued_kept_step[OF step(2)] kept_trans by blast
qed

end
