(* ===== verification/InvoiceRefinement.thy ===== *)
theory InvoiceRefinement
  imports InvoiceLedger "HOL-Library.Multiset"
begin

text \<open>
  Every call of the invoice service is a sequence of ledger moves. \<open>refines s t\<close> says that the
  step from state \<open>s\<close> to state \<open>t\<close> keeps the keys of the tables and is such a sequence; it
  composes, so the proof of a call follows its statements. The locale \<open>ledger_client\<close> is the
  interface a service offers once its steps refine the ledger, and derives what holds in every
  state the service reaches.
\<close>

section \<open>Refinement of the ledger\<close>

text \<open>A card payment and the Stripe object it came from point at each other's invoice.\<close>

definition mappings_ok :: "nat \<Rightarrow> invoice_payment list \<Rightarrow> stripe_payment list \<Rightarrow> bool" where
  "mappings_ok n ps ms \<longleftrightarrow> key_ok sp_id n ms \<and> distinct (map sp_objectId ms) \<and>
     (\<forall>m \<in> set ms. \<forall>k. sp_invoicePaymentId m = Some k \<longrightarrow> (\<exists>p \<in> set ps. pay_id p = k \<and> pay_invoiceId p = sp_invoiceId m))"

definition rows_ok :: "db \<Rightarrow> bool" where
  "rows_ok s \<longleftrightarrow> key_ok inv_id (db_next s) (db_invoices s) \<and> key_ok il_id (db_next s) (db_invoiceLines s) \<and>
     key_ok te_id (db_next s) (db_timeEntries s) \<and> key_ok tp_id (db_next s) (db_ticketParts s) \<and>
     mappings_ok (db_next s) (db_invoicePayments s) (db_stripePayments s)"

definition billing_ok :: "db \<Rightarrow> bool" where
  "billing_ok s \<longleftrightarrow> rows_ok s \<and> ledger_ok (ledgerOf s)"

definition refines_by :: "bool \<Rightarrow> db \<Rightarrow> db \<Rightarrow> bool" where
  "refines_by raises s t \<longleftrightarrow> (billing_ok s \<longrightarrow> rows_ok t \<and> (ledger_step raises)\<^sup>*\<^sup>* (ledgerOf s) (ledgerOf t))"

abbreviation refines :: "db \<Rightarrow> db \<Rightarrow> bool" where
  "refines \<equiv> refines_by False"

lemma mappings_ok_mono: "mappings_ok n ps ms \<Longrightarrow> n \<le> n' \<Longrightarrow> set ps \<subseteq> set ps' \<Longrightarrow> mappings_ok n' ps' ms"
  unfolding mappings_ok_def by (meson key_ok_mono subsetD)

lemma mappings_ok_cascade:
  "mappings_ok n ps ms \<Longrightarrow> mappings_ok n (deleteWhere (\<lambda>p. pay_invoiceId p = i) ps) (deleteWhere (\<lambda>m. sp_invoiceId m = i) ms)"
  unfolding mappings_ok_def
  by (intro conjI key_ok_deleteWhere ballI) (simp, simp add: deleteWhere_def distinct_map_filter, simp add: set_deleteWhere, metis)

lemma mappings_ok_updateWhere:
  assumes "mappings_ok n ps ms" "\<And>m. sp_id (f m) = sp_id m \<and> sp_objectId (f m) = sp_objectId m \<and> sp_invoiceId (f m) = sp_invoiceId m"
    "\<And>m k. m \<in> set ms \<Longrightarrow> sp_invoicePaymentId (if P m then f m else m) = Some k \<Longrightarrow>
       (\<exists>p \<in> set ps'. pay_id p = k \<and> pay_invoiceId p = sp_invoiceId m)"
  shows "mappings_ok n ps' (updateWhere P f ms)"
  using assms by (fastforce simp: mappings_ok_def map_updateWhere set_updateWhere key_ok_updateWhere split: if_splits)

lemma mappings_ok_unlink:
  assumes "mappings_ok n ps ms"
  shows "mappings_ok n (deleteWhere (\<lambda>p. pay_id p = k) ps)
     (updateWhere (\<lambda>m. sp_invoicePaymentId m = Some k) (\<lambda>m. m \<lparr> sp_invoicePaymentId := None \<rparr>) ms)"
proof (rule mappings_ok_updateWhere[OF assms])
  fix m j assume m: "m \<in> set ms" and "sp_invoicePaymentId (if sp_invoicePaymentId m = Some k then m \<lparr> sp_invoicePaymentId := None \<rparr> else m) = Some j"
  then have "sp_invoicePaymentId m = Some j" "j \<noteq> k" by (auto split: if_splits)
  then show "\<exists>p \<in> set (deleteWhere (\<lambda>p. pay_id p = k) ps). pay_id p = j \<and> pay_invoiceId p = sp_invoiceId m"
    using assms m unfolding mappings_ok_def by (metis (mono_tags, lifting) mem_Collect_eq set_deleteWhere)
qed simp

lemma refines_billing_ok: "refines_by raises s t \<Longrightarrow> billing_ok s \<Longrightarrow> billing_ok t"
  using ledger_ok_steps by (auto simp: refines_by_def billing_ok_def)

lemma refines_refl [simp]: "refines_by raises s s"
  by (simp add: refines_by_def billing_ok_def)

lemma refines_trans [trans]:
  assumes "refines_by raises s t" "refines_by raises t u"
  shows "refines_by raises s u"
  unfolding refines_by_def
proof
  assume s: "billing_ok s"
  then have "(ledger_step raises)\<^sup>*\<^sup>* (ledgerOf s) (ledgerOf t)" "billing_ok t"
    using assms(1) refines_billing_ok by (simp_all add: refines_by_def)
  then show "rows_ok u \<and> (ledger_step raises)\<^sup>*\<^sup>* (ledgerOf s) (ledgerOf u)"
    using assms(2) by (auto simp: refines_by_def)
qed

lemma refines_step:
  "(billing_ok s \<Longrightarrow> rows_ok t) \<Longrightarrow> (billing_ok s \<Longrightarrow> ledger_step raises (ledgerOf s) (ledgerOf t)) \<Longrightarrow> refines_by raises s t"
  by (simp add: refines_by_def r_into_rtranclp)

lemma refines_mono: "refines s t \<Longrightarrow> refines_by raises s t"
  by (auto simp: refines_by_def intro: ledger_steps_mono)

lemma refines_fold: "(\<And>x u. x \<in> set xs \<Longrightarrow> refines u (f x u)) \<Longrightarrow> refines s (fold f xs s)"
proof (induction xs arbitrary: s)
  case (Cons x xs)
  have "refines s (f x s)" using Cons.prems by simp
  also have "refines (f x s) (fold f xs (f x s))" using Cons by simp
  finally show ?case by simp
qed simp

subsection \<open>The ledger of an updated state\<close>

lemma ledgerOf_sel [simp]:
  "lg_next (ledgerOf s) = db_next s" "lg_inv (ledgerOf s) = invOf s" "lg_lines (ledgerOf s) = set (db_invoiceLines s)"
  "lg_pays (ledgerOf s) = db_invoicePayments s" "lg_seq (ledgerOf s) = (\<lambda>k. seqValue k (db_invoiceSequences s))"
  "lg_known (ledgerOf s) = knownSources s" "lg_billed (ledgerOf s) = billedSources s"
  by (simp_all add: ledgerOf_def)

text \<open>A state that differs only in tables the ledger does not see.\<close>

definition same_tables :: "db \<Rightarrow> db \<Rightarrow> bool" where
  "same_tables s t \<longleftrightarrow> db_invoices t = db_invoices s \<and> db_invoiceLines t = db_invoiceLines s \<and>
     db_invoicePayments t = db_invoicePayments s \<and> db_invoiceSequences t = db_invoiceSequences s \<and>
     db_timeEntries t = db_timeEntries s \<and> db_ticketParts t = db_ticketParts s \<and> db_stripePayments t = db_stripePayments s"

lemma refines_frame:
  assumes "same_tables s t" "db_next s \<le> db_next t"
  shows "refines s t"
proof (rule refines_step)
  show "rows_ok t" if "billing_ok s"
    using that assms by (auto simp: billing_ok_def rows_ok_def same_tables_def intro: key_ok_mono mappings_ok_mono)
  have "ledger_step False (ledgerOf s) (ledgerOf s \<lparr> lg_inv := invOf s, lg_next := db_next t \<rparr>)"
    using assms(2) by (intro ledger_step.frame) (auto intro: option.rel_refl)
  moreover have "ledgerOf t = ledgerOf s \<lparr> lg_inv := invOf s, lg_next := db_next t \<rparr>"
    using assms(1) by (simp add: ledgerOf_def same_tables_def invOf_def[abs_def] knownSources_def billedSources_def)
  ultimately show "ledger_step False (ledgerOf s) (ledgerOf t)" by simp
qed

lemma ledgerOf_emit [simp]: "ledgerOf (emit e s) = ledgerOf s"
  by (simp add: ledgerOf_def invOf_def[abs_def] knownSources_def billedSources_def)

lemma rows_ok_emit [simp]: "rows_ok (emit e s) = rows_ok s"
  by (simp add: rows_ok_def)

lemma refines_emit [simp]: "refines s (emit e t) = refines s t"
  by (simp add: refines_by_def)

lemma invOf_emit [simp]: "invOf (emit e s) = invOf s"
  by (simp add: invOf_def[abs_def])

lemma getOwned_emit [simp]: "getOwnedInvoiceOr404 i (emit e s) = getOwnedInvoiceOr404 i s"
  by (simp add: getOwnedInvoiceOr404_def)

lemma getOwned_iff [guard_simps]: "getOwnedInvoiceOr404 i s = Inr r \<longleftrightarrow> invOf s i = Some r"
  by (simp add: getOwnedInvoiceOr404_def ofOption_eq_Inr)

lemma invOf_update:
  assumes "\<And>r. inv_id (f r) = inv_id r"
  shows "invOf (updateInvoices i f s) j = (if j = i then map_option f (invOf s i) else invOf s j)"
  using assms selectOne_updateWhere_same[of "\<lambda>r. inv_id r = i" f "db_invoices s"]
    selectOne_updateWhere_other[of "\<lambda>r. inv_id r = i" "\<lambda>r. inv_id r = j" f "db_invoices s"]
  by (auto simp: invOf_def updateInvoices_def)

lemma updateInvoices_sel [simp]:
  "db_next (updateInvoices i f s) = db_next s" "db_invoiceLines (updateInvoices i f s) = db_invoiceLines s"
  "db_invoicePayments (updateInvoices i f s) = db_invoicePayments s"
  "db_invoiceSequences (updateInvoices i f s) = db_invoiceSequences s"
  "db_timeEntries (updateInvoices i f s) = db_timeEntries s" "db_ticketParts (updateInvoices i f s) = db_ticketParts s"
  "db_organizations (updateInvoices i f s) = db_organizations s" "db_partners (updateInvoices i f s) = db_partners s"
  "db_stripePayments (updateInvoices i f s) = db_stripePayments s" "linesOf (updateInvoices i f s) = linesOf s"
  by (simp_all add: updateInvoices_def linesOf_def[abs_def])

lemma ledgerOf_update:
  assumes "invOf s i = Some r" "\<And>q. inv_id (f q) = inv_id q"
  shows "ledgerOf (updateInvoices i f s) = ledgerOf s \<lparr> lg_inv := (invOf s)(i \<mapsto> f r) \<rparr>"
proof -
  have "invOf (updateInvoices i f s) = (invOf s)(i \<mapsto> f r)"
    using assms by (auto simp: fun_eq_iff invOf_update)
  then show ?thesis by (simp add: ledgerOf_def knownSources_def billedSources_def)
qed

lemma rows_ok_update [simp]: "(\<And>r. inv_id (f r) = inv_id r) \<Longrightarrow> rows_ok s \<Longrightarrow> rows_ok (updateInvoices i f s)"
  by (simp add: rows_ok_def updateInvoices_def key_ok_updateWhere)

lemma billing_invOf:
  assumes "billing_ok s" "invOf s i = Some r"
  shows "doc_ok (ledgerOf s) i r"
  using assms by (simp add: billing_ok_def ledger_ok_def docs_ok_def)

lemma invOf_fresh: "billing_ok s \<Longrightarrow> db_next s \<le> i \<Longrightarrow> invOf s i = None"
  using billing_invOf[of s i] by (cases "invOf s i") (auto simp: doc_ok_def)

subsection \<open>Amounts that fit their columns\<close>

lemma cents_ok_toFixed [simp]: "cents_ok (toFixed 2 x)"
proof -
  have "toFixed 2 x = of_int \<lfloor>x * 100 + 1 / 2\<rfloor> / 100" if "0 < x" using that by (simp add: toFixed_def)
  moreover have "toFixed 2 x = of_int (- \<lfloor>- x * 100 + 1 / 2\<rfloor>) / 100" if "x < 0" using that by (simp add: toFixed_def)
  ultimately show ?thesis by (metis cents_ok_0 cents_ok_dec linorder_less_linear toFixed_0)
qed

lemma cents_ok_fromCents [simp]: "cents_ok (fromCents c)"
  by (simp add: fromCents_def)

lemma cents_ok_numeric2 [simp]: "cents_ok (numeric2 v)"
  by (simp add: numeric2_def)

lemma numeric2_cents: "cents_ok v \<Longrightarrow> numeric2 v = v"
  using toFixed_near[of v 2 "cents_of v"] by (simp add: numeric2_def cents_ok_def field_simps)

lemma totals_cents [simp]: "cents_ok (total (computeInvoiceTotals ls r))" "cents_ok (subtotal (computeInvoiceTotals ls r))"
  by (simp_all add: computeInvoiceTotals_def Let_def split: prod.split)

lemma moneyFits_money_ok: "cents_ok v \<Longrightarrow> moneyFits v \<longleftrightarrow> money_ok v"
proof -
  assume c: "cents_ok v"
  then have v: "v = of_int (cents_of v) / 100" by (simp add: cents_ok_def)
  have "\<bar>v\<bar> < 10 ^ 10 \<longleftrightarrow> of_int \<bar>cents_of v\<bar> < (of_int (10 ^ 12) :: rat)" by (subst v) simp
  then have "\<bar>v\<bar> < 10 ^ 10 \<longleftrightarrow> \<bar>cents_of v\<bar> < 10 ^ 12" by (simp only: of_int_less_iff)
  then show ?thesis using c by (simp add: moneyFits_def money_ok_def numeric2_cents)
qed

subsection \<open>Statements\<close>

lemma line_fits_draft: "line_fits (ledgerOf s) l \<Longrightarrow> \<exists>r. invOf s (il_invoiceId l) = Some r \<and> inv_status r = Inv_draft"
  by (auto simp: line_fits_def)

definition draftRow :: "invoice \<Rightarrow> bool" where
  "draftRow r \<longleftrightarrow> inv_status r = Inv_draft \<and> inv_invoiceNumber r = None \<and> inv_voidedAt r = None \<and>
     inv_amountPaid r = 0 \<and> money_ok (inv_total r)"

lemma insertInvoice_eq [guard_simps]:
  "insertInvoice r s = Inr t \<longleftrightarrow> orgOfPartner (inv_orgId r) (inv_partnerId r) s \<and>
     t = s \<lparr> db_next := Suc (db_next s), db_invoices := insertRow r (db_invoices s) \<rparr>"
  by (auto simp: insertInvoice_def guard_simps)

lemma insertLine_eq [guard_simps]:
  "insertLine l s = Inr t \<longleftrightarrow> lineFits l \<and>
     t = s \<lparr> db_next := Suc (db_next s), db_invoiceLines := insertRow l (db_invoiceLines s) \<rparr>"
  by (auto simp: insertLine_def guard_simps)

definition addRow :: "invoice_line \<Rightarrow> db \<Rightarrow> db" where
  "addRow l s = s \<lparr> db_next := Suc (db_next s), db_invoiceLines := insertRow l (db_invoiceLines s) \<rparr>"

lemma ledgerOf_addRow: "ledgerOf (addRow l s) = ledgerOf s \<lparr> lg_next := Suc (db_next s), lg_lines := insert l (set (db_invoiceLines s)) \<rparr>"
  by (simp add: addRow_def ledgerOf_def invOf_def[abs_def] knownSources_def billedSources_def set_insertRow)

lemma refines_addRow:
  assumes "il_id l = db_next s" "line_fits (ledgerOf s) l"
  shows "refines s (addRow l s)"
proof (rule refines_step)
  show "rows_ok (addRow l s)" if "billing_ok s"
    using that assms(1) by (auto simp: billing_ok_def rows_ok_def addRow_def intro: key_ok_insertRow key_ok_mono mappings_ok_mono)
  show "ledger_step False (ledgerOf s) (ledgerOf (addRow l s))"
    using ledger_step.add_line[of l "ledgerOf s"] assms by (simp add: ledgerOf_addRow)
qed

lemma refines_insertLine:
  "insertLine l s = Inr t \<Longrightarrow> il_id l = db_next s \<Longrightarrow> line_fits (ledgerOf s) l \<Longrightarrow> refines s t"
  using refines_addRow by (simp add: insertLine_eq addRow_def)

lemma invOf_insert:
  assumes "billing_ok s" "insertInvoice r s = Inr t" "inv_id r = db_next s"
  shows "invOf t = (invOf s)(inv_id r \<mapsto> r)"
proof
  fix j
  have "selectOne (\<lambda>q. inv_id q = db_next s) (db_invoices s) = None"
    using invOf_fresh[OF assms(1), of "db_next s"] by (simp add: invOf_def)
  then show "invOf t j = ((invOf s)(inv_id r \<mapsto> r)) j"
    using assms by (auto simp: insertInvoice_eq invOf_def selectOne_insertRow split: option.splits)
qed

lemma refines_insertInvoice:
  assumes t: "insertInvoice r s = Inr t" and "inv_id r = db_next s" "draftRow r"
  shows "refines s t"
proof (rule refines_step)
  show "rows_ok t" if "billing_ok s"
    using that assms by (auto simp: insertInvoice_eq billing_ok_def rows_ok_def intro: key_ok_insertRow key_ok_mono mappings_ok_mono)
  assume ok: "billing_ok s"
  have "ledgerOf t = ledgerOf s \<lparr> lg_next := Suc (lg_next (ledgerOf s)), lg_inv := (lg_inv (ledgerOf s))(inv_id r \<mapsto> r) \<rparr>"
    using invOf_insert[OF ok t assms(2)] t by (simp add: ledgerOf_def insertInvoice_eq knownSources_def billedSources_def)
  then show "ledger_step False (ledgerOf s) (ledgerOf t)"
    using ledger_step.create[of r "ledgerOf s"] assms by (simp add: draftRow_def)
qed

lemma draftRow_blank [simp]: "draftRow (blankInvoice i p g now)"
  by (simp add: draftRow_def blankInvoice_def money_ok_def)

lemma blankInvoice_sel [simp]:
  "inv_id (blankInvoice i p g now) = i" "inv_partnerId (blankInvoice i p g now) = p" "inv_orgId (blankInvoice i p g now) = g"
  "inv_status (blankInvoice i p g now) = Inv_draft"
  by (simp_all add: blankInvoice_def)

lemma draftRow_upd [simp]:
  "draftRow (r \<lparr> inv_siteId := a \<rparr>) = draftRow r" "draftRow (r \<lparr> inv_notes := b \<rparr>) = draftRow r"
  "draftRow (r \<lparr> inv_termsAndConditions := b \<rparr>) = draftRow r" "draftRow (r \<lparr> inv_createdBy := c \<rparr>) = draftRow r"
  "draftRow (r \<lparr> inv_replacesInvoiceId := c \<rparr>) = draftRow r" "draftRow (r \<lparr> inv_currencyCode := d \<rparr>) = draftRow r"
  "draftRow (r \<lparr> inv_taxRate := e \<rparr>) = draftRow r"
  by (simp_all add: draftRow_def)

text \<open>Columns of the header the ledger does not see.\<close>

lemma refines_touch:
  assumes "\<And>r. same_facts r (f r)"
  shows "refines s (updateInvoices i f s)"
proof (rule refines_step)
  have id: "inv_id (f r) = inv_id r" for r using assms[of r] by (simp add: identity_defs)
  show "rows_ok (updateInvoices i f s)" if "billing_ok s" using that id by (simp add: billing_ok_def)
  have "rel_option same_facts (invOf s j) (invOf (updateInvoices i f s) j)" for j
    using assms by (cases "invOf s j") (auto simp: invOf_update[OF id])
  from ledger_step.frame[of "ledgerOf s", OF _ order_refl, simplified, OF this]
  show "ledger_step False (ledgerOf s) (ledgerOf (updateInvoices i f s))"
    by (simp add: ledgerOf_def knownSources_def billedSources_def)
qed

lemma refines_recomputeTotals:
  assumes "recomputeInvoiceTotals i ov now s = Inr (u, t)"
  shows "refines s t"
proof (rule refines_step)
  obtain r tot taxRate bal where r: "invOf s i = Some r" "inv_status r = Inv_draft" "money_ok (total tot)"
    and t: "t = updateInvoices i (writeTotals tot taxRate bal now) s"
    using assms moneyFits_money_ok[OF totals_cents(1)]
    unfolding recomputeInvoiceTotals_def Let_def assertDraft_def by (auto simp: guard_simps)
  show "rows_ok t" if "billing_ok s" using that t by (simp add: billing_ok_def writeTotals_def)
  show "ledger_step False (ledgerOf s) (ledgerOf t)"
    unfolding t using ledger_step.retotal[of "ledgerOf s" i r "writeTotals tot taxRate bal now r"] r
    by (simp add: ledgerOf_update[OF r(1)] writeTotals_def same_identity_def)
qed

lemma bindE_InrE: "bindE m f = Inr y \<Longrightarrow> (\<And>x. m = Inr x \<Longrightarrow> f x = Inr y \<Longrightarrow> P) \<Longrightarrow> P"
  by (auto simp: bindE_eq_Inr)

section \<open>Editing drafts\<close>

lemma draftForEdit_eq [guard_simps]:
  "draftForEdit i a s = Inr r \<longleftrightarrow> invOf s i = Some r \<and> inv_status r = Inv_draft \<and> orgAccessible a (inv_orgId r)"
  by (auto simp: draftForEdit_def assertDraft_def requireOrgAccess_def guard_simps)

text \<open>The draft of organization \<open>g\<close> that a call is editing.\<close>

definition isDraft :: "uuid \<Rightarrow> uuid \<Rightarrow> db \<Rightarrow> bool" where
  "isDraft i g s \<longleftrightarrow> (\<exists>r. invOf s i = Some r \<and> inv_status r = Inv_draft \<and> inv_orgId r = g)"

lemma isDraftI: "invOf s i = Some r \<Longrightarrow> inv_status r = Inv_draft \<Longrightarrow> isDraft i (inv_orgId r) s"
  by (auto simp: isDraft_def)

lemma isDraft_lines [simp]: "isDraft i g (s \<lparr> db_next := n, db_invoiceLines := ls \<rparr>) = isDraft i g s"
  by (simp add: isDraft_def invOf_def)

lemma isDraft_recompute:
  assumes "recomputeInvoiceTotals j ov now s = Inr (u, t)" "isDraft i g s"
  shows "isDraft i g t" "db_invoiceLines t = db_invoiceLines s" "db_next t = db_next s"
proof -
  obtain tot taxRate bal where t: "t = updateInvoices j (writeTotals tot taxRate bal now) s"
    using assms(1) unfolding recomputeInvoiceTotals_def Let_def by (auto simp: guard_simps)
  then show "db_invoiceLines t = db_invoiceLines s" "db_next t = db_next s" by simp_all
  have "inv_id (writeTotals tot taxRate bal now q) = inv_id q" for q by (simp add: writeTotals_def)
  then show "isDraft i g t" using assms(2) t by (auto simp: isDraft_def invOf_update writeTotals_def)
qed

lemma line_fits_plain:
  assumes "isDraft (il_invoiceId l) (il_orgId l) s" "sourceOf l = None"
    "\<And>p. il_parentLineId l = Some p \<Longrightarrow> \<exists>q \<in> set (db_invoiceLines s). il_id q = p \<and>
       il_invoiceId q = il_invoiceId l \<and> il_parentLineId q = None"
  shows "line_fits (ledgerOf s) l"
  using assms by (auto simp: line_fits_def isDraft_def)

lemma lineRow_sel [simp]:
  "il_id (lineRow k i g n p) = k" "il_invoiceId (lineRow k i g n p) = i" "il_orgId (lineRow k i g n p) = g"
  "il_parentLineId (lineRow k i g n p) = ls_parentLineId p" "il_sortOrder (lineRow k i g n p) = n"
  "il_sourceType (lineRow k i g n p) = ls_sourceType p" "il_sourceId (lineRow k i g n p) = ls_sourceId p"
  by (simp_all add: lineRow_def)

lemma sourceOf_lineRow:
  "sourceOf (lineRow k i g n p) = None \<longleftrightarrow>
     ls_sourceId p = None \<or> ls_sourceType p \<notin> {Src_time_entry, Src_part}"
  by (auto simp: sourceOf_def split: option.split)

lemma refines_insertLineAndRecompute:
  assumes "insertLineAndRecompute i g p now s = Inr (l, t)" "isDraft i g s"
    "ls_sourceId p = None \<or> ls_sourceType p \<notin> {Src_time_entry, Src_part}" "ls_parentLineId p = None"
  shows "refines s t" "isDraft i g t" "l \<in> set (db_invoiceLines t)" "il_invoiceId l = i" "il_parentLineId l = None"
proof -
  obtain s1 u where s1: "insertLine l s = Inr s1" "recomputeInvoiceTotals i None now s1 = Inr (u, t)"
    and l: "l = lineRow (db_next s) i g (nextSort (linesOf s i)) p"
    using assms(1) unfolding insertLineAndRecompute_def Let_def by (auto simp: bindE_eq_Inr)
  have "refines s s1"
    by (rule refines_insertLine[OF s1(1)])
       (simp_all add: l, rule line_fits_plain, use assms(2-4) in \<open>auto simp: sourceOf_lineRow\<close>)
  also have "refines s1 t" by (rule refines_recomputeTotals[OF s1(2)])
  finally show "refines s t" .
  have "isDraft i g s1" using s1(1) assms(2) by (simp add: insertLine_eq)
  then show "isDraft i g t" "l \<in> set (db_invoiceLines t)"
    using isDraft_recompute[OF s1(2)] s1(1) by (auto simp: insertLine_eq set_insertRow)
  show "il_invoiceId l = i" "il_parentLineId l = None" using l assms(4) by simp_all
qed

lemma refines_createManualInvoice:
  assumes "createManualInvoice orgId siteId notes tc a now s = Inr (r, t)"
  shows "refines s t"
  using assms unfolding createManualInvoice_def Let_def
  by (auto simp del: insertInvoice_eq simp: bindE_eq_Inr intro!: refines_insertInvoice)

lemma refines_addManualLine: "addManualLine i input a now s = Inr (l, t) \<Longrightarrow> refines s t"
  unfolding addManualLine_def
  by (auto simp: guard_simps intro: isDraftI elim!: refines_insertLineAndRecompute(1))

lemma refines_addCatalogLine: "addCatalogLine i c qty a now s = Inr (l, t) \<Longrightarrow> refines s t"
  unfolding addCatalogLine_def Let_def
  by (auto simp: guard_simps intro: isDraftI elim!: refines_insertLineAndRecompute(1))

lemma refines_addContractLine: "addContractLine i input a now s = Inr (l, t) \<Longrightarrow> refines s t"
  unfolding addContractLine_def
  by (auto simp: guard_simps intro: isDraftI elim!: refines_insertLineAndRecompute(1))

lemma bundleChild_step:
  assumes "bundleChild i g parent c s = Inr t" "isDraft i g s" "parent \<in> set (db_invoiceLines s)"
    "il_invoiceId parent = i" "il_parentLineId parent = None"
  shows "refines s t \<and> isDraft i g t \<and> parent \<in> set (db_invoiceLines t)"
proof -
  have "refines s t"
    by (rule refines_insertLine[OF assms(1)[unfolded bundleChild_def]])
       (use assms(2-5) in \<open>auto simp: sourceOf_lineRow intro!: line_fits_plain bexI[of _ parent]\<close>)
  then show ?thesis using assms by (auto simp: bundleChild_def insertLine_eq set_insertRow)
qed

lemma bundleChildren_step:
  assumes "foldE (bundleChild i g parent) cs s = Inr t" "isDraft i g s" "parent \<in> set (db_invoiceLines s)"
    "il_invoiceId parent = i" "il_parentLineId parent = None"
  shows "refines s t"
proof -
  have "refines s t \<and> isDraft i g t \<and> parent \<in> set (db_invoiceLines t)"
  proof (rule foldE_invariant[OF assms(1)])
    show "refines s s \<and> isDraft i g s \<and> parent \<in> set (db_invoiceLines s)" using assms by simp
    fix c u v
    assume "refines s u \<and> isDraft i g u \<and> parent \<in> set (db_invoiceLines u)" "bundleChild i g parent c u = Inr v"
    then show "refines s v \<and> isDraft i g v \<and> parent \<in> set (db_invoiceLines v)"
      using bundleChild_step[of i g parent c u v] assms(4,5) refines_trans by blast
  qed
  then show ?thesis by simp
qed

lemma refines_addBundleLine:
  assumes "addBundleLine i b qty a now s = Inr (l, t)"
  shows "refines s t"
proof -
  obtain r econ s1 s2 u where r: "invOf s i = Some r" "inv_status r = Inv_draft"
    and s1: "insertLineAndRecompute i (inv_orgId r) (bundleParentSpec b qty econ (itemOf s b)) now s = Inr (l, s1)"
    and s2: "foldE (bundleChild i (inv_orgId r) l) (bundleJoin b s1) s1 = Inr s2"
    and t: "recomputeInvoiceTotals i None now s2 = Inr (u, t)"
    using assms unfolding addBundleLine_def by (auto simp: guard_simps)
  note d = isDraftI[OF r]
  note st = refines_insertLineAndRecompute[OF s1 d, simplified bundleParentSpec_def, simplified]
  have "refines s s1" by (rule st)
  also have "refines s1 s2" by (rule bundleChildren_step[OF s2 st(2-5)])
  also have "refines s2 t" by (rule refines_recomputeTotals[OF t])
  finally show ?thesis .
qed

lemma billing_linesD:
  assumes "billing_ok s" "l \<in> set (db_invoiceLines s)"
  shows "\<exists>r. invOf s (il_invoiceId l) = Some r \<and> inv_orgId r = il_orgId l"
    and "il_parentLineId l = Some p \<Longrightarrow> \<exists>q \<in> set (db_invoiceLines s). il_id q = p \<and> il_invoiceId q = il_invoiceId l \<and>
        il_parentLineId q = None"
    and "m \<in> set (db_invoiceLines s) \<Longrightarrow> il_id m = il_id l \<Longrightarrow> m = l"
  using assms by (auto simp: billing_ok_def ledger_ok_def lines_ok_def inj_on_def)

lemma refines_updateLine:
  assumes "updateLine i lineId patch a now s = Inr (r', t)"
  shows "refines s t"
proof -
  obtain r e u where r: "invOf s i = Some r" "inv_status r = Inv_draft"
    and e: "selectOne (\<lambda>l. il_id l = lineId \<and> il_invoiceId l = i) (db_invoiceLines s) = Some e"
    and t: "recomputeInvoiceTotals i None now
      (s \<lparr> db_invoiceLines := updateWhere (\<lambda>l. il_id l = lineId) (patchLine patch e) (db_invoiceLines s) \<rparr>) = Inr (u, t)"
    using assms unfolding updateLine_def by (auto simp: guard_simps)
  define f where "f = patchLine patch e"
  define s1 where "s1 = s \<lparr> db_invoiceLines := updateWhere (\<lambda>l. il_id l = lineId) f (db_invoiceLines s) \<rparr>"
  have f: "il_id (f l) = il_id l \<and> il_invoiceId (f l) = il_invoiceId l \<and> il_orgId (f l) = il_orgId l \<and>
        il_parentLineId (f l) = il_parentLineId l \<and> sourceOf (f l) = sourceOf l" for l
    by (simp add: f_def patchLine_def Let_def sourceOf_def split: option.split)
  have "refines s s1"
  proof (rule refines_step)
    show "rows_ok s1" if "billing_ok s"
      using that f by (auto simp: s1_def billing_ok_def rows_ok_def intro: key_ok_updateWhere)
    assume ok: "billing_ok s"
    have ee: "e \<in> set (db_invoiceLines s)" "il_id e = lineId" "il_invoiceId e = i" using selectOne_Some[OF e] by auto
    have "set (updateWhere (\<lambda>l. il_id l = lineId) f (db_invoiceLines s)) = insert (f e) (set (db_invoiceLines s) - {e})"
    proof -
      have "il_id l = lineId \<longleftrightarrow> l = e" if "l \<in> set (db_invoiceLines s)" for l
        using that billing_linesD(3)[OF ok ee(1)] ee(2) by auto
      then have "set (updateWhere (\<lambda>l. il_id l = lineId) f (db_invoiceLines s)) =
          (\<lambda>l. if l = e then f e else l) ` set (db_invoiceLines s)"
        unfolding set_updateWhere by (intro image_cong) auto
      then show ?thesis using ee(1) by auto
    qed
    then have "ledgerOf s1 = ledgerOf s \<lparr> lg_lines := insert (f e) (lg_lines (ledgerOf s) - {e}) \<rparr>"
      by (simp add: s1_def ledgerOf_def invOf_def[abs_def] knownSources_def billedSources_def)
    then show "ledger_step False (ledgerOf s) (ledgerOf s1)"
      using ledger_step.edit_line[of e "ledgerOf s" "f e" r] ee f r by simp
  qed
  also have "refines s1 t" using refines_recomputeTotals[OF t] by (simp add: s1_def f_def)
  finally show ?thesis .
qed

lemma refines_deleteLine:
  assumes r: "invOf s i = Some r" "inv_status r = Inv_draft"
  shows "refines s (s \<lparr> db_invoiceLines := deleteLine i lineId (db_invoiceLines s) \<rparr>)" (is "refines s ?t")
proof (cases "selectOne (\<lambda>l. il_id l = lineId \<and> il_invoiceId l = i) (db_invoiceLines s)")
  case None
  then show ?thesis by (simp add: deleteLine_def)
next
  case (Some e)
  then have e: "e \<in> set (db_invoiceLines s)" "il_id e = lineId" "il_invoiceId e = i" by (auto dest: selectOne_Some)
  let ?D = "{l \<in> set (db_invoiceLines s). il_id l = lineId \<or> il_parentLineId l = Some lineId}"
  show ?thesis
  proof (rule refines_step)
    show "rows_ok ?t" if "billing_ok s"
      using that by (auto simp: billing_ok_def rows_ok_def deleteLine_def intro: key_ok_deleteWhere)
    assume ok: "billing_ok s"
    have D: "il_invoiceId l = i" if l: "l \<in> ?D" for l
    proof (cases "il_id l = lineId")
      case True
      then have "l = e" using l e billing_linesD(3)[OF ok e(1), of l] by simp
      then show ?thesis using e by simp
    next
      case False
      then obtain q where "q \<in> set (db_invoiceLines s)" "il_id q = lineId" "il_invoiceId q = il_invoiceId l"
        using l billing_linesD(2)[OF ok, of l lineId] by auto
      then show ?thesis using e billing_linesD(3)[OF ok e(1), of q] by simp
    qed
    have "ledger_step False (ledgerOf s) (ledgerOf s \<lparr> lg_lines := lg_lines (ledgerOf s) - ?D \<rparr>)"
    proof (rule ledger_step.cut_lines)
      show "\<exists>r. lg_inv (ledgerOf s) (il_invoiceId l) = Some r \<and> inv_status r = Inv_draft" if "l \<in> ?D" for l
        using D[OF that] r by simp
      show "l \<in> ?D" if h: "l \<in> lg_lines (ledgerOf s)" "il_parentLineId l = Some (il_id q)" "q \<in> lg_lines (ledgerOf s)" "q \<in> ?D" for l q
      proof (cases "il_id q = lineId")
        case False
        then have "il_parentLineId q = Some lineId" using h by simp
        moreover obtain v where "v \<in> set (db_invoiceLines s)" "il_id v = il_id q" "il_parentLineId v = None"
          using h billing_linesD(2)[OF ok, of l "il_id q"] by auto
        ultimately show ?thesis using billing_linesD(3)[OF ok, of q v] h by simp
      qed (use h in simp)
    qed
    moreover have "ledgerOf ?t = ledgerOf s \<lparr> lg_lines := lg_lines (ledgerOf s) - ?D \<rparr>"
      using Some by (auto simp: ledgerOf_def deleteLine_def set_deleteWhere invOf_def[abs_def] knownSources_def billedSources_def)
    ultimately show "ledger_step False (ledgerOf s) (ledgerOf ?t)" by simp
  qed
qed

lemma refines_removeLine:
  assumes "removeLine i lineId a now s = Inr (r', t)"
  shows "refines s t"
proof -
  obtain r u where r: "invOf s i = Some r" "inv_status r = Inv_draft"
    and t: "recomputeInvoiceTotals i None now (s \<lparr> db_invoiceLines := deleteLine i lineId (db_invoiceLines s) \<rparr>) = Inr (u, t)"
    using assms unfolding removeLine_def by (auto simp: guard_simps)
  show ?thesis by (rule refines_trans[OF refines_deleteLine[OF r] refines_recomputeTotals[OF t]])
qed

subsection \<open>Deleting a draft, editing its header, settings\<close>

lemma refines_touchWhere:
  assumes "\<And>r. same_facts r (f r)"
  shows "refines s (s \<lparr> db_invoices := updateWhere P f (db_invoices s) \<rparr>)" (is "refines s ?t")
proof (rule refines_step)
  have id: "inv_id (f r) = inv_id r" for r using assms[of r] by (simp add: identity_defs)
  show "rows_ok ?t" if "billing_ok s" using that id by (simp add: billing_ok_def rows_ok_def key_ok_updateWhere)
  have "rel_option same_facts (invOf s j) (invOf ?t j)" for j
    using assms by (cases "invOf s j") (simp_all add: invOf_def selectOne_updateWhere id)
  from ledger_step.frame[of "ledgerOf s", OF _ order_refl, simplified, OF this]
  show "ledger_step False (ledgerOf s) (ledgerOf ?t)"
    by (simp add: ledgerOf_def knownSources_def billedSources_def)
qed

lemma same_tablesI:
  "db_invoices t = db_invoices s \<Longrightarrow> db_invoiceLines t = db_invoiceLines s \<Longrightarrow>
   db_invoicePayments t = db_invoicePayments s \<Longrightarrow> db_invoiceSequences t = db_invoiceSequences s \<Longrightarrow>
   db_timeEntries t = db_timeEntries s \<Longrightarrow> db_ticketParts t = db_ticketParts s \<Longrightarrow>
   db_stripePayments t = db_stripePayments s \<Longrightarrow> same_tables s t"
  by (simp add: same_tables_def)

lemma refines_dropRows:
  assumes r: "invOf s i = Some r" "inv_status r = Inv_draft"
  shows "refines s (s \<lparr> db_invoices := deleteWhere (\<lambda>r. inv_id r = i) (db_invoices s),
     db_invoiceLines := deleteWhere (\<lambda>l. il_invoiceId l = i) (db_invoiceLines s),
     db_invoicePayments := deleteWhere (\<lambda>p. pay_invoiceId p = i) (db_invoicePayments s) ,
     db_stripePayments := deleteWhere (\<lambda>m. sp_invoiceId m = i) (db_stripePayments s) \<rparr>)" (is "refines s ?t")
proof (rule refines_step)
  show "rows_ok ?t" if "billing_ok s" using that by (simp add: billing_ok_def rows_ok_def key_ok_deleteWhere mappings_ok_cascade)
  have "invOf ?t = (invOf s)(i := None)"
    by (auto simp: fun_eq_iff invOf_def intro: selectOne_deleteWhere_other)
  then have "ledgerOf ?t = ledgerOf s \<lparr> lg_inv := (lg_inv (ledgerOf s))(i := None),
      lg_lines := {l \<in> lg_lines (ledgerOf s). il_invoiceId l \<noteq> i},
      lg_pays := filter (\<lambda>p. pay_invoiceId p \<noteq> i) (lg_pays (ledgerOf s)) \<rparr>"
    by (simp add: ledgerOf_def set_deleteWhere knownSources_def billedSources_def) (simp add: deleteWhere_def)
  then show "ledger_step False (ledgerOf s) (ledgerOf ?t)" using ledger_step.drop[of "ledgerOf s" i r] r by simp
qed

lemma refines_deleteInvoiceRow:
  assumes "invOf s i = Some r" "inv_status r = Inv_draft"
  shows "refines s (deleteInvoiceRow i s)"
proof -
  let ?a = "s \<lparr> db_invoices := deleteWhere (\<lambda>r. inv_id r = i) (db_invoices s),
     db_invoiceLines := deleteWhere (\<lambda>l. il_invoiceId l = i) (db_invoiceLines s),
     db_invoicePayments := deleteWhere (\<lambda>p. pay_invoiceId p = i) (db_invoicePayments s) ,
     db_stripePayments := deleteWhere (\<lambda>m. sp_invoiceId m = i) (db_stripePayments s) \<rparr>"
  let ?b = "?a \<lparr> db_invoices := updateWhere (\<lambda>r. inv_replacedByInvoiceId r = Some i) (\<lambda>r. r \<lparr> inv_replacedByInvoiceId := None \<rparr>) (db_invoices ?a) \<rparr>"
  let ?c = "?b \<lparr> db_invoices := updateWhere (\<lambda>r. inv_replacesInvoiceId r = Some i) (\<lambda>r. r \<lparr> inv_replacesInvoiceId := None \<rparr>) (db_invoices ?b) \<rparr>"
  have "refines s ?a" by (rule refines_dropRows[OF assms])
  also have "refines ?a ?b" by (rule refines_touchWhere) (simp add: identity_defs)
  also have "refines ?b ?c" by (rule refines_touchWhere) (simp add: identity_defs)
  also have "refines ?c (deleteInvoiceRow i s)"
    by (rule refines_frame) (simp_all add: deleteInvoiceRow_def same_tables_def)
  finally show ?thesis .
qed

lemma refines_deleteDraftInvoice: "deleteDraftInvoice i a s = Inr (u, t) \<Longrightarrow> refines s t"
  unfolding deleteDraftInvoice_def by (auto simp: guard_simps intro: refines_deleteInvoiceRow)

lemma refines_updateInvoice: "updateInvoice i patch a now s = Inr (r, t) \<Longrightarrow> refines s t"
  unfolding updateInvoice_def Let_def
  by (auto simp: guard_simps intro!: refines_touch simp: identity_defs)

lemma refines_updatePartnerBillingSettings: "updatePartnerBillingSettings patch a s = Inr (r, t) \<Longrightarrow> refines s t"
  unfolding updatePartnerBillingSettings_def Let_def
  by (auto simp: guard_simps intro!: refines_frame simp: same_tables_def)

lemma refines_updateOrgBillingSettings: "updateOrgBillingSettings g patch a s = Inr (r, t) \<Longrightarrow> refines s t"
  unfolding updateOrgBillingSettings_def Let_def
  by (auto simp: guard_simps intro!: refines_frame simp: same_tables_def)

lemma refines_markViewed:
  assumes "markViewed i g now s = Inr (u, t)"
  shows "refines s t"
proof -
  let ?s1 = "updateInvoices i (\<lambda>r. r \<lparr> inv_viewedAt := Some now,
                inv_firstViewedAt := (case inv_firstViewedAt r of None \<Rightarrow> Some now | Some v \<Rightarrow> Some v) \<rparr>) s"
  have "\<exists>e. t = ?s1 \<or> t = emit e ?s1"
    using assms unfolding markViewed_def Let_def by (auto simp: bindE_eq_Inr split: if_splits)
  moreover have "refines s ?s1" by (rule refines_touch) (simp add: identity_defs)
  ultimately show ?thesis by auto
qed

section \<open>Assembly from unbilled work\<close>

definition specSource :: "line_spec \<Rightarrow> source option" where
  "specSource p = sourceOf (lineRow 0 0 0 0 p)"

lemma sourceOf_lineRow_spec [simp]: "sourceOf (lineRow k i g n p) = specSource p"
  by (simp add: specSource_def sourceOf_def split: option.split)

lemma refines_materializeLines:
  assumes "materializeLines i g ps n s = Inr t" "isDraft i g s" "distinct (map specSource ps)"
    "\<And>p. p \<in> set ps \<Longrightarrow> ls_parentLineId p = None \<and>
       (\<exists>x. specSource p = Some x \<and> x \<in> knownSources s \<and> x \<notin> sources (ledgerOf s) i)"
  shows "refines s t"
  using assms
proof (induction ps arbitrary: n s)
  case (Cons p ps)
  define l where "l = lineRow (db_next s) i g n p"
  obtain s1 where s1: "insertLine l s = Inr s1" and t: "materializeLines i g ps (n + 1) s1 = Inr t"
    using Cons.prems(1) by (auto simp: bindE_eq_Inr l_def)
  have e: "s1 = addRow l s" using s1 by (simp add: insertLine_eq addRow_def)
  obtain x where x: "specSource p = Some x" "x \<in> knownSources s" "x \<notin> sources (ledgerOf s) i" "ls_parentLineId p = None"
    using Cons.prems(4)[of p] by auto
  have src: "sources (ledgerOf s1) i = insert x (sources (ledgerOf s) i)"
    using x by (auto simp: e ledgerOf_addRow sources_def l_def)
  have "refines s s1"
    by (rule refines_insertLine[OF s1]) (use Cons.prems(2) x in \<open>auto simp: l_def line_fits_def isDraft_def\<close>)
  also have "refines s1 t"
  proof (rule Cons.IH[OF t])
    show "isDraft i g s1" using Cons.prems(2) by (simp add: e addRow_def)
    show "ls_parentLineId q = None \<and> (\<exists>x. specSource q = Some x \<and> x \<in> knownSources s1 \<and> x \<notin> sources (ledgerOf s1) i)"
      if "q \<in> set ps" for q
    proof -
      have "specSource p \<notin> specSource ` set ps" using Cons.prems(3) by simp
      then have "specSource q \<noteq> specSource p" using that by (metis imageI)
      then show ?thesis using Cons.prems(4)[of q] that x(1) by (auto simp: src) (auto simp: e addRow_def knownSources_def)
    qed
  qed (use Cons.prems(3) in simp)
  finally show ?case .
qed simp

lemma specSource_time [simp]: "specSource (timeEntryToLineSpec r) = Some (TimeSource (te_id r))"
  and specSource_part [simp]: "specSource (ticketPartToLineSpec r') = Some (PartSource (tp_id r'))"
  by (simp_all add: specSource_def sourceOf_def timeEntryToLineSpec_def ticketPartToLineSpec_def Let_def lineRow_def)

lemma spec_parent [simp]: "ls_parentLineId (timeEntryToLineSpec r) = None" "ls_parentLineId (ticketPartToLineSpec r') = None"
  by (simp_all add: timeEntryToLineSpec_def ticketPartToLineSpec_def Let_def)

lemma assembled_specs:
  assumes "rows_ok s"
    and ps: "ps = map timeEntryToLineSpec (selectWhere P (db_timeEntries s)) @ map ticketPartToLineSpec (selectWhere Q (db_ticketParts s))"
  shows "distinct (map specSource ps)"
    and "p \<in> set ps \<Longrightarrow> ls_parentLineId p = None \<and> (\<exists>x. specSource p = Some x \<and> x \<in> knownSources s)"
proof -
  have d: "distinct (map te_id (selectWhere P (db_timeEntries s)))" "distinct (map tp_id (selectWhere Q (db_ticketParts s)))"
    using assms(1) by (auto simp: rows_ok_def key_ok_def selectWhere_def intro: distinct_map_filter)
  have "distinct (map (\<lambda>x. Some (TimeSource x)) (map te_id (selectWhere P (db_timeEntries s))))"
    "distinct (map (\<lambda>x. Some (PartSource x)) (map tp_id (selectWhere Q (db_ticketParts s))))"
    using d by (auto simp: distinct_map inj_on_def)
  then show "distinct (map specSource ps)" by (auto simp: ps comp_def)
  show "p \<in> set ps \<Longrightarrow> ls_parentLineId p = None \<and> (\<exists>x. specSource p = Some x \<and> x \<in> knownSources s)"
    by (auto simp: ps knownSources_def set_selectWhere)
qed

lemma sources_fresh: "billing_ok s \<Longrightarrow> sources (ledgerOf s) (db_next s) = {}"
  using billing_linesD(1) invOf_fresh[of s "db_next s"] by (fastforce simp: sources_def)

lemma refines_assembleDraft:
  assumes "assembleDraft p g site ps a now s = Inr (v, t)"
    and ps: "ps = map timeEntryToLineSpec (selectWhere P (db_timeEntries s)) @ map ticketPartToLineSpec (selectWhere Q (db_ticketParts s))"
  shows "refines s t"
  unfolding refines_by_def
proof
  assume ok: "billing_ok s"
  define r where "r = (blankInvoice (db_next s) p g now) \<lparr> inv_siteId := site, inv_createdBy := a_userId a \<rparr>"
  obtain s1 s2 u where s1: "insertInvoice r s = Inr s1" and s2: "materializeLines (db_next s) g ps 0 s1 = Inr s2"
    and t: "recomputeInvoiceTotals (db_next s) None now s2 = Inr (u, t)"
    using assms(1) unfolding assembleDraft_def Let_def by (auto simp: bindE_eq_Inr r_def)
  have r: "inv_id r = db_next s" "draftRow r" by (simp_all add: r_def)
  have "refines s s1" by (rule refines_insertInvoice[OF s1 r])
  also have "refines s1 s2"
  proof (rule refines_materializeLines[OF s2])
    show "isDraft (db_next s) g s1" using invOf_insert[OF ok s1 r(1)] by (simp add: isDraft_def r_def)
    have e: "db_invoiceLines s1 = db_invoiceLines s" "knownSources s1 = knownSources s"
      using s1 by (simp_all add: insertInvoice_eq knownSources_def)
    then have "sources (ledgerOf s1) (db_next s) = {}" using sources_fresh[OF ok] by (simp add: sources_def)
    then show "ls_parentLineId q = None \<and> (\<exists>x. specSource q = Some x \<and> x \<in> knownSources s1 \<and> x \<notin> sources (ledgerOf s1) (db_next s))"
      if "q \<in> set ps" for q
      using assembled_specs(2)[OF _ ps that] ok e by (auto simp: billing_ok_def)
    show "distinct (map specSource ps)" using assembled_specs(1)[OF _ ps] ok by (simp add: billing_ok_def)
  qed
  also have "refines s2 t" by (rule refines_recomputeTotals[OF t])
  finally show "rows_ok t \<and> (ledger_step False)\<^sup>*\<^sup>* (ledgerOf s) (ledgerOf t)" using ok by (simp add: refines_by_def)
qed

lemma refines_assembleDraftFromOrg: "assembleDraftFromOrg g site from to a now s = Inr (v, t) \<Longrightarrow> refines s t"
  unfolding assembleDraftFromOrg_def gatherOrgTimeEntries_def gatherOrgParts_def
  by (auto simp: bindE_eq_Inr intro: refines_assembleDraft[OF _ refl])

lemma refines_assembleDraftFromTicket: "assembleDraftFromTicket k a now s = Inr (v, t) \<Longrightarrow> refines s t"
  unfolding assembleDraftFromTicket_def gatherTicketBillables_def
  by (auto simp: bindE_eq_Inr intro: refines_assembleDraft[OF _ refl])

section \<open>Issuing and voiding\<close>

lemma set_timeIdsOf: "set (timeIdsOf ls) = {x. \<exists>l \<in> set ls. il_sourceType l = Src_time_entry \<and> il_sourceId l = Some x}"
  and set_partIdsOf: "set (partIdsOf ls) = {x. \<exists>l \<in> set ls. il_sourceType l = Src_part \<and> il_sourceId l = Some x}"
  by (auto simp: timeIdsOf_def partIdsOf_def split: option.splits)

lemma sourceOf_eq:
  "sourceOf l = Some x \<longleftrightarrow>
     (\<exists>k. il_sourceId l = Some k \<and>
       (il_sourceType l = Src_time_entry \<and> x = TimeSource k \<or> il_sourceType l = Src_part \<and> x = PartSource k))"
  by (auto simp: sourceOf_def split: option.splits if_splits)

lemma sources_linesOf:
  "sources (ledgerOf s) i = TimeSource ` set (timeIdsOf (linesOf s i)) \<union> PartSource ` set (partIdsOf (linesOf s i))"
  unfolding sources_def sourceOf_eq set_timeIdsOf set_partIdsOf by (auto simp: linesOf_def set_selectWhere)

lemma setSources_sel [simp]:
  "db_next (setSources st ts ps now s) = db_next s" "db_invoices (setSources st ts ps now s) = db_invoices s"
  "db_invoiceLines (setSources st ts ps now s) = db_invoiceLines s"
  "db_invoicePayments (setSources st ts ps now s) = db_invoicePayments s"
  "db_invoiceSequences (setSources st ts ps now s) = db_invoiceSequences s"
  "db_organizations (setSources st ts ps now s) = db_organizations s"
  "invOf (setSources st ts ps now s) = invOf s" "linesOf (setSources st ts ps now s) = linesOf s"
  by (simp_all add: setSources_def invOf_def[abs_def] linesOf_def[abs_def])

lemma key_image_updateWhere: "(\<And>r. k (f r) = k r) \<Longrightarrow> k ` set (updateWhere P f ws) = k ` set ws"
  by (metis list.set_map map_updateWhere)

lemma knownSources_set [simp]: "knownSources (setSources st ts ps now s) = knownSources s"
  by (simp add: knownSources_def setSources_def key_image_updateWhere)

text \<open>The keys of the rows with property \<open>P\<close>, after the rows with a key in \<open>S\<close> got it or lost it.\<close>

lemma key_image_status:
  assumes "\<And>r. k (f r) = k r" "\<And>r. P (f r) = b"
  shows "k ` {r \<in> set (updateWhere (\<lambda>r. k r \<in> S) f ws). P r} =
    (k ` {r \<in> set ws. P r} - S) \<union> (if b then S \<inter> k ` set ws else {})"
proof -
  have "x \<in> k ` {r \<in> set (updateWhere (\<lambda>r. k r \<in> S) f ws). P r} \<longleftrightarrow>
      (\<exists>r \<in> set ws. x = k r \<and> (if k r \<in> S then b else P r))" for x
  proof
    assume "\<exists>r \<in> set ws. x = k r \<and> (if k r \<in> S then b else P r)"
    then obtain r where "r \<in> set ws" "x = k r" "if k r \<in> S then b else P r" by blast
    then show "x \<in> k ` {r \<in> set (updateWhere (\<lambda>r. k r \<in> S) f ws). P r}"
      using assms by (intro image_eqI[of _ _ "if k r \<in> S then f r else r"]) (auto simp: set_updateWhere)
  qed (auto simp: set_updateWhere assms split: if_splits)
  then have "k ` {r \<in> set (updateWhere (\<lambda>r. k r \<in> S) f ws). P r} = {x. \<exists>r \<in> set ws. x = k r \<and> (if k r \<in> S then b else P r)}"
    by blast
  then show ?thesis by (auto split: if_splits)
qed

lemma billed_time:
  "te_id ` {t \<in> set (updateWhere (\<lambda>t. te_id t \<in> S) (\<lambda>t. t \<lparr> te_billingStatus := st, te_updatedAt := now \<rparr>) ws).
      te_billingStatus t \<noteq> Bill_not_billed} =
   (te_id ` {t \<in> set ws. te_billingStatus t \<noteq> Bill_not_billed} - S) \<union>
     (if st \<noteq> Bill_not_billed then S \<inter> te_id ` set ws else {})"
  by (rule key_image_status) simp_all

lemma billed_part:
  "tp_id ` {t \<in> set (updateWhere (\<lambda>t. tp_id t \<in> S) (\<lambda>t. t \<lparr> tp_billingStatus := st, tp_updatedAt := now \<rparr>) ws).
      tp_billingStatus t \<noteq> Bill_not_billed} =
   (tp_id ` {t \<in> set ws. tp_billingStatus t \<noteq> Bill_not_billed} - S) \<union>
     (if st \<noteq> Bill_not_billed then S \<inter> tp_id ` set ws else {})"
  by (rule key_image_status) simp_all

lemma billedSources_bill:
  "billedSources (setSources Bill_billed ts ps now s) =
     billedSources s \<union> ((TimeSource ` set ts \<union> PartSource ` set ps) \<inter> knownSources s)"
  by (auto simp: billedSources_def knownSources_def setSources_def billed_time billed_part)

lemma billedSources_release:
  "billedSources (setSources Bill_not_billed ts ps now s) =
     billedSources s - (TimeSource ` set ts \<union> PartSource ` set ps)"
  by (auto simp: billedSources_def setSources_def billed_time billed_part)

lemma rows_ok_setSources [simp]: "rows_ok (setSources st ts ps now s) = rows_ok s"
  by (simp add: rows_ok_def setSources_def key_ok_updateWhere_iff)

lemma issueGuard_eq [guard_simps]:
  "issueGuard ts ps s = Inr u \<longleftrightarrow> (TimeSource ` set ts \<union> PartSource ` set ps) \<inter> billedSources s = {}"
  by (auto simp: issueGuard_def guard_simps billedSources_def)

lemma seqValue_next:
  assumes "nextCounter p y t = (c, t')"
  shows "(\<lambda>k. seqValue k t') = (\<lambda>k. seqValue k t)((p, y) := c)"
  using nextCounter_value(2,3)[OF assms] by (auto simp: fun_eq_iff)

lemma issueWrite_eq:
  assumes "issueWrite i r ts ps now s = Inr t"
  obtains org partner number taxRate tot c sq where
    "nextCounter (inv_partnerId r) (getUTCFullYear now) (db_invoiceSequences s) = (c, sq)" "1 \<le> c"
    "number = formatInvoiceNumber (case partner of None \<Rightarrow> ''INV'' | Some p \<Rightarrow> pr_invoiceNumberPrefix p) (getUTCFullYear now) c"
    "money_ok (total tot)" "tot = computeInvoiceTotals (map lineTotalsRow (linesOf s i)) (Some taxRate)"
    "t = setSources Bill_billed ts ps now (updateInvoices i
      (issueFields org partner number taxRate tot (inv_termsAndConditions r) now) (s \<lparr> db_invoiceSequences := sq \<rparr>))"
  using assms moneyFits_money_ok[OF totals_cents(1)]
  by (auto simp: issueWrite_def Let_def guard_simps split: prod.splits)

lemma issueFields_sel [simp]:
  "inv_id (issueFields g p n x t d now r) = inv_id r" "inv_partnerId (issueFields g p n x t d now r) = inv_partnerId r"
  "inv_orgId (issueFields g p n x t d now r) = inv_orgId r" "inv_status (issueFields g p n x t d now r) = Inv_sent"
  "inv_voidedAt (issueFields g p n x t d now r) = inv_voidedAt r" "inv_invoiceNumber (issueFields g p n x t d now r) = Some n"
  "inv_amountPaid (issueFields g p n x t d now r) = inv_amountPaid r" "inv_total (issueFields g p n x t d now r) = total t"
  "inv_balance (issueFields g p n x t d now r) = total t"
  by (simp_all add: issueFields_def)

lemma refines_issueWrite:
  assumes t: "issueWrite i r ts ps now s = Inr t" and r: "invOf s i = Some r" "inv_status r = Inv_draft"
    and src: "sources (ledgerOf s) i = TimeSource ` set ts \<union> PartSource ` set ps"
    and unbilled: "sources (ledgerOf s) i \<inter> billedSources s = {}" and clock: "0 \<le> getUTCFullYear now"
  shows "refines s t"
proof (rule refines_step)
  obtain org partner number taxRate tot c sq where
    c: "nextCounter (inv_partnerId r) (getUTCFullYear now) (db_invoiceSequences s) = (c, sq)" "1 \<le> c"
    and n: "number = formatInvoiceNumber (case partner of None \<Rightarrow> ''INV'' | Some p \<Rightarrow> pr_invoiceNumberPrefix p) (getUTCFullYear now) c"
    and tot: "money_ok (total tot)"
    and te: "t = setSources Bill_billed ts ps now (updateInvoices i
      (issueFields org partner number taxRate tot (inv_termsAndConditions r) now) (s \<lparr> db_invoiceSequences := sq \<rparr>))"
    using t by (rule issueWrite_eq)
  let ?r' = "issueFields org partner number taxRate tot (inv_termsAndConditions r) now r"
  show "rows_ok t" if "billing_ok s"
    using that by (simp add: te billing_ok_def) (simp add: rows_ok_def updateInvoices_def key_ok_updateWhere)
  have inv': "invOf t = (invOf s)(i \<mapsto> ?r')"
    using r(1) by (auto simp: te fun_eq_iff invOf_update) (simp_all add: invOf_def)
  have "ledgerOf t = ledgerOf s \<lparr> lg_inv := (lg_inv (ledgerOf s))(i \<mapsto> ?r'),
      lg_seq := (lg_seq (ledgerOf s))((inv_partnerId r, getUTCFullYear now) := c),
      lg_billed := lg_billed (ledgerOf s) \<union> (sources (ledgerOf s) i \<inter> lg_known (ledgerOf s)) \<rparr>"
  proof (rule ledger.equality)
    have "billedSources t = billedSources s \<union> (sources (ledgerOf s) i \<inter> knownSources s)"
      unfolding te billedSources_bill src by (simp add: billedSources_def knownSources_def)
    then show "lg_billed (ledgerOf t) = lg_billed (ledgerOf s \<lparr> lg_inv := (lg_inv (ledgerOf s))(i \<mapsto> ?r'),
      lg_seq := (lg_seq (ledgerOf s))((inv_partnerId r, getUTCFullYear now) := c),
      lg_billed := lg_billed (ledgerOf s) \<union> (sources (ledgerOf s) i \<inter> lg_known (ledgerOf s)) \<rparr>)" by simp
  qed (simp_all add: inv', simp_all add: te seqValue_next[OF c(1)], simp add: knownSources_def)
  moreover have "seqValue (inv_partnerId r, getUTCFullYear now) (db_invoiceSequences s) + 1 = c"
    using nextCounter_value(1)[OF c(1)] by simp
  ultimately show "ledger_step False (ledgerOf s) (ledgerOf t)"
    using ledger_step.issue[of "ledgerOf s" i r ?r' "getUTCFullYear now" c] r unbilled clock c n tot
    by (simp add: same_identity_def)
qed

lemma issueRead_eq [guard_simps]:
  "issueRead i a s = Inr (r, ts, ps) \<longleftrightarrow> invOf s i = Some r \<and> inv_status r = Inv_draft \<and> orgAccessible a (inv_orgId r) \<and>
     (\<exists>l \<in> set (linesOf s i). il_customerVisible l) \<and> ts = timeIdsOf (linesOf s i) \<and> ps = partIdsOf (linesOf s i)"
  by (auto simp: issueRead_def Let_def guard_simps)

lemma refines_issueInvoice:
  assumes "issueInvoice i a now s = Inr (r', t)" "0 \<le> getUTCFullYear now"
  shows "refines s t"
proof -
  obtain r s1 where r: "invOf s i = Some r" "inv_status r = Inv_draft"
    and g: "issueGuard (timeIdsOf (linesOf s i)) (partIdsOf (linesOf s i)) s = Inr ()"
    and w: "issueWrite i r (timeIdsOf (linesOf s i)) (partIdsOf (linesOf s i)) now s = Inr s1"
    and t: "t = emit (PdfRender i) (emit (InvoiceEvent Ev_invoice_issued i (inv_orgId r) (inv_partnerId r) None) s1)"
    using assms(1) unfolding issueInvoice_def Let_def by (auto simp: bindE_eq_Inr issueRead_eq)
  have "refines s s1"
    by (rule refines_issueWrite[OF w r]) (use g assms(2) in \<open>simp_all add: sources_linesOf issueGuard_eq\<close>)
  then show ?thesis by (simp add: t)
qed

lemma refines_void:
  assumes r: "invOf s i = Some r" "live r"
  shows "refines s (setSources Bill_not_billed (timeIdsOf (linesOf s i)) (partIdsOf (linesOf s i)) now
    (updateInvoices i (voidFields reason now) s))" (is "refines s ?t")
proof (rule refines_step)
  let ?r' = "voidFields reason now r"
  show "rows_ok ?t" if "billing_ok s" using that by (simp add: billing_ok_def voidFields_def)
  have inv': "invOf (updateInvoices i (voidFields reason now) s) = (invOf s)(i \<mapsto> ?r')" using r(1) by (auto simp: fun_eq_iff invOf_update voidFields_def)
  have "ledgerOf ?t = ledgerOf s \<lparr> lg_inv := (lg_inv (ledgerOf s))(i \<mapsto> ?r'),
      lg_billed := lg_billed (ledgerOf s) - sources (ledgerOf s) i \<rparr>"
    by (rule ledger.equality)
       (simp_all add: inv' sources_linesOf billedSources_release, simp_all add: billedSources_def knownSources_def)
  then show "ledger_step False (ledgerOf s) (ledgerOf ?t)"
    using ledger_step.void[of "ledgerOf s" i r ?r'] r by (simp add: same_identity_def voidFields_def)
qed

text \<open>
  The two passes of the clone. \<open>cs\<close> are the lines still to copy into draft \<open>d\<close>, \<open>ok\<close> the parents
  already there: sources of the copies are known, distinct and new to the draft.
\<close>

lemma refines_cloneLines:
  assumes "isDraft d g s" "distinct (filter (\<lambda>x. x \<noteq> None) (map sourceOf cs))"
    "\<And>l. l \<in> set cs \<Longrightarrow> il_orgId l = g"
    "\<And>l x. l \<in> set cs \<Longrightarrow> sourceOf l = Some x \<Longrightarrow> x \<in> knownSources s \<and> x \<notin> sources (ledgerOf s) d"
    "\<And>l p. l \<in> set cs \<Longrightarrow> f l = Some p \<Longrightarrow> \<exists>q \<in> set (db_invoiceLines s). il_id q = p \<and> il_invoiceId q = d \<and> il_parentLineId q = None"
  shows "refines s (cloneLines f d cs s)"
  using assms
proof (induction cs arbitrary: s)
  case (Cons l cs)
  define c where "c = cloneLine (db_next s) d (f l) l"
  define s1 where "s1 = addRow c s"
  have src: "sourceOf c = sourceOf l" by (simp add: c_def cloneLine_def sourceOf_def split: option.split)
  have c: "il_id c = db_next s" "il_invoiceId c = d" "il_orgId c = g" "il_parentLineId c = f l"
    using Cons.prems(3) by (simp_all add: c_def cloneLine_def)
  have "refines s s1"
    unfolding s1_def
  proof (rule refines_addRow[OF c(1)])
    show "line_fits (ledgerOf s) c"
      using Cons.prems(1) Cons.prems(4)[of l] Cons.prems(5)[of l] c src by (auto simp: line_fits_def isDraft_def)
  qed
  also have "refines s1 (cloneLines f d cs s1)"
  proof (rule Cons.IH)
    show "isDraft d g s1" using Cons.prems(1) by (simp add: s1_def addRow_def)
    show "distinct (filter (\<lambda>x. x \<noteq> None) (map sourceOf cs))" using Cons.prems(2) by (auto split: if_splits)
    show "x \<in> knownSources s1 \<and> x \<notin> sources (ledgerOf s1) d" if m: "m \<in> set cs" "sourceOf m = Some x" for m x
    proof -
      have "sourceOf l \<notin> sourceOf ` set cs" if "sourceOf l \<noteq> None" using Cons.prems(2) that by auto
      then have "sourceOf l \<noteq> Some x" using m by (metis imageI option.distinct(1))
      then have "x \<notin> sources (ledgerOf s1) d"
        using Cons.prems(4)[of m x] m src c by (auto simp: s1_def ledgerOf_addRow sources_def)
      then show ?thesis using Cons.prems(4)[of m x] m by (auto simp: s1_def addRow_def knownSources_def)
    qed
    show "\<exists>q \<in> set (db_invoiceLines s1). il_id q = p \<and> il_invoiceId q = d \<and> il_parentLineId q = None"
      if "m \<in> set cs" "f m = Some p" for m p
      using Cons.prems(5)[of m p] that by (auto simp: s1_def addRow_def set_insertRow)
  qed (use Cons.prems(3) in simp)
  finally show ?case by (simp add: s1_def c_def addRow_def)
qed simp

lemma cloneLines_rows:
  "db_invoiceLines (cloneLines f d cs s) = db_invoiceLines s @ map2 (\<lambda>k l. cloneLine k d (f l) l) [db_next s ..< db_next s + length cs] cs"
  "db_next (cloneLines f d cs s) = db_next s + length cs" "db_invoices (cloneLines f d cs s) = db_invoices s"
  "knownSources (cloneLines f d cs s) = knownSources s"
  by (induction cs arbitrary: s) (simp_all add: insertRow_def knownSources_def upt_conv_Cons del: upt_Suc)

subsection \<open>Reissue\<close>

lemma map_of_zip_upt:
  "distinct ks \<Longrightarrow> k \<in> set ks \<Longrightarrow>
   \<exists>j < length ks. ks ! j = k \<and> map_of (zip ks [n ..< n + length ks]) k = Some (n + j)"
proof -
  assume d: "distinct ks" and "k \<in> set ks"
  then obtain j where j: "j < length ks" "ks ! j = k" by (auto simp: in_set_conv_nth)
  then have "(k, n + j) \<in> set (zip ks [n ..< n + length ks])" by (auto simp: set_zip)
  then show ?thesis using d j by (auto intro: map_of_is_SomeI)
qed

lemma oldToNew_Some:
  assumes "distinct (map il_id ps)" "oldToNew ps n x = Some y"
  shows "\<exists>j < length ps. il_id (ps ! j) = x \<and> y = n + j"
proof -
  have "x \<in> set (map il_id ps)"
    using assms(2) unfolding oldToNew_def by (metis map_of_SomeD set_zip_leftD)
  from map_of_zip_upt[OF assms(1) this, of n] show ?thesis using assms(2) by (auto simp: oldToNew_def)
qed

lemma clone_sources:
  assumes "db_invoiceLines s1 = db_invoiceLines s @ map2 (\<lambda>k l. cloneLine k d (f l) l) [n ..< n + length cs] cs"
    "sources (ledgerOf s) d = S"
  shows "sources (ledgerOf s1) d = S \<union> {x. \<exists>l \<in> set cs. sourceOf l = Some x}"
proof -
  have s: "sourceOf (cloneLine k d p l) = sourceOf l" "il_invoiceId (cloneLine k d p l) = d" for k p l
    by (simp_all add: cloneLine_def sourceOf_def split: option.split)
  have "(\<exists>l \<in> set (map2 (\<lambda>k l. cloneLine k d (f l) l) [n ..< n + length cs] cs). il_invoiceId l = d \<and> sourceOf l = Some x)
      \<longleftrightarrow> (\<exists>l \<in> set cs. sourceOf l = Some x)" for x
  proof
    assume "\<exists>l \<in> set cs. sourceOf l = Some x"
    then obtain j where "j < length cs" "sourceOf (cs ! j) = Some x" by (auto simp: in_set_conv_nth)
    then show "\<exists>l \<in> set (map2 (\<lambda>k l. cloneLine k d (f l) l) [n ..< n + length cs] cs). il_invoiceId l = d \<and> sourceOf l = Some x"
      by (intro bexI[of _ "cloneLine (n + j) d (f (cs ! j)) (cs ! j)"]) (auto simp: s set_zip intro!: image_eqI exI[of _ j])
  qed (auto simp: s set_zip)
  moreover have "sources (ledgerOf s1) d = S \<union>
      {x. \<exists>l \<in> set (map2 (\<lambda>k l. cloneLine k d (f l) l) [n ..< n + length cs] cs). il_invoiceId l = d \<and> sourceOf l = Some x}"
    unfolding assms(2)[symmetric] sources_def ledgerOf_sel assms(1) set_append by blast
  ultimately show ?thesis by simp
qed


lemma distinct_sources:
  assumes "distinct ls" "\<And>l m. l \<in> set ls \<Longrightarrow> m \<in> set ls \<Longrightarrow> sourceOf l = sourceOf m \<Longrightarrow> sourceOf l \<noteq> None \<Longrightarrow> l = m"
  shows "distinct (filter (\<lambda>x. x \<noteq> None) (map sourceOf ls))"
  using assms
proof (induction ls)
  case (Cons l ls)
  have "distinct (filter (\<lambda>x. x \<noteq> None) (map sourceOf ls))" using Cons by simp
  moreover have "sourceOf l \<notin> sourceOf ` set ls" if "sourceOf l \<noteq> None" using Cons.prems that by fastforce
  ultimately show ?case by auto
qed simp

text \<open>The lines of an invoice, as the clone reads them.\<close>

lemma clonable:
  assumes ok: "billing_ok s" and r: "invOf s i = Some r"
  shows "distinct (map il_id (orderByInt il_sortOrder (linesOf s i)))"
    and "l \<in> set (orderByInt il_sortOrder (linesOf s i)) \<Longrightarrow> il_orgId l = inv_orgId r"
    and "l \<in> set (orderByInt il_sortOrder (linesOf s i)) \<Longrightarrow> sourceOf l = Some x \<Longrightarrow> x \<in> knownSources s"
    and "l \<in> set (orderByInt il_sortOrder (linesOf s i)) \<Longrightarrow> m \<in> set (orderByInt il_sortOrder (linesOf s i)) \<Longrightarrow>
         sourceOf l = sourceOf m \<Longrightarrow> sourceOf l \<noteq> None \<Longrightarrow> l = m"
proof -
  have mem: "l \<in> set (orderByInt il_sortOrder (linesOf s i)) \<longleftrightarrow> l \<in> set (db_invoiceLines s) \<and> il_invoiceId l = i" for l
    by (auto simp: orderByInt_def linesOf_def set_selectWhere)
  have "distinct (map il_id (linesOf s i))"
    using ok by (simp add: billing_ok_def rows_ok_def key_ok_def linesOf_def selectWhere_def distinct_map_filter)
  moreover have "mset (map il_id (orderByInt il_sortOrder (linesOf s i))) = mset (map il_id (linesOf s i))"
    by (simp add: orderByInt_def)
  ultimately show "distinct (map il_id (orderByInt il_sortOrder (linesOf s i)))" by (metis mset_eq_imp_distinct_iff)
  have so: "sources_ok (ledgerOf s)" using ok by (simp add: billing_ok_def ledger_ok_def)
  show "il_orgId l = inv_orgId r" if "l \<in> set (orderByInt il_sortOrder (linesOf s i))"
    using that billing_linesD(1)[OF ok, of l] r by (auto simp: mem)
  show "x \<in> knownSources s" if "l \<in> set (orderByInt il_sortOrder (linesOf s i))" "sourceOf l = Some x"
    using that sources_okD(1)[OF so, of i] by (auto simp: mem sources_def)
  show "l = m" if "l \<in> set (orderByInt il_sortOrder (linesOf s i))" "m \<in> set (orderByInt il_sortOrder (linesOf s i))"
      "sourceOf l = sourceOf m" "sourceOf l \<noteq> None"
    using sources_okD(2)[OF so, of l m] that by (simp add: mem)
qed

lemma refines_reissueDraft:
  assumes t: "reissueDraft i r a now s = Inr (d, t)" and q: "invOf s i = Some q" "inv_orgId q = inv_orgId r"
  shows "refines s t"
  unfolding refines_by_def
proof
  assume ok: "billing_ok s"
  define draft where "draft = (blankInvoice (db_next s) (inv_partnerId r) (inv_orgId r) now) \<lparr>
            inv_siteId := inv_siteId r, inv_notes := inv_notes r,
            inv_replacesInvoiceId := Some i, inv_createdBy := a_userId a \<rparr>"
  have draft: "inv_id draft = db_next s" "draftRow draft" by (simp_all add: draft_def)
  obtain s1 where s1: "insertInvoice draft s = Inr s1"
    using t unfolding reissueDraft_def Let_def draft_def[symmetric] by (auto simp: bindE_eq_Inr)
  define s2 where "s2 = updateInvoices i (\<lambda>r. r \<lparr> inv_replacedByInvoiceId := Some (inv_id draft) \<rparr>) s1"
  define src where "src = orderByInt il_sortOrder (linesOf s i)"
  have l1: "linesOf s1 = linesOf s" "db_invoiceLines s1 = db_invoiceLines s" "knownSources s1 = knownSources s"
    using s1 by (simp_all add: insertInvoice_eq linesOf_def[abs_def] knownSources_def)
  define parents where "parents = filter (\<lambda>l. il_parentLineId l = None) src"
  define children where "children = filter (\<lambda>l. il_parentLineId l \<noteq> None) src"
  define s3 where "s3 = cloneLines (\<lambda>_. None) (inv_id draft) parents s2"
  define f where "f = (\<lambda>l :: invoice_line. case il_parentLineId l of None \<Rightarrow> None | Some x \<Rightarrow> oldToNew parents (db_next s2) x)"
  have te: "t = cloneLines f (inv_id draft) children s3" "d = inv_id draft"
    using t s1 unfolding reissueDraft_def Let_def draft_def[symmetric]
    by (auto simp: s3_def s2_def parents_def children_def f_def src_def l1 cong: option.case_cong)
  note cl = clonable[OF ok q(1), folded src_def]
  have k2: "db_invoiceLines s2 = db_invoiceLines s" "knownSources s2 = knownSources s"
    using l1 by (simp_all add: s2_def knownSources_def)
  have d2: "isDraft (inv_id draft) (inv_orgId r) s2"
    using invOf_insert[OF ok s1 draft(1)] by (auto simp: s2_def isDraft_def invOf_update draft_def)
  have none: "sources (ledgerOf s2) (inv_id draft) = {}"
    using sources_fresh[OF ok] draft(1) k2 by (simp add: sources_def)
  have dist: "distinct (filter (\<lambda>x. x \<noteq> None) (map sourceOf (filter P src)))" for P
    using cl(1,4) by (intro distinct_sources) (auto simp: distinct_map)
  have "refines s s1" by (rule refines_insertInvoice[OF s1 draft])
  also have "refines s1 s2" unfolding s2_def by (rule refines_touch) (simp add: identity_defs)
  also have "refines s2 s3"
    unfolding s3_def by (rule refines_cloneLines[OF d2])
      (use dist cl(2,3) q(2) k2 none in \<open>auto simp: parents_def\<close>)
  also have "refines s3 t"
    unfolding te(1)
  proof (rule refines_cloneLines)
    show "isDraft (inv_id draft) (inv_orgId r) s3" using d2 by (simp add: s3_def isDraft_def invOf_def cloneLines_rows)
    show "distinct (filter (\<lambda>x. x \<noteq> None) (map sourceOf children))" unfolding children_def by (rule dist)
    show "il_orgId l = inv_orgId r" if "l \<in> set children" for l using that cl(2)[of l] q(2) by (simp add: children_def)
    have ss: "sources (ledgerOf s3) (inv_id draft) = {x. \<exists>l \<in> set parents. sourceOf l = Some x}"
      using clone_sources[OF _ none, of s3 "\<lambda>_. None" "db_next s2" parents] by (simp add: s3_def cloneLines_rows)
    show "x \<in> knownSources s3 \<and> x \<notin> sources (ledgerOf s3) (inv_id draft)" if l: "l \<in> set children" "sourceOf l = Some x" for l x
    proof -
      have "sourceOf m \<noteq> Some x" if "m \<in> set parents" for m
        using l that cl(4)[of l m] by (auto simp: children_def parents_def)
      then show ?thesis using l cl(3)[of l x] k2 ss by (auto simp: s3_def cloneLines_rows children_def)
    qed
    fix l p assume "l \<in> set children" "f l = Some p"
    then obtain x where "oldToNew parents (db_next s2) x = Some p" by (auto simp: f_def split: option.splits)
    moreover have "distinct (map il_id parents)" using cl(1) by (simp add: parents_def distinct_map_filter)
    ultimately obtain j where j: "j < length parents" "p = db_next s2 + j" using oldToNew_Some by blast
    have "cloneLine p (inv_id draft) None (parents ! j) \<in> set (db_invoiceLines s3)"
      using j by (auto simp: s3_def cloneLines_rows set_zip intro!: image_eqI[of _ _ "(p, parents ! j)"] exI[of _ j])
    then show "\<exists>q \<in> set (db_invoiceLines s3). il_id q = p \<and> il_invoiceId q = inv_id draft \<and> il_parentLineId q = None"
      by (intro bexI[of _ "cloneLine p (inv_id draft) None (parents ! j)"]) (simp_all add: cloneLine_def)
  qed
  finally show "rows_ok t \<and> (ledger_step False)\<^sup>*\<^sup>* (ledgerOf s) (ledgerOf t)" using ok by (simp add: refines_by_def)
qed

lemma refines_voidCommit:
  assumes "voidCommit i reason reissue a now s = Inr (d, t)"
  shows "refines s t"
proof -
  obtain r where r: "invOf s i = Some r" "live r"
    using assms unfolding voidCommit_def by (auto simp: bindE_eq_Inr getOwned_iff guardE_eq_Inr live_def)
  define s1 where "s1 = setSources Bill_not_billed (timeIdsOf (linesOf s i)) (partIdsOf (linesOf s i)) now
      (updateInvoices i (voidFields reason now) s)"
  have s1: "refines s s1" unfolding s1_def by (rule refines_void[OF r])
  show ?thesis
  proof (cases reissue)
    case False
    then have "\<exists>e. t = emit e s1"
      using assms r unfolding voidCommit_def Let_def s1_def by (auto simp: bindE_eq_Inr getOwned_iff)
    then show ?thesis using s1 by auto
  next
    case True
    then obtain k s2 e where s2: "reissueDraft i r a now s1 = Inr (k, s2)" and t: "t = emit e s2"
      using assms r unfolding voidCommit_def Let_def s1_def by (auto simp: bindE_eq_Inr getOwned_iff)
    have "invOf s1 i = Some (voidFields reason now r)" using r by (simp add: s1_def invOf_update voidFields_def)
    then have "refines s1 s2" by (rule refines_reissueDraft[OF s2]) (simp add: voidFields_def)
    then have "refines s1 t" by (simp add: t)
    then show ?thesis using s1 refines_trans by blast
  qed
qed

lemma refines_voidInvoice:
  assumes "voidInvoice i reason reissue a now s = Inr (v, t)"
  shows "refines s t"
proof -
  obtain d s1 where d: "voidCommit i reason reissue a now s = Inr (d, s1)"
    and t: "t = s1 \<or> (\<exists>k u. recomputeInvoiceTotals k None now s1 = Inr (u, t))"
    using assms unfolding voidInvoice_def by (auto simp: bindE_eq_Inr split: option.splits)
  have "refines s1 t" using t refines_recomputeTotals by auto
  then show ?thesis using refines_voidCommit[OF d] refines_trans by blast
qed

section \<open>Payments\<close>

text \<open>
  The stored payment never exceeds what the overpayment guard compared: \<open>toFixed(2)\<close> rounds the
  exact double, \<open>Math.round\<close> its product with 100, which is rounded once more but never across a
  half.
\<close>

lemma round_even_ge: "of_int n \<le> y \<Longrightarrow> n \<le> round_even y"
proof -
  assume "of_int n \<le> y"
  then have "n \<le> \<lfloor>y\<rfloor>" by (simp add: le_floor_iff)
  moreover have "\<lfloor>y\<rfloor> \<le> round_even y" by (simp add: round_even_def Let_def)
  ultimately show ?thesis by simp
qed

lemma rnd_ge_half:
  assumes "(of_int m :: rat) / 2 \<le> y" "0 < y" "y < 2 ^ 52"
  shows "of_int m / 2 \<le> rnd y"
proof -
  define e where "e = max (flog2 \<bar>y\<bar> - 52) (- 1074)"
  have "(2::rat) powi (flog2 y) \<le> y" using flog2_bounds[OF assms(2)] by simp
  then have "(2::rat) powi (flog2 y) < 2 powi 52" using assms(3) by simp
  then have "flog2 y < 52" using power_int_increasing[of 52 "flog2 y" "2::rat"] by (cases "52 \<le> flog2 y") auto
  then have e: "e \<le> - 1" using assms(2) by (simp add: e_def)
  define k where "k = nat (- 1 - e)"
  have k: "(2::rat) powi e = 1 / (2 * 2 ^ k)"
  proof -
    have ek: "e = - int (Suc k)" using e by (simp add: k_def)
    have "(2::rat) powi (- int (Suc k)) = inverse (2 ^ Suc k)" unfolding power_int_minus power_int_of_nat ..
    then have "(2::rat) powi e = inverse (2 ^ Suc k)" unfolding ek .
    also have "\<dots> = 1 / (2 * 2 ^ k)" by (simp only: inverse_eq_divide power_Suc)
    finally show ?thesis .
  qed
  have "of_int (m * 2 ^ k) \<le> y / 2 powi e" using assms(1) by (simp add: k field_simps)
  then have "m * 2 ^ k \<le> round_even (y / 2 powi e)" by (rule round_even_ge)
  then have "(of_int (m * 2 ^ k) :: rat) \<le> of_int (round_even (y / 2 powi e))" by (simp only: of_int_le_iff)
  then have "of_int (m * 2 ^ k) * 2 powi e \<le> of_int (round_even (y / 2 powi e)) * (2 powi e :: rat)"
    by (rule mult_right_mono) simp
  moreover have "of_int (m * 2 ^ k) * (2 powi e :: rat) = of_int m / 2" by (simp add: k)
  moreover have "rnd y = of_int (round_even (y / 2 powi e)) * 2 powi e" using assms(2) by (simp add: rnd_def Let_def e_def)
  ultimately show ?thesis by (simp only:)
qed

lemma stored_le_compared:
  assumes "0 < toFixed 2 x" "cents_of (toFixed 2 x) < 10 ^ 12"
  shows "of_int (cents_of (toFixed 2 x)) \<le> Math_round (fmul x 100)"
proof -
  have x: "0 < x" using assms(1) by (cases "0 < x") (auto simp: toFixed_def sgn_if split: if_splits)
  define c where "c = \<lfloor>x * 100 + 1 / 2\<rfloor>"
  have t: "toFixed 2 x = of_int c / 100" using x by (simp add: toFixed_def c_def)
  have cc: "cents_of (toFixed 2 x) = c" unfolding t by (rule cents_of_dec)
  have lo: "of_int (2 * c - 1) / 2 \<le> x * 100" using of_int_floor_le[of "x * 100 + 1 / 2"] by (simp add: c_def field_simps)
  have "x * 100 + 1 / 2 < of_int (c + 1)" unfolding c_def of_int_add by linarith
  moreover have "(of_int (c + 1) :: rat) \<le> of_int (10 ^ 12)" using assms(2) cc by (simp only: of_int_le_iff)
  ultimately have hi: "x * 100 < 2 ^ 52" by simp
  have "of_int (2 * c - 1) / 2 \<le> rnd (x * 100)" by (rule rnd_ge_half[OF lo _ hi]) (use x in simp)
  then have "of_int c \<le> rnd (x * 100) + 1 / 2" by (simp add: field_simps)
  then have "c \<le> \<lfloor>rnd (x * 100) + 1 / 2\<rfloor>" by (simp add: le_floor_iff)
  then show ?thesis unfolding cc by (simp add: Math_round_def fmul_def)
qed

lemma cents_pos: "cents_ok v \<Longrightarrow> 0 < v \<Longrightarrow> 0 < cents_of v"
  by (metis dollars_cents_of dollars_simps(4))

lemma sumCents_exact:
  assumes "\<And>p. p \<in> set ps \<Longrightarrow> money_ok (pay_amount p) \<and> 0 < cents_of (pay_amount p)"
    "(\<Sum>p\<leftarrow>ps. cents_of (pay_amount p)) < 2 ^ 50"
  shows "sumCents ps = of_int (\<Sum>p\<leftarrow>ps. cents_of (pay_amount p))"
proof -
  have "fold (\<lambda>p acc. fadd acc (toCents (Some (pay_amount p)))) ps (of_int a) = of_int (a + (\<Sum>p\<leftarrow>ps. cents_of (pay_amount p)))"
    if "0 \<le> a" "a + (\<Sum>p\<leftarrow>ps. cents_of (pay_amount p)) < 2 ^ 50" for a
    using that assms(1)
  proof (induction ps arbitrary: a)
    case (Cons p ps)
    define c where "c = cents_of (pay_amount p)"
    have c: "0 < c" "cents_ok (pay_amount p)" "\<bar>c\<bar> < 10 ^ 12" using Cons.prems(3)[of p] by (auto simp: c_def money_ok_def)
    have rest: "0 \<le> (\<Sum>p\<leftarrow>ps. cents_of (pay_amount p))"
      using Cons.prems(3) by (intro sum_list_nonneg) (fastforce intro: order.strict_implies_order)
    have "toCents (Some (pay_amount p)) = of_int c" using c by (simp add: toCents_ok flip: c_def)
    moreover have "fadd (of_int a) (of_int c) = of_int (a + c)"
      using Cons.prems(1,2) c rest by (simp add: fadd_of_int flip: c_def del: of_int_add)
    moreover have "fold (\<lambda>p acc. fadd acc (toCents (Some (pay_amount p)))) ps (of_int (a + c)) =
        of_int (a + c + (\<Sum>p\<leftarrow>ps. cents_of (pay_amount p)))"
    proof (rule Cons.IH)
      show "0 \<le> a + c" using Cons.prems(1) c(1) by simp
      show "a + c + (\<Sum>p\<leftarrow>ps. cents_of (pay_amount p)) < 2 ^ 50" using Cons.prems(2) by (simp add: c_def)
    qed (use Cons.prems(3) in simp)
    ultimately show ?case by (simp add: add.assoc flip: c_def del: of_int_add)
  qed simp
  from this[of 0] show ?thesis using assms(2) by (simp add: sumCents_def)
qed

text \<open>Recomputing the status from payments whose sum a double holds exactly.\<close>

lemma restated_restate:
  assumes r: "money_ok (inv_total r)" "inv_invoiceNumber r \<noteq> None" "inv_id r = i"
    and ps: "\<And>p. p \<in> set ps \<Longrightarrow> money_ok (pay_amount p) \<and> 0 < cents_of (pay_amount p)"
    and le: "paidCents i ps < 2 ^ 49"
  shows "restated ps r (restate (filter (\<lambda>p. pay_invoiceId p = i) ps) now r)"
proof -
  define c where "c = paidCents i ps"
  define t where "t = cents_of (inv_total r)"
  have t: "cents_ok (inv_total r)" "\<bar>t\<bar> < 10 ^ 12" using r(1) by (simp_all add: money_ok_def t_def)
  have c0: "0 \<le> c" unfolding c_def using ps by (intro paidCents_nonneg) simp
  have cb: "c < 2 ^ 49" using le by (simp add: c_def)
  have sum: "sumCents (filter (\<lambda>p. pay_invoiceId p = i) ps) = of_int c"
    using cb ps by (subst sumCents_exact) (auto simp: c_def paidCents_def)
  have paid: "fromCents (of_int c) = dollars c" using c0 cb by (simp add: fromCents_int dollars_def)
  have tc: "toCents (Some (inv_total r)) = of_int t" using t by (simp add: toCents_ok t_def)
  have pc: "toCents (Some (dollars c)) = of_int c" using c0 cb by (simp add: toCents_ok)
  have sub: "fsub (of_int t) (of_int c) = of_int (t - c)" using t c0 cb by (simp add: fsub_of_int del: of_int_diff)
  have bal: "fromCents (of_int (t - c)) = dollars (t - c)" using t c0 cb by (simp add: fromCents_int dollars_def del: of_int_diff)
  have st: "deriveInvoiceStatus (inv_voidedAt r \<noteq> None) (inv_invoiceNumber r \<noteq> None) (inv_total r) (dollars c) (inv_dueDate r) now =
     (if inv_voidedAt r \<noteq> None then Inv_void else if t - c \<le> 0 then Inv_paid
      else if (case inv_dueDate r of None \<Rightarrow> False | Some d \<Rightarrow> endOfDay d < now) then Inv_overdue
      else if 0 < c then Inv_partially_paid else Inv_sent)"
    using r(2) by (simp add: deriveInvoiceStatus_def tc pc sub del: of_int_diff)
  show ?thesis
    unfolding restated_def restate_def Let_def sum paid tc pc sub bal
    using r(3) st by (auto simp: same_identity_def c_def t_def split: option.splits if_splits)
qed

lemma paymentsOf_filter: "paymentsOf s i = filter (\<lambda>p. pay_invoiceId p = i) (db_invoicePayments s)"
  by (simp add: paymentsOf_def selectWhere_def)

lemma restate_id [simp]: "inv_id (restate ps now r) = inv_id r"
  by (simp add: restate_def Let_def)

lemma recomputeInvoiceStatus_eq:
  "recomputeInvoiceStatus i now s = Inr t \<Longrightarrow> t = updateInvoices i (restate (paymentsOf s i) now) s"
  by (auto simp: recomputeInvoiceStatus_def Let_def guard_simps)

text \<open>
  Payments change, then the status is recomputed: \<open>u\<close> is the state in between. The three moves on
  payments differ only in how they change the list.
\<close>

lemma restate_step:
  assumes ok: "billing_ok s" and r: "invOf s i = Some r" "inv_status r \<noteq> Inv_draft"
    and u: "invOf u = invOf s" and t: "recomputeInvoiceStatus i now u = Inr t"
    and ps: "\<And>p. p \<in> set (db_invoicePayments u) \<Longrightarrow> money_ok (pay_amount p) \<and> 0 < cents_of (pay_amount p)"
    and le: "paidCents i (db_invoicePayments u) < 2 ^ 49"
  shows "\<exists>r'. restated (db_invoicePayments u) r r' \<and> money_ok (inv_balance r') \<and> ledgerOf t = ledgerOf u \<lparr> lg_inv := (invOf s)(i \<mapsto> r') \<rparr>"
proof -
  have d: "doc_ok (ledgerOf s) i r" by (rule billing_invOf[OF ok r(1)])
  then have re: "restated (db_invoicePayments u) r (restate (paymentsOf u i) now r)"
    unfolding paymentsOf_filter using r(2) ps le by (intro restated_restate) (auto simp: doc_ok_def doc_state_def)
  have "invOf u i = Some r" using r(1) u by simp
  then have "moneyFits (inv_balance (restate (paymentsOf u i) now r))"
    using t by (auto simp: recomputeInvoiceStatus_def getOwnedInvoiceOr404_def Let_def guard_simps)
  then have "money_ok (inv_balance (restate (paymentsOf u i) now r))"
    using re by (subst moneyFits_money_ok[symmetric]) (simp_all add: restated_def)
  moreover note re
  moreover have "ledgerOf t = ledgerOf u \<lparr> lg_inv := (invOf s)(i \<mapsto> restate (paymentsOf u i) now r) \<rparr>"
    using recomputeInvoiceStatus_eq[OF t] ledgerOf_update[of u i r "restate (paymentsOf u i) now"] r(1) u by simp
  ultimately show ?thesis by blast
qed

lemma billing_paysD:
  assumes "billing_ok s" "p \<in> set (db_invoicePayments s)"
  shows "money_ok (pay_amount p) \<and> 0 < cents_of (pay_amount p)"
    and "\<exists>r. invOf s (pay_invoiceId p) = Some r \<and> inv_orgId r = pay_orgId p \<and> inv_status r \<noteq> Inv_draft"
    and "pay_id p < db_next s"
  using assms by (auto simp: billing_ok_def ledger_ok_def pays_ok_def key_ok_def)

lemma billing_paid_bound:
  assumes "billing_ok s" "invOf s i = Some r"
  shows "paidCents i (db_invoicePayments s) < 2 * 10 ^ 12"
proof -
  have "\<bar>cents_of (inv_total r)\<bar> < 10 ^ 12" "\<bar>cents_of (inv_total r) - paidCents i (db_invoicePayments s)\<bar> < 10 ^ 12"
    using billing_invOf[OF assms] by (simp_all add: doc_ok_def doc_state_def money_ok_def)
  then show ?thesis by linarith
qed

lemma rows_ok_recompute: "recomputeInvoiceStatus i now u = Inr t \<Longrightarrow> rows_ok u \<Longrightarrow> rows_ok t"
  by (drule recomputeInvoiceStatus_eq) simp

text \<open>A payment that passes the overpayment guard and the checks of the table.\<close>

lemma refines_pay:
  assumes r: "invOf s i = Some r" "live r" and p: "pay_id p = db_next s" "pay_invoiceId p = i" "pay_orgId p = inv_orgId r"
    and fits: "cents_ok (pay_amount p)" "of_int (cents_of (pay_amount p)) \<le> toCents (Some (inv_balance r))"
    and u: "insertPayment p s = Inr u" and t: "recomputeInvoiceStatus i now u = Inr t"
  shows "refines s t"
proof (rule refines_step)
  have ue: "u = s \<lparr> db_next := Suc (db_next s), db_invoicePayments := db_invoicePayments s @ [p] \<rparr>"
    and pos: "0 < pay_amount p" "money_ok (pay_amount p)"
    using u fits(1) by (auto simp: insertPayment_def guard_simps insertRow_def moneyFits_money_ok)
  have ui: "invOf u = invOf s" by (simp add: ue invOf_def[abs_def])
  have c: "0 < cents_of (pay_amount p)" by (rule cents_pos[OF fits(1) pos(1)])
  show "rows_ok t" if "billing_ok s"
    by (rule rows_ok_recompute[OF t]) (use that in \<open>auto simp: ue billing_ok_def rows_ok_def intro: key_ok_mono mappings_ok_mono\<close>)
  assume ok: "billing_ok s"
  note d = billing_invOf[OF ok r(1)]
  have dd: "inv_balance r = dollars (cents_of (inv_total r) - paidCents i (db_invoicePayments s))"
    "money_ok (inv_total r)" "\<bar>cents_of (inv_total r) - paidCents i (db_invoicePayments s)\<bar> < 10 ^ 12"
    using d r(2) by (simp_all add: doc_ok_def doc_state_def live_def)
  have n0: "0 \<le> paidCents i (db_invoicePayments s)"
    using billing_paysD(1)[OF ok] by (intro paidCents_nonneg) simp
  have b: "\<bar>cents_of (inv_total r) - paidCents i (db_invoicePayments s)\<bar> < 2 ^ 50"
    using dd(3) by simp
  then have "toCents (Some (inv_balance r)) = of_int (cents_of (inv_balance r))"
    unfolding dd(1) by (intro toCents_ok) simp_all
  then have le: "cents_of (pay_amount p) \<le> cents_of (inv_balance r)" using fits(2) by simp
  have "paidCents i (db_invoicePayments u) \<le> cents_of (inv_total r)"
    using le p(2) by (simp add: ue paidCents_append dd(1))
  moreover have "\<bar>cents_of (inv_total r)\<bar> < 10 ^ 12" using dd(2) by (simp add: money_ok_def)
  ultimately have "paidCents i (db_invoicePayments u) < 10 ^ 12" by linarith
  then have paid: "paidCents i (db_invoicePayments u) < 2 ^ 49" by simp
  have allp: "money_ok (pay_amount q) \<and> 0 < cents_of (pay_amount q)" if "q \<in> set (db_invoicePayments u)" for q
    using that billing_paysD(1)[OF ok] pos c by (auto simp: ue)
  obtain r' where r': "restated (db_invoicePayments u) r r'" "ledgerOf t = ledgerOf u \<lparr> lg_inv := (invOf s)(i \<mapsto> r') \<rparr>"
    using restate_step[OF ok r(1) _ ui t allp] paid r(2) by (auto simp: live_def)
  have "ledgerOf t = ledgerOf s \<lparr> lg_next := Suc (lg_next (ledgerOf s)), lg_pays := lg_pays (ledgerOf s) @ [p],
      lg_inv := (lg_inv (ledgerOf s))(i \<mapsto> r') \<rparr>"
    unfolding r'(2) by (rule ledger.equality) (simp_all add: ue knownSources_def billedSources_def)
  moreover have "restated (lg_pays (ledgerOf s) @ [p]) r r'" using r'(1) by (simp add: ue)
  ultimately show "ledger_step False (ledgerOf s) (ledgerOf t)"
    using ledger_step.pay[of "ledgerOf s" i r p r'] r p pos c le by simp
qed

lemma refines_recordPayment:
  assumes "recordPayment i input a now s = Inr (x, t)"
  shows "refines s t"
proof -
  define amount where "amount = toFixed 2 (js_Number (rpi_amount input))"
  show ?thesis
    using assms unfolding recordPayment_def Let_def
  proof (elim bindE_InrE)
    fix r s1 s2 q g1 g2 g3
    assume "getOwnedInvoiceOr404 i s = Inr r" "guardE (inv_status r \<noteq> Inv_draft) (InvoiceErr 409 INVALID_STATE) = Inr g1"
      "guardE (inv_status r \<noteq> Inv_void) (InvoiceErr 409 INVALID_STATE) = Inr g2"
      "guardE (\<not> Math_round (fmul (js_Number (rpi_amount input)) 100) > Math_round (fmul (js_Number (inv_balance r)) 100))
        (InvoiceErr 400 OVERPAYMENT) = Inr g3"
      and s1: "insertPayment (paymentValues (db_next s) i (inv_orgId r) input a) s = Inr s1"
      and s2: "recomputeInvoiceStatus i now s1 = Inr s2"
      and t: "Inr ((q, paymentValues (db_next s) i (inv_orgId r) input a),
        if inv_status q = Inv_paid
        then emit (InvoiceEvent Ev_invoice_paid i (inv_orgId r) (inv_partnerId r) None)
          (emit (InvoiceEvent Ev_payment_recorded i (inv_orgId r) (inv_partnerId r)
            (Some (pay_id (paymentValues (db_next s) i (inv_orgId r) input a)))) s2)
        else emit (InvoiceEvent Ev_payment_recorded i (inv_orgId r) (inv_partnerId r)
            (Some (pay_id (paymentValues (db_next s) i (inv_orgId r) input a)))) s2) = Inr (x, t)"
    then have r: "invOf s i = Some r" "live r"
      and g: "\<not> Math_round (fmul (js_Number (rpi_amount input)) 100) > Math_round (fmul (js_Number (inv_balance r)) 100)"
      by (simp_all add: getOwned_iff guardE_eq_Inr live_def)
    define p where "p = paymentValues (db_next s) i (inv_orgId r) input a"
    note s1 = s1[folded p_def]
    have p: "pay_id p = db_next s" "pay_invoiceId p = i" "pay_orgId p = inv_orgId r" "pay_amount p = amount"
      by (simp_all add: p_def paymentValues_def amount_def)
    have "0 < amount" "moneyFits amount" using s1 p(4) by (auto simp: insertPayment_def guard_simps)
    then have "of_int (cents_of amount) \<le> Math_round (fmul (js_Number (rpi_amount input)) 100)"
      unfolding amount_def by (intro stored_le_compared) (auto simp: moneyFits_money_ok money_ok_def)
    then have "of_int (cents_of (pay_amount p)) \<le> toCents (Some (inv_balance r))" using g p(4) by (simp add: toCents_def)
    then have "refines s s2"
      by (intro refines_pay[OF r p(1-3) _ _ s1 s2]) (simp_all add: p(4) amount_def)
    then show "refines s t" using t by (auto split: if_splits)
  qed
qed

text \<open>Deleting a payment, for a manual void or a full refund.\<close>

lemma refines_unpay:
  assumes p: "p \<in> set (db_invoicePayments s)"
    and u: "db_invoicePayments u = deleteWhere (\<lambda>q. pay_id q = pay_id p) (db_invoicePayments s)"
    and same: "same_tables (s \<lparr> db_invoicePayments := db_invoicePayments u, db_stripePayments := db_stripePayments u \<rparr>) u" "db_next u = db_next s"
    and m: "billing_ok s \<Longrightarrow> mappings_ok (db_next s) (db_invoicePayments u) (db_stripePayments u)"
    and t: "recomputeInvoiceStatus (pay_invoiceId p) now u = Inr t"
  shows "refines s t"
proof (rule refines_step)
  let ?i = "pay_invoiceId p"
  note st = same(1)[unfolded same_tables_def, simplified]
  show "rows_ok t" if "billing_ok s"
    by (rule rows_ok_recompute[OF t]) (use that m st same(2) in \<open>simp add: billing_ok_def rows_ok_def\<close>)
  assume ok: "billing_ok s"
  obtain r where r: "invOf s ?i = Some r" "inv_status r \<noteq> Inv_draft" using billing_paysD(2)[OF ok p] by auto
  have ui: "invOf u = invOf s" using st by (simp add: invOf_def[abs_def])
  have pe: "db_invoicePayments u = filter (\<lambda>q. pay_id q \<noteq> pay_id p) (db_invoicePayments s)" by (simp add: u deleteWhere_def)
  have le: "paidCents ?i (db_invoicePayments u) \<le> paidCents ?i (db_invoicePayments s)"
    unfolding pe using billing_paysD(1)[OF ok] by (intro paidCents_filter_le) simp
  have "paidCents ?i (db_invoicePayments u) < 2 ^ 49" using le billing_paid_bound[OF ok r(1)] by simp
  then obtain r' where r': "restated (db_invoicePayments u) r r'" "ledgerOf t = ledgerOf u \<lparr> lg_inv := (invOf s)(?i \<mapsto> r') \<rparr>"
    using restate_step[OF ok r ui t] billing_paysD(1)[OF ok] by (auto simp: pe)
  have "ledgerOf t = ledgerOf s \<lparr> lg_pays := filter (\<lambda>q. pay_id q \<noteq> pay_id p) (lg_pays (ledgerOf s)),
      lg_inv := (lg_inv (ledgerOf s))(?i \<mapsto> r') \<rparr>"
    unfolding r'(2) by (rule ledger.equality) (use st same(2) in \<open>simp_all add: pe knownSources_def billedSources_def\<close>)
  then show "ledger_step False (ledgerOf s) (ledgerOf t)"
    using ledger_step.unpay[of p "ledgerOf s" r r'] r p r'(1) by (simp add: pe)
qed

lemma refines_voidPayment:
  assumes "voidPayment k a now s = Inr (x, t)"
  shows "refines s t"
proof -
  obtain p s1 s2 e where p: "selectOne (\<lambda>p. pay_id p = k) (db_invoicePayments s) = Some p"
    and s1: "deletePaymentRow k s = Inr s1" and s2: "recomputeInvoiceStatus (pay_invoiceId p) now s1 = Inr s2"
    and t: "t = emit e s2"
    using assms unfolding voidPayment_def by (auto simp: bindE_eq_Inr ofOption_eq_Inr)
  have "p \<in> set (db_invoicePayments s)" "pay_id p = k" using selectOne_Some[OF p] by auto
  then have "refines s s2"
    by (intro refines_unpay[OF _ _ _ _ _ s2])
       (use s1 in \<open>auto simp: deletePaymentRow_def guard_simps same_tables_def billing_ok_def rows_ok_def mappings_ok_unlink\<close>)
  then show ?thesis by (simp add: t)
qed

lemma refines_markOverdue:
  assumes "invOf s (inv_id r) = Some r" "isOverdue today r"
  shows "refines s (markOverdue asOf r s)"
proof -
  let ?f = "\<lambda>q. q \<lparr> inv_status := Inv_overdue, inv_markedOverdueAt := Some asOf, inv_updatedAt := asOf \<rparr>"
  have "refines s (updateInvoices (inv_id r) ?f s)"
  proof (rule refines_step)
    show "rows_ok (updateInvoices (inv_id r) ?f s)" if "billing_ok s" using that by (simp add: billing_ok_def)
    show "ledger_step False (ledgerOf s) (ledgerOf (updateInvoices (inv_id r) ?f s))"
      using ledger_step.overdue[of "ledgerOf s" "inv_id r" r "?f r"] assms
      by (simp add: ledgerOf_update[OF assms(1)] isOverdue_def same_identity_def)
  qed
  then show ?thesis by (simp add: markOverdue_def)
qed

lemma refines_markAll:
  assumes "distinct (map inv_id due)" "\<And>r. r \<in> set due \<Longrightarrow> invOf s (inv_id r) = Some r \<and> isOverdue today r"
  shows "refines s (fold (markOverdue asOf) due s)"
  using assms
proof (induction due arbitrary: s)
  case (Cons r due)
  have "refines s (markOverdue asOf r s)" using Cons.prems(2)[of r] by (intro refines_markOverdue) auto
  also have "refines (markOverdue asOf r s) (fold (markOverdue asOf) due (markOverdue asOf r s))"
  proof (rule Cons.IH)
    fix q assume q: "q \<in> set due"
    then have "inv_id q \<noteq> inv_id r" using Cons.prems(1) by (metis distinct.simps(2) imageI list.map(2) list.set_map)
    then show "invOf (markOverdue asOf r s) (inv_id q) = Some q \<and> isOverdue today q"
      using Cons.prems(2)[of q] q by (simp add: markOverdue_def invOf_update)
  qed (use Cons.prems(1) in simp)
  finally show ?case by simp
qed simp

lemma refines_runOverdueSweep: "refines s (snd (runOverdueSweep asOf s))"
  unfolding refines_by_def
proof
  assume ok: "billing_ok s"
  let ?due = "selectWhere (isOverdue (utcDay asOf)) (db_invoices s)"
  have k: "key_ok inv_id (db_next s) (db_invoices s)" using ok by (simp add: billing_ok_def rows_ok_def)
  have "refines s (fold (markOverdue asOf) ?due s)"
  proof (rule refines_markAll)
    show "distinct (map inv_id ?due)" using k by (simp add: key_ok_def selectWhere_def distinct_map_filter)
    show "invOf s (inv_id r) = Some r \<and> isOverdue (utcDay asOf) r" if "r \<in> set ?due" for r
      using that selectOne_key[OF k, of r] by (simp add: invOf_def set_selectWhere)
  qed
  then show "rows_ok (snd (runOverdueSweep asOf s)) \<and> (ledger_step False)\<^sup>*\<^sup>* (ledgerOf s) (ledgerOf (snd (runOverdueSweep asOf s)))"
    using ok by (simp add: refines_by_def runOverdueSweep_def Let_def)
qed

end
