(* ===== verification/InvoiceProperties.thy ===== *)
theory InvoiceProperties
  imports InvoiceRefinement
begin

text \<open>
  What the invoice service guarantees. \<open>invoice_step\<close> is one call of the service or a
  change of a table the invoices do not depend on. The locale
  \<open>ledger_client\<close> derives the guarantees of any service whose steps refine the ledger; its
  interpretation here is the invoice service, later theories add the quotes, the contracts and
  the online payments.
\<close>

section \<open>Services over the ledger\<close>

locale ledger_client =
  fixes raises :: bool and step :: "db \<Rightarrow> db \<Rightarrow> bool"
  assumes step_refines: "step s t \<Longrightarrow> refines_by raises s t"
begin

lemma reaches_refines: "step\<^sup>*\<^sup>* s t \<Longrightarrow> refines_by raises s t"
  by (induction rule: rtranclp_induct) (auto intro: refines_trans step_refines)

lemma reaches_ok: "step\<^sup>*\<^sup>* s t \<Longrightarrow> billing_ok s \<Longrightarrow> billing_ok t"
  using reaches_refines refines_billing_ok by blast

lemma one_live_line:
  assumes "step\<^sup>*\<^sup>* s t" "billing_ok s" "l \<in> set (db_invoiceLines t)" "m \<in> set (db_invoiceLines t)"
    "sourceOf l = Some x" "sourceOf m = Some x"
    "invOf t (il_invoiceId l) = Some r" "live r" "invOf t (il_invoiceId m) = Some q" "live q"
  shows "l = m"
proof -
  have so: "sources_ok (ledgerOf t)" using reaches_ok[OF assms(1,2)] by (simp add: billing_ok_def ledger_ok_def)
  have "il_invoiceId l = il_invoiceId m"
  proof (rule ccontr)
    assume "il_invoiceId l \<noteq> il_invoiceId m"
    then have "sources (ledgerOf t) (il_invoiceId l) \<inter> sources (ledgerOf t) (il_invoiceId m) = {}"
      using sources_okD(4)[OF so] assms by simp
    then show False using assms by (auto simp: sources_def)
  qed
  then show ?thesis using sources_okD(2)[OF so, of l m] assms by simp
qed

lemma balanced:
  assumes "step\<^sup>*\<^sup>* s t" "billing_ok s" "invOf t i = Some r" "live r"
  shows "inv_amountPaid r = dollars (paidCents i (db_invoicePayments t))"
    and "inv_balance r = dollars (cents_of (inv_total r) - paidCents i (db_invoicePayments t))"
    and "inv_status r = Inv_paid \<Longrightarrow> inv_balance r \<le> 0"
    and "inv_status r \<in> {Inv_partially_paid, Inv_overdue} \<Longrightarrow> 0 < inv_balance r"
  using billing_invOf[OF reaches_ok[OF assms(1,2)] assms(3)] assms(4)
  by (auto simp: doc_ok_def doc_state_def live_def)

lemma never_overpaid:
  assumes "step\<^sup>*\<^sup>* s t" "billing_ok s" "\<not> raises" "solvent (ledgerOf s)"
  shows "solvent (ledgerOf t)"
  using reaches_refines[OF assms(1)] assms(2-) solvent_steps[of "ledgerOf s" "ledgerOf t"]
  by (simp add: refines_by_def billing_ok_def)

lemma numbers_unique:
  assumes "step\<^sup>*\<^sup>* s t" "billing_ok s" "invOf t i = Some r" "invOf t j = Some q"
    "inv_partnerId r = inv_partnerId q" "inv_invoiceNumber r = inv_invoiceNumber q" "inv_invoiceNumber r \<noteq> None"
  shows "i = j"
  using reaches_ok[OF assms(1,2)] assms(3-) unfolding billing_ok_def ledger_ok_def numbers_ok_def ledgerOf_sel by blast

lemma issued_final:
  assumes "step\<^sup>*\<^sup>* s t" "billing_ok s" "invOf s i = Some r" "inv_status r \<noteq> Inv_draft"
  shows "\<exists>r'. invOf t i = Some r' \<and> kept r r'"
proof -
  have "(ledger_step raises)\<^sup>*\<^sup>* (ledgerOf s) (ledgerOf t)" using reaches_refines[OF assms(1)] assms(2) by (simp add: refines_by_def)
  from issued_kept[OF this, of i r] show ?thesis using assms by (auto simp: billing_ok_def)
qed

end

section \<open>The invoice service\<close>

inductive invoice_step :: "db \<Rightarrow> db \<Rightarrow> bool" where
  "createManualInvoice orgId siteId notes tc a now s = Inr (r, t) \<Longrightarrow> invoice_step s t"
| "addManualLine i input a now s = Inr (l, t) \<Longrightarrow> invoice_step s t"
| "addCatalogLine i c qty a now s = Inr (l, t) \<Longrightarrow> invoice_step s t"
| "addBundleLine i c qty a now s = Inr (l, t) \<Longrightarrow> invoice_step s t"
| "addContractLine i cinput a now s = Inr (l, t) \<Longrightarrow> invoice_step s t"
| "updateLine i lineId lpatch a now s = Inr (r, t) \<Longrightarrow> invoice_step s t"
| "removeLine i lineId a now s = Inr (r, t) \<Longrightarrow> invoice_step s t"
| "deleteDraftInvoice i a s = Inr (u, t) \<Longrightarrow> invoice_step s t"
| "updateInvoice i ipatch a now s = Inr (r, t) \<Longrightarrow> invoice_step s t"
| "assembleDraftFromOrg orgId siteId from to a now s = Inr (v, t) \<Longrightarrow> invoice_step s t"
| "assembleDraftFromTicket ticketId a now s = Inr (v, t) \<Longrightarrow> invoice_step s t"
| "issueInvoice i a now s = Inr (r, t) \<Longrightarrow> 0 \<le> getUTCFullYear now \<Longrightarrow> invoice_step s t"
| "recordPayment i pinput a now s = Inr (x, t) \<Longrightarrow> invoice_step s t"
| "voidPayment k a now s = Inr (x, t) \<Longrightarrow> invoice_step s t"
| "voidInvoice i reason reissue a now s = Inr (v, t) \<Longrightarrow> invoice_step s t"
| "voidCommit i reason reissue a now s = Inr (d, t) \<Longrightarrow> invoice_step s t"
| "runOverdueSweep now s = (n, t) \<Longrightarrow> invoice_step s t"
| "markViewed i g now s = Inr (u, t) \<Longrightarrow> invoice_step s t"
| "updatePartnerBillingSettings ppatch a s = Inr (p, t) \<Longrightarrow> invoice_step s t"
| "updateOrgBillingSettings g opatch a s = Inr (o', t) \<Longrightarrow> invoice_step s t"
| elsewhere: "same_tables s t \<Longrightarrow> db_next s \<le> db_next t \<Longrightarrow> invoice_step s t"

lemma refines_sweep: "runOverdueSweep now s = (n, t) \<Longrightarrow> refines s t"
  using refines_runOverdueSweep[of s now] by simp

lemmas invoice_refines =
  refines_createManualInvoice refines_addManualLine refines_addCatalogLine refines_addBundleLine
  refines_addContractLine refines_updateLine refines_removeLine refines_deleteDraftInvoice refines_updateInvoice
  refines_assembleDraftFromOrg refines_assembleDraftFromTicket refines_issueInvoice refines_recordPayment
  refines_voidPayment refines_voidInvoice refines_voidCommit refines_markViewed refines_updatePartnerBillingSettings
  refines_updateOrgBillingSettings refines_frame refines_sweep

lemma invoice_step_refines: "invoice_step s t \<Longrightarrow> refines s t"
  by (induction rule: invoice_step.induct)
     ((erule invoice_refines; assumption)+)

interpretation invoicing: ledger_client False invoice_step
  by unfold_locales (rule invoice_step_refines)

lemma billing_ok_start:
  assumes "db_invoices s = []" "db_invoiceLines s = []" "db_invoicePayments s = []" "db_invoiceSequences s = []" "db_stripePayments s = []"
    "key_ok te_id (db_next s) (db_timeEntries s)" "key_ok tp_id (db_next s) (db_ticketParts s)"
  shows "billing_ok s"
proof -
  have "invOf s = (\<lambda>_. None)" using assms(1) by (simp add: invOf_def[abs_def] selectOne_def)
  then show ?thesis
    using assms by (simp add: billing_ok_def rows_ok_def ledger_ok_def docs_ok_def pays_ok_def lines_ok_def
      sources_ok_def numbers_ok_def sources_def seqValue_def selectOne_def mappings_ok_def)
qed

section \<open>A worked day\<close>

text \<open>
  Partner 10 with organization 20 and two unbilled hours-and-a-half of work on ticket 30. A draft
  is assembled from the ticket (\<open>day1\<close>), issued (\<open>day2\<close>) and half paid (\<open>day3\<close>). Literal
  amounts are evaluated by the exactness lemmas of the double arithmetic.
\<close>

lemma js_literals [js_simps]:
  "js_Number 100 = 100" "js_Number 150 = 150" "js_Number 300 = 300" "js_Number (3 / 2) = 3 / 2" "fdiv 90 60 = 3 / 2"
  "fmul (3 / 2) 100 = 150" "fmul 100 150 = 15000" "fmul 150 100 = 15000" "fmul 300 100 = 30000"
  "fadd 15000 (1 / 2) = 30001 / 2" "fadd 0 (1 / 2) = 1 / 2"
  "toCents (Some 0) = 0" "toCents (Some 150) = 15000" "toCents (Some 300) = 30000"
  "fadd 0 15000 = 15000" "fadd 15000 15000 = 30000" "fadd 30000 0 = 30000"
  "fsub 30000 0 = 30000" "fsub 30000 15000 = 15000"
  "fromCents 0 = 0" "fromCents 15000 = 150" "fromCents 30000 = 300"
  using rnd_of_int[of 100] rnd_of_int[of 150] rnd_of_int[of 300] rnd_half_int[of 3] rnd_of_int[of 15000]
    rnd_half_int[of 30001] rnd_half_int[of 1] toCents_dec[of 0] toCents_dec[of 15000] toCents_dec[of 30000]
    rnd_of_int[of 30000] fromCents_int[of 0] fromCents_int[of 15000] fromCents_int[of 30000]
  by (simp_all add: js_Number_def fadd_def fsub_def fmul_def fdiv_def)

lemma money_literals [js_simps]:
  "roundHalfUp 15000 = 15000" "roundHalfUp 0 = 0" "toFixed 2 (3 / 2) = 3 / 2" "toFixed 2 100 = 100" "toFixed 2 150 = 150"
  "moneyFits (3 / 2)" "moneyFits 100" "moneyFits 150" "moneyFits 300" "moneyFits 0"
  "numeric2 (3 / 2) = 3 / 2" "numeric2 100 = 100" "numeric2 150 = 150" "Math_round 15000 = 15000" "Math_round 30000 = 30000"
  by (simp_all add: roundHalfUp_def js_literals toFixed_def numeric2_def moneyFits_def Math_floor_def Math_round_def floor_eq_iff)

definition work_entry :: "uuid \<Rightarrow> time_entry" where
  "work_entry i = \<lparr> te_id = i, te_partnerId = 10, te_orgId = Some 20, te_ticketId = Some 30, te_userId = 7,
     te_startedAt = 1749994600000, te_endedAt = Some 1750000000000,
     te_durationMinutes = Some 90, te_description = Some ''Onsite'', te_isBillable = True,
     te_hourlyRate = Some 100, te_billingStatus = Bill_not_billed, te_isApproved = True, te_approvedBy = Some 7, te_approvedAt = Some 1750000000000, te_updatedAt = 0 \<rparr>"

definition work_ticket :: ticket where
  "work_ticket = \<lparr> tk_id = 30, tk_orgId = 20, tk_ticketNumber = ''ABC'', tk_submittedBy = None, tk_submitterEmail = None,
     tk_submitterName = None, tk_subject = ''Server down'', tk_description = None, tk_status = Tk_open, tk_priority = Prio_high,
     tk_assignedTo = None, tk_deviceId = None, tk_tags = [], tk_firstResponseAt = None, tk_resolvedAt = None, tk_closedAt = None,
     tk_partnerId = Some 10, tk_categoryId = None, tk_pendingReason = None, tk_dueDate = None, tk_responseSlaMinutes = Some 240,
     tk_resolutionSlaMinutes = Some 1440, tk_slaBreachedAt = None, tk_slaBreachReason = None, tk_slaPausedAt = None,
     tk_slaPausedMinutes = Some 0, tk_source = From_manual, tk_internalNumber = Some ''T-2025-0001'',
     tk_emailMessageId = None, tk_emailThreadKey = None, tk_closedBy = None,
     tk_resolutionNote = None, tk_statusId = None, tk_createdAt = 1749990000000, tk_updatedAt = 1749990000000 \<rparr>"

lemma work_ticket_sel: "tk_id work_ticket = 30" "tk_orgId work_ticket = 20" "tk_partnerId work_ticket = Some 10" "tk_categoryId work_ticket = None"
  by (simp_all add: work_ticket_def)

definition acme :: organization where
  "acme = \<lparr> org_id = 20, org_partnerId = 10, org_name = ''Acme'', org_taxId = None,
     org_taxExempt = True, org_taxRate = None, org_billingAddress = no_address \<rparr>"

definition msp_partner :: partner where
  "msp_partner = \<lparr> pr_id = 10, pr_name = ''MSP'', pr_slug = ''msp'', pr_status = Partner_active, pr_settings = None, pr_billingEmail = None, pr_currencyCode = ''USD'',
     pr_defaultTaxRate = None, pr_invoiceNumberPrefix = ''INV'', pr_invoiceTermsDays = 30, pr_invoiceFooter = None,
     pr_billingCompanyName = None, pr_billingPhone = None, pr_billingWebsite = None,
     pr_billingAddress = no_address, pr_billingTermsAndConditions = None \<rparr>"

definition day0 :: db where
  "day0 = empty_db \<lparr> db_next := 100, db_partners := [msp_partner], db_organizations := [acme],
     db_tickets := [work_ticket], db_timeEntries := [work_entry 40, work_entry 41] \<rparr>"

definition noon :: instant where
  "noon = 1750075200000"

definition work_draft :: "uuid \<Rightarrow> invoice" where
  "work_draft i = writeTotals \<lparr> subtotal = 300, taxTotal = 0, total = 300 \<rparr> (Some 0) 300 noon
     ((blankInvoice i 10 20 noon) \<lparr> inv_siteId := None, inv_createdBy := Some 7 \<rparr>)"

definition work_line :: "uuid \<Rightarrow> uuid \<Rightarrow> uuid \<Rightarrow> int \<Rightarrow> invoice_line" where
  "work_line k i e ord = lineRow k i 20 ord (timeEntryToLineSpec (work_entry e))"

definition day1 :: db where
  "day1 = day0 \<lparr> db_next := 103, db_invoices := [work_draft 100],
     db_invoiceLines := [work_line 101 100 40 0, work_line 102 100 41 1] \<rparr>"

text \<open>A second draft of the same work: assembling reserves nothing.\<close>

definition day1_twice :: db where
  "day1_twice = day1 \<lparr> db_next := 106, db_invoices := [work_draft 100, work_draft 103],
     db_invoiceLines := [work_line 101 100 40 0, work_line 102 100 41 1, work_line 104 103 40 0, work_line 105 103 41 1] \<rparr>"

lemma day0_sel:
  "db_next day0 = 100" "db_invoices day0 = []" "db_invoiceLines day0 = []" "db_invoicePayments day0 = []"
  "db_timeEntries day0 = [work_entry 40, work_entry 41]" "db_ticketParts day0 = []"
  "db_tickets day0 = [work_ticket]" "db_stripeAccounts day0 = []" "db_stripePayments day0 = []"
  "db_invoiceSequences day0 = []" "db_organizations day0 = [acme]" "db_partners day0 = [msp_partner]"
  by (simp_all add: day0_def empty_db_def)

lemma acme_sel:
  "org_id acme = 20" "org_partnerId acme = 10" "org_taxExempt acme" "org_taxRate acme = None"
  "pr_id msp_partner = 10" "pr_defaultTaxRate msp_partner = None" "pr_invoiceNumberPrefix msp_partner = ''INV''"
  by (simp_all add: acme_def msp_partner_def)

lemma work_entry_sel:
  "te_id (work_entry i) = i" "te_ticketId (work_entry i) = Some 30" "unbilledTime (work_entry i)"
  "te_billingStatus (work_entry i) = Bill_not_billed"
  by (simp_all add: work_entry_def unbilledTime_def)

lemma work_line_sel:
  "il_id (work_line k i e ord) = k" "il_invoiceId (work_line k i e ord) = i" "il_customerVisible (work_line k i e ord)"
  "il_sourceType (work_line k i e ord) = Src_time_entry" "il_sourceId (work_line k i e ord) = Some e"
  "lineFits (work_line k i e ord)" "il_sortOrder (work_line k i e ord) = ord"
  "lineTotalsRow (work_line k i e ord) = \<lparr> lineTotal = 150, taxable = False, customerVisible = True \<rparr>"
  by (simp_all add: work_line_def lineRow_def timeEntryToLineSpec_def work_entry_def Let_def lineTotalsRow_def
      lineFits_def computeLineTotal_def js_simps)

lemma work_draft_sel:
  "inv_id (work_draft i) = i" "inv_orgId (work_draft i) = 20" "inv_partnerId (work_draft i) = 10"
  "inv_status (work_draft i) = Inv_draft" "inv_total (work_draft i) = 300"
  "inv_termsAndConditions (work_draft i) = None" "inv_voidedAt (work_draft i) = None"
  by (simp_all add: work_draft_def writeTotals_def blankInvoice_def)

lemma work_totals:
  "computeInvoiceTotals [\<lparr> lineTotal = 150, taxable = False, customerVisible = True \<rparr>,
     \<lparr> lineTotal = 150, taxable = False, customerVisible = True \<rparr>] (Some 0) =
   \<lparr> subtotal = 300, taxTotal = 0, total = 300 \<rparr>"
  by (simp add: computeInvoiceTotals_def js_simps)

lemmas lookup_defs = requirePartner_def requireOrgAccess_def orgAccessible_def draftForEdit_def assertDraft_def
  getOwnedInvoiceOr404_def invOf_def linesOf_def paymentsOf_def orgOf_def partnerOf_def orgOfPartner_def
  getConnection_def
lemmas statement_defs = selectOne_def selectWhere_def updateWhere_def insertRow_def orderByInt_def updateInvoices_def

lemmas day_sel = day0_sel work_ticket_sel acme_sel work_entry_sel work_line_sel work_draft_sel

lemma after_eq: "m = Inr (x, t) \<Longrightarrow> \<exists>x. m = Inr (x, t)"
  by blast

lemmas assemble_defs = assembleDraftFromTicket_def gatherTicketBillables_def assembleDraft_def insertInvoice_def
  insertLine_def getInvoice_def recomputeInvoiceTotals_def effectiveRateForOrg_def resolveEffectiveTaxRate_def
  blankInvoice_def writeTotals_def

lemma day1_eq: "\<exists>v. assembleDraftFromTicket 30 msp noon day0 = Inr (v, day1)"
  by (rule after_eq)
     (simp add: assemble_defs lookup_defs statement_defs day_sel msp_def Let_def work_totals js_simps day1_def
       work_draft_def flip: work_line_def)

lemma day1_sel:
  "db_invoices day1 = [work_draft 100]" "db_invoiceLines day1 = [work_line 101 100 40 0, work_line 102 100 41 1]"
  "db_next day1 = 103" "db_tickets day1 = db_tickets day0" "db_timeEntries day1 = db_timeEntries day0"
  "db_ticketParts day1 = []" "db_organizations day1 = [acme]" "db_partners day1 = [msp_partner]"
  "db_stripeAccounts day1 = []" "db_invoiceSequences day1 = []" "db_invoicePayments day1 = []" "db_stripePayments day1 = []"
  by (simp_all add: day1_def day0_sel)

lemma day1_twice_eq: "\<exists>v. assembleDraftFromTicket 30 msp noon day1 = Inr (v, day1_twice)"
  by (rule after_eq)
     (simp add: assemble_defs lookup_defs statement_defs day_sel day1_sel msp_def Let_def work_totals js_simps
       day1_twice_def work_draft_def[of 103] flip: work_line_def)

definition issued_invoice :: "uuid \<Rightarrow> int \<Rightarrow> invoice" where
  "issued_invoice i n = issueFields (Some acme) (Some msp_partner) (formatInvoiceNumber ''INV'' 2025 n) 0
     \<lparr> subtotal = 300, taxTotal = 0, total = 300 \<rparr> None noon (work_draft i)"

definition billed_entry :: "uuid \<Rightarrow> time_entry" where
  "billed_entry i = (work_entry i) \<lparr> te_billingStatus := Bill_billed, te_updatedAt := noon \<rparr>"

definition day2 :: db where
  "day2 = day1 \<lparr> db_invoices := [issued_invoice 100 1], db_timeEntries := [billed_entry 40, billed_entry 41],
     db_invoiceSequences := [\<lparr> seq_partnerId = 10, seq_year = 2025, seq_counter = 1 \<rparr>],
     db_events := db_events day1 @ [InvoiceEvent Ev_invoice_issued 100 20 10 None, PdfRender 100] \<rparr>"

lemma noon_year: "getUTCFullYear noon = 2025" and noon_day: "utcDay noon = ''2025-06-16''"
  by code_simp+

lemma day2_eq: "\<exists>v. issueInvoice 100 msp noon day1 = Inr (v, day2)"
  by (rule after_eq)
     (simp add: issueInvoice_def issueRead_def issueGuard_def issueWrite_def lookup_defs statement_defs day_sel day1_sel msp_def
        Let_def work_totals js_simps noon_year timeIdsOf_def partIdsOf_def nextCounter_def resolveEffectiveTaxRate_def
        setSources_def day2_def issued_invoice_def billed_entry_def emit_def issueFields_def)

definition half_payment :: record_payment_input where
  "half_payment = \<lparr> rpi_amount = 150, rpi_method = Pay_check, rpi_reference = None,
     rpi_receivedAt = ''2025-06-16'', rpi_note = None \<rparr>"

definition day3 :: db where
  "day3 = day2 \<lparr> db_next := 104,
     db_invoices := [restate [paymentValues 103 100 20 half_payment msp] noon (issued_invoice 100 1)],
     db_invoicePayments := [paymentValues 103 100 20 half_payment msp],
     db_events := db_events day2 @ [InvoiceEvent Ev_payment_recorded 100 20 10 (Some 103)] \<rparr>"

lemma issued_invoice_sel:
  "inv_id (issued_invoice i n) = i" "inv_orgId (issued_invoice i n) = 20" "inv_partnerId (issued_invoice i n) = 10"
  "inv_status (issued_invoice i n) = Inv_sent" "inv_total (issued_invoice i n) = 300" "inv_balance (issued_invoice i n) = 300"
  "inv_voidedAt (issued_invoice i n) = None" "inv_invoiceNumber (issued_invoice i n) = Some (formatInvoiceNumber ''INV'' 2025 n)"
  "inv_dueDate (issued_invoice i n) = Some (utcDay (noon + 2592000000))"
  by (simp_all add: issued_invoice_def issueFields_def day_sel msp_partner_def)

lemma day2_sel:
  "db_invoices day2 = [issued_invoice 100 1]" "db_invoiceLines day2 = [work_line 101 100 40 0, work_line 102 100 41 1]"
  "db_next day2 = 103" "db_invoicePayments day2 = []" "db_stripePayments day2 = []"
  by (simp_all add: day2_def day1_sel)

lemma due_day: "endOfDay (utcDay (noon + 2592000000)) = 1752710399000"
  by code_simp

lemma half_status:
  "deriveInvoiceStatus False True 300 150 (Some (utcDay (noon + 2592000000))) noon = Inv_partially_paid"
  using due_day by (simp add: deriveInvoiceStatus_def js_simps noon_def)

lemma day3_eq: "\<exists>v. recordPayment 100 half_payment msp noon day2 = Inr (v, day3)"
  by (rule after_eq)
     (simp add: recordPayment_def lookup_defs statement_defs day2_sel issued_invoice_sel half_payment_def paymentValues_def
       insertPayment_def recomputeInvoiceStatus_def restate_def sumCents_def half_status Let_def js_simps msp_def
       day3_def emit_def)

lemma day_steps: "invoice_step day0 day1" "invoice_step day1 day1_twice" "invoice_step day1 day2" "invoice_step day2 day3"
  using day1_eq day1_twice_eq day2_eq day3_eq noon_year by (auto intro: invoice_step.intros)

lemma day0_ok: "billing_ok day0"
  by (rule billing_ok_start) (simp_all add: day_sel key_ok_def)

lemma days_ok: "billing_ok day1" "billing_ok day1_twice" "billing_ok day2"
  using day_steps day0_ok by (blast intro: refines_billing_ok invoice_step_refines)+

lemma invOf_day2: "invOf day2 100 = Some (issued_invoice 100 1)"
  by (simp add: invOf_def selectOne_def day2_sel issued_invoice_sel)

section \<open>Draft edits\<close>

text \<open>
  Once an invoice has left the draft state no operation changes its lines, its totals or its
  fields: every edit, deletion and second issue is refused with 409 \<open>NOT_A_DRAFT\<close> before anything is
  written, whoever calls.
\<close>

lemma edits_need_draft:
  assumes "invOf s i = Some r" "inv_status r \<noteq> Inv_draft" and "e = InvoiceErr 409 NOT_A_DRAFT"
  shows "addManualLine i input a now s = Inl e \<and>
    addCatalogLine i c qty a now s = Inl e \<and>
    addBundleLine i c qty a now s = Inl e \<and>
    addContractLine i cinput a now s = Inl e \<and>
    updateLine i k lpatch a now s = Inl e \<and>
    removeLine i k a now s = Inl e \<and>
    updateInvoice i ipatch a now s = Inl e \<and>
    deleteDraftInvoice i a s = Inl e \<and>
    issueInvoice i a now s = Inl e \<and>
    recomputeInvoiceTotals i override now s = Inl e"
proof -
  have "draftForEdit i a s = Inl e" "getOwnedInvoiceOr404 i s = Inr r" "assertDraft r = Inl e"
    using assms by (simp_all add: draftForEdit_def getOwnedInvoiceOr404_def assertDraft_def)
  then show ?thesis
    by (simp add: addManualLine_def addCatalogLine_def addBundleLine_def addContractLine_def updateLine_def removeLine_def
        updateInvoice_def deleteDraftInvoice_def issueInvoice_def issueRead_def recomputeInvoiceTotals_def)
qed

lemma edits_need_draft_witness:
  "issueInvoice 100 msp noon day2 = Inl (InvoiceErr 409 NOT_A_DRAFT) \<and>
   deleteDraftInvoice 100 msp day2 = Inl (InvoiceErr 409 NOT_A_DRAFT)"
  using edits_need_draft[OF invOf_day2 _ refl] by (simp add: issued_invoice_sel)

section \<open>Recording a payment\<close>

lemma toFixed_dollars: "\<bar>c\<bar> < 2 ^ 51 \<Longrightarrow> toFixed 2 (js_Number (dollars c)) = dollars c"
  using fromCents_int[of c] by (simp add: fromCents_def fdiv_def js_Number_def dollars_def)

lemma toCents_dollars: "\<bar>c\<bar> < 2 ^ 50 \<Longrightarrow> Math_round (fmul (js_Number (dollars c)) 100) = of_int c"
  using toCents_dec[of c] by (simp add: toCents_def dollars_def)

lemma balance_bound:
  assumes "billing_ok s" "invOf s i = Some r" "live r"
  shows "\<exists>b. inv_balance r = dollars b \<and> b = cents_of (inv_total r) - paidCents i (db_invoicePayments s) \<and> \<bar>b\<bar> < 10 ^ 12"
  using billing_invOf[OF assms(1,2)] assms(3) by (auto simp: doc_ok_def doc_state_def live_def)

text \<open>The success path: the insert and the recomputation both go through.\<close>

lemma payment_restates:
  assumes ok: "billing_ok s" "invOf s i = Some r" "live r"
    and p: "pay_invoiceId p = i" "pay_amount p = dollars c" "0 < c" "c < 10 ^ 12" "c \<le> cents_of (inv_balance r)"
    and u: "u = s \<lparr> db_next := n, db_invoicePayments := db_invoicePayments s @ [p] \<rparr>"
  shows "insertPayment p s = Inr (s \<lparr> db_next := Suc (db_next s), db_invoicePayments := db_invoicePayments s @ [p] \<rparr>)"
    and "\<exists>r'. recomputeInvoiceStatus i now u = Inr (updateInvoices i (restate (paymentsOf u i) now) u) \<and>
      r' = restate (paymentsOf u i) now r \<and> restated (db_invoicePayments u) r r'"
proof -
  have m: "money_ok (dollars c)" using p by (simp add: money_ok_def)
  then show "insertPayment p s = Inr (s \<lparr> db_next := Suc (db_next s), db_invoicePayments := db_invoicePayments s @ [p] \<rparr>)"
    using p by (simp add: insertPayment_def moneyFits_money_ok insertRow_def)
  obtain b where b: "inv_balance r = dollars b" "b = cents_of (inv_total r) - paidCents i (db_invoicePayments s)" "\<bar>b\<bar> < 10 ^ 12"
    using balance_bound[OF ok] by blast
  have n0: "0 \<le> paidCents i (db_invoicePayments s)"
    using billing_paysD(1)[OF ok(1)] by (intro paidCents_nonneg) simp
  have pc: "paidCents i (db_invoicePayments u) = paidCents i (db_invoicePayments s) + c"
    using p by (simp add: u paidCents_append)
  note d = billing_invOf[OF ok(1,2)]
  have "restated (db_invoicePayments u) r (restate (paymentsOf u i) now r)"
    unfolding paymentsOf_filter
  proof (rule restated_restate)
    show "money_ok (inv_total r)" "inv_invoiceNumber r \<noteq> None" "inv_id r = i"
      using d ok(3) by (simp_all add: doc_ok_def doc_state_def live_def)
    show "money_ok (pay_amount q) \<and> 0 < cents_of (pay_amount q)" if "q \<in> set (db_invoicePayments u)" for q
      using that billing_paysD(1)[OF ok(1)] m p by (auto simp: u)
    show "paidCents i (db_invoicePayments u) < 2 ^ 49" using pc p billing_paid_bound[OF ok(1,2)] by simp
  qed
  moreover have "moneyFits (inv_amountPaid r') \<and> moneyFits (inv_balance r')"
    if "restated (db_invoicePayments u) r r'" for r'
    using that pc b n0 p d by (auto simp: restated_def moneyFits_money_ok money_ok_def doc_ok_def doc_state_def)
  ultimately show "\<exists>r'. recomputeInvoiceStatus i now u = Inr (updateInvoices i (restate (paymentsOf u i) now) u) \<and>
      r' = restate (paymentsOf u i) now r \<and> restated (db_invoicePayments u) r r'"
    using ok(2) by (simp add: u recomputeInvoiceStatus_def getOwnedInvoiceOr404_def invOf_def Let_def)
qed

text \<open>
  (C24) What \<open>recordPayment\<close> does with an amount of whole cents, on every branch: a draft or a void
  invoice refuses with 409, an amount above the open balance with 400 \<open>OVERPAYMENT\<close>, and any other
  amount is always accepted: one payment row is added with exactly that amount, the balance goes down
  by it, and the invoice is paid exactly when the balance reaches zero.
\<close>

theorem recordPayment_outcome:
  assumes "billing_ok s" "invOf s i = Some r" "orgAccessible a (inv_orgId r)"
    and "rpi_amount input = dollars c" "0 < c" "c < 10 ^ 12"
  shows "if \<not> live r then recordPayment i input a now s = Inl (InvoiceErr 409 INVALID_STATE)
    else if cents_of (inv_balance r) < c then recordPayment i input a now s = Inl (InvoiceErr 400 OVERPAYMENT)
    else \<exists>r' p t. recordPayment i input a now s = Inr ((r', p), t) \<and> invOf t i = Some r' \<and>
      paymentsOf t i = paymentsOf s i @ [p] \<and> pay_amount p = dollars c \<and>
      inv_balance r' = dollars (cents_of (inv_balance r) - c) \<and>
      (inv_status r' = Inv_paid \<longleftrightarrow> c = cents_of (inv_balance r))"
proof (cases "live r")
  case False
  then show ?thesis
    using assms(2,3) by (auto simp: recordPayment_def getOwnedInvoiceOr404_def requireOrgAccess_def live_def)
next
  case True
  obtain b where b: "inv_balance r = dollars b" "\<bar>b\<bar> < 10 ^ 12" "b = cents_of (inv_total r) - paidCents i (db_invoicePayments s)"
    using balance_bound[OF assms(1,2) True] by blast
  have cmp: "Math_round (fmul (js_Number (rpi_amount input)) 100) > Math_round (fmul (js_Number (inv_balance r)) 100) \<longleftrightarrow> b < c"
    unfolding assms(4) b(1) using assms(5,6) b(2) by (simp add: toCents_dollars)
  note pre = assms(2,3) True[unfolded live_def]
  show ?thesis
  proof (cases "b < c")
    case True
    then show ?thesis
      using pre b(1) by (simp add: live_def recordPayment_def getOwnedInvoiceOr404_def requireOrgAccess_def cmp[unfolded b(1)])
  next
    case False
    define p where "p = paymentValues (db_next s) i (inv_orgId r) input a"
    define u where "u = s \<lparr> db_next := Suc (db_next s), db_invoicePayments := db_invoicePayments s @ [p] \<rparr>"
    define r' where "r' = restate (paymentsOf u i) now r"
    define t where "t = updateInvoices i (restate (paymentsOf u i) now) u"
    have p: "pay_invoiceId p = i" "pay_amount p = dollars c"
      using assms(4-6) by (simp_all add: p_def paymentValues_def toFixed_dollars)
    have le: "c \<le> cents_of (inv_balance r)" using False b(1) by simp
    note pr = payment_restates[OF assms(1,2) True p assms(5,6) le u_def]
    have ins: "insertPayment p s = Inr u" and rec: "recomputeInvoiceStatus i now u = Inr t"
      and re: "restated (db_invoicePayments u) r r'"
      using pr(1)[folded u_def] pr(2)[of now, folded t_def r'_def] by auto
    have it: "invOf t i = Some r'" using assms(2) by (simp add: t_def r'_def u_def invOf_update) (simp add: invOf_def)
    have pc: "paidCents i (db_invoicePayments u) = paidCents i (db_invoicePayments s) + c"
      using p by (simp add: u_def paidCents_append)
    have "inv_id r = i" using billing_invOf[OF assms(1,2)] by (simp add: doc_ok_def)
    then have bal: "inv_balance r' = dollars (b - c)" and st: "inv_status r' = Inv_paid \<longleftrightarrow> inv_balance r' \<le> 0"
      using re pc b(3) billing_invOf[OF assms(1,2)] True
      by (auto simp: restated_def doc_ok_def doc_state_def live_def algebra_simps split: if_splits)
    have "\<exists>t'. recordPayment i input a now s = Inr ((r', p), t') \<and> invOf t' i = Some r' \<and> db_invoicePayments t' = db_invoicePayments t"
      using pre cmp False ins rec it
      by (simp add: recordPayment_def getOwnedInvoiceOr404_def requireOrgAccess_def Let_def flip: p_def)
    moreover have "db_invoicePayments t = db_invoicePayments s @ [p]" by (simp add: t_def u_def)
    ultimately obtain t' where "recordPayment i input a now s = Inr ((r', p), t')" "invOf t' i = Some r'"
      "db_invoicePayments t' = db_invoicePayments s @ [p]" by auto
    moreover have "paymentsOf t' i = paymentsOf s i @ [p]" using calculation(3) p by (simp add: paymentsOf_filter)
    ultimately show ?thesis using True False b(1) p bal st le by auto
  qed
qed

theorem recordPayment_outcome_witness:
  "\<exists>r' p t. recordPayment 100 half_payment msp noon day2 = Inr ((r', p), t) \<and> inv_balance r' = 150"
  using recordPayment_outcome[OF days_ok(3) invOf_day2, of msp half_payment 15000 noon]
  by (auto simp: issued_invoice_sel half_payment_def live_def orgAccessible_def msp_def dollars_def cents_of_def)

section \<open>The double-bill guard\<close>

lemma issueWrite_issues:
  assumes "issueWrite i r ts ps now s = Inr t" "invOf s i = Some q"
  shows "\<exists>q'. invOf t i = Some q' \<and> live q'" "db_invoiceLines t = db_invoiceLines s"
    "\<And>j. j \<noteq> i \<Longrightarrow> invOf t j = invOf s j"
    "billedSources t = billedSources s \<union> ((TimeSource ` set ts \<union> PartSource ` set ps) \<inter> knownSources s)"
proof -
  obtain org partner number taxRate tot c sq where
    t: "t = setSources Bill_billed ts ps now (updateInvoices i
      (issueFields org partner number taxRate tot (inv_termsAndConditions r) now) (s \<lparr> db_invoiceSequences := sq \<rparr>))"
    using assms(1) by (rule issueWrite_eq)
  have base: "invOf (s \<lparr> db_invoiceSequences := sq \<rparr>) = invOf s" by (simp add: invOf_def[abs_def])
  show "\<exists>q'. invOf t i = Some q' \<and> live q'" using assms(2) by (simp add: t invOf_update base live_def)
  show "db_invoiceLines t = db_invoiceLines s" by (simp add: t)
  show "invOf t j = invOf s j" if "j \<noteq> i" for j using that by (simp add: t invOf_update base)
  show "billedSources t = billedSources s \<union> ((TimeSource ` set ts \<union> PartSource ` set ps) \<inter> knownSources s)"
    by (simp add: t billedSources_bill) (simp add: billedSources_def knownSources_def)
qed

text \<open>
  (C36) The double-bill guard protects only against an issue that has already committed. When two
  calls that issue two drafts of the same work both pass the guard before either writes, both
  writes succeed and the work stands on two live invoices; had the second guard run after the
  first write it would have refused with 409 \<open>SOURCE_ALREADY_BILLED\<close>. The guard's
  \<open>FOR UPDATE\<close> selects only rows already billed, so it locks none of the rows it should.
\<close>

theorem issue_race_double_bills:
  assumes "billing_ok s" "i \<noteq> j"
    and "issueRead i a s = Inr (r, ts, ps)" "issueGuard ts ps s = Inr ()"
    and "issueRead j b s = Inr (q, us, vs)" "issueGuard us vs s = Inr ()"
    and "issueWrite i r ts ps now s = Inr s1" "issueWrite j q us vs now' s1 = Inr s2"
    and "l \<in> set (linesOf s i)" "m \<in> set (linesOf s j)" "sourceOf l = Some x" "sourceOf m = Some x"
  shows "(\<exists>r' q'. invOf s2 i = Some r' \<and> live r' \<and> invOf s2 j = Some q' \<and> live q') \<and>
    l \<in> set (linesOf s2 i) \<and> m \<in> set (linesOf s2 j) \<and>
    issueGuard us vs s1 = Inl (InvoiceErr 409 SOURCE_ALREADY_BILLED)"
proof -
  have r: "invOf s i = Some r" "invOf s j = Some q"
    and src: "x \<in> TimeSource ` set ts \<union> PartSource ` set ps" "x \<in> TimeSource ` set us \<union> PartSource ` set vs"
    using assms(3,5,9-12) by (auto simp: issueRead_eq sourceOf_eq set_timeIdsOf set_partIdsOf)
  note w1 = issueWrite_issues[OF assms(7) r(1)]
  note w2 = issueWrite_issues[OF assms(8), unfolded w1(3)[OF assms(2)[symmetric]], OF r(2)]
  have "x \<in> knownSources s"
    using assms(1,9,11) by (intro clonable(3)[OF assms(1) r(1)]) (auto simp: orderByInt_def)
  then have "x \<in> billedSources s1" using src w1(4) by blast
  then have "issueGuard us vs s1 \<noteq> Inr ()" using src(2) issueGuard_eq[of us vs s1 "()"] by auto
  then have "issueGuard us vs s1 = Inl (InvoiceErr 409 SOURCE_ALREADY_BILLED)"
    by (auto simp: issueGuard_def bindE_def guardE_def split: if_splits)
  moreover have "\<exists>r'. invOf s2 i = Some r' \<and> live r'" using w1(1) w2(3)[of i] assms(2) by simp
  moreover have "linesOf s2 k = linesOf s k" for k using w1(2) w2(2) by (simp add: linesOf_def)
  ultimately show ?thesis using w2(1) assms(9,10) by simp
qed

text \<open>Both drafts of the same work in \<open>day1_twice\<close> are issued by two such calls.\<close>

definition race1 :: db where
  "race1 = setSources Bill_billed [40, 41] [] noon (updateInvoices 100
     (issueFields (Some acme) (Some msp_partner) (formatInvoiceNumber ''INV'' 2025 1) 0
       \<lparr> subtotal = 300, taxTotal = 0, total = 300 \<rparr> None noon)
     (day1_twice \<lparr> db_invoiceSequences := [\<lparr> seq_partnerId = 10, seq_year = 2025, seq_counter = 1 \<rparr>] \<rparr>))"

lemma day1_twice_sel:
  "db_invoices day1_twice = [work_draft 100, work_draft 103]"
  "db_invoiceLines day1_twice = [work_line 101 100 40 0, work_line 102 100 41 1, work_line 104 103 40 0, work_line 105 103 41 1]"
  "db_timeEntries day1_twice = [work_entry 40, work_entry 41]" "db_ticketParts day1_twice = []"
  "db_organizations day1_twice = [acme]" "db_partners day1_twice = [msp_partner]" "db_invoiceSequences day1_twice = []"
  by (simp_all add: day1_twice_def day1_sel day0_sel)

lemmas issue_defs = issueRead_def issueGuard_def issueWrite_def timeIdsOf_def partIdsOf_def nextCounter_def
  resolveEffectiveTaxRate_def

lemma race_reads:
  "issueRead 100 msp day1_twice = Inr (work_draft 100, [40, 41], [])"
  "issueRead 103 msp day1_twice = Inr (work_draft 103, [40, 41], [])"
  "issueGuard [40, 41] [] day1_twice = Inr ()"
  by (simp_all add: issue_defs lookup_defs statement_defs day1_twice_sel day_sel msp_def)

lemma race_write1: "issueWrite 100 (work_draft 100) [40, 41] [] noon day1_twice = Inr race1"
  by (simp add: issue_defs lookup_defs statement_defs day1_twice_sel day_sel Let_def work_totals js_simps noon_year
      race1_def)

lemma race_write2: "\<exists>t. issueWrite 103 (work_draft 103) [40, 41] [] noon race1 = Inr t"
  by (simp add: issue_defs lookup_defs statement_defs day1_twice_sel day_sel Let_def work_totals js_simps noon_year
      race1_def setSources_def seqKey_def)

theorem issue_race_double_bills_witness:
  "issueGuard [40, 41] [] race1 = Inl (InvoiceErr 409 SOURCE_ALREADY_BILLED) \<and>
   (\<exists>t r q. issueWrite 103 (work_draft 103) [40, 41] [] noon race1 = Inr t \<and>
      invOf t 100 = Some r \<and> live r \<and> invOf t 103 = Some q \<and> live q)"
proof -
  obtain t where t: "issueWrite 103 (work_draft 103) [40, 41] [] noon race1 = Inr t" using race_write2 by blast
  show ?thesis
    using issue_race_double_bills[OF days_ok(2) _ race_reads(1,3,2,3) race_write1 t,
      of "work_line 101 100 40 0" "work_line 104 103 40 0" "TimeSource 40"] t
    by (auto simp: linesOf_def selectWhere_def day1_twice_sel work_line_sel sourceOf_def)
qed

section \<open>Void and reissue\<close>

text \<open>What a line says, apart from its identity and place.\<close>

definition line_content :: "invoice_line \<Rightarrow> invoice_line" where
  "line_content l = l \<lparr> il_id := 0, il_invoiceId := 0, il_parentLineId := None \<rparr>"

lemma content_clone [simp]: "line_content (cloneLine k d p l) = line_content l"
  by (simp add: line_content_def cloneLine_def)

lemma content_clones:
  "length ks = length cs \<Longrightarrow> map line_content (map2 (\<lambda>k l. cloneLine k d (f l) l) ks cs) = map line_content cs"
  by (induction ks cs rule: list_induct2) simp_all

lemma linesOf_cloneLines:
  "linesOf (cloneLines f d cs s) j = linesOf s j @
     (if j = d then map2 (\<lambda>k l. cloneLine k d (f l) l) [db_next s ..< db_next s + length cs] cs else [])"
  by (auto simp: linesOf_def selectWhere_def cloneLines_rows filter_empty_conv set_zip cloneLine_def intro!: filter_True_if)

lemma linesOf_fresh: "billing_ok s \<Longrightarrow> linesOf s (db_next s) = []"
  using billing_linesD(1)[of s] invOf_fresh[of s "db_next s"]
  by (fastforce simp: linesOf_def selectWhere_def filter_empty_conv)

lemma cloneLines_frame [simp]:
  "db_timeEntries (cloneLines f d cs s) = db_timeEntries s" "db_ticketParts (cloneLines f d cs s) = db_ticketParts s"
  "db_organizations (cloneLines f d cs s) = db_organizations s"
  by (induction cs arbitrary: s) simp_all

lemma reissueDraft_rows:
  assumes ok: "billing_ok s" and t: "reissueDraft i r a now s = Inr (d, t)" and q: "invOf s i = Some q"
  shows "d = db_next s" "invOf t i = Some (q \<lparr> inv_replacedByInvoiceId := Some d \<rparr>)"
    "\<exists>w. invOf t d = Some w \<and> inv_status w = Inv_draft \<and> inv_replacesInvoiceId w = Some i \<and> inv_amountPaid w = 0 \<and> inv_orgId w = inv_orgId r"
    "mset (map line_content (linesOf t d)) = mset (map line_content (linesOf s i))"
    "linesOf t i = linesOf s i" "billedSources t = billedSources s"
proof -
  define draft where "draft = (blankInvoice (db_next s) (inv_partnerId r) (inv_orgId r) now) \<lparr>
            inv_siteId := inv_siteId r, inv_notes := inv_notes r,
            inv_replacesInvoiceId := Some i, inv_createdBy := a_userId a \<rparr>"
  have draft: "inv_id draft = db_next s" "inv_status draft = Inv_draft" "inv_replacesInvoiceId draft = Some i"
    "inv_amountPaid draft = 0" "inv_orgId draft = inv_orgId r"
    by (simp_all add: draft_def blankInvoice_def)
  obtain s1 where s1: "insertInvoice draft s = Inr s1"
    using t unfolding reissueDraft_def Let_def draft_def[symmetric] by (auto simp: bindE_eq_Inr)
  define s2 where "s2 = updateInvoices i (\<lambda>r. r \<lparr> inv_replacedByInvoiceId := Some (inv_id draft) \<rparr>) s1"
  define src where "src = orderByInt il_sortOrder (linesOf s i)"
  define parents children where "parents = filter (\<lambda>l. il_parentLineId l = None) src"
    and "children = filter (\<lambda>l. il_parentLineId l \<noteq> None) src"
  define s3 where "s3 = cloneLines (\<lambda>_. None) (inv_id draft) parents s2"
  have s2: "linesOf s2 = linesOf s" "invOf s1 = (invOf s)(inv_id draft \<mapsto> draft)" "billedSources s2 = billedSources s"
    using s1 invOf_insert[OF ok s1 draft(1)]
    by (simp_all add: s2_def insertInvoice_eq linesOf_def[abs_def] billedSources_def updateInvoices_def)
  have l1: "linesOf s1 = linesOf s" using s1 by (simp add: insertInvoice_eq linesOf_def[abs_def])
  define f where "f = (\<lambda>l :: invoice_line. case il_parentLineId l of None \<Rightarrow> None | Some x \<Rightarrow> oldToNew parents (db_next s2) x)"
  have te: "t = cloneLines f (inv_id draft) children s3" and d: "d = inv_id draft"
    using t s1 unfolding reissueDraft_def Let_def draft_def[symmetric]
    by (auto simp: s3_def s2_def parents_def children_def f_def src_def l1 cong: option.case_cong)
  show d1: "d = db_next s" using d draft(1) by simp
  have ne: "i \<noteq> d" using q invOf_fresh[OF ok, of d] d1 by auto
  have ti: "invOf t = invOf s2" by (simp add: te s3_def invOf_def[abs_def] cloneLines_rows)
  show "invOf t i = Some (q \<lparr> inv_replacedByInvoiceId := Some d \<rparr>)"
    using q ne d by (simp add: ti) (simp add: s2_def invOf_update s2(2))
  show "\<exists>w. invOf t d = Some w \<and> inv_status w = Inv_draft \<and> inv_replacesInvoiceId w = Some i \<and> inv_amountPaid w = 0 \<and> inv_orgId w = inv_orgId r"
    using ne d draft by (auto simp: ti s2_def invOf_update s2(2))
  have "linesOf t d = map2 (\<lambda>k l. cloneLine k d None l) [db_next s2 ..< db_next s2 + length parents] parents @
      map2 (\<lambda>k l. cloneLine k d (f l) l) [db_next s3 ..< db_next s3 + length children] children"
    using linesOf_fresh[OF ok] d1 by (simp add: te s3_def linesOf_cloneLines s2(1) flip: d)
  moreover have "map line_content (map2 (\<lambda>k l. cloneLine k d None l) [db_next s2 ..< db_next s2 + length parents] parents) =
      map line_content parents" by (rule content_clones) simp
  moreover have "map line_content (map2 (\<lambda>k l. cloneLine k d (f l) l) [db_next s3 ..< db_next s3 + length children] children) =
      map line_content children" by (rule content_clones) simp
  ultimately have "map line_content (linesOf t d) = map line_content (parents @ children)" by (simp only: map_append)
  moreover have "mset (parents @ children) = mset (linesOf s i)"
  proof -
    have "mset (parents @ children) = mset src" unfolding parents_def children_def by (simp flip: multiset_partition)
    then show ?thesis by (simp add: src_def orderByInt_def)
  qed
  ultimately show "mset (map line_content (linesOf t d)) = mset (map line_content (linesOf s i))" by (metis mset_map)
  show "linesOf t i = linesOf s i" using ne by (simp add: te s3_def linesOf_cloneLines s2(1) flip: d)
  show "billedSources t = billedSources s" using s2(3) by (simp add: te s3_def billedSources_def)
qed

text \<open>
  (C25) Voiding with reissue: the voided invoice stays on record with its lines and points to its
  replacement; the replacement is a draft that carries exactly the same lines (up to their
  identities), and all the work on them is billable again, so the draft can be issued.
\<close>

theorem voidInvoice_reissues:
  assumes ok: "billing_ok s" and v: "voidInvoice i reason True a now s = Inr ((d, dls, online), t)"
  shows "(\<exists>r. invOf t i = Some r \<and> inv_status r = Inv_void \<and> inv_replacedByInvoiceId r = Some (inv_id d)) \<and>
    linesOf t i = linesOf s i \<and> invOf t (inv_id d) = Some d \<and> inv_status d = Inv_draft \<and>
    inv_replacesInvoiceId d = Some i \<and> mset (map line_content dls) = mset (map line_content (linesOf s i)) \<and>
    sources (ledgerOf s) i \<inter> billedSources t = {}"
proof -
  obtain r where r: "invOf s i = Some r" "live r"
    using v unfolding voidInvoice_def voidCommit_def by (auto simp: bindE_eq_Inr getOwned_iff guardE_eq_Inr live_def Let_def)
  define s1 where "s1 = setSources Bill_not_billed (timeIdsOf (linesOf s i)) (partIdsOf (linesOf s i)) now
      (updateInvoices i (voidFields reason now) s)"
  obtain k s2 e u where s2: "reissueDraft i r a now s1 = Inr (k, s2)"
    and t: "recomputeInvoiceTotals k None now (emit e s2) = Inr (u, t)"
    and g: "getInvoice k a t = Inr (d, dls, online)"
    using v r unfolding voidInvoice_def voidCommit_def Let_def s1_def by (auto simp: bindE_eq_Inr getOwned_iff)
  obtain tot rate bal where tt: "t = updateInvoices k (writeTotals tot rate bal now) (emit e s2)"
    using t unfolding recomputeInvoiceTotals_def Let_def by (auto simp: guard_simps)
  have ok1: "billing_ok s1" unfolding s1_def by (rule refines_billing_ok[OF refines_void[OF r] ok])
  have i1: "invOf s1 i = Some (voidFields reason now r)" using r by (simp add: s1_def invOf_update voidFields_def)
  note rows = reissueDraft_rows[OF ok1 s2 i1]
  have ne: "i \<noteq> k" using rows(1) i1 invOf_fresh[OF ok1, of k] by auto
  have wt: "inv_id (writeTotals tot rate bal now q) = inv_id q" for q by (simp add: writeTotals_def)
  have ti: "invOf t j = (if j = k then map_option (writeTotals tot rate bal now) (invOf s2 k) else invOf s2 j)" for j
    by (simp add: tt invOf_update[OF wt])
  have tl: "linesOf t j = linesOf s2 j" "billedSources t = billedSources s2" for j
    by (simp_all add: tt linesOf_def billedSources_def)
  have dk: "invOf t k = Some d" "dls = orderByInt il_sortOrder (linesOf t k)"
    using g by (auto simp: getInvoice_def guard_simps)
  then have d: "inv_id d = k" using selectOne_Some[of "\<lambda>r. inv_id r = k"] by (auto simp: invOf_def)
  have "inv_status d = Inv_draft \<and> inv_replacesInvoiceId d = Some i"
    using rows(3) dk(1) by (auto simp: ti writeTotals_def)
  moreover have "mset (map line_content dls) = mset (map line_content (linesOf s i))"
    using rows(4) by (simp add: dk(2) orderByInt_def tl) (simp add: s1_def)
  moreover have "linesOf t i = linesOf s i" using rows(5) by (simp add: tl) (simp add: s1_def)
  moreover have "sources (ledgerOf s) i \<inter> billedSources t = {}"
    unfolding tl rows(6) s1_def billedSources_release sources_linesOf by blast
  ultimately show ?thesis using rows(2) ne d dk(1) by (simp add: ti voidFields_def)
qed

lemma day2_more:
  "db_organizations day2 = [acme]" "db_timeEntries day2 = [billed_entry 40, billed_entry 41]" "db_ticketParts day2 = []"
  "db_stripeAccounts day2 = []"
  by (simp_all add: day2_def day1_sel)

lemma totals_content: "lineTotalsRow (line_content l) = lineTotalsRow l"
  by (simp add: lineTotalsRow_def line_content_def)

lemma mset_twice: "mset xs = {#a, a#} \<Longrightarrow> xs = [a, a]"
proof -
  assume m: "mset xs = {#a, a#}"
  have len: "length xs = Suc (Suc 0)" using arg_cong[OF m, of size] by simp
  have "y = a" if "y \<in> set xs" for y using that arg_cong[OF m, of set_mset] by simp
  from replicate_eqI[OF len this] show ?thesis by simp
qed

lemma totals_mset:
  assumes "mset (map line_content xs) = mset (map line_content ys)"
  shows "mset (map lineTotalsRow xs) = mset (map lineTotalsRow ys)"
proof -
  have c: "mset (map lineTotalsRow zs) = image_mset lineTotalsRow (mset (map line_content zs))" for zs
    by (induction zs) (simp_all add: totals_content)
  show ?thesis unfolding c[of xs] c[of ys] assms ..
qed

lemma voidable: "\<exists>d dls online t. voidInvoice 100 ''wrong rate'' True msp noon day2 = Inr ((d, dls, online), t)"
proof -
  define s1 where "s1 = setSources Bill_not_billed (timeIdsOf (linesOf day2 100)) (partIdsOf (linesOf day2 100)) noon
      (updateInvoices 100 (voidFields ''wrong rate'' noon) day2)"
  have org: "db_organizations s1 = [acme]" by (simp add: s1_def updateInvoices_def day2_more)
  have live: "live (issued_invoice 100 1)" by (simp add: live_def issued_invoice_sel)
  have ok1: "billing_ok s1" unfolding s1_def by (rule refines_billing_ok[OF refines_void[OF invOf_day2 live] days_ok(3)])
  have i1: "invOf s1 100 = Some (voidFields ''wrong rate'' noon (issued_invoice 100 1))"
    using invOf_day2 by (simp add: s1_def invOf_update voidFields_def)
  obtain k s2 where s2: "reissueDraft 100 (issued_invoice 100 1) msp noon s1 = Inr (k, s2)" "db_organizations s2 = [acme]"
    using org by (auto simp: reissueDraft_def insertInvoice_def orgOfPartner_def blankInvoice_def issued_invoice_sel acme_sel
        Let_def updateInvoices_def)
  note rows = reissueDraft_rows[OF ok1 s2(1) i1]
  define e where "e = InvoiceEvent Ev_invoice_voided 100 20 10 None"
  have "mset (map lineTotalsRow (linesOf s2 k)) = mset (map lineTotalsRow (linesOf day2 100))"
    using totals_mset[OF rows(4)] by (simp add: s1_def)
  then have ls: "map lineTotalsRow (linesOf s2 k) =
      [\<lparr> lineTotal = 150, taxable = False, customerVisible = True \<rparr>, \<lparr> lineTotal = 150, taxable = False, customerVisible = True \<rparr>]"
    by (intro mset_twice) (simp add: linesOf_def[of day2] selectWhere_def day2_sel work_line_sel)
  obtain w where w: "invOf s2 k = Some w" "inv_status w = Inv_draft" "inv_amountPaid w = 0" "inv_orgId w = 20"
    using rows(3) by (auto simp: issued_invoice_sel)
  have rec: "recomputeInvoiceTotals k None noon (emit e s2) = Inr ((), updateInvoices k
      (writeTotals \<lparr> subtotal = 300, taxTotal = 0, total = 300 \<rparr> (Some 0) 300 noon) (emit e s2))" (is "_ = Inr ((), ?t)")
    using w ls s2(2)
    by (simp add: recomputeInvoiceTotals_def getOwnedInvoiceOr404_def assertDraft_def Let_def linesOf_def[of "emit e s2"] linesOf_def[of s2]
        effectiveRateForOrg_def orgOf_def selectOne_def acme_sel resolveEffectiveTaxRate_def work_totals js_simps)
  have "\<exists>v. getInvoice k msp ?t = Inr v"
    using w by (simp add: getInvoice_def getOwnedInvoiceOr404_def invOf_update writeTotals_def
        requireOrgAccess_def orgAccessible_def msp_def)
  then show ?thesis
    using invOf_day2 live s2(1) rec
    by (auto simp: voidInvoice_def voidCommit_def getOwnedInvoiceOr404_def requireOrgAccess_def orgAccessible_def live_def
        issued_invoice_sel Let_def msp_def simp flip: s1_def e_def)
qed

theorem voidInvoice_reissues_witness:
  "\<exists>d dls online t. voidInvoice 100 ''wrong rate'' True msp noon day2 = Inr ((d, dls, online), t) \<and>
     inv_replacesInvoiceId d = Some 100 \<and> length dls = 2"
proof -
  obtain d dls online t where v: "voidInvoice 100 ''wrong rate'' True msp noon day2 = Inr ((d, dls, online), t)"
    using voidable by blast
  have "mset (map line_content dls) = mset (map line_content (linesOf day2 100)) \<and> inv_replacesInvoiceId d = Some 100"
    using voidInvoice_reissues[OF days_ok(3) v] by blast
  moreover have "length (linesOf day2 100) = 2" by (simp add: linesOf_def selectWhere_def day2_sel work_line_sel)
  ultimately have "length dls = 2 \<and> inv_replacesInvoiceId d = Some 100" by (metis length_map mset_eq_length)
  then show ?thesis using v by blast
qed

end
