(* ===== verification/BillingFrame.thy ===== *)
theory BillingFrame
  imports InvoiceProperties
begin

text \<open>
  What a call of the invoice service leaves alone: contracts, quotes, the claims on billing periods,
  and the counts contracts bill by. The one trace it leaves there is the foreign key of a deleted
  invoice, which is set to null. The properties of contracts and quotes rest on this frame, since
  both services call the invoice service.
\<close>

section \<open>Loops over a preorder of states\<close>

lemma fold_path:
  assumes "reflp R" "transp R" "\<And>x u. x \<in> set xs \<Longrightarrow> R u (f x u)"
  shows "R s (fold f xs s)"
  using assms(3)
proof (induction xs arbitrary: s)
  case (Cons x xs)
  have "R s (f x s)" "R (f x s) (fold f xs (f x s))" using Cons by simp_all
  then show ?case using assms(2) by (auto dest: transpD)
qed (simp add: assms(1) reflpD)

lemma foldE_path:
  assumes "reflp R" "transp R" "foldE f xs s = Inr t" "\<And>x u v. x \<in> set xs \<Longrightarrow> f x u = Inr v \<Longrightarrow> R u v"
  shows "R s t"
  using assms(3)
proof (rule foldE_invariant[where P = "R s"])
  show "R s s" using assms(1) by (rule reflpD)
  show "R s v" if "x \<in> set xs" "R s u" "f x u = Inr v" for x u v
    using transpD[OF assms(2) that(2)] assms(4) that by blast
qed

section \<open>The frame\<close>

definition claimOf :: "billing_period \<Rightarrow> uuid \<times> iso_date" where
  "claimOf b = (bp_contractId b, bp_periodStart b)"

definition unlinked :: "quote \<Rightarrow> quote" where
  "unlinked q = q \<lparr> q_convertedInvoiceId := None \<rparr>"

definition keeps :: "db \<Rightarrow> db \<Rightarrow> bool" where
  "keeps s t \<longleftrightarrow> db_next s \<le> db_next t \<and> db_contracts t = db_contracts s \<and> db_contractLines t = db_contractLines s \<and>
     db_renewalNotices t = db_renewalNotices s \<and> map claimOf (db_billingPeriods t) = map claimOf (db_billingPeriods s) \<and>
     map unlinked (db_quotes t) = map unlinked (db_quotes s) \<and> db_quoteLines t = db_quoteLines s \<and>
     db_devices t = db_devices s \<and> db_orgUsers t = db_orgUsers s \<and> db_users t = db_users s"

lemma keeps_refl [simp]: "keeps s s"
  by (simp add: keeps_def)

lemma keeps_trans [trans]: "keeps s t \<Longrightarrow> keeps t u \<Longrightarrow> keeps s u"
  by (simp add: keeps_def)

lemma keepsD:
  assumes "keeps s t"
  shows "db_next s \<le> db_next t" "db_contracts t = db_contracts s" "db_contractLines t = db_contractLines s"
    "db_renewalNotices t = db_renewalNotices s" "map claimOf (db_billingPeriods t) = map claimOf (db_billingPeriods s)"
    "map unlinked (db_quotes t) = map unlinked (db_quotes s)" "db_quoteLines t = db_quoteLines s"
    "db_devices t = db_devices s" "db_orgUsers t = db_orgUsers s" "db_users t = db_users s"
  using assms by (simp_all add: keeps_def)

lemma keeps_emit [simp]: "keeps s (emit e t) = keeps s t" "keeps (emit e s) t = keeps s t"
  by (simp_all add: keeps_def emit_def)

lemma keeps_updateInvoices [simp]: "keeps s (updateInvoices i f t) = keeps s t" "keeps (updateInvoices i f s) t = keeps s t"
  by (simp_all add: keeps_def updateInvoices_def)

lemma keeps_setSources [simp]: "keeps s (setSources st ts ps now t) = keeps s t" "keeps (setSources st ts ps now s) t = keeps s t"
  by (simp_all add: keeps_def setSources_def)

section \<open>Every call of the invoice service\<close>

lemma keeps_preorder: "reflp keeps" "transp keeps"
  by (auto intro: reflpI transpI keeps_trans)

lemmas keeps_foldE = foldE_path[OF keeps_preorder]
lemmas keeps_fold = fold_path[OF keeps_preorder]

lemma keeps_insertInvoice: "insertInvoice r s = Inr t \<Longrightarrow> keeps s t"
  by (auto simp: insertInvoice_def guard_simps keeps_def)

lemma keeps_insertLine: "insertLine l s = Inr t \<Longrightarrow> keeps s t"
  by (auto simp: insertLine_def guard_simps keeps_def)

lemma keeps_recomputeTotals: "recomputeInvoiceTotals i ov now s = Inr (u, t) \<Longrightarrow> keeps s t"
  by (auto simp: recomputeInvoiceTotals_def guard_simps Let_def)

lemma keeps_insertLineAndRecompute: "insertLineAndRecompute i g p now s = Inr (l, t) \<Longrightarrow> keeps s t"
  unfolding insertLineAndRecompute_def Let_def
  by (auto elim!: bindE_InrE dest!: keeps_insertLine keeps_recomputeTotals intro: keeps_trans)

lemma keeps_createManualInvoice: "createManualInvoice g site notes tc a now s = Inr (r, t) \<Longrightarrow> keeps s t"
  unfolding createManualInvoice_def Let_def by (auto elim!: bindE_InrE dest: keeps_insertInvoice)

lemma keeps_addManualLine: "addManualLine i input a now s = Inr (l, t) \<Longrightarrow> keeps s t"
  unfolding addManualLine_def by (auto elim!: bindE_InrE dest: keeps_insertLineAndRecompute)

lemma keeps_addCatalogLine: "addCatalogLine i c qty a now s = Inr (l, t) \<Longrightarrow> keeps s t"
  unfolding addCatalogLine_def Let_def by (auto elim!: bindE_InrE dest: keeps_insertLineAndRecompute)

lemma keeps_addContractLine: "addContractLine i input a now s = Inr (l, t) \<Longrightarrow> keeps s t"
  unfolding addContractLine_def by (auto elim!: bindE_InrE dest: keeps_insertLineAndRecompute)

lemma keeps_bundleChildren: "foldE (bundleChild i g p) cs s = Inr t \<Longrightarrow> keeps s t"
  by (erule keeps_foldE) (auto simp: bundleChild_def dest: keeps_insertLine)

lemma keeps_addBundleLine: "addBundleLine i c qty a now s = Inr (l, t) \<Longrightarrow> keeps s t"
  unfolding addBundleLine_def
  by (auto elim!: bindE_InrE dest!: keeps_insertLineAndRecompute keeps_bundleChildren keeps_recomputeTotals)
     (blast intro: keeps_trans)

lemma keeps_lines [simp]: "keeps s (t \<lparr> db_invoiceLines := ls \<rparr>) = keeps s t"
  by (simp add: keeps_def)

lemma keeps_lines_left [simp]: "keeps (s \<lparr> db_invoiceLines := ls \<rparr>) t = keeps s t"
  by (simp add: keeps_def)

lemma keeps_updateLine: "updateLine i lineId p a now s = Inr (r, t) \<Longrightarrow> keeps s t"
  unfolding updateLine_def by (auto elim!: bindE_InrE dest!: keeps_recomputeTotals)

lemma keeps_removeLine: "removeLine i lineId a now s = Inr (r, t) \<Longrightarrow> keeps s t"
  unfolding removeLine_def by (auto elim!: bindE_InrE dest!: keeps_recomputeTotals)

lemma keeps_deleteInvoiceRow [simp]: "keeps s (deleteInvoiceRow i s)"
  by (simp add: keeps_def deleteInvoiceRow_def updateWhere_def claimOf_def unlinked_def)

lemma keeps_deleteDraftInvoice: "deleteDraftInvoice i a s = Inr (u, t) \<Longrightarrow> keeps s t"
  unfolding deleteDraftInvoice_def by (auto elim!: bindE_InrE)

lemma keeps_updateInvoice: "updateInvoice i p a now s = Inr (r, t) \<Longrightarrow> keeps s t"
  unfolding updateInvoice_def Let_def by (auto elim!: bindE_InrE)

lemma keeps_materializeLines: "materializeLines i g ps n s = Inr t \<Longrightarrow> keeps s t"
  by (induction ps arbitrary: n s) (auto elim!: bindE_InrE dest!: keeps_insertLine intro: keeps_trans)

lemma keeps_assembleDraft: "assembleDraft p g site specs a now s = Inr (v, t) \<Longrightarrow> keeps s t"
  unfolding assembleDraft_def Let_def
  by (auto elim!: bindE_InrE dest!: keeps_insertInvoice keeps_materializeLines keeps_recomputeTotals intro: keeps_trans)

lemma keeps_assembleDraftFromOrg: "assembleDraftFromOrg g site from to a now s = Inr (v, t) \<Longrightarrow> keeps s t"
  unfolding assembleDraftFromOrg_def by (auto elim!: bindE_InrE dest: keeps_assembleDraft)

lemma keeps_assembleDraftFromTicket: "assembleDraftFromTicket k a now s = Inr (v, t) \<Longrightarrow> keeps s t"
  unfolding assembleDraftFromTicket_def by (auto elim!: bindE_InrE dest: keeps_assembleDraft)

lemma keeps_issueWrite: "issueWrite i r ts ps now s = Inr t \<Longrightarrow> keeps s t"
  unfolding issueWrite_def Let_def
  by (auto elim!: bindE_InrE split: prod.splits) (simp add: keeps_def)

lemma keeps_issueInvoice: "issueInvoice i a now s = Inr (r, t) \<Longrightarrow> keeps s t"
  unfolding issueInvoice_def Let_def by (auto elim!: bindE_InrE dest: keeps_issueWrite)

lemma keeps_insertPayment: "insertPayment p s = Inr t \<Longrightarrow> keeps s t"
  by (auto simp: insertPayment_def guard_simps keeps_def)

lemma keeps_recomputeStatus: "recomputeInvoiceStatus i now s = Inr t \<Longrightarrow> keeps s t"
  by (auto simp: recomputeInvoiceStatus_def guard_simps Let_def)

lemma keeps_recordPayment: "recordPayment i input a now s = Inr (x, t) \<Longrightarrow> keeps s t"
  unfolding recordPayment_def Let_def
  by (auto elim!: bindE_InrE dest!: keeps_insertPayment keeps_recomputeStatus intro: keeps_trans)

lemma keeps_deletePaymentRow: "deletePaymentRow k s = Inr t \<Longrightarrow> keeps s t"
  by (auto simp: deletePaymentRow_def guard_simps keeps_def)

lemma keeps_voidPayment: "voidPayment k a now s = Inr (x, t) \<Longrightarrow> keeps s t"
  unfolding voidPayment_def
  by (auto elim!: bindE_InrE dest!: keeps_deletePaymentRow keeps_recomputeStatus intro: keeps_trans)

lemma keeps_cloneLines: "keeps s (cloneLines f d ls s)"
proof (induction ls arbitrary: s)
  case (Cons l ls)
  have "keeps s (s \<lparr> db_next := Suc (db_next s), db_invoiceLines := insertRow (cloneLine (db_next s) d (f l) l) (db_invoiceLines s) \<rparr>)"
    by (simp add: keeps_def)
  from keeps_trans[OF this Cons] show ?case by simp
qed simp

lemma keeps_reissueDraft: "reissueDraft i r a now s = Inr (d, t) \<Longrightarrow> keeps s t"
  unfolding reissueDraft_def Let_def
  by (auto elim!: bindE_InrE dest!: keeps_insertInvoice)
     (meson keeps_cloneLines keeps_trans keeps_updateInvoices keeps_refl)

lemma keeps_voidCommit: "voidCommit i reason reissue a now s = Inr (d, t) \<Longrightarrow> keeps s t"
  unfolding voidCommit_def Let_def
  by (auto elim!: bindE_InrE split: if_splits dest!: keeps_reissueDraft)

lemma keeps_voidInvoice: "voidInvoice i reason reissue a now s = Inr (v, t) \<Longrightarrow> keeps s t"
  unfolding voidInvoice_def
  by (auto elim!: bindE_InrE split: option.splits dest!: keeps_voidCommit keeps_recomputeTotals)
     (rule keeps_trans)

lemma keeps_runOverdueSweep: "runOverdueSweep now s = (n, t) \<Longrightarrow> keeps s t"
  unfolding runOverdueSweep_def Let_def by (auto intro!: keeps_fold simp: markOverdue_def)

lemma keeps_markViewed: "markViewed i g now s = Inr (u, t) \<Longrightarrow> keeps s t"
  unfolding markViewed_def Let_def by (auto elim!: bindE_InrE)

lemmas invoice_keeps =
  keeps_createManualInvoice keeps_addManualLine keeps_addCatalogLine keeps_addBundleLine keeps_addContractLine
  keeps_updateLine keeps_removeLine keeps_deleteDraftInvoice keeps_updateInvoice keeps_assembleDraftFromOrg
  keeps_assembleDraftFromTicket keeps_issueInvoice keeps_recordPayment keeps_voidPayment keeps_voidInvoice keeps_voidCommit
  keeps_runOverdueSweep keeps_markViewed

section \<open>Calls outside the ledger\<close>

text \<open>A call that writes no table of the ledger, whatever it does to the others.\<close>

definition outside :: "db \<Rightarrow> db \<Rightarrow> bool" where
  "outside s t \<longleftrightarrow> same_tables s t \<and> db_next s \<le> db_next t"

lemma outside_refl [simp]: "outside s s"
  by (simp add: outside_def same_tables_def)

lemma outside_trans [trans]: "outside s t \<Longrightarrow> outside t u \<Longrightarrow> outside s u"
  by (simp add: outside_def same_tables_def)

lemma outside_emit [simp]: "outside s (emit e t) = outside s t" "outside (emit e s) t = outside s t"
  by (simp_all add: outside_def same_tables_def emit_def)

lemma outside_preorder: "reflp (\<lambda>u v. outside (snd u) (snd v))" "transp (\<lambda>u v. outside (snd u) (snd v))"
  by (auto intro!: reflpI transpI intro: outside_trans)

lemma refines_preorder: "reflp refines" "transp refines"
  by (auto intro: reflpI transpI refines_trans)

lemma refines_outside: "outside s t \<Longrightarrow> refines s t"
  by (simp add: outside_def refines_frame)

end
