(* ===== verification/ContractService.thy ===== *)
theory ContractService
  imports InvoiceService
begin

text \<open>
  Recurring contracts (\<open>contractService.ts\<close>), the counts they bill by (\<open>contractQuantities.ts\<close>), their
  renewal (\<open>contractRenewal.ts\<close>), the daily billing job (\<open>jobs/contractWorker.ts\<close>), and the contract
  specifications made from an accepted quote (\<open>quoteToContract.ts\<close>). Definitions only;
  \<open>ContractProperties\<close> holds what they guarantee. Each function is one transaction, \<open>now\<close> its clock.
\<close>

section \<open>Guards and lookups\<close>

definition contractOf :: "db \<Rightarrow> uuid \<Rightarrow> contract option" where
  "contractOf s i = selectOne (\<lambda>c. c_id c = i) (db_contracts s)"

definition contractLinesOf :: "db \<Rightarrow> uuid \<Rightarrow> contract_line list" where
  "contractLinesOf s i = orderByInt cl_sortOrder (selectWhere (\<lambda>l. cl_contractId l = i) (db_contractLines s))"

definition updateContracts :: "uuid \<Rightarrow> (contract \<Rightarrow> contract) \<Rightarrow> db \<Rightarrow> db" where
  "updateContracts i f s = s \<lparr> db_contracts := updateWhere (\<lambda>c. c_id c = i) f (db_contracts s) \<rparr>"

definition contractOrgAccess :: "actor \<Rightarrow> uuid \<Rightarrow> svc_error + unit" where
  "contractOrgAccess a orgId = guardE (orgAccessible a orgId) (ContractErr 403 C_ORG_DENIED)"

definition getOwnedContractOr404 :: "uuid \<Rightarrow> actor \<Rightarrow> db \<Rightarrow> svc_error + contract" where
  "getOwnedContractOr404 i a s =
     bindE (ofOption (ContractErr 404 CONTRACT_NOT_FOUND) (contractOf s i)) (\<lambda>c.
     bindE (contractOrgAccess a (c_orgId c)) (\<lambda>_. Inr c))"

definition assertDraftContract :: "contract \<Rightarrow> svc_error + unit" where
  "assertDraftContract c = guardE (c_status c = Ct_draft) (ContractErr 409 C_NOT_A_DRAFT)"

definition assertEditable :: "contract \<Rightarrow> svc_error + unit" where
  "assertEditable c = guardE (\<not> (c_status c \<noteq> Ct_draft \<and> c_status c \<noteq> Ct_active)) (ContractErr 409 C_INVALID_STATE)"

section \<open>Create, read, edit\<close>

record contract_input =
  cin_orgId :: uuid
  cin_name :: string
  cin_billingTiming :: billing_timing
  cin_intervalMonths :: int
  cin_startDate :: iso_date
  cin_endDate :: "iso_date option"
  cin_autoIssue :: "bool option"
  cin_currencyCode :: "string option"
  cin_notes :: "string option"
  cin_terms :: "string option"
  cin_autoRenew :: "bool option"
  cin_renewalTermMonths :: "int option"
  cin_renewalNoticeDays :: "int option"

text \<open>An insert into \<open>contracts\<close>, with its check \<open>interval_months > 0\<close>.\<close>

definition insertContract :: "contract \<Rightarrow> db \<Rightarrow> svc_error + db" where
  "insertContract c s =
     bindE (guardE (0 < c_intervalMonths c) (JsError ''check violation'')) (\<lambda>_.
     Inr (s \<lparr> db_next := Suc (db_next s), db_contracts := insertRow c (db_contracts s) \<rparr>))"

definition createContract :: "contract_input \<Rightarrow> actor \<Rightarrow> instant \<Rightarrow> db \<Rightarrow> contract svc" where
  "createContract input a now s =
     bindE (contractOrgAccess a (cin_orgId input)) (\<lambda>_.
     bindE (guardE (a_partnerId a \<noteq> None) (ContractErr 403 C_ORG_DENIED)) (\<lambda>_.
     bindE (ofOption (ContractErr 404 CONTRACT_NOT_FOUND) (orgOf s (cin_orgId input))) (\<lambda>org.
     let row = \<lparr> c_id = db_next s, c_partnerId = org_partnerId org, c_orgId = cin_orgId input,
           c_name = cin_name input, c_status = Ct_draft, c_billingTiming = cin_billingTiming input,
           c_intervalMonths = cin_intervalMonths input, c_startDate = cin_startDate input,
           c_endDate = cin_endDate input, c_nextBillingAt = None,
           c_autoIssue = nullish (cin_autoIssue input) False, c_autoRenew = nullish (cin_autoRenew input) False,
           c_renewalTermMonths = cin_renewalTermMonths input, c_renewalNoticeDays = cin_renewalNoticeDays input,
           c_currencyCode = nullish (cin_currencyCode input) ''USD'', c_notes = cin_notes input,
           c_terms = cin_terms input, c_createdBy = a_userId a, c_createdAt = now, c_updatedAt = now \<rparr>
     in bindE (insertContract row s) (\<lambda>s1. Inr (row, s1)))))"

definition getContract :: "uuid \<Rightarrow> actor \<Rightarrow> db \<Rightarrow> svc_error + (contract \<times> contract_line list \<times> billing_period list)" where
  "getContract i a s = bindE (getOwnedContractOr404 i a s) (\<lambda>c.
     Inr (c, contractLinesOf s i,
       rev (sort_key bp_periodStart (selectWhere (\<lambda>b. bp_contractId b = i) (db_billingPeriods s)))))"

subsection \<open>contractQuantities.ts\<close>

definition countContractDevices :: "uuid \<Rightarrow> uuid option \<Rightarrow> db \<Rightarrow> nat" where
  "countContractDevices orgId siteId s = length (selectWhere (\<lambda>d.
     dev_orgId d = orgId \<and> dev_status d \<noteq> Dev_decommissioned \<and>
     (case siteId of None \<Rightarrow> True | Some x \<Rightarrow> dev_siteId d = x)) (db_devices s))"

definition countContractSeats :: "uuid \<Rightarrow> db \<Rightarrow> nat" where
  "countContractSeats orgId s = length (remdups (map ou_userId (selectWhere (\<lambda>m.
     ou_orgId m = orgId \<and> (\<exists>u \<in> set (db_users s). usr_id u = ou_userId m \<and> usr_status u = User_active)) (db_orgUsers s))))"

subsection \<open>The recurring-value estimate, with its per-request caches\<close>

type_synonym device_cache = "((uuid \<times> uuid option) \<times> nat) list"
type_synonym seat_cache = "(uuid \<times> nat) list"

text \<open>\<open>if (!m.has(k)) m.set(k, v)\<close>, then \<open>m.get(k)\<close>.\<close>

definition memo :: "'k \<Rightarrow> nat \<Rightarrow> ('k \<times> nat) list \<Rightarrow> nat \<times> ('k \<times> nat) list" where
  "memo k v m = (case map_of m k of Some w \<Rightarrow> (w, m) | None \<Rightarrow> (v, (k, v) # m))"

definition resolveLineQty ::
    "uuid \<Rightarrow> contract_line \<Rightarrow> db \<Rightarrow> device_cache \<times> seat_cache \<Rightarrow> (jsnum \<times> bool) \<times> device_cache \<times> seat_cache" where
  "resolveLineQty orgId line s caches = (case cl_lineType line of
     Cl_flat \<Rightarrow> ((1, False), caches)
   | Cl_manual \<Rightarrow> ((js_Number (nullish (cl_manualQuantity line) 0), False), caches)
   | Cl_per_device \<Rightarrow> (case memo (orgId, cl_siteId line) (countContractDevices orgId (cl_siteId line) s) (fst caches) of
       (n, dc) \<Rightarrow> ((of_nat n, True), dc, snd caches))
   | Cl_per_seat \<Rightarrow> (case memo orgId (countContractSeats orgId s) (snd caches) of
       (n, sc) \<Rightarrow> ((of_nat n, True), fst caches, sc)))"

fun estimateLoop ::
    "uuid \<Rightarrow> db \<Rightarrow> contract_line list \<Rightarrow> device_cache \<times> seat_cache \<Rightarrow> jsnum \<Rightarrow>
     (jsnum \<times> (uuid \<times> jsnum \<times> money \<times> bool) list) \<times> device_cache \<times> seat_cache" where
  "estimateLoop orgId s [] caches tot = ((tot, []), caches)"
| "estimateLoop orgId s (l # ls) caches tot = (case resolveLineQty orgId l s caches of
     ((quantity, live), caches') \<Rightarrow>
       let value = fmul (js_Number (cl_unitPrice l)) quantity
       in case estimateLoop orgId s ls caches' (fadd tot value) of
            ((tot', out), caches'') \<Rightarrow> ((tot', (cl_id l, quantity, toFixed 2 value, live) # out), caches''))"

definition computeContractEstimate ::
    "uuid \<Rightarrow> actor \<Rightarrow> db \<Rightarrow> svc_error + (string \<times> money \<times> (uuid \<times> jsnum \<times> money \<times> bool) list)" where
  "computeContractEstimate i a s = bindE (getOwnedContractOr404 i a s) (\<lambda>c.
     case estimateLoop (c_orgId c) s (contractLinesOf s i) ([], []) 0 of
       ((tot, out), _) \<Rightarrow> Inr (c_currencyCode c, toFixed 2 tot, out))"

fun estimatePage :: "db \<Rightarrow> contract list \<Rightarrow> device_cache \<times> seat_cache \<Rightarrow> (contract \<times> money) list" where
  "estimatePage s [] caches = []"
| "estimatePage s (c # cs) caches =
     (case estimateLoop (c_orgId c) s (selectWhere (\<lambda>l. cl_contractId l = c_id c) (db_contractLines s)) caches 0 of
        ((tot, _), caches') \<Rightarrow> (c, toFixed 2 tot) # estimatePage s cs caches')"

definition listContracts ::
    "uuid option \<Rightarrow> contract_status option \<Rightarrow> nat option \<Rightarrow> actor \<Rightarrow> db \<Rightarrow> svc_error + (contract \<times> money) list" where
  "listContracts orgId status limit a s =
     bindE (case orgId of None \<Rightarrow> Inr () | Some g \<Rightarrow> contractOrgAccess a g) (\<lambda>_.
     let rows = take (min (nullish limit 50) 100) (rev (sort_key c_createdAt (selectWhere (\<lambda>c.
           (case orgId of None \<Rightarrow> True | Some g \<Rightarrow> c_orgId c = g) \<and>
           (case status of None \<Rightarrow> True | Some st \<Rightarrow> c_status c = st) \<and> orgAccessible a (c_orgId c)) (db_contracts s))))
     in Inr (estimatePage s rows ([], [])))"

text \<open>An absent field is \<open>None\<close>; a nullable one that is present may be null.\<close>

record contract_patch =
  cp_name :: "string option"
  cp_billingTiming :: "billing_timing option"
  cp_intervalMonths :: "int option"
  cp_startDate :: "iso_date option"
  cp_endDate :: "iso_date option option"
  cp_autoIssue :: "bool option"
  cp_notes :: "string option option"
  cp_terms :: "string option option"
  cp_autoRenew :: "bool option"
  cp_renewalTermMonths :: "int option option"
  cp_renewalNoticeDays :: "int option option"

definition patchContract :: "contract_patch \<Rightarrow> instant \<Rightarrow> contract \<Rightarrow> contract" where
  "patchContract p now c = c \<lparr> c_updatedAt := now, c_name := nullish (cp_name p) (c_name c),
     c_billingTiming := (if c_status c = Ct_draft then nullish (cp_billingTiming p) (c_billingTiming c) else c_billingTiming c),
     c_intervalMonths := (if c_status c = Ct_draft then nullish (cp_intervalMonths p) (c_intervalMonths c) else c_intervalMonths c),
     c_startDate := (if c_status c = Ct_draft then nullish (cp_startDate p) (c_startDate c) else c_startDate c),
     c_endDate := nullish (cp_endDate p) (c_endDate c), c_autoIssue := nullish (cp_autoIssue p) (c_autoIssue c),
     c_notes := nullish (cp_notes p) (c_notes c), c_terms := nullish (cp_terms p) (c_terms c),
     c_autoRenew := nullish (cp_autoRenew p) (c_autoRenew c),
     c_renewalTermMonths := nullish (cp_renewalTermMonths p) (c_renewalTermMonths c),
     c_renewalNoticeDays := nullish (cp_renewalNoticeDays p) (c_renewalNoticeDays c) \<rparr>"

definition updateContract :: "uuid \<Rightarrow> contract_patch \<Rightarrow> actor \<Rightarrow> instant \<Rightarrow> db \<Rightarrow> contract svc" where
  "updateContract i p a now s =
     bindE (getOwnedContractOr404 i a s) (\<lambda>c.
     bindE (assertEditable c) (\<lambda>_.
     bindE (guardE (c_status c = Ct_draft \<or> (cp_billingTiming p = None \<and> cp_intervalMonths p = None \<and> cp_startDate p = None))
       (ContractErr 409 C_INVALID_STATE)) (\<lambda>_.
     let c' = patchContract p now c
     in bindE (guardE (\<not> (c_autoRenew c' \<and> (c_endDate c' = None \<or> c_renewalTermMonths c' = None))) (ContractErr 400 C_NO_CODE)) (\<lambda>_.
        bindE (guardE (0 < c_intervalMonths c') (JsError ''check violation'')) (\<lambda>_.
        let s1 = updateContracts i (patchContract p now) s
        in bindE (getOwnedContractOr404 i a s1) (\<lambda>c''. Inr (c'', s1)))))))"

text \<open>The foreign keys on \<open>contracts.id\<close> cascade: lines, billing periods, renewal notices.\<close>

definition deleteDraftContract :: "uuid \<Rightarrow> actor \<Rightarrow> db \<Rightarrow> unit svc" where
  "deleteDraftContract i a s =
     bindE (getOwnedContractOr404 i a s) (\<lambda>c.
     bindE (assertDraftContract c) (\<lambda>_. Inr ((), s \<lparr>
       db_contracts := deleteWhere (\<lambda>c. c_id c = i) (db_contracts s),
       db_contractLines := deleteWhere (\<lambda>l. cl_contractId l = i) (db_contractLines s),
       db_billingPeriods := deleteWhere (\<lambda>b. bp_contractId b = i) (db_billingPeriods s),
       db_renewalNotices := deleteWhere (\<lambda>n. rn_contractId n = i) (db_renewalNotices s) \<rparr>)))"

record contract_line_spec =
  cls_lineType :: contract_line_type
  cls_description :: string
  cls_unitPrice :: money
  cls_taxable :: bool
  cls_catalogItemId :: "uuid option"
  cls_manualQuantity :: "rat option"
  cls_siteId :: "uuid option"
  cls_sortOrder :: "int option"

definition contractLineRow :: "uuid \<Rightarrow> uuid \<Rightarrow> uuid \<Rightarrow> int \<Rightarrow> contract_line_spec \<Rightarrow> contract_line" where
  "contractLineRow lineId i orgId defaultSort l = \<lparr> cl_id = lineId, cl_contractId = i, cl_orgId = orgId,
     cl_lineType = cls_lineType l, cl_description = cls_description l, cl_catalogItemId = cls_catalogItemId l,
     cl_unitPrice = numeric2 (cls_unitPrice l),
     cl_manualQuantity = (if cls_lineType l = Cl_manual then Some (numeric2 (nullish (cls_manualQuantity l) 0)) else None),
     cl_siteId = (if cls_lineType l = Cl_per_device then cls_siteId l else None),
     cl_taxable = cls_taxable l, cl_sortOrder = nullish (cls_sortOrder l) defaultSort \<rparr>"

definition insertContractLine :: "contract_line \<Rightarrow> db \<Rightarrow> svc_error + db" where
  "insertContractLine l s =
     bindE (guardE (moneyFits (cl_unitPrice l) \<and> (case cl_manualQuantity l of None \<Rightarrow> True | Some q \<Rightarrow> moneyFits q))
       (JsError ''numeric field overflow'')) (\<lambda>_.
     Inr (s \<lparr> db_next := Suc (db_next s), db_contractLines := insertRow l (db_contractLines s) \<rparr>))"

definition addContractLineToContract :: "uuid \<Rightarrow> contract_line_spec \<Rightarrow> actor \<Rightarrow> db \<Rightarrow> contract_line svc" where
  "addContractLineToContract i input a s =
     bindE (getOwnedContractOr404 i a s) (\<lambda>c.
     bindE (assertEditable c) (\<lambda>_.
     let row = contractLineRow (db_next s) i (c_orgId c) 0 input
     in bindE (insertContractLine row s) (\<lambda>s1. Inr (row, s1))))"

definition removeContractLine :: "uuid \<Rightarrow> uuid \<Rightarrow> actor \<Rightarrow> db \<Rightarrow> unit svc" where
  "removeContractLine i lineId a s =
     bindE (getOwnedContractOr404 i a s) (\<lambda>c.
     bindE (assertEditable c) (\<lambda>_. Inr ((), s \<lparr> db_contractLines :=
       deleteWhere (\<lambda>l. cl_id l = lineId \<and> cl_contractId l = i) (db_contractLines s) \<rparr>)))"

section \<open>Lifecycle\<close>

definition contractEvent :: "contract_event_type \<Rightarrow> contract \<Rightarrow> uuid option \<Rightarrow> billing_event" where
  "contractEvent e c invoiceId = ContractEvent e (c_id c) (c_orgId c) (c_partnerId c) invoiceId"

text \<open>The billing date written on activation and on resume.\<close>

definition currentBillingDate :: "contract \<Rightarrow> iso_date \<Rightarrow> iso_date" where
  "currentBillingDate c today = nextBillingDate (c_startDate c) (c_intervalMonths c) (c_billingTiming c)
     (periodIndexFor (c_startDate c) (c_intervalMonths c) today)"

definition setContract :: "contract \<Rightarrow> contract_status \<Rightarrow> iso_date option \<Rightarrow> instant \<Rightarrow> contract_event_type \<Rightarrow> db \<Rightarrow> contract svc" where
  "setContract c st nextAt now e s =
     (let f = (\<lambda>r. r \<lparr> c_status := st, c_nextBillingAt := nextAt, c_updatedAt := now \<rparr>)
      in Inr (f c, emit (contractEvent e c None) (updateContracts (c_id c) f s)))"

definition activateContract :: "uuid \<Rightarrow> actor \<Rightarrow> instant \<Rightarrow> db \<Rightarrow> contract svc" where
  "activateContract i a asOf s =
     bindE (getOwnedContractOr404 i a s) (\<lambda>c.
     bindE (guardE (\<not> (c_status c \<noteq> Ct_draft \<and> c_status c \<noteq> Ct_paused)) (ContractErr 409 C_INVALID_STATE)) (\<lambda>_.
     bindE (guardE (contractLinesOf s i \<noteq> []) (ContractErr 409 NO_LINES)) (\<lambda>_.
     setContract c Ct_active (Some (currentBillingDate c (utcDay asOf))) asOf Ev_contract_activated s)))"

definition pauseContract :: "uuid \<Rightarrow> actor \<Rightarrow> instant \<Rightarrow> db \<Rightarrow> contract svc" where
  "pauseContract i a now s =
     bindE (getOwnedContractOr404 i a s) (\<lambda>c.
     bindE (guardE (c_status c = Ct_active) (ContractErr 409 C_INVALID_STATE)) (\<lambda>_.
     setContract c Ct_paused None now Ev_contract_paused s))"

definition resumeContract :: "uuid \<Rightarrow> actor \<Rightarrow> iso_date \<Rightarrow> instant \<Rightarrow> db \<Rightarrow> contract svc" where
  "resumeContract i a today now s =
     bindE (getOwnedContractOr404 i a s) (\<lambda>c.
     bindE (guardE (c_status c = Ct_paused) (ContractErr 409 C_INVALID_STATE)) (\<lambda>_.
     setContract c Ct_active (Some (currentBillingDate c today)) now Ev_contract_activated s))"

definition cancelContract :: "uuid \<Rightarrow> actor \<Rightarrow> instant \<Rightarrow> db \<Rightarrow> contract svc" where
  "cancelContract i a now s =
     bindE (getOwnedContractOr404 i a s) (\<lambda>c.
     if c_status c = Ct_cancelled then Inr (c, s) else setContract c Ct_cancelled None now Ev_contract_cancelled s)"

section \<open>Billing\<close>

datatype skipped = Already_billed | Skipped_expired | Not_due

datatype generate_result = Generated uuid bool actor | Skipped skipped

text \<open>\<open>[c.notes, c.terms].filter(Boolean)\<close> joined by a blank line.\<close>

definition contractNotes :: "contract \<Rightarrow> string option" where
  "contractNotes c = (case presentStrings [c_notes c, c_terms c] of [] \<Rightarrow> None
     | [t] \<Rightarrow> Some t | t # u # _ \<Rightarrow> Some (t @ [CHR 0x0A, CHR 0x0A] @ u))"

definition billedQuantity :: "contract \<Rightarrow> contract_line \<Rightarrow> db \<Rightarrow> rat" where
  "billedQuantity c l s = (case cl_lineType l of
     Cl_flat \<Rightarrow> 1
   | Cl_manual \<Rightarrow> nullish (cl_manualQuantity l) 0
   | Cl_per_device \<Rightarrow> of_nat (countContractDevices (c_orgId c) (cl_siteId l) s)
   | Cl_per_seat \<Rightarrow> of_nat (countContractSeats (c_orgId c) s))"

definition contractActor :: "contract \<Rightarrow> actor" where
  "contractActor c = \<lparr> a_userId = c_createdBy c, a_partnerId = Some (c_partnerId c), a_accessibleOrgIds = Some [c_orgId c] \<rparr>"

definition billContractLine :: "contract \<Rightarrow> uuid \<Rightarrow> instant \<Rightarrow> contract_line \<Rightarrow> db \<Rightarrow> svc_error + db" where
  "billContractLine c invoiceId now l s =
     bindE (addContractLine invoiceId \<lparr> cli_description = cl_description l, cli_quantity = billedQuantity c l s,
       cli_unitPrice = cl_unitPrice l, cli_taxable = cl_taxable l, cli_catalogItemId = cl_catalogItemId l,
       cli_sourceId = Some (cl_id l) \<rparr> (contractActor c) now s) (\<lambda>r. Inr (snd r))"

text \<open>The claim: an insert into \<open>contract_billing_periods\<close> that does nothing on a taken \<open>(contract, periodStart)\<close>.\<close>

definition periodTaken :: "uuid \<Rightarrow> iso_date \<Rightarrow> db \<Rightarrow> bool" where
  "periodTaken i pStart s \<longleftrightarrow> (\<exists>b \<in> set (db_billingPeriods s). bp_contractId b = i \<and> bp_periodStart b = pStart)"

definition claimPeriod :: "contract \<Rightarrow> period \<Rightarrow> uuid \<Rightarrow> db \<Rightarrow> bool \<times> db" where
  "claimPeriod c p invoiceId s =
     (if periodTaken (c_id c) (periodStart p) s then (False, s)
      else (True, s \<lparr> db_next := Suc (db_next s), db_billingPeriods := insertRow \<lparr> bp_id = db_next s,
        bp_contractId = c_id c, bp_orgId = c_orgId c, bp_periodStart = periodStart p, bp_periodEnd = periodEnd p,
        bp_invoiceId = Some invoiceId \<rparr> (db_billingPeriods s) \<rparr>))"

definition dueIndex :: "contract \<Rightarrow> iso_date \<Rightarrow> int" where
  "dueIndex c nextAt =
     (let idxAt = periodIndexFor (c_startDate c) (c_intervalMonths c) nextAt
      in max 0 (if c_billingTiming c = Timing_advance then idxAt else idxAt - 1))"

definition expireContract :: "contract \<Rightarrow> instant \<Rightarrow> db \<Rightarrow> db" where
  "expireContract c asOf s = emit (contractEvent Ev_contract_expired c None)
     (updateContracts (c_id c) (\<lambda>r. r \<lparr> c_status := Ct_expired, c_nextBillingAt := None, c_updatedAt := asOf \<rparr>) s)"

definition advancePointer :: "contract \<Rightarrow> int \<Rightarrow> instant \<Rightarrow> db \<Rightarrow> db" where
  "advancePointer c idx asOf s =
     (let nextPeriod = computePeriod (c_startDate c) (c_intervalMonths c) (idx + 1)
      in if isExpired (c_endDate c) (periodStart nextPeriod) then expireContract c asOf s
         else let nextAt = (if c_billingTiming c = Timing_advance then periodStart nextPeriod else periodEnd nextPeriod)
              in updateContracts (c_id c) (\<lambda>r. r \<lparr> c_nextBillingAt := Some nextAt, c_updatedAt := asOf \<rparr>) s)"

definition generateDueInvoice :: "uuid \<Rightarrow> instant \<Rightarrow> db \<Rightarrow> generate_result svc" where
  "generateDueInvoice i asOf s =
     bindE (ofOption (ContractErr 404 CONTRACT_NOT_FOUND) (contractOf s i)) (\<lambda>c.
     case c_nextBillingAt c of None \<Rightarrow> Inr (Skipped Not_due, s) | Some nextAt \<Rightarrow>
     if c_status c \<noteq> Ct_active then Inr (Skipped Not_due, s)
     else if utcDay asOf < nextAt then Inr (Skipped Not_due, s)
     else let idx = dueIndex c nextAt; p = computePeriod (c_startDate c) (c_intervalMonths c) idx
     in if isExpired (c_endDate c) (periodStart p) then Inr (Skipped Skipped_expired, expireContract c asOf s)
     else if contractLinesOf s i = [] then Inr (Skipped Not_due, s)
     else
       bindE (createManualInvoice (c_orgId c) None (contractNotes c) None (contractActor c) asOf s) (\<lambda>(invc, s1).
       bindE (foldE (billContractLine c (inv_id invc) asOf) (contractLinesOf s i) s1) (\<lambda>s2.
       case claimPeriod c p (inv_id invc) s2 of (claimed, s3) \<Rightarrow>
         if \<not> claimed
         then bindE (deleteDraftInvoice (inv_id invc) (contractActor c) s3) (\<lambda>r. Inr (Skipped Already_billed, snd r))
         else Inr (Generated (inv_id invc) (c_autoIssue c) (contractActor c),
                emit (contractEvent Ev_contract_invoiced c (Some (inv_id invc))) (advancePointer c idx asOf s3)))))"

subsection \<open>The daily job\<close>

definition isDue :: "iso_date \<Rightarrow> contract \<Rightarrow> bool" where
  "isDue today c \<longleftrightarrow> c_status c = Ct_active \<and> (case c_nextBillingAt c of None \<Rightarrow> False | Some d \<Rightarrow> d \<le> today)"

text \<open>
  One contract of the sweep. Generation is a transaction of its own; auto-issue follows after its
  commit, with a clock reading of its own, and its failure is only logged. The invoice email is outside the model.
\<close>

definition billOne :: "instant \<Rightarrow> instant \<Rightarrow> uuid \<Rightarrow> (nat \<times> nat) \<times> db \<Rightarrow> (nat \<times> nat) \<times> db" where
  "billOne asOf now i st = (case st of ((billed, failed), s) \<Rightarrow>
     (case generateDueInvoice i asOf s of
        Inl e \<Rightarrow> ((billed, failed + 1), s)
      | Inr (Skipped k, s1) \<Rightarrow> ((billed, failed), s1)
      | Inr (Generated invoiceId autoIssue a, s1) \<Rightarrow>
          ((billed + 1, failed), if autoIssue then (case issueInvoice invoiceId a now s1 of Inl e \<Rightarrow> s1 | Inr (r, s2) \<Rightarrow> s2) else s1)))"

definition runContractBillingSweep :: "instant \<Rightarrow> (uuid \<Rightarrow> instant) \<Rightarrow> db \<Rightarrow> (nat \<times> nat) \<times> db" where
  "runContractBillingSweep asOf clock s =
     fold (\<lambda>i. billOne asOf (clock i) i) (map c_id (selectWhere (isDue (utcDay asOf)) (db_contracts s))) ((0, 0), s)"

section \<open>Renewal\<close>

definition claimNotice :: "contract \<Rightarrow> iso_date \<Rightarrow> notice_kind \<Rightarrow> db \<Rightarrow> bool \<times> db" where
  "claimNotice c endDate kind s =
     (if \<exists>n \<in> set (db_renewalNotices s). rn_contractId n = c_id c \<and> rn_endDate n = endDate \<and> rn_kind n = kind then (False, s)
      else (True, s \<lparr> db_next := Suc (db_next s), db_renewalNotices := insertRow \<lparr> rn_id = db_next s, rn_contractId = c_id c,
        rn_orgId = c_orgId c, rn_endDate = endDate, rn_kind = kind \<rparr> (db_renewalNotices s) \<rparr>))"

definition renewalCandidate :: "contract \<Rightarrow> bool" where
  "renewalCandidate c \<longleftrightarrow> c_status c = Ct_active \<and> c_autoRenew c \<and> c_endDate c \<noteq> None"

definition noticePass :: "iso_date \<Rightarrow> contract \<Rightarrow> iso_date \<Rightarrow> nat \<times> db \<Rightarrow> nat \<times> db" where
  "noticePass today c endDate st =
     (if isWithinNoticeWindow today endDate (nullish (c_renewalNoticeDays c) 30)
      then (case claimNotice c endDate Notice_advance (snd st) of (won, s1) \<Rightarrow> (if won then fst st + 1 else fst st, s1))
      else st)"

definition extendPass :: "instant \<Rightarrow> contract \<Rightarrow> iso_date \<Rightarrow> int \<Rightarrow> nat \<times> db \<Rightarrow> nat \<times> db" where
  "extendPass asOf c endDate termMonths st = (case c_nextBillingAt c of
     None \<Rightarrow> st
   | Some nextAt \<Rightarrow>
       if nextAt \<noteq> [] \<and> nextAt \<le> utcDay asOf
       then (case extendTermPastDue endDate (duePeriodStartFor (c_billingTiming c) nextAt (c_intervalMonths c)) termMonths of
               (newEndDate, didRenew) \<Rightarrow>
                 if didRenew
                 then let s1 = emit (contractEvent Ev_contract_auto_renewed c None)
                        (updateContracts (c_id c) (\<lambda>r. r \<lparr> c_endDate := Some newEndDate, c_updatedAt := asOf \<rparr>) (snd st))
                      in (fst st + 1, snd (claimNotice c newEndDate Notice_renewed s1))
                 else st)
       else st)"

definition renewOne :: "instant \<Rightarrow> contract \<Rightarrow> (nat \<times> nat) \<times> db \<Rightarrow> (nat \<times> nat) \<times> db" where
  "renewOne asOf c st = (case (c_endDate c, c_renewalTermMonths c) of
     (Some endDate, Some termMonths) \<Rightarrow>
       if endDate = [] then st
       else (case noticePass (utcDay asOf) c endDate (fst (fst st), snd st) of (noticed, s1) \<Rightarrow>
             case extendPass asOf c endDate termMonths (snd (fst st), s1) of (renewed, s2) \<Rightarrow> ((noticed, renewed), s2))
   | _ \<Rightarrow> st)"

definition runContractRenewalSweep :: "instant \<Rightarrow> db \<Rightarrow> (nat \<times> nat) \<times> db" where
  "runContractRenewalSweep asOf s = fold (renewOne asOf) (selectWhere renewalCandidate (db_contracts s)) ((0, 0), s)"

text \<open>The job \<open>billing-sweep\<close>: renewal first, then billing; each sweep and each issue reads the clock.\<close>

definition billingSweepJob :: "instant \<Rightarrow> instant \<Rightarrow> (uuid \<Rightarrow> instant) \<Rightarrow> db \<Rightarrow> (nat \<times> nat) \<times> db" where
  "billingSweepJob renewAt asOf clock s = runContractBillingSweep asOf clock (snd (runContractRenewalSweep renewAt s))"

section \<open>Contracts from an accepted quote\<close>

record new_contract_spec =
  ncs_orgId :: uuid
  ncs_partnerId :: uuid
  ncs_name :: string
  ncs_billingTiming :: billing_timing
  ncs_intervalMonths :: int
  ncs_startDate :: iso_date
  ncs_endDate :: "iso_date option"
  ncs_currencyCode :: string
  ncs_notes :: "string option"
  ncs_terms :: "string option"
  ncs_createdBy :: "uuid option"
  ncs_lines :: "contract_line_spec list"

definition specContract :: "uuid \<Rightarrow> new_contract_spec \<Rightarrow> instant \<Rightarrow> contract" where
  "specContract i spec now = \<lparr> c_id = i, c_partnerId = ncs_partnerId spec, c_orgId = ncs_orgId spec,
     c_name = ncs_name spec, c_status = Ct_draft, c_billingTiming = ncs_billingTiming spec,
     c_intervalMonths = ncs_intervalMonths spec, c_startDate = ncs_startDate spec, c_endDate = ncs_endDate spec,
     c_nextBillingAt = None, c_autoIssue = False, c_autoRenew = False, c_renewalTermMonths = None,
     c_renewalNoticeDays = None, c_currencyCode = ncs_currencyCode spec, c_notes = ncs_notes spec,
     c_terms = ncs_terms spec, c_createdBy = ncs_createdBy spec, c_createdAt = now, c_updatedAt = now \<rparr>"

fun specLines :: "uuid \<Rightarrow> uuid \<Rightarrow> int \<Rightarrow> contract_line_spec list \<Rightarrow> db \<Rightarrow> svc_error + db" where
  "specLines i orgId n [] s = Inr s"
| "specLines i orgId n (l # ls) s =
     bindE (insertContractLine (contractLineRow (db_next s) i orgId n l) s) (specLines i orgId (n + 1) ls)"

definition createContractWithLines :: "new_contract_spec \<Rightarrow> instant \<Rightarrow> db \<Rightarrow> contract svc" where
  "createContractWithLines spec now s =
     (let c = specContract (db_next s) spec now
      in bindE (insertContract c s) (\<lambda>s1. bindE (specLines (c_id c) (ncs_orgId spec) 0 (ncs_lines spec) s1) (\<lambda>s2. Inr (c, s2))))"

subsection \<open>quoteToContract.ts\<close>

record quote_for_contract =
  qfc_orgId :: uuid
  qfc_partnerId :: uuid
  qfc_quoteNumber :: string
  qfc_currencyCode :: string
  qfc_terms :: "string option"

record quote_line_for_contract =
  qlc_recurrence :: recurrence
  qlc_customerVisible :: bool
  qlc_description :: string
  qlc_unitPrice :: money
  qlc_quantity :: rat
  qlc_taxable :: bool
  qlc_catalogItemId :: "uuid option"
  qlc_termMonths :: "int option"

definition cadences :: "(recurrence \<times> int \<times> string) list" where
  "cadences = [(Rec_monthly, 1, ''Monthly''), (Rec_annual, 12, ''Annual'')]"

definition distinctTerms :: "quote_line_for_contract list \<Rightarrow> int list" where
  "distinctTerms grp = remdups [t. Some t \<leftarrow> map qlc_termMonths grp]"

definition cadenceEnd :: "quote_line_for_contract list \<Rightarrow> iso_date \<Rightarrow> svc_error + iso_date option" where
  "cadenceEnd grp startDate = (case distinctTerms grp of
     [t] \<Rightarrow> (case addMonthsToDate startDate t of Inl e \<Rightarrow> Inl (JsError ''addMonthsToDate'') | Inr d \<Rightarrow> Inr (Some d))
   | _ \<Rightarrow> Inr None)"

fun cadenceLines :: "quote_line_for_contract list \<Rightarrow> int \<Rightarrow> contract_line_spec list" where
  "cadenceLines [] i = []"
| "cadenceLines (l # ls) i = \<lparr> cls_lineType = Cl_manual, cls_description = qlc_description l,
     cls_unitPrice = qlc_unitPrice l, cls_taxable = qlc_taxable l, cls_catalogItemId = None,
     cls_manualQuantity = Some (qlc_quantity l), cls_siteId = None, cls_sortOrder = Some i \<rparr> # cadenceLines ls (i + 1)"

text \<open>The dash of a contract's name is the three bytes of the em dash.\<close>

definition cadenceSpec ::
    "quote_for_contract \<Rightarrow> quote_line_for_contract list \<Rightarrow> iso_date \<Rightarrow> iso_date option \<Rightarrow> uuid option \<Rightarrow> int \<Rightarrow> string \<Rightarrow> new_contract_spec" where
  "cadenceSpec quote grp startDate endDate createdBy interval label =
     \<lparr> ncs_orgId = qfc_orgId quote, ncs_partnerId = qfc_partnerId quote,
       ncs_name = qfc_quoteNumber quote @ [CHR '' '', CHR 0xE2, CHR 0x80, CHR 0x94, CHR '' ''] @ label,
       ncs_billingTiming = Timing_advance, ncs_intervalMonths = interval, ncs_startDate = startDate, ncs_endDate = endDate,
       ncs_currencyCode = qfc_currencyCode quote, ncs_notes = Some (''Auto-created from accepted quote '' @ qfc_quoteNumber quote),
       ncs_terms = qfc_terms quote, ncs_createdBy = createdBy, ncs_lines = cadenceLines grp 0 \<rparr>"

fun cadenceLoop ::
    "quote_for_contract \<Rightarrow> quote_line_for_contract list \<Rightarrow> iso_date \<Rightarrow> uuid option \<Rightarrow> (recurrence \<times> int \<times> string) list \<Rightarrow>
     svc_error + new_contract_spec list" where
  "cadenceLoop quote ls startDate createdBy [] = Inr []"
| "cadenceLoop quote ls startDate createdBy ((key, interval, label) # cs) =
     (let grp = filter (\<lambda>l. qlc_recurrence l = key \<and> qlc_customerVisible l) ls
      in if grp = [] then cadenceLoop quote ls startDate createdBy cs
         else bindE (cadenceEnd grp startDate) (\<lambda>endDate.
              bindE (cadenceLoop quote ls startDate createdBy cs) (\<lambda>rest.
              Inr (cadenceSpec quote grp startDate endDate createdBy interval label # rest))))"

definition buildContractSpecsFromQuote ::
    "quote_for_contract \<Rightarrow> quote_line_for_contract list \<Rightarrow> iso_date \<Rightarrow> uuid option \<Rightarrow> svc_error + new_contract_spec list" where
  "buildContractSpecsFromQuote quote ls startDate createdBy = cadenceLoop quote ls startDate createdBy cadences"

end
