(* ===== verification/ContractProperties.thy ===== *)
theory ContractProperties
  imports BillingFrame ContractService
begin

text \<open>
  What the contract service guarantees: a billing period is invoiced at most once, an invoice bills
  exactly the lines of its contract, the recurring-value estimate does not depend on its caches.
  Two theorems show where the code falls short of its documentation: a resumed contract may never
  be billed again, and automatic renewal never extends a contract that bills in advance.
\<close>

section \<open>Refinement of the ledger\<close>

lemma outside_updateContracts [simp]: "outside s (updateContracts i f t) = outside s t"
  by (simp add: outside_def same_tables_def updateContracts_def)

lemma outside_insertContract: "insertContract c s = Inr t \<Longrightarrow> outside s t"
  by (auto simp: insertContract_def guard_simps outside_def same_tables_def)

lemma outside_insertContractLine: "insertContractLine l s = Inr t \<Longrightarrow> outside s t"
  by (auto simp: insertContractLine_def guard_simps outside_def same_tables_def)

lemma outside_createContract: "createContract input a now s = Inr (c, t) \<Longrightarrow> outside s t"
  unfolding createContract_def Let_def by (auto elim!: bindE_InrE dest: outside_insertContract)

lemma outside_updateContract: "updateContract i p a now s = Inr (c, t) \<Longrightarrow> outside s t"
  unfolding updateContract_def Let_def by (auto elim!: bindE_InrE)

lemma outside_deleteDraftContract: "deleteDraftContract i a s = Inr (u, t) \<Longrightarrow> outside s t"
  unfolding deleteDraftContract_def by (auto elim!: bindE_InrE simp: outside_def same_tables_def)

lemma outside_addContractLineToContract: "addContractLineToContract i input a s = Inr (l, t) \<Longrightarrow> outside s t"
  unfolding addContractLineToContract_def Let_def by (auto elim!: bindE_InrE dest: outside_insertContractLine)

lemma outside_removeContractLine: "removeContractLine i k a s = Inr (u, t) \<Longrightarrow> outside s t"
  unfolding removeContractLine_def by (auto elim!: bindE_InrE simp: outside_def same_tables_def)

lemma outside_setContract: "setContract c st nextAt now e s = Inr (r, t) \<Longrightarrow> outside s t"
  unfolding setContract_def Let_def by auto

lemma outside_activateContract: "activateContract i a now s = Inr (c, t) \<Longrightarrow> outside s t"
  unfolding activateContract_def by (auto elim!: bindE_InrE dest: outside_setContract)

lemma outside_pauseContract: "pauseContract i a now s = Inr (c, t) \<Longrightarrow> outside s t"
  unfolding pauseContract_def by (auto elim!: bindE_InrE dest: outside_setContract)

lemma outside_resumeContract: "resumeContract i a today now s = Inr (c, t) \<Longrightarrow> outside s t"
  unfolding resumeContract_def by (auto elim!: bindE_InrE dest: outside_setContract)

lemma outside_cancelContract: "cancelContract i a now s = Inr (c, t) \<Longrightarrow> outside s t"
  unfolding cancelContract_def by (auto elim!: bindE_InrE split: if_splits dest: outside_setContract)

lemma outside_claimPeriod: "claimPeriod c p v s = (b, t) \<Longrightarrow> outside s t"
  by (auto simp: claimPeriod_def outside_def same_tables_def split: if_splits)

lemma outside_expireContract [simp]: "outside s (expireContract c now t) = outside s t"
  by (simp add: expireContract_def)

lemma outside_advancePointer [simp]: "outside s (advancePointer c idx now t) = outside s t"
  by (simp add: advancePointer_def Let_def)

lemma outside_claimNotice: "claimNotice c e k s = (b, t) \<Longrightarrow> outside s t"
  by (auto simp: claimNotice_def outside_def same_tables_def split: if_splits)

lemma outside_noticePass: "outside (snd st) (snd (noticePass today c e st))"
  by (auto simp: noticePass_def split: prod.splits dest: outside_claimNotice)

lemma outside_extendPass: "outside (snd st) (snd (extendPass now c e m st))"
proof -
  have "outside w (snd (claimNotice c e k u))" if "outside w u" for e k u w
    using outside_trans[OF that] outside_claimNotice by (metis prod.collapse)
  then show ?thesis by (auto simp: extendPass_def Let_def split: option.splits prod.splits)
qed

lemma outside_renewOne: "outside (snd st) (snd (renewOne now c st))"
proof (cases "c_endDate c")
  case (Some e)
  have "outside (snd st) (snd (extendPass now c e m (snd (fst st), snd (noticePass (utcDay now) c e (fst (fst st), snd st)))))" for m
    using outside_noticePass[of "(fst (fst st), snd st)"] outside_extendPass by (metis outside_trans snd_conv)
  then show ?thesis using Some by (auto simp: renewOne_def split: option.splits prod.splits) (metis snd_conv)+
qed (simp add: renewOne_def)

lemma outside_renewalSweep: "outside s (snd (runContractRenewalSweep now s))"
  unfolding runContractRenewalSweep_def
  using fold_path[OF outside_preorder, of _ "renewOne now" "((0, 0), s)"] outside_renewOne by simp

lemma outside_specLines: "specLines i g n ls s = Inr t \<Longrightarrow> outside s t"
  by (induction ls arbitrary: n s) (auto elim!: bindE_InrE dest!: outside_insertContractLine intro: outside_trans)

lemma outside_createContractWithLines: "createContractWithLines spec now s = Inr (c, t) \<Longrightarrow> outside s t"
  unfolding createContractWithLines_def Let_def
  by (auto elim!: bindE_InrE dest!: outside_insertContract outside_specLines intro: outside_trans)

lemma refines_billLines: "foldE (billContractLine c v now) ls s = Inr t \<Longrightarrow> refines s t"
  by (erule foldE_path[OF refines_preorder])
     (auto simp: billContractLine_def elim!: bindE_InrE dest: refines_addContractLine)

text \<open>The four ways a billing attempt ends.\<close>

definition duePeriod :: "contract \<Rightarrow> iso_date \<Rightarrow> period" where
  "duePeriod c nextAt = computePeriod (c_startDate c) (c_intervalMonths c) (dueIndex c nextAt)"

definition billable :: "uuid \<Rightarrow> instant \<Rightarrow> db \<Rightarrow> contract \<Rightarrow> iso_date \<Rightarrow> bool" where
  "billable i asOf s c nextAt \<longleftrightarrow> contractOf s i = Some c \<and> c_status c = Ct_active \<and> c_nextBillingAt c = Some nextAt \<and>
     nextAt \<le> utcDay asOf"

lemma generateDueInvoice_due:
  assumes "billable i asOf s c nextAt"
  shows "generateDueInvoice i asOf s =
    (if isExpired (c_endDate c) (periodStart (duePeriod c nextAt)) then Inr (Skipped Skipped_expired, expireContract c asOf s)
     else if contractLinesOf s i = [] then Inr (Skipped Not_due, s)
     else bindE (createManualInvoice (c_orgId c) None (contractNotes c) None (contractActor c) asOf s) (\<lambda>(invc, s1).
          bindE (foldE (billContractLine c (inv_id invc) asOf) (contractLinesOf s i) s1) (\<lambda>s2.
          case claimPeriod c (duePeriod c nextAt) (inv_id invc) s2 of (claimed, s3) \<Rightarrow>
            if \<not> claimed then bindE (deleteDraftInvoice (inv_id invc) (contractActor c) s3) (\<lambda>r. Inr (Skipped Already_billed, snd r))
            else Inr (Generated (inv_id invc) (c_autoIssue c) (contractActor c),
              emit (contractEvent Ev_contract_invoiced c (Some (inv_id invc))) (advancePointer c (dueIndex c nextAt) asOf s3)))))"
proof -
  have "contractOf s i = Some c" "c_status c = Ct_active" "c_nextBillingAt c = Some nextAt" "\<not> utcDay asOf < nextAt"
    using assms by (auto simp: billable_def not_less)
  then show ?thesis unfolding generateDueInvoice_def duePeriod_def Let_def by simp
qed

lemma generateDueInvoice_not_due:
  assumes "generateDueInvoice i asOf s = Inr (x, t)" "\<And>c nextAt. \<not> billable i asOf s c nextAt"
  shows "x = Skipped Not_due \<and> t = s"
proof -
  obtain c where c: "contractOf s i = Some c" using assms(1) by (auto simp: generateDueInvoice_def guard_simps)
  consider "c_nextBillingAt c = None" | d where "c_nextBillingAt c = Some d" "c_status c \<noteq> Ct_active"
    | d where "c_nextBillingAt c = Some d" "utcDay asOf < d"
    using assms(2) c by (cases "c_nextBillingAt c") (auto simp: billable_def not_le)
  then show ?thesis using assms(1) unfolding generateDueInvoice_def c
    by cases (simp, simp, cases "c_status c = Ct_active", simp_all)
qed

lemma generateDueInvoice_cases:
  assumes "generateDueInvoice i asOf s = Inr (x, t)"
  obtains (skip) "x = Skipped Not_due" "t = s"
  | (expired) c nextAt where "billable i asOf s c nextAt" "isExpired (c_endDate c) (periodStart (duePeriod c nextAt))"
      "x = Skipped Skipped_expired" "t = expireContract c asOf s"
  | (taken) c nextAt r s1 s2 where "billable i asOf s c nextAt" "\<not> isExpired (c_endDate c) (periodStart (duePeriod c nextAt))"
      "createManualInvoice (c_orgId c) None (contractNotes c) None (contractActor c) asOf s = Inr (r, s1)"
      "foldE (billContractLine c (inv_id r) asOf) (contractLinesOf s i) s1 = Inr s2"
      "periodTaken (c_id c) (periodStart (duePeriod c nextAt)) s2"
      "deleteDraftInvoice (inv_id r) (contractActor c) s2 = Inr ((), t)" "x = Skipped Already_billed"
  | (billed) c nextAt r s1 s2 s3 where "billable i asOf s c nextAt" "\<not> isExpired (c_endDate c) (periodStart (duePeriod c nextAt))"
      "contractLinesOf s i \<noteq> []"
      "createManualInvoice (c_orgId c) None (contractNotes c) None (contractActor c) asOf s = Inr (r, s1)"
      "foldE (billContractLine c (inv_id r) asOf) (contractLinesOf s i) s1 = Inr s2"
      "\<not> periodTaken (c_id c) (periodStart (duePeriod c nextAt)) s2"
      "claimPeriod c (duePeriod c nextAt) (inv_id r) s2 = (True, s3)"
      "x = Generated (inv_id r) (c_autoIssue c) (contractActor c)"
      "t = emit (contractEvent Ev_contract_invoiced c (Some (inv_id r))) (advancePointer c (dueIndex c nextAt) asOf s3)"
proof (cases "\<exists>c nextAt. billable i asOf s c nextAt")
  case False
  then show ?thesis using generateDueInvoice_not_due[OF assms] by (intro skip) blast+
next
  case True
  then obtain c nextAt where due: "billable i asOf s c nextAt" by blast
  note eq = assms[unfolded generateDueInvoice_due[OF due]]
  show ?thesis
  proof (cases "isExpired (c_endDate c) (periodStart (duePeriod c nextAt)) \<or> contractLinesOf s i = []")
    case True
    then consider "x = Skipped Not_due" "t = s"
      | "isExpired (c_endDate c) (periodStart (duePeriod c nextAt))" "x = Skipped Skipped_expired" "t = expireContract c asOf s"
      using eq by (auto split: if_splits)
    then show ?thesis by cases (fact skip, fact expired[OF due])
  next
    case False
    then have live: "\<not> isExpired (c_endDate c) (periodStart (duePeriod c nextAt))" and ls: "contractLinesOf s i \<noteq> []" by auto
    obtain r s1 s2 where inv: "createManualInvoice (c_orgId c) None (contractNotes c) None (contractActor c) asOf s = Inr (r, s1)"
        "foldE (billContractLine c (inv_id r) asOf) (contractLinesOf s i) s1 = Inr s2"
      and rest: "(case claimPeriod c (duePeriod c nextAt) (inv_id r) s2 of (claimed, s3) \<Rightarrow>
           if \<not> claimed then bindE (deleteDraftInvoice (inv_id r) (contractActor c) s3) (\<lambda>r. Inr (Skipped Already_billed, snd r))
           else Inr (Generated (inv_id r) (c_autoIssue c) (contractActor c),
             emit (contractEvent Ev_contract_invoiced c (Some (inv_id r))) (advancePointer c (dueIndex c nextAt) asOf s3))) = Inr (x, t)"
      using eq[unfolded if_not_P[OF live] if_not_P[OF ls]] by (elim bindE_InrE) (auto elim!: bindE_InrE)
    show ?thesis
    proof (cases "periodTaken (c_id c) (periodStart (duePeriod c nextAt)) s2")
      case True
      then have "claimPeriod c (duePeriod c nextAt) (inv_id r) s2 = (False, s2)" by (simp add: claimPeriod_def)
      then have "deleteDraftInvoice (inv_id r) (contractActor c) s2 = Inr ((), t)" "x = Skipped Already_billed"
        using rest by (auto elim!: bindE_InrE)
      then show ?thesis by (rule taken[OF due live inv True])
    next
      case free: False
      then obtain s3 where s3: "claimPeriod c (duePeriod c nextAt) (inv_id r) s2 = (True, s3)" by (simp add: claimPeriod_def)
      then show ?thesis using rest by (intro billed[OF due live ls inv free s3]) auto
    qed
  qed
qed

lemma refines_generateDueInvoice:
  assumes "generateDueInvoice i asOf s = Inr (x, t)"
  shows "refines s t"
  using assms
proof (cases rule: generateDueInvoice_cases)
  case (taken c nextAt r s1 s2)
  have "refines s s1" using taken(3) by (rule refines_createManualInvoice)
  also have "refines s1 s2" using taken(4) by (rule refines_billLines)
  also have "refines s2 t" using taken(6) by (rule refines_deleteDraftInvoice)
  finally show ?thesis .
next
  case (billed c nextAt r s1 s2 s3)
  have "refines s s1" using billed(4) by (rule refines_createManualInvoice)
  also have "refines s1 s2" using billed(5) by (rule refines_billLines)
  also have "refines s2 t" using outside_claimPeriod[OF billed(7)] billed(9) by (simp add: refines_outside)
  finally show ?thesis .
qed (simp_all add: refines_outside)

lemma refines_billOne: "0 \<le> getUTCFullYear now \<Longrightarrow> refines (snd st) (snd (billOne asOf now i st))"
  by (auto simp: billOne_def split: prod.splits sum.splits generate_result.splits
      dest: refines_generateDueInvoice refines_issueInvoice intro: refines_trans)

lemma refines_billingSweep:
  assumes "\<And>i. 0 \<le> getUTCFullYear (clock i)"
  shows "refines s (snd (runContractBillingSweep asOf clock s))"
proof -
  have "reflp (\<lambda>u v. refines (snd u) (snd v))" "transp (\<lambda>u v. refines (snd u) (snd v))"
    by (auto intro!: reflpI transpI intro: refines_trans)
  from fold_path[OF this, of _ "\<lambda>i. billOne asOf (clock i) i" "((0, 0), s)"] show ?thesis
    using refines_billOne[OF assms] by (simp add: runContractBillingSweep_def)
qed

section \<open>A period is billed once\<close>

definition claims :: "db \<Rightarrow> (uuid \<times> iso_date) set" where
  "claims s = claimOf ` set (db_billingPeriods s)"

definition contracts_ok :: "db \<Rightarrow> bool" where
  "contracts_ok s \<longleftrightarrow> key_ok c_id (db_next s) (db_contracts s) \<and>
     (\<forall>x \<in> claims s. \<exists>c. contractOf s (fst x) = Some c \<and> c_status c \<noteq> Ct_draft)"

text \<open>The step keeps the invariant and every claim made.\<close>

definition holds_claims :: "db \<Rightarrow> db \<Rightarrow> bool" where
  "holds_claims s t \<longleftrightarrow> (contracts_ok s \<longrightarrow> contracts_ok t \<and> claims s \<subseteq> claims t)"

lemma periodTaken_iff: "periodTaken i p s \<longleftrightarrow> (i, p) \<in> claims s"
  by (auto simp: periodTaken_def claims_def claimOf_def)

lemma holds_refl [simp]: "holds_claims s s"
  by (simp add: holds_claims_def)

lemma holds_trans [trans]: "holds_claims s t \<Longrightarrow> holds_claims t u \<Longrightarrow> holds_claims s u"
  by (auto simp: holds_claims_def)

lemma claims_emit [simp]: "claims (emit e s) = claims s" "contractOf (emit e s) = contractOf s"
  "contracts_ok (emit e s) = contracts_ok s"
  by (simp_all add: claims_def contractOf_def[abs_def] contracts_ok_def emit_def)

lemma holds_emit [simp]: "holds_claims s (emit e t) = holds_claims s t"
  by (simp add: holds_claims_def)

lemma claims_updateContracts [simp]: "claims (updateContracts i f s) = claims s" "db_next (updateContracts i f s) = db_next s"
  by (simp_all add: claims_def updateContracts_def)

lemma contractOf_update:
  assumes "\<And>r. c_id (f r) = c_id r"
  shows "contractOf (updateContracts i f s) j = (if j = i then map_option f (contractOf s j) else contractOf s j)"
  using assms selectOne_updateWhere_same[of "\<lambda>c. c_id c = i" f "db_contracts s"]
    selectOne_updateWhere_other[of "\<lambda>c. c_id c = i" "\<lambda>c. c_id c = j" f "db_contracts s"]
  by (auto simp: contractOf_def updateContracts_def)

lemma contractOf_id: "contractOf s i = Some c \<Longrightarrow> c_id c = i"
  by (auto simp: contractOf_def dest: selectOne_Some)

lemma holds_same:
  assumes "db_contracts t = db_contracts s" "claims t = claims s" "db_next s \<le> db_next t"
  shows "holds_claims s t"
  using assms by (auto simp: holds_claims_def contracts_ok_def contractOf_def intro: key_ok_mono)

lemma keeps_claims: "keeps s t \<Longrightarrow> claims t = claims s"
  unfolding claims_def by (metis keepsD(5) list.set_map)

lemma keeps_contracts: "keeps s t \<Longrightarrow> contractOf t = contractOf s \<and> contractLinesOf t = contractLinesOf s"
  by (simp add: contractOf_def[abs_def] contractLinesOf_def[abs_def] keeps_def)

lemma holds_keeps: "keeps s t \<Longrightarrow> holds_claims s t"
  by (rule holds_same) (simp_all add: keeps_claims keeps_def)

lemma holds_updateContracts:
  assumes "\<And>r. c_id (f r) = c_id r" "\<And>r. c_status r \<noteq> Ct_draft \<Longrightarrow> c_status (f r) \<noteq> Ct_draft"
  shows "holds_claims s (updateContracts i f s)"
  unfolding holds_claims_def contracts_ok_def
proof (intro impI conjI ballI)
  assume ok: "key_ok c_id (db_next s) (db_contracts s) \<and> (\<forall>x\<in>claims s. \<exists>c. contractOf s (fst x) = Some c \<and> c_status c \<noteq> Ct_draft)"
  show "key_ok c_id (db_next (updateContracts i f s)) (db_contracts (updateContracts i f s))"
    using ok assms(1) by (simp add: updateContracts_def key_ok_updateWhere)
  show "\<exists>c. contractOf (updateContracts i f s) (fst x) = Some c \<and> c_status c \<noteq> Ct_draft"
    if "x \<in> claims (updateContracts i f s)" for x
    using that ok assms by (force simp: contractOf_update)
qed simp

lemma holds_insertContract:
  assumes "insertContract c s = Inr t" "c_id c = db_next s"
  shows "holds_claims s t"
proof -
  have t: "t = s \<lparr> db_next := Suc (db_next s), db_contracts := insertRow c (db_contracts s) \<rparr>"
    using assms(1) by (auto simp: insertContract_def guard_simps)
  have "contracts_ok t" if ok: "contracts_ok s"
    using that assms(2) unfolding t contracts_ok_def claims_def contractOf_def
    by (fastforce simp: selectOne_insertRow intro: key_ok_insertRow)
  then show ?thesis by (simp add: holds_claims_def claims_def t)
qed

lemma holds_insertContractLine: "insertContractLine l s = Inr t \<Longrightarrow> holds_claims s t"
  by (rule holds_same) (auto simp: insertContractLine_def guard_simps claims_def)

lemma holds_claimNotice: "claimNotice c e k s = (b, t) \<Longrightarrow> holds_claims s t"
  by (rule holds_same) (auto simp: claimNotice_def claims_def split: if_splits)

lemma claimPeriod_claims:
  assumes "claimPeriod c p v s = (True, t)"
  shows "claims t = insert (c_id c, periodStart p) (claims s)" "db_contracts t = db_contracts s"
    "(c_id c, periodStart p) \<notin> claims s" "db_next s \<le> db_next t"
  using assms by (auto simp: claimPeriod_def claims_def claimOf_def set_insertRow periodTaken_iff split: if_splits)

lemma holds_claimPeriod:
  assumes "claimPeriod c p v s = (True, t)" "contractOf s (c_id c) = Some c" "c_status c \<noteq> Ct_draft"
  shows "holds_claims s t"
  using claimPeriod_claims[OF assms(1)] assms(2,3)
  by (auto simp: holds_claims_def contracts_ok_def contractOf_def intro: key_ok_mono)

subsection \<open>Every call keeps the claims\<close>

lemma owned_contract [guard_simps]: "getOwnedContractOr404 i a s = Inr c \<longleftrightarrow> contractOf s i = Some c \<and> orgAccessible a (c_orgId c)"
  by (auto simp: getOwnedContractOr404_def contractOrgAccess_def guard_simps)

lemma holds_createContract: "createContract input a now s = Inr (c, t) \<Longrightarrow> holds_claims s t"
  unfolding createContract_def Let_def by (auto elim!: bindE_InrE dest: holds_insertContract)

lemma holds_updateContract: "updateContract i p a now s = Inr (c, t) \<Longrightarrow> holds_claims s t"
  unfolding updateContract_def Let_def
  by (auto elim!: bindE_InrE intro!: holds_updateContracts simp: patchContract_def)

lemma holds_deleteDraftContract:
  assumes "deleteDraftContract i a s = Inr (u, t)"
  shows "holds_claims s t"
proof -
  obtain c where c: "contractOf s i = Some c" "c_status c = Ct_draft"
    and t: "t = s \<lparr> db_contracts := deleteWhere (\<lambda>c. c_id c = i) (db_contracts s),
       db_contractLines := deleteWhere (\<lambda>l. cl_contractId l = i) (db_contractLines s),
       db_billingPeriods := deleteWhere (\<lambda>b. bp_contractId b = i) (db_billingPeriods s),
       db_renewalNotices := deleteWhere (\<lambda>n. rn_contractId n = i) (db_renewalNotices s) \<rparr>"
    using assms by (auto simp: deleteDraftContract_def assertDraftContract_def guard_simps)
  have "contracts_ok t \<and> claims s \<subseteq> claims t" if ok: "contracts_ok s"
  proof -
    have free: "fst x \<noteq> i" if "x \<in> claims s" for x using ok that c by (auto simp: contracts_ok_def)
    then have "bp_contractId b \<noteq> i" if "b \<in> set (db_billingPeriods s)" for b
      using that by (metis claimOf_def claims_def fst_conv image_eqI)
    then have "db_billingPeriods t = db_billingPeriods s" by (simp add: t deleteWhere_def filter_True_if)
    then have "claims t = claims s" by (simp add: claims_def)
    moreover have "contractOf t j = contractOf s j" if "j \<noteq> i" for j
      using that by (auto simp: t contractOf_def intro: selectOne_deleteWhere_other)
    moreover have "key_ok c_id (db_next t) (db_contracts t)" using ok by (simp add: t contracts_ok_def key_ok_deleteWhere)
    ultimately show ?thesis using ok free unfolding contracts_ok_def by simp
  qed
  then show ?thesis by (simp add: holds_claims_def)
qed

lemma holds_addContractLineToContract: "addContractLineToContract i input a s = Inr (l, t) \<Longrightarrow> holds_claims s t"
  unfolding addContractLineToContract_def Let_def by (auto elim!: bindE_InrE dest: holds_insertContractLine)

lemma holds_removeContractLine: "removeContractLine i k a s = Inr (u, t) \<Longrightarrow> holds_claims s t"
  unfolding removeContractLine_def by (auto elim!: bindE_InrE intro!: holds_same simp: claims_def)

lemma holds_setContract: "setContract c st nextAt now e s = Inr (r, t) \<Longrightarrow> st \<noteq> Ct_draft \<Longrightarrow> holds_claims s t"
  unfolding setContract_def Let_def by (auto intro!: holds_updateContracts)

lemma holds_activateContract: "activateContract i a now s = Inr (c, t) \<Longrightarrow> holds_claims s t"
  unfolding activateContract_def by (auto elim!: bindE_InrE dest: holds_setContract)

lemma holds_pauseContract: "pauseContract i a now s = Inr (c, t) \<Longrightarrow> holds_claims s t"
  unfolding pauseContract_def by (auto elim!: bindE_InrE dest: holds_setContract)

lemma holds_resumeContract: "resumeContract i a today now s = Inr (c, t) \<Longrightarrow> holds_claims s t"
  unfolding resumeContract_def by (auto elim!: bindE_InrE dest: holds_setContract)

lemma holds_cancelContract: "cancelContract i a now s = Inr (c, t) \<Longrightarrow> holds_claims s t"
  unfolding cancelContract_def by (auto elim!: bindE_InrE split: if_splits dest: holds_setContract)

lemma holds_expireContract: "holds_claims s (expireContract c now s)"
  unfolding expireContract_def by (auto intro: holds_updateContracts)

lemma holds_advancePointer: "holds_claims s (advancePointer c idx now s)"
  unfolding advancePointer_def Let_def by (auto intro: holds_updateContracts holds_expireContract)

lemma holds_specLines: "specLines i g n ls s = Inr t \<Longrightarrow> holds_claims s t"
  by (induction ls arbitrary: n s) (auto elim!: bindE_InrE dest!: holds_insertContractLine intro: holds_trans)

lemma holds_createContractWithLines: "createContractWithLines spec now s = Inr (c, t) \<Longrightarrow> holds_claims s t"
  unfolding createContractWithLines_def Let_def
  by (auto elim!: bindE_InrE dest!: holds_insertContract holds_specLines simp: specContract_def intro: holds_trans)

lemma keeps_billLines: "foldE (billContractLine c v now) ls s = Inr t \<Longrightarrow> keeps s t"
  by (erule keeps_foldE) (auto simp: billContractLine_def elim!: bindE_InrE dest: keeps_addContractLine)

lemma holds_preorder: "reflp (\<lambda>u v. holds_claims (snd u) (snd v))" "transp (\<lambda>u v. holds_claims (snd u) (snd v))"
  by (auto intro!: reflpI transpI intro: holds_trans)

lemma holds_renewOne: "holds_claims (snd st) (snd (renewOne now c st))"
proof -
  have cn: "holds_claims w (snd (claimNotice c e k u))" if "holds_claims w u" for e k u w
    using holds_trans[OF that] holds_claimNotice by (metis prod.collapse)
  have n: "holds_claims (snd x) (snd (noticePass d c e x))" for x d e
    by (auto simp: noticePass_def split: prod.splits dest: holds_claimNotice)
  have ex: "holds_claims (snd x) (snd (extendPass now c e m x))" for x e m
    by (auto simp: extendPass_def Let_def split: option.splits prod.splits intro!: cn holds_updateContracts)
  have "holds_claims (snd st) (snd (extendPass now c e m (snd (fst st), snd (noticePass (utcDay now) c e (fst (fst st), snd st)))))" for e m
    using n[of "(fst (fst st), snd st)"] ex holds_trans by (metis snd_conv)
  then show ?thesis by (auto simp: renewOne_def split: option.splits prod.splits) (metis snd_conv)+
qed

lemma holds_renewalSweep: "holds_claims s (snd (runContractRenewalSweep now s))"
  unfolding runContractRenewalSweep_def
  using fold_path[OF holds_preorder, of _ "renewOne now" "((0, 0), s)"] holds_renewOne by simp

subsection \<open>Generation\<close>

text \<open>A generated invoice claims a period that was free.\<close>

lemma generated_claims:
  assumes "generateDueInvoice i asOf s = Inr (Generated v b a, t)"
  shows "\<exists>c nextAt. billable i asOf s c nextAt \<and> (i, periodStart (duePeriod c nextAt)) \<notin> claims s \<and>
    claims t = insert (i, periodStart (duePeriod c nextAt)) (claims s)"
  using assms
proof (cases rule: generateDueInvoice_cases)
  case (billed c nextAt r s1 s2 s3)
  have k: "keeps s s2" using keeps_createManualInvoice[OF billed(4)] keeps_billLines[OF billed(5)] by (rule keeps_trans)
  have "c_id c = i" using billed(1) by (auto simp: billable_def dest: contractOf_id)
  moreover have "claims t = claims s3" by (simp add: billed(9) advancePointer_def expireContract_def Let_def)
  ultimately show ?thesis using claimPeriod_claims[OF billed(7)] keeps_claims[OF k] billed(1) by auto
qed simp_all

lemma holds_generateDueInvoice:
  assumes "generateDueInvoice i asOf s = Inr (x, t)"
  shows "holds_claims s t"
  using assms
proof (cases rule: generateDueInvoice_cases)
  case (taken c nextAt r s1 s2)
  then show ?thesis
    by (meson holds_keeps keeps_trans keeps_createManualInvoice keeps_billLines keeps_deleteDraftInvoice)
next
  case (billed c nextAt r s1 s2 s3)
  have k: "keeps s s2" using keeps_createManualInvoice[OF billed(4)] keeps_billLines[OF billed(5)] by (rule keeps_trans)
  have "contractOf s2 (c_id c) = Some c" "c_status c \<noteq> Ct_draft"
    using billed(1) keeps_contracts[OF k] by (auto simp: billable_def dest: contractOf_id)
  note c = holds_claimPeriod[OF billed(7) this]
  have "holds_claims s s2" by (rule holds_keeps[OF k])
  also note c
  also have "holds_claims s3 t" by (simp add: billed(9) holds_advancePointer)
  finally show ?thesis .
qed (simp_all add: holds_expireContract)

lemma holds_billOne: "holds_claims (snd st) (snd (billOne asOf now i st))"
  by (auto simp: billOne_def split: prod.splits sum.splits generate_result.splits
      dest: holds_generateDueInvoice keeps_issueInvoice intro: holds_trans holds_keeps)

lemma holds_billingSweep: "holds_claims s (snd (runContractBillingSweep asOf clock s))"
  unfolding runContractBillingSweep_def
  using fold_path[OF holds_preorder, of _ "\<lambda>i. billOne asOf (clock i) i" "((0, 0), s)"] holds_billOne by simp

subsection \<open>Runs of the service\<close>

text \<open>A call of the contract service, a run of its job, or a call of the invoice service.\<close>

inductive contract_step :: "db \<Rightarrow> db \<Rightarrow> bool" where
  "createContract input a now s = Inr (c, t) \<Longrightarrow> contract_step s t"
| "updateContract i p a now s = Inr (c, t) \<Longrightarrow> contract_step s t"
| "deleteDraftContract i a s = Inr (u, t) \<Longrightarrow> contract_step s t"
| "addContractLineToContract i linput a s = Inr (l, t) \<Longrightarrow> contract_step s t"
| "removeContractLine i k a s = Inr (u, t) \<Longrightarrow> contract_step s t"
| "activateContract i a now s = Inr (c, t) \<Longrightarrow> contract_step s t"
| "pauseContract i a now s = Inr (c, t) \<Longrightarrow> contract_step s t"
| "resumeContract i a today now s = Inr (c, t) \<Longrightarrow> contract_step s t"
| "cancelContract i a now s = Inr (c, t) \<Longrightarrow> contract_step s t"
| "createContractWithLines spec now s = Inr (c, t) \<Longrightarrow> contract_step s t"
| "generateDueInvoice i now s = Inr (x, t) \<Longrightarrow> contract_step s t"
| "(\<And>i. 0 \<le> getUTCFullYear (clock i)) \<Longrightarrow> contract_step s (snd (runContractBillingSweep now clock s))"
| "contract_step s (snd (runContractRenewalSweep now s))"
| invoicing: "invoice_step s t \<Longrightarrow> keeps s t \<Longrightarrow> contract_step s t"

lemmas contract_outside = outside_createContract outside_updateContract outside_deleteDraftContract
  outside_addContractLineToContract outside_removeContractLine outside_activateContract outside_pauseContract
  outside_resumeContract outside_cancelContract outside_createContractWithLines

lemma contract_step_refines: "contract_step s t \<Longrightarrow> refines s t"
  by (induction rule: contract_step.induct)
     (auto dest: contract_outside[THEN refines_outside] refines_generateDueInvoice invoice_step_refines
       intro: refines_billingSweep refines_outside outside_renewalSweep)

interpretation contracts: ledger_client False contract_step
  by unfold_locales (rule contract_step_refines)

lemmas contract_holds = holds_createContract holds_updateContract holds_deleteDraftContract
  holds_addContractLineToContract holds_removeContractLine holds_activateContract holds_pauseContract
  holds_resumeContract holds_cancelContract holds_createContractWithLines holds_generateDueInvoice

lemma contract_step_holds: "contract_step s t \<Longrightarrow> holds_claims s t"
  by (induction rule: contract_step.induct)
     (auto dest: contract_holds intro: holds_billingSweep holds_renewalSweep holds_keeps)

lemma contract_run_holds: "contract_step\<^sup>*\<^sup>* s t \<Longrightarrow> holds_claims s t"
  by (induction rule: rtranclp_induct) (auto intro: holds_trans contract_step_holds)

section \<open>What an invoice of a contract bills\<close>

lemma recomputeTotals_effect:
  assumes "recomputeInvoiceTotals i None now s = Inr (u, t)"
  shows "linesOf t = linesOf s" "j \<noteq> i \<Longrightarrow> invOf t j = invOf s j"
    "\<exists>r. invOf s i = Some r \<and> inv_status r = Inv_draft \<and>
       (\<exists>b. invOf t i = Some (writeTotals (computeInvoiceTotals (map lineTotalsRow (linesOf s i))
          (Some (effectiveRateForOrg (inv_orgId r) s))) (Some (effectiveRateForOrg (inv_orgId r) s)) b now r))"
    "db_organizations t = db_organizations s"
proof -
  let ?f = "\<lambda>r b. writeTotals (computeInvoiceTotals (map lineTotalsRow (linesOf s i))
      (Some (effectiveRateForOrg (inv_orgId r) s))) (Some (effectiveRateForOrg (inv_orgId r) s)) b now"
  obtain r b where r: "invOf s i = Some r" "inv_status r = Inv_draft" and t: "t = updateInvoices i (?f r b) s"
    using assms by (auto simp: recomputeInvoiceTotals_def guard_simps assertDraft_def Let_def)
  have id: "inv_id (?f r b q) = inv_id q" for q by (simp add: writeTotals_def)
  show "linesOf t = linesOf s" "db_organizations t = db_organizations s"
    by (simp_all add: t linesOf_def[abs_def] updateInvoices_def)
  show "j \<noteq> i \<Longrightarrow> invOf t j = invOf s j" by (simp add: t invOf_update[OF id])
  show "\<exists>r. invOf s i = Some r \<and> inv_status r = Inv_draft \<and> (\<exists>b. invOf t i = Some (?f r b r))"
    using r by (auto simp: t invOf_update[OF id])
qed

lemma insertLineAndRecompute_effect:
  assumes "insertLineAndRecompute i g p now s = Inr (l, t)"
  shows "l = lineRow (db_next s) i g (nextSort (linesOf s i)) p" "linesOf t i = linesOf s i @ [l]"
    "j \<noteq> i \<Longrightarrow> linesOf t j = linesOf s j" "j \<noteq> i \<Longrightarrow> invOf t j = invOf s j"
    "\<exists>r b. invOf s i = Some r \<and> inv_status r = Inv_draft \<and>
       invOf t i = Some (writeTotals (computeInvoiceTotals (map lineTotalsRow (linesOf t i))
          (Some (effectiveRateForOrg (inv_orgId r) t))) (Some (effectiveRateForOrg (inv_orgId r) t)) b now r)"
    "db_organizations t = db_organizations s"
proof -
  let ?l = "lineRow (db_next s) i g (nextSort (linesOf s i)) p"
  let ?u = "s \<lparr> db_next := Suc (db_next s), db_invoiceLines := insertRow ?l (db_invoiceLines s) \<rparr>"
  have l: "l = ?l" and r: "recomputeInvoiceTotals i None now ?u = Inr ((), t)"
    using assms by (auto simp: insertLineAndRecompute_def insertLine_eq guard_simps Let_def)
  have lines: "linesOf ?u i = linesOf s i @ [?l]" "j \<noteq> i \<Longrightarrow> linesOf ?u j = linesOf s j"
    by (auto simp: linesOf_def selectWhere_insertRow)
  have inv: "invOf ?u = invOf s" by (simp add: invOf_def[abs_def])
  note e = recomputeTotals_effect[OF r, unfolded inv]
  show "l = ?l" by (rule l)
  show "linesOf t i = linesOf s i @ [l]" "j \<noteq> i \<Longrightarrow> linesOf t j = linesOf s j" using e(1) lines l by simp_all
  show "j \<noteq> i \<Longrightarrow> invOf t j = invOf s j" by (rule e(2))
  show "db_organizations t = db_organizations s" using e(4) by simp
  have "effectiveRateForOrg g ?u = effectiveRateForOrg g t" for g using e(4) by (simp add: effectiveRateForOrg_def orgOf_def)
  then show "\<exists>r b. invOf s i = Some r \<and> inv_status r = Inv_draft \<and>
       invOf t i = Some (writeTotals (computeInvoiceTotals (map lineTotalsRow (linesOf t i))
          (Some (effectiveRateForOrg (inv_orgId r) t))) (Some (effectiveRateForOrg (inv_orgId r) t)) b now r)"
    using e(3) e(1) by metis
qed

text \<open>How one contract line appears on the invoice; without a catalog item the price is the line's own.\<close>

definition billedAs :: "contract \<Rightarrow> db \<Rightarrow> contract_line \<Rightarrow> invoice_line \<Rightarrow> bool" where
  "billedAs c s l x \<longleftrightarrow> il_sourceType x = Src_contract \<and> il_sourceId x = Some (cl_id l) \<and> il_description x = cl_description l \<and>
     il_quantity x = numeric2 (billedQuantity c l s) \<and> il_customerVisible x \<and>
     (cl_catalogItemId l = None \<longrightarrow> il_taxable x = cl_taxable l \<and>
        il_unitPrice x = numeric2 (toFixed 2 (js_Number (cl_unitPrice l))) \<and>
        il_lineTotal x = numeric2 (computeLineTotal (billedQuantity c l s) (toFixed 2 (js_Number (cl_unitPrice l)))))"

lemma billedQuantity_keeps: "keeps s t \<Longrightarrow> billedQuantity c l t = billedQuantity c l s"
  by (simp add: billedQuantity_def countContractDevices_def countContractSeats_def keeps_def split: contract_line_type.split)

lemma billContractLine_effect:
  assumes "billContractLine c v now l s = Inr t"
  shows "\<exists>x. linesOf t v = linesOf s v @ [x] \<and> billedAs c s l x" "j \<noteq> v \<Longrightarrow> linesOf t j = linesOf s j \<and> invOf t j = invOf s j"
    "\<exists>r b. invOf s v = Some r \<and> inv_status r = Inv_draft \<and>
       invOf t v = Some (writeTotals (computeInvoiceTotals (map lineTotalsRow (linesOf t v))
          (Some (effectiveRateForOrg (inv_orgId r) t))) (Some (effectiveRateForOrg (inv_orgId r) t)) b now r)"
    "db_organizations t = db_organizations s"
proof -
  let ?in = "\<lparr> cli_description = cl_description l, cli_quantity = billedQuantity c l s, cli_unitPrice = cl_unitPrice l,
     cli_taxable = cl_taxable l, cli_catalogItemId = cl_catalogItemId l, cli_sourceId = Some (cl_id l) \<rparr>"
  obtain x where add: "addContractLine v ?in (contractActor c) now s = Inr (x, t)"
    using assms by (auto simp: billContractLine_def elim!: bindE_InrE)
  obtain r :: invoice and p where price: "contractLinePrice ?in (inv_orgId r) (contractActor c) s = Inr p"
    and ins: "insertLineAndRecompute v (inv_orgId r)
       \<lparr> ls_sourceType = Src_contract, ls_sourceId = Some (cl_id l), ls_catalogItemId = cl_catalogItemId l,
         ls_parentLineId = None, ls_ticketId = None, ls_description = cl_description l,
         ls_quantity = billedQuantity c l s, ls_unitPrice = fst p, ls_costBasis = snd (snd p),
         ls_revenueAllocation = None, ls_taxable = fst (snd p), ls_customerVisible = True,
         ls_lineTotal = computeLineTotal (billedQuantity c l s) (fst p), ls_isUnapprovedTime = False \<rparr> now s = Inr (x, t)"
    using add unfolding addContractLine_def bindE_eq_Inr contract_line_input.simps by blast
  note e = insertLineAndRecompute_effect[OF ins]
  have "fst p = toFixed 2 (js_Number (cl_unitPrice l)) \<and> fst (snd p) = cl_taxable l" if "cl_catalogItemId l = None"
    using price that by (auto simp: contractLinePrice_def Let_def guard_simps)
  then have "billedAs c s l x" unfolding e(1) by (simp add: billedAs_def lineRow_def)
  then show "\<exists>x. linesOf t v = linesOf s v @ [x] \<and> billedAs c s l x" using e(2) by blast
  show "j \<noteq> v \<Longrightarrow> linesOf t j = linesOf s j \<and> invOf t j = invOf s j" using e(3,4) by simp
  show "\<exists>r b. invOf s v = Some r \<and> inv_status r = Inv_draft \<and>
       invOf t v = Some (writeTotals (computeInvoiceTotals (map lineTotalsRow (linesOf t v))
          (Some (effectiveRateForOrg (inv_orgId r) t))) (Some (effectiveRateForOrg (inv_orgId r) t)) b now r)"
    by (rule e(5))
  show "db_organizations t = db_organizations s" by (rule e(6))
qed

text \<open>The invoice carries the totals of its lines.\<close>

definition totalled :: "db \<Rightarrow> uuid \<Rightarrow> invoice \<Rightarrow> bool" where
  "totalled s v r \<longleftrightarrow> (let t = computeInvoiceTotals (map lineTotalsRow (linesOf s v)) (Some (effectiveRateForOrg (inv_orgId r) s))
     in inv_subtotal r = subtotal t \<and> inv_taxTotal r = taxTotal t \<and> inv_total r = total t)"

lemma billLines_effect:
  assumes "foldE (billContractLine c v now) ls s = Inr t" "invOf s v = Some r0" "inv_status r0 = Inv_draft"
  shows "\<exists>xs. linesOf t v = linesOf s v @ xs \<and> list_all2 (billedAs c s) ls xs"
    "\<forall>j. j \<noteq> v \<longrightarrow> linesOf t j = linesOf s j \<and> invOf t j = invOf s j"
    "\<exists>r. invOf t v = Some r \<and> inv_status r = Inv_draft \<and> inv_orgId r = inv_orgId r0 \<and> inv_partnerId r = inv_partnerId r0 \<and>
       (ls \<noteq> [] \<longrightarrow> totalled t v r)"
    "db_organizations t = db_organizations s"
  using assms
proof (atomize (full), induction ls arbitrary: s r0)
  case (Cons l ls)
  from Cons.prems(1) obtain u where u: "billContractLine c v now l s = Inr u" "foldE (billContractLine c v now) ls u = Inr t"
    by (auto elim!: bindE_InrE)
  note e = billContractLine_effect[OF u(1)]
  have k: "keeps s u" using u(1) by (auto simp: billContractLine_def elim!: bindE_InrE dest: keeps_addContractLine)
  obtain x b where x: "linesOf u v = linesOf s v @ [x]" "billedAs c s l x"
    and r1: "invOf u v = Some (writeTotals (computeInvoiceTotals (map lineTotalsRow (linesOf u v))
          (Some (effectiveRateForOrg (inv_orgId r0) u))) (Some (effectiveRateForOrg (inv_orgId r0) u)) b now r0)" (is "_ = Some ?r1")
    using e(1,3) Cons.prems(2) by auto
  have r1': "inv_status ?r1 = Inv_draft" "inv_orgId ?r1 = inv_orgId r0" "inv_partnerId ?r1 = inv_partnerId r0" "totalled u v ?r1"
    using Cons.prems(3) by (simp_all add: writeTotals_def totalled_def Let_def)
  have "billedAs c u = billedAs c s" by (intro ext) (simp add: billedAs_def billedQuantity_keeps[OF k])
  note IH = Cons.IH[OF u(2) r1 r1'(1), unfolded this]
  have "ls = [] \<Longrightarrow> t = u" using u(2) by simp
  then show ?case using IH x e(2,4) r1 r1' by (cases "ls = []") auto
qed simp

lemma createManualInvoice_effect:
  assumes "createManualInvoice g site notes tc a now s = Inr (r, t)" "billing_ok s"
  shows "invOf t = (invOf s)(inv_id r \<mapsto> r)" "inv_id r = db_next s" "inv_status r = Inv_draft" "inv_orgId r = g"
    "a_partnerId a = Some (inv_partnerId r)" "linesOf t = linesOf s" "db_organizations t = db_organizations s"
proof -
  obtain p where r: "r = (blankInvoice (db_next s) p g now) \<lparr> inv_siteId := site, inv_notes := notes,
      inv_termsAndConditions := tc, inv_createdBy := a_userId a \<rparr>"
    and p: "a_partnerId a = Some p" and ins: "insertInvoice r s = Inr t"
    using assms(1) by (auto simp: createManualInvoice_def requirePartner_def guard_simps Let_def)
  show "inv_id r = db_next s" "inv_status r = Inv_draft" "inv_orgId r = g" "a_partnerId a = Some (inv_partnerId r)"
    using p by (simp_all add: r blankInvoice_def)
  then show "invOf t = (invOf s)(inv_id r \<mapsto> r)" using invOf_insert[OF assms(2) ins] by simp
  show "linesOf t = linesOf s" "db_organizations t = db_organizations s"
    using ins by (auto simp: insertInvoice_eq linesOf_def[abs_def])
qed

text \<open>The contract row after its period \<open>idx\<close> is billed.\<close>

definition advanced :: "contract \<Rightarrow> int \<Rightarrow> instant \<Rightarrow> contract" where
  "advanced c idx asOf =
     (let n = computePeriod (c_startDate c) (c_intervalMonths c) (idx + 1)
      in if isExpired (c_endDate c) (periodStart n)
         then c \<lparr> c_status := Ct_expired, c_nextBillingAt := None, c_updatedAt := asOf \<rparr>
         else c \<lparr> c_nextBillingAt := Some (if c_billingTiming c = Timing_advance then periodStart n else periodEnd n), c_updatedAt := asOf \<rparr>)"

lemma contractOf_advancePointer:
  "contractOf s (c_id c) = Some c \<Longrightarrow>
   contractOf (advancePointer c idx asOf s) j = (if j = c_id c then Some (advanced c idx asOf) else contractOf s j)"
  by (auto simp: advancePointer_def advanced_def expireContract_def Let_def contractOf_update)

lemma invoices_outside: "outside s t \<Longrightarrow> invOf t = invOf s \<and> linesOf t = linesOf s"
  by (simp add: outside_def same_tables_def invOf_def[abs_def] linesOf_def[abs_def])

lemma contractOf_claimPeriod: "claimPeriod c p v s = (True, t) \<Longrightarrow> contractOf t = contractOf s"
  using claimPeriod_claims(2) by (simp add: contractOf_def[abs_def])

text \<open>
  (C7) A successful billing run: the contract was active and due for a period nobody had billed; the
  new draft, on the contract's organization and partner, has exactly one line per contract line, with the
  contracted quantity (or the current count of devices or seats), carries the totals of these lines, and
  every other invoice is as before; the period is claimed; the billing date moves to the following period,
  or the contract expires when that period would begin on or after its end date. Other contracts are untouched.
\<close>

theorem generateDueInvoice_bills:
  assumes "generateDueInvoice i asOf s = Inr (Generated v auto act, t)" "billing_ok s"
  shows "\<exists>c nextAt. contractOf s i = Some c \<and> c_status c = Ct_active \<and> c_nextBillingAt c = Some nextAt \<and> nextAt \<le> utcDay asOf \<and>
    invOf s v = None \<and>
    (\<exists>r. invOf t v = Some r \<and> inv_status r = Inv_draft \<and> inv_orgId r = c_orgId c \<and> inv_partnerId r = c_partnerId c \<and> totalled t v r) \<and>
    list_all2 (billedAs c s) (contractLinesOf s i) (linesOf t v) \<and>
    (\<forall>j. j \<noteq> v \<longrightarrow> invOf t j = invOf s j \<and> linesOf t j = linesOf s j) \<and>
    \<not> periodTaken i (periodStart (duePeriod c nextAt)) s \<and> claims t = insert (i, periodStart (duePeriod c nextAt)) (claims s) \<and>
    contractOf t = (contractOf s)(i \<mapsto> advanced c (dueIndex c nextAt) asOf)"
  using assms(1)
proof (cases rule: generateDueInvoice_cases)
  case (billed c nextAt r s1 s2 s3)
  have v: "v = inv_id r" using billed(8) by simp
  have c: "contractOf s i = Some c" "c_status c = Ct_active" "c_nextBillingAt c = Some nextAt" "nextAt \<le> utcDay asOf" "c_id c = i"
    using billed(1) by (auto simp: billable_def dest: contractOf_id)
  note cm = createManualInvoice_effect[OF billed(4) assms(2)]
  have r1: "invOf s1 v = Some r" "inv_partnerId r = c_partnerId c" using cm(1,5) by (simp_all add: v contractActor_def)
  note bl = billLines_effect[OF billed(5)[folded v] r1(1) cm(3)]
  have k1: "keeps s s1" by (rule keeps_createManualInvoice[OF billed(4)])
  have k: "keeps s s2" using k1 keeps_billLines[OF billed(5)] by (rule keeps_trans)
  have "billedAs c s1 = billedAs c s" by (intro ext) (simp add: billedAs_def billedQuantity_keeps[OF k1])
  moreover have "linesOf s v = []" "invOf s v = None"
    using linesOf_fresh[OF assms(2)] invOf_fresh[OF assms(2)] by (simp_all add: v cm(2))
  ultimately have lines: "list_all2 (billedAs c s) (contractLinesOf s i) (linesOf s2 v)" using bl(1) cm(6) by simp
  have o: "outside s2 t" using outside_claimPeriod[OF billed(7)] by (simp add: billed(9))
  have ct: "contractOf t = (contractOf s)(i \<mapsto> advanced c (dueIndex c nextAt) asOf)"
    using contractOf_advancePointer[of s3 c] contractOf_claimPeriod[OF billed(7)] keeps_contracts[OF k] c
    by (auto simp: billed(9))
  have orgs: "db_organizations t = db_organizations s2"
    using billed(7) by (auto simp: billed(9) advancePointer_def expireContract_def updateContracts_def emit_def claimPeriod_def
        Let_def split: if_splits)
  obtain r2 where r2: "invOf s2 v = Some r2" "inv_status r2 = Inv_draft" "inv_orgId r2 = c_orgId c" "inv_partnerId r2 = c_partnerId c"
      "totalled s2 v r2" using bl(3) billed(3) cm(4) r1(2) by auto
  have "totalled t v r2" using r2(5) invoices_outside[OF o] orgs by (simp add: totalled_def effectiveRateForOrg_def orgOf_def)
  moreover have "\<forall>j. j \<noteq> v \<longrightarrow> invOf t j = invOf s j \<and> linesOf t j = linesOf s j"
    using bl(2) cm(1,6) invoices_outside[OF o] by (simp add: v)
  moreover have "claims t = insert (i, periodStart (duePeriod c nextAt)) (claims s)" "(i, periodStart (duePeriod c nextAt)) \<notin> claims s"
    using generated_claims[OF assms(1)] c(1,3) by (auto simp: billable_def)
  ultimately show ?thesis
    using c r2 lines ct \<open>invOf s v = None\<close> invoices_outside[OF o] by (auto simp: periodTaken_iff)
qed simp_all

text \<open>
  (C8) Two invoices generated for a contract never bill the same period: whatever calls of the contract and
  invoice services happen in between (including deletion of the first invoice), the second one claims a period
  start that was still free, while the first one's period stays claimed.
\<close>

theorem period_billed_once:
  assumes "contracts_ok s" "generateDueInvoice i asOf s = Inr (Generated v auto act, s1)" "contract_step\<^sup>*\<^sup>* s1 s2"
    "generateDueInvoice i later s2 = Inr (Generated w auto' act', s3)"
  shows "\<exists>p q. p \<noteq> q \<and> \<not> periodTaken i p s \<and> periodTaken i p s1 \<and> \<not> periodTaken i q s2 \<and> periodTaken i q s3 \<and>
    claims s1 = insert (i, p) (claims s) \<and> claims s3 = insert (i, q) (claims s2)"
proof -
  obtain p where p: "(i, p) \<notin> claims s" "claims s1 = insert (i, p) (claims s)" using generated_claims[OF assms(2)] by auto
  obtain q where q: "(i, q) \<notin> claims s2" "claims s3 = insert (i, q) (claims s2)" using generated_claims[OF assms(4)] by auto
  have "contracts_ok s1" using holds_generateDueInvoice[OF assms(2)] assms(1) by (simp add: holds_claims_def)
  then have "claims s1 \<subseteq> claims s2" using contract_run_holds[OF assms(3)] by (simp add: holds_claims_def)
  then have "p \<noteq> q" using p q by auto
  then show ?thesis using p q by (auto simp: periodTaken_iff)
qed

section \<open>The daily job\<close>

definition claimsFor :: "uuid \<Rightarrow> db \<Rightarrow> iso_date set" where
  "claimsFor i s = {p. (i, p) \<in> claims s}"

text \<open>The daily job, run at each of the given times.\<close>

definition runJobs :: "(instant \<times> instant \<times> (uuid \<Rightarrow> instant)) list \<Rightarrow> db \<Rightarrow> db" where
  "runJobs ts s = fold (\<lambda>(renewAt, asOf, clock) u. snd (billingSweepJob renewAt asOf clock u)) ts s"

lemma keeps_pins: "keeps s t \<Longrightarrow> contractOf t = contractOf s \<and> claims t = claims s"
  using keeps_contracts keeps_claims by blast

lemma generate_other:
  assumes "generateDueInvoice j asOf s = Inr (x, t)" "j \<noteq> i"
  shows "contractOf t i = contractOf s i \<and> claimsFor i t = claimsFor i s"
  using assms(1)
proof (cases rule: generateDueInvoice_cases)
  case (expired c nextAt)
  then have "c_id c = j" by (auto simp: billable_def dest: contractOf_id)
  then show ?thesis using assms(2) expired(4) by (simp add: expireContract_def contractOf_update claimsFor_def)
next
  case (taken c nextAt r s1 s2)
  have "keeps s t"
    using keeps_createManualInvoice[OF taken(3)] keeps_billLines[OF taken(4)] keeps_deleteDraftInvoice[OF taken(6)] keeps_trans by blast
  then show ?thesis using keeps_pins by (simp add: claimsFor_def)
next
  case (billed c nextAt r s1 s2 s3)
  have k: "keeps s s2" using keeps_createManualInvoice[OF billed(4)] keeps_billLines[OF billed(5)] by (rule keeps_trans)
  have id: "c_id c = j" "contractOf s j = Some c" using billed(1) by (auto simp: billable_def dest: contractOf_id)
  have "contractOf s3 = contractOf s" using contractOf_claimPeriod[OF billed(7)] keeps_pins[OF k] by simp
  moreover have "claims t = insert (j, periodStart (duePeriod c nextAt)) (claims s)"
    using generated_claims[of j asOf s "inv_id r" "c_autoIssue c" "contractActor c" t] assms(1) billed(1,8) id
    by (auto simp: billable_def)
  ultimately show ?thesis using assms(2) id by (simp add: billed(9) contractOf_advancePointer claimsFor_def)
qed simp

text \<open>What an attempt does to the contract itself.\<close>

lemma generate_self:
  assumes "generateDueInvoice i asOf s = Inr (x, t)"
  obtains (same) "contractOf t i = contractOf s i" "claims t = claims s" "\<nexists>v b a. x = Generated v b a"
  | (expired) c where "contractOf s i = Some c" "claims t = claims s" "\<nexists>v b a. x = Generated v b a"
      "contractOf t i = Some (c \<lparr> c_status := Ct_expired, c_nextBillingAt := None, c_updatedAt := asOf \<rparr>)"
  | (billed) c d where "billable i asOf s c d" "\<not> isExpired (c_endDate c) (periodStart (duePeriod c d))"
      "(i, periodStart (duePeriod c d)) \<notin> claims s" "claims t = insert (i, periodStart (duePeriod c d)) (claims s)"
      "contractOf t i = Some (advanced c (dueIndex c d) asOf)"
  using assms
proof (cases rule: generateDueInvoice_cases)
  case skip then show ?thesis using same by simp
next
  case (expired c nextAt)
  then have "c_id c = i" "contractOf s i = Some c" by (auto simp: billable_def dest: contractOf_id)
  then show ?thesis using expired by (intro that(2)) (simp_all add: expireContract_def contractOf_update)
next
  case (taken c nextAt r s1 s2)
  have "keeps s t"
    using keeps_createManualInvoice[OF taken(3)] keeps_billLines[OF taken(4)] keeps_deleteDraftInvoice[OF taken(6)] keeps_trans by blast
  then show ?thesis using same keeps_pins taken(7) by simp
next
  case (billed c nextAt r s1 s2 s3)
  have k: "keeps s s2" using keeps_createManualInvoice[OF billed(4)] keeps_billLines[OF billed(5)] by (rule keeps_trans)
  have id: "c_id c = i" "contractOf s i = Some c" using billed(1) by (auto simp: billable_def dest: contractOf_id)
  have "contractOf s3 = contractOf s" using contractOf_claimPeriod[OF billed(7)] keeps_pins[OF k] by simp
  then have "contractOf t i = Some (advanced c (dueIndex c nextAt) asOf)"
    using id by (simp add: billed(9) contractOf_advancePointer)
  moreover have "claims t = insert (i, periodStart (duePeriod c nextAt)) (claims s)" "(i, periodStart (duePeriod c nextAt)) \<notin> claims s"
    using generated_claims[of i asOf s "inv_id r" "c_autoIssue c" "contractActor c" t] assms(1) billed(1,8) id
    by (auto simp: billable_def)
  ultimately show ?thesis using that(3) billed(1,2) by blast
qed

lemma claimNotice_frame:
  "contractOf (snd (claimNotice c e k s)) = contractOf s" "claims (snd (claimNotice c e k s)) = claims s"
  by (auto simp: claimNotice_def contractOf_def[abs_def] claims_def)

text \<open>
  A property of one contract and its claims that every billing attempt on that contract keeps, the
  renewal pass keeps, and that reads nothing else, holds after any number of daily jobs.
\<close>

locale contract_watch =
  fixes i :: uuid and good :: "contract option \<Rightarrow> iso_date set \<Rightarrow> bool"
  assumes bill: "generateDueInvoice i asOf s = Inr (x, t) \<Longrightarrow> good (contractOf s i) (claimsFor i s) \<Longrightarrow>
      good (contractOf t i) (claimsFor i t)"
    and renew: "c_id c = i \<Longrightarrow> contractOf s i = Some c \<Longrightarrow> good (Some c) Q \<Longrightarrow> c_nextBillingAt c = Some d \<Longrightarrow>
      c_status c = Ct_active \<Longrightarrow> c_endDate c = Some e \<Longrightarrow>
      extendTermPastDue e (duePeriodStartFor (c_billingTiming c) d (c_intervalMonths c)) m = (e', True) \<Longrightarrow>
      good (Some (c \<lparr> c_endDate := Some e', c_updatedAt := now \<rparr>)) Q"
begin

abbreviation "holds s \<equiv> good (contractOf s i) (claimsFor i s)"

lemma billOne_holds: "holds (snd st) \<Longrightarrow> holds (snd (billOne asOf now j st))"
proof -
  assume g: "holds (snd st)"
  obtain bf s where st: "st = (bf, s)" by (cases st)
  show "holds (snd (billOne asOf now j st))"
  proof (cases "generateDueInvoice j asOf s")
    case (Inl e) then show ?thesis using g by (simp add: st billOne_def split: prod.splits)
  next
    case (Inr y)
    obtain x t where y: "y = (x, t)" by (cases y)
    have t: "holds t"
    proof (cases "j = i")
      case True then show ?thesis using bill Inr g by (simp add: st y)
    next
      case False then show ?thesis using generate_other[of j asOf s x t i] Inr g by (simp add: st y)
    qed
    have "holds t'" if "issueInvoice v a now t = Inr (r, t')" for v a r t'
      using keeps_pins[OF keeps_issueInvoice[OF that]] t by (simp add: claimsFor_def)
    then show ?thesis using t Inr
      by (auto simp: st y billOne_def split: prod.splits generate_result.splits sum.splits)
  qed
qed

lemma billing_holds: "holds s \<Longrightarrow> holds (snd (runContractBillingSweep asOf clock s))"
proof -
  have "holds (snd st) \<Longrightarrow> holds (snd (fold (\<lambda>j. billOne asOf (clock j) j) js st))" for js st
    by (induction js arbitrary: st) (simp_all add: billOne_holds)
  then show "holds s \<Longrightarrow> ?thesis" by (simp add: runContractBillingSweep_def)
qed

lemma renewOne_other:
  assumes "c_id c \<noteq> i"
  shows "contractOf (snd (renewOne asOf c st)) i = contractOf (snd st) i \<and> claims (snd (renewOne asOf c st)) = claims (snd st)"
  using assms unfolding renewOne_def
  by (auto simp: noticePass_def extendPass_def claimNotice_frame contractOf_update Let_def split: option.splits prod.splits
      dest!: arg_cong[where f = snd and x = "claimNotice _ _ _ _"])

lemma renewOne_self:
  assumes "c_id c = i" "contractOf (snd st) i = Some c" "c_status c = Ct_active" "good (Some c) (claimsFor i (snd st))"
  shows "holds (snd (renewOne asOf c st))"
proof (cases "c_endDate c")
  case None then show ?thesis using assms by (simp add: renewOne_def)
next
  case (Some e)
  have n: "contractOf (snd (noticePass d c e x)) = contractOf (snd x) \<and> claims (snd (noticePass d c e x)) = claims (snd x)" for d x
    by (cases "claimNotice c e Notice_advance (snd x)")
       (use claimNotice_frame[of c e Notice_advance "snd x"] in \<open>simp add: noticePass_def\<close>)
  have x: "holds (snd (extendPass asOf c e m x))" if "contractOf (snd x) i = Some c" "good (Some c) (claimsFor i (snd x))" for m x
  proof -
    have "holds (snd (claimNotice c e' k (emit ev (updateContracts i (\<lambda>r. r \<lparr> c_endDate := Some e', c_updatedAt := asOf \<rparr>) (snd x)))))"
      if "c_nextBillingAt c = Some d" "extendTermPastDue e (duePeriodStartFor (c_billingTiming c) d (c_intervalMonths c)) m = (e', True)" for d e' k ev
      using renew[OF assms(1) \<open>contractOf (snd x) i = Some c\<close> \<open>good (Some c) (claimsFor i (snd x))\<close> that(1) assms(3) Some that(2)]
        \<open>contractOf (snd x) i = Some c\<close>
      by (simp add: claimNotice_frame contractOf_update claimsFor_def)
    then show ?thesis using that assms(1) by (auto simp: extendPass_def Let_def split: option.splits prod.splits)
  qed
  show ?thesis
  proof (cases "c_renewalTermMonths c")
    case (Some m)
    have "holds (snd (extendPass asOf c e m (k, snd (noticePass (utcDay asOf) c e (fst (fst st), snd st)))))" for k
      using n[of "utcDay asOf" "(fst (fst st), snd st)"] assms(2,4) by (intro x) (simp_all add: claimsFor_def)
    then show ?thesis using Some \<open>c_endDate c = Some e\<close> assms(2,4)
      by (auto simp: renewOne_def split: prod.splits) (metis snd_conv)+
  qed (use assms Some in \<open>simp add: renewOne_def\<close>)
qed

lemma renewing_holds:
  assumes "contracts_ok s" "holds s"
  shows "holds (snd (runContractRenewalSweep asOf s))"
proof -
  have "holds (snd (fold (renewOne asOf) cs st))"
    if "distinct (map c_id cs)" "\<And>c. c \<in> set cs \<Longrightarrow> c_id c = i \<Longrightarrow> contractOf (snd st) i = Some c \<and> c_status c = Ct_active" "holds (snd st)" for cs st
    using that
  proof (induction cs arbitrary: st)
    case (Cons c cs)
    show ?case
    proof (cases "c_id c = i")
      case True
      then have "contractOf (snd st) i = Some c" "c_status c = Ct_active" using Cons.prems(2) by simp_all
      then have "holds (snd (renewOne asOf c st))" using renewOne_self True Cons.prems(3) by simp
      moreover have "c_id d \<noteq> i" if "d \<in> set cs" for d using Cons.prems(1) True that by (metis distinct.simps(2) imageI list.set_map list.simps(9))
      ultimately show ?thesis using Cons.IH Cons.prems(1) by simp
    next
      case False
      note e = renewOne_other[OF False, of asOf st]
      then have "holds (snd (renewOne asOf c st))" using Cons.prems(3) by (simp add: claimsFor_def)
      then show ?thesis using Cons.IH[of "renewOne asOf c st"] Cons.prems(1,2) e by simp
    qed
  qed simp
  moreover have "distinct (map c_id (selectWhere renewalCandidate (db_contracts s)))"
    using assms(1) by (simp add: contracts_ok_def key_ok_def selectWhere_def distinct_map_filter)
  moreover have "contractOf s i = Some c \<and> c_status c = Ct_active" if "c \<in> set (selectWhere renewalCandidate (db_contracts s))" "c_id c = i" for c
    using that assms(1) selectOne_key[of c_id "db_next s" "db_contracts s" c]
    by (auto simp: contracts_ok_def contractOf_def set_selectWhere renewalCandidate_def)
  ultimately show ?thesis using assms(2) by (simp add: runContractRenewalSweep_def)
qed

lemma jobs_hold: "contracts_ok s \<Longrightarrow> holds s \<Longrightarrow> contracts_ok (runJobs ts s) \<and> holds (runJobs ts s)"
proof (induction ts arbitrary: s)
  case (Cons job ts)
  obtain renewAt asOf clock where job: "job = (renewAt, asOf, clock)" by (cases job)
  have "contracts_ok (snd (billingSweepJob renewAt asOf clock s))"
    using holds_renewalSweep[of s renewAt] holds_billingSweep Cons.prems(1) by (simp add: billingSweepJob_def holds_claims_def)
  moreover have "holds (snd (billingSweepJob renewAt asOf clock s))"
    using billing_holds[OF renewing_holds[OF Cons.prems]] by (simp add: billingSweepJob_def)
  ultimately show ?case using Cons.IH by (simp add: runJobs_def job)
qed (simp add: runJobs_def)

end

section \<open>A resumed contract can stall\<close>

definition rowKept :: "contract \<Rightarrow> contract \<Rightarrow> bool" where
  "rowKept c c' \<longleftrightarrow> c_startDate c' = c_startDate c \<and> c_intervalMonths c' = c_intervalMonths c \<and> c_billingTiming c' = c_billingTiming c \<and>
     (c_status c' = Ct_active \<longrightarrow> c_nextBillingAt c' = c_nextBillingAt c)"

definition stalled :: "contract \<Rightarrow> iso_date \<Rightarrow> iso_date set \<Rightarrow> contract option \<Rightarrow> iso_date set \<Rightarrow> bool" where
  "stalled c d Q co P \<longleftrightarrow> P = Q \<and> (\<exists>c'. co = Some c' \<and> rowKept c c') \<and> c_nextBillingAt c = Some d \<and> periodStart (duePeriod c d) \<in> Q"

lemma rowKept_due: "rowKept c c' \<Longrightarrow> duePeriod c' d = duePeriod c d"
  by (simp add: rowKept_def duePeriod_def dueIndex_def)

interpretation stall: contract_watch i "stalled c d Q" for i c d Q
proof unfold_locales
  fix asOf s x t
  assume g: "generateDueInvoice i asOf s = Inr (x, t)" and st: "stalled c d Q (contractOf s i) (claimsFor i s)"
  then obtain c' where c': "contractOf s i = Some c'" "rowKept c c'" by (auto simp: stalled_def)
  from g show "stalled c d Q (contractOf t i) (claimsFor i t)"
  proof (cases rule: generate_self)
    case same then show ?thesis using st by (simp add: claimsFor_def)
  next
    case (expired c'')
    then show ?thesis using st c' by (auto simp: stalled_def claimsFor_def rowKept_def)
  next
    case (billed c'' d')
    then have "c'' = c'" "c_nextBillingAt c' = Some d'" "c_status c' = Ct_active" using c' by (auto simp: billable_def)
    then have "d' = d" using c'(2) st by (simp add: rowKept_def stalled_def)
    then have "(i, periodStart (duePeriod c'' d')) \<in> claims s"
      using st rowKept_due[OF c'(2)] \<open>c'' = c'\<close> by (auto simp: stalled_def claimsFor_def)
    then show ?thesis using billed(3) by simp
  qed
qed (auto simp: stalled_def rowKept_def)

text \<open>
  (C35) A contract that is resumed while the period its billing date falls into has already been billed is never
  billed again by the daily job: at every later time the job finds that period claimed, discards its draft and leaves
  the billing date where it is, so no further period is ever claimed and no billing attempt generates an invoice.
\<close>

theorem resume_stalls_billing:
  assumes "contracts_ok s" "contractOf s i = Some c"
    "periodTaken i (periodStart (duePeriod c (currentBillingDate c today))) s"
    "resumeContract i a today now s = Inr (c', t)"
  shows "\<forall>ts. claimsFor i (runJobs ts t) = claimsFor i s \<and>
    (\<forall>asOf v b act u. generateDueInvoice i asOf (runJobs ts t) \<noteq> Inr (Generated v b act, u))"
proof
  fix ts
  let ?d = "currentBillingDate c today"
  have id: "c_id c = i" using assms(2) by (rule contractOf_id)
  have c': "c' = c \<lparr> c_status := Ct_active, c_nextBillingAt := Some ?d, c_updatedAt := now \<rparr>" "contractOf t i = Some c'"
      "claims t = claims s"
    using assms(2,4) id by (auto simp: resumeContract_def setContract_def guard_simps Let_def contractOf_update)
  have "contracts_ok t" using holds_resumeContract[OF assms(4)] assms(1) by (simp add: holds_claims_def)
  moreover have "duePeriod c' ?d = duePeriod c ?d" by (simp add: c'(1) duePeriod_def dueIndex_def)
  then have "stalled c' ?d (claimsFor i s) (contractOf t i) (claimsFor i t)"
    using c' assms(3) by (simp add: stalled_def rowKept_def claimsFor_def periodTaken_iff)
  ultimately have j: "stalled c' ?d (claimsFor i s) (contractOf (runJobs ts t) i) (claimsFor i (runJobs ts t))"
    using stall.jobs_hold by blast
  have "generateDueInvoice i asOf (runJobs ts t) \<noteq> Inr (Generated v b act, u)" for asOf v b act u
  proof
    assume g: "generateDueInvoice i asOf (runJobs ts t) = Inr (Generated v b act, u)"
    have "claimsFor i u = claimsFor i (runJobs ts t)" using stall.bill[OF g j] j by (simp add: stalled_def)
    then show False using generated_claims[OF g] by (auto simp: claimsFor_def)
  qed
  then show "claimsFor i (runJobs ts t) = claimsFor i s \<and>
    (\<forall>asOf v b act u. generateDueInvoice i asOf (runJobs ts t) \<noteq> Inr (Generated v b act, u))"
    using j by (simp add: stalled_def)
qed

section \<open>Automatic renewal\<close>

definition unextended :: "iso_date \<Rightarrow> iso_date set \<Rightarrow> contract option \<Rightarrow> iso_date set \<Rightarrow> bool" where
  "unextended e Q co P \<longleftrightarrow> (\<exists>c. co = Some c \<and> c_billingTiming c = Timing_advance \<and> c_endDate c = Some e \<and>
     (\<forall>d. c_nextBillingAt c = Some d \<longrightarrow> d < e)) \<and> (\<forall>p \<in> P - Q. p < e)"

lemma isExpired_Some: "isExpired (Some e) d \<longleftrightarrow> \<not> d < e"
  by (simp add: isExpired_def not_less)

interpretation renewal: contract_watch i "unextended e Q" for i e Q
proof unfold_locales
  fix asOf s x t
  assume g: "generateDueInvoice i asOf s = Inr (x, t)" and st: "unextended e Q (contractOf s i) (claimsFor i s)"
  from g show "unextended e Q (contractOf t i) (claimsFor i t)"
  proof (cases rule: generate_self)
    case same then show ?thesis using st by (simp add: claimsFor_def)
  next
    case (expired c) then show ?thesis using st by (auto simp: unextended_def claimsFor_def)
  next
    case (billed c d)
    then have "contractOf s i = Some c" by (simp add: billable_def)
    then have c: "c_endDate c = Some e" "c_billingTiming c = Timing_advance" using st by (auto simp: unextended_def)
    have "claimsFor i t = insert (periodStart (duePeriod c d)) (claimsFor i s)" using billed(4) by (auto simp: claimsFor_def)
    moreover have "periodStart (duePeriod c d) < e" using billed(2) by (simp add: c isExpired_Some)
    moreover have "c_endDate (advanced c n asOf) = Some e" "c_billingTiming (advanced c n asOf) = Timing_advance"
        "c_nextBillingAt (advanced c n asOf) = Some d' \<Longrightarrow> d' < e" for n d'
      using c by (auto simp: advanced_def Let_def isExpired_Some split: if_splits)
    ultimately show ?thesis using billed(5) st by (auto simp: unextended_def)
  qed
next
  fix c :: contract and s Q' d e' m e'' now
  assume "unextended e Q (Some c) Q'" "c_nextBillingAt c = Some d" "c_endDate c = Some e'"
    "extendTermPastDue e' (duePeriodStartFor (c_billingTiming c) d (c_intervalMonths c)) m = (e'', True)"
  then show "unextended e Q (Some (c \<lparr> c_endDate := Some e'', c_updatedAt := now \<rparr>)) Q'"
    by (auto simp: unextended_def duePeriodStartFor_def extendTermPastDue_def isExpired_Some extendTermLoop.simps[of d m e])
qed

text \<open>
  (C34) Automatic renewal never happens for a contract that bills in advance: once the contract is on its schedule
  (its next billing date lies before its end date), no sequence of daily jobs changes the end date, whatever its
  renewal flag and term say, and no period that starts on or after the end date is ever billed.
\<close>

theorem auto_renew_never_extends:
  assumes "contracts_ok s" "contractOf s i = Some c" "c_billingTiming c = Timing_advance" "c_endDate c = Some e"
    "c_nextBillingAt c = Some d" "d < e"
  shows "\<forall>ts. \<exists>c'. contractOf (runJobs ts s) i = Some c' \<and> c_endDate c' = Some e \<and>
    (\<forall>p \<in> claimsFor i (runJobs ts s) - claimsFor i s. p < e)"
proof
  fix ts
  have "unextended e (claimsFor i s) (contractOf s i) (claimsFor i s)" using assms(2-) by (auto simp: unextended_def)
  then have "unextended e (claimsFor i s) (contractOf (runJobs ts s) i) (claimsFor i (runJobs ts s))"
    using renewal.jobs_hold[OF assms(1)] by blast
  then show "\<exists>c'. contractOf (runJobs ts s) i = Some c' \<and> c_endDate c' = Some e \<and>
    (\<forall>p \<in> claimsFor i (runJobs ts s) - claimsFor i s. p < e)"
    by (auto simp: unextended_def)
qed

section \<open>The recurring-value estimate\<close>

text \<open>The reference: every line counted afresh, the values added in line order.\<close>

definition lineQuantity :: "uuid \<Rightarrow> db \<Rightarrow> contract_line \<Rightarrow> jsnum" where
  "lineQuantity orgId s l = (case cl_lineType l of Cl_flat \<Rightarrow> 1
     | Cl_manual \<Rightarrow> js_Number (nullish (cl_manualQuantity l) 0)
     | Cl_per_device \<Rightarrow> of_nat (countContractDevices orgId (cl_siteId l) s)
     | Cl_per_seat \<Rightarrow> of_nat (countContractSeats orgId s))"

definition linesValue :: "uuid \<Rightarrow> db \<Rightarrow> contract_line list \<Rightarrow> jsnum \<Rightarrow> jsnum" where
  "linesValue orgId s ls tot = fold (\<lambda>l acc. fadd acc (fmul (js_Number (cl_unitPrice l)) (lineQuantity orgId s l))) ls tot"

definition caches_ok :: "db \<Rightarrow> device_cache \<times> seat_cache \<Rightarrow> bool" where
  "caches_ok s caches \<longleftrightarrow> (\<forall>k n. map_of (fst caches) k = Some n \<longrightarrow> n = countContractDevices (fst k) (snd k) s) \<and>
     (\<forall>g n. map_of (snd caches) g = Some n \<longrightarrow> n = countContractSeats g s)"

lemma memo_value:
  "\<forall>k n. map_of m k = Some n \<longrightarrow> n = f k \<Longrightarrow> memo k (f k) m = (n, m') \<Longrightarrow>
   n = f k \<and> (\<forall>k n. map_of m' k = Some n \<longrightarrow> n = f k)"
  by (auto simp: memo_def split: option.splits if_splits)

lemma resolveLineQty_value:
  assumes "caches_ok s caches" "resolveLineQty g l s caches = ((q, counted), caches')"
  shows "q = lineQuantity g s l \<and> caches_ok s caches'"
proof (cases "cl_lineType l")
  case Cl_per_device
  obtain n dc where m: "memo (g, cl_siteId l) (countContractDevices g (cl_siteId l) s) (fst caches) = (n, dc)" by fastforce
  have "n = countContractDevices g (cl_siteId l) s \<and> (\<forall>k n. map_of dc k = Some n \<longrightarrow> n = countContractDevices (fst k) (snd k) s)"
    using memo_value[of "fst caches" "\<lambda>k. countContractDevices (fst k) (snd k) s" "(g, cl_siteId l)", unfolded fst_conv snd_conv, OF _ m]
      assms(1) unfolding caches_ok_def by blast
  moreover have "q = of_nat n" "caches' = (dc, snd caches)"
    using assms(2) unfolding resolveLineQty_def Cl_per_device m contract_line_type.case by auto
  ultimately show ?thesis using assms(1) Cl_per_device unfolding caches_ok_def lineQuantity_def by auto
next
  case Cl_per_seat
  obtain n sc where m: "memo g (countContractSeats g s) (snd caches) = (n, sc)" by fastforce
  have "n = countContractSeats g s \<and> (\<forall>k n. map_of sc k = Some n \<longrightarrow> n = countContractSeats k s)"
    using memo_value[of "snd caches" "\<lambda>k. countContractSeats k s" g, OF _ m] assms(1) unfolding caches_ok_def by blast
  moreover have "q = of_nat n" "caches' = (fst caches, sc)"
    using assms(2) unfolding resolveLineQty_def Cl_per_seat m contract_line_type.case by auto
  ultimately show ?thesis using assms(1) Cl_per_seat unfolding caches_ok_def lineQuantity_def by auto
qed (use assms in \<open>auto simp: resolveLineQty_def lineQuantity_def\<close>)

lemma estimateLoop_value:
  "caches_ok s caches \<Longrightarrow> estimateLoop g s ls caches tot = ((tot', out), caches') \<Longrightarrow>
   tot' = linesValue g s ls tot \<and> map (\<lambda>x. fst (snd x)) out = map (lineQuantity g s) ls \<and> caches_ok s caches'"
proof (induction ls arbitrary: caches tot tot' out caches')
  case Nil then show ?case by (auto simp: linesValue_def)
next
  case (Cons l ls)
  obtain q counted c1 where r: "resolveLineQty g l s caches = ((q, counted), c1)" by (metis prod.collapse)
  have q: "q = lineQuantity g s l" "caches_ok s c1" using resolveLineQty_value[OF Cons.prems(1) r] by simp_all
  obtain t2 o2 c2 where e: "estimateLoop g s ls c1 (fadd tot (fmul (js_Number (cl_unitPrice l)) q)) = ((t2, o2), c2)"
    by (metis prod.collapse)
  have "tot' = t2" "caches' = c2" "out = (cl_id l, q, toFixed 2 (fmul (js_Number (cl_unitPrice l)) q), counted) # o2"
    using Cons.prems(2) r e by (auto simp: Let_def)
  then show ?case using Cons.IH[OF q(2) e] q(1) by (simp add: linesValue_def)
qed

text \<open>
  The recurring value shown for a contract in a list is the value of its own lines, each counted afresh, whatever
  other contracts share the page and whatever they left in the device and seat caches.
\<close>

theorem listed_value_is_own_value:
  "estimatePage s cs ([], []) =
   map (\<lambda>c. (c, toFixed 2 (linesValue (c_orgId c) s (selectWhere (\<lambda>l. cl_contractId l = c_id c) (db_contractLines s)) 0))) cs"
proof -
  have "estimatePage s cs caches =
     map (\<lambda>c. (c, toFixed 2 (linesValue (c_orgId c) s (selectWhere (\<lambda>l. cl_contractId l = c_id c) (db_contractLines s)) 0))) cs"
    if "caches_ok s caches" for caches
    using that
  proof (induction cs arbitrary: caches)
    case (Cons c cs)
    obtain tot out c2 where e: "estimateLoop (c_orgId c) s (selectWhere (\<lambda>l. cl_contractId l = c_id c) (db_contractLines s)) caches 0 = ((tot, out), c2)"
      by (metis prod.collapse)
    show ?case using estimateLoop_value[OF Cons.prems e] Cons.IH[of c2] e by simp
  qed simp
  then show ?thesis by (simp add: caches_ok_def)
qed

section \<open>A worked contract\<close>

text \<open>
  A monthly retainer of 150 in advance for June and July 2025, to be renewed for a year. June is billed on
  June 16 (\<open>june1\<close>), July on July 16, after which the contract has expired.
\<close>

definition retainer :: "contract_status \<Rightarrow> iso_date option \<Rightarrow> instant \<Rightarrow> contract" where
  "retainer st nextAt now = \<lparr> c_id = 50, c_partnerId = 10, c_orgId = 20, c_name = ''Support'', c_status = st,
     c_billingTiming = Timing_advance, c_intervalMonths = 1, c_startDate = ''2025-06-01'', c_endDate = Some ''2025-08-01'',
     c_nextBillingAt = nextAt, c_autoIssue = False, c_autoRenew = True, c_renewalTermMonths = Some 12,
     c_renewalNoticeDays = None, c_currencyCode = ''USD'', c_notes = None, c_terms = None, c_createdBy = Some 7,
     c_createdAt = 0, c_updatedAt = now \<rparr>"

definition retainer_line :: contract_line where
  "retainer_line = \<lparr> cl_id = 51, cl_contractId = 50, cl_orgId = 20, cl_lineType = Cl_flat, cl_description = ''Support'',
     cl_catalogItemId = None, cl_unitPrice = 150, cl_manualQuantity = None, cl_siteId = None, cl_taxable = False, cl_sortOrder = 0 \<rparr>"

definition june0 :: db where
  "june0 = day0 \<lparr> db_contracts := [retainer Ct_active (Some ''2025-06-01'') 0], db_contractLines := [retainer_line] \<rparr>"

definition july :: instant where
  "july = 1752667200000"

definition retainer_draft :: "uuid \<Rightarrow> instant \<Rightarrow> invoice" where
  "retainer_draft i now = writeTotals \<lparr> subtotal = 150, taxTotal = 0, total = 150 \<rparr> (Some 0) 150 now
     ((blankInvoice i 10 20 now) \<lparr> inv_siteId := None, inv_notes := None, inv_termsAndConditions := None, inv_createdBy := Some 7 \<rparr>)"

definition retainer_row :: "uuid \<Rightarrow> uuid \<Rightarrow> invoice_line" where
  "retainer_row k i = \<lparr> il_id = k, il_invoiceId = i, il_orgId = 20, il_sourceType = Src_contract, il_sourceId = Some 51,
     il_catalogItemId = None, il_parentLineId = None, il_ticketId = None, il_description = ''Support'', il_quantity = 1,
     il_unitPrice = 150, il_costBasis = None, il_revenueAllocation = None, il_taxable = False, il_customerVisible = True,
     il_lineTotal = 150, il_isUnapprovedTime = False, il_sortOrder = 1 \<rparr>"

definition retainer_claim :: "uuid \<Rightarrow> uuid \<Rightarrow> iso_date \<Rightarrow> iso_date \<Rightarrow> billing_period" where
  "retainer_claim k i pS pE = \<lparr> bp_id = k, bp_contractId = 50, bp_orgId = 20, bp_periodStart = pS, bp_periodEnd = pE, bp_invoiceId = Some i \<rparr>"

definition june1 :: db where
  "june1 = june0 \<lparr> db_next := 103, db_invoices := [retainer_draft 100 noon], db_invoiceLines := [retainer_row 101 100],
     db_billingPeriods := [retainer_claim 102 100 ''2025-06-01'' ''2025-07-01''],
     db_contracts := [retainer Ct_active (Some ''2025-07-01'') noon],
     db_events := db_events june0 @ [contractEvent Ev_contract_invoiced (retainer Ct_active (Some ''2025-06-01'') 0) (Some 100)] \<rparr>"

lemma retainer_literals [js_simps]:
  "js_Number 1 = 1" "fmul 1 150 = 150" "moneyFits 1" "numeric2 1 = 1" "fadd 15000 0 = 15000" "fsub 15000 0 = 15000"
  using rnd_of_int[of 1] rnd_of_int[of 15000] by (simp_all add: js_Number_def fmul_def fadd_def fsub_def js_literals moneyFits_def numeric2_def toFixed_def Math_floor_def
      Math_round_def floor_eq_iff rnd_of_int[of 150, simplified])

lemma june_dates:
  "utcDay july = ''2025-07-16''" "getUTCFullYear july = 2025"
  "dueIndex (retainer st x now) ''2025-06-01'' = 0" "dueIndex (retainer st x now) ''2025-07-01'' = 1"
  "computePeriod ''2025-06-01'' 1 0 = \<lparr> periodStart = ''2025-06-01'', periodEnd = ''2025-07-01'' \<rparr>"
  "computePeriod ''2025-06-01'' 1 1 = \<lparr> periodStart = ''2025-07-01'', periodEnd = ''2025-08-01'' \<rparr>"
  "computePeriod ''2025-06-01'' 1 2 = \<lparr> periodStart = ''2025-08-01'', periodEnd = ''2025-09-01'' \<rparr>"
  subgoal by code_simp
  subgoal by code_simp
  subgoal by (simp add: dueIndex_def retainer_def) code_simp
  subgoal by (simp add: dueIndex_def retainer_def) code_simp
  subgoal by code_simp
  subgoal by code_simp
  subgoal by code_simp
  done

lemma june0_sel:
  "db_next june0 = 100" "db_invoices june0 = []" "db_invoiceLines june0 = []" "db_billingPeriods june0 = []"
  "db_contracts june0 = [retainer Ct_active (Some ''2025-06-01'') 0]" "db_contractLines june0 = [retainer_line]"
  "db_organizations june0 = [acme]" "db_partners june0 = [msp_partner]"
  by (simp_all add: june0_def day0_sel) (simp add: day0_def empty_db_def)

lemma retainer_sel:
  "c_id (retainer st x now) = 50" "c_status (retainer st x now) = st" "c_nextBillingAt (retainer st x now) = x"
  "c_startDate (retainer st x now) = ''2025-06-01''" "c_intervalMonths (retainer st x now) = 1"
  "c_endDate (retainer st x now) = Some ''2025-08-01''" "c_orgId (retainer st x now) = 20"
  "c_billingTiming (retainer st x now) = Timing_advance" "contractNotes (retainer st x now) = None"
  "c_autoIssue (retainer st x now) = False"
  "contractActor (retainer st x now) = \<lparr> a_userId = Some 7, a_partnerId = Some 10, a_accessibleOrgIds = Some [20] \<rparr>"
  by (simp_all add: retainer_def contractNotes_def contractActor_def presentStrings_def)

lemma retainer_upd:
  "(retainer st x now) \<lparr> c_nextBillingAt := y, c_updatedAt := n \<rparr> = retainer st y n"
  "(retainer st x now) \<lparr> c_status := st', c_nextBillingAt := y, c_updatedAt := n \<rparr> = retainer st' y n"
  "inv_amountPaid (blankInvoice i p g n) = 0"
  by (simp_all add: retainer_def blankInvoice_def)

lemma retainer_totals:
  "computeInvoiceTotals [\<lparr> lineTotal = 150, taxable = False, customerVisible = True \<rparr>] (Some 0) =
   \<lparr> subtotal = 150, taxTotal = 0, total = 150 \<rparr>"
  by (simp add: computeInvoiceTotals_def js_simps)

lemmas generate_defs = createManualInvoice_def insertInvoice_def billContractLine_def billedQuantity_def addContractLine_def
  contractLinePrice_def insertLineAndRecompute_def insertLine_def recomputeInvoiceTotals_def effectiveRateForOrg_def
  resolveEffectiveTaxRate_def claimPeriod_def periodTaken_def advancePointer_def expireContract_def updateContracts_def
  emit_def duePeriod_def isExpired_def contractLinesOf_def contractOf_def lookup_defs statement_defs Let_def
  retainer_line_def foldE.simps computeLineTotal_def lineRow_def nextSort_def lineFits_def lineTotalsRow_def retainer_totals
  retainer_upd retainer_sel june_dates acme_sel js_simps

lemma june1_eq: "generateDueInvoice 50 noon june0 = Inr (Generated 100 False (contractActor (retainer Ct_active None 0)), june1)"
proof -
  have b: "billable 50 noon june0 (retainer Ct_active (Some ''2025-06-01'') 0) ''2025-06-01''"
    by (simp add: billable_def contractOf_def june0_sel statement_defs retainer_sel noon_day)
  show ?thesis unfolding generateDueInvoice_due[OF b]
    by (simp add: generate_defs june0_sel june1_def retainer_draft_def retainer_row_def retainer_claim_def)
qed

lemma june1_sel:
  "db_next june1 = 103" "db_invoices june1 = [retainer_draft 100 noon]" "db_invoiceLines june1 = [retainer_row 101 100]"
  "db_billingPeriods june1 = [retainer_claim 102 100 ''2025-06-01'' ''2025-07-01'']"
  "db_contracts june1 = [retainer Ct_active (Some ''2025-07-01'') noon]" "db_contractLines june1 = [retainer_line]"
  "db_organizations june1 = [acme]" "db_partners june1 = [msp_partner]"
  by (simp_all add: june1_def june0_sel)

lemma june2_eq: "\<exists>t. generateDueInvoice 50 july june1 = Inr (Generated 103 False (contractActor (retainer Ct_active None 0)), t)"
proof -
  have b: "billable 50 july june1 (retainer Ct_active (Some ''2025-07-01'') noon) ''2025-07-01''"
    by (simp add: billable_def contractOf_def june1_sel statement_defs retainer_sel june_dates)
  have d: "inv_id (retainer_draft 100 noon) = 100" "il_invoiceId (retainer_row 101 100) = 100"
      "bp_periodStart (retainer_claim 102 100 ''2025-06-01'' ''2025-07-01'') = ''2025-06-01''"
    by (simp_all add: retainer_draft_def writeTotals_def retainer_row_def retainer_claim_def)
  show ?thesis unfolding generateDueInvoice_due[OF b] by (simp add: generate_defs june1_sel d)
qed

definition june_paused :: db where
  "june_paused = june1 \<lparr> db_contracts := [retainer Ct_paused None noon] \<rparr>"

lemma june_ok: "contracts_ok june0" "contracts_ok june_paused" "billing_ok june0"
proof -
  show "contracts_ok june0" "contracts_ok june_paused"
    by (simp_all add: contracts_ok_def claims_def claimOf_def contractOf_def june0_sel june1_sel june_paused_def key_ok_def
        retainer_sel retainer_claim_def statement_defs)
  show "billing_ok june0"
    using day0_ok refines_billing_ok[OF refines_frame[of day0 june0]] by (simp add: june0_def same_tables_def)
qed

theorem generateDueInvoice_bills_witness:
  "\<exists>c nextAt. contractOf june0 50 = Some c \<and> c_status c = Ct_active \<and> c_nextBillingAt c = Some nextAt \<and> nextAt \<le> utcDay noon \<and>
    invOf june0 100 = None \<and>
    (\<exists>r. invOf june1 100 = Some r \<and> inv_status r = Inv_draft \<and> inv_orgId r = c_orgId c \<and> inv_partnerId r = c_partnerId c \<and> totalled june1 100 r) \<and>
    list_all2 (billedAs c june0) (contractLinesOf june0 50) (linesOf june1 100) \<and>
    (\<forall>j. j \<noteq> 100 \<longrightarrow> invOf june1 j = invOf june0 j \<and> linesOf june1 j = linesOf june0 j) \<and>
    \<not> periodTaken 50 (periodStart (duePeriod c nextAt)) june0 \<and>
    claims june1 = insert (50, periodStart (duePeriod c nextAt)) (claims june0) \<and>
    contractOf june1 = (contractOf june0)(50 \<mapsto> advanced c (dueIndex c nextAt) noon)"
  by (rule generateDueInvoice_bills[OF june1_eq june_ok(3)])

theorem period_billed_once_witness:
  "\<exists>t. generateDueInvoice 50 july june1 = Inr (Generated 103 False (contractActor (retainer Ct_active None 0)), t) \<and>
    (\<exists>p q. p \<noteq> q \<and> \<not> periodTaken 50 p june0 \<and> periodTaken 50 p june1 \<and> \<not> periodTaken 50 q june1 \<and> periodTaken 50 q t \<and>
      claims june1 = insert (50, p) (claims june0) \<and> claims t = insert (50, q) (claims june1))"
proof -
  obtain t where t: "generateDueInvoice 50 july june1 = Inr (Generated 103 False (contractActor (retainer Ct_active None 0)), t)"
    using june2_eq by blast
  show ?thesis using period_billed_once[OF june_ok(1) june1_eq rtranclp.rtrancl_refl t] t by blast
qed

theorem resume_stalls_billing_witness:
  "\<exists>c' t. resumeContract 50 msp ''2025-06-20'' noon june_paused = Inr (c', t) \<and>
    (\<forall>ts. claimsFor 50 (runJobs ts t) = claimsFor 50 june_paused \<and>
      (\<forall>asOf v b act u. generateDueInvoice 50 asOf (runJobs ts t) \<noteq> Inr (Generated v b act, u)))"
proof -
  have c: "contractOf june_paused 50 = Some (retainer Ct_paused None noon)"
    by (simp add: contractOf_def june_paused_def statement_defs retainer_sel)
  have d: "currentBillingDate (retainer Ct_paused None noon) ''2025-06-20'' = ''2025-06-01''"
    by (simp add: currentBillingDate_def retainer_sel) code_simp
  have p: "periodTaken 50 (periodStart (duePeriod (retainer Ct_paused None noon) (currentBillingDate (retainer Ct_paused None noon) ''2025-06-20''))) june_paused"
    by (simp add: d duePeriod_def june_dates retainer_sel periodTaken_def june_paused_def june1_sel retainer_claim_def)
  obtain c' t where r: "resumeContract 50 msp ''2025-06-20'' noon june_paused = Inr (c', t)"
    using c by (simp add: resumeContract_def getOwnedContractOr404_def contractOrgAccess_def orgAccessible_def msp_def
        retainer_sel setContract_def Let_def)
  then show ?thesis using resume_stalls_billing[OF june_ok(2) c p r] by blast
qed

theorem auto_renew_never_extends_witness:
  "\<forall>ts. \<exists>c'. contractOf (runJobs ts june0) 50 = Some c' \<and> c_endDate c' = Some ''2025-08-01'' \<and>
    (\<forall>p \<in> claimsFor 50 (runJobs ts june0) - claimsFor 50 june0. p < ''2025-08-01'')"
  by (rule auto_renew_never_extends[OF june_ok(1), where c = "retainer Ct_active (Some ''2025-06-01'') 0" and d = "''2025-06-01''"])
     (simp_all add: contractOf_def june0_sel statement_defs retainer_sel)

end
