(* ===== verification/QuoteService.thy ===== *)
theory QuoteService
  imports ContractService
begin

text \<open>
  Quotes: drafts, blocks and lines (\<open>quoteService.ts\<close>), sending, viewing and declining
  (\<open>quoteLifecycle.ts\<close>), the expiry sweep (\<open>jobs/quoteExpiryReaper.ts\<close>), the content hash
  (\<open>quoteContentHash.ts\<close>), the signature (\<open>acceptanceProvider.ts\<close>) and the acceptance that turns a
  quote into an invoice and contracts (\<open>quoteAcceptService.ts\<close>). Definitions only;
  \<open>QuoteProperties\<close> holds what they guarantee. The URL parser, the signer of accept tokens and the
  digest are parameters of the functions that use them.
\<close>

section \<open>Guards and lookups\<close>

definition quoteOf :: "db \<Rightarrow> uuid \<Rightarrow> quote option" where
  "quoteOf s i = selectOne (\<lambda>q. q_id q = i) (db_quotes s)"

definition quoteLinesOf :: "db \<Rightarrow> uuid \<Rightarrow> quote_line list" where
  "quoteLinesOf s i = orderByInt ql_sortOrder (selectWhere (\<lambda>l. ql_quoteId l = i) (db_quoteLines s))"

definition quoteBlocksOf :: "db \<Rightarrow> uuid \<Rightarrow> quote_block list" where
  "quoteBlocksOf s i = orderByInt qb_sortOrder (selectWhere (\<lambda>b. qb_quoteId b = i) (db_quoteBlocks s))"

definition updateQuotes :: "uuid \<Rightarrow> (quote \<Rightarrow> quote) \<Rightarrow> db \<Rightarrow> db" where
  "updateQuotes i f s = s \<lparr> db_quotes := updateWhere (\<lambda>q. q_id q = i) f (db_quotes s) \<rparr>"

definition resolvePartner :: "actor \<Rightarrow> svc_error + uuid" where
  "resolvePartner a = ofOption (QuoteErr 403 Q_PARTNER_UNRESOLVABLE) (a_partnerId a)"

definition assertOrg :: "actor \<Rightarrow> uuid \<Rightarrow> svc_error + unit" where
  "assertOrg a orgId = guardE (orgAccessible a orgId) (QuoteErr 403 Q_ORG_DENIED)"

definition loadDraft :: "uuid \<Rightarrow> actor \<Rightarrow> db \<Rightarrow> svc_error + quote" where
  "loadDraft i a s =
     bindE (ofOption (QuoteErr 404 QUOTE_NOT_FOUND) (quoteOf s i)) (\<lambda>q.
     bindE (assertOrg a (q_orgId q)) (\<lambda>_.
     bindE (guardE (q_status q = Quote_draft) (QuoteErr 409 Q_NOT_A_DRAFT)) (\<lambda>_. Inr q)))"

section \<open>Totals\<close>

definition mathLine :: "quote_line \<Rightarrow> quote_math_line" where
  "mathLine l = \<lparr> qm_quantity = ql_quantity l, qm_unitPrice = ql_unitPrice l, qm_taxable = ql_taxable l,
     qm_customerVisible = ql_customerVisible l, qm_recurrence = ql_recurrence l \<rparr>"

definition quoteTotalsOf :: "quote_line list \<Rightarrow> rat option \<Rightarrow> quote_totals" where
  "quoteTotalsOf ls taxRate = computeQuoteTotals (map mathLine ls) (map_option js_Number taxRate)"

definition writeQuoteTotals :: "quote_totals \<Rightarrow> instant \<Rightarrow> quote \<Rightarrow> quote" where
  "writeQuoteTotals t now q = q \<lparr> q_subtotal := qt_subtotal t, q_taxTotal := qt_taxTotal t, q_total := qt_total t,
     q_oneTimeTotal := qt_oneTimeTotal t, q_monthlyRecurringTotal := qt_monthlyRecurringTotal t,
     q_annualRecurringTotal := qt_annualRecurringTotal t, q_updatedAt := now \<rparr>"

definition recomputeAndPersist :: "uuid \<Rightarrow> instant \<Rightarrow> db \<Rightarrow> svc_error + db" where
  "recomputeAndPersist i now s =
     (let taxRate = (case quoteOf s i of None \<Rightarrow> None | Some q \<Rightarrow> q_taxRate q);
          t = quoteTotalsOf (selectWhere (\<lambda>l. ql_quoteId l = i) (db_quoteLines s)) taxRate
      in bindE (guardE (moneyFits (qt_subtotal t) \<and> moneyFits (qt_taxTotal t) \<and> moneyFits (qt_total t) \<and>
           moneyFits (qt_oneTimeTotal t) \<and> moneyFits (qt_monthlyRecurringTotal t) \<and> moneyFits (qt_annualRecurringTotal t))
           (JsError ''numeric field overflow'')) (\<lambda>_.
         Inr (updateQuotes i (writeQuoteTotals t now) s)))"

text \<open>\<open>COALESCE(MAX(sort_order), -1) + 1\<close>.\<close>

definition nextSortOrder :: "int list \<Rightarrow> int" where
  "nextSortOrder xs = (case xs of [] \<Rightarrow> - 1 | y # ys \<Rightarrow> fold max ys y) + 1"

section \<open>Create, read, edit\<close>

record create_quote_input =
  cq_orgId :: uuid
  cq_siteId :: "uuid option"
  cq_currencyCode :: string
  cq_expiryDate :: "iso_date option"
  cq_introNotes :: "string option"
  cq_terms :: "string option"
  cq_termsAndConditions :: "string option"

text \<open>The database rejects a quote whose organization is not one of its partner's (\<open>quotes_org_partner_fkey\<close>).\<close>

definition createQuote :: "create_quote_input \<Rightarrow> actor \<Rightarrow> instant \<Rightarrow> db \<Rightarrow> quote svc" where
  "createQuote input a now s =
     bindE (resolvePartner a) (\<lambda>partnerId.
     bindE (assertOrg a (cq_orgId input)) (\<lambda>_.
     bindE (guardE (orgOfPartner (cq_orgId input) partnerId s) (JsError ''foreign key violation'')) (\<lambda>_.
     let row = \<lparr> q_id = db_next s, q_partnerId = partnerId, q_orgId = cq_orgId input, q_siteId = cq_siteId input,
           q_quoteNumber = None, q_status = Quote_draft, q_currencyCode = cq_currencyCode input, q_issueDate = None,
           q_expiryDate = cq_expiryDate input, q_acceptedAt = None, q_declinedAt = None, q_convertedAt = None,
           q_subtotal = 0, q_taxRate = None, q_taxTotal = 0, q_total = 0, q_oneTimeTotal = 0,
           q_monthlyRecurringTotal = 0, q_annualRecurringTotal = 0, q_billToName = None, q_billToAddress = None,
           q_billToTaxId = None, q_introNotes = cq_introNotes input, q_terms = cq_terms input, q_sellerSnapshot = None,
           q_termsAndConditions = cq_termsAndConditions input, q_declineReason = None, q_convertedInvoiceId = None,
           q_sentAt = None, q_firstViewedAt = None, q_viewedAt = None, q_createdBy = a_userId a, q_createdAt = now,
           q_updatedAt = now \<rparr>
     in Inr (row, s \<lparr> db_next := Suc (db_next s), db_quotes := insertRow row (db_quotes s) \<rparr>))))"

text \<open>The quote with its derived amount due on acceptance, its blocks and its lines.\<close>

definition getQuote :: "uuid \<Rightarrow> actor \<Rightarrow> db \<Rightarrow> svc_error + (quote \<times> money \<times> quote_block list \<times> quote_line list)" where
  "getQuote i a s =
     bindE (ofOption (QuoteErr 404 QUOTE_NOT_FOUND) (quoteOf s i)) (\<lambda>q.
     bindE (assertOrg a (q_orgId q)) (\<lambda>_.
     Inr (q, qt_dueOnAcceptanceTotal (quoteTotalsOf (quoteLinesOf s i) (q_taxRate q)), quoteBlocksOf s i, quoteLinesOf s i)))"

definition afterQuoteCursor :: "uuid option \<Rightarrow> db \<Rightarrow> quote \<Rightarrow> bool" where
  "afterQuoteCursor cursor s q = (case cursor of None \<Rightarrow> True | Some k \<Rightarrow> (case quoteOf s k of None \<Rightarrow> True
     | Some c \<Rightarrow> q_createdAt q < q_createdAt c \<or> (q_createdAt q = q_createdAt c \<and> q_id q < k)))"

definition listQuotes :: "uuid option \<Rightarrow> quote_status option \<Rightarrow> nat \<Rightarrow> uuid option \<Rightarrow> actor \<Rightarrow> db \<Rightarrow> svc_error + quote list" where
  "listQuotes orgId status limit cursor a s =
     bindE (case orgId of None \<Rightarrow> Inr () | Some g \<Rightarrow> assertOrg a g) (\<lambda>_.
     Inr (take limit (rev (sort_key (\<lambda>q. (q_createdAt q, q_id q)) (selectWhere (\<lambda>q.
       (case orgId of None \<Rightarrow> True | Some g \<Rightarrow> q_orgId q = g) \<and>
       (case status of None \<Rightarrow> True | Some st \<Rightarrow> q_status q = st) \<and> afterQuoteCursor cursor s q) (db_quotes s))))))"

record quote_patch =
  qp_siteId :: "uuid option option"
  qp_expiryDate :: "iso_date option option"
  qp_introNotes :: "string option option"
  qp_terms :: "string option option"
  qp_termsAndConditions :: "string option option"
  qp_billToName :: "string option option"
  qp_taxRate :: "rat option option"

definition patchQuote :: "quote_patch \<Rightarrow> instant \<Rightarrow> quote \<Rightarrow> quote" where
  "patchQuote p now q = q \<lparr> q_updatedAt := now, q_siteId := nullish (qp_siteId p) (q_siteId q),
     q_expiryDate := nullish (qp_expiryDate p) (q_expiryDate q),
     q_introNotes := nullish (qp_introNotes p) (q_introNotes q), q_terms := nullish (qp_terms p) (q_terms q),
     q_termsAndConditions := nullish (qp_termsAndConditions p) (q_termsAndConditions q),
     q_billToName := nullish (qp_billToName p) (q_billToName q),
     q_taxRate := nullish (map_option (map_option (\<lambda>v. toFixed 3 (js_Number v))) (qp_taxRate p)) (q_taxRate q) \<rparr>"

definition updateQuote :: "uuid \<Rightarrow> quote_patch \<Rightarrow> actor \<Rightarrow> instant \<Rightarrow> db \<Rightarrow> quote svc" where
  "updateQuote i p a now s =
     bindE (loadDraft i a s) (\<lambda>_.
     bindE (recomputeAndPersist i now (updateQuotes i (patchQuote p now) s)) (\<lambda>s1.
     bindE (ofOption (QuoteErr 404 QUOTE_NOT_FOUND) (quoteOf s1 i)) (\<lambda>q. Inr (q, s1))))"

text \<open>Blocks, lines and acceptances cascade.\<close>

definition deleteDraftQuote :: "uuid \<Rightarrow> actor \<Rightarrow> db \<Rightarrow> unit svc" where
  "deleteDraftQuote i a s = bindE (loadDraft i a s) (\<lambda>_. Inr ((), s \<lparr>
     db_quotes := deleteWhere (\<lambda>q. q_id q = i) (db_quotes s),
     db_quoteBlocks := deleteWhere (\<lambda>b. qb_quoteId b = i) (db_quoteBlocks s),
     db_quoteLines := deleteWhere (\<lambda>l. ql_quoteId l = i) (db_quoteLines s),
     db_quoteAcceptances := deleteWhere (\<lambda>x. qa_quoteId x = i) (db_quoteAcceptances s) \<rparr>))"

definition addBlock :: "uuid \<Rightarrow> block_type \<Rightarrow> string \<Rightarrow> actor \<Rightarrow> db \<Rightarrow> quote_block svc" where
  "addBlock i blockType content a s =
     bindE (loadDraft i a s) (\<lambda>q.
     let row = \<lparr> qb_id = db_next s, qb_quoteId = i, qb_orgId = q_orgId q, qb_blockType = blockType, qb_content = content,
           qb_sortOrder = nextSortOrder (map qb_sortOrder (selectWhere (\<lambda>b. qb_quoteId b = i) (db_quoteBlocks s))) \<rparr>
     in Inr (row, s \<lparr> db_next := Suc (db_next s), db_quoteBlocks := insertRow row (db_quoteBlocks s) \<rparr>))"

text \<open>The lines of the block go first; the foreign key nulls any other reference to it.\<close>

definition deleteBlock :: "uuid \<Rightarrow> uuid \<Rightarrow> actor \<Rightarrow> instant \<Rightarrow> db \<Rightarrow> unit svc" where
  "deleteBlock i blockId a now s =
     bindE (loadDraft i a s) (\<lambda>_.
     let s1 = s \<lparr> db_quoteLines := deleteWhere (\<lambda>l. ql_quoteId l = i \<and> ql_blockId l = Some blockId) (db_quoteLines s) \<rparr>;
         gone = (\<exists>b \<in> set (db_quoteBlocks s1). qb_id b = blockId \<and> qb_quoteId b = i);
         s2 = s1 \<lparr> db_quoteBlocks := deleteWhere (\<lambda>b. qb_id b = blockId \<and> qb_quoteId b = i) (db_quoteBlocks s1),
           db_quoteLines := updateWhere (\<lambda>l. gone \<and> ql_blockId l = Some blockId) (\<lambda>l. l \<lparr> ql_blockId := None \<rparr>) (db_quoteLines s1) \<rparr>
     in bindE (recomputeAndPersist i now s2) (\<lambda>s3. Inr ((), s3)))"

subsection \<open>Lines\<close>

record quote_line_input =
  qli_sourceType :: quote_line_source
  qli_catalogItemId :: "uuid option"
  qli_blockId :: "uuid option"
  qli_description :: string
  qli_quantity :: rat
  qli_unitPrice :: rat
  qli_taxable :: bool
  qli_customerVisible :: bool
  qli_recurrence :: recurrence
  qli_termMonths :: "int option"
  qli_billingFrequency :: "billing_frequency option"

text \<open>The values of a line as they are inserted: \<open>quantity\<close> and \<open>unitPrice\<close> are the strings of the code.\<close>

definition quoteLineRow :: "uuid \<Rightarrow> uuid \<Rightarrow> uuid \<Rightarrow> int \<Rightarrow> quote_line_input \<Rightarrow> rat \<Rightarrow> money \<Rightarrow> quote_line" where
  "quoteLineRow lineId i orgId ord input quantity unitPrice = \<lparr> ql_id = lineId, ql_quoteId = i,
     ql_blockId = qli_blockId input, ql_orgId = orgId, ql_sourceType = qli_sourceType input,
     ql_catalogItemId = qli_catalogItemId input, ql_description = qli_description input,
     ql_quantity = numeric2 quantity, ql_unitPrice = numeric2 unitPrice, ql_taxable = qli_taxable input,
     ql_customerVisible = qli_customerVisible input, ql_lineTotal = numeric2 (computeLineTotal quantity unitPrice),
     ql_recurrence = qli_recurrence input, ql_termMonths = qli_termMonths input,
     ql_billingFrequency = qli_billingFrequency input, ql_sortOrder = ord \<rparr>"

definition quoteLineFits :: "quote_line \<Rightarrow> bool" where
  "quoteLineFits l \<longleftrightarrow> moneyFits (ql_quantity l) \<and> moneyFits (ql_unitPrice l) \<and> moneyFits (ql_lineTotal l)"

text \<open>The foreign keys of a line: its block and its catalog item exist.\<close>

definition quoteLineRefs :: "quote_line \<Rightarrow> db \<Rightarrow> bool" where
  "quoteLineRefs l s \<longleftrightarrow>
     (case ql_blockId l of None \<Rightarrow> True | Some b \<Rightarrow> b \<in> set (map qb_id (db_quoteBlocks s))) \<and>
     (case ql_catalogItemId l of None \<Rightarrow> True | Some c \<Rightarrow> c \<in> set (map ci_id (db_catalogItems s)))"

definition insertQuoteLine :: "quote_line \<Rightarrow> instant \<Rightarrow> db \<Rightarrow> quote_line svc" where
  "insertQuoteLine l now s =
     bindE (guardE (quoteLineFits l) (JsError ''numeric field overflow'')) (\<lambda>_.
     bindE (guardE (quoteLineRefs l s) (JsError ''foreign key violation'')) (\<lambda>_.
     bindE (recomputeAndPersist (ql_quoteId l) now
       (s \<lparr> db_next := Suc (db_next s), db_quoteLines := insertRow l (db_quoteLines s) \<rparr>)) (\<lambda>s1. Inr (l, s1))))"

definition nextLineSortOrder :: "uuid \<Rightarrow> db \<Rightarrow> int" where
  "nextLineSortOrder i s = nextSortOrder (map ql_sortOrder (selectWhere (\<lambda>l. ql_quoteId l = i) (db_quoteLines s)))"

definition addManualQuoteLine :: "uuid \<Rightarrow> quote_line_input \<Rightarrow> actor \<Rightarrow> instant \<Rightarrow> db \<Rightarrow> quote_line svc" where
  "addManualQuoteLine i input a now s =
     bindE (loadDraft i a s) (\<lambda>q.
     insertQuoteLine (quoteLineRow (db_next s) i (q_orgId q) (nextLineSortOrder i s) input (qli_quantity input)
       (toFixed 2 (js_Number (qli_unitPrice input)))) now s)"

definition itemRecurrence :: "catalog_item \<Rightarrow> recurrence" where
  "itemRecurrence item = (if ci_billingType item = Billing_recurring
     then (if ci_billingFrequency item = Some Freq_annual then Rec_annual else Rec_monthly) else Rec_one_time)"

definition addCatalogQuoteLine :: "uuid \<Rightarrow> uuid \<Rightarrow> rat \<Rightarrow> uuid option \<Rightarrow> actor \<Rightarrow> instant \<Rightarrow> db \<Rightarrow> quote_line svc" where
  "addCatalogQuoteLine i catalogItemId quantity blockId a now s =
     bindE (loadDraft i a s) (\<lambda>q.
     bindE (ofOption (QuoteErr 404 CATALOG_ITEM_NOT_FOUND)
       (selectOne (\<lambda>c. ci_id c = catalogItemId \<and> ci_partnerId c = q_partnerId q) (db_catalogItems s))) (\<lambda>item.
     insertQuoteLine (quoteLineRow (db_next s) i (q_orgId q) (nextLineSortOrder i s)
       \<lparr> qli_sourceType = QSrc_catalog, qli_catalogItemId = Some catalogItemId, qli_blockId = blockId,
         qli_description = ci_name item, qli_quantity = quantity, qli_unitPrice = ci_unitPrice item,
         qli_taxable = ci_taxable item, qli_customerVisible = True, qli_recurrence = itemRecurrence item,
         qli_termMonths = ci_commitmentTermMonths item, qli_billingFrequency = ci_billingFrequency item \<rparr>
       quantity (ci_unitPrice item)) now s))"

record quote_line_patch =
  qlp_description :: "string option"
  qlp_quantity :: "rat option"
  qlp_unitPrice :: "rat option"
  qlp_taxable :: "bool option"
  qlp_customerVisible :: "bool option"
  qlp_recurrence :: "recurrence option"
  qlp_termMonths :: "int option option"
  qlp_sortOrder :: "int option"

definition patchQuoteLine :: "quote_line_patch \<Rightarrow> quote_line \<Rightarrow> quote_line \<Rightarrow> quote_line" where
  "patchQuoteLine p existing l =
     (let quantity = nullish (qlp_quantity p) (ql_quantity existing);
          unitPrice = (case qlp_unitPrice p of Some v \<Rightarrow> toFixed 2 (js_Number v) | None \<Rightarrow> ql_unitPrice existing)
      in l \<lparr> ql_description := nullish (qlp_description p) (ql_description existing),
             ql_quantity := numeric2 quantity, ql_unitPrice := numeric2 unitPrice,
             ql_taxable := nullish (qlp_taxable p) (ql_taxable existing),
             ql_customerVisible := nullish (qlp_customerVisible p) (ql_customerVisible existing),
             ql_recurrence := nullish (qlp_recurrence p) (ql_recurrence existing),
             ql_lineTotal := numeric2 (computeLineTotal quantity unitPrice),
             ql_termMonths := nullish (qlp_termMonths p) (ql_termMonths l),
             ql_sortOrder := nullish (qlp_sortOrder p) (ql_sortOrder l) \<rparr>)"

definition updateQuoteLine :: "uuid \<Rightarrow> uuid \<Rightarrow> quote_line_patch \<Rightarrow> actor \<Rightarrow> instant \<Rightarrow> db \<Rightarrow> quote_line svc" where
  "updateQuoteLine i lineId p a now s =
     bindE (loadDraft i a s) (\<lambda>_.
     bindE (ofOption (QuoteErr 404 Q_LINE_NOT_FOUND)
       (selectOne (\<lambda>l. ql_id l = lineId \<and> ql_quoteId l = i) (db_quoteLines s))) (\<lambda>existing.
     bindE (guardE (quoteLineFits (patchQuoteLine p existing existing)) (JsError ''numeric field overflow'')) (\<lambda>_.
     bindE (recomputeAndPersist i now (s \<lparr> db_quoteLines :=
       updateWhere (\<lambda>l. ql_id l = lineId) (patchQuoteLine p existing) (db_quoteLines s) \<rparr>)) (\<lambda>s1.
     bindE (ofOption (QuoteErr 404 Q_LINE_NOT_FOUND) (selectOne (\<lambda>l. ql_id l = lineId) (db_quoteLines s1))) (\<lambda>l.
     Inr (l, s1))))))"

definition removeQuoteLine :: "uuid \<Rightarrow> uuid \<Rightarrow> actor \<Rightarrow> instant \<Rightarrow> db \<Rightarrow> unit svc" where
  "removeQuoteLine i lineId a now s =
     bindE (loadDraft i a s) (\<lambda>_.
     bindE (recomputeAndPersist i now (s \<lparr> db_quoteLines :=
       deleteWhere (\<lambda>l. ql_id l = lineId \<and> ql_quoteId l = i) (db_quoteLines s) \<rparr>)) (\<lambda>s1. Inr ((), s1)))"

end
