(* ===== verification/QuoteLifecycle.thy ===== *)
theory QuoteLifecycle
  imports QuoteService
begin

text \<open>
  The life of a quote after its draft: sending (\<open>quoteLifecycle.ts\<close>), viewing and declining, the
  expiry sweep (\<open>jobs/quoteExpiryReaper.ts\<close>), the content hash (\<open>quoteContentHash.ts\<close>), the typed
  signature (\<open>acceptanceProvider.ts\<close>) and the acceptance (\<open>quoteAcceptService.ts\<close>). The URL parser
  (\<open>hostname\<close>), the signer of accept tokens (\<open>sign\<close>) and the digest of the canonical content
  (\<open>digest\<close>: the JSON text and SHA-256) are parameters.
\<close>

section \<open>The public link\<close>

definition isLetter :: "char \<Rightarrow> bool" where
  "isLetter c \<longleftrightarrow> (CHR ''a'' \<le> c \<and> c \<le> CHR ''z'') \<or> (CHR ''A'' \<le> c \<and> c \<le> CHR ''Z'')"

definition isDigitChar :: "char \<Rightarrow> bool" where
  "isDigitChar c \<longleftrightarrow> CHR ''0'' \<le> c \<and> c \<le> CHR ''9''"

definition isSchemeChar :: "char \<Rightarrow> bool" where
  "isSchemeChar c \<longleftrightarrow> isLetter c \<or> isDigitChar c \<or> c \<in> set ''+.-''"

text \<open>The regular expression of \<open>portalBase\<close>: a scheme, then \<open>://\<close> with nothing before the next delimiter.\<close>

definition emptyAuthority :: "string \<Rightarrow> bool" where
  "emptyAuthority t = (case t of [] \<Rightarrow> False | c # cs \<Rightarrow>
     let rest = dropWhile isSchemeChar cs
     in isLetter c \<and> take 3 rest = ''://'' \<and> (drop 3 rest = [] \<or> hd (drop 3 rest) \<in> set ''/?#''))"

definition dropTrailingSlashes :: "string \<Rightarrow> string" where
  "dropTrailingSlashes t = rev (dropWhile (\<lambda>c. c = CHR ''/'') (rev t))"

fun portalLoop :: "(string \<Rightarrow> string option) \<Rightarrow> string option list \<Rightarrow> svc_error + string" where
  "portalLoop hostname [] = Inl (JsError ''Cannot build a public quote URL'')"
| "portalLoop hostname (candidate # cs) =
     (let trimmed = (case candidate of None \<Rightarrow> [] | Some c \<Rightarrow> js_trim c)
      in if trimmed = [] then portalLoop hostname cs
         else if emptyAuthority trimmed then portalLoop hostname cs
         else (case hostname trimmed of
                 None \<Rightarrow> portalLoop hostname cs
               | Some h \<Rightarrow> if h = [] then portalLoop hostname cs else Inr (dropTrailingSlashes trimmed)))"

text \<open>\<open>env\<close>: the values of \<open>PUBLIC_PORTAL_URL\<close>, \<open>PUBLIC_APP_URL\<close>, \<open>DASHBOARD_URL\<close>.\<close>

definition portalBase :: "(string \<Rightarrow> string option) \<Rightarrow> string option list \<Rightarrow> svc_error + string" where
  "portalBase hostname env = portalLoop hostname (env @ [Some ''http://localhost:4321/portal''])"

definition hexDigit :: "nat \<Rightarrow> char" where
  "hexDigit n = ''0123456789ABCDEF'' ! n"

definition encodeURIComponent :: "string \<Rightarrow> string" where
  "encodeURIComponent t = concat (map (\<lambda>c. if isLetter c \<or> isDigitChar c \<or> c \<in> set ''-_.!~*'' \<or> c = CHR 0x27 \<or> c \<in> set ''()''
     then [c] else [CHR ''%'', hexDigit (of_char c div 16), hexDigit (of_char c mod 16)]) t)"

definition buildPublicQuoteAcceptUrl :: "(string \<Rightarrow> string option) \<Rightarrow> string option list \<Rightarrow> string \<Rightarrow> svc_error + string" where
  "buildPublicQuoteAcceptUrl hostname env token =
     bindE (portalBase hostname env) (\<lambda>base. Inr (base @ ''/quote/'' @ encodeURIComponent token))"

text \<open>The expiry of an accept token in seconds: the quote's if it is still ahead, else thirty days from now.\<close>

definition acceptTokenExpiry :: "instant option \<Rightarrow> instant \<Rightarrow> int" where
  "acceptTokenExpiry expiresAt now = (case expiresAt of
     Some e \<Rightarrow> if now < e then e div 1000 else now div 1000 + 30 * 24 * 60 * 60
   | None \<Rightarrow> now div 1000 + 30 * 24 * 60 * 60)"

section \<open>Send, view, decline, expire\<close>

definition sentFields :: "quote \<Rightarrow> string \<Rightarrow> partner option \<Rightarrow> instant \<Rightarrow> quote \<Rightarrow> quote" where
  "sentFields q number partner now r = r \<lparr> q_status := Quote_sent, q_quoteNumber := Some number,
     q_issueDate := Some (nullish (q_issueDate q) (utcDay now)), q_sentAt := Some now, q_updatedAt := now,
     q_sellerSnapshot := Some (buildSellerSnapshot partner),
     q_termsAndConditions := orElse (q_termsAndConditions q) (case partner of None \<Rightarrow> None | Some p \<Rightarrow> pr_billingTermsAndConditions p),
     q_terms := orElse (q_terms q) (case partner of None \<Rightarrow> None | Some p \<Rightarrow> pr_invoiceFooter p) \<rparr>"

text \<open>The conditional update: only a row that is still a draft is claimed.\<close>

definition sendClaim :: "quote \<Rightarrow> string \<Rightarrow> instant \<Rightarrow> db \<Rightarrow> svc_error + db" where
  "sendClaim q number now s =
     (let claim = (\<lambda>r. q_id r = q_id q \<and> q_status r = Quote_draft)
      in bindE (guardE (\<exists>r \<in> set (db_quotes s). claim r) (QuoteErr 409 Q_INVALID_STATE)) (\<lambda>_.
         Inr (s \<lparr> db_quotes := updateWhere claim (sentFields q number (partnerOf s (q_partnerId q)) now) (db_quotes s) \<rparr>)))"

definition quoteYear :: "quote \<Rightarrow> instant \<Rightarrow> int" where
  "quoteYear q now = getUTCFullYear (case q_issueDate q of None \<Rightarrow> now | Some d \<Rightarrow> startOfDay d)"

text \<open>
  The counter is allocated in a transaction of its own, so it stays allocated when a later step
  throws; everything else rolls back. The email is best effort and outside the model.
\<close>

definition sendQuote ::
    "(uuid \<Rightarrow> uuid \<Rightarrow> uuid \<Rightarrow> int \<Rightarrow> svc_error + string) \<Rightarrow> (string \<Rightarrow> string option) \<Rightarrow> string option list \<Rightarrow>
     uuid \<Rightarrow> actor \<Rightarrow> instant \<Rightarrow> db \<Rightarrow> (svc_error + quote \<times> string) \<times> db" where
  "sendQuote sign hostname env i a now s = (case getQuote i a s of
     Inl e \<Rightarrow> (Inl e, s)
   | Inr (q, _) \<Rightarrow>
       if q_status q \<noteq> Quote_draft then (Inl (QuoteErr 409 Q_INVALID_STATE), s)
       else (case allocateQuoteCounter (q_partnerId q) (quoteYear q now) s of
         (Inl e, s1) \<Rightarrow> (Inl e, s1)
       | (Inr counter, s1) \<Rightarrow>
           (case bindE (sendClaim q (formatQuoteNumber ''Q'' (quoteYear q now) counter) now s1) (\<lambda>s2.
              bindE (sign i (q_orgId q) (q_partnerId q) (acceptTokenExpiry (map_option endOfDay (q_expiryDate q)) now)) (\<lambda>token.
              bindE (buildPublicQuoteAcceptUrl hostname env token) (\<lambda>url.
              bindE (ofOption (QuoteErr 404 QUOTE_NOT_FOUND) (quoteOf s2 i)) (\<lambda>updated. Inr ((updated, url), s2))))) of
              Inl e \<Rightarrow> (Inl e, s1)
            | Inr (r, s2) \<Rightarrow> (Inr r, s2))))"

text \<open>
  A view is a read followed by an update that names only the id: \<open>q\<close> is the row as read, \<open>r\<close> the
  row as it is when the update runs.
\<close>

definition viewFields :: "quote \<Rightarrow> instant \<Rightarrow> quote \<Rightarrow> quote" where
  "viewFields q now r = r \<lparr> q_viewedAt := Some now, q_updatedAt := now,
     q_firstViewedAt := (if q_firstViewedAt q = None then Some now else q_firstViewedAt r),
     q_status := (if q_status q = Quote_sent then Quote_viewed else q_status r) \<rparr>"

definition viewRead :: "uuid \<Rightarrow> uuid \<Rightarrow> db \<Rightarrow> quote option" where
  "viewRead i orgId s = (case quoteOf s i of None \<Rightarrow> None | Some q \<Rightarrow> if q_orgId q \<noteq> orgId then None else Some q)"

definition viewWrite :: "quote \<Rightarrow> instant \<Rightarrow> db \<Rightarrow> db" where
  "viewWrite q now s = updateQuotes (q_id q) (viewFields q now) s"

definition markQuoteViewed :: "uuid \<Rightarrow> uuid \<Rightarrow> instant \<Rightarrow> db \<Rightarrow> db" where
  "markQuoteViewed i orgId now s = (case viewRead i orgId s of None \<Rightarrow> s | Some q \<Rightarrow> viewWrite q now s)"

definition openForAnswer :: "quote \<Rightarrow> bool" where
  "openForAnswer q \<longleftrightarrow> q_status q = Quote_sent \<or> q_status q = Quote_viewed"

definition declineFields :: "string option \<Rightarrow> instant \<Rightarrow> quote \<Rightarrow> quote" where
  "declineFields reason now r = r \<lparr> q_status := Quote_declined, q_declineReason := reason, q_declinedAt := Some now,
     q_updatedAt := now \<rparr>"

definition declineRead :: "uuid \<Rightarrow> actor \<Rightarrow> instant \<Rightarrow> db \<Rightarrow> svc_error + quote" where
  "declineRead i a now s =
     bindE (getQuote i a s) (\<lambda>(q, _).
     bindE (guardE (openForAnswer q) (QuoteErr 409 Q_INVALID_STATE)) (\<lambda>_.
     bindE (guardE (\<not> isQuoteExpired (q_expiryDate q) now) (QuoteErr 410 QUOTE_EXPIRED)) (\<lambda>_. Inr q)))"

definition declineQuoteByActor :: "uuid \<Rightarrow> string option \<Rightarrow> actor \<Rightarrow> instant \<Rightarrow> db \<Rightarrow> quote svc" where
  "declineQuoteByActor i reason a now s =
     bindE (declineRead i a now s) (\<lambda>q.
     let s1 = updateQuotes i (declineFields reason now) s
     in bindE (ofOption (QuoteErr 404 QUOTE_NOT_FOUND) (quoteOf s1 i)) (\<lambda>q'. Inr (q', s1)))"

text \<open>The sweep: at most 500 quotes a run, the longest expired first.\<close>

definition pastExpiry :: "iso_date \<Rightarrow> quote \<Rightarrow> bool" where
  "pastExpiry today q \<longleftrightarrow> openForAnswer q \<and> (case q_expiryDate q of None \<Rightarrow> False | Some d \<Rightarrow> d < today)"

definition expireQuotes :: "instant \<Rightarrow> db \<Rightarrow> nat \<times> db" where
  "expireQuotes now s =
     (let due = map q_id (take 500 (sort_key (\<lambda>q. nullish (q_expiryDate q) []) (selectWhere (pastExpiry (utcDay now)) (db_quotes s))));
          hit = (\<lambda>q. q_id q \<in> set due \<and> openForAnswer q)
      in (length (filter hit (db_quotes s)),
          s \<lparr> db_quotes := updateWhere hit (\<lambda>q. q \<lparr> q_status := Quote_expired, q_updatedAt := now \<rparr>) (db_quotes s) \<rparr>))"

section \<open>The signature\<close>

record canonical_line =
  cal_id :: uuid
  cal_description :: string
  cal_quantity :: rat
  cal_unitPrice :: money
  cal_lineTotal :: money
  cal_recurrence :: recurrence
  cal_taxable :: bool
  cal_customerVisible :: bool
  cal_sortOrder :: int

record canonical_quote =
  caq_id :: uuid
  caq_currency :: string
  caq_subtotal :: money
  caq_taxTotal :: money
  caq_total :: money
  caq_oneTime :: money
  caq_monthly :: money
  caq_annual :: money
  caq_blocks :: "(uuid \<times> block_type \<times> int \<times> string) list"
  caq_lines :: "canonical_line list"

definition canonicalLine :: "quote_line \<Rightarrow> canonical_line" where
  "canonicalLine l = \<lparr> cal_id = ql_id l, cal_description = ql_description l, cal_quantity = ql_quantity l,
     cal_unitPrice = ql_unitPrice l, cal_lineTotal = ql_lineTotal l, cal_recurrence = ql_recurrence l,
     cal_taxable = ql_taxable l, cal_customerVisible = ql_customerVisible l, cal_sortOrder = ql_sortOrder l \<rparr>"

definition canonicalQuote :: "quote \<Rightarrow> quote_block list \<Rightarrow> quote_line list \<Rightarrow> canonical_quote" where
  "canonicalQuote q blocks ls = \<lparr> caq_id = q_id q, caq_currency = q_currencyCode q, caq_subtotal = q_subtotal q,
     caq_taxTotal = q_taxTotal q, caq_total = q_total q, caq_oneTime = q_oneTimeTotal q,
     caq_monthly = q_monthlyRecurringTotal q, caq_annual = q_annualRecurringTotal q,
     caq_blocks = map (\<lambda>b. (qb_id b, qb_blockType b, qb_sortOrder b, qb_content b))
       (sort_key (\<lambda>b. (qb_sortOrder b, qb_id b)) blocks),
     caq_lines = map canonicalLine (sort_key (\<lambda>l. (ql_sortOrder l, ql_id l)) ls) \<rparr>"

definition computeQuoteSha256 :: "(canonical_quote \<Rightarrow> string) \<Rightarrow> quote \<Rightarrow> quote_block list \<Rightarrow> quote_line list \<Rightarrow> string" where
  "computeQuoteSha256 digest q blocks ls = digest (canonicalQuote q blocks ls)"

record accept_params =
  ap_quoteId :: uuid
  ap_signerName :: string
  ap_signerEmail :: "string option"
  ap_ipAddress :: "string option"
  ap_userAgent :: "string option"
  ap_acceptanceTokenJti :: "string option"
  ap_actorUserId :: "uuid option"

definition capture :: "string \<Rightarrow> string option \<Rightarrow> svc_error + (string \<times> string option)" where
  "capture signerName signerEmail =
     (let name = js_trim signerName; email = map_option js_trim signerEmail
      in bindE (guardE (name \<noteq> []) (JsError ''signerName is required for a typed signature'')) (\<lambda>_.
         Inr (name, if email = Some [] then None else email)))"

section \<open>Acceptance\<close>

definition acceptGuard :: "uuid \<Rightarrow> instant \<Rightarrow> db \<Rightarrow> svc_error + quote" where
  "acceptGuard i now s =
     bindE (ofOption (QuoteErr 404 QUOTE_NOT_FOUND) (quoteOf s i)) (\<lambda>q.
     bindE (guardE (openForAnswer q) (QuoteErr 409 Q_INVALID_STATE)) (\<lambda>_.
     bindE (guardE (\<not> isQuoteExpired (q_expiryDate q) now) (QuoteErr 410 QUOTE_EXPIRED)) (\<lambda>_. Inr q)))"

definition acceptanceRow :: "uuid \<Rightarrow> quote \<Rightarrow> accept_params \<Rightarrow> string \<times> string option \<Rightarrow> string \<Rightarrow> quote_acceptance" where
  "acceptanceRow i q p captured sha = \<lparr> qa_id = i, qa_quoteId = q_id q, qa_orgId = q_orgId q,
     qa_signerName = fst captured, qa_signerEmail = snd captured,
     qa_ipAddress = (case ap_ipAddress p of None \<Rightarrow> None | Some t \<Rightarrow> if t = [] then None else Some (take 64 t)),
     qa_userAgent = ap_userAgent p, qa_quoteSha256 = sha, qa_acceptanceTokenJti = ap_acceptanceTokenJti p \<rparr>"

definition oneTimeLines :: "quote_line list \<Rightarrow> quote_line list" where
  "oneTimeLines ls = filter (\<lambda>l. ql_recurrence l = Rec_one_time \<and> ql_customerVisible l) ls"

definition convertedDraft :: "uuid \<Rightarrow> quote \<Rightarrow> accept_params \<Rightarrow> instant \<Rightarrow> invoice" where
  "convertedDraft i q p now = (blankInvoice i (q_partnerId q) (q_orgId q) now) \<lparr> inv_siteId := q_siteId q,
     inv_currencyCode := q_currencyCode q, inv_taxRate := q_taxRate q, inv_createdBy := ap_actorUserId p,
     inv_notes := Some (case q_quoteNumber q of None \<Rightarrow> ''Converted from quote''
       | Some n \<Rightarrow> if n = [] then ''Converted from quote'' else ''Converted from quote '' @ n) \<rparr>"

definition convertedLine :: "quote_line \<Rightarrow> line_spec" where
  "convertedLine l = \<lparr> ls_sourceType = Src_manual, ls_sourceId = None, ls_catalogItemId = ql_catalogItemId l,
     ls_parentLineId = None, ls_ticketId = None, ls_description = ql_description l, ls_quantity = ql_quantity l,
     ls_unitPrice = ql_unitPrice l, ls_costBasis = None, ls_revenueAllocation = None, ls_taxable = ql_taxable l,
     ls_customerVisible = True, ls_lineTotal = computeLineTotal (ql_quantity l) (ql_unitPrice l),
     ls_isUnapprovedTime = False \<rparr>"

definition convertedTotals :: "quote_line list \<Rightarrow> rat option \<Rightarrow> totals" where
  "convertedTotals ls taxRate = computeInvoiceTotals (map (\<lambda>l. \<lparr> lineTotal = computeLineTotal (ql_quantity l) (ql_unitPrice l),
     taxable = ql_taxable l, customerVisible = True \<rparr>) ls) taxRate"

text \<open>The columns written to the converted invoice: the totals, and the issue fields when there is something to collect.\<close>

definition convertedFields :: "totals \<Rightarrow> instant \<Rightarrow> invoice \<Rightarrow> invoice" where
  "convertedFields t now r = r \<lparr> inv_subtotal := subtotal t, inv_taxTotal := taxTotal t, inv_total := total t,
     inv_balance := total t, inv_updatedAt := now \<rparr>"

definition convertedIssue :: "quote \<Rightarrow> partner option \<Rightarrow> string \<Rightarrow> instant \<Rightarrow> invoice \<Rightarrow> invoice" where
  "convertedIssue q partner number now r = r \<lparr> inv_status := Inv_sent, inv_invoiceNumber := Some number,
     inv_issueDate := Some (utcDay now),
     inv_dueDate := Some (utcDay (now + (case partner of None \<Rightarrow> 30 | Some p \<Rightarrow> pr_invoiceTermsDays p) * 86400000)),
     inv_billToName := q_billToName q, inv_billToAddress := q_billToAddress q, inv_billToTaxId := q_billToTaxId q,
     inv_sellerSnapshot := q_sellerSnapshot q, inv_termsAndConditions := q_termsAndConditions q, inv_terms := q_terms q \<rparr>"

definition settleConverted :: "quote \<Rightarrow> uuid \<Rightarrow> quote_line list \<Rightarrow> instant \<Rightarrow> db \<Rightarrow> svc_error + db" where
  "settleConverted q invoiceId payable now s =
     (let t = convertedTotals payable (q_taxRate q)
      in bindE (guardE (moneyFits (subtotal t) \<and> moneyFits (taxTotal t) \<and> moneyFits (total t)) (JsError ''numeric field overflow'')) (\<lambda>_.
         if payable = [] then Inr (updateInvoices invoiceId (convertedFields t now) s)
         else let partner = partnerOf s (q_partnerId q); year = getUTCFullYear now;
                  (counter, sequences) = nextCounter (q_partnerId q) year (db_invoiceSequences s)
              in bindE (guardE (1 \<le> counter) (QuoteErr 500 Q_INVALID_STATE)) (\<lambda>_.
                 Inr (updateInvoices invoiceId (\<lambda>r. convertedIssue q partner
                   (formatInvoiceNumber (case partner of None \<Rightarrow> ''INV'' | Some p \<Rightarrow> pr_invoiceNumberPrefix p) year counter) now
                   (convertedFields t now r)) (s \<lparr> db_invoiceSequences := sequences \<rparr>)))))"

definition convertedQuote :: "uuid \<Rightarrow> instant \<Rightarrow> quote \<Rightarrow> quote" where
  "convertedQuote invoiceId now q = q \<lparr> q_status := Quote_converted, q_acceptedAt := Some now, q_convertedAt := Some now,
     q_convertedInvoiceId := Some invoiceId, q_updatedAt := now \<rparr>"

definition quoteForContract :: "quote \<Rightarrow> quote_for_contract" where
  "quoteForContract q = \<lparr> qfc_orgId = q_orgId q, qfc_partnerId = q_partnerId q,
     qfc_quoteNumber = nullish (q_quoteNumber q) (js_String (int (q_id q))), qfc_currencyCode = q_currencyCode q,
     qfc_terms = q_terms q \<rparr>"

definition lineForContract :: "quote_line \<Rightarrow> quote_line_for_contract" where
  "lineForContract l = \<lparr> qlc_recurrence = ql_recurrence l, qlc_customerVisible = ql_customerVisible l,
     qlc_description = ql_description l, qlc_unitPrice = ql_unitPrice l, qlc_quantity = ql_quantity l,
     qlc_taxable = ql_taxable l, qlc_catalogItemId = ql_catalogItemId l, qlc_termMonths = ql_termMonths l \<rparr>"

fun createContracts :: "new_contract_spec list \<Rightarrow> instant \<Rightarrow> db \<Rightarrow> (uuid list) svc" where
  "createContracts [] now s = Inr ([], s)"
| "createContracts (spec # specs) now s =
     bindE (createContractWithLines spec now s) (\<lambda>(c, s1).
     bindE (createContracts specs now s1) (\<lambda>(ids, s2). Inr (c_id c # ids, s2)))"

record accept_result =
  ar_quote :: quote
  ar_acceptanceId :: uuid
  ar_invoiceId :: uuid
  ar_invoiceIssued :: bool
  ar_contractIds :: "uuid list"

definition acceptQuote :: "(canonical_quote \<Rightarrow> string) \<Rightarrow> accept_params \<Rightarrow> instant \<Rightarrow> db \<Rightarrow> accept_result svc" where
  "acceptQuote digest p now s =
     bindE (acceptGuard (ap_quoteId p) now s) (\<lambda>q.
     let blocks = quoteBlocksOf s (q_id q); ls = quoteLinesOf s (q_id q); payable = oneTimeLines ls
     in bindE (capture (ap_signerName p) (ap_signerEmail p)) (\<lambda>captured.
     let acceptanceId = db_next s;
         s1 = s \<lparr> db_next := Suc (db_next s), db_quoteAcceptances :=
           insertRow (acceptanceRow acceptanceId q p captured (computeQuoteSha256 digest q blocks ls)) (db_quoteAcceptances s) \<rparr>;
         invc = convertedDraft (db_next s1) q p now
     in bindE (insertInvoice invc s1) (\<lambda>s2.
        bindE (materializeLines (inv_id invc) (q_orgId q) (map convertedLine payable) 0 s2) (\<lambda>s3.
        bindE (settleConverted q (inv_id invc) payable now s3) (\<lambda>s4.
        bindE (buildContractSpecsFromQuote (quoteForContract q) (map lineForContract ls) (utcDay now) (ap_actorUserId p)) (\<lambda>specs.
        bindE (createContracts specs now (updateQuotes (q_id q) (convertedQuote (inv_id invc) now) s4)) (\<lambda>(contractIds, s5).
        bindE (ofOption (QuoteErr 404 QUOTE_NOT_FOUND) (quoteOf s5 (q_id q))) (\<lambda>updated.
        Inr (\<lparr> ar_quote = updated, ar_acceptanceId = acceptanceId, ar_invoiceId = inv_id invc,
          ar_invoiceIssued = (payable \<noteq> []), ar_contractIds = contractIds \<rparr>, s5)))))))))"

definition emitAcceptInvoiceIssued :: "accept_result \<Rightarrow> db \<Rightarrow> db" where
  "emitAcceptInvoiceIssued res s =
     (if \<not> ar_invoiceIssued res then s
      else emit (PdfRender (ar_invoiceId res)) (emit (InvoiceEvent Ev_invoice_issued (ar_invoiceId res)
        (q_orgId (ar_quote res)) (q_partnerId (ar_quote res)) None) s))"

end
