(* ===== verification/QuoteProperties.thy ===== *)
theory QuoteProperties
  imports ContractProperties QuoteLifecycle
begin

text \<open>
  What the quote services guarantee: an accepted quote becomes an invoice for exactly its visible one-time
  lines, at the amount that was advertised, and contracts for its visible recurring lines; a quote is
  answered once when calls do not overlap; the expiry sweep and the acceptance agree. One theorem shows how
  a view that overlaps an acceptance lets the quote be accepted again, another where the end date of a
  contract differs from its documentation.
\<close>

section \<open>The parts of an acceptance\<close>

lemma acceptGuard_eq [guard_simps]:
  "acceptGuard i now s = Inr q \<longleftrightarrow> quoteOf s i = Some q \<and> openForAnswer q \<and> \<not> isQuoteExpired (q_expiryDate q) now"
  by (auto simp: acceptGuard_def guard_simps)

lemma acceptQuote_cases:
  assumes "acceptQuote digest p now s = Inr (r, t)"
  obtains q captured s1 s2 s3 s4 specs ids where
    "quoteOf s (ap_quoteId p) = Some q" "openForAnswer q" "\<not> isQuoteExpired (q_expiryDate q) now"
    "s1 = s \<lparr> db_next := Suc (db_next s), db_quoteAcceptances := insertRow (acceptanceRow (db_next s) q p captured
       (computeQuoteSha256 digest q (quoteBlocksOf s (q_id q)) (quoteLinesOf s (q_id q)))) (db_quoteAcceptances s) \<rparr>"
    "insertInvoice (convertedDraft (db_next s1) q p now) s1 = Inr s2"
    "materializeLines (db_next s1) (q_orgId q) (map convertedLine (oneTimeLines (quoteLinesOf s (q_id q)))) 0 s2 = Inr s3"
    "settleConverted q (db_next s1) (oneTimeLines (quoteLinesOf s (q_id q))) now s3 = Inr s4"
    "buildContractSpecsFromQuote (quoteForContract q) (map lineForContract (quoteLinesOf s (q_id q))) (utcDay now) (ap_actorUserId p) = Inr specs"
    "createContracts specs now (updateQuotes (q_id q) (convertedQuote (db_next s1) now) s4) = Inr (ids, t)"
    "quoteOf t (q_id q) = Some (ar_quote r)" "ar_invoiceId r = db_next s1" "ar_contractIds r = ids"
    "ar_invoiceIssued r = (oneTimeLines (quoteLinesOf s (q_id q)) \<noteq> [])"
proof -
  have id: "inv_id (convertedDraft i q p now) = i" for i q by (simp add: convertedDraft_def)
  from assms obtain q captured where q: "acceptGuard (ap_quoteId p) now s = Inr q"
    and rest: "(let blocks = quoteBlocksOf s (q_id q); ls = quoteLinesOf s (q_id q); payable = oneTimeLines ls;
         acceptanceId = db_next s;
         s1 = s \<lparr> db_next := Suc (db_next s), db_quoteAcceptances :=
           insertRow (acceptanceRow acceptanceId q p captured (computeQuoteSha256 digest q blocks ls)) (db_quoteAcceptances s) \<rparr>;
         invc = convertedDraft (db_next s1) q p now
     in bindE (insertInvoice invc s1) (\<lambda>s2.
        bindE (materializeLines (inv_id invc) (q_orgId q) (map convertedLine payable) 0 s2) (\<lambda>s3.
        bindE (settleConverted q (inv_id invc) payable now s3) (\<lambda>s4.
        bindE (buildContractSpecsFromQuote (quoteForContract q) (map lineForContract ls) (utcDay now) (ap_actorUserId p)) (\<lambda>specs.
        bindE (createContracts specs now (updateQuotes (q_id q) (convertedQuote (inv_id invc) now) s4)) (\<lambda>(contractIds, s5).
        bindE (ofOption (QuoteErr 404 QUOTE_NOT_FOUND) (quoteOf s5 (q_id q))) (\<lambda>updated.
        Inr (\<lparr> ar_quote = updated, ar_acceptanceId = acceptanceId, ar_invoiceId = inv_id invc,
          ar_invoiceIssued = (payable \<noteq> []), ar_contractIds = contractIds \<rparr>, s5))))))) = Inr (r, t))"
    unfolding acceptQuote_def Let_def bindE_eq_Inr by blast
  let ?s1 = "s \<lparr> db_next := Suc (db_next s), db_quoteAcceptances := insertRow (acceptanceRow (db_next s) q p captured
       (computeQuoteSha256 digest q (quoteBlocksOf s (q_id q)) (quoteLinesOf s (q_id q)))) (db_quoteAcceptances s) \<rparr>"
  from rest obtain s2 s3 s4 specs y where
    parts: "insertInvoice (convertedDraft (db_next ?s1) q p now) ?s1 = Inr s2"
    "materializeLines (db_next ?s1) (q_orgId q) (map convertedLine (oneTimeLines (quoteLinesOf s (q_id q)))) 0 s2 = Inr s3"
    "settleConverted q (db_next ?s1) (oneTimeLines (quoteLinesOf s (q_id q))) now s3 = Inr s4"
    "buildContractSpecsFromQuote (quoteForContract q) (map lineForContract (quoteLinesOf s (q_id q))) (utcDay now) (ap_actorUserId p) = Inr specs"
    "createContracts specs now (updateQuotes (q_id q) (convertedQuote (db_next ?s1) now) s4) = Inr y"
    and fin: "bindE (ofOption (QuoteErr 404 QUOTE_NOT_FOUND) (quoteOf (snd y) (q_id q))) (\<lambda>updated.
        Inr (\<lparr> ar_quote = updated, ar_acceptanceId = db_next s, ar_invoiceId = db_next ?s1,
          ar_invoiceIssued = (oneTimeLines (quoteLinesOf s (q_id q)) \<noteq> []), ar_contractIds = fst y \<rparr>, snd y)) = Inr (r, t)"
    unfolding Let_def id by (elim bindE_InrE) (simp only: case_prod_beta that)
  have t: "quoteOf t (q_id q) = Some (ar_quote r)" "ar_invoiceId r = db_next ?s1" "ar_contractIds r = fst y"
    "ar_invoiceIssued r = (oneTimeLines (quoteLinesOf s (q_id q)) \<noteq> [])" "t = snd y"
    using fin by (auto simp: guard_simps)
  have y: "createContracts specs now (updateQuotes (q_id q) (convertedQuote (db_next ?s1) now) s4) = Inr (fst y, t)"
    using parts(5) t(5) by simp
  have g: "quoteOf s (ap_quoteId p) = Some q" "openForAnswer q" "\<not> isQuoteExpired (q_expiryDate q) now"
    using q by (simp_all add: acceptGuard_eq)
  show thesis by (rule that[OF g refl parts(1-4) y t(1-4)])
qed

subsection \<open>The invoice\<close>

lemma totalsLoop_visible: "totalsLoop (filter customerVisible xs) acc = totalsLoop xs acc"
  by (induction xs arbitrary: acc) auto

lemma converted_due:
  "total (convertedTotals (oneTimeLines ls) r) = qt_dueOnAcceptanceTotal (quoteTotalsOf ls r)"
proof -
  have "map (\<lambda>l. \<lparr> lineTotal = computeLineTotal (ql_quantity l) (ql_unitPrice l), taxable = ql_taxable l, customerVisible = True \<rparr>)
      (oneTimeLines ls) = filter customerVisible (map quoteLineTotals (filter oneTime (map mathLine ls)))"
    by (induction ls) (simp_all add: oneTimeLines_def mathLine_def quoteLineTotals_def)
  then show ?thesis
    using quoteSums_oneTime[of "map mathLine ls" "\<lparr> qs_oneTime = 0, qs_monthly = 0, qs_annual = 0, qs_taxableBasis = 0,
        qs_oneTimeTaxableBasis = 0 \<rparr>"]
    by (cases r) (simp_all add: convertedTotals_def quoteTotalsOf_def computeQuoteTotals_def computeInvoiceTotals_def
        totalsLoop_visible quoteSums_def Let_def roundHalfUp_def)
qed

lemma materializeLines_effect:
  assumes "materializeLines i g ps n s = Inr t"
  shows "\<exists>xs. linesOf t i = linesOf s i @ xs \<and> list_all2 (\<lambda>p x. \<exists>k m. x = lineRow k i g m p) ps xs"
    "\<forall>j. j \<noteq> i \<longrightarrow> linesOf t j = linesOf s j" "db_invoices t = db_invoices s" "db_invoiceSequences t = db_invoiceSequences s"
    "db_organizations t = db_organizations s"
  using assms
proof (atomize (full), induction ps arbitrary: n s)
  case (Cons p ps)
  let ?l = "lineRow (db_next s) i g n p"
  let ?u = "s \<lparr> db_next := Suc (db_next s), db_invoiceLines := insertRow ?l (db_invoiceLines s) \<rparr>"
  have t: "materializeLines i g ps (n + 1) ?u = Inr t" using Cons.prems by (auto simp: bindE_eq_Inr insertLine_eq)
  have "linesOf ?u i = linesOf s i @ [?l]" "\<forall>j. j \<noteq> i \<longrightarrow> linesOf ?u j = linesOf s j"
    by (auto simp: linesOf_def selectWhere_insertRow)
  then show ?case using Cons.IH[OF t] by auto
qed simp

lemma specSource_none: "ls_sourceId p = None \<Longrightarrow> specSource p = None"
  by (simp add: specSource_def sourceOf_def lineRow_def del: sourceOf_lineRow_spec)

lemma refines_manualLines:
  assumes "materializeLines i g ps n s = Inr t" "isDraft i g s" "\<And>p. p \<in> set ps \<Longrightarrow> ls_sourceId p = None \<and> ls_parentLineId p = None"
  shows "refines s t"
  using assms
proof (induction ps arbitrary: n s)
  case (Cons p ps)
  let ?l = "lineRow (db_next s) i g n p"
  obtain u where u: "insertLine ?l s = Inr u" "materializeLines i g ps (n + 1) u = Inr t" using Cons.prems(1) by (auto simp: bindE_eq_Inr)
  have "line_fits (ledgerOf s) ?l" by (rule line_fits_plain) (use Cons.prems(2,3) in \<open>auto simp: specSource_none\<close>)
  then have "refines s u" using refines_insertLine[OF u(1)] by simp
  also have "refines u t" using Cons.IH[OF u(2)] Cons.prems(2,3) u(1) by (simp add: insertLine_eq)
  finally show ?case .
qed simp

lemma settleConverted_cases:
  assumes "settleConverted q v payable now s = Inr t"
  obtains (unpaid) "payable = []" "t = updateInvoices v (convertedFields (convertedTotals payable (q_taxRate q)) now) s"
      "money_ok (total (convertedTotals payable (q_taxRate q)))"
  | (issued) partner number c sq where "payable \<noteq> []" "money_ok (total (convertedTotals payable (q_taxRate q)))"
      "nextCounter (q_partnerId q) (getUTCFullYear now) (db_invoiceSequences s) = (c, sq)" "1 \<le> c"
      "number = formatInvoiceNumber (case partner of None \<Rightarrow> ''INV'' | Some p \<Rightarrow> pr_invoiceNumberPrefix p) (getUTCFullYear now) c"
      "t = updateInvoices v (\<lambda>r. convertedIssue q partner number now (convertedFields (convertedTotals payable (q_taxRate q)) now r))
         (s \<lparr> db_invoiceSequences := sq \<rparr>)"
proof -
  have "cents_ok (total (convertedTotals payable (q_taxRate q)))" by (simp add: convertedTotals_def)
  note ok = moneyFits_money_ok[OF this]
  show thesis
  proof (cases "payable = []")
    case True
    then have "t = updateInvoices v (convertedFields (convertedTotals payable (q_taxRate q)) now) s"
        "money_ok (total (convertedTotals payable (q_taxRate q)))"
      using assms ok by (auto simp: settleConverted_def Let_def guard_simps)
    with True show ?thesis by (rule unpaid)
  next
    case False
    obtain c sq where c: "nextCounter (q_partnerId q) (getUTCFullYear now) (db_invoiceSequences s) = (c, sq)" by fastforce
    show ?thesis
      by (rule issued[OF False _ c _ refl, of "partnerOf s (q_partnerId q)"])
         (use assms ok False c in \<open>auto simp: settleConverted_def Let_def guard_simps\<close>)
  qed
qed

lemma converted_sel [simp]:
  "inv_id (convertedFields tot now r) = inv_id r" "inv_id (convertedIssue q partner number now r) = inv_id r"
  "inv_total (convertedFields tot now r) = total tot" "inv_balance (convertedFields tot now r) = total tot"
  "inv_total (convertedIssue q partner number now r) = inv_total r" "inv_balance (convertedIssue q partner number now r) = inv_balance r"
  "inv_orgId (convertedFields tot now r) = inv_orgId r" "inv_partnerId (convertedFields tot now r) = inv_partnerId r"
  "inv_orgId (convertedIssue q partner number now r) = inv_orgId r" "inv_partnerId (convertedIssue q partner number now r) = inv_partnerId r"
  "inv_status (convertedIssue q partner number now r) = Inv_sent" "inv_status (convertedFields tot now r) = inv_status r"
  "inv_invoiceNumber (convertedIssue q partner number now r) = Some number"
  "inv_invoiceNumber (convertedFields tot now r) = inv_invoiceNumber r"
  "inv_voidedAt (convertedFields tot now r) = inv_voidedAt r" "inv_voidedAt (convertedIssue q partner number now r) = inv_voidedAt r"
  "inv_amountPaid (convertedFields tot now r) = inv_amountPaid r" "inv_amountPaid (convertedIssue q partner number now r) = inv_amountPaid r"
  by (simp_all add: convertedFields_def convertedIssue_def)

lemma refines_settleConverted:
  assumes "settleConverted q v payable now s = Inr t" "invOf s v = Some r" "inv_status r = Inv_draft" "inv_partnerId r = q_partnerId q"
    "sources (ledgerOf s) v = {}" "0 \<le> getUTCFullYear now"
  shows "refines s t"
  using assms(1)
proof (cases rule: settleConverted_cases)
  case unpaid
  let ?r' = "convertedFields (convertedTotals payable (q_taxRate q)) now r"
  show ?thesis
  proof (rule refines_step)
    show "rows_ok t" if "billing_ok s" using that by (simp add: unpaid(2) billing_ok_def)
    show "ledger_step False (ledgerOf s) (ledgerOf t)"
      unfolding unpaid(2) using ledger_step.retotal[of "ledgerOf s" v r ?r'] assms(2,3) unpaid(3)
      by (simp add: ledgerOf_update[OF assms(2)] same_identity_def)
  qed
next
  case (issued partner number c sq)
  let ?r' = "convertedIssue q partner number now (convertedFields (convertedTotals payable (q_taxRate q)) now r)"
  show ?thesis
  proof (rule refines_step)
    show "rows_ok t" if "billing_ok s"
      using that by (simp add: issued(6) billing_ok_def) (simp add: rows_ok_def updateInvoices_def key_ok_updateWhere)
    have inv': "invOf t = (invOf s)(v \<mapsto> ?r')"
      using assms(2) by (auto simp: issued(6) fun_eq_iff invOf_update) (simp_all add: invOf_def)
    have "ledgerOf t = ledgerOf s \<lparr> lg_inv := (lg_inv (ledgerOf s))(v \<mapsto> ?r'),
        lg_seq := (lg_seq (ledgerOf s))((inv_partnerId r, getUTCFullYear now) := c),
        lg_billed := lg_billed (ledgerOf s) \<union> (sources (ledgerOf s) v \<inter> lg_known (ledgerOf s)) \<rparr>"
      by (rule ledger.equality)
         (simp_all add: inv' assms(4,5), simp_all add: issued(6) seqValue_next[OF issued(3)] knownSources_def billedSources_def)
    moreover have "seqValue (inv_partnerId r, getUTCFullYear now) (db_invoiceSequences s) + 1 = c"
      using nextCounter_value(1)[OF issued(3)] assms(4) by simp
    ultimately show "ledger_step False (ledgerOf s) (ledgerOf t)"
      using ledger_step.issue[of "ledgerOf s" v r ?r' "getUTCFullYear now" c] assms issued by (simp add: same_identity_def)
  qed
qed

subsection \<open>The contracts\<close>

text \<open>A contract line that was written for a line of a specification, with its contract.\<close>

definition specified :: "db \<Rightarrow> instant \<Rightarrow> new_contract_spec \<times> contract_line_spec \<Rightarrow> contract_line \<Rightarrow> bool" where
  "specified t now sl x \<longleftrightarrow> (\<exists>k n i. x = contractLineRow k i (ncs_orgId (fst sl)) n (snd sl) \<and>
     contractOf t i = Some (specContract i (fst sl) now))"

definition specRows :: "new_contract_spec list \<Rightarrow> (new_contract_spec \<times> contract_line_spec) list" where
  "specRows specs = concat (map (\<lambda>spec. map (Pair spec) (ncs_lines spec)) specs)"

lemma specLines_effect:
  assumes "specLines i g n ls s = Inr t"
  shows "\<exists>xs. db_contractLines t = db_contractLines s @ xs \<and> list_all2 (\<lambda>l x. \<exists>k m. x = contractLineRow k i g m l) ls xs"
    "db_contracts t = db_contracts s" "db_next s \<le> db_next t" "db_quotes t = db_quotes s \<and> db_quoteLines t = db_quoteLines s \<and> db_organizations t = db_organizations s"
  using assms
proof (atomize (full), induction ls arbitrary: n s)
  case (Cons l ls)
  let ?u = "s \<lparr> db_next := Suc (db_next s), db_contractLines := insertRow (contractLineRow (db_next s) i g n l) (db_contractLines s) \<rparr>"
  have t: "specLines i g (n + 1) ls ?u = Inr t" using Cons.prems by (auto simp: bindE_eq_Inr insertContractLine_def guard_simps)
  then show ?case using Cons.IH[OF t] by (auto simp: insertRow_def)
qed simp

lemma createContractWithLines_effect:
  assumes "createContractWithLines spec now s = Inr (c, t)" "key_ok c_id (db_next s) (db_contracts s)"
  shows "c = specContract (db_next s) spec now" "contractOf t = (contractOf s)(db_next s \<mapsto> c)"
    "key_ok c_id (db_next t) (db_contracts t)" "db_quotes t = db_quotes s"
    "\<exists>xs. db_contractLines t = db_contractLines s @ xs \<and>
       list_all2 (\<lambda>l x. cl_contractId x = db_next s \<and> (\<exists>k n. x = contractLineRow k (db_next s) (ncs_orgId spec) n l)) (ncs_lines spec) xs"
proof -
  let ?c = "specContract (db_next s) spec now"
  let ?u = "s \<lparr> db_next := Suc (db_next s), db_contracts := insertRow ?c (db_contracts s) \<rparr>"
  have id: "c_id ?c = db_next s" by (simp add: specContract_def)
  have c: "c = ?c" and t: "specLines (db_next s) (ncs_orgId spec) 0 (ncs_lines spec) ?u = Inr t"
    using assms(1) id by (auto simp: createContractWithLines_def insertContract_def Let_def guard_simps)
  note e = specLines_effect[OF t]
  show "c = ?c" by (rule c)
  show "db_quotes t = db_quotes s" using e(4) by simp
  have "selectOne (\<lambda>c. c_id c = db_next s) (db_contracts s) = None" using assms(2) by (rule selectOne_fresh) simp
  then show "contractOf t = (contractOf s)(db_next s \<mapsto> c)"
    using e(2) id by (auto simp: fun_eq_iff contractOf_def selectOne_insertRow c split: option.splits)
  show "key_ok c_id (db_next t) (db_contracts t)"
    using e(2,3) key_ok_mono[OF key_ok_insertRow[OF assms(2) id]] by simp
  have "cl_contractId (contractLineRow k j g n l) = j" for k j g n l by (simp add: contractLineRow_def)
  then have "(\<lambda>l x. \<exists>k m. x = contractLineRow k (db_next s) (ncs_orgId spec) m l) =
     (\<lambda>l x. cl_contractId x = db_next s \<and> (\<exists>k n. x = contractLineRow k (db_next s) (ncs_orgId spec) n l))" by (auto simp: fun_eq_iff)
  then show "\<exists>xs. db_contractLines t = db_contractLines s @ xs \<and>
       list_all2 (\<lambda>l x. cl_contractId x = db_next s \<and> (\<exists>k n. x = contractLineRow k (db_next s) (ncs_orgId spec) n l)) (ncs_lines spec) xs"
    using e(1) by simp
qed

lemma createContracts_effect:
  assumes "createContracts specs now s = Inr (ids, t)" "key_ok c_id (db_next s) (db_contracts s)"
  shows "\<exists>xs. db_contractLines t = db_contractLines s @ xs \<and> list_all2 (specified t now) (specRows specs) xs"
    "\<forall>j. j < db_next s \<longrightarrow> contractOf t j = contractOf s j" "db_quotes t = db_quotes s" "length ids = length specs"
  using assms
proof (atomize (full), induction specs arbitrary: s ids)
  case (Cons spec specs)
  obtain c u ids' where u: "createContractWithLines spec now s = Inr (c, u)" "createContracts specs now u = Inr (ids', t)" "ids = c_id c # ids'"
    using Cons.prems(1) by (auto simp: bindE_eq_Inr)
  note e = createContractWithLines_effect[OF u(1) Cons.prems(2)]
  have o: "outside s u" by (rule outside_createContractWithLines[OF u(1)])
  have lt: "db_next s < db_next u"
    using e(2,3) selectOne_Some[of "\<lambda>c. c_id c = db_next s" "db_contracts u" c]
    by (fastforce simp: contractOf_def fun_eq_iff key_ok_def dest: spec)
  note IH = Cons.IH[OF u(2) e(3)]
  have kept: "contractOf t (db_next s) = Some c" using IH lt e(2) by simp
  obtain ys where ys: "db_contractLines u = db_contractLines s @ ys"
      "list_all2 (\<lambda>l x. cl_contractId x = db_next s \<and> (\<exists>k n. x = contractLineRow k (db_next s) (ncs_orgId spec) n l)) (ncs_lines spec) ys"
    using e(5) by blast
  have "list_all2 (specified t now) (map (Pair spec) (ncs_lines spec)) ys"
    unfolding list_all2_map1 using ys(2) by (rule list_all2_mono) (use kept e(1) in \<open>auto simp: specified_def\<close>)
  then have "list_all2 (specified t now) (specRows (spec # specs)) (ys @ xs)" if "list_all2 (specified t now) (specRows specs) xs" for xs
    using that by (auto simp: specRows_def intro: list_all2_appendI)
  moreover have "contractOf t j = contractOf s j" if "j < db_next s" for j using IH lt that e(2) by simp
  ultimately show ?case using IH ys(1) e(4) u(3) by auto
qed (simp add: specRows_def)

text \<open>A visible recurring line of the quote as the line of a draft contract of the same cadence.\<close>

definition contracted :: "db \<Rightarrow> quote \<Rightarrow> quote_line \<Rightarrow> contract_line \<Rightarrow> bool" where
  "contracted t q l x \<longleftrightarrow> cl_lineType x = Cl_manual \<and> cl_description x = ql_description l \<and> cl_unitPrice x = numeric2 (ql_unitPrice l) \<and>
     cl_manualQuantity x = Some (numeric2 (ql_quantity l)) \<and> cl_taxable x = ql_taxable l \<and>
     (\<exists>c. contractOf t (cl_contractId x) = Some c \<and> c_status c = Ct_draft \<and> c_orgId c = q_orgId q \<and> c_partnerId c = q_partnerId q \<and>
        c_billingTiming c = Timing_advance \<and> c_intervalMonths c = (if ql_recurrence l = Rec_monthly then 1 else 12))"

definition recurringLines :: "quote_line list \<Rightarrow> quote_line list" where
  "recurringLines ls = filter (\<lambda>l. ql_recurrence l = Rec_monthly \<and> ql_customerVisible l) ls @
     filter (\<lambda>l. ql_recurrence l = Rec_annual \<and> ql_customerVisible l) ls"

lemma cadenceLines_rel:
  "list_all P ls \<Longrightarrow> list_all2 (\<lambda>l x. P l \<and> cls_lineType x = Cl_manual \<and> cls_description x = ql_description l \<and> cls_unitPrice x = ql_unitPrice l \<and>
     cls_manualQuantity x = Some (ql_quantity l) \<and> cls_taxable x = ql_taxable l) ls (cadenceLines (map lineForContract ls) n)"
  by (induction ls arbitrary: n) (simp_all add: lineForContract_def)

lemma specRows_quote:
  assumes "buildContractSpecsFromQuote (quoteForContract q) (map lineForContract ls) day createdBy = Inr specs"
  shows "list_all2 (\<lambda>l sl. cls_lineType (snd sl) = Cl_manual \<and> cls_description (snd sl) = ql_description l \<and>
     cls_unitPrice (snd sl) = ql_unitPrice l \<and> cls_manualQuantity (snd sl) = Some (ql_quantity l) \<and> cls_taxable (snd sl) = ql_taxable l \<and>
     ncs_orgId (fst sl) = q_orgId q \<and> ncs_partnerId (fst sl) = q_partnerId q \<and> ncs_billingTiming (fst sl) = Timing_advance \<and>
     ncs_intervalMonths (fst sl) = (if ql_recurrence l = Rec_monthly then 1 else 12)) (recurringLines ls) (specRows specs)"
    (is "list_all2 ?R _ _")
proof -
  let ?g = "\<lambda>k. filter (\<lambda>l. ql_recurrence l = k \<and> ql_customerVisible l) ls"
  have g: "filter (\<lambda>l. qlc_recurrence l = k \<and> qlc_customerVisible l) (map lineForContract ls) = map lineForContract (?g k)" for k
    by (simp add: filter_map o_def lineForContract_def)
  have one: "list_all2 ?R (?g k) (specRows [cadenceSpec (quoteForContract q) (map lineForContract (?g k)) day e createdBy (if k = Rec_monthly then 1 else 12) lab])"
    for k e lab
  proof -
    let ?sp = "cadenceSpec (quoteForContract q) (map lineForContract (?g k)) day e createdBy (if k = Rec_monthly then 1 else 12) lab"
    have sel: "ncs_orgId ?sp = q_orgId q" "ncs_partnerId ?sp = q_partnerId q" "ncs_billingTiming ?sp = Timing_advance"
        "ncs_intervalMonths ?sp = (if k = Rec_monthly then 1 else 12)" "ncs_lines ?sp = cadenceLines (map lineForContract (?g k)) 0"
      by (simp_all add: cadenceSpec_def quoteForContract_def)
    have "list_all (\<lambda>l. ql_recurrence l = k) (?g k)" by (auto simp: list_all_iff)
    from cadenceLines_rel[OF this, of 0] have "list_all2 (\<lambda>l x. ?R l (?sp, x)) (?g k) (ncs_lines ?sp)"
      unfolding sel(5) by (rule list_all2_mono) (simp add: sel(1-4))
    then show ?thesis by (simp add: specRows_def list_all2_map2)
  qed
  obtain em ea where "specs = (if ?g Rec_monthly = [] then [] else [cadenceSpec (quoteForContract q) (map lineForContract (?g Rec_monthly)) day em createdBy 1 ''Monthly'']) @
      (if ?g Rec_annual = [] then [] else [cadenceSpec (quoteForContract q) (map lineForContract (?g Rec_annual)) day ea createdBy 12 ''Annual''])"
    using assms by (fastforce simp: buildContractSpecsFromQuote_def cadences_def g Let_def bindE_eq_Inr split: if_splits)
  then show ?thesis using one[of Rec_monthly em "''Monthly''"] one[of Rec_annual ea "''Annual''"]
    by (auto simp: recurringLines_def specRows_def intro: list_all2_appendI split: if_splits)
qed

subsection \<open>The whole call\<close>

lemma keeps_settleConverted: "settleConverted q v payable now s = Inr t \<Longrightarrow> keeps s t"
  by (erule settleConverted_cases) (simp_all add: keeps_def updateInvoices_def)

lemma outside_createContracts: "createContracts specs now s = Inr (ids, t) \<Longrightarrow> outside s t"
  by (induction specs arbitrary: s ids)
     (auto elim!: bindE_InrE dest!: outside_createContractWithLines intro: outside_trans)

lemma outside_updateQuotes [simp]: "outside s (updateQuotes i f t) = outside s t"
  by (simp add: outside_def same_tables_def updateQuotes_def)

lemma quoteOf_update:
  assumes "\<And>r. q_id (f r) = q_id r"
  shows "quoteOf (updateQuotes i f s) j = (if j = i then map_option f (quoteOf s j) else quoteOf s j)"
  using assms selectOne_updateWhere_same[of "\<lambda>q. q_id q = i" f "db_quotes s"]
    selectOne_updateWhere_other[of "\<lambda>q. q_id q = i" "\<lambda>q. q_id q = j" f "db_quotes s"]
  by (auto simp: quoteOf_def updateQuotes_def)

lemma quoteOf_id: "quoteOf s i = Some q \<Longrightarrow> q_id q = i"
  by (auto simp: quoteOf_def dest: selectOne_Some)

lemma find_unlinked: "map unlinked xs = map unlinked ys \<Longrightarrow>
    map_option unlinked (find (\<lambda>q. q_id q = i) xs) = map_option unlinked (find (\<lambda>q. q_id q = i) ys)"
proof (induction xs arbitrary: ys)
  case (Cons x xs)
  then obtain y ys' where ys: "ys = y # ys'" "unlinked x = unlinked y" "map unlinked xs = map unlinked ys'" by (cases ys) auto
  have "q_id (unlinked z) = q_id z" for z by (simp add: unlinked_def)
  then have "q_id x = q_id y" using ys(2) by metis
  then show ?case using Cons.IH[OF ys(3)] ys by simp
qed simp

lemma quoteOf_unlinked:
  "map unlinked (db_quotes t) = map unlinked (db_quotes s) \<Longrightarrow> map_option unlinked (quoteOf t i) = map_option unlinked (quoteOf s i)"
  unfolding quoteOf_def selectOne_def by (rule find_unlinked)

lemma convertedDraft_sel [simp]:
  "inv_id (convertedDraft i q p now) = i" "inv_status (convertedDraft i q p now) = Inv_draft" "inv_orgId (convertedDraft i q p now) = q_orgId q"
  "inv_partnerId (convertedDraft i q p now) = q_partnerId q" "inv_invoiceNumber (convertedDraft i q p now) = None"
  "draftRow (convertedDraft i q p now)"
  by (simp_all add: convertedDraft_def) (simp add: blankInvoice_def)

lemma refines_acceptQuote:
  assumes "acceptQuote digest p now s = Inr (r, t)" "0 \<le> getUTCFullYear now"
  shows "refines s t"
  using assms(1)
proof (cases rule: acceptQuote_cases)
  case (1 q captured s1 s2 s3 s4 specs ids)
  let ?v = "db_next s1" and ?d = "convertedDraft (db_next s1) q p now"
  have o: "outside s s1" by (simp add: 1(4) outside_def same_tables_def)
  have "refines s1 t"
    unfolding refines_by_def
  proof
    assume ok: "billing_ok s1"
    have inv2: "invOf s2 = (invOf s1)(?v \<mapsto> ?d)" using invOf_insert[OF ok 1(5)] by simp
    then have d2: "isDraft ?v (q_orgId q) s2" by (simp add: isDraft_def)
    have r12: "refines s1 s2" using refines_insertInvoice[OF 1(5)] by simp
    have r23: "refines s2 s3" by (rule refines_manualLines[OF 1(6) d2]) (auto simp: convertedLine_def)
    note me = materializeLines_effect[OF 1(6)]
    have "invOf s3 = invOf s2" using me(3) by (simp add: invOf_def[abs_def])
    then have "invOf s3 ?v = Some ?d" using inv2 by simp
    moreover have "linesOf s2 ?v = []"
      using linesOf_fresh[OF ok] 1(5) by (simp add: insertInvoice_eq linesOf_def)
    then have "list_all2 (\<lambda>l x. sourceOf x = None) (oneTimeLines (quoteLinesOf s (q_id q))) (linesOf s3 ?v)"
      using me(1) by (auto simp: list_all2_map1 specSource_none convertedLine_def elim!: list_all2_mono)
    then have "\<forall>x \<in> set (linesOf s3 ?v). sourceOf x = None" by (auto simp: list_all2_conv_all_nth in_set_conv_nth)
    then have "sources (ledgerOf s3) ?v = {}" by (auto simp: sources_def linesOf_def set_selectWhere)
    ultimately have "refines s3 s4" using refines_settleConverted[OF 1(7)] assms(2) by simp
    also have "refines s4 t" using outside_createContracts[OF 1(9)]
      by (intro refines_outside) (auto intro: outside_trans[rotated])
    finally have "refines s1 t" using r12 r23 refines_trans by blast
    then show "rows_ok t \<and> (ledger_step False)\<^sup>*\<^sup>* (ledgerOf s1) (ledgerOf t)" using ok by (simp add: refines_by_def)
  qed
  then show ?thesis using refines_trans[OF refines_outside[OF o]] by blast
qed

lemma createContracts_quotes:
  "createContracts specs now s = Inr (ids, t) \<Longrightarrow> db_quotes t = db_quotes s \<and> db_quoteLines t = db_quoteLines s \<and> db_organizations t = db_organizations s"
proof (induction specs arbitrary: s ids)
  case (Cons spec specs)
  then obtain c u ids' where u: "createContractWithLines spec now s = Inr (c, u)" "createContracts specs now u = Inr (ids', t)"
    by (auto simp: bindE_eq_Inr)
  have "db_quotes u = db_quotes s \<and> db_quoteLines u = db_quoteLines s \<and> db_organizations u = db_organizations s"
    using u(1) by (auto simp: createContractWithLines_def insertContract_def Let_def guard_simps dest!: specLines_effect(4))
  then show ?case using Cons.IH[OF u(2)] by simp
qed simp

lemma acceptQuote_quote:
  assumes "acceptQuote digest p now s = Inr (r, t)"
  shows "\<exists>q. quoteOf s (ap_quoteId p) = Some q \<and> quoteOf t (ap_quoteId p) = Some (convertedQuote (ar_invoiceId r) now q)"
    "map unlinked (db_quotes u) = map unlinked (db_quotes s) \<Longrightarrow>
     \<forall>j. j \<noteq> ap_quoteId p \<longrightarrow> map_option unlinked (quoteOf t j) = map_option unlinked (quoteOf u j)"
  using assms
proof (atomize (full), cases rule: acceptQuote_cases)
  case (1 q captured s1 s2 s3 s4 specs ids)
  let ?v = "db_next s1"
  have id: "q_id q = ap_quoteId p" using 1(1) by (rule quoteOf_id)
  have k: "keeps s1 s4" using keeps_insertInvoice[OF 1(5)] keeps_materializeLines[OF 1(6)] keeps_settleConverted[OF 1(7)] keeps_trans by blast
  have un: "map unlinked (db_quotes s4) = map unlinked (db_quotes s)" using keepsD(6)[OF k] by (simp add: 1(4))
  have fid: "q_id (convertedQuote ?v now x) = q_id x" for x by (simp add: convertedQuote_def)
  have t: "quoteOf t = quoteOf (updateQuotes (q_id q) (convertedQuote ?v now) s4)"
    using createContracts_quotes[OF 1(9)] by (simp add: quoteOf_def[abs_def])
  obtain q' where q': "quoteOf s4 (q_id q) = Some q'" "unlinked q' = unlinked q" using quoteOf_unlinked[OF un, of "q_id q"] 1(1) id by auto
  have "convertedQuote ?v now (unlinked x) = convertedQuote ?v now x" for x by (simp add: convertedQuote_def unlinked_def)
  then have "convertedQuote ?v now q' = convertedQuote ?v now q" using q'(2) by metis
  then have "quoteOf t (ap_quoteId p) = Some (convertedQuote (ar_invoiceId r) now q)" using q'(1) id 1(11) by (simp add: t quoteOf_update[OF fid])
  moreover have "map_option unlinked (quoteOf t j) = map_option unlinked (quoteOf u j)"
    if "map unlinked (db_quotes u) = map unlinked (db_quotes s)" "j \<noteq> ap_quoteId p" for j
    using that quoteOf_unlinked[of s4 u j] un id by (simp add: t quoteOf_update[OF fid])
  ultimately show "(\<exists>q. quoteOf s (ap_quoteId p) = Some q \<and> quoteOf t (ap_quoteId p) = Some (convertedQuote (ar_invoiceId r) now q)) \<and>
    (map unlinked (db_quotes u) = map unlinked (db_quotes s) \<longrightarrow>
     (\<forall>j. j \<noteq> ap_quoteId p \<longrightarrow> map_option unlinked (quoteOf t j) = map_option unlinked (quoteOf u j)))" using 1(1) by blast
qed

text \<open>How a one-time line of the quote appears on the invoice.\<close>

definition invoicedAs :: "quote_line \<Rightarrow> invoice_line \<Rightarrow> bool" where
  "invoicedAs l x \<longleftrightarrow> il_description x = ql_description l \<and> il_quantity x = numeric2 (ql_quantity l) \<and>
     il_unitPrice x = numeric2 (ql_unitPrice l) \<and> il_taxable x = ql_taxable l \<and> il_customerVisible x \<and>
     il_lineTotal x = numeric2 (computeLineTotal (ql_quantity l) (ql_unitPrice l))"

lemma acceptQuote_effect:
  assumes "acceptQuote digest p now s = Inr (r, t)" "billing_ok s" "contracts_ok s"
  shows "\<exists>q ls. quoteOf s (ap_quoteId p) = Some q \<and> ls = quoteLinesOf s (q_id q) \<and> openForAnswer q \<and>
    \<not> isQuoteExpired (q_expiryDate q) now \<and> quoteOf t (q_id q) = Some (convertedQuote (ar_invoiceId r) now q) \<and>
    invOf s (ar_invoiceId r) = None \<and>
    (\<exists>w. invOf t (ar_invoiceId r) = Some w \<and> inv_orgId w = q_orgId q \<and> inv_partnerId w = q_partnerId q \<and>
       inv_total w = qt_dueOnAcceptanceTotal (quoteTotalsOf ls (q_taxRate q)) \<and> inv_balance w = inv_total w \<and>
       inv_status w = (if oneTimeLines ls = [] then Inv_draft else Inv_sent) \<and> (inv_invoiceNumber w = None \<longleftrightarrow> oneTimeLines ls = [])) \<and>
    list_all2 invoicedAs (oneTimeLines ls) (linesOf t (ar_invoiceId r)) \<and>
    (\<forall>j. j \<noteq> ar_invoiceId r \<longrightarrow> invOf t j = invOf s j \<and> linesOf t j = linesOf s j) \<and>
    (\<exists>xs. db_contractLines t = db_contractLines s @ xs \<and> list_all2 (contracted t q) (recurringLines ls) xs) \<and>
    (\<forall>j < db_next s. contractOf t j = contractOf s j)"
  using assms(1)
proof (cases rule: acceptQuote_cases)
  case (1 q captured s1 s2 s3 s4 specs ids)
  let ?v = "db_next s1" and ?d = "convertedDraft (db_next s1) q p now" and ?ls = "quoteLinesOf s (q_id q)"
  have ok1: "billing_ok s1"
    using assms(2) refines_billing_ok[OF refines_outside[of s s1]] by (simp add: 1(4) outside_def same_tables_def)
  have same1: "invOf s1 = invOf s" "linesOf s1 = linesOf s" by (simp_all add: 1(4) invOf_def[abs_def] linesOf_def[abs_def])
  have inv2: "invOf s2 = (invOf s)(?v \<mapsto> ?d)" using invOf_insert[OF ok1 1(5)] same1 by simp
  have lines2: "linesOf s2 = linesOf s" using 1(5) same1 by (simp add: insertInvoice_eq linesOf_def[abs_def])
  note me = materializeLines_effect[OF 1(6)]
  have inv3: "invOf s3 = (invOf s)(?v \<mapsto> ?d)" using me(3) inv2 by (simp add: invOf_def[abs_def])
  have fresh: "invOf s ?v = None" "linesOf s ?v = []" using invOf_fresh[OF ok1] linesOf_fresh[OF ok1] same1 by simp_all
  obtain w where inv4: "invOf s4 = (invOf s)(?v \<mapsto> w)" and lines4: "linesOf s4 = linesOf s3"
    and w: "inv_orgId w = q_orgId q" "inv_partnerId w = q_partnerId q" "inv_total w = qt_dueOnAcceptanceTotal (quoteTotalsOf ?ls (q_taxRate q))"
      "inv_balance w = inv_total w" "inv_status w = (if oneTimeLines ?ls = [] then Inv_draft else Inv_sent)"
      "inv_invoiceNumber w = None \<longleftrightarrow> oneTimeLines ?ls = []"
    using 1(7)
  proof (cases rule: settleConverted_cases)
    case unpaid
    show ?thesis
      by (rule that[of "convertedFields (convertedTotals (oneTimeLines ?ls) (q_taxRate q)) now ?d"])
         (use unpaid inv3 converted_due[of ?ls "q_taxRate q"] in \<open>auto simp: fun_eq_iff invOf_update linesOf_def\<close>)
  next
    case (issued partner number c sq)
    have "invOf (updateInvoices ?v f (s3 \<lparr> db_invoiceSequences := sq \<rparr>)) j = invOf (updateInvoices ?v f s3) j" for f j
      by (simp add: invOf_def updateInvoices_def)
    then show ?thesis
      by (intro that[of "convertedIssue q partner number now (convertedFields (convertedTotals (oneTimeLines ?ls) (q_taxRate q)) now ?d)"])
         (use issued inv3 in \<open>auto simp: fun_eq_iff invOf_update linesOf_def converted_due\<close>)
  qed
  let ?u = "updateQuotes (q_id q) (convertedQuote ?v now) s4"
  have k: "keeps s1 s4" using keeps_insertInvoice[OF 1(5)] keeps_materializeLines[OF 1(6)] keeps_settleConverted[OF 1(7)] keeps_trans by blast
  have ku: "db_contracts ?u = db_contracts s" "db_contractLines ?u = db_contractLines s" "db_next s \<le> db_next ?u"
    using k by (simp_all add: keeps_def 1(4) updateQuotes_def)
  have key: "key_ok c_id (db_next ?u) (db_contracts ?u)" 
    unfolding ku(1) by (rule key_ok_mono[OF _ ku(3)]) (use assms(3) in \<open>simp add: contracts_ok_def\<close>)
  note ce = createContracts_effect[OF 1(9) key]
  have o: "outside s4 t" using outside_createContracts[OF 1(9)] by (auto intro: outside_trans[rotated])
  have inv: "invOf t = (invOf s)(?v \<mapsto> w)" "linesOf t = linesOf s3" using invoices_outside[OF o] inv4 lines4 by simp_all
  have "list_all2 invoicedAs (oneTimeLines ?ls) (linesOf t ?v)"
    using me(1) fresh(2) lines2 inv(2) by (auto simp: list_all2_map1 invoicedAs_def convertedLine_def lineRow_def elim!: list_all2_mono)
  moreover have "quoteOf t (q_id q) = Some (convertedQuote ?v now q)"
    using acceptQuote_quote[OF assms(1)] 1(1,11) quoteOf_id[OF 1(1)] by auto
  moreover have "\<exists>xs. db_contractLines t = db_contractLines s @ xs \<and> list_all2 (contracted t q) (recurringLines ?ls) xs"
  proof -
    obtain xs where xs: "db_contractLines t = db_contractLines s @ xs" "list_all2 (specified t now) (specRows specs) xs" using ce(1) ku by auto
    have "list_all2 (contracted t q) (recurringLines ?ls) xs"
      using specRows_quote[OF 1(8)] xs(2)
    proof (rule list_all2_trans[rotated])
      show "contracted t q l x" if "cls_lineType (snd sl) = Cl_manual \<and> cls_description (snd sl) = ql_description l \<and>
         cls_unitPrice (snd sl) = ql_unitPrice l \<and> cls_manualQuantity (snd sl) = Some (ql_quantity l) \<and> cls_taxable (snd sl) = ql_taxable l \<and>
         ncs_orgId (fst sl) = q_orgId q \<and> ncs_partnerId (fst sl) = q_partnerId q \<and> ncs_billingTiming (fst sl) = Timing_advance \<and>
         ncs_intervalMonths (fst sl) = (if ql_recurrence l = Rec_monthly then 1 else 12)" "specified t now sl x" for l sl x
        using that by (auto simp: contracted_def specified_def specContract_def contractLineRow_def)
    qed
    then show ?thesis using xs(1) by blast
  qed
  moreover have "\<forall>j < db_next s. contractOf t j = contractOf s j" using ce(2) ku by (auto simp: contractOf_def)
  moreover have "\<forall>j. j \<noteq> ?v \<longrightarrow> invOf t j = invOf s j \<and> linesOf t j = linesOf s j" using inv me(2) lines2 by simp
  ultimately show ?thesis using 1(1-3,11) fresh(1) w inv(1) by auto
qed

text \<open>
  (C5) Acceptance converts the whole visible quote. The quote was open and unexpired and is \<open>converted\<close> afterwards,
  linked to a new invoice of its organization whose total is the amount advertised as due on acceptance. The
  invoice has exactly one line per visible one-time line and is issued with a number exactly when there is one.
  The contract lines written are exactly the visible recurring lines, in draft contracts that bill in advance at the
  line's cadence. Every other invoice and every existing contract stay as they were.
\<close>

theorem acceptQuote_converts:
  assumes "acceptQuote digest p now s = Inr (r, t)" "billing_ok s" "contracts_ok s"
  shows "\<exists>q ls. quoteOf s (ap_quoteId p) = Some q \<and> ls = quoteLinesOf s (q_id q) \<and> openForAnswer q \<and>
    \<not> isQuoteExpired (q_expiryDate q) now \<and> quoteOf t (q_id q) = Some (convertedQuote (ar_invoiceId r) now q) \<and>
    invOf s (ar_invoiceId r) = None \<and>
    (\<exists>w. invOf t (ar_invoiceId r) = Some w \<and> inv_orgId w = q_orgId q \<and> inv_partnerId w = q_partnerId q \<and>
       inv_total w = qt_dueOnAcceptanceTotal (quoteTotalsOf ls (q_taxRate q)) \<and> inv_balance w = inv_total w \<and>
       inv_status w = (if oneTimeLines ls = [] then Inv_draft else Inv_sent) \<and> (inv_invoiceNumber w = None \<longleftrightarrow> oneTimeLines ls = [])) \<and>
    list_all2 invoicedAs (oneTimeLines ls) (linesOf t (ar_invoiceId r)) \<and>
    (\<forall>j. j \<noteq> ar_invoiceId r \<longrightarrow> invOf t j = invOf s j \<and> linesOf t j = linesOf s j) \<and>
    (\<exists>xs. db_contractLines t = db_contractLines s @ xs \<and> list_all2 (contracted t q) (recurringLines ls) xs) \<and>
    (\<forall>j < db_next s. contractOf t j = contractOf s j)"
  by (rule acceptQuote_effect[OF assms])

section \<open>A quote is answered once\<close>

definition final :: "quote_status \<Rightarrow> bool" where
  "final st \<longleftrightarrow> st = Quote_declined \<or> st = Quote_expired \<or> st = Quote_converted"

definition answers_kept :: "db \<Rightarrow> db \<Rightarrow> bool" where
  "answers_kept s t \<longleftrightarrow> (\<forall>i q. quoteOf s i = Some q \<and> final (q_status q) \<longrightarrow> (\<exists>q'. quoteOf t i = Some q' \<and> q_status q' = q_status q))"

lemma answers_refl [simp]: "answers_kept s s"
  by (simp add: answers_kept_def)

lemma answers_trans: "answers_kept s t \<Longrightarrow> answers_kept t u \<Longrightarrow> answers_kept s u"
  unfolding answers_kept_def by metis

lemma answers_same: "db_quotes t = db_quotes s \<Longrightarrow> answers_kept s t"
  by (simp add: answers_kept_def quoteOf_def)

lemma answers_unlinked:
  assumes "map unlinked (db_quotes t) = map unlinked (db_quotes s)"
  shows "answers_kept s t"
  unfolding answers_kept_def
proof (intro allI impI)
  fix i q assume "quoteOf s i = Some q \<and> final (q_status q)"
  then obtain q' where "quoteOf t i = Some q'" "unlinked q' = unlinked q" using quoteOf_unlinked[OF assms, of i] by auto
  moreover have "q_status (unlinked x) = q_status x" for x by (simp add: unlinked_def)
  ultimately show "\<exists>q'. quoteOf t i = Some q' \<and> q_status q' = q_status q" by metis
qed

lemma answers_updateWhere:
  assumes "\<And>r. P r \<Longrightarrow> q_id (f r) = q_id r" "\<And>r. P r \<Longrightarrow> final (q_status r) \<Longrightarrow> q_status (f r) = q_status r"
    "db_quotes t = updateWhere P f (db_quotes s)"
  shows "answers_kept s t"
  using assms selectOne_updateWhere[of P q_id f] by (auto simp: answers_kept_def quoteOf_def)

lemma answers_updateQuotes:
  assumes "quoteOf s i = Some q" "\<not> final (q_status q)" "\<And>r. q_id (f r) = q_id r"
  shows "answers_kept s (updateQuotes i f s)"
  using assms by (auto simp: answers_kept_def quoteOf_update)

lemma recomputeAndPersist_eq:
  assumes "recomputeAndPersist i now s = Inr t"
  obtains tot where "t = updateQuotes i (writeQuoteTotals tot now) s"
  using assms by (auto simp: recomputeAndPersist_def Let_def guard_simps)

lemma loadDraft_eq [guard_simps]:
  "loadDraft i a s = Inr q \<longleftrightarrow> quoteOf s i = Some q \<and> orgAccessible a (q_orgId q) \<and> q_status q = Quote_draft"
  by (auto simp: loadDraft_def assertOrg_def guard_simps)

text \<open>An edit of a draft: the call rewrites the totals of that quote, and maybe its own columns.\<close>

lemma answers_edit:
  assumes "loadDraft i a s = Inr q" "recomputeAndPersist i now u = Inr t"
    "db_quotes u = updateWhere (\<lambda>q. q_id q = i) f (db_quotes s)" "\<And>r. q_id (f r) = q_id r"
  shows "answers_kept s t"
proof -
  obtain tot where t: "t = updateQuotes i (writeQuoteTotals tot now) u" using assms(2) by (rule recomputeAndPersist_eq)
  let ?g = "\<lambda>r. writeQuoteTotals tot now (f r)"
  have "answers_kept s (updateQuotes i ?g s)"
    by (rule answers_updateQuotes[of s i q]) (use assms(1,4) in \<open>auto simp: loadDraft_eq final_def writeQuoteTotals_def\<close>)
  moreover have "db_quotes t = db_quotes (updateQuotes i ?g s)"
    using assms(3,4) by (simp add: t updateQuotes_def writeQuoteTotals_def updateWhere_def)
  ultimately show ?thesis by (simp add: answers_kept_def quoteOf_def)
qed

lemma answers_edit_lines:
  "loadDraft i a s = Inr q \<Longrightarrow> recomputeAndPersist i now u = Inr t \<Longrightarrow> db_quotes u = db_quotes s \<Longrightarrow> answers_kept s t"
  by (erule (1) answers_edit[where f = "\<lambda>r. r"]) (simp_all add: updateWhere_def)

lemma answers_createQuote: "createQuote input a now s = Inr (q, t) \<Longrightarrow> answers_kept s t"
  by (auto simp: createQuote_def Let_def guard_simps answers_kept_def quoteOf_def selectOne_insertRow)

lemma answers_updateQuote: "updateQuote i p a now s = Inr (q, t) \<Longrightarrow> answers_kept s t"
  unfolding updateQuote_def
  by (elim bindE_InrE, clarsimp, erule (1) answers_edit[where f = "patchQuote p now"]) (simp_all add: updateQuotes_def patchQuote_def)

lemma answers_deleteDraftQuote:
  assumes "deleteDraftQuote i a s = Inr (u, t)"
  shows "answers_kept s t"
proof -
  obtain d where d: "quoteOf s i = Some d" "\<not> final (q_status d)" and t: "db_quotes t = deleteWhere (\<lambda>q. q_id q = i) (db_quotes s)"
    using assms by (auto simp: deleteDraftQuote_def guard_simps final_def)
  have "quoteOf t j = quoteOf s j" if "j \<noteq> i" for j
    using that by (auto simp: quoteOf_def t intro: selectOne_deleteWhere_other)
  then show ?thesis using d unfolding answers_kept_def by (metis option.inject)
qed

lemma answers_addBlock: "addBlock i bt content a s = Inr (b, t) \<Longrightarrow> answers_kept s t"
  unfolding addBlock_def by (auto elim!: bindE_InrE intro!: answers_same simp: Let_def)

lemma answers_deleteBlock: "deleteBlock i k a now s = Inr (u, t) \<Longrightarrow> answers_kept s t"
  unfolding deleteBlock_def Let_def by (elim bindE_InrE, clarsimp, erule (1) answers_edit_lines, simp)

lemma answers_insertQuoteLine:
  "loadDraft i a s = Inr q \<Longrightarrow> ql_quoteId l = i \<Longrightarrow> insertQuoteLine l now s = Inr (x, t) \<Longrightarrow> answers_kept s t"
  unfolding insertQuoteLine_def by (elim bindE_InrE, clarsimp, erule (1) answers_edit_lines, simp)

lemma quoteLineRow_quote [simp]: "ql_quoteId (quoteLineRow k i g n inp qty price) = i"
  by (simp add: quoteLineRow_def)

lemma answers_addManualQuoteLine: "addManualQuoteLine i input a now s = Inr (l, t) \<Longrightarrow> answers_kept s t"
  unfolding addManualQuoteLine_def by (elim bindE_InrE) (erule answers_insertQuoteLine[rotated 2], assumption, simp)

lemma answers_addCatalogQuoteLine: "addCatalogQuoteLine i c qty b a now s = Inr (l, t) \<Longrightarrow> answers_kept s t"
  unfolding addCatalogQuoteLine_def by (elim bindE_InrE) (erule answers_insertQuoteLine[rotated 2], assumption, simp)

lemma answers_updateQuoteLine: "updateQuoteLine i k p a now s = Inr (l, t) \<Longrightarrow> answers_kept s t"
  unfolding updateQuoteLine_def by (elim bindE_InrE, clarsimp, erule (1) answers_edit_lines, simp)

lemma answers_removeQuoteLine: "removeQuoteLine i k a now s = Inr (u, t) \<Longrightarrow> answers_kept s t"
  unfolding removeQuoteLine_def by (elim bindE_InrE, clarsimp, erule (1) answers_edit_lines, simp)

lemma sendQuote_quotes:
  assumes "sendQuote sign hostname env i a now s = (res, t)"
  obtains (same) "db_quotes t = db_quotes s" "outside s t"
  | (sent) q number partner where "outside s t" "db_quotes t = updateWhere (\<lambda>r. q_id r = q_id q \<and> q_status r = Quote_draft)
      (sentFields q number partner now) (db_quotes s)"
proof -
  show thesis
  proof (cases "getQuote i a s")
    case (Inl e) then show ?thesis using assms by (intro same) (auto simp: sendQuote_def)
  next
    case (Inr y)
    obtain q z where y: "y = (q, z)" by (cases y)
    obtain r s1 where al: "allocateQuoteCounter (q_partnerId q) (quoteYear q now) s = (r, s1)" by fastforce
    have s1: "db_quotes s1 = db_quotes s" "outside s s1"
      using al by (auto simp: allocateQuoteCounter_def outside_def same_tables_def split: prod.splits)
    have claim: "outside s s2 \<and> db_quotes s2 = updateWhere (\<lambda>r. q_id r = q_id q \<and> q_status r = Quote_draft)
        (sentFields q n (partnerOf s1 (q_partnerId q)) now) (db_quotes s)" if "sendClaim q n now s1 = Inr s2" for n s2
      using that s1 by (auto simp: sendClaim_def Let_def guard_simps outside_def same_tables_def)
    consider "t = s" | "t = s1" | n where "sendClaim q n now s1 = Inr t"
      using assms unfolding sendQuote_def Inr y sum.case prod.case al
      by (auto split: if_splits sum.splits simp: guard_simps)
    then show ?thesis using s1 claim same sent by cases auto
  qed
qed

lemma answers_sendQuote:
  assumes "sendQuote sign hostname env i a now s = (res, t)"
  shows "answers_kept s t"
  using assms
proof (cases rule: sendQuote_quotes)
  case same then show ?thesis by (intro answers_same)
next
  case (sent q number partner)
  then show ?thesis by (intro answers_updateWhere[OF _ _ sent(2)]) (auto simp: sentFields_def final_def)
qed

lemma viewRead_eq: "viewRead i g s = Some q \<longleftrightarrow> quoteOf s i = Some q \<and> q_orgId q = g"
  by (auto simp: viewRead_def split: option.splits)

lemma answers_markQuoteViewed: "answers_kept s (markQuoteViewed i g now s)"
proof (cases "viewRead i g s")
  case None then show ?thesis by (simp add: markQuoteViewed_def)
next
  case (Some q)
  then have q: "quoteOf s i = Some q" "q_id q = i" by (auto simp: viewRead_eq dest: quoteOf_id)
  have "q_id (viewFields q now r) = q_id r" for r by (simp add: viewFields_def)
  then show ?thesis using Some q
    by (auto simp: markQuoteViewed_def viewWrite_def answers_kept_def quoteOf_update) (auto simp: viewFields_def final_def)
qed

lemma declineRead_eq [guard_simps]:
  "declineRead i a now s = Inr q \<longleftrightarrow> quoteOf s i = Some q \<and> orgAccessible a (q_orgId q) \<and> openForAnswer q \<and>
     \<not> isQuoteExpired (q_expiryDate q) now"
  by (auto simp: declineRead_def getQuote_def assertOrg_def guard_simps)

lemma open_not_final: "openForAnswer q \<Longrightarrow> \<not> final (q_status q)"
  by (auto simp: openForAnswer_def final_def)

lemma answers_declineQuoteByActor: "declineQuoteByActor i reason a now s = Inr (q, t) \<Longrightarrow> answers_kept s t"
  unfolding declineQuoteByActor_def Let_def
  by (auto simp: guard_simps declineFields_def intro!: answers_updateQuotes dest: open_not_final)

lemma answers_expireQuotes: "answers_kept s (snd (expireQuotes now s))"
  by (rule answers_updateWhere) (auto simp: expireQuotes_def Let_def dest: open_not_final)

lemma answers_acceptQuote:
  assumes "acceptQuote digest p now s = Inr (r, t)"
  shows "answers_kept s t"
  unfolding answers_kept_def
proof (intro allI impI)
  fix i q assume q: "quoteOf s i = Some q \<and> final (q_status q)"
  have "i \<noteq> ap_quoteId p" using assms q by (cases rule: acceptQuote_cases) (auto dest: open_not_final)
  then have "map_option unlinked (quoteOf t i) = Some (unlinked q)" using acceptQuote_quote(2)[OF assms refl] q by auto
  then obtain q' where "quoteOf t i = Some q'" "unlinked q' = unlinked q" by auto
  moreover have "q_status (unlinked x) = q_status x" for x by (simp add: unlinked_def)
  ultimately show "\<exists>q'. quoteOf t i = Some q' \<and> q_status q' = q_status q" by metis
qed

subsection \<open>Runs of the service\<close>

text \<open>
  A call of the quote service, a run of the expiry sweep, or a call of the services below it, which
  leave the quotes alone but for the link to a deleted invoice.
\<close>

inductive quote_step :: "db \<Rightarrow> db \<Rightarrow> bool" where
  "createQuote input a now s = Inr (q, t) \<Longrightarrow> quote_step s t"
| "updateQuote i p a now s = Inr (q, t) \<Longrightarrow> quote_step s t"
| "deleteDraftQuote i a s = Inr (u, t) \<Longrightarrow> quote_step s t"
| "addBlock i bt content a s = Inr (b, t) \<Longrightarrow> quote_step s t"
| "deleteBlock i k a now s = Inr (u, t) \<Longrightarrow> quote_step s t"
| "addManualQuoteLine i linput a now s = Inr (l, t) \<Longrightarrow> quote_step s t"
| "addCatalogQuoteLine i c qty bl a now s = Inr (l, t) \<Longrightarrow> quote_step s t"
| "updateQuoteLine i k lpatch a now s = Inr (l, t) \<Longrightarrow> quote_step s t"
| "removeQuoteLine i k a now s = Inr (u, t) \<Longrightarrow> quote_step s t"
| "sendQuote sign hostname env i a now s = (res, t) \<Longrightarrow> quote_step s t"
| "quote_step s (markQuoteViewed i g now s)"
| "declineQuoteByActor i reason a now s = Inr (q, t) \<Longrightarrow> quote_step s t"
| "quote_step s (snd (expireQuotes now s))"
| "acceptQuote digest ap now s = Inr (r, t) \<Longrightarrow> 0 \<le> getUTCFullYear now \<Longrightarrow> quote_step s t"
| billing: "contract_step s t \<Longrightarrow> map unlinked (db_quotes t) = map unlinked (db_quotes s) \<Longrightarrow> quote_step s t"

lemmas quote_answers = answers_createQuote answers_updateQuote answers_deleteDraftQuote answers_addBlock answers_deleteBlock
  answers_addManualQuoteLine answers_addCatalogQuoteLine answers_updateQuoteLine answers_removeQuoteLine answers_sendQuote
  answers_declineQuoteByActor answers_acceptQuote answers_unlinked

lemma quote_step_answers: "quote_step s t \<Longrightarrow> answers_kept s t"
  by (induction rule: quote_step.induct)
     (auto dest: quote_answers intro: answers_markQuoteViewed answers_expireQuotes)

lemma quote_run_answers: "quote_step\<^sup>*\<^sup>* s t \<Longrightarrow> answers_kept s t"
  by (induction rule: rtranclp_induct) (auto intro: answers_trans quote_step_answers)

lemma outside_recompute: "recomputeAndPersist i now s = Inr t \<Longrightarrow> outside s t"
  by (erule recomputeAndPersist_eq) simp

lemma outside_quoteTables:
  "outside s (s \<lparr> db_next := Suc (db_next s), db_quotes := x \<rparr>)" "outside s (s \<lparr> db_next := Suc (db_next s), db_quoteBlocks := y \<rparr>)"
  "outside s (s \<lparr> db_next := Suc (db_next s), db_quoteLines := z \<rparr>)" "outside s (s \<lparr> db_quoteLines := z \<rparr>)"
  "outside s (s \<lparr> db_quoteLines := z, db_quoteBlocks := y, db_quoteLines := w \<rparr>)" "outside s (s \<lparr> db_quotes := x \<rparr>)"
  "outside s (s \<lparr> db_quotes := x, db_quoteBlocks := y, db_quoteLines := z, db_quoteAcceptances := v \<rparr>)"
  by (simp_all add: outside_def same_tables_def)

lemma outside_edit: "recomputeAndPersist i now u = Inr t \<Longrightarrow> outside s u \<Longrightarrow> outside s t"
  using outside_recompute outside_trans by blast

lemma outside_insertQuoteLine: "insertQuoteLine l now s = Inr (x, t) \<Longrightarrow> outside s t"
  unfolding insertQuoteLine_def by (elim bindE_InrE, clarsimp, erule outside_edit) (rule outside_quoteTables)

lemma quote_outside:
  "createQuote input a now s = Inr (q, t) \<Longrightarrow> outside s t" "updateQuote i p a now s = Inr (q, t) \<Longrightarrow> outside s t"
  "deleteDraftQuote i a s = Inr (u, t) \<Longrightarrow> outside s t" "addBlock i bt content a s = Inr (b, t) \<Longrightarrow> outside s t"
  "deleteBlock i k a now s = Inr (u, t) \<Longrightarrow> outside s t" "addManualQuoteLine i linput a now s = Inr (l, t) \<Longrightarrow> outside s t"
  "addCatalogQuoteLine i c qty bl a now s = Inr (l, t) \<Longrightarrow> outside s t" "updateQuoteLine i k lpatch a now s = Inr (l, t) \<Longrightarrow> outside s t"
  "removeQuoteLine i k a now s = Inr (u, t) \<Longrightarrow> outside s t" "declineQuoteByActor i reason a now s = Inr (q, t) \<Longrightarrow> outside s t"
  subgoal by (auto simp: createQuote_def Let_def guard_simps outside_quoteTables)
  subgoal unfolding updateQuote_def by (elim bindE_InrE, clarsimp, erule outside_edit) simp
  subgoal by (auto simp: deleteDraftQuote_def guard_simps outside_quoteTables)
  subgoal by (auto simp: addBlock_def Let_def guard_simps outside_quoteTables)
  subgoal unfolding deleteBlock_def Let_def by (elim bindE_InrE, clarsimp, erule outside_edit) (simp add: outside_def same_tables_def)
  subgoal unfolding addManualQuoteLine_def by (elim bindE_InrE) (erule outside_insertQuoteLine)
  subgoal unfolding addCatalogQuoteLine_def by (elim bindE_InrE) (erule outside_insertQuoteLine)
  subgoal unfolding updateQuoteLine_def by (elim bindE_InrE, clarsimp, erule outside_edit) (simp add: outside_quoteTables)
  subgoal unfolding removeQuoteLine_def by (elim bindE_InrE, clarsimp, erule outside_edit) (simp add: outside_quoteTables)
  subgoal by (auto simp: declineQuoteByActor_def Let_def guard_simps)
  done

lemma outside_sendQuote: "sendQuote sign hostname env i a now s = (res, t) \<Longrightarrow> outside s t"
  by (erule sendQuote_quotes)

lemma outside_views: "outside s (markQuoteViewed i g now s)" "outside s (snd (expireQuotes now s))"
  by (simp_all add: markQuoteViewed_def viewWrite_def expireQuotes_def Let_def outside_quoteTables split: option.split)

lemma quote_step_refines: "quote_step s t \<Longrightarrow> refines s t"
  by (induction rule: quote_step.induct)
     (auto dest: quote_outside outside_sendQuote refines_acceptQuote contract_step_refines intro: outside_views refines_outside)

interpretation quoting: ledger_client False quote_step
  by unfold_locales (rule quote_step_refines)

text \<open>
  (C6) A quote is accepted at most once: after a successful acceptance, whatever further calls of the quote,
  contract and invoice services follow, each running without overlap, every later acceptance of that quote is refused
  with 409. So one quote never yields two invoices.
\<close>

theorem accepted_at_most_once:
  assumes "acceptQuote digest p now s = Inr (r, s1)" "quote_step\<^sup>*\<^sup>* s1 s2" "ap_quoteId p' = ap_quoteId p"
  shows "acceptQuote digest' p' later s2 = Inl (QuoteErr 409 Q_INVALID_STATE)"
proof -
  have "\<exists>q'. quoteOf s1 (ap_quoteId p) = Some q' \<and> q_status q' = Quote_converted"
    using acceptQuote_quote(1)[OF assms(1)] by (auto simp: convertedQuote_def)
  then obtain q2 where q2: "quoteOf s2 (ap_quoteId p) = Some q2" "q_status q2 = Quote_converted"
    using quote_run_answers[OF assms(2)] unfolding answers_kept_def final_def by metis
  then have "acceptGuard (ap_quoteId p') later s2 = Inl (QuoteErr 409 Q_INVALID_STATE)"
    using assms(3) by (simp add: acceptGuard_def openForAnswer_def)
  then show ?thesis by (simp add: acceptQuote_def)
qed

section \<open>Acceptance succeeds\<close>

text \<open>What the database and the date arithmetic need of a quote: its amounts fit their columns, its terms are positive.\<close>

definition convertible :: "db \<Rightarrow> quote \<Rightarrow> quote_line list \<Rightarrow> bool" where
  "convertible s q ls \<longleftrightarrow> orgOfPartner (q_orgId q) (q_partnerId q) s \<and>
     (\<forall>l \<in> set (oneTimeLines ls). lineFits (lineRow 0 0 0 0 (convertedLine l))) \<and>
     (let t = convertedTotals (oneTimeLines ls) (q_taxRate q) in moneyFits (subtotal t) \<and> moneyFits (taxTotal t) \<and> moneyFits (total t)) \<and>
     (\<forall>l \<in> set ls. moneyFits (numeric2 (ql_unitPrice l)) \<and> moneyFits (numeric2 (ql_quantity l)) \<and>
        (case ql_termMonths l of None \<Rightarrow> True | Some m \<Rightarrow> 1 \<le> m))"

lemma materializeLines_succeeds:
  "(\<And>p. p \<in> set ps \<Longrightarrow> lineFits (lineRow 0 0 0 0 p)) \<Longrightarrow> \<exists>t. materializeLines i g ps n s = Inr t"
proof (induction ps arbitrary: n s)
  case (Cons p ps)
  have "lineFits (lineRow (db_next s) i g n p)" using Cons.prems[of p] by (simp add: lineFits_def lineRow_def)
  then show ?case using Cons by (simp add: insertLine_def)
qed simp

lemma specLines_succeeds:
  "(\<And>l. l \<in> set ls \<Longrightarrow> moneyFits (numeric2 (cls_unitPrice l)) \<and> (\<exists>v. cls_manualQuantity l = Some v \<and> moneyFits (numeric2 v))) \<Longrightarrow>
   \<exists>t. specLines i g n ls s = Inr t"
proof (induction ls arbitrary: n s)
  case (Cons l ls)
  then have "\<exists>u. insertContractLine (contractLineRow (db_next s) i g n l) s = Inr u"
    by (fastforce simp: insertContractLine_def contractLineRow_def)
  then show ?case using Cons by auto
qed simp

lemma createContracts_succeeds:
  "(\<And>spec l. spec \<in> set specs \<Longrightarrow> 0 < ncs_intervalMonths spec \<and> (l \<in> set (ncs_lines spec) \<longrightarrow>
      moneyFits (numeric2 (cls_unitPrice l)) \<and> (\<exists>v. cls_manualQuantity l = Some v \<and> moneyFits (numeric2 v)))) \<Longrightarrow>
   \<exists>ids t. createContracts specs now s = Inr (ids, t)"
proof (induction specs arbitrary: s)
  case (Cons spec specs)
  let ?c = "specContract (db_next s) spec now"
  let ?u = "s \<lparr> db_next := Suc (db_next s), db_contracts := insertRow ?c (db_contracts s) \<rparr>"
  have "insertContract ?c s = Inr ?u" using Cons.prems[of spec] by (simp add: insertContract_def specContract_def)
  moreover obtain t where "specLines (c_id ?c) (ncs_orgId spec) 0 (ncs_lines spec) ?u = Inr t"
    using specLines_succeeds[of "ncs_lines spec"] Cons.prems[of spec] by fastforce
  ultimately have "createContractWithLines spec now s = Inr (?c, t)" by (simp add: createContractWithLines_def Let_def)
  moreover obtain ids w where "createContracts specs now t = Inr (ids, w)" using Cons.IH[of t] Cons.prems by fastforce
  ultimately show ?case by simp
qed simp

lemma set_distinctTerms: "t \<in> set (distinctTerms grp) \<longleftrightarrow> (\<exists>l \<in> set grp. qlc_termMonths l = Some t)"
  by (force simp: distinctTerms_def split: option.splits)

lemma cadenceEnd_succeeds:
  assumes "isIsoShape day" "\<And>l m. l \<in> set grp \<Longrightarrow> qlc_termMonths l = Some m \<Longrightarrow> 1 \<le> m"
  shows "\<exists>e. cadenceEnd grp day = Inr e"
proof (cases "\<exists>t. distinctTerms grp = [t]")
  case True
  then obtain t where t: "distinctTerms grp = [t]" by blast
  then have "1 \<le> t" using set_distinctTerms[of t grp] assms(2) by auto
  then have "\<exists>e. addMonthsToDate day t = Inr e" using assms(1) by (simp add: addMonthsToDate_def Let_def split: prod.split)
  then show ?thesis by (auto simp: cadenceEnd_def t)
next
  case False then show ?thesis by (auto simp: cadenceEnd_def split: list.splits)
qed

lemma specs_succeed:
  assumes "isIsoShape day" "\<And>l m. l \<in> set ls \<Longrightarrow> ql_termMonths l = Some m \<Longrightarrow> 1 \<le> m"
  shows "\<exists>specs. buildContractSpecsFromQuote q (map lineForContract ls) day createdBy = Inr specs \<and>
    (\<forall>spec \<in> set specs. 0 < ncs_intervalMonths spec \<and>
      (\<forall>x \<in> set (ncs_lines spec). \<exists>l \<in> set ls. cls_unitPrice x = ql_unitPrice l \<and> cls_manualQuantity x = Some (ql_quantity l)))"
proof -
  let ?g = "\<lambda>k. filter (\<lambda>l. ql_recurrence l = k \<and> ql_customerVisible l) ls"
  have g: "filter (\<lambda>l. qlc_recurrence l = k \<and> qlc_customerVisible l) (map lineForContract ls) = map lineForContract (?g k)" for k
    by (simp add: filter_map o_def lineForContract_def)
  have e: "\<exists>e. cadenceEnd (map lineForContract (?g k)) day = Inr e" for k
    by (rule cadenceEnd_succeeds[OF assms(1)]) (use assms(2) in \<open>auto simp: lineForContract_def\<close>)
  have x: "\<exists>l \<in> set ls. cls_unitPrice x = ql_unitPrice l \<and> cls_manualQuantity x = Some (ql_quantity l)"
    if "x \<in> set (cadenceLines (map lineForContract (?g k)) 0)" for k x
  proof -
    have "list_all (\<lambda>l. l \<in> set ls) (?g k)" by (auto simp: list_all_iff)
    from cadenceLines_rel[OF this, of 0] that show ?thesis by (fastforce simp: list_all2_conv_all_nth in_set_conv_nth)
  qed
  obtain em ea where "cadenceEnd (map lineForContract (?g Rec_monthly)) day = Inr em" "cadenceEnd (map lineForContract (?g Rec_annual)) day = Inr ea"
    using e by blast
  then show ?thesis using x
    by (auto simp: buildContractSpecsFromQuote_def cadences_def g Let_def cadenceSpec_def)
qed

lemma acceptQuote_succeeds:
  assumes "quoteOf s (ap_quoteId p) = Some q" "openForAnswer q" "\<not> isQuoteExpired (q_expiryDate q) now" "js_trim (ap_signerName p) \<noteq> []"
    "isIsoShape (utcDay now)" "convertible s q (quoteLinesOf s (q_id q))" "billing_ok s"
  shows "\<exists>r t. acceptQuote digest p now s = Inr (r, t)"
proof -
  let ?ls = "quoteLinesOf s (q_id q)"
  have id: "q_id q = ap_quoteId p" using assms(1) by (rule quoteOf_id)
  have guard: "acceptGuard (ap_quoteId p) now s = Inr q" using assms(1-3) by (simp add: acceptGuard_eq)
  obtain captured where cap: "capture (ap_signerName p) (ap_signerEmail p) = Inr captured"
    using assms(4) by (simp add: capture_def Let_def)
  define s1 where "s1 = s \<lparr> db_next := Suc (db_next s), db_quoteAcceptances := insertRow (acceptanceRow (db_next s) q p captured
       (computeQuoteSha256 digest q (quoteBlocksOf s (q_id q)) ?ls)) (db_quoteAcceptances s) \<rparr>"
  define v where "v = db_next s1"
  have "orgOfPartner (q_orgId q) (q_partnerId q) s1" using assms(6) by (simp add: convertible_def s1_def orgOfPartner_def)
  then obtain s2 where s2: "insertInvoice (convertedDraft v q p now) s1 = Inr s2" by (simp add: insertInvoice_def)
  obtain s3 where s3: "materializeLines v (q_orgId q) (map convertedLine (oneTimeLines ?ls)) 0 s2 = Inr s3"
    using materializeLines_succeeds[of "map convertedLine (oneTimeLines ?ls)"] assms(6) by (fastforce simp: convertible_def)
  obtain c sq where c: "nextCounter (q_partnerId q) (getUTCFullYear now) (db_invoiceSequences s3) = (c, sq)" by fastforce
  have "db_invoiceSequences s3 = db_invoiceSequences s" using materializeLines_effect(4)[OF s3] s2 by (simp add: insertInvoice_eq s1_def)
  moreover have "0 \<le> seqValue (q_partnerId q, getUTCFullYear now) (db_invoiceSequences s)"
    using assms(7) by (simp add: billing_ok_def ledger_ok_def numbers_ok_def)
  ultimately have "1 \<le> c" using nextCounter_value(1)[OF c] by simp
  then obtain s4 where s4: "settleConverted q v (oneTimeLines ?ls) now s3 = Inr s4"
    using assms(6) c by (cases "oneTimeLines ?ls = []") (simp_all add: settleConverted_def convertible_def Let_def)
  obtain specs where specs: "buildContractSpecsFromQuote (quoteForContract q) (map lineForContract ?ls) (utcDay now) (ap_actorUserId p) = Inr specs"
    and spec: "\<forall>spec \<in> set specs. 0 < ncs_intervalMonths spec \<and>
      (\<forall>x \<in> set (ncs_lines spec). \<exists>l \<in> set ?ls. cls_unitPrice x = ql_unitPrice l \<and> cls_manualQuantity x = Some (ql_quantity l))"
    using specs_succeed[OF assms(5), of ?ls "quoteForContract q"] assms(6) by (fastforce simp: convertible_def)
  obtain ids t where t: "createContracts specs now (updateQuotes (q_id q) (convertedQuote v now) s4) = Inr (ids, t)"
    using createContracts_succeeds[of specs] spec assms(6) by (fastforce simp: convertible_def)
  have k: "keeps s1 s4" using keeps_insertInvoice[OF s2] keeps_materializeLines[OF s3] keeps_settleConverted[OF s4] keeps_trans by blast
  have "map_option unlinked (quoteOf s4 (q_id q)) = map_option unlinked (quoteOf s (q_id q))"
    using quoteOf_unlinked[OF keepsD(6)[OF k]] by (simp add: s1_def quoteOf_def)
  then obtain q4 where "quoteOf s4 (q_id q) = Some q4" using assms(1) id by auto
  moreover have "q_id (convertedQuote v now x) = q_id x" for x by (simp add: convertedQuote_def)
  ultimately have "\<exists>q'. quoteOf (updateQuotes (q_id q) (convertedQuote v now) s4) (q_id q) = Some q'" by (simp add: quoteOf_update)
  then obtain q' where q': "quoteOf t (q_id q) = Some q'" using createContracts_quotes[OF t] by (auto simp: quoteOf_def)
  have di: "inv_id (convertedDraft (db_next s1) q p now) = v" by (simp add: v_def)
  show ?thesis
    unfolding acceptQuote_def guard cap bindE_simps Let_def
    unfolding s1_def[symmetric] di unfolding v_def[symmetric] s2 s3 s4 specs t q' bindE_simps by (simp add: q')
qed

section \<open>A view that overlaps an acceptance\<close>

lemma acceptQuote_lines:
  assumes "acceptQuote digest p now s = Inr (r, t)"
  shows "db_quoteLines t = db_quoteLines s \<and> db_organizations t = db_organizations s"
  using assms
proof (cases rule: acceptQuote_cases)
  case (1 q captured s1 s2 s3 s4 specs ids)
  have "keeps s1 s4" using keeps_insertInvoice[OF 1(5)] keeps_materializeLines[OF 1(6)] keeps_settleConverted[OF 1(7)] keeps_trans by blast
  moreover have "db_organizations s4 = db_organizations s3" using 1(7) by (cases rule: settleConverted_cases) (simp_all add: updateInvoices_def)
  moreover have "db_organizations s3 = db_organizations s" using materializeLines_effect(5)[OF 1(6)] 1(5) by (simp add: insertInvoice_eq 1(4))
  ultimately show ?thesis using createContracts_quotes[OF 1(9)] by (simp add: keeps_def 1(4) updateQuotes_def)
qed

lemma holds_acceptQuote:
  assumes "acceptQuote digest p now s = Inr (r, t)"
  shows "holds_claims s t"
  using assms
proof (cases rule: acceptQuote_cases)
  case (1 q captured s1 s2 s3 s4 specs ids)
  have cc: "createContracts sp now v = Inr (xs, w) \<Longrightarrow> holds_claims v w" for sp v xs w
    by (induction sp arbitrary: v xs)
       (auto simp: bindE_eq_Inr dest!: holds_createContractWithLines intro: holds_trans)
  have "holds_claims s s1" by (rule holds_same) (simp_all add: 1(4) claims_def)
  also have "keeps s1 s4" using keeps_insertInvoice[OF 1(5)] keeps_materializeLines[OF 1(6)] keeps_settleConverted[OF 1(7)] keeps_trans by blast
  then have "holds_claims s1 s4" by (rule holds_keeps)
  also have "holds_claims s4 (updateQuotes (q_id q) (convertedQuote (db_next s1) now) s4)"
    by (rule holds_same) (simp_all add: updateQuotes_def claims_def)
  also have "holds_claims (updateQuotes (q_id q) (convertedQuote (db_next s1) now) s4) t" by (rule cc[OF 1(9)])
  finally show ?thesis .
qed

text \<open>
  A view and an acceptance that overlap reopen the quote. If the view reads the quote as \<open>sent\<close> before the
  acceptance commits and writes afterwards, its update puts the status of the converted quote to \<open>viewed\<close>: the quote can
  be accepted a second time, and a second acceptance bills the same one-time lines on another invoice beside the first.
\<close>

lemma view_race_reopens:
  assumes "billing_ok s" "contracts_ok s" "0 \<le> getUTCFullYear now"
    "viewRead (ap_quoteId p) g s = Some q" "q_status q = Quote_sent" "convertible s q (quoteLinesOf s (q_id q))"
    "acceptQuote digest p now s = Inr (r, s1)"
    "ap_quoteId p' = ap_quoteId p" "js_trim (ap_signerName p') \<noteq> []" "isIsoShape (utcDay later)" "\<not> isQuoteExpired (q_expiryDate q) later"
  shows "\<exists>r' s2. acceptQuote digest' p' later (viewWrite q seen s1) = Inr (r', s2) \<and>
    ar_invoiceId r' \<noteq> ar_invoiceId r \<and> invOf s2 (ar_invoiceId r) \<noteq> None \<and> invOf s2 (ar_invoiceId r') \<noteq> None \<and>
    list_all2 invoicedAs (oneTimeLines (quoteLinesOf s (ap_quoteId p))) (linesOf s2 (ar_invoiceId r)) \<and>
    list_all2 invoicedAs (oneTimeLines (quoteLinesOf s (ap_quoteId p))) (linesOf s2 (ar_invoiceId r'))"
proof -
  let ?w = "viewWrite q seen s1" and ?q = "viewFields q seen (convertedQuote (ar_invoiceId r) now q)"
  have q: "quoteOf s (ap_quoteId p) = Some q" "q_id q = ap_quoteId p" using assms(4) by (auto simp: viewRead_eq dest: quoteOf_id)
  have o: "outside s1 ?w" by (simp add: viewWrite_def)
  have ok: "billing_ok ?w" using assms(1) refines_acceptQuote[OF assms(7,3)] refines_outside[OF o] refines_billing_ok by blast
  have "db_contracts ?w = db_contracts s1" "claims ?w = claims s1" "db_next ?w = db_next s1"
    by (simp_all add: viewWrite_def updateQuotes_def claims_def)
  then have cok: "contracts_ok ?w"
    using holds_acceptQuote[OF assms(7)] assms(2) by (simp add: holds_claims_def contracts_ok_def contractOf_def)
  have "quoteOf s1 (ap_quoteId p) = Some (convertedQuote (ar_invoiceId r) now q)" using acceptQuote_quote(1)[OF assms(7)] q by auto
  moreover have "q_id (viewFields q seen x) = q_id x" for x by (simp add: viewFields_def)
  ultimately have viewed: "quoteOf ?w (ap_quoteId p) = Some ?q" using q by (simp add: viewWrite_def quoteOf_update)
  have sel: "q_id ?q = ap_quoteId p" "openForAnswer ?q" "q_expiryDate ?q = q_expiryDate q" "q_orgId ?q = q_orgId q"
      "q_partnerId ?q = q_partnerId q" "q_taxRate ?q = q_taxRate q"
    using q(2) assms(5) by (simp_all add: viewFields_def convertedQuote_def openForAnswer_def)
  have lines: "quoteLinesOf ?w i = quoteLinesOf s i" for i
    using acceptQuote_lines[OF assms(7)] by (simp add: quoteLinesOf_def viewWrite_def updateQuotes_def)
  have "db_organizations ?w = db_organizations s" using acceptQuote_lines[OF assms(7)] by (simp add: viewWrite_def updateQuotes_def)
  then have "convertible ?w ?q (quoteLinesOf ?w (q_id ?q))"
    using assms(6) q(2) by (simp add: convertible_def lines sel orgOfPartner_def)
  then obtain r' s2 where second: "acceptQuote digest' p' later ?w = Inr (r', s2)"
    using acceptQuote_succeeds[of ?w p' ?q later digest'] viewed sel(2,3) assms(8-11) ok by auto
  have f: "invOf s1 (ar_invoiceId r) \<noteq> None" "list_all2 invoicedAs (oneTimeLines (quoteLinesOf s (ap_quoteId p))) (linesOf s1 (ar_invoiceId r))"
    using acceptQuote_effect[OF assms(7,1,2)] q by auto
  have g: "invOf ?w (ar_invoiceId r') = None" "invOf s2 (ar_invoiceId r') \<noteq> None"
      "list_all2 invoicedAs (oneTimeLines (quoteLinesOf s (ap_quoteId p))) (linesOf s2 (ar_invoiceId r'))"
      "\<forall>j. j \<noteq> ar_invoiceId r' \<longrightarrow> invOf s2 j = invOf ?w j \<and> linesOf s2 j = linesOf ?w j"
    using acceptQuote_effect[OF second ok cok, unfolded lines assms(8)] viewed sel(1) by auto
  have ne: "ar_invoiceId r' \<noteq> ar_invoiceId r" using f(1) g(1) invoices_outside[OF o] by auto
  then have "invOf s2 (ar_invoiceId r) = invOf s1 (ar_invoiceId r)" "linesOf s2 (ar_invoiceId r) = linesOf s1 (ar_invoiceId r)"
    using g(4) invoices_outside[OF o] by simp_all
  then show ?thesis using second f g(2,3) ne by auto
qed

section \<open>Expiry\<close>

text \<open>
  The expiry sweep and the acceptance agree on what is expired: a quote the sweep closes is one that an acceptance at
  that moment would refuse as expired, and a quote that could be accepted is left as it is. When at most 500 quotes are
  due, no quote past its expiry date is still open after the sweep.
\<close>

lemma expiry_sweep_agrees:
  assumes "key_ok q_id n (db_quotes s)" "\<And>q. q \<in> set (db_quotes s) \<Longrightarrow> q_expiryDate q \<noteq> Some []"
  shows "(\<forall>i q. acceptGuard i now s = Inr q \<longrightarrow> quoteOf (snd (expireQuotes now s)) i = Some q) \<and>
    (\<forall>i q. quoteOf s i = Some q \<longrightarrow> openForAnswer q \<longrightarrow> quoteOf (snd (expireQuotes now s)) i \<noteq> Some q \<longrightarrow>
       acceptGuard i now s = Inl (QuoteErr 410 QUOTE_EXPIRED)) \<and>
    (length (selectWhere (pastExpiry (utcDay now)) (db_quotes s)) \<le> 500 \<longrightarrow>
       (\<forall>q \<in> set (db_quotes (snd (expireQuotes now s))). openForAnswer q \<longrightarrow> \<not> isQuoteExpired (q_expiryDate q) now))"
proof -
  define due where "due = set (map q_id (take 500 (sort_key (\<lambda>q. nullish (q_expiryDate q) []) (selectWhere (pastExpiry (utcDay now)) (db_quotes s)))))"
  let ?hit = "\<lambda>q. q_id q \<in> due \<and> openForAnswer q" and ?f = "\<lambda>q. q \<lparr> q_status := Quote_expired, q_updatedAt := now \<rparr>"
  have after: "db_quotes (snd (expireQuotes now s)) = updateWhere ?hit ?f (db_quotes s)" by (simp add: expireQuotes_def due_def Let_def)
  have past: "pastExpiry (utcDay now) q \<longleftrightarrow> openForAnswer q \<and> isQuoteExpired (q_expiryDate q) now" if "q \<in> set (db_quotes s)" for q
    using assms(2)[OF that] by (auto simp: pastExpiry_def isQuoteExpired_def split: option.splits)
  have hit: "isQuoteExpired (q_expiryDate q) now" if qin: "q \<in> set (db_quotes s)" and qhit: "?hit q" for q
  proof -
    obtain d where d: "d \<in> set (db_quotes s)" "pastExpiry (utcDay now) d" "q_id d = q_id q"
      using qhit by (auto simp: due_def set_selectWhere dest!: in_set_takeD)
    then have "d = q" using key_ok_unique[OF assms(1)] qin by blast
    then show ?thesis using past[OF qin] d(2) by simp
  qed
  have sel: "quoteOf (snd (expireQuotes now s)) i = map_option (\<lambda>r. if ?hit r then ?f r else r) (quoteOf s i)" for i
    unfolding quoteOf_def after by (rule selectOne_updateWhere) simp
  have one: "quoteOf (snd (expireQuotes now s)) i = Some q" if "acceptGuard i now s = Inr q" for i q
    using that hit[of q] sel[of i] by (auto simp: acceptGuard_eq quoteOf_def dest!: selectOne_Some)
  have two: "acceptGuard i now s = Inl (QuoteErr 410 QUOTE_EXPIRED)"
    if "quoteOf s i = Some q" "openForAnswer q" "quoteOf (snd (expireQuotes now s)) i \<noteq> Some q" for i q
    using that one[of i q] by (cases "isQuoteExpired (q_expiryDate q) now") (auto simp: acceptGuard_def)
  have three: "\<not> isQuoteExpired (q_expiryDate q) now"
    if small: "length (selectWhere (pastExpiry (utcDay now)) (db_quotes s)) \<le> 500"
      and q: "q \<in> set (db_quotes (snd (expireQuotes now s)))" "openForAnswer q" for q
  proof -
    have "due = q_id ` {q \<in> set (db_quotes s). pastExpiry (utcDay now) q}" using small by (simp add: due_def set_selectWhere)
    moreover obtain x where "x \<in> set (db_quotes s)" "q = (if ?hit x then ?f x else x)" using q(1) by (auto simp: after set_updateWhere)
    ultimately show ?thesis using q(2) past[of x] by (auto simp: openForAnswer_def split: if_splits)
  qed
  show ?thesis using one two three by blast
qed

section \<open>The end date of a contract\<close>

text \<open>
  A line without a commitment term does not keep its contract open-ended: adding such a line to a cadence
  group leaves the computed end date as it is, so a group of a 12-month line and an open-ended line ends after 12 months.
  The comment of the code says that an end date is set only when every line agrees on one term.
\<close>

lemma open_term_ignored:
  "qlc_termMonths l = None \<Longrightarrow> cadenceEnd (xs @ l # ys) startDate = cadenceEnd (xs @ ys) startDate"
  by (simp add: cadenceEnd_def distinctTerms_def)

section \<open>The signed content\<close>

text \<open>
  The hash that a signature stores depends on the quote's content only: blocks and lines that the database
  returns in another order give the same digest, whatever the digest function.
\<close>

theorem content_hash_order_free:
  assumes "mset blocks = mset blocks'" "mset ls = mset ls'" "distinct (map qb_id blocks)" "distinct (map ql_id ls)"
  shows "computeQuoteSha256 digest q blocks ls = computeQuoteSha256 digest q blocks' ls'"
proof -
  have "sort_key (\<lambda>b. (qb_sortOrder b, qb_id b)) blocks = sort_key (\<lambda>b. (qb_sortOrder b, qb_id b)) blocks'"
    by (rule sort_key_inj_key_eq) (use assms(1,3) in \<open>auto simp: inj_on_def distinct_map\<close>)
  moreover have "sort_key (\<lambda>l. (ql_sortOrder l, ql_id l)) ls = sort_key (\<lambda>l. (ql_sortOrder l, ql_id l)) ls'"
    by (rule sort_key_inj_key_eq) (use assms(2,4) in \<open>auto simp: inj_on_def distinct_map\<close>)
  ultimately show ?thesis by (simp add: computeQuoteSha256_def canonicalQuote_def)
qed

section \<open>A worked quote\<close>

text \<open>A sent offer with a setup fee of 150 and a monthly service of 150 for a year.\<close>

definition offer :: quote where
  "offer = \<lparr> q_id = 60, q_partnerId = 10, q_orgId = 20, q_siteId = None, q_quoteNumber = Some ''Q-2025-0001'', q_status = Quote_sent,
     q_currencyCode = ''USD'', q_issueDate = Some ''2025-06-10'', q_expiryDate = Some ''2025-06-30'', q_acceptedAt = None,
     q_declinedAt = None, q_convertedAt = None, q_subtotal = 300, q_taxRate = None, q_taxTotal = 0, q_total = 300,
     q_oneTimeTotal = 150, q_monthlyRecurringTotal = 150, q_annualRecurringTotal = 0, q_billToName = None,
     q_billToAddress = None, q_billToTaxId = None, q_introNotes = None, q_terms = None, q_sellerSnapshot = None,
     q_termsAndConditions = None, q_declineReason = None, q_convertedInvoiceId = None, q_sentAt = Some 0,
     q_firstViewedAt = None, q_viewedAt = None, q_createdBy = Some 7, q_createdAt = 0, q_updatedAt = 0 \<rparr>"

definition offer_line :: "uuid \<Rightarrow> recurrence \<Rightarrow> int option \<Rightarrow> int \<Rightarrow> quote_line" where
  "offer_line k rec term ord = \<lparr> ql_id = k, ql_quoteId = 60, ql_blockId = None, ql_orgId = 20, ql_sourceType = QSrc_manual,
     ql_catalogItemId = None, ql_description = ''Service'', ql_quantity = 1, ql_unitPrice = 150, ql_taxable = False,
     ql_customerVisible = True, ql_lineTotal = 150, ql_recurrence = rec, ql_termMonths = term, ql_billingFrequency = None,
     ql_sortOrder = ord \<rparr>"

definition offered :: db where
  "offered = day0 \<lparr> db_quotes := [offer],
     db_quoteLines := [offer_line 61 Rec_one_time None 0, offer_line 62 Rec_monthly (Some 12) 1] \<rparr>"

definition signed :: accept_params where
  "signed = \<lparr> ap_quoteId = 60, ap_signerName = ''Ann'', ap_signerEmail = None, ap_ipAddress = None, ap_userAgent = None,
     ap_acceptanceTokenJti = None, ap_actorUserId = None \<rparr>"

lemma offered_quote: "quoteOf offered 60 = Some offer"
  by (simp add: quoteOf_def offered_def selectOne_def) (simp add: offer_def)

lemma offer_sel: "q_id offer = 60" "q_status offer = Quote_sent" "openForAnswer offer" "q_expiryDate offer = Some ''2025-06-30''" "q_orgId offer = 20"
  by (simp_all add: offer_def openForAnswer_def)

lemma offered_ok: "billing_ok offered" "contracts_ok offered"
proof -
  show "billing_ok offered"
    using day0_ok refines_billing_ok[OF refines_frame[of day0 offered]] by (simp add: offered_def same_tables_def)
  show "contracts_ok offered"
    by (simp add: contracts_ok_def claims_def offered_def) (simp add: day0_def empty_db_def key_ok_def)
qed

lemma offer_convertible: "convertible offered offer (quoteLinesOf offered 60)"
proof -
  have ls: "quoteLinesOf offered 60 = [offer_line 61 Rec_one_time None 0, offer_line 62 Rec_monthly (Some 12) 1]"
    by (simp add: quoteLinesOf_def offered_def statement_defs offer_line_def)
  have o: "oneTimeLines (quoteLinesOf offered 60) = [offer_line 61 Rec_one_time None 0]" by (simp add: ls oneTimeLines_def offer_line_def)
  have "computeLineTotal 1 150 = 150" by (simp add: computeLineTotal_def js_simps)
  then have "convertedTotals [offer_line 61 Rec_one_time None 0] None = \<lparr> subtotal = 150, taxTotal = 0, total = 150 \<rparr>"
      "lineFits (lineRow 0 0 0 0 (convertedLine (offer_line 61 Rec_one_time None 0)))"
    by (simp_all add: convertedTotals_def offer_line_def computeInvoiceTotals_def js_simps lineFits_def lineRow_def convertedLine_def)
  moreover have "orgOfPartner (q_orgId offer) (q_partnerId offer) offered" "q_taxRate offer = None"
    by (simp_all add: offer_def orgOfPartner_def offered_def day0_sel acme_sel)
  moreover have "ql_unitPrice (offer_line k x y z) = 150" "ql_quantity (offer_line k x y z) = 1" "ql_termMonths (offer_line k x y z) = y" for k x y z
    by (simp_all add: offer_line_def)
  ultimately show ?thesis by (simp add: convertible_def o) (simp add: ls js_simps)
qed

lemma offer_dates: "isIsoShape (utcDay noon)" "\<not> isQuoteExpired (Some ''2025-06-30'') noon"
  by (simp_all add: noon_day isQuoteExpired_def, code_simp)

lemma signed_sel: "ap_quoteId signed = 60" "js_trim (ap_signerName signed) \<noteq> []"
  by (simp add: signed_def) (simp add: signed_def, code_simp)

lemma offer_accepted: "\<exists>r t. acceptQuote digest signed noon offered = Inr (r, t)"
  by (rule acceptQuote_succeeds[where q = offer])
     (simp_all add: signed_sel offered_quote offer_sel offer_dates offer_convertible offered_ok)

theorem acceptQuote_converts_witness:
  "\<exists>r t. acceptQuote (\<lambda>_. ''digest'') signed noon offered = Inr (r, t) \<and>
    (\<exists>w. invOf t (ar_invoiceId r) = Some w \<and> inv_orgId w = 20 \<and>
       inv_total w = qt_dueOnAcceptanceTotal (quoteTotalsOf (quoteLinesOf offered 60) (q_taxRate offer))) \<and>
    (\<exists>xs. db_contractLines t = db_contractLines offered @ xs \<and> list_all2 (contracted t offer) (recurringLines (quoteLinesOf offered 60)) xs)"
proof -
  obtain r t where a: "acceptQuote (\<lambda>_. ''digest'') signed noon offered = Inr (r, t)" using offer_accepted by blast
  from acceptQuote_converts[OF a offered_ok] show ?thesis using a by (auto simp: signed_sel offered_quote offer_sel)
qed

theorem accepted_at_most_once_witness:
  "\<exists>r t. acceptQuote (\<lambda>_. ''digest'') signed noon offered = Inr (r, t) \<and>
    acceptQuote (\<lambda>_. ''digest'') signed july t = Inl (QuoteErr 409 Q_INVALID_STATE)"
proof -
  obtain r t where a: "acceptQuote (\<lambda>_. ''digest'') signed noon offered = Inr (r, t)" using offer_accepted by blast
  from accepted_at_most_once[OF a rtranclp.rtrancl_refl refl] a show ?thesis by blast
qed

lemma view_race_reopens_witness:
  "\<exists>r s1 r' s2. acceptQuote (\<lambda>_. ''digest'') signed noon offered = Inr (r, s1) \<and>
    acceptQuote (\<lambda>_. ''digest'') signed noon (viewWrite offer noon s1) = Inr (r', s2) \<and>
    ar_invoiceId r' \<noteq> ar_invoiceId r \<and> invOf s2 (ar_invoiceId r) \<noteq> None \<and> invOf s2 (ar_invoiceId r') \<noteq> None"
proof -
  obtain r s1 where a: "acceptQuote (\<lambda>_. ''digest'') signed noon offered = Inr (r, s1)" using offer_accepted by blast
  have v: "viewRead (ap_quoteId signed) 20 offered = Some offer" by (simp add: viewRead_def signed_sel offered_quote offer_sel)
  have y: "0 \<le> getUTCFullYear noon" "convertible offered offer (quoteLinesOf offered (q_id offer))"
    "\<not> isQuoteExpired (q_expiryDate offer) noon"
    by (simp_all add: noon_year offer_sel offer_convertible offer_dates)
  show ?thesis
    using view_race_reopens[OF offered_ok y(1) v offer_sel(2) y(2) a refl signed_sel(2) offer_dates(1) y(3),
        of "\<lambda>_. ''digest''" noon] a by blast
qed

lemma expiry_sweep_agrees_witness:
  "quoteOf (snd (expireQuotes noon offered)) 60 = Some offer \<and>
   acceptGuard 60 july offered = Inl (QuoteErr 410 QUOTE_EXPIRED) \<and>
   filter (\<lambda>q. openForAnswer q \<and> isQuoteExpired (q_expiryDate q) july) (db_quotes (snd (expireQuotes july offered))) = []"
proof -
  have k: "key_ok q_id 100 (db_quotes offered)" "\<And>q. q \<in> set (db_quotes offered) \<Longrightarrow> q_expiryDate q \<noteq> Some []"
    by (auto simp: offered_def key_ok_def offer_sel)
  have p: "pastExpiry (utcDay july) offer" by (simp add: pastExpiry_def offer_sel june_dates)
  have "map_option q_status (quoteOf (snd (expireQuotes july offered)) 60) = Some Quote_expired"
    using p by (simp add: expireQuotes_def Let_def quoteOf_def offered_def statement_defs offer_sel)
  then have e: "quoteOf (snd (expireQuotes july offered)) 60 \<noteq> Some offer" by (auto simp: offer_sel)
  have a: "acceptGuard 60 noon offered = Inr offer" by (simp add: acceptGuard_eq offered_quote offer_sel offer_dates)
  have l: "length (selectWhere (pastExpiry (utcDay july)) (db_quotes offered)) \<le> 500" by (simp add: offered_def statement_defs)
  show ?thesis
    unfolding filter_empty_conv
    using expiry_sweep_agrees[OF k, of noon] expiry_sweep_agrees[OF k, of july] a l offered_quote offer_sel(3) e by blast
qed

lemma year_on_dates:
  "isIsoShape ''2025-06-16''" "(1::int) \<le> 12" "parts ''2025-06-16'' = (2025, 6, 16)" "Date_UTC 2025 (6 - 1) 16 = 20255"
  "yearFromDay 20255 = 2025" "monthFromDay 20255 = 5" "dateFromDay 20255 = 16" "makeDay 2025 (5 + 12) 16 = 20620"
  "isoOfDay 20620 = ''2026-06-16''"
  by code_simp+

lemma open_term_ignored_witness:
  "cadenceEnd [lineForContract (offer_line 62 Rec_monthly (Some 12) 1), lineForContract (offer_line 63 Rec_monthly None 2)] ''2025-06-16'' =
   Inr (Some ''2026-06-16'')"
proof -
  have "qlc_termMonths (lineForContract (offer_line 63 Rec_monthly None 2)) = None" by (simp add: lineForContract_def offer_line_def)
  from open_term_ignored[OF this, of "[lineForContract (offer_line 62 Rec_monthly (Some 12) 1)]" "[]"]
  have "cadenceEnd [lineForContract (offer_line 62 Rec_monthly (Some 12) 1), lineForContract (offer_line 63 Rec_monthly None 2)] ''2025-06-16'' =
     cadenceEnd [lineForContract (offer_line 62 Rec_monthly (Some 12) 1)] ''2025-06-16''" by simp
  moreover have "distinctTerms [lineForContract (offer_line 62 Rec_monthly (Some 12) 1)] = [12]"
    by (simp add: distinctTerms_def lineForContract_def offer_line_def)
  moreover have "addMonthsToDate ''2025-06-16'' 12 = Inr ''2026-06-16''"
    by (simp only: addMonthsToDate_def year_on_dates guardE_def if_True bindE_simps Let_def prod.case)
  ultimately show ?thesis by (simp add: cadenceEnd_def)
qed

end
