(* ===== verification/StripePayments.thy ===== *)
theory StripePayments
  imports QuoteLifecycle
begin

text \<open>
  Online payments: the partner's Stripe key (\<open>partnerStripe.ts\<close>, \<open>stripeConnectService.ts\<close>), the
  checkout link (\<open>invoiceCheckout.ts\<close>, \<open>quotePay.ts\<close>), the reconciliation of captures and refunds
  (\<open>stripeReconcile.ts\<close>), settlement on return (\<open>stripeSettle.ts\<close>), the webhook dispatch
  (\<open>stripeWebhook.ts\<close>) and the sweep of pending sessions (\<open>jobs/stripeReconcileSweep.ts\<close>).
  Stripe itself and the cipher of the stored key are parameters: \<open>decrypt\<close> returns the plain key or
  throws (\<open>None\<close>), \<open>retrieve\<close> and \<open>create\<close> are the calls on checkout sessions. Definitions only.
\<close>

section \<open>The partner's key\<close>

definition getConnectionByAccount :: "string \<Rightarrow> db \<Rightarrow> stripe_account option" where
  "getConnectionByAccount account s = selectOne (\<lambda>c. sa_stripeAccountId c = account) (db_stripeAccounts s)"

definition markDisconnectedByAccount :: "string \<Rightarrow> instant \<Rightarrow> db \<Rightarrow> db" where
  "markDisconnectedByAccount account now s = s \<lparr> db_stripeAccounts := updateWhere (\<lambda>c. sa_stripeAccountId c = account)
     (\<lambda>c. c \<lparr> sa_status := Conn_disconnected, sa_disconnectedAt := Some now, sa_updatedAt := now \<rparr>) (db_stripeAccounts s) \<rparr>"

definition lastFour :: "string \<Rightarrow> string" where
  "lastFour t = drop (length t - 4) t"

definition isLiveKey :: "string \<Rightarrow> bool" where
  "isLiveKey k \<longleftrightarrow> take 7 k = ''sk_live'' \<or> take 7 k = ''rk_live''"

definition accountRow :: "uuid \<Rightarrow> string \<Rightarrow> string \<Rightarrow> string \<Rightarrow> uuid option \<Rightarrow> instant \<Rightarrow> stripe_account" where
  "accountRow partnerId accountId apiKey encrypted userId now = \<lparr> sa_partnerId = partnerId, sa_stripeAccountId = accountId,
     sa_livemode = isLiveKey apiKey, sa_status = Conn_connected, sa_apiKey = Some encrypted,
     sa_keyLast4 = Some (lastFour apiKey), sa_connectedBy = userId, sa_connectedAt = now, sa_disconnectedAt = None,
     sa_updatedAt = now \<rparr>"

text \<open>
  \<open>probe\<close> is the account a key belongs to, \<open>None\<close> when Stripe rejects it; \<open>encrypt\<close> the cipher. The
  upsert resolves conflicts on the partner; an account of another partner trips the second index.
\<close>

definition savePartnerStripeKey ::
    "(string \<Rightarrow> string option) \<Rightarrow> (string \<Rightarrow> string) \<Rightarrow> uuid \<Rightarrow> string \<Rightarrow> uuid option \<Rightarrow> instant \<Rightarrow> db \<Rightarrow> (string \<times> string \<times> bool) svc" where
  "savePartnerStripeKey probe encrypt partnerId input userId now s =
     (let apiKey = js_trim input
      in bindE (ofOption (StripeErr 400 INVALID_STRIPE_KEY) (probe apiKey)) (\<lambda>accountId.
         bindE (guardE (\<forall>c \<in> set (db_stripeAccounts s). sa_stripeAccountId c = accountId \<longrightarrow> sa_partnerId c = partnerId)
           (StripeErr 400 INVALID_STRIPE_KEY)) (\<lambda>_.
         let row = accountRow partnerId accountId apiKey (encrypt apiKey) userId now
         in Inr ((accountId, lastFour apiKey, isLiveKey apiKey), s \<lparr> db_stripeAccounts :=
              (if \<exists>c \<in> set (db_stripeAccounts s). sa_partnerId c = partnerId
               then updateWhere (\<lambda>c. sa_partnerId c = partnerId) (\<lambda>_. row) (db_stripeAccounts s)
               else insertRow row (db_stripeAccounts s)) \<rparr>))))"

definition getPartnerStripeClient :: "(string \<Rightarrow> string option) \<Rightarrow> uuid \<Rightarrow> db \<Rightarrow> svc_error + (string \<times> string)" where
  "getPartnerStripeClient decrypt partnerId s = (case getConnection partnerId s of
     None \<Rightarrow> Inl (StripeErr 409 NO_STRIPE_KEY)
   | Some row \<Rightarrow>
       bindE (guardE (sa_status row = Conn_connected \<and> isPgText (sa_apiKey row)) (StripeErr 409 NO_STRIPE_KEY)) (\<lambda>_.
       bindE (ofOption (StripeErr 500 STRIPE_KEY_UNREADABLE) (decrypt (nullish (sa_apiKey row) []))) (\<lambda>key.
       bindE (guardE (key \<noteq> []) (StripeErr 500 STRIPE_KEY_UNREADABLE)) (\<lambda>_. Inr (key, sa_stripeAccountId row)))))"

datatype partner_stripe_status = StripeDisconnected "string option" | StripeConnected string "string option" bool

definition getPartnerStripeStatus :: "uuid \<Rightarrow> db \<Rightarrow> partner_stripe_status" where
  "getPartnerStripeStatus partnerId s = (case getConnection partnerId s of
     None \<Rightarrow> StripeDisconnected None
   | Some row \<Rightarrow> if sa_status row = Conn_connected \<and> isPgText (sa_apiKey row)
       then StripeConnected (sa_stripeAccountId row) (sa_keyLast4 row) (sa_livemode row)
       else StripeDisconnected (sa_keyLast4 row))"

definition disconnectPartnerStripe :: "uuid \<Rightarrow> instant \<Rightarrow> db \<Rightarrow> db" where
  "disconnectPartnerStripe partnerId now s = s \<lparr> db_stripeAccounts := updateWhere (\<lambda>c. sa_partnerId c = partnerId)
     (\<lambda>c. c \<lparr> sa_status := Conn_disconnected, sa_apiKey := None, sa_keyLast4 := None, sa_disconnectedAt := Some now,
        sa_updatedAt := now \<rparr>) (db_stripeAccounts s) \<rparr>"

section \<open>Checkout\<close>

record checkout_session =
  cs_id :: string
  cs_url :: "string option"
  cs_paid :: bool
  cs_paymentIntent :: "string option"
  cs_amountTotal :: "int option"
  cs_currency :: "string option"

text \<open>What the session is created from; the idempotency key is made of the invoice and the amount.\<close>

record session_request =
  sr_currency :: string
  sr_unitAmount :: jsnum
  sr_invoiceId :: uuid
  sr_orgId :: uuid
  sr_partnerId :: uuid
  sr_idempotencyKey :: "uuid \<times> jsnum"

definition toLowerChar :: "char \<Rightarrow> char" where
  "toLowerChar c = (if 65 \<le> (of_char c :: int) \<and> (of_char c :: int) \<le> 90 then char_of ((of_char c :: int) + 32) else c)"

definition isPayable :: "invoice_status \<Rightarrow> bool" where
  "isPayable st \<longleftrightarrow> st = Inv_sent \<or> st = Inv_partially_paid \<or> st = Inv_overdue"

definition moneyError :: "stripe_money_error + 'a \<Rightarrow> svc_error + 'a" where
  "moneyError m = (case m of Inl e \<Rightarrow> Inl (JsError ''non-finite amount'') | Inr x \<Rightarrow> Inr x)"

definition stripeClientOr409 :: "(string \<Rightarrow> string option) \<Rightarrow> uuid \<Rightarrow> db \<Rightarrow> svc_error + (string \<times> string)" where
  "stripeClientOr409 decrypt partnerId s = (case getPartnerStripeClient decrypt partnerId s of
     Inr c \<Rightarrow> Inr c
   | Inl e \<Rightarrow> if e = StripeErr 409 NO_STRIPE_KEY then Inl (InvoiceErr 409 STRIPE_NOT_CONNECTED)
              else Inl (InvoiceErr 500 STRIPE_INIT_FAILED))"

definition pendingMapping :: "uuid \<Rightarrow> invoice \<Rightarrow> string \<Rightarrow> checkout_session \<Rightarrow> instant \<Rightarrow> stripe_payment" where
  "pendingMapping i invc account session now = \<lparr> sp_id = i, sp_orgId = inv_orgId invc, sp_invoiceId = inv_id invc,
     sp_invoicePaymentId = None, sp_stripeAccountId = account, sp_objectType = Obj_checkout_session,
     sp_objectId = cs_id session, sp_paymentIntentId = cs_paymentIntent session,
     sp_amount = toFixed 2 (js_Number (inv_balance invc)), sp_currency = inv_currencyCode invc, sp_status = Sp_pending,
     sp_lastEventAt = None, sp_createdAt = now, sp_updatedAt = now \<rparr>"

text \<open>An insert into \<open>invoice_stripe_payments\<close>, with its unique index on the Stripe object.\<close>

definition insertMapping :: "stripe_payment \<Rightarrow> db \<Rightarrow> svc_error + db" where
  "insertMapping m s =
     bindE (guardE (sp_objectId m \<notin> set (map sp_objectId (db_stripePayments s))) (JsError ''unique violation'')) (\<lambda>_.
     Inr (s \<lparr> db_next := Suc (db_next s), db_stripePayments := insertRow m (db_stripePayments s) \<rparr>))"

definition createInvoicePayLink ::
    "(string \<Rightarrow> string option) \<Rightarrow> (string \<Rightarrow> session_request \<Rightarrow> svc_error + checkout_session) \<Rightarrow>
     uuid \<Rightarrow> actor \<Rightarrow> instant \<Rightarrow> db \<Rightarrow> string svc" where
  "createInvoicePayLink decrypt create i a now s =
     bindE (getOwnedInvoiceOr404 i s) (\<lambda>invc.
     bindE (requireOrgAccess a (inv_orgId invc)) (\<lambda>_.
     bindE (guardE (isPayable (inv_status invc)) (InvoiceErr 409 NOT_PAYABLE)) (\<lambda>_.
     bindE (moneyError (toMinorUnits (Some (inv_balance invc)) (inv_currencyCode invc))) (\<lambda>balanceMinor.
     bindE (guardE (\<not> balanceMinor \<le> 0) (InvoiceErr 409 NOTHING_TO_PAY)) (\<lambda>_.
     bindE (stripeClientOr409 decrypt (inv_partnerId invc) s) (\<lambda>(key, account).
     bindE (create key \<lparr> sr_currency = map toLowerChar (inv_currencyCode invc), sr_unitAmount = balanceMinor,
       sr_invoiceId = inv_id invc, sr_orgId = inv_orgId invc, sr_partnerId = inv_partnerId invc,
       sr_idempotencyKey = (inv_id invc, balanceMinor) \<rparr>) (\<lambda>session.
     bindE (guardE (isPgText (cs_url session)) (InvoiceErr 500 STRIPE_NO_URL)) (\<lambda>_.
     bindE (insertMapping (pendingMapping (db_next s) invc account session now) s) (\<lambda>s1.
     Inr (nullish (cs_url session) [], s1))))))))))"

definition createQuotePayLink ::
    "(string \<Rightarrow> string option) \<Rightarrow> (string \<Rightarrow> session_request \<Rightarrow> svc_error + checkout_session) \<Rightarrow>
     uuid \<Rightarrow> actor \<Rightarrow> instant \<Rightarrow> db \<Rightarrow> string svc" where
  "createQuotePayLink decrypt create quoteId a now s =
     bindE (ofOption (QuoteErr 404 QUOTE_NOT_FOUND) (quoteOf s quoteId)) (\<lambda>q.
     bindE (guardE (q_status q = Quote_converted) (QuoteErr 409 NOT_CONVERTED)) (\<lambda>_.
     bindE (ofOption (QuoteErr 409 NOT_CONVERTED) (q_convertedInvoiceId q)) (\<lambda>i.
     createInvoicePayLink decrypt create i a now s)))"

section \<open>Reconciliation\<close>

definition updateMappings :: "uuid \<Rightarrow> (stripe_payment \<Rightarrow> stripe_payment) \<Rightarrow> db \<Rightarrow> db" where
  "updateMappings i f s = s \<lparr> db_stripePayments := updateWhere (\<lambda>m. sp_id m = i) f (db_stripePayments s) \<rparr>"

definition markMapping :: "uuid \<Rightarrow> stripe_payment_status \<Rightarrow> instant \<Rightarrow> db \<Rightarrow> db" where
  "markMapping i st now s = updateMappings i (\<lambda>m. m \<lparr> sp_status := st, sp_lastEventAt := Some now, sp_updatedAt := now \<rparr>) s"

record capture_input =
  cap_objectId :: string
  cap_paymentIntentId :: string
  cap_accountId :: string
  cap_amount :: money
  cap_currency :: string
  cap_receivedAt :: "iso_date option"

definition terminalFail :: "stripe_payment \<Rightarrow> invoice \<Rightarrow> instant \<Rightarrow> db \<Rightarrow> uuid svc" where
  "terminalFail m invc now s = Inr (inv_id invc,
     emit (InvoiceEvent Ev_payment_failed (inv_id invc) (inv_orgId invc) (inv_partnerId invc) None) (markMapping (sp_id m) Sp_failed now s))"

definition refuseCapture :: "capture_input \<Rightarrow> stripe_payment \<Rightarrow> invoice \<Rightarrow> bool" where
  "refuseCapture input m invc \<longleftrightarrow>
     inv_status invc = Inv_draft \<or> inv_status invc = Inv_void \<or>
     map toUpperChar (cap_currency input) \<noteq> map toUpperChar (inv_currencyCode invc) \<or>
     cap_accountId input = [] \<or> cap_accountId input \<noteq> sp_stripeAccountId m \<or>
     toCents (Some (cap_amount input)) > toCents (Some (inv_balance invc))"

definition cardPayment :: "uuid \<Rightarrow> invoice \<Rightarrow> capture_input \<Rightarrow> instant \<Rightarrow> invoice_payment" where
  "cardPayment i invc input now = \<lparr> pay_id = i, pay_invoiceId = inv_id invc, pay_orgId = inv_orgId invc,
     pay_amount = toFixed 2 (js_Number (cap_amount input)), pay_method = Pay_card,
     pay_reference = Some (cap_paymentIntentId input), pay_receivedAt = nullish (cap_receivedAt input) (utcDay now),
     pay_recordedBy = None, pay_note = None \<rparr>"

definition recordStripePayment :: "capture_input \<Rightarrow> instant \<Rightarrow> db \<Rightarrow> uuid svc" where
  "recordStripePayment input now s =
     bindE (ofOption (JsError ''No mapping for stripe object'') (selectOne (\<lambda>m. sp_objectId m = cap_objectId input) (db_stripePayments s))) (\<lambda>m.
     if sp_invoicePaymentId m \<noteq> None then Inr (sp_invoiceId m, s)
     else bindE (ofOption (JsError ''Invoice not found'') (invOf s (sp_invoiceId m))) (\<lambda>invc.
       if refuseCapture input m invc then terminalFail m invc now s
       else let payment = cardPayment (db_next s) invc input now
         in bindE (insertPayment payment s) (\<lambda>s1.
            let s2 = updateMappings (sp_id m) (\<lambda>r. r \<lparr> sp_invoicePaymentId := Some (pay_id payment), sp_status := Sp_succeeded,
                       sp_paymentIntentId := Some (cap_paymentIntentId input), sp_lastEventAt := Some now, sp_updatedAt := now \<rparr>) s1
            in bindE (recomputeInvoiceStatus (inv_id invc) now s2) (\<lambda>s3.
               let s4 = emit (InvoiceEvent Ev_payment_recorded (inv_id invc) (inv_orgId invc) (inv_partnerId invc) (Some (pay_id payment))) s3
               in Inr (inv_id invc, case invOf s4 (inv_id invc) of
                    None \<Rightarrow> s4
                  | Some updated \<Rightarrow> if inv_status updated = Inv_paid
                      then emit (InvoiceEvent Ev_invoice_paid (inv_id invc) (inv_orgId invc) (inv_partnerId invc) None) s4 else s4)))))"

record refund_input =
  rfi_paymentIntentId :: string
  rfi_amountRefundedCents :: int
  rfi_chargeAmountCents :: int
  rfi_currency :: string
  rfi_accountId :: string

text \<open>An update of a payment's amount, with the checks of the column.\<close>

definition setPaymentAmount :: "uuid \<Rightarrow> money \<Rightarrow> db \<Rightarrow> svc_error + db" where
  "setPaymentAmount paymentId v s =
     bindE (guardE (moneyFits v) (JsError ''numeric field overflow'')) (\<lambda>_.
     bindE (guardE (0 < v) (JsError ''check violation'')) (\<lambda>_.
     Inr (s \<lparr> db_invoicePayments := updateWhere (\<lambda>p. pay_id p = paymentId) (\<lambda>p. p \<lparr> pay_amount := v \<rparr>) (db_invoicePayments s) \<rparr>)))"

definition refundPayment :: "refund_input \<Rightarrow> stripe_payment \<Rightarrow> uuid \<Rightarrow> instant \<Rightarrow> db \<Rightarrow> svc_error + db" where
  "refundPayment input m paymentId now s =
     (if rfi_amountRefundedCents input \<ge> rfi_chargeAmountCents input
      then bindE (deletePaymentRow paymentId s) (\<lambda>s1.
           Inr (updateMappings (sp_id m) (\<lambda>r. r \<lparr> sp_status := Sp_refunded, sp_invoicePaymentId := None, sp_lastEventAt := Some now, sp_updatedAt := now \<rparr>) s1))
      else bindE (moneyError (fromMinorUnits (Some (of_int (rfi_chargeAmountCents input - rfi_amountRefundedCents input))) (rfi_currency input))) (\<lambda>v.
           bindE (setPaymentAmount paymentId v s) (\<lambda>s1. Inr (markMapping (sp_id m) Sp_partially_refunded now s1))))"

definition reflectStripeRefund :: "refund_input \<Rightarrow> instant \<Rightarrow> db \<Rightarrow> unit svc" where
  "reflectStripeRefund input now s =
     (case selectOne (\<lambda>m. sp_paymentIntentId m = Some (rfi_paymentIntentId input)) (db_stripePayments s) of
        None \<Rightarrow> Inr ((), s)
      | Some m \<Rightarrow> (case sp_invoicePaymentId m of
          None \<Rightarrow> Inr ((), s)
        | Some paymentId \<Rightarrow>
            if rfi_accountId input = [] \<or> rfi_accountId input \<noteq> sp_stripeAccountId m then Inr ((), s)
            else bindE (refundPayment input m paymentId now s) (\<lambda>s1.
                 bindE (recomputeInvoiceStatus (sp_invoiceId m) now s1) (\<lambda>s2.
                 bindE (ofOption (JsError ''TypeError'') (invOf s2 (sp_invoiceId m))) (\<lambda>invc.
                 Inr ((), emit (InvoiceEvent Ev_payment_voided (sp_invoiceId m) (sp_orgId m) (inv_partnerId invc) (Some paymentId)) s2))))))"

section \<open>Settlement, webhook, sweep\<close>

text \<open>A paid session as the capture it stands for; nothing to record without a payment intent or an amount.\<close>

definition sessionCapture :: "checkout_session \<Rightarrow> string \<Rightarrow> svc_error + capture_input option" where
  "sessionCapture session account =
     (let paymentIntentId = nullish (cs_paymentIntent session) []; amountCents = nullish (cs_amountTotal session) 0;
          currency = map toUpperChar (nullish (cs_currency session) ''usd'')
      in if \<not> cs_paid session \<or> paymentIntentId = [] \<or> amountCents \<le> 0 then Inr None
         else bindE (moneyError (fromMinorUnits (Some (of_int amountCents)) currency)) (\<lambda>amount.
              Inr (Some \<lparr> cap_objectId = cs_id session, cap_paymentIntentId = paymentIntentId, cap_accountId = account,
                cap_amount = amount, cap_currency = currency, cap_receivedAt = None \<rparr>)))"

definition settleCheckoutSession ::
    "(string \<Rightarrow> string option) \<Rightarrow> (string \<Rightarrow> string \<Rightarrow> svc_error + checkout_session) \<Rightarrow> uuid \<Rightarrow> string \<Rightarrow> instant \<Rightarrow> db \<Rightarrow> (uuid option) svc" where
  "settleCheckoutSession decrypt retrieve partnerId sessionId now s =
     bindE (getPartnerStripeClient decrypt partnerId s) (\<lambda>(key, account).
     bindE (retrieve key sessionId) (\<lambda>session.
     bindE (sessionCapture session account) (\<lambda>c. case c of
       None \<Rightarrow> Inr (None, s)
     | Some input \<Rightarrow> bindE (recordStripePayment input now s) (\<lambda>(i, s1). Inr (Some i, s1)))))"

datatype stripe_event_data =
  SessionCompleted checkout_session
| SessionAsyncSucceeded checkout_session
| PaymentFailed string
| ChargeRefunded "string option" "int option" "int option" "string option"
| Deauthorized
| OtherEvent

record stripe_event =
  ev_account :: "string option"
  ev_livemode :: bool
  ev_data :: stripe_event_data

definition moneyMoving :: "stripe_event_data \<Rightarrow> bool" where
  "moneyMoving d = (case d of SessionCompleted _ \<Rightarrow> True | SessionAsyncSucceeded _ \<Rightarrow> True | ChargeRefunded _ _ _ _ \<Rightarrow> True
     | PaymentFailed _ \<Rightarrow> True | Deauthorized \<Rightarrow> False | OtherEvent \<Rightarrow> False)"

definition eventAllowed :: "stripe_event \<Rightarrow> db \<Rightarrow> bool" where
  "eventAllowed e s \<longleftrightarrow> (if \<not> moneyMoving (ev_data e) then True
     else if \<not> isPgText (ev_account e) then False
     else (case getConnectionByAccount (nullish (ev_account e) []) s of None \<Rightarrow> False
           | Some c \<Rightarrow> sa_livemode c = ev_livemode e))"

definition paymentFailed :: "string \<Rightarrow> instant \<Rightarrow> db \<Rightarrow> unit svc" where
  "paymentFailed intent now s = (case selectOne (\<lambda>m. sp_paymentIntentId m = Some intent) (db_stripePayments s) of
     None \<Rightarrow> Inr ((), s)
   | Some m \<Rightarrow> Inr ((), emit (InvoiceEvent Ev_payment_failed (sp_invoiceId m) (sp_orgId m)
       (case invOf s (sp_invoiceId m) of None \<Rightarrow> 0 | Some r \<Rightarrow> inv_partnerId r) (sp_invoicePaymentId m)) (markMapping (sp_id m) Sp_failed now s)))"

definition recordSession :: "checkout_session \<Rightarrow> string option \<Rightarrow> instant \<Rightarrow> db \<Rightarrow> unit svc" where
  "recordSession session account now s =
     bindE (sessionCapture session (nullish account [])) (\<lambda>c. case c of
       None \<Rightarrow> Inr ((), s)
     | Some input \<Rightarrow> bindE (recordStripePayment input now s) (\<lambda>r. Inr ((), snd r)))"

definition handleStripeEvent :: "stripe_event \<Rightarrow> instant \<Rightarrow> db \<Rightarrow> unit svc" where
  "handleStripeEvent e now s =
     (if \<not> eventAllowed e s then Inr ((), s)
      else (case ev_data e of
        SessionCompleted session \<Rightarrow> recordSession session (ev_account e) now s
      | SessionAsyncSucceeded session \<Rightarrow> recordSession session (ev_account e) now s
      | PaymentFailed intent \<Rightarrow> paymentFailed intent now s
      | ChargeRefunded intent refunded amount currency \<Rightarrow>
          if \<not> isPgText intent then Inr ((), s)
          else reflectStripeRefund \<lparr> rfi_paymentIntentId = nullish intent [], rfi_amountRefundedCents = nullish refunded 0,
            rfi_chargeAmountCents = nullish amount 0, rfi_currency = nullish currency ''usd'',
            rfi_accountId = nullish (ev_account e) [] \<rparr> now s
      | Deauthorized \<Rightarrow> Inr ((), if isPgText (ev_account e) then markDisconnectedByAccount (nullish (ev_account e) []) now s else s)
      | OtherEvent \<Rightarrow> Inr ((), s)))"

text \<open>The pending sessions between two minutes and seven days old, the oldest 200 first.\<close>

definition sweepDue :: "instant \<Rightarrow> db \<Rightarrow> stripe_payment \<Rightarrow> bool" where
  "sweepDue now s m \<longleftrightarrow> sp_status m = Sp_pending \<and> sp_invoicePaymentId m = None \<and> sp_objectType m = Obj_checkout_session \<and>
     sp_createdAt m < now - 2 * 60 * 1000 \<and> now - 7 * 24 * 60 * 60 * 1000 < sp_createdAt m \<and> invOf s (sp_invoiceId m) \<noteq> None"

definition settleOne ::
    "(string \<Rightarrow> string option) \<Rightarrow> (string \<Rightarrow> string \<Rightarrow> svc_error + checkout_session) \<Rightarrow> instant \<Rightarrow> uuid \<times> string \<Rightarrow> nat \<times> db \<Rightarrow> nat \<times> db" where
  "settleOne decrypt retrieve now r st = (case settleCheckoutSession decrypt retrieve (fst r) (snd r) now (snd st) of
     Inl e \<Rightarrow> st | Inr (None, s1) \<Rightarrow> (fst st, s1) | Inr (Some i, s1) \<Rightarrow> (fst st + 1, s1))"

definition reconcilePendingStripePayments ::
    "(string \<Rightarrow> string option) \<Rightarrow> (string \<Rightarrow> string \<Rightarrow> svc_error + checkout_session) \<Rightarrow> instant \<Rightarrow> db \<Rightarrow> nat \<times> db" where
  "reconcilePendingStripePayments decrypt retrieve now s =
     fold (settleOne decrypt retrieve now)
       (map (\<lambda>m. (case invOf s (sp_invoiceId m) of None \<Rightarrow> 0 | Some r \<Rightarrow> inv_partnerId r, sp_objectId m))
         (take 200 (sort_key sp_createdAt (selectWhere (sweepDue now s) (db_stripePayments s))))) (0, s)"

end
