(* ===== verification/StripeProperties.thy ===== *)
theory StripeProperties
  imports QuoteProperties StripePayments
begin

text \<open>
  What the online payments guarantee. Every call of the payment services refines the ledger, so the
  guarantees of the invoices hold with card payments, refunds and sweeps interleaved; a refund event that
  arrives after a later one of the same charge raises a payment again, the move of the ledger that can
  overpay an invoice. A capture is recorded once however often it is delivered; an event of one Stripe
  account reaches only the invoices mapped to that account. Four theorems show where the code does not do
  what it means to: a full refund, a late refund event, a capture settled again after a refund, and a
  second click on the pay link.
\<close>

section \<open>Refinement of the ledger\<close>

text \<open>A call that writes no table of the ledger but the mappings.\<close>

lemma refines_mappings:
  assumes "same_tables (s \<lparr> db_stripePayments := db_stripePayments t \<rparr>) t" "db_next s \<le> db_next t"
    "billing_ok s \<Longrightarrow> mappings_ok (db_next t) (db_invoicePayments s) (db_stripePayments t)"
  shows "refines s t"
proof (rule refines_step)
  note st = assms(1)[unfolded same_tables_def, simplified]
  show "rows_ok t" if "billing_ok s"
    using that st assms(2,3) by (auto simp: billing_ok_def rows_ok_def intro: key_ok_mono)
  have "ledger_step False (ledgerOf s) (ledgerOf s \<lparr> lg_inv := invOf s, lg_next := db_next t \<rparr>)"
    using assms(2) by (intro ledger_step.frame) (auto intro: option.rel_refl)
  moreover have "ledgerOf t = ledgerOf s \<lparr> lg_inv := invOf s, lg_next := db_next t \<rparr>"
    using st by (simp add: ledgerOf_def invOf_def[abs_def] knownSources_def billedSources_def)
  ultimately show "ledger_step False (ledgerOf s) (ledgerOf t)" by simp
qed

lemma billing_mappings: "billing_ok s \<Longrightarrow> mappings_ok (db_next s) (db_invoicePayments s) (db_stripePayments s)"
  by (simp add: billing_ok_def rows_ok_def)

lemma refines_insertMapping:
  assumes "insertMapping m s = Inr t" "sp_id m = db_next s" "sp_invoicePaymentId m = None"
  shows "refines s t"
proof (rule refines_mappings)
  have t: "t = s \<lparr> db_next := Suc (db_next s), db_stripePayments := insertRow m (db_stripePayments s) \<rparr>"
    "sp_objectId m \<notin> set (map sp_objectId (db_stripePayments s))"
    using assms(1) by (auto simp: insertMapping_def guard_simps)
  then show "same_tables (s \<lparr> db_stripePayments := db_stripePayments t \<rparr>) t" "db_next s \<le> db_next t"
    by (simp_all add: same_tables_def)
  show "mappings_ok (db_next t) (db_invoicePayments s) (db_stripePayments t)" if "billing_ok s"
    using billing_mappings[OF that] assms(2,3) t
    by (auto simp: mappings_ok_def key_ok_insertRow) (auto simp: insertRow_def)
qed

lemma updateMappings_sel [simp]:
  "db_invoices (updateMappings k f s) = db_invoices s" "db_invoicePayments (updateMappings k f s) = db_invoicePayments s"
  "db_next (updateMappings k f s) = db_next s" "invOf (updateMappings k f s) = invOf s"
  "paymentsOf (updateMappings k f s) = paymentsOf s" "db_stripeAccounts (updateMappings k f s) = db_stripeAccounts s"
  by (simp_all add: updateMappings_def invOf_def[abs_def] paymentsOf_def[abs_def])

lemma refines_updateMappings:
  assumes "\<And>m. sp_id (f m) = sp_id m \<and> sp_objectId (f m) = sp_objectId m \<and> sp_invoiceId (f m) = sp_invoiceId m"
    "\<And>m j. m \<in> set (db_stripePayments s) \<Longrightarrow> sp_id m = k \<Longrightarrow> sp_invoicePaymentId (f m) = Some j \<Longrightarrow> billing_ok s \<Longrightarrow>
       sp_invoicePaymentId m = Some j \<or> (\<exists>p \<in> set (db_invoicePayments s). pay_id p = j \<and> pay_invoiceId p = sp_invoiceId m)"
  shows "refines s (updateMappings k f s)"
proof (rule refines_mappings)
  assume ok: "billing_ok s"
  have "mappings_ok (db_next s) (db_invoicePayments s) (updateWhere (\<lambda>m. sp_id m = k) f (db_stripePayments s))"
  proof (rule mappings_ok_updateWhere[OF billing_mappings[OF ok] assms(1)])
    fix m j assume m: "m \<in> set (db_stripePayments s)" "sp_invoicePaymentId (if sp_id m = k then f m else m) = Some j"
    then consider "sp_invoicePaymentId m = Some j" | "\<exists>p \<in> set (db_invoicePayments s). pay_id p = j \<and> pay_invoiceId p = sp_invoiceId m"
      using assms(2) ok by (auto split: if_splits)
    then show "\<exists>p \<in> set (db_invoicePayments s). pay_id p = j \<and> pay_invoiceId p = sp_invoiceId m"
      using billing_mappings[OF ok] m(1) by cases (auto simp: mappings_ok_def)
  qed
  then show "mappings_ok (db_next (updateMappings k f s)) (db_invoicePayments s) (db_stripePayments (updateMappings k f s))"
    by (simp add: updateMappings_def)
qed (simp_all add: updateMappings_def same_tables_def)

lemma refines_markMapping [simp]: "refines s (markMapping k st now s)"
  unfolding markMapping_def by (rule refines_updateMappings) auto

subsection \<open>Pay links\<close>

lemma refines_createInvoicePayLink: "createInvoicePayLink decrypt create i a now s = Inr (url, t) \<Longrightarrow> refines s t"
  unfolding createInvoicePayLink_def
  by (auto elim!: bindE_InrE split: prod.splits intro: refines_insertMapping simp: pendingMapping_def)

lemma refines_createQuotePayLink: "createQuotePayLink decrypt create i a now s = Inr (url, t) \<Longrightarrow> refines s t"
  unfolding createQuotePayLink_def by (auto elim!: bindE_InrE intro: refines_createInvoicePayLink)

subsection \<open>Captures\<close>

text \<open>The recomputation of a status commutes with a write to the mappings.\<close>

lemma recompute_updateMappings:
  "recomputeInvoiceStatus i now (updateMappings k f s) = bindE (recomputeInvoiceStatus i now s) (\<lambda>t. Inr (updateMappings k f t))"
proof (cases "invOf s i")
  case (Some r)
  have "updateInvoices i g (updateMappings k f s) = updateMappings k f (updateInvoices i g s)" for g
    by (simp add: updateMappings_def updateInvoices_def)
  then show ?thesis using Some by (simp add: recomputeInvoiceStatus_def getOwnedInvoiceOr404_def Let_def guardE_def)
qed (simp add: recomputeInvoiceStatus_def getOwnedInvoiceOr404_def)

definition linkMapping :: "uuid \<Rightarrow> capture_input \<Rightarrow> instant \<Rightarrow> stripe_payment \<Rightarrow> stripe_payment" where
  "linkMapping k input now r = r \<lparr> sp_invoicePaymentId := Some k, sp_status := Sp_succeeded,
     sp_paymentIntentId := Some (cap_paymentIntentId input), sp_lastEventAt := Some now, sp_updatedAt := now \<rparr>"

lemma linkMapping_sel [simp]:
  "sp_id (linkMapping k input now r) = sp_id r" "sp_objectId (linkMapping k input now r) = sp_objectId r"
  "sp_invoiceId (linkMapping k input now r) = sp_invoiceId r" "sp_invoicePaymentId (linkMapping k input now r) = Some k"
  "sp_status (linkMapping k input now r) = Sp_succeeded" "sp_stripeAccountId (linkMapping k input now r) = sp_stripeAccountId r"
  "sp_paymentIntentId (linkMapping k input now r) = Some (cap_paymentIntentId input)"
  by (simp_all add: linkMapping_def)

lemma cardPayment_sel [simp]:
  "pay_id (cardPayment k r input now) = k" "pay_invoiceId (cardPayment k r input now) = inv_id r"
  "pay_orgId (cardPayment k r input now) = inv_orgId r" "pay_amount (cardPayment k r input now) = toFixed 2 (js_Number (cap_amount input))"
  by (simp_all add: cardPayment_def)

definition mappingOf :: "db \<Rightarrow> string \<Rightarrow> stripe_payment option" where
  "mappingOf s x = selectOne (\<lambda>m. sp_objectId m = x) (db_stripePayments s)"

lemma recordStripePayment_cases:
  assumes "recordStripePayment input now s = Inr (i, t)"
  obtains (again) m k where "mappingOf s (cap_objectId input) = Some m" "sp_invoicePaymentId m = Some k" "i = sp_invoiceId m" "t = s"
  | (refused) m and r :: invoice and e where "mappingOf s (cap_objectId input) = Some m" "sp_invoicePaymentId m = None"
      "invOf s (sp_invoiceId m) = Some r" "refuseCapture input m r" "i = inv_id r" "t = emit e (markMapping (sp_id m) Sp_failed now s)"
  | (taken) m and r :: invoice and u v es where "mappingOf s (cap_objectId input) = Some m" "sp_invoicePaymentId m = None"
      "invOf s (sp_invoiceId m) = Some r" "\<not> refuseCapture input m r" "i = inv_id r"
      "insertPayment (cardPayment (db_next s) r input now) s = Inr u" "recomputeInvoiceStatus (inv_id r) now u = Inr v"
      "t = updateMappings (sp_id m) (linkMapping (db_next s) input now) v \<lparr> db_events := es \<rparr>"
proof -
  obtain m where m: "mappingOf s (cap_objectId input) = Some m"
    using assms by (auto simp: recordStripePayment_def mappingOf_def guard_simps)
  note body = assms[unfolded recordStripePayment_def, folded mappingOf_def, unfolded m ofOption_simps bindE_simps]
  show thesis
  proof (cases "sp_invoicePaymentId m")
    case (Some k)
    show thesis by (rule again[OF m Some]) (use body Some in simp_all)
  next
    case None
    then obtain r where r: "invOf s (sp_invoiceId m) = Some r" using body by (auto simp: guard_simps)
    show thesis
    proof (cases "refuseCapture input m r")
      case True
      show thesis
        by (rule refused[OF m None r True, of "InvoiceEvent Ev_payment_failed (inv_id r) (inv_orgId r) (inv_partnerId r) None"])
           (use body r None True in \<open>auto simp: terminalFail_def\<close>)
    next
      case False
      then obtain u w where u: "insertPayment (cardPayment (db_next s) r input now) s = Inr u"
        and w: "recomputeInvoiceStatus (inv_id r) now (updateMappings (sp_id m) (linkMapping (db_next s) input now) u) = Inr w"
        and t: "i = inv_id r" "\<exists>es. t = w \<lparr> db_events := es \<rparr>"
        using body r None
        by (auto simp: bindE_eq_Inr Let_def emit_def linkMapping_def[abs_def] split: option.splits if_splits)
           (metis db.unfold_congs(1))+
      obtain v where v: "recomputeInvoiceStatus (inv_id r) now u = Inr v" "w = updateMappings (sp_id m) (linkMapping (db_next s) input now) v"
        using w by (auto simp: recompute_updateMappings bindE_eq_Inr)
      show thesis using t(2) taken[OF m None r False t(1) u v(1)] v(2) by blast
    qed
  qed
qed

lemma refines_events: "refines s (t \<lparr> db_events := es \<rparr>) = refines s t"
  by (simp add: refines_by_def rows_ok_def ledgerOf_def invOf_def[abs_def] knownSources_def billedSources_def)

lemma refuseCapture_live: "\<not> refuseCapture input m r \<Longrightarrow> live r"
  by (simp add: refuseCapture_def live_def)

lemma refines_recordStripePayment:
  assumes "recordStripePayment input now s = Inr (i, t)"
  shows "refines s t"
  using assms
proof (cases rule: recordStripePayment_cases)
  case (taken m r u v es)
  have id: "inv_id r = sp_invoiceId m" using selectOne_Some taken(3) by (fastforce simp: invOf_def)
  let ?p = "cardPayment (db_next s) r input now"
  have fit: "0 < pay_amount ?p" "moneyFits (pay_amount ?p)"
    and u: "u = s \<lparr> db_next := Suc (db_next s), db_invoicePayments := insertRow ?p (db_invoicePayments s) \<rparr>"
    using taken(6) by (auto simp: insertPayment_def guard_simps)
  then have "of_int (cents_of (pay_amount ?p)) \<le> Math_round (fmul (js_Number (cap_amount input)) 100)"
    unfolding cardPayment_sel by (intro stored_le_compared) (auto simp: moneyFits_money_ok money_ok_def)
  then have "of_int (cents_of (pay_amount ?p)) \<le> toCents (Some (inv_balance r))"
    using taken(4) by (simp add: refuseCapture_def toCents_def)
  then have sv: "refines s v"
    using taken(3,7) refuseCapture_live[OF taken(4)]
    by (intro refines_pay[OF _ _ _ _ _ _ _ taken(6)]) (simp_all add: id)
  have v: "db_invoicePayments v = db_invoicePayments u" "db_stripePayments v = db_stripePayments u"
    using recomputeInvoiceStatus_eq[OF taken(7)] by simp_all
  have "refines v (updateMappings (sp_id m) (linkMapping (db_next s) input now) v)"
  proof (rule refines_updateMappings)
    fix m' j assume "m' \<in> set (db_stripePayments v)" "sp_id m' = sp_id m" "sp_invoicePaymentId (linkMapping (db_next s) input now m') = Some j" "billing_ok v"
    moreover have "m \<in> set (db_stripePayments v)" using taken(1) selectOne_Some by (fastforce simp: mappingOf_def v u)
    ultimately have "m' = m" "j = db_next s"
      using key_ok_unique[of sp_id "db_next v" "db_stripePayments v" m' m] billing_mappings[of v] by (simp_all add: mappings_ok_def)
    then show "sp_invoicePaymentId m' = Some j \<or> (\<exists>p \<in> set (db_invoicePayments v). pay_id p = j \<and> pay_invoiceId p = sp_invoiceId m')"
      using id by (intro disjI2 bexI[of _ ?p]) (simp_all add: v u insertRow_def)
  qed simp
  then show ?thesis using refines_trans[OF sv] by (simp add: taken(8) refines_events)
qed simp_all

subsection \<open>Refunds\<close>

text \<open>Setting the amount of a payment, for a partial refund.\<close>

lemma mappings_ok_relabel:
  assumes "mappings_ok n ps ms" "\<And>p. p \<in> set ps \<Longrightarrow> \<exists>q \<in> set ps'. pay_id q = pay_id p \<and> pay_invoiceId q = pay_invoiceId p"
  shows "mappings_ok n ps' ms"
  using assms unfolding mappings_ok_def by metis

lemma cents_mono: "cents_ok v \<Longrightarrow> cents_ok w \<Longrightarrow> v \<le> w \<Longrightarrow> cents_of v \<le> cents_of w"
  by (metis cents_ok_def divide_le_cancel of_int_le_iff zero_less_numeral order.asym)

lemma paidCents_adjust:
  assumes "p \<in> set ps" "distinct (map pay_id ps)" "pay_invoiceId p = i"
  shows "paidCents i (map (\<lambda>q. if pay_id q = pay_id p then q \<lparr> pay_amount := a \<rparr> else q) ps) =
    paidCents i ps + cents_of a - cents_of (pay_amount p)"
  using assms
proof (induction ps)
  case (Cons q ps)
  show ?case
  proof (cases "q = p")
    case True
    then have "map (\<lambda>q. if pay_id q = pay_id p then q \<lparr> pay_amount := a \<rparr> else q) ps = ps" using Cons.prems(2) by (intro map_idI) (metis (no_types, lifting) distinct.simps(2) image_eqI list.set_map list.simps(9))
    then show ?thesis using True Cons.prems(3) by (simp add: paidCents_def)
  next
    case False
    then have "pay_id q \<noteq> pay_id p" "p \<in> set ps" using Cons.prems by auto
    then show ?thesis using Cons by (simp add: paidCents_def)
  qed
qed simp

lemma cents_bound: "money_ok v \<Longrightarrow> cents_of v < 10 ^ 12"
  by (auto simp: money_ok_def)

lemma refines_adjust:
  assumes p: "p \<in> set (db_invoicePayments s)" "pay_id p = k" "raises \<or> v \<le> pay_amount p" "cents_ok v"
    and u: "setPaymentAmount k v s = Inr u" and t: "recomputeInvoiceStatus (pay_invoiceId p) now u = Inr t"
  shows "refines_by raises s t"
proof (rule refines_step)
  let ?i = "pay_invoiceId p" and ?ps = "map (\<lambda>q. if pay_id q = pay_id p then q \<lparr> pay_amount := v \<rparr> else q) (db_invoicePayments s)"
  have ue: "u = s \<lparr> db_invoicePayments := ?ps \<rparr>" and v: "money_ok v" "0 < cents_of v"
    using u p cents_pos by (auto simp: setPaymentAmount_def guard_simps updateWhere_def moneyFits_money_ok)
  have ids: "\<exists>q \<in> set ?ps. pay_id q = j \<and> pay_invoiceId q = i" if "q \<in> set (db_invoicePayments s)" "pay_id q = j" "pay_invoiceId q = i" for q j i
    using that by (intro bexI[of _ "if pay_id q = pay_id p then q \<lparr> pay_amount := v \<rparr> else q"]) auto
  have "mappings_ok (db_next s) ?ps (db_stripePayments s)" if "billing_ok s"
    using billing_mappings[OF that] by (rule mappings_ok_relabel) (use ids in blast)
  then show "rows_ok t" if "billing_ok s"
    by (intro rows_ok_recompute[OF t]) (use that in \<open>simp add: ue billing_ok_def rows_ok_def\<close>)
  assume ok: "billing_ok s"
  obtain r where r: "invOf s ?i = Some r" "inv_status r \<noteq> Inv_draft" using billing_paysD(2)[OF ok p(1)] by auto
  have ui: "invOf u = invOf s" by (simp add: ue invOf_def[abs_def])
  have lower: "raises \<or> cents_of v \<le> cents_of (pay_amount p)"
    using p(3,4) billing_paysD(1)[OF ok p(1)] cents_mono[of v "pay_amount p"] by (auto simp: money_ok_def)
  have "distinct (map pay_id (db_invoicePayments s))" using ok by (simp add: billing_ok_def ledger_ok_def pays_ok_def key_ok_def)
  from paidCents_adjust[OF p(1) this refl, of v] have "paidCents ?i ?ps < 2 ^ 49"
    using billing_paid_bound[OF ok r(1)] billing_paysD(1)[OF ok p(1)] cents_bound[OF v(1)] by simp
  then obtain r' where r': "restated (db_invoicePayments u) r r'" "money_ok (inv_balance r')" "ledgerOf t = ledgerOf u \<lparr> lg_inv := (invOf s)(?i \<mapsto> r') \<rparr>"
    using restate_step[OF ok r ui t] billing_paysD(1)[OF ok] v by (fastforce simp: ue split: if_splits)
  have "ledgerOf t = ledgerOf s \<lparr> lg_pays := ?ps, lg_inv := (lg_inv (ledgerOf s))(?i \<mapsto> r') \<rparr>"
    unfolding r'(3) by (rule ledger.equality) (simp_all add: ue knownSources_def billedSources_def)
  then show "ledger_step raises (ledgerOf s) (ledgerOf t)"
    using ledger_step.adjust[of p "ledgerOf s" r v raises ?ps r'] r p v lower r'(1,2) by (simp add: ue)
qed

text \<open>
  Stripe reports the cumulative amount refunded on a charge. A refund is in order when what remains of
  the charge is no more than the payment row still shows, that is when no later refund of the same
  charge was reflected before it. A full refund is always in order.
\<close>

definition refundInOrder :: "refund_input \<Rightarrow> db \<Rightarrow> bool" where
  "refundInOrder input s \<longleftrightarrow> rfi_amountRefundedCents input \<ge> rfi_chargeAmountCents input \<or>
     (case selectOne (\<lambda>m. sp_paymentIntentId m = Some (rfi_paymentIntentId input)) (db_stripePayments s) of
        None \<Rightarrow> True
      | Some m \<Rightarrow> list_all (\<lambda>p. case fromMinorUnits (Some (of_int (rfi_chargeAmountCents input - rfi_amountRefundedCents input))) (rfi_currency input) of
          Inl e \<Rightarrow> True | Inr v \<Rightarrow> sp_invoicePaymentId m = Some (pay_id p) \<longrightarrow> v \<le> pay_amount p) (db_invoicePayments s))"

lemma cents_ok_fromMinorUnits: "fromMinorUnits x cur = Inr v \<Longrightarrow> cents_ok v"
  by (auto simp: fromMinorUnits_def guard_simps Let_def)

lemma reflectStripeRefund_cases:
  assumes "reflectStripeRefund input now s = Inr ((), t)"
  obtains (ignored) "t = s"
  | (taken) m k u v e where "selectOne (\<lambda>m. sp_paymentIntentId m = Some (rfi_paymentIntentId input)) (db_stripePayments s) = Some m"
      "sp_invoicePaymentId m = Some k" "sp_stripeAccountId m = rfi_accountId input" "rfi_accountId input \<noteq> []"
      "refundPayment input m k now s = Inr u" "recomputeInvoiceStatus (sp_invoiceId m) now u = Inr v" "t = emit e v"
  using assms
  by (auto simp: reflectStripeRefund_def bindE_eq_Inr split: option.splits if_splits)

lemma refines_reflectStripeRefund:
  assumes "reflectStripeRefund input now s = Inr ((), t)" "raises \<or> refundInOrder input s"
  shows "refines_by raises s t"
  using assms(1)
proof (cases rule: reflectStripeRefund_cases)
  case (taken m k u v e)
  have m: "m \<in> set (db_stripePayments s)" using selectOne_Some[OF taken(1)] by simp
  show ?thesis
    unfolding refines_by_def
  proof
    assume ok: "billing_ok s"
    obtain p where p: "p \<in> set (db_invoicePayments s)" "pay_id p = k" "pay_invoiceId p = sp_invoiceId m"
      using billing_mappings[OF ok] m taken(2) by (auto simp: mappings_ok_def)
    have "refines_by raises s v"
    proof (cases "rfi_amountRefundedCents input \<ge> rfi_chargeAmountCents input")
      case True
      then have u: "db_invoicePayments u = deleteWhere (\<lambda>q. pay_id q = pay_id p) (db_invoicePayments s)" "db_next u = db_next s"
        "same_tables (s \<lparr> db_invoicePayments := db_invoicePayments u, db_stripePayments := db_stripePayments u \<rparr>) u"
        "db_stripePayments u = updateWhere (\<lambda>r. sp_id r = sp_id m)
           (\<lambda>r. r \<lparr> sp_status := Sp_refunded, sp_invoicePaymentId := None, sp_lastEventAt := Some now, sp_updatedAt := now \<rparr>)
           (updateWhere (\<lambda>r. sp_invoicePaymentId r = Some k) (\<lambda>r. r \<lparr> sp_invoicePaymentId := None \<rparr>) (db_stripePayments s))"
        using taken(5) p(2) by (auto simp: refundPayment_def deletePaymentRow_def guard_simps updateMappings_def same_tables_def)
      have "mappings_ok (db_next s) (db_invoicePayments u) (db_stripePayments u)"
        unfolding u(1,4) p(2) using mappings_ok_unlink[OF billing_mappings[OF ok], of k]
        by (rule mappings_ok_updateWhere) (use mappings_ok_unlink[OF billing_mappings[OF ok], of k] in \<open>auto simp: mappings_ok_def split: if_splits\<close>)
      then show ?thesis using refines_mono[OF refines_unpay[OF p(1) u(1,3,2) _ taken(6)[folded p(3)]]] by blast
    next
      case False
      then obtain a u0 where a: "fromMinorUnits (Some (of_int (rfi_chargeAmountCents input - rfi_amountRefundedCents input))) (rfi_currency input) = Inr a"
        and u0: "setPaymentAmount k a s = Inr u0" "u = markMapping (sp_id m) Sp_partially_refunded now u0"
        using taken(5) by (auto simp: refundPayment_def guard_simps moneyError_def split: sum.splits)
      obtain v0 where v0: "recomputeInvoiceStatus (pay_invoiceId p) now u0 = Inr v0" "v = markMapping (sp_id m) Sp_partially_refunded now v0"
        using taken(6) p(3) u0(2) by (auto simp: markMapping_def recompute_updateMappings bindE_eq_Inr)
      have "raises \<or> a \<le> pay_amount p" using assms(2) taken(1,2) p(1,2) a False by (auto simp: refundInOrder_def list_all_iff)
      then have "refines_by raises s v0" by (rule refines_adjust[OF p(1,2) _ cents_ok_fromMinorUnits[OF a] u0(1) v0(1)])
      then show ?thesis using refines_trans refines_mono[OF refines_markMapping] v0(2) by blast
    qed
    then show "rows_ok t \<and> (ledger_step raises)\<^sup>*\<^sup>* (ledgerOf s) (ledgerOf t)" using ok by (simp add: refines_by_def taken(7))
  qed
qed simp

subsection \<open>Settlement, webhook, sweep\<close>

lemma recordSession_cases:
  assumes "recordSession session account now s = Inr (u, t)"
  obtains (unpaid) "t = s" | (paid) input i where "sessionCapture session (nullish account []) = Inr (Some input)"
    "recordStripePayment input now s = Inr (i, t)"
  using assms by (auto simp: recordSession_def bindE_eq_Inr split: option.splits)

lemma settleCheckoutSession_cases:
  assumes "settleCheckoutSession decrypt retrieve p x now s = Inr (res, t)"
  obtains (unpaid) "res = None" "t = s" | (paid) key account session input i where
    "getPartnerStripeClient decrypt p s = Inr (key, account)" "retrieve key x = Inr session"
    "sessionCapture session account = Inr (Some input)" "recordStripePayment input now s = Inr (i, t)" "res = Some i"
  using assms by (auto simp: settleCheckoutSession_def bindE_eq_Inr split: option.splits)

lemma refines_settle: "settleCheckoutSession decrypt retrieve p x now s = Inr (res, t) \<Longrightarrow> refines s t"
  by (erule settleCheckoutSession_cases) (auto intro: refines_recordStripePayment)

lemma outside_accounts: "outside s (s \<lparr> db_stripeAccounts := c \<rparr>)"
  by (simp add: outside_def same_tables_def)

definition eventInOrder :: "stripe_event \<Rightarrow> db \<Rightarrow> bool" where
  "eventInOrder e s = (case ev_data e of
     ChargeRefunded intent refunded amount currency \<Rightarrow> refundInOrder \<lparr> rfi_paymentIntentId = nullish intent [],
       rfi_amountRefundedCents = nullish refunded 0, rfi_chargeAmountCents = nullish amount 0,
       rfi_currency = nullish currency ''usd'', rfi_accountId = nullish (ev_account e) [] \<rparr> s
   | _ \<Rightarrow> True)"

lemma refines_paymentFailed: "paymentFailed intent now s = Inr (u, t) \<Longrightarrow> refines s t"
  by (auto simp: paymentFailed_def split: option.splits)

lemma refines_handleStripeEvent:
  assumes "handleStripeEvent e now s = Inr (u, t)" "raises \<or> eventInOrder e s"
  shows "refines_by raises s t"
proof -
  have session: "refines_by raises s t" if "recordSession session account now s = Inr (u, t)" for session account
    using that by (cases rule: recordSession_cases) (auto intro: refines_mono refines_recordStripePayment)
  show ?thesis
    using assms session refines_reflectStripeRefund refines_mono[OF refines_outside[OF outside_accounts]] refines_mono[OF refines_paymentFailed]
    by (auto simp: handleStripeEvent_def eventInOrder_def markDisconnectedByAccount_def split: if_splits stripe_event_data.splits)
qed

lemma refines_settleOne: "refines (snd st) (snd (settleOne decrypt retrieve now r st))"
  using refines_settle[of decrypt retrieve "fst r" "snd r" now "snd st"]
  by (auto simp: settleOne_def split: sum.splits option.splits)

lemma refines_reconcile: "refines s (snd (reconcilePendingStripePayments decrypt retrieve now s))"
proof -
  have "refines (snd (n, s)) (snd (fold (settleOne decrypt retrieve now) xs (n, s)))" for n xs
    by (rule fold_path[where R = "\<lambda>u v. refines (snd u) (snd v)"])
       (auto intro!: reflpI transpI refines_settleOne intro: refines_trans)
  then show ?thesis by (simp add: reconcilePendingStripePayments_def)
qed

text \<open>
  One call of the payment services. Events arrive in any order; with \<open>late\<close> off, the refund events of a charge are
  taken to arrive in theirs.
\<close>

inductive stripe_step :: "bool \<Rightarrow> db \<Rightarrow> db \<Rightarrow> bool" for late where
  save: "savePartnerStripeKey probe encrypt p key user now s = Inr (x, t) \<Longrightarrow> stripe_step late s t"
| disconnect: "stripe_step late s (disconnectPartnerStripe p now s)"
| deauthorize: "stripe_step late s (markDisconnectedByAccount account now s)"
| invoice_link: "createInvoicePayLink decrypt create i a now s = Inr (url, t) \<Longrightarrow> stripe_step late s t"
| quote_link: "createQuotePayLink decrypt create q a now s = Inr (url, t) \<Longrightarrow> stripe_step late s t"
| settle: "settleCheckoutSession decrypt retrieve p x now s = Inr (res, t) \<Longrightarrow> stripe_step late s t"
| webhook: "handleStripeEvent e now s = Inr (u, t) \<Longrightarrow> late \<or> eventInOrder e s \<Longrightarrow> stripe_step late s t"
| sweep: "stripe_step late s (snd (reconcilePendingStripePayments decrypt retrieve now s))"

lemma outside_savePartnerStripeKey: "savePartnerStripeKey probe encrypt p key user now s = Inr (x, t) \<Longrightarrow> outside s t"
  by (auto simp: savePartnerStripeKey_def guard_simps Let_def outside_accounts)

lemma stripe_step_refines: "stripe_step late s t \<Longrightarrow> refines_by late s t"
  by (induction rule: stripe_step.induct)
     (auto simp: disconnectPartnerStripe_def markDisconnectedByAccount_def
       dest: outside_savePartnerStripeKey[THEN refines_outside] refines_createInvoicePayLink refines_createQuotePayLink
         refines_settle
       intro: refines_handleStripeEvent refines_mono refines_reconcile refines_outside outside_accounts)

interpretation payments: ledger_client late "stripe_step late" for late
  by unfold_locales (rule stripe_step_refines)

section \<open>Recording a capture\<close>

lemma mappingOf_key: "mappingOf s x = Some m \<Longrightarrow> m \<in> set (db_stripePayments s) \<and> sp_objectId m = x"
  using selectOne_Some by (fastforce simp: mappingOf_def)

lemma mappingOf_update:
  assumes "mappingOf s x = Some m" "\<And>r. sp_objectId (f r) = sp_objectId r"
  shows "mappingOf (updateMappings (sp_id m) f s) x = Some (f m)"
  using assms by (simp add: mappingOf_def updateMappings_def selectOne_updateWhere)

lemma mappingOf_simps [simp]:
  "mappingOf (emit e s) x = mappingOf s x" "mappingOf (s \<lparr> db_events := es \<rparr>) x = mappingOf s x"
  "mappingOf (updateInvoices i g s) x = mappingOf s x" "invOf (s \<lparr> db_events := es \<rparr>) = invOf s"
  by (simp_all add: mappingOf_def emit_def invOf_def[abs_def])

lemma dollars_compare:
  assumes "billing_ok s" "invOf s i = Some r" "live r" "0 < c" "c < 10 ^ 12"
  shows "toCents (Some (dollars c)) > toCents (Some (inv_balance r)) \<longleftrightarrow> cents_of (inv_balance r) < c"
proof -
  obtain b where b: "inv_balance r = dollars b" "\<bar>b\<bar> < 10 ^ 12" using balance_bound[OF assms(1-3)] by blast
  have "toCents (Some (dollars c)) = of_int c" "toCents (Some (dollars b)) = of_int b"
    using assms(4,5) b(2) by (simp_all add: toCents_def toCents_dollars)
  then show ?thesis by (simp add: b(1))
qed

text \<open>A capture that no guard refuses is always recorded.\<close>

lemma capture_taken:
  assumes ok: "billing_ok s" "mappingOf s (cap_objectId input) = Some m" "sp_invoicePaymentId m = None" "invOf s (sp_invoiceId m) = Some r"
    and go: "\<not> refuseCapture input m r" and c: "cap_amount input = dollars c" "0 < c" "c < 10 ^ 12"
  shows "\<exists>r' t. recordStripePayment input now s = Inr (inv_id r, t) \<and> invOf t (inv_id r) = Some r' \<and>
    db_invoicePayments t = db_invoicePayments s @ [cardPayment (db_next s) r input now] \<and>
    pay_amount (cardPayment (db_next s) r input now) = dollars c \<and>
    inv_balance r' = dollars (cents_of (inv_balance r) - c) \<and> (inv_status r' = Inv_paid \<longleftrightarrow> c = cents_of (inv_balance r)) \<and>
    mappingOf t (cap_objectId input) = Some (linkMapping (db_next s) input now m)"
proof -
  define p where "p = cardPayment (db_next s) r input now"
  define u where "u = s \<lparr> db_next := Suc (db_next s), db_invoicePayments := db_invoicePayments s @ [p] \<rparr>"
  define r' where "r' = restate (paymentsOf u (inv_id r)) now r"
  define v where "v = updateInvoices (inv_id r) (restate (paymentsOf u (inv_id r)) now) u"
  define t where "t = updateMappings (sp_id m) (linkMapping (db_next s) input now) v"
  have id: "inv_id r = sp_invoiceId m" using selectOne_Some ok(4) by (fastforce simp: invOf_def)
  note ri = ok(4)[folded id]
  have live: "live r" using refuseCapture_live[OF go] .
  have p: "pay_invoiceId p = inv_id r" "pay_amount p = dollars c" using c by (simp_all add: p_def toFixed_dollars)
  have pid: "pay_id p = db_next s" by (simp add: p_def)
  have le: "c \<le> cents_of (inv_balance r)"
    using go dollars_compare[OF ok(1) ri live c(2,3)] by (simp add: refuseCapture_def c(1))
  obtain b where b: "inv_balance r = dollars b" "b = cents_of (inv_total r) - paidCents (inv_id r) (db_invoicePayments s)"
    using balance_bound[OF ok(1) ri live] by blast
  note pr = payment_restates[OF ok(1) ri live p c(2,3) le u_def]
  have ins: "insertPayment p s = Inr u" and rec: "recomputeInvoiceStatus (inv_id r) now u = Inr v"
    and re: "restated (db_invoicePayments u) r r'"
    using pr(1)[folded u_def] pr(2)[of now, folded v_def r'_def] by auto
  have it: "invOf t (inv_id r) = Some r'" using ri by (simp add: t_def v_def r'_def u_def invOf_update) (simp add: invOf_def)
  have pc: "paidCents (inv_id r) (db_invoicePayments u) = paidCents (inv_id r) (db_invoicePayments s) + c"
    using p by (simp add: u_def paidCents_append)
  have bal: "inv_balance r' = dollars (b - c)" and st: "inv_status r' = Inv_paid \<longleftrightarrow> inv_balance r' \<le> 0"
    using re pc b(2) billing_invOf[OF ok(1) ri] live
    by (auto simp: restated_def doc_ok_def doc_state_def live_def algebra_simps split: if_splits)
  have "mappingOf v (cap_objectId input) = Some m" using ok(2) by (simp add: v_def u_def) (simp add: mappingOf_def)
  then have mt: "mappingOf t (cap_objectId input) = Some (linkMapping (db_next s) input now m)"
    unfolding t_def by (intro mappingOf_update) simp_all
  have "recomputeInvoiceStatus (inv_id r) now (updateMappings (sp_id m) (linkMapping (db_next s) input now) u) = Inr t"
    by (simp add: recompute_updateMappings rec t_def)
  then have "\<exists>es. recordStripePayment input now s = Inr (inv_id r, t \<lparr> db_events := es \<rparr>)"
    using ok(2-4) go ins it
    by (simp add: recordStripePayment_def mappingOf_def Let_def linkMapping_def[abs_def] pid flip: p_def) (auto simp: emit_def)
  moreover have "db_invoicePayments t = db_invoicePayments s @ [p]" by (simp add: t_def v_def u_def)
  ultimately show ?thesis using it mt bal st le b(1) p by (auto simp flip: p_def)
qed

text \<open>
  (C9) What a captured card charge does, on every branch. Of an object that is already linked to a
  payment nothing changes. A draft or void invoice, another currency, another Stripe account or an
  amount above the open balance refuse: the mapping is marked failed and no invoice and no payment
  changes. Any other capture is always recorded: one card payment of exactly the captured amount,
  linked to its mapping, lowers the balance by it, and the invoice is paid exactly when the balance
  reaches zero.
\<close>

theorem recordStripePayment_outcome:
  assumes "billing_ok s" "mappingOf s (cap_objectId input) = Some m" "invOf s (sp_invoiceId m) = Some r"
    and "cap_amount input = dollars c" "0 < c" "c < 10 ^ 12"
  shows "if sp_invoicePaymentId m \<noteq> None then recordStripePayment input now s = Inr (inv_id r, s)
    else if \<not> live r \<or> map toUpperChar (cap_currency input) \<noteq> map toUpperChar (inv_currencyCode r) \<or>
      cap_accountId input = [] \<or> cap_accountId input \<noteq> sp_stripeAccountId m \<or> cents_of (inv_balance r) < c
    then \<exists>t m'. recordStripePayment input now s = Inr (inv_id r, t) \<and> invOf t = invOf s \<and>
      db_invoicePayments t = db_invoicePayments s \<and> mappingOf t (cap_objectId input) = Some m' \<and> sp_status m' = Sp_failed
    else \<exists>r' p t m'. recordStripePayment input now s = Inr (inv_id r, t) \<and> invOf t (inv_id r) = Some r' \<and>
      paymentsOf t (inv_id r) = paymentsOf s (inv_id r) @ [p] \<and> pay_amount p = dollars c \<and> pay_method p = Pay_card \<and>
      inv_balance r' = dollars (cents_of (inv_balance r) - c) \<and> (inv_status r' = Inv_paid \<longleftrightarrow> c = cents_of (inv_balance r)) \<and>
      mappingOf t (cap_objectId input) = Some m' \<and> sp_invoicePaymentId m' = Some (pay_id p) \<and> sp_status m' = Sp_succeeded"
proof -
  have id: "inv_id r = sp_invoiceId m" using selectOne_Some assms(3) by (fastforce simp: invOf_def)
  define refused where "refused \<longleftrightarrow> \<not> live r \<or> map toUpperChar (cap_currency input) \<noteq> map toUpperChar (inv_currencyCode r) \<or>
    cap_accountId input = [] \<or> cap_accountId input \<noteq> sp_stripeAccountId m \<or> cents_of (inv_balance r) < c"
  have ref: "refuseCapture input m r \<longleftrightarrow> refused"
    using dollars_compare[OF assms(1) assms(3) _ assms(5,6)]
    by (cases "live r") (auto simp: refuseCapture_def refused_def live_def assms(4))
  consider "sp_invoicePaymentId m \<noteq> None" | "sp_invoicePaymentId m = None" "refused" | "sp_invoicePaymentId m = None" "\<not> refused"
    by blast
  then have "if sp_invoicePaymentId m \<noteq> None then recordStripePayment input now s = Inr (inv_id r, s)
    else if refused
    then \<exists>t m'. recordStripePayment input now s = Inr (inv_id r, t) \<and> invOf t = invOf s \<and>
      db_invoicePayments t = db_invoicePayments s \<and> mappingOf t (cap_objectId input) = Some m' \<and> sp_status m' = Sp_failed
    else \<exists>r' p t m'. recordStripePayment input now s = Inr (inv_id r, t) \<and> invOf t (inv_id r) = Some r' \<and>
      paymentsOf t (inv_id r) = paymentsOf s (inv_id r) @ [p] \<and> pay_amount p = dollars c \<and> pay_method p = Pay_card \<and>
      inv_balance r' = dollars (cents_of (inv_balance r) - c) \<and> (inv_status r' = Inv_paid \<longleftrightarrow> c = cents_of (inv_balance r)) \<and>
      mappingOf t (cap_objectId input) = Some m' \<and> sp_invoicePaymentId m' = Some (pay_id p) \<and> sp_status m' = Sp_succeeded"
  proof cases
    case 1
    then show ?thesis using assms(2) id by (auto simp: recordStripePayment_def mappingOf_def)
  next
    case 2
    let ?f = "\<lambda>m. m \<lparr> sp_status := Sp_failed, sp_lastEventAt := Some now, sp_updatedAt := now \<rparr>"
    have "mappingOf (updateMappings (sp_id m) ?f s) (cap_objectId input) = Some (?f m)" using assms(2) by (rule mappingOf_update) simp
    moreover have "recordStripePayment input now s = terminalFail m r now s"
      using 2 assms(2,3) by (simp add: recordStripePayment_def mappingOf_def ref)
    ultimately show ?thesis using 2 by (auto simp: terminalFail_def markMapping_def)
  next
    case 3
    obtain r' t where t: "recordStripePayment input now s = Inr (inv_id r, t)" "invOf t (inv_id r) = Some r'"
      "db_invoicePayments t = db_invoicePayments s @ [cardPayment (db_next s) r input now]"
      "pay_amount (cardPayment (db_next s) r input now) = dollars c" "inv_balance r' = dollars (cents_of (inv_balance r) - c)"
      "inv_status r' = Inv_paid \<longleftrightarrow> c = cents_of (inv_balance r)"
      "mappingOf t (cap_objectId input) = Some (linkMapping (db_next s) input now m)"
      using capture_taken[OF assms(1,2) 3(1) assms(3) _ assms(4-6)] 3(2) ref by blast
    have "paymentsOf t (inv_id r) = paymentsOf s (inv_id r) @ [cardPayment (db_next s) r input now]"
      using t(3) by (simp add: paymentsOf_filter)
    moreover have "pay_method (cardPayment (db_next s) r input now) = Pay_card" by (simp add: cardPayment_def)
    ultimately show ?thesis using 3 t by (simp del: cardPayment_sel(4))
  qed
  then show ?thesis unfolding refused_def .
qed

text \<open>
  Ways a checkout session reaches the books: a webhook event, and settlement on return from the
  checkout page, which is also what the sweep does for each pending session.
\<close>

inductive delivered :: "string \<Rightarrow> db \<Rightarrow> db \<Rightarrow> bool" for x where
  completed: "cs_id session = x \<Longrightarrow> ev_data e = SessionCompleted session \<Longrightarrow> handleStripeEvent e now s = Inr (u, t) \<Longrightarrow> delivered x s t"
| succeeded: "cs_id session = x \<Longrightarrow> ev_data e = SessionAsyncSucceeded session \<Longrightarrow> handleStripeEvent e now s = Inr (u, t) \<Longrightarrow> delivered x s t"
| settled: "(\<And>key session. retrieve key x = Inr session \<Longrightarrow> cs_id session = x) \<Longrightarrow>
    settleCheckoutSession decrypt retrieve p x now s = Inr (res, t) \<Longrightarrow> delivered x s t"

definition recorded :: "string \<Rightarrow> db \<Rightarrow> bool" where
  "recorded x s \<longleftrightarrow> (case mappingOf s x of None \<Rightarrow> False | Some m \<Rightarrow> sp_invoicePaymentId m \<noteq> None)"

text \<open>What one delivery does to the payments.\<close>

definition atMostOne :: "string \<Rightarrow> db \<Rightarrow> db \<Rightarrow> bool" where
  "atMostOne x s t \<longleftrightarrow> (if recorded x s then t = s
     else db_invoicePayments t = db_invoicePayments s \<or> recorded x t \<and> (\<exists>p. db_invoicePayments t = db_invoicePayments s @ [p]))"

lemma atMostOne_refl [simp]: "atMostOne x s s"
  by (simp add: atMostOne_def)

lemma atMostOne_recordStripePayment:
  assumes "recordStripePayment input now s = Inr (i, t)"
  shows "atMostOne (cap_objectId input) s t"
  using assms
proof (cases rule: recordStripePayment_cases)
  case (refused m r e)
  then show ?thesis by (simp add: atMostOne_def recorded_def markMapping_def)
next
  case (taken m r u v es)
  have u: "u = s \<lparr> db_next := Suc (db_next s), db_invoicePayments := db_invoicePayments s @ [cardPayment (db_next s) r input now] \<rparr>"
    using taken(6) by (auto simp: insertPayment_def guard_simps insertRow_def)
  have v: "v = updateInvoices (inv_id r) (restate (paymentsOf u (inv_id r)) now) u" by (rule recomputeInvoiceStatus_eq[OF taken(7)])
  have "mappingOf v (cap_objectId input) = Some m" using taken(1) by (simp add: v u) (simp add: mappingOf_def)
  then have "mappingOf t (cap_objectId input) = Some (linkMapping (db_next s) input now m)" by (simp add: taken(8) mappingOf_update)
  then show ?thesis using taken(1,2) by (simp add: atMostOne_def recorded_def taken(8) v u)
qed simp

lemma sessionCapture_object:
  "sessionCapture session account = Inr (Some input) \<Longrightarrow> cap_objectId input = cs_id session \<and> cap_accountId input = account"
  by (auto simp: sessionCapture_def Let_def bindE_eq_Inr split: if_splits)

lemma atMostOne_recordSession: "recordSession session account now s = Inr (u, t) \<Longrightarrow> atMostOne (cs_id session) s t"
  by (erule recordSession_cases) (simp, metis sessionCapture_object atMostOne_recordStripePayment)

lemma atMostOne_delivered: "delivered x s t \<Longrightarrow> atMostOne x s t"
proof (induction rule: delivered.induct)
  case (settled retrieve decrypt p now s res t)
  from settled(2) show ?case
  proof (cases rule: settleCheckoutSession_cases)
    case (paid key account session input i)
    then show ?thesis using settled(1) sessionCapture_object atMostOne_recordStripePayment by metis
  qed simp
qed (auto simp: handleStripeEvent_def split: if_splits dest: atMostOne_recordSession)

text \<open>
  (C4) A charge is recorded at most once: any sequence of deliveries of one checkout session, by
  webhook, by return from the checkout page or by the sweep, adds at most one payment to the books;
  once a payment is recorded, further deliveries leave the whole state as it is.
\<close>

theorem capture_recorded_once:
  assumes "(delivered x)\<^sup>*\<^sup>* s t"
  shows "if recorded x s then t = s
    else db_invoicePayments t = db_invoicePayments s \<or> recorded x t \<and> (\<exists>p. db_invoicePayments t = db_invoicePayments s @ [p])"
proof -
  have "atMostOne x s t"
    using assms
  proof (induction rule: rtranclp_induct)
    case (step t u)
    then show ?case using atMostOne_delivered[OF step(2)] by (auto simp: atMostOne_def split: if_splits)
  qed simp
  then show ?thesis by (simp add: atMostOne_def)
qed

section \<open>Refunds\<close>


lemma usd_decimal: "\<not> isZeroDecimal ''USD''" "\<not> isZeroDecimal ''usd''"
  by code_simp+

lemma fromMinorUnits_cents:
  assumes "0 < c" "c < 10 ^ 12" "\<not> isZeroDecimal cur"
  shows "fromMinorUnits (Some (of_int c)) cur = Inr (dollars c)"
proof -
  have "js_Number (of_int c) = of_int c" using assms by (simp add: js_Number_def rnd_of_int)
  moreover have "toFixed 2 (fdiv (of_int c) 100) = of_int c / 100" using fromCents_int[of c] assms by (simp add: fromCents_def)
  ultimately show ?thesis using assms by (simp add: fromMinorUnits_def dollars_def)
qed

text \<open>The recomputation after the amount of a payment was set, when the columns can hold the result.\<close>

lemma adjusted_row:
  assumes "billing_ok s" "p \<in> set (db_invoicePayments s)" "invOf s (pay_invoiceId p) = Some r" "live r" "money_ok (dollars c)" "0 < c"
    and u: "u = s \<lparr> db_invoicePayments := map (\<lambda>q. if pay_id q = pay_id p then q \<lparr> pay_amount := dollars c \<rparr> else q) (db_invoicePayments s) \<rparr>"
    and fits: "\<bar>cents_of (inv_total r) - (paidCents (pay_invoiceId p) (db_invoicePayments s) + c - cents_of (pay_amount p))\<bar> < 10 ^ 12"
      "paidCents (pay_invoiceId p) (db_invoicePayments s) + c < 10 ^ 12"
  shows "paidCents (pay_invoiceId p) (db_invoicePayments u) = paidCents (pay_invoiceId p) (db_invoicePayments s) + c - cents_of (pay_amount p)"
    "restated (db_invoicePayments u) r (restate (paymentsOf u (pay_invoiceId p)) now r)"
    "recomputeInvoiceStatus (pay_invoiceId p) now u = Inr (updateInvoices (pay_invoiceId p) (restate (paymentsOf u (pay_invoiceId p)) now) u)"
proof -
  let ?i = "pay_invoiceId p"
  have pos: "money_ok (pay_amount q) \<and> 0 < cents_of (pay_amount q)" if "q \<in> set (db_invoicePayments u)" for q
    using billing_paysD(1)[OF assms(1)] that assms(5,6) by (auto simp: u split: if_splits)
  have "distinct (map pay_id (db_invoicePayments s))" using assms(1) by (simp add: billing_ok_def ledger_ok_def pays_ok_def key_ok_def)
  from paidCents_adjust[OF assms(2) this refl, of "dollars c"]
  show paid: "paidCents ?i (db_invoicePayments u) = paidCents ?i (db_invoicePayments s) + c - cents_of (pay_amount p)" by (simp add: u)
  then have b: "paidCents ?i (db_invoicePayments u) < 10 ^ 12" using fits(2) billing_paysD(1)[OF assms(1,2)] by simp
  show re: "restated (db_invoicePayments u) r (restate (paymentsOf u ?i) now r)"
    unfolding paymentsOf_filter
    by (rule restated_restate) (use pos b billing_invOf[OF assms(1,3)] assms(4) in \<open>simp_all add: doc_ok_def doc_state_def live_def\<close>)
  have "inv_id r = ?i" using billing_invOf[OF assms(1,3)] by (simp add: doc_ok_def)
  moreover have "0 \<le> paidCents ?i (db_invoicePayments u)" using pos by (intro paidCents_nonneg) simp
  ultimately have "moneyFits (inv_amountPaid (restate (paymentsOf u ?i) now r))" "moneyFits (inv_balance (restate (paymentsOf u ?i) now r))"
    using re b fits(1) paid by (simp_all add: restated_def moneyFits_money_ok money_ok_def)
  moreover have "invOf u ?i = Some r" using assms(3) by (simp add: u invOf_def)
  ultimately show "recomputeInvoiceStatus ?i now u = Inr (updateInvoices ?i (restate (paymentsOf u ?i) now) u)"
    by (simp add: recomputeInvoiceStatus_def getOwnedInvoiceOr404_def Let_def)
qed

text \<open>
  (C14) A late refund event overpays an invoice. Stripe reports the cumulative refund of a charge, and the handler
  sets the payment to the charge less that refund without asking whether a later refund was reflected before. When
  the amount it sets exceeds the payment by more than the open balance, for instance because the customer paid
  the refunded part by hand in between, the handler accepts the event and the invoice shows more paid than its
  total and a negative balance.
\<close>

theorem late_refund_overpays:
  assumes "billing_ok s" "selectOne (\<lambda>m. sp_paymentIntentId m = Some (rfi_paymentIntentId input)) (db_stripePayments s) = Some m"
    and "sp_invoicePaymentId m = Some (pay_id p)" "p \<in> set (db_invoicePayments s)"
    and "rfi_accountId input = sp_stripeAccountId m" "rfi_accountId input \<noteq> []" "rfi_currency input = ''usd''"
    and "invOf s (sp_invoiceId m) = Some r" "live r" "0 \<le> cents_of (inv_total r)"
    and "c = rfi_chargeAmountCents input - rfi_amountRefundedCents input" "0 < c"
    and "cents_of (inv_balance r) < c - cents_of (pay_amount p)" "paidCents (sp_invoiceId m) (db_invoicePayments s) + c < 10 ^ 12"
  shows "\<exists>t r'. reflectStripeRefund input now s = Inr ((), t) \<and> invOf t (sp_invoiceId m) = Some r' \<and> inv_total r' = inv_total r \<and>
    inv_amountPaid r' = dollars (paidCents (sp_invoiceId m) (db_invoicePayments s) + c - cents_of (pay_amount p)) \<and>
    inv_total r' < inv_amountPaid r' \<and> inv_balance r' < 0 \<and> inv_status r' = Inv_paid"
proof -
  let ?i = "sp_invoiceId m" and ?paid = "paidCents (sp_invoiceId m) (db_invoicePayments s)"
  define u where "u = s \<lparr> db_invoicePayments := map (\<lambda>q. if pay_id q = pay_id p then q \<lparr> pay_amount := dollars c \<rparr> else q) (db_invoicePayments s) \<rparr>"
  define g where "g = restate (paymentsOf u ?i) now"
  obtain q where "q \<in> set (db_invoicePayments s)" "pay_id q = pay_id p" "pay_invoiceId q = ?i"
    using billing_mappings[OF assms(1)] selectOne_Some[OF assms(2)] assms(3) by (auto simp: mappings_ok_def)
  then have p: "pay_invoiceId p = ?i" using pays_unique[of "ledgerOf s" p q] assms(1,4) by (simp add: billing_ok_def ledger_ok_def)
  have pos: "0 \<le> ?paid" using billing_paysD(1)[OF assms(1)] by (intro paidCents_nonneg) simp
  then have mc: "money_ok (dollars c)" "c < 10 ^ 12" using assms(12,14) by (simp_all add: money_ok_def)
  note d = billing_invOf[OF assms(1,8)]
  define b where "b = cents_of (inv_total r) - (?paid + c - cents_of (pay_amount p))"
  have b: "b < 0" "- (10 ^ 12) < b"
    using d assms(9,10,13,14) billing_paysD(1)[OF assms(1,4)] by (auto simp: b_def doc_ok_def doc_state_def live_def)
  then have fits: "\<bar>cents_of (inv_total r) - (?paid + c - cents_of (pay_amount p))\<bar> < 10 ^ 12" by (simp add: b_def)
  note adj = adjusted_row[OF assms(1,4) _ assms(9) mc(1) assms(12) u_def, unfolded p, OF assms(8) fits assms(14)]
  have row: "inv_amountPaid (g r) = dollars (?paid + c - cents_of (pay_amount p))" "inv_balance (g r) = dollars b" "inv_status (g r) = Inv_paid"
    "inv_total (g r) = inv_total r"
    using adj(2)[of now] adj(1) b(1) d assms(9) by (auto simp: g_def restated_def b_def doc_ok_def doc_state_def live_def split: if_splits)
  define v where "v = markMapping (sp_id m) Sp_partially_refunded now (updateInvoices ?i g u)"
  have part: "\<not> rfi_chargeAmountCents input \<le> rfi_amountRefundedCents input" using assms(11,12) by simp
  have "refundPayment input m (pay_id p) now s = Inr (markMapping (sp_id m) Sp_partially_refunded now u)"
    unfolding refundPayment_def assms(7) assms(11)[symmetric] fromMinorUnits_cents[OF assms(12) mc(2) usd_decimal(2)] using part assms(12) mc(1)
    by (simp add: moneyError_def setPaymentAmount_def moneyFits_money_ok updateWhere_def) (simp add: u_def)
  moreover have "recomputeInvoiceStatus ?i now (markMapping (sp_id m) Sp_partially_refunded now u) = Inr v"
    using adj(3)[of now] by (simp add: markMapping_def recompute_updateMappings v_def g_def)
  moreover have iv: "invOf v ?i = Some (g r)" using assms(8) by (simp add: v_def markMapping_def invOf_update g_def u_def) (simp add: invOf_def)
  ultimately have "\<exists>e. reflectStripeRefund input now s = Inr ((), emit e v)"
    using assms(2,3,5,6) by (auto simp: reflectStripeRefund_def)
  moreover have "inv_total r = dollars (cents_of (inv_total r))" using d by (simp add: doc_ok_def doc_state_def money_ok_def dollars_cents_of)
  then have "inv_total r < inv_amountPaid (g r)" using b(1) by (simp add: row(1) b_def) (simp add: dollars_def)
  moreover have "inv_balance (g r) < 0" using b(1) by (simp add: row(2) dollars_def)
  ultimately show ?thesis using row iv by auto
qed

lemma full_refund_unlinks:
  assumes "reflectStripeRefund input now s = Inr ((), t)" "rfi_chargeAmountCents input \<le> rfi_amountRefundedCents input"
    and "selectOne (\<lambda>m. sp_paymentIntentId m = Some (rfi_paymentIntentId input)) (db_stripePayments s) = Some m"
    and "sp_invoicePaymentId m = Some k" "rfi_accountId input = sp_stripeAccountId m" "rfi_accountId input \<noteq> []"
    and "mappingOf s x = Some m"
  shows "mappingOf t x = Some (m \<lparr> sp_status := Sp_refunded, sp_invoicePaymentId := None, sp_lastEventAt := Some now, sp_updatedAt := now \<rparr>)"
proof -
  obtain u v e where u: "refundPayment input m k now s = Inr u" and v: "recomputeInvoiceStatus (sp_invoiceId m) now u = Inr v" "t = emit e v"
    using assms(1,3-6) by (auto simp: reflectStripeRefund_def bindE_eq_Inr)
  define w where "w = s \<lparr> db_invoicePayments := deleteWhere (\<lambda>p. pay_id p = k) (db_invoicePayments s),
    db_stripePayments := updateWhere (\<lambda>m. sp_invoicePaymentId m = Some k) (\<lambda>m. m \<lparr> sp_invoicePaymentId := None \<rparr>) (db_stripePayments s) \<rparr>"
  have ue: "u = updateMappings (sp_id m) (\<lambda>r. r \<lparr> sp_status := Sp_refunded, sp_invoicePaymentId := None, sp_lastEventAt := Some now, sp_updatedAt := now \<rparr>) w"
    using u assms(2) by (auto simp: refundPayment_def deletePaymentRow_def guard_simps w_def)
  have "mappingOf w x = Some (m \<lparr> sp_invoicePaymentId := None \<rparr>)"
    using assms(4,7) by (simp add: mappingOf_def w_def selectOne_updateWhere)
  from mappingOf_update[OF this, of "\<lambda>r. r \<lparr> sp_status := Sp_refunded, sp_invoicePaymentId := None, sp_lastEventAt := Some now, sp_updatedAt := now \<rparr>"]
  have "mappingOf u x = Some (m \<lparr> sp_status := Sp_refunded, sp_invoicePaymentId := None, sp_lastEventAt := Some now, sp_updatedAt := now \<rparr>)"
    by (simp add: ue)
  then show ?thesis using recomputeInvoiceStatus_eq[OF v(1)] by (simp add: v(2))
qed

text \<open>
  A refunded charge can be recorded again. When a full refund is reflected (after a partial one,
  which took the mapping out of \<open>succeeded\<close>), the link of the mapping is cleared, and the only guard
  against a second recording is that link: the next delivery of the same session, for instance a
  reload of the return page, books the refunded money as a new payment.
\<close>

lemma refunded_capture_recorded_again:
  assumes "billing_ok s" "mappingOf s (cap_objectId c) = Some m" "sp_invoicePaymentId m = Some k"
    and "selectOne (\<lambda>m. sp_paymentIntentId m = Some (rfi_paymentIntentId input)) (db_stripePayments s) = Some m"
    and "rfi_accountId input = sp_stripeAccountId m" "rfi_accountId input \<noteq> []"
    and "rfi_chargeAmountCents input \<le> rfi_amountRefundedCents input" "reflectStripeRefund input now s = Inr ((), t)"
    and "invOf t (sp_invoiceId m) = Some r" "live r" "map toUpperChar (cap_currency c) = map toUpperChar (inv_currencyCode r)"
    and "cap_accountId c = sp_stripeAccountId m" "cap_amount c = dollars a" "0 < a" "a \<le> cents_of (inv_balance r)"
  shows "\<exists>u. recordStripePayment c now' t = Inr (sp_invoiceId m, u) \<and>
    paidCents (sp_invoiceId m) (db_invoicePayments u) = paidCents (sp_invoiceId m) (db_invoicePayments t) + a"
proof -
  let ?m = "m \<lparr> sp_status := Sp_refunded, sp_invoicePaymentId := None, sp_lastEventAt := Some now, sp_updatedAt := now \<rparr>"
  have ok: "billing_ok t"
    using refines_billing_ok[OF refines_reflectStripeRefund[OF assms(8), of False] assms(1)] assms(7) by (simp add: refundInOrder_def)
  have m: "mappingOf t (cap_objectId c) = Some ?m" by (rule full_refund_unlinks[OF assms(8,7,4,3,5,6,2)])
  have "a < 10 ^ 12" using balance_bound[OF ok assms(9,10)] assms(15) by auto
  moreover have "\<not> refuseCapture c ?m r"
    using assms(5,6,10-15) dollars_compare[OF ok assms(9,10,14) calculation] by (simp add: refuseCapture_def live_def)
  moreover have "inv_id r = sp_invoiceId m" using billing_invOf[OF ok assms(9)] by (simp add: doc_ok_def)
  ultimately show ?thesis
    using capture_taken[OF ok m _ _ _ assms(13,14), of r now'] assms(9) by (auto simp: paidCents_append simp del: cardPayment_sel(4))
qed

section \<open>The pay link\<close>

text \<open>
  The second click on a pay link fails. Stripe answers a repeated idempotency key with the
  session of the first request (\<open>idem\<close>), so while the balance is unchanged the second call inserts a
  mapping for a session that is already mapped and trips the unique index.
\<close>

lemma second_click_fails:
  assumes "createInvoicePayLink decrypt create i a now s = Inr (url, t)"
    and idem: "\<And>key req session. create key req = Inr session \<Longrightarrow> create' key req = Inr session"
  shows "createInvoicePayLink decrypt create' i a now' t = Inl (JsError ''unique violation'')"
proof -
  obtain r :: invoice and b key account session where r: "invOf s i = Some r" and o: "requireOrgAccess a (inv_orgId r) = Inr ()"
    "isPayable (inv_status r)" "moneyError (toMinorUnits (Some (inv_balance r)) (inv_currencyCode r)) = Inr b" "\<not> b \<le> 0"
    and k: "stripeClientOr409 decrypt (inv_partnerId r) s = Inr (key, account)"
    and c: "create key \<lparr> sr_currency = map toLowerChar (inv_currencyCode r), sr_unitAmount = b,
        sr_invoiceId = inv_id r, sr_orgId = inv_orgId r, sr_partnerId = inv_partnerId r,
        sr_idempotencyKey = (inv_id r, b) \<rparr> = Inr session"
    and u: "isPgText (cs_url session)" and t: "insertMapping (pendingMapping (db_next s) r account session now) s = Inr t"
    using assms(1) by (auto simp: createInvoicePayLink_def guard_simps split: prod.splits)
  have te: "t = s \<lparr> db_next := Suc (db_next s), db_stripePayments := insertRow (pendingMapping (db_next s) r account session now) (db_stripePayments s) \<rparr>"
    using t by (auto simp: insertMapping_def guard_simps)
  have "getOwnedInvoiceOr404 i t = Inr r" "stripeClientOr409 decrypt (inv_partnerId r) t = Inr (key, account)"
    using r k by (simp_all add: te getOwnedInvoiceOr404_def invOf_def stripeClientOr409_def getPartnerStripeClient_def getConnection_def)
  moreover have "insertMapping (pendingMapping (db_next t) r account session now') t = Inl (JsError ''unique violation'')"
    by (simp add: te insertMapping_def pendingMapping_def guardE_def set_insertRow)
  ultimately show ?thesis
    using o idem[OF c] u by (simp add: createInvoicePayLink_def)
qed

section \<open>Accounts\<close>

text \<open>The invoice and the payments of \<open>i\<close> are what they were.\<close>

definition untouched :: "uuid \<Rightarrow> db \<Rightarrow> db \<Rightarrow> bool" where
  "untouched i s t \<longleftrightarrow> invOf t i = invOf s i \<and> paymentsOf t i = paymentsOf s i"

lemma untouched_refl [simp]: "untouched i s s"
  by (simp add: untouched_def)

lemma untouched_simps [simp]:
  "untouched i s (emit e t) = untouched i s t" "untouched i s (t \<lparr> db_events := es \<rparr>) = untouched i s t"
  "untouched i s (updateMappings k f t) = untouched i s t" "untouched i s (t \<lparr> db_stripeAccounts := c \<rparr>) = untouched i s t"
  by (simp_all add: untouched_def paymentsOf_def invOf_def emit_def)

lemma untouched_recompute:
  "recomputeInvoiceStatus j now u = Inr t \<Longrightarrow> untouched i s u \<Longrightarrow> i \<noteq> j \<Longrightarrow> untouched i s t"
  by (drule recomputeInvoiceStatus_eq) (simp add: untouched_def invOf_update paymentsOf_def)

lemma untouched_recordStripePayment:
  assumes "recordStripePayment input now s = Inr (j, t)"
    "\<And>m. m \<in> set (db_stripePayments s) \<Longrightarrow> sp_invoiceId m = i \<Longrightarrow> sp_stripeAccountId m = cap_accountId input \<Longrightarrow> cap_accountId input = []"
  shows "untouched i s t"
  using assms(1)
proof (cases rule: recordStripePayment_cases)
  case (taken m r u v es)
  have id: "inv_id r = sp_invoiceId m" using selectOne_Some taken(3) by (fastforce simp: invOf_def)
  have "sp_stripeAccountId m = cap_accountId input" "cap_accountId input \<noteq> []" using taken(4) by (auto simp: refuseCapture_def)
  then have i: "i \<noteq> inv_id r" using assms(2)[of m] mappingOf_key[OF taken(1)] id by auto
  have "untouched i s u"
    using taken(6) i by (auto simp: insertPayment_def guard_simps untouched_def invOf_def paymentsOf_filter insertRow_def)
  then have "untouched i s v" using untouched_recompute[OF taken(7)] i by blast
  then show ?thesis by (simp add: taken(8))
qed (simp_all add: markMapping_def)

lemma filter_updateWhere_other:
  "(\<And>q. q \<in> set ps \<Longrightarrow> P q \<Longrightarrow> \<not> Q q \<and> \<not> Q (f q)) \<Longrightarrow> filter Q (updateWhere P f ps) = filter Q ps"
  by (induction ps) (auto simp: updateWhere_def)

lemma untouched_reflectStripeRefund:
  assumes "reflectStripeRefund input now s = Inr ((), t)" "billing_ok s"
    "\<And>m. m \<in> set (db_stripePayments s) \<Longrightarrow> sp_invoiceId m = i \<Longrightarrow> sp_stripeAccountId m = rfi_accountId input \<Longrightarrow> rfi_accountId input = []"
  shows "untouched i s t"
  using assms(1)
proof (cases rule: reflectStripeRefund_cases)
  case (taken m k u v e)
  have m: "m \<in> set (db_stripePayments s)" using selectOne_Some[OF taken(1)] by simp
  then have i: "i \<noteq> sp_invoiceId m" using assms(3) taken(3,4) by auto
  obtain p where p: "p \<in> set (db_invoicePayments s)" "pay_id p = k" "pay_invoiceId p = sp_invoiceId m"
    using billing_mappings[OF assms(2)] m taken(2) by (auto simp: mappings_ok_def)
  have other: "pay_invoiceId q \<noteq> i" if "q \<in> set (db_invoicePayments s)" "pay_id q = k" for q
    using pays_unique[of "ledgerOf s" p q] assms(2) that p i by (auto simp: billing_ok_def ledger_ok_def)
  have "filter (\<lambda>q. pay_invoiceId q = i) (deleteWhere (\<lambda>q. pay_id q = k) (db_invoicePayments s)) = filter (\<lambda>q. pay_invoiceId q = i) (db_invoicePayments s)"
    unfolding deleteWhere_def filter_filter by (rule filter_cong) (use other in auto)
  moreover have "filter (\<lambda>q. pay_invoiceId q = i) (updateWhere (\<lambda>q. pay_id q = k) (\<lambda>q. q \<lparr> pay_amount := a \<rparr>) (db_invoicePayments s)) =
    filter (\<lambda>q. pay_invoiceId q = i) (db_invoicePayments s)" for a
    by (rule filter_updateWhere_other) (use other in auto)
  ultimately have "untouched i s u"
    using taken(5)
    by (auto simp: refundPayment_def deletePaymentRow_def setPaymentAmount_def guard_simps markMapping_def untouched_def invOf_def
        paymentsOf_filter split: if_splits)
  then have "untouched i s v" using untouched_recompute[OF taken(6)] i by blast
  then show ?thesis by (simp add: taken(7))
qed simp

text \<open>
  (C11) An event of one Stripe account reaches only the invoices with a mapping of that account: every
  other invoice keeps its row and its payments, whatever the event carries. A money-moving event of
  an account that is not connected, or whose mode differs from the connection's, changes nothing.
\<close>

theorem webhook_isolated:
  assumes "handleStripeEvent e now s = Inr (u, t)" "billing_ok s"
    and "\<And>m. m \<in> set (db_stripePayments s) \<Longrightarrow> sp_invoiceId m = i \<Longrightarrow> Some (sp_stripeAccountId m) \<noteq> ev_account e"
  shows "invOf t i = invOf s i \<and> paymentsOf t i = paymentsOf s i \<and>
    (moneyMoving (ev_data e) \<and> (\<forall>c. getConnectionByAccount (nullish (ev_account e) []) s = Some c \<longrightarrow> sa_livemode c \<noteq> ev_livemode e) \<longrightarrow> t = s)"
proof -
  have acc: "nullish (ev_account e) [] = []" if "m \<in> set (db_stripePayments s)" "sp_invoiceId m = i" "sp_stripeAccountId m = nullish (ev_account e) []" for m
    using assms(3)[OF that(1,2)] that(3) by (cases "ev_account e") (auto simp: nullish_def)
  have session: "untouched i s t" if "recordSession session (ev_account e) now s = Inr (u, t)" for session
    using that
  proof (cases rule: recordSession_cases)
    case (paid input j)
    then show ?thesis using untouched_recordStripePayment[OF paid(2)] sessionCapture_object[OF paid(1)] acc by metis
  qed simp
  have refund: "untouched i s t" if "reflectStripeRefund input now s = Inr ((), t)" "rfi_accountId input = nullish (ev_account e) []" for input
    by (rule untouched_reflectStripeRefund[OF that(1) assms(2)]) (use acc that(2) in simp)
  have "untouched i s t"
    using assms(1) session refund
    by (auto simp: handleStripeEvent_def paymentFailed_def markMapping_def markDisconnectedByAccount_def split: if_splits stripe_event_data.splits option.splits)
  moreover have "t = s" if "moneyMoving (ev_data e)" "\<forall>c. getConnectionByAccount (nullish (ev_account e) []) s = Some c \<longrightarrow> sa_livemode c \<noteq> ev_livemode e"
    using assms(1) that by (auto simp: handleStripeEvent_def eventAllowed_def split: option.splits if_splits)
  ultimately show ?thesis by (simp add: untouched_def)
qed

text \<open>
  The key a partner saves is the key the checkout uses: after \<open>savePartnerStripeKey\<close> the client
  of the partner has the trimmed key and the account the key belongs to, the status shows them, no
  other partner's connection changes, and after a disconnect the checkout has no key. The cipher is a
  parameter that decrypts what it encrypts and never encrypts to nothing.
\<close>

lemma stripe_key_round_trip:
  assumes "savePartnerStripeKey probe encrypt p input user now s = Inr ((account, last4, livemode), t)" "js_trim input \<noteq> []"
    and cipher: "\<And>k. decrypt (encrypt k) = Some k" "\<And>k. encrypt k \<noteq> []"
  shows "getPartnerStripeClient decrypt p t = Inr (js_trim input, account) \<and>
    getPartnerStripeStatus p t = StripeConnected account (Some last4) livemode \<and>
    (\<forall>q. q \<noteq> p \<longrightarrow> getConnection q t = getConnection q s) \<and>
    getPartnerStripeClient decrypt p (disconnectPartnerStripe p now' t) = Inl (StripeErr 409 NO_STRIPE_KEY)"
proof -
  let ?row = "accountRow p account (js_trim input) (encrypt (js_trim input)) user now"
  have t: "t = s \<lparr> db_stripeAccounts := (if \<exists>c \<in> set (db_stripeAccounts s). sa_partnerId c = p
      then updateWhere (\<lambda>c. sa_partnerId c = p) (\<lambda>_. ?row) (db_stripeAccounts s) else insertRow ?row (db_stripeAccounts s)) \<rparr>"
    and out: "last4 = lastFour (js_trim input)" "livemode = isLiveKey (js_trim input)"
    using assms(1) by (auto simp: savePartnerStripeKey_def guard_simps Let_def)
  have row: "sa_partnerId ?row = p" "sa_status ?row = Conn_connected" "sa_apiKey ?row = Some (encrypt (js_trim input))"
    "sa_stripeAccountId ?row = account" "sa_keyLast4 ?row = Some last4" "sa_livemode ?row = livemode"
    by (simp_all add: accountRow_def out)
  have mine: "getConnection p t = Some ?row"
  proof (cases "selectOne (\<lambda>c. sa_partnerId c = p) (db_stripeAccounts s)")
    case None
    moreover have "\<not> (\<exists>c \<in> set (db_stripeAccounts s). sa_partnerId c = p)" using None by (simp add: selectOne_None)
    ultimately show ?thesis by (simp add: t getConnection_def selectOne_insertRow row)
  next
    case (Some c)
    then show ?thesis using selectOne_Some[OF Some] by (auto simp: t getConnection_def selectOne_updateWhere_same row)
  qed
  moreover have "getConnection q t = getConnection q s" if "q \<noteq> p" for q
    using that selectOne_updateWhere_other[of "\<lambda>c. sa_partnerId c = p" "\<lambda>c. sa_partnerId c = q" "\<lambda>_. ?row" "db_stripeAccounts s"]
    by (auto simp: t getConnection_def selectOne_insertRow row split: option.splits)
  moreover have "\<exists>c. getConnection p (disconnectPartnerStripe p now' t) = Some c \<and> sa_status c = Conn_disconnected"
    using mine by (auto simp: getConnection_def disconnectPartnerStripe_def selectOne_updateWhere_same)
  ultimately show ?thesis
    using cipher assms(2) by (auto simp: getPartnerStripeClient_def getPartnerStripeStatus_def row isPgText_def nullish_def)
qed

section \<open>The sweep\<close>

definition finished :: "stripe_payment \<Rightarrow> bool" where
  "finished m \<longleftrightarrow> sp_status m = Sp_succeeded \<or> sp_status m = Sp_failed"

text \<open>What settling other sessions leaves of the one with object \<open>x\<close> on invoice \<open>v\<close>.\<close>

definition steady :: "string \<Rightarrow> uuid \<Rightarrow> db \<Rightarrow> db \<Rightarrow> bool" where
  "steady x v s t \<longleftrightarrow> (billing_ok s \<longrightarrow> billing_ok t) \<and> db_stripeAccounts t = db_stripeAccounts s \<and>
     (invOf s v \<noteq> None \<longrightarrow> invOf t v \<noteq> None) \<and>
     (\<forall>m. mappingOf s x = Some m \<longrightarrow> mappingOf t x = Some m \<or> (\<exists>m'. mappingOf t x = Some m' \<and> finished m'))"

lemma steady_refl [simp]: "steady x v s s"
  by (simp add: steady_def)

lemma steady_trans: "steady x v s t \<Longrightarrow> steady x v t u \<Longrightarrow> steady x v s u"
  unfolding steady_def by (metis (no_types))

lemma mappingOf_updateMappings:
  "(\<And>r. sp_objectId (f r) = sp_objectId r) \<Longrightarrow> mappingOf (updateMappings k f s) x = map_option (\<lambda>r. if sp_id r = k then f r else r) (mappingOf s x)"
  by (simp add: mappingOf_def updateMappings_def selectOne_updateWhere)

lemma steady_recordStripePayment:
  assumes "recordStripePayment input now s = Inr (i, t)"
  shows "steady x v s t"
proof -
  have ok: "billing_ok s \<longrightarrow> billing_ok t" using refines_billing_ok[OF refines_recordStripePayment[OF assms]] by blast
  show ?thesis
    using assms
  proof (cases rule: recordStripePayment_cases)
    case (refused m r e)
    have "db_stripeAccounts t = db_stripeAccounts s" "invOf t v = invOf s v" by (simp_all add: refused(6) markMapping_def emit_def invOf_def)
    moreover have "mappingOf t x = map_option (\<lambda>r. if sp_id r = sp_id m then r \<lparr> sp_status := Sp_failed, sp_lastEventAt := Some now, sp_updatedAt := now \<rparr> else r) (mappingOf s x)"
      by (simp add: refused(6) markMapping_def mappingOf_updateMappings)
    ultimately show ?thesis using ok by (auto simp: steady_def finished_def)
  next
    case (taken m r u w es)
    have u: "u = s \<lparr> db_next := Suc (db_next s), db_invoicePayments := insertRow (cardPayment (db_next s) r input now) (db_invoicePayments s) \<rparr>"
      using taken(6) by (auto simp: insertPayment_def guard_simps)
    have w: "w = updateInvoices (inv_id r) (restate (paymentsOf u (inv_id r)) now) u" by (rule recomputeInvoiceStatus_eq[OF taken(7)])
    have "db_stripeAccounts t = db_stripeAccounts s" by (simp add: taken(8) w u updateInvoices_def)
    moreover have "invOf t v \<noteq> None" if "invOf s v \<noteq> None"
      using that by (auto simp: taken(8) w invOf_update) (simp_all add: u invOf_def)
    moreover have "mappingOf t x = map_option (\<lambda>r. if sp_id r = sp_id m then linkMapping (db_next s) input now r else r) (mappingOf s x)"
      by (simp add: taken(8) w mappingOf_updateMappings) (simp add: u mappingOf_def)
    ultimately show ?thesis using ok by (auto simp: steady_def finished_def)
  qed simp
qed

lemma steady_settleOne: "steady x v (snd st) (snd (settleOne decrypt retrieve now r st))"
proof (cases "settleCheckoutSession decrypt retrieve (fst r) (snd r) now (snd st)")
  case (Inr y)
  obtain res t where y: "y = (res, t)" by (cases y)
  from Inr[unfolded y] have "steady x v (snd st) t"
    by (cases rule: settleCheckoutSession_cases) (auto intro: steady_recordStripePayment)
  then show ?thesis by (simp add: settleOne_def Inr y split: option.split)
qed (simp add: settleOne_def)

lemma steady_fold: "steady x v (snd st) (snd (fold (settleOne decrypt retrieve now) rs st))"
  by (rule fold_path[where R = "\<lambda>u w. steady x v (snd u) (snd w)"])
     (auto intro!: reflpI transpI steady_settleOne intro: steady_trans)

text \<open>The amount of a session in the books, for charges below a hundred million in any currency.\<close>

lemma fromMinorUnits_int:
  assumes "0 < c" "c < 10 ^ 10"
  shows "\<exists>d. fromMinorUnits (Some (of_int c)) cur = Inr (dollars d) \<and> 0 < d \<and> d < 10 ^ 12"
proof -
  have n: "js_Number (of_int c) = of_int c" using assms by (simp add: js_Number_def rnd_of_int)
  show ?thesis
  proof (cases "isZeroDecimal cur")
    case True
    have "toFixed 2 (of_int c) = of_int (100 * c) / 10\<^sup>2" by (rule toFixed_near) simp
    then show ?thesis using True assms by (intro exI[of _ "100 * c"]) (simp add: fromMinorUnits_def n dollars_def)
  next
    case False
    then show ?thesis using assms fromMinorUnits_cents[of c cur] by (intro exI[of _ c]) simp
  qed
qed

lemma capture_finishes:
  assumes "billing_ok s" "mappingOf s (cap_objectId input) = Some m" "sp_invoicePaymentId m = None" "invOf s (sp_invoiceId m) = Some r"
    and "cap_amount input = dollars c" "0 < c" "c < 10 ^ 12"
  shows "\<exists>t m'. recordStripePayment input now s = Inr (inv_id r, t) \<and> mappingOf t (cap_objectId input) = Some m' \<and> finished m'"
proof (cases "refuseCapture input m r")
  case True
  let ?f = "\<lambda>m. m \<lparr> sp_status := Sp_failed, sp_lastEventAt := Some now, sp_updatedAt := now \<rparr>"
  have "mappingOf (updateMappings (sp_id m) ?f s) (cap_objectId input) = Some (?f m)" using assms(2) by (rule mappingOf_update) simp
  moreover have "recordStripePayment input now s = terminalFail m r now s"
    using True assms(2-4) by (simp add: recordStripePayment_def mappingOf_def)
  ultimately show ?thesis by (auto simp: terminalFail_def markMapping_def finished_def)
next
  case False
  from capture_taken[OF assms(1-4) False assms(5-7)] show ?thesis by (fastforce simp: finished_def)
qed

lemma selectOne_distinct: "distinct (map k t) \<Longrightarrow> r \<in> set t \<Longrightarrow> selectOne (\<lambda>q. k q = k r) t = Some r"
  by (induction t) (auto simp: selectOne_def image_iff)

lemma getPartnerStripeClient_cong:
  "db_stripeAccounts t = db_stripeAccounts s \<Longrightarrow> getPartnerStripeClient decrypt p t = getPartnerStripeClient decrypt p s"
  by (simp add: getPartnerStripeClient_def getConnection_def)

text \<open>A paid session of a pending mapping.\<close>

definition paidSession :: "checkout_session \<Rightarrow> string \<Rightarrow> bool" where
  "paidSession session x \<longleftrightarrow> cs_id session = x \<and> cs_paid session \<and> isPgText (cs_paymentIntent session) \<and>
     (case cs_amountTotal session of None \<Rightarrow> False | Some c \<Rightarrow> 0 < c \<and> c < 10 ^ 10)"

lemma paidSession_capture:
  assumes "paidSession session x"
  shows "\<exists>input d. sessionCapture session account = Inr (Some input) \<and> cap_objectId input = x \<and>
    cap_amount input = dollars d \<and> 0 < d \<and> d < 10 ^ 12"
proof -
  obtain c intent where c: "cs_amountTotal session = Some c" "0 < c" "c < 10 ^ 10" "cs_paymentIntent session = Some intent" "intent \<noteq> []"
    "cs_id session = x" "cs_paid session"
    using assms by (auto simp: paidSession_def isPgText_def split: option.splits)
  obtain d where d: "fromMinorUnits (Some (of_int c)) (map toUpperChar (nullish (cs_currency session) ''usd'')) = Inr (dollars d)"
    "0 < d" "d < 10 ^ 12" using fromMinorUnits_int[OF c(2,3)] by blast
  show ?thesis using c d by (simp add: sessionCapture_def nullish_def[of "Some _"] moneyError_def)
qed

lemma settleOne_finishes:
  assumes "billing_ok s" "mappingOf s x = Some m" "finished m \<or> sp_invoicePaymentId m = None \<and> invOf s (sp_invoiceId m) \<noteq> None"
    and "getPartnerStripeClient decrypt p s = Inr (key, account)" "retrieve key x = Inr session" "paidSession session x"
  shows "\<exists>m'. mappingOf (snd (settleOne decrypt retrieve now (p, x) (n, s))) x = Some m' \<and> finished m'"
proof (cases "finished m")
  case True
  then show ?thesis using steady_settleOne[of x 0 "(n, s)" decrypt retrieve now "(p, x)"] assms(2) by (auto simp: steady_def)
next
  case False
  then obtain r where r: "sp_invoicePaymentId m = None" "invOf s (sp_invoiceId m) = Some r" using assms(3) by auto
  obtain input d where i: "sessionCapture session account = Inr (Some input)" "cap_objectId input = x"
    "cap_amount input = dollars d" "0 < d" "d < 10 ^ 12" using paidSession_capture[OF assms(6)] by blast
  obtain t m' where t: "recordStripePayment input now s = Inr (inv_id r, t)" "mappingOf t x = Some m'" "finished m'"
    using capture_finishes[OF assms(1) _ r i(3-5), of now] assms(2) i(2) by auto
  have "settleCheckoutSession decrypt retrieve p x now s = Inr (Some (inv_id r), t)"
    using assms(4,5) i(1) t(1) by (simp add: settleCheckoutSession_def)
  then show ?thesis using t by (simp add: settleOne_def)
qed

text \<open>
  (C10) A paid session does not stay pending: when the sweep runs over a mapping it selects (pending,
  between two minutes and seven days old, among the 200 oldest), the partner's key is readable and
  Stripe reports the session paid, then after the sweep the mapping has succeeded or failed, whatever
  the other sessions of the batch do.
\<close>

theorem sweep_settles:
  assumes "billing_ok s" "m \<in> set (take 200 (sort_key sp_createdAt (selectWhere (sweepDue now s) (db_stripePayments s))))"
    and "invOf s (sp_invoiceId m) = Some r" "getPartnerStripeClient decrypt (inv_partnerId r) s = Inr (key, account)"
    and "retrieve key (sp_objectId m) = Inr session" "paidSession session (sp_objectId m)"
  shows "\<exists>m'. mappingOf (snd (reconcilePendingStripePayments decrypt retrieve now s)) (sp_objectId m) = Some m' \<and>
    (sp_status m' = Sp_succeeded \<or> sp_status m' = Sp_failed)"
proof -
  let ?x = "sp_objectId m" and ?v = "sp_invoiceId m" and ?f = "settleOne decrypt retrieve now"
  let ?due = "take 200 (sort_key sp_createdAt (selectWhere (sweepDue now s) (db_stripePayments s)))"
  let ?g = "\<lambda>m. (case invOf s (sp_invoiceId m) of None \<Rightarrow> 0 | Some r \<Rightarrow> inv_partnerId r, sp_objectId m)"
  have m: "m \<in> set (db_stripePayments s)" "sp_invoicePaymentId m = None"
    using set_take_subset assms(2) by (fastforce simp: set_selectWhere sweepDue_def)+
  have "mappingOf s ?x = Some m"
    using m(1) billing_mappings[OF assms(1)] by (auto simp: mappingOf_def mappings_ok_def intro: selectOne_distinct)
  obtain ys zs where d: "?due = ys @ m # zs" using split_list[OF assms(2)] by blast
  define s1 where "s1 = fold ?f (map ?g ys) (0, s)"
  define s2 where "s2 = ?f (inv_partnerId r, ?x) s1"
  have sweep: "reconcilePendingStripePayments decrypt retrieve now s = fold ?f (map ?g zs) s2"
    unfolding reconcilePendingStripePayments_def d by (simp add: s1_def s2_def assms(3))
  have st: "steady ?x ?v s (snd s1)" using steady_fold[of ?x ?v "(0, s)" decrypt retrieve now] by (simp add: s1_def)
  then obtain m1 where m1: "mappingOf (snd s1) ?x = Some m1" "m1 = m \<or> finished m1"
    using \<open>mappingOf s ?x = Some m\<close> by (auto simp: steady_def)
  have "\<exists>m'. mappingOf (snd s2) ?x = Some m' \<and> finished m'"
    unfolding s2_def
    using settleOne_finishes[where retrieve = retrieve, OF _ m1(1) _ _ assms(5,6), of decrypt "inv_partnerId r" account now "fst s1"]
      m1(2) m(2) st assms(1,3,4)
    by (auto simp: steady_def getPartnerStripeClient_cong[of "snd s1" s])
  then show ?thesis
    using steady_fold[of ?x ?v s2 decrypt retrieve now "map ?g zs"] by (auto simp: sweep steady_def finished_def)
qed

section \<open>A card payment\<close>

definition acct :: stripe_account where
  "acct = \<lparr> sa_partnerId = 10, sa_stripeAccountId = ''acct_1'', sa_livemode = False, sa_status = Conn_connected,
     sa_apiKey = Some ''enc'', sa_keyLast4 = Some ''4242'', sa_connectedBy = None, sa_connectedAt = noon,
     sa_disconnectedAt = None, sa_updatedAt = noon \<rparr>"

definition card_session :: "bool \<Rightarrow> checkout_session" where
  "card_session paid = \<lparr> cs_id = ''cs_1'', cs_url = Some ''https://pay'', cs_paid = paid, cs_paymentIntent = Some ''pi_1'',
     cs_amountTotal = Some 30000, cs_currency = Some ''usd'' \<rparr>"

definition card0 :: db where
  "card0 = day2 \<lparr> db_stripeAccounts := [acct] \<rparr>"

definition pending :: stripe_payment where
  "pending = pendingMapping 103 (issued_invoice 100 1) ''acct_1'' (card_session False) noon"

definition card1 :: db where
  "card1 = card0 \<lparr> db_next := 104, db_stripePayments := [pending] \<rparr>"

definition card_capture :: capture_input where
  "card_capture = \<lparr> cap_objectId = ''cs_1'', cap_paymentIntentId = ''pi_1'', cap_accountId = ''acct_1'', cap_amount = 300,
     cap_currency = ''USD'', cap_receivedAt = None \<rparr>"

definition paid_row :: invoice where
  "paid_row = restate [cardPayment 104 (issued_invoice 100 1) card_capture noon] noon (issued_invoice 100 1)"

definition card2 :: db where
  "card2 = card1 \<lparr> db_next := 105, db_invoices := [paid_row],
     db_invoicePayments := [cardPayment 104 (issued_invoice 100 1) card_capture noon],
     db_stripePayments := [linkMapping 104 card_capture noon pending],
     db_events := db_events card1 @ [InvoiceEvent Ev_payment_recorded 100 20 10 (Some 104), InvoiceEvent Ev_invoice_paid 100 20 10 None] \<rparr>"

lemma card_currency: "inv_currencyCode (issued_invoice i n) = ''USD''"
  by (simp add: issued_invoice_def issueFields_def work_draft_def writeTotals_def blankInvoice_def msp_partner_def)

lemma pending_sel:
  "sp_id pending = 103" "sp_objectId pending = ''cs_1''" "sp_invoiceId pending = 100" "sp_invoicePaymentId pending = None"
  "sp_stripeAccountId pending = ''acct_1''" "sp_status pending = Sp_pending" "sp_paymentIntentId pending = Some ''pi_1''"
  "sp_objectType pending = Obj_checkout_session" "sp_createdAt pending = noon" "sp_orgId pending = 20"
  by (simp_all add: pending_def pendingMapping_def card_session_def issued_invoice_sel)

lemma card_literals [js_simps]:
  "js_Number 30000 = 30000" "js_Number 15000 = 15000" "fdiv 30000 100 = 300" "fdiv 15000 100 = 150" "toFixed 2 300 = 300"
  "fsub 30000 30000 = 0" "fsub 15000 0 = 15000" "fadd 0 30000 = 30000"
  using rnd_of_int[of 30000] rnd_of_int[of 15000] rnd_of_int[of 300] rnd_of_int[of 150] toFixed_near[of 300 2 30000]
  by (simp_all add: js_Number_def fdiv_def fsub_def fadd_def)

lemma card_units:
  "toMinorUnits (Some 300) ''USD'' = Inr 30000" "fromMinorUnits (Some 30000) ''USD'' = Inr 300" "fromMinorUnits (Some 15000) ''usd'' = Inr 150"
  by (simp_all add: toMinorUnits_def fromMinorUnits_def usd_decimal js_simps)

lemma paid_status: "deriveInvoiceStatus False True 300 300 d noon = Inv_paid"
  by (simp add: deriveInvoiceStatus_def js_simps)

lemma card1_eq: "\<exists>url. createInvoicePayLink (\<lambda>_. Some ''sk_test'') (\<lambda>_ _. Inr (card_session False)) 100 msp noon card0 = Inr (url, card1)"
  by (rule after_eq)
     (simp add: createInvoicePayLink_def lookup_defs statement_defs card0_def card1_def day2_sel issued_invoice_sel card_currency
       isPayable_def card_units moneyError_def stripeClientOr409_def getPartnerStripeClient_def acct_def isPgText_def nullish_def
       insertMapping_def pending_def pendingMapping_def msp_def card_session_def)

lemma invOf_card1: "invOf card1 100 = Some (issued_invoice 100 1)"
  by (simp add: invOf_def selectOne_def card1_def card0_def day2_sel issued_invoice_sel)

lemma card1_sel:
  "db_next card1 = 104" "db_invoices card1 = [issued_invoice 100 1]" "db_invoicePayments card1 = []" "db_stripePayments card1 = [pending]"
  "mappingOf card1 ''cs_1'' = Some pending"
  by (simp_all add: card1_def card0_def day2_sel mappingOf_def selectOne_def pending_sel)

definition charged :: "money \<Rightarrow> invoice_payment" where
  "charged a = (cardPayment 104 (issued_invoice 100 1) card_capture noon) \<lparr> pay_amount := a \<rparr>"

lemma card_capture_sel:
  "cap_objectId card_capture = ''cs_1''" "cap_paymentIntentId card_capture = ''pi_1''" "cap_accountId card_capture = ''acct_1''"
  "cap_amount card_capture = 300" "cap_currency card_capture = ''USD''"
  by (simp_all add: card_capture_def)

lemma charged_sel:
  "pay_id (charged a) = 104" "pay_invoiceId (charged a) = 100" "pay_orgId (charged a) = 20" "pay_amount (charged a) = a"
  "(charged a) \<lparr> pay_amount := b \<rparr> = charged b" "cardPayment 104 (issued_invoice 100 1) card_capture noon = charged 300"
  by (simp_all add: charged_def issued_invoice_sel cardPayment_def card_capture_sel js_simps)

lemma not_refused: "\<not> refuseCapture card_capture pending (issued_invoice 100 1)"
  by (simp add: refuseCapture_def card_capture_sel pending_sel issued_invoice_sel card_currency)

lemma restate_sel:
  "inv_id (restate ps now r) = inv_id r" "inv_voidedAt (restate ps now r) = inv_voidedAt r"
  "inv_invoiceNumber (restate ps now r) = inv_invoiceNumber r" "inv_total (restate ps now r) = inv_total r"
  "inv_dueDate (restate ps now r) = inv_dueDate r" "inv_orgId (restate ps now r) = inv_orgId r"
  "inv_partnerId (restate ps now r) = inv_partnerId r" "inv_currencyCode (restate ps now r) = inv_currencyCode r"
  "inv_amountPaid (restate ps now r) = fromCents (sumCents ps)"
  "inv_balance (restate ps now r) = fromCents (fsub (toCents (Some (inv_total r))) (toCents (Some (fromCents (sumCents ps)))))"
  "inv_status (restate ps now r) = deriveInvoiceStatus (inv_voidedAt r \<noteq> None) (inv_invoiceNumber r \<noteq> None) (inv_total r)
     (fromCents (sumCents ps)) (inv_dueDate r) now"
  by (simp_all add: restate_def Let_def)

lemma card2_eq: "recordStripePayment card_capture noon card1 = Inr (100, card2)"
proof -
  let ?u = "card1 \<lparr> db_next := 105, db_invoicePayments := [charged 300] \<rparr>"
  have ins: "insertPayment (charged 300) card1 = Inr ?u"
    by (simp add: insertPayment_def charged_sel card1_sel insertRow_def js_simps)
  have rec: "recomputeInvoiceStatus 100 noon (updateMappings 103 (linkMapping 104 card_capture noon) ?u) =
    Inr (updateMappings 103 (linkMapping 104 card_capture noon) (?u \<lparr> db_invoices := [paid_row] \<rparr>))"
    by (simp add: recompute_updateMappings recomputeInvoiceStatus_def Let_def lookup_defs statement_defs card1_sel issued_invoice_sel
        restate_sel charged_sel sumCents_def js_simps paid_row_def) (simp add: updateMappings_def)
  have fin: "updateMappings 103 (linkMapping 104 card_capture noon) (?u \<lparr> db_invoices := [paid_row] \<rparr>) =
    card1 \<lparr> db_next := 105, db_invoices := [paid_row], db_invoicePayments := [charged 300], db_stripePayments := [linkMapping 104 card_capture noon pending] \<rparr>"
    by (simp add: updateMappings_def updateWhere_def card1_sel pending_sel)
  have st: "inv_status paid_row = Inv_paid" "inv_id paid_row = 100"
    by (simp_all add: paid_row_def restate_sel issued_invoice_sel charged_sel sumCents_def js_simps paid_status)
  show ?thesis
    using ins rec[unfolded fin] st not_refused
    by (simp add: recordStripePayment_def card_capture_sel(1) card1_sel(1) card1_sel(5)[unfolded mappingOf_def] pending_sel invOf_card1
        issued_invoice_sel charged_sel Let_def emit_def card2_def flip: linkMapping_def)
       (simp add: invOf_def selectOne_def emit_def issued_invoice_sel)
qed

definition refund :: "int \<Rightarrow> refund_input" where
  "refund c = \<lparr> rfi_paymentIntentId = ''pi_1'', rfi_amountRefundedCents = c, rfi_chargeAmountCents = 30000,
     rfi_currency = ''usd'', rfi_accountId = ''acct_1'' \<rparr>"

definition linked :: stripe_payment where
  "linked = linkMapping 104 card_capture noon pending"

definition half_row :: invoice where
  "half_row = restate [charged 150] noon paid_row"

definition half_linked :: stripe_payment where
  "half_linked = linked \<lparr> sp_status := Sp_partially_refunded, sp_lastEventAt := Some noon, sp_updatedAt := noon \<rparr>"

definition card3 :: db where
  "card3 = card2 \<lparr> db_invoices := [half_row], db_invoicePayments := [charged 150], db_stripePayments := [half_linked],
     db_events := db_events card2 @ [InvoiceEvent Ev_payment_voided 100 20 10 (Some 104)] \<rparr>"

definition open_row :: invoice where
  "open_row = restate [] noon half_row"

definition card4 :: db where
  "card4 = card3 \<lparr> db_invoices := [open_row], db_invoicePayments := [],
     db_stripePayments := [half_linked \<lparr> sp_status := Sp_refunded, sp_invoicePaymentId := None, sp_lastEventAt := Some noon, sp_updatedAt := noon \<rparr>],
     db_events := db_events card3 @ [InvoiceEvent Ev_payment_voided 100 20 10 (Some 104)] \<rparr>"

lemma linked_sel:
  "sp_id linked = 103" "sp_objectId linked = ''cs_1''" "sp_invoiceId linked = 100" "sp_invoicePaymentId linked = Some 104"
  "sp_stripeAccountId linked = ''acct_1''" "sp_status linked = Sp_succeeded" "sp_paymentIntentId linked = Some ''pi_1''" "sp_orgId linked = 20"
  by (simp_all add: linked_def linkMapping_def pending_sel card_capture_sel)

lemma half_linked_sel:
  "sp_id half_linked = 103" "sp_objectId half_linked = ''cs_1''" "sp_invoiceId half_linked = 100" "sp_invoicePaymentId half_linked = Some 104"
  "sp_stripeAccountId half_linked = ''acct_1''" "sp_status half_linked = Sp_partially_refunded" "sp_paymentIntentId half_linked = Some ''pi_1''"
  "sp_orgId half_linked = 20"
  by (simp_all add: half_linked_def linked_sel)

lemma row_sel:
  "inv_id paid_row = 100" "inv_partnerId paid_row = 10" "inv_id half_row = 100" "inv_partnerId half_row = 10" "inv_id open_row = 100" "inv_partnerId open_row = 10"
  "inv_total paid_row = 300" "inv_total half_row = 300" "inv_balance open_row = 300" "inv_status open_row = Inv_sent"
  "inv_currencyCode open_row = ''USD''" "inv_balance half_row = 150" "inv_amountPaid half_row = 150" "inv_amountPaid open_row = 0"
  using due_day
  by (simp_all add: paid_row_def half_row_def open_row_def restate_sel issued_invoice_sel card_currency charged_sel sumCents_def js_simps
      deriveInvoiceStatus_def noon_def)

lemma card2_sel:
  "db_invoices card2 = [paid_row]" "db_invoicePayments card2 = [charged 300]" "db_stripePayments card2 = [linked]" "db_next card2 = 105"
  by (simp_all add: card2_def charged_sel linked_def)

lemma card3_sel:
  "db_invoices card3 = [half_row]" "db_invoicePayments card3 = [charged 150]" "db_stripePayments card3 = [half_linked]" "db_next card3 = 105"
  by (simp_all add: card3_def card2_sel)

lemmas refund_defs = reflectStripeRefund_def refundPayment_def refund_def statement_defs lookup_defs setPaymentAmount_def deletePaymentRow_def
  markMapping_def updateMappings_def moneyError_def recomputeInvoiceStatus_def emit_def deleteWhere_def Let_def

lemma card3_eq: "reflectStripeRefund (refund 15000) noon card2 = Inr ((), card3)"
  by (simp add: refund_defs card2_sel linked_sel card_units charged_sel row_sel js_simps restate_sel)
     (simp add: refund_defs card2_sel card3_def half_row_def half_linked_def linked_sel restate_sel row_sel sumCents_def js_simps charged_sel)

lemma card4_eq: "reflectStripeRefund (refund 30000) noon card3 = Inr ((), card4)"
  by (simp add: refund_defs card3_sel half_linked_sel charged_sel row_sel js_simps restate_sel sumCents_def)
     (simp add: refund_defs card3_sel card4_def open_row_def half_linked_sel row_sel restate_sel charged_sel)

lemma cards_ok: "billing_ok card1" "billing_ok card2" "billing_ok card3"
proof -
  have "billing_ok card0"
    using days_ok(3) refines_billing_ok[OF refines_outside[OF outside_accounts[of day2 "[acct]"]]] by (simp add: card0_def)
  then show c1: "billing_ok card1" using card1_eq refines_createInvoicePayLink refines_billing_ok by blast
  then show c2: "billing_ok card2" using card2_eq refines_recordStripePayment refines_billing_ok by blast
  have "refundInOrder (refund 15000) card2"
    by (simp add: refundInOrder_def refund_def card2_sel selectOne_def linked_sel charged_sel card_units)
  then show "billing_ok card3" using c2 refines_billing_ok[OF refines_reflectStripeRefund[OF card3_eq, of False]] by blast
qed

theorem recordStripePayment_outcome_witness:
  "\<exists>r' p t. recordStripePayment card_capture noon card1 = Inr (100, t) \<and> invOf t 100 = Some r' \<and> paymentsOf t 100 = [p] \<and>
    pay_amount p = 300 \<and> inv_status r' = Inv_paid"
  using recordStripePayment_outcome[OF cards_ok(1), of card_capture pending "issued_invoice 100 1" 30000 noon]
  by (auto simp: card_capture_sel card1_sel pending_sel invOf_card1 issued_invoice_sel card_currency live_def dollars_def cents_of_def
      paymentsOf_filter)

text \<open>The other half is paid by hand; then the event of an earlier refund, of one third, arrives.\<close>

definition settled_row :: invoice where
  "settled_row = restate [charged 150, paymentValues 105 100 20 half_payment msp] noon half_row"

lemma half_row_sel: "inv_status half_row = Inv_partially_paid" "inv_orgId half_row = 20" "inv_voidedAt half_row = None" "inv_invoiceNumber half_row \<noteq> None"
  using half_status
  by (simp_all add: half_row_def paid_row_def restate_sel issued_invoice_sel charged_sel sumCents_def js_simps)

lemma settled_sel: "inv_id settled_row = 100" "inv_total settled_row = 300" "inv_balance settled_row = 0" "inv_amountPaid settled_row = 300"
    "inv_status settled_row = Inv_paid"
  by (simp_all add: settled_row_def restate_sel row_sel half_row_sel charged_sel half_payment_def paymentValues_def sumCents_def js_simps
      deriveInvoiceStatus_def)

lemma by_hand:
  "\<exists>v t. recordPayment 100 half_payment msp noon card3 = Inr (v, t) \<and> invOf t 100 = Some settled_row \<and> db_stripePayments t = [half_linked] \<and>
    db_invoicePayments t = [charged 150, paymentValues 105 100 20 half_payment msp]"
proof -
  let ?p = "paymentValues 105 100 20 half_payment msp"
  let ?u = "card3 \<lparr> db_next := 106, db_invoicePayments := [charged 150, ?p] \<rparr>"
  have ins: "insertPayment ?p card3 = Inr ?u"
    by (simp add: insertPayment_def paymentValues_def half_payment_def card3_sel insertRow_def js_simps)
  have p: "pay_invoiceId ?p = 100" "pay_id ?p = 105" by (simp_all add: paymentValues_def)
  have rec: "recomputeInvoiceStatus 100 noon ?u = Inr (?u \<lparr> db_invoices := [settled_row] \<rparr>)"
    using settled_sel(3,4)
    by (simp add: recomputeInvoiceStatus_def lookup_defs statement_defs card3_sel row_sel charged_sel p Let_def js_simps flip: settled_row_def)
  have h: "invOf card3 100 = Some half_row" by (simp add: invOf_def selectOne_def card3_sel row_sel)
  show ?thesis
    using ins rec p settled_sel(1,5)
    by (simp add: recordPayment_def getOwnedInvoiceOr404_def h requireOrgAccess_def orgAccessible_def msp_def half_row_sel row_sel half_payment_def
        card3_sel js_simps Let_def invOf_def selectOne_def emit_def)
qed

theorem late_refund_overpays_witness:
  "\<exists>v s t r'. recordPayment 100 half_payment msp noon card3 = Inr (v, s) \<and> reflectStripeRefund (refund 10000) noon s = Inr ((), t) \<and>
    invOf t 100 = Some r' \<and> inv_total r' = 300 \<and> inv_amountPaid r' = 350 \<and> inv_balance r' < 0"
proof -
  obtain v s where s: "recordPayment 100 half_payment msp noon card3 = Inr (v, s)" "invOf s 100 = Some settled_row" "db_stripePayments s = [half_linked]"
    "db_invoicePayments s = [charged 150, paymentValues 105 100 20 half_payment msp]" using by_hand by blast
  have ok: "billing_ok s" using refines_billing_ok[OF refines_recordPayment[OF s(1)] cards_ok(3)] .
  have m: "selectOne (\<lambda>m. sp_paymentIntentId m = Some (rfi_paymentIntentId (refund 10000))) (db_stripePayments s) = Some half_linked"
    by (simp add: s(3) selectOne_def half_linked_sel refund_def)
  have paid: "paidCents 100 (db_invoicePayments s) = 30000"
    by (simp add: s(4) paidCents_def charged_sel paymentValues_def half_payment_def js_simps cents_of_def)
  have "\<exists>t r'. reflectStripeRefund (refund 10000) noon s = Inr ((), t) \<and> invOf t 100 = Some r' \<and> inv_total r' = 300 \<and>
      inv_amountPaid r' = dollars (30000 + 20000 - 15000) \<and> inv_balance r' < 0"
    using late_refund_overpays[OF ok m, of "charged 150" settled_row 20000 noon] s(2,4) paid
    by (auto simp: half_linked_sel charged_sel refund_def settled_sel live_def cents_of_def)
  then show ?thesis using s(1) by (auto simp: dollars_def)
qed

definition card_event :: stripe_event where
  "card_event = \<lparr> ev_account = Some ''acct_1'', ev_livemode = False, ev_data = SessionCompleted (card_session True) \<rparr>"

lemma card_session_capture: "sessionCapture (card_session True) ''acct_1'' = Inr (Some card_capture)"
proof -
  have "map toUpperChar ''usd'' = ''USD''" by code_simp
  then show ?thesis by (simp add: sessionCapture_def card_session_def nullish_def Let_def card_units moneyError_def card_capture_def)
qed

lemma card_delivered: "handleStripeEvent card_event noon card1 = Inr ((), card2)"
  using card2_eq card_session_capture
  by (simp add: handleStripeEvent_def eventAllowed_def card_event_def moneyMoving_def isPgText_def nullish_def getConnectionByAccount_def
      card1_def card0_def selectOne_def acct_def recordSession_def)

theorem capture_recorded_once_witness:
  "delivered ''cs_1'' card1 card2 \<and> recorded ''cs_1'' card2 \<and> (\<exists>p. db_invoicePayments card2 = db_invoicePayments card1 @ [p])"
proof -
  have d: "delivered ''cs_1'' card1 card2"
    by (rule delivered.completed[OF _ _ card_delivered]) (simp_all add: card_event_def card_session_def)
  have "\<not> recorded ''cs_1'' card1" "db_invoicePayments card2 \<noteq> db_invoicePayments card1"
    by (simp_all add: recorded_def card1_sel pending_sel card2_sel)
  moreover have "(delivered ''cs_1'')\<^sup>*\<^sup>* card1 card2" using d by (rule r_into_rtranclp)
  ultimately show ?thesis using d capture_recorded_once[of "''cs_1''" card1 card2] by auto
qed


lemma refunded_capture_recorded_again_witness:
  "reflectStripeRefund (refund 30000) noon card3 = Inr ((), card4) \<and> paidCents 100 (db_invoicePayments card4) = 0 \<and>
   (\<exists>u. recordStripePayment card_capture noon card4 = Inr (100, u) \<and> paidCents 100 (db_invoicePayments u) = 30000)"
proof -
  have m: "mappingOf card3 (cap_objectId card_capture) = Some half_linked"
    by (simp add: mappingOf_def card3_sel selectOne_def half_linked_sel card_capture_sel)
  have i: "selectOne (\<lambda>m. sp_paymentIntentId m = Some (rfi_paymentIntentId (refund 30000))) (db_stripePayments card3) = Some half_linked"
    by (simp add: card3_sel selectOne_def half_linked_sel refund_def)
  have r: "invOf card4 (sp_invoiceId half_linked) = Some open_row" by (simp add: invOf_def card4_def selectOne_def row_sel half_linked_sel)
  have p: "paidCents 100 (db_invoicePayments card4) = 0" by (simp add: card4_def paidCents_def)
  show ?thesis
    using refunded_capture_recorded_again[OF cards_ok(3) m half_linked_sel(4) i _ _ _ card4_eq r, of 30000 noon] card4_eq p
    by (simp add: refund_def half_linked_sel card_capture_sel row_sel live_def dollars_def cents_of_def)
qed

lemma second_click_fails_witness:
  "\<exists>url. createInvoicePayLink (\<lambda>_. Some ''sk_test'') (\<lambda>_ _. Inr (card_session False)) 100 msp noon card0 = Inr (url, card1) \<and>
    createInvoicePayLink (\<lambda>_. Some ''sk_test'') (\<lambda>_ _. Inr (card_session False)) 100 msp (noon + 1000) card1 = Inl (JsError ''unique violation'')"
  using card1_eq second_click_fails[of "\<lambda>_. Some ''sk_test''" "\<lambda>_ _. Inr (card_session False)" 100 msp noon card0 _ card1
    "\<lambda>_ _. Inr (card_session False)" "noon + 1000"] by blast

theorem webhook_isolated_witness:
  "\<exists>t. handleStripeEvent (card_event \<lparr> ev_account := Some ''acct_2'' \<rparr>) noon card1 = Inr ((), t) \<and> invOf t 100 = invOf card1 100 \<and> t = card1"
proof -
  let ?e = "card_event \<lparr> ev_account := Some ''acct_2'' \<rparr>"
  have n: "getConnectionByAccount ''acct_2'' card1 = None"
    by (simp add: getConnectionByAccount_def card1_def card0_def selectOne_def acct_def)
  then have h: "handleStripeEvent ?e noon card1 = Inr ((), card1)"
    by (simp add: handleStripeEvent_def eventAllowed_def card_event_def moneyMoving_def isPgText_def nullish_def)
  show ?thesis
    using h webhook_isolated[OF h cards_ok(1), of 100] n by (simp add: card1_sel pending_sel)
qed

lemma stripe_key_round_trip_witness:
  "\<exists>t. savePartnerStripeKey (\<lambda>_. Some ''acct_9'') (\<lambda>k. ''enc:'' @ k) 11 '' sk_live_1234 '' None noon card1 =
      Inr ((''acct_9'', ''1234'', True), t) \<and>
    getPartnerStripeClient (\<lambda>c. Some (drop 4 c)) 11 t = Inr (''sk_live_1234'', ''acct_9'')"
proof -
  have k: "js_trim '' sk_live_1234 '' = ''sk_live_1234''" "lastFour ''sk_live_1234'' = ''1234''" "isLiveKey ''sk_live_1234''"
    by code_simp+
  then have "\<exists>t. savePartnerStripeKey (\<lambda>_. Some ''acct_9'') (\<lambda>k. ''enc:'' @ k) 11 '' sk_live_1234 '' None noon card1 =
      Inr ((''acct_9'', ''1234'', True), t)"
    by (simp add: savePartnerStripeKey_def Let_def card1_def card0_def acct_def)
  then show ?thesis
    using stripe_key_round_trip[of "\<lambda>_. Some ''acct_9''" "\<lambda>k. ''enc:'' @ k" 11 "'' sk_live_1234 ''" None noon card1 "''acct_9''" "''1234''" True
      _ "\<lambda>c. Some (drop 4 c)"] k by auto
qed

theorem sweep_settles_witness:
  "\<exists>m'. mappingOf (snd (reconcilePendingStripePayments (\<lambda>_. Some ''sk_test'') (\<lambda>_ _. Inr (card_session True)) (noon + 600000) card1)) ''cs_1'' =
     Some m' \<and> (sp_status m' = Sp_succeeded \<or> sp_status m' = Sp_failed)"
proof -
  have "sweepDue (noon + 600000) card1 pending" by (simp add: sweepDue_def pending_sel invOf_card1)
  then have m: "pending \<in> set (take 200 (sort_key sp_createdAt (selectWhere (sweepDue (noon + 600000) card1) (db_stripePayments card1))))"
    by (simp add: card1_sel selectWhere_def)
  have c: "getPartnerStripeClient (\<lambda>_. Some ''sk_test'') (inv_partnerId (issued_invoice 100 1)) card1 = Inr (''sk_test'', ''acct_1'')"
    by (simp add: getPartnerStripeClient_def getConnection_def card1_def card0_def selectOne_def acct_def issued_invoice_sel isPgText_def)
  show ?thesis
    using sweep_settles[OF cards_ok(1) m _ c, of "\<lambda>_ _. Inr (card_session True)" "card_session True"]
    by (simp add: pending_sel invOf_card1 paidSession_def card_session_def isPgText_def)
qed
end
