(* ===== verification/TimeTracking.thy ===== *)
theory TimeTracking
  imports InvoiceService
begin

text \<open>
  The technicians' time entries and the parts of tickets (\<open>timeEntryService.ts\<close>): the work that
  invoices bill. Joined columns of the lists (names, ticket numbers) are left out; \<open>te_updatedAt\<close> and
  \<open>tp_updatedAt\<close> are restamped on every update by the triggers of the tables. Definitions only.
\<close>

section \<open>The link to a ticket\<close>

record time_actor =
  ta_userId :: uuid
  ta_name :: "string option"
  ta_partnerId :: "uuid option"
  ta_manageAll :: bool
  ta_accessibleOrgIds :: "uuid list option"

definition computeDurationMinutes :: "instant \<Rightarrow> instant \<Rightarrow> int" where
  "computeDurationMinutes startedAt endedAt = \<lfloor>fdiv (of_int (endedAt - startedAt)) 60000\<rfloor>"

definition toRate :: "rat option \<Rightarrow> money option" where
  "toRate rate = map_option (\<lambda>r. toFixed 2 (js_Number r)) rate"

text \<open>A value of a \<open>numeric(10, 2)\<close> column, and of an \<open>integer\<close> column.\<close>

definition rateFits :: "money \<Rightarrow> bool" where
  "rateFits v \<longleftrightarrow> \<bar>v\<bar> < 10 ^ 8"

definition minutesFit :: "int \<Rightarrow> bool" where
  "minutesFit m \<longleftrightarrow> - (2 ^ 31) \<le> m \<and> m < 2 ^ 31"

definition entryFits :: "time_entry \<Rightarrow> svc_error + unit" where
  "entryFits e =
     bindE (guardE (case te_durationMinutes e of None \<Rightarrow> True | Some m \<Rightarrow> minutesFit m) (JsError ''integer out of range'')) (\<lambda>_.
     guardE (case te_hourlyRate e of None \<Rightarrow> True | Some r \<Rightarrow> rateFits r) (JsError ''numeric field overflow''))"

definition getTicketForTimeTracking :: "uuid \<Rightarrow> db \<Rightarrow> svc_error + ticket" where
  "getTicketForTimeTracking ticketId s =
     ofOption (TimeErr 404 TICKET_NOT_FOUND) (selectOne (\<lambda>t. tk_id t = ticketId) (db_tickets s))"

definition resolveTicketPartner :: "ticket \<Rightarrow> db \<Rightarrow> uuid option" where
  "resolveTicketPartner t s = (case tk_partnerId t of
     Some p \<Rightarrow> Some p | None \<Rightarrow> map_option org_partnerId (orgOf s (tk_orgId t)))"

definition getCategoryDefaults :: "uuid \<Rightarrow> db \<Rightarrow> ticket_category option" where
  "getCategoryDefaults categoryId s = selectOne (\<lambda>c. tcat_id c = categoryId) (db_ticketCategories s)"

definition getOrgBillingDefaults :: "uuid \<Rightarrow> db \<Rightarrow> org_ticket_settings option" where
  "getOrgBillingDefaults orgId s = selectOne (\<lambda>o'. ots_orgId o' = orgId) (db_orgTicketSettings s)"

record ticket_link =
  tl_ticket :: ticket
  tl_partnerId :: uuid
  tl_defaultBillable :: bool
  tl_defaultHourlyRate :: "money option"

definition resolveTicketLink :: "uuid \<Rightarrow> time_actor \<Rightarrow> db \<Rightarrow> svc_error + ticket_link" where
  "resolveTicketLink ticketId a s =
     bindE (getTicketForTimeTracking ticketId s) (\<lambda>t.
     bindE (ofOption (TimeErr 400 T_PARTNER_UNRESOLVABLE) (resolveTicketPartner t s)) (\<lambda>partnerId.
     bindE (guardE (case ta_partnerId a of None \<Rightarrow> True | Some p \<Rightarrow> partnerId = p) (TimeErr 400 TICKET_WRONG_PARTNER)) (\<lambda>_.
     bindE (guardE (case ta_accessibleOrgIds a of None \<Rightarrow> True | Some ids \<Rightarrow> tk_orgId t \<in> set ids) (TimeErr 404 TICKET_ORG_DENIED)) (\<lambda>_.
     let org = getOrgBillingDefaults (tk_orgId t) s;
         category = (case tk_categoryId t of None \<Rightarrow> None | Some c \<Rightarrow> getCategoryDefaults c s)
     in Inr \<lparr> tl_ticket = t, tl_partnerId = partnerId,
          tl_defaultBillable = nullish (orElse (Option.bind org ots_defaultBillable) (map_option tcat_defaultBillable category)) False,
          tl_defaultHourlyRate = orElse (Option.bind org ots_defaultHourlyRate) (Option.bind category tcat_defaultHourlyRate) \<rparr>))))"

text \<open>Partner, organization and defaults of a new entry, with or without a ticket.\<close>

definition entryDefaults :: "uuid option \<Rightarrow> time_actor \<Rightarrow> db \<Rightarrow> svc_error + (uuid \<times> uuid option \<times> bool \<times> money option)" where
  "entryDefaults ticketId a s = (case ticketId of
     None \<Rightarrow> bindE (ofOption (TimeErr 400 T_PARTNER_UNRESOLVABLE) (ta_partnerId a)) (\<lambda>p. Inr (p, None, False, None))
   | Some t \<Rightarrow> bindE (resolveTicketLink t a s) (\<lambda>l.
       Inr (tl_partnerId l, Some (tk_orgId (tl_ticket l)), tl_defaultBillable l, tl_defaultHourlyRate l)))"

definition fmtMinutes :: "int option \<Rightarrow> string" where
  "fmtMinutes minutes =
     (let m = max 0 (nullish minutes 0); h = m div 60; rest = m mod 60
      in if h = 0 then js_String rest @ ''m''
         else if rest = 0 then js_String h @ ''h'' else js_String h @ ''h '' @ js_String rest @ ''m'')"

definition insertComment :: "ticket_comment \<Rightarrow> db \<Rightarrow> db" where
  "insertComment c s = s \<lparr> db_ticketComments := insertRow (c \<lparr> tcm_id := length (db_ticketComments s) \<rparr>) (db_ticketComments s) \<rparr>"

definition insertTimeEntryFeedComment :: "uuid option \<Rightarrow> time_actor \<Rightarrow> string \<Rightarrow> instant \<Rightarrow> db \<Rightarrow> db" where
  "insertTimeEntryFeedComment ticketId a content now s = (case ticketId of None \<Rightarrow> s
   | Some t \<Rightarrow> insertComment \<lparr> tcm_id = 0, tcm_ticketId = t, tcm_portalUserId = None, tcm_userId = Some (ta_userId a),
       tcm_authorName = ta_name a, tcm_authorType = Some ''internal'', tcm_content = content, tcm_isPublic = False,
       tcm_commentType = Com_time_entry, tcm_oldValue = None, tcm_newValue = None, tcm_deletedAt = None, tcm_editedAt = None,
       tcm_createdAt = now \<rparr> s)"

definition loggedText :: "time_actor \<Rightarrow> time_entry \<Rightarrow> string" where
  "loggedText a e = nullish (ta_name a) ''Technician'' @ '' logged '' @ fmtMinutes (te_durationMinutes e) @
     (if te_isBillable e then '' (billable)'' else [])"

section \<open>Entries and timers\<close>

text \<open>An insert into \<open>time_entries\<close>, with the partial unique index on running entries.\<close>

definition isRunning :: "uuid \<Rightarrow> time_entry \<Rightarrow> bool" where
  "isRunning userId e \<longleftrightarrow> te_userId e = userId \<and> te_endedAt e = None"

definition insertTimeEntry :: "time_entry \<Rightarrow> db \<Rightarrow> svc_error + db" where
  "insertTimeEntry e s =
     bindE (entryFits e) (\<lambda>_.
     bindE (guardE (te_endedAt e \<noteq> None \<or> (\<forall>r \<in> set (db_timeEntries s). \<not> isRunning (te_userId e) r)) (JsError ''unique violation'')) (\<lambda>_.
     Inr (s \<lparr> db_next := Suc (db_next s), db_timeEntries := insertRow e (db_timeEntries s) \<rparr>)))"

record time_entry_input =
  tei_ticketId :: "uuid option"
  tei_startedAt :: instant
  tei_endedAt :: instant
  tei_description :: "string option"
  tei_isBillable :: "bool option"
  tei_hourlyRate :: "rat option option"
  tei_billingStatus :: "billing_status option"

definition createTimeEntry :: "time_entry_input \<Rightarrow> time_actor \<Rightarrow> instant \<Rightarrow> db \<Rightarrow> time_entry svc" where
  "createTimeEntry input a now s =
     bindE (entryDefaults (tei_ticketId input) a s) (\<lambda>(partnerId, orgId, defaultBillable, defaultRate).
     bindE (guardE (tei_startedAt input < tei_endedAt input) (TimeErr 400 INVALID_RANGE)) (\<lambda>_.
     let e = \<lparr> te_id = db_next s, te_partnerId = partnerId, te_orgId = orgId, te_ticketId = tei_ticketId input,
               te_userId = ta_userId a, te_startedAt = tei_startedAt input, te_endedAt = Some (tei_endedAt input),
               te_durationMinutes = Some (computeDurationMinutes (tei_startedAt input) (tei_endedAt input)),
               te_description = tei_description input, te_isBillable = nullish (tei_isBillable input) defaultBillable,
               te_hourlyRate = (case tei_hourlyRate input of None \<Rightarrow> defaultRate | Some r \<Rightarrow> toRate r),
               te_billingStatus = nullish (tei_billingStatus input) Bill_not_billed, te_isApproved = False,
               te_approvedBy = None, te_approvedAt = None, te_updatedAt = now \<rparr>
     in bindE (insertTimeEntry e s) (\<lambda>s1.
        Inr (e, emit (TimeEntryEvent (Ev_time_created (ta_userId a) (te_durationMinutes e) (te_isBillable e)) (te_id e) partnerId (te_ticketId e) (ta_userId a))
          (insertTimeEntryFeedComment (te_ticketId e) a (loggedText a e) now s1)))))"

text \<open>The duration of a stopped timer is computed in SQL, on whole milliseconds.\<close>

definition stoppedEntry :: "string option \<Rightarrow> bool option \<Rightarrow> instant \<Rightarrow> time_entry \<Rightarrow> time_entry" where
  "stoppedEntry description isBillable now e = e \<lparr> te_endedAt := Some now,
     te_durationMinutes := Some ((now - te_startedAt e) div 60000),
     te_description := (case description of None \<Rightarrow> te_description e | Some d \<Rightarrow> Some d),
     te_isBillable := nullish isBillable (te_isBillable e), te_updatedAt := now \<rparr>"

definition stopRunningEntry :: "time_actor \<Rightarrow> string option \<Rightarrow> bool option \<Rightarrow> instant \<Rightarrow> db \<Rightarrow> time_entry option svc" where
  "stopRunningEntry a description isBillable now s =
     bindE (guardE (\<forall>e \<in> set (selectWhere (isRunning (ta_userId a)) (db_timeEntries s)). minutesFit ((now - te_startedAt e) div 60000))
       (JsError ''integer out of range'')) (\<lambda>_.
     Inr (map_option (stoppedEntry description isBillable now) (selectOne (isRunning (ta_userId a)) (db_timeEntries s)),
       s \<lparr> db_timeEntries := updateWhere (isRunning (ta_userId a)) (stoppedEntry description isBillable now) (db_timeEntries s) \<rparr>))"

definition startAttempt ::
    "uuid option \<Rightarrow> string option \<Rightarrow> uuid \<times> uuid option \<times> bool \<times> money option \<Rightarrow> time_actor \<Rightarrow> instant \<Rightarrow> db \<Rightarrow> time_entry svc" where
  "startAttempt ticketId description link a now s = (case link of (partnerId, orgId, defaultBillable, defaultRate) \<Rightarrow>
     bindE (stopRunningEntry a None None now s) (\<lambda>(autoStopped, s1).
     let s2 = (case autoStopped of None \<Rightarrow> s1
               | Some e \<Rightarrow> insertTimeEntryFeedComment (te_ticketId e) a (loggedText a e) now s1);
         e = \<lparr> te_id = db_next s2, te_partnerId = partnerId, te_orgId = orgId, te_ticketId = ticketId,
               te_userId = ta_userId a, te_startedAt = now, te_endedAt = None, te_durationMinutes = None,
               te_description = description, te_isBillable = defaultBillable, te_hourlyRate = defaultRate,
               te_billingStatus = Bill_not_billed, te_isApproved = False, te_approvedBy = None, te_approvedAt = None,
               te_updatedAt = now \<rparr>
     in bindE (insertTimeEntry e s2) (\<lambda>s3. Inr (e, s3))))"

definition startTimer :: "uuid option \<Rightarrow> string option \<Rightarrow> time_actor \<Rightarrow> instant \<Rightarrow> db \<Rightarrow> time_entry svc" where
  "startTimer ticketId description a now s =
     bindE (entryDefaults ticketId a s) (\<lambda>link.
     bindE (case startAttempt ticketId description link a now s of
         Inr r \<Rightarrow> Inr r
       | Inl err \<Rightarrow> if err \<noteq> JsError ''unique violation'' then Inl err
           else (case startAttempt ticketId description link a now s of
               Inr r \<Rightarrow> Inr r
             | Inl retryErr \<Rightarrow> Inl (if retryErr = JsError ''unique violation'' then TimeErr 409 ENTRY_RUNNING else retryErr))) (\<lambda>(e, s1).
     Inr (e, emit (TimeEntryEvent (Ev_time_created (ta_userId a) None (te_isBillable e)) (te_id e) (fst link) (te_ticketId e) (ta_userId a)) s1)))"

definition stopTimer :: "string option \<Rightarrow> bool option \<Rightarrow> time_actor \<Rightarrow> instant \<Rightarrow> db \<Rightarrow> time_entry svc" where
  "stopTimer description isBillable a now s =
     bindE (stopRunningEntry a description isBillable now s) (\<lambda>(stopped, s1).
     bindE (ofOption (TimeErr 404 NO_RUNNING_TIMER) stopped) (\<lambda>e.
     Inr (e, emit (TimeEntryEvent (Ev_time_updated [''endedAt'', ''durationMinutes'']) (te_id e) (te_partnerId e) (te_ticketId e) (ta_userId a))
       (insertTimeEntryFeedComment (te_ticketId e) a (loggedText a e) now s1))))"

section \<open>Updates, deletion, approval\<close>

text \<open>\<open>orgAxisSql\<close> and its in-memory counterpart.\<close>

definition entryOrgAllowed :: "time_entry \<Rightarrow> uuid list option \<Rightarrow> bool" where
  "entryOrgAllowed e accessible = (case accessible of None \<Rightarrow> True
   | Some ids \<Rightarrow> (case te_orgId e of None \<Rightarrow> True | Some g \<Rightarrow> g \<in> set ids))"

definition entryOf :: "db \<Rightarrow> uuid \<Rightarrow> time_entry option" where
  "entryOf s i = selectOne (\<lambda>e. te_id e = i) (db_timeEntries s)"

definition getEntryOr404 :: "uuid \<Rightarrow> time_actor \<Rightarrow> db \<Rightarrow> svc_error + time_entry" where
  "getEntryOr404 i a s =
     bindE (ofOption (TimeErr 404 ENTRY_NOT_FOUND) (entryOf s i)) (\<lambda>e.
     bindE (guardE (entryOrgAllowed e (ta_accessibleOrgIds a)) (TimeErr 404 ENTRY_NOT_FOUND)) (\<lambda>_. Inr e))"

definition assertCanMutate :: "time_entry \<Rightarrow> time_actor \<Rightarrow> svc_error + unit" where
  "assertCanMutate e a =
     bindE (guardE (te_userId e = ta_userId a \<or> ta_manageAll a) (TimeErr 403 NOT_OWN_ENTRY)) (\<lambda>_.
     guardE (\<not> te_isApproved e \<or> ta_manageAll a) (TimeErr 403 APPROVED_IMMUTABLE))"

record time_entry_patch =
  tep_ticketId :: "uuid option option"
  tep_startedAt :: "instant option"
  tep_endedAt :: "instant option"
  tep_description :: "string option option"
  tep_isBillable :: "bool option"
  tep_hourlyRate :: "rat option option"
  tep_billingStatus :: "billing_status option"

text \<open>The columns a patch sets; \<open>link\<close> is the ticket it moves the entry to, if any.\<close>

definition patchEntry :: "time_entry_patch \<Rightarrow> (uuid \<times> uuid) option \<Rightarrow> instant \<Rightarrow> time_entry \<Rightarrow> time_entry" where
  "patchEntry p link now e =
     (let startedAt = nullish (tep_startedAt p) (te_startedAt e); endedAt = orElse (tep_endedAt p) (te_endedAt e)
      in e \<lparr> te_startedAt := startedAt, te_endedAt := endedAt,
             te_description := nullish (tep_description p) (te_description e),
             te_isBillable := nullish (tep_isBillable p) (te_isBillable e),
             te_hourlyRate := (case tep_hourlyRate p of None \<Rightarrow> te_hourlyRate e | Some r \<Rightarrow> toRate r),
             te_billingStatus := nullish (tep_billingStatus p) (te_billingStatus e),
             te_ticketId := (case tep_ticketId p of None \<Rightarrow> te_ticketId e | Some t \<Rightarrow> map_option fst link),
             te_orgId := (case tep_ticketId p of None \<Rightarrow> te_orgId e | Some t \<Rightarrow> map_option snd link),
             te_durationMinutes := (case endedAt of
                 Some x \<Rightarrow> if tep_startedAt p \<noteq> None \<or> tep_endedAt p \<noteq> None then Some (computeDurationMinutes startedAt x)
                   else te_durationMinutes e
               | None \<Rightarrow> te_durationMinutes e),
             te_isApproved := False, te_approvedBy := None, te_approvedAt := None, te_updatedAt := now \<rparr>)"

definition changedColumns :: "time_entry_patch \<Rightarrow> time_entry \<Rightarrow> string list" where
  "changedColumns p e =
     (if tep_startedAt p \<noteq> None then [''startedAt''] else []) @ (if tep_endedAt p \<noteq> None then [''endedAt''] else []) @
     (if tep_description p \<noteq> None then [''description''] else []) @ (if tep_isBillable p \<noteq> None then [''isBillable''] else []) @
     (if tep_hourlyRate p \<noteq> None then [''hourlyRate''] else []) @ (if tep_billingStatus p \<noteq> None then [''billingStatus''] else []) @
     (if tep_ticketId p \<noteq> None then [''ticketId''] else []) @
     (if (tep_startedAt p \<noteq> None \<or> tep_endedAt p \<noteq> None) \<and> orElse (tep_endedAt p) (te_endedAt e) \<noteq> None then [''durationMinutes''] else [])"

definition patchLink :: "time_entry_patch \<Rightarrow> time_entry \<Rightarrow> time_actor \<Rightarrow> db \<Rightarrow> svc_error + (uuid \<times> uuid) option" where
  "patchLink p e a s = (case tep_ticketId p of
     Some (Some t) \<Rightarrow> bindE (resolveTicketLink t a s) (\<lambda>l.
       bindE (guardE (tl_partnerId l = te_partnerId e) (TimeErr 400 TICKET_WRONG_PARTNER)) (\<lambda>_. Inr (Some (t, tk_orgId (tl_ticket l)))))
   | _ \<Rightarrow> Inr None)"

definition updateTimeEntries :: "uuid \<Rightarrow> (time_entry \<Rightarrow> time_entry) \<Rightarrow> db \<Rightarrow> db" where
  "updateTimeEntries i f s = s \<lparr> db_timeEntries := updateWhere (\<lambda>e. te_id e = i) f (db_timeEntries s) \<rparr>"

definition updateTimeEntry :: "uuid \<Rightarrow> time_entry_patch \<Rightarrow> time_actor \<Rightarrow> instant \<Rightarrow> db \<Rightarrow> time_entry svc" where
  "updateTimeEntry i p a now s =
     bindE (getEntryOr404 i a s) (\<lambda>e.
     bindE (assertCanMutate e a) (\<lambda>_.
     bindE (guardE (case orElse (tep_endedAt p) (te_endedAt e) of None \<Rightarrow> True
         | Some x \<Rightarrow> nullish (tep_startedAt p) (te_startedAt e) < x) (TimeErr 400 INVALID_RANGE)) (\<lambda>_.
     bindE (patchLink p e a s) (\<lambda>link.
     let updated = patchEntry p link now e
     in bindE (entryFits updated) (\<lambda>_.
        Inr (updated, emit (TimeEntryEvent (Ev_time_updated (changedColumns p e)) i (te_partnerId e) (orElse (te_ticketId updated) (te_ticketId e)) (ta_userId a))
          (updateTimeEntries i (patchEntry p link now) s)))))))"

definition deleteTimeEntry :: "uuid \<Rightarrow> time_actor \<Rightarrow> instant \<Rightarrow> db \<Rightarrow> unit svc" where
  "deleteTimeEntry i a now s =
     bindE (getEntryOr404 i a s) (\<lambda>e.
     bindE (assertCanMutate e a) (\<lambda>_.
     Inr ((), emit (TimeEntryEvent (Ev_time_deleted (te_userId e)) i (te_partnerId e) (te_ticketId e) (ta_userId a))
       (insertTimeEntryFeedComment (te_ticketId e) a
         (nullish (ta_name a) ''Technician'' @ '' removed a'' @ (case te_durationMinutes e of None \<Rightarrow> [] | Some m \<Rightarrow> '' '' @ fmtMinutes (Some m)) @ '' time entry'') now
         (s \<lparr> db_timeEntries := deleteWhere (\<lambda>r. te_id r = i) (db_timeEntries s) \<rparr>)))))"

record bulk_approve_result =
  bar_updated :: nat
  bar_skipped :: int
  bar_notFound :: nat
  bar_running :: nat

text \<open>The loop over the requested ids: the eligible ones and how many were skipped for which reason.\<close>

fun approveLoop :: "time_entry list \<Rightarrow> uuid list \<Rightarrow> uuid list \<times> nat \<times> nat" where
  "approveLoop candidates [] = ([], 0, 0)"
| "approveLoop candidates (i # ids) = (case approveLoop candidates ids of (eligible, notFound, running) \<Rightarrow>
     (case selectOne (\<lambda>e. te_id e = i) candidates of
        None \<Rightarrow> (eligible, Suc notFound, running)
      | Some e \<Rightarrow> if te_endedAt e = None then (eligible, notFound, Suc running) else (i # eligible, notFound, running)))"

definition approvedEntry :: "bool \<Rightarrow> time_actor \<Rightarrow> instant \<Rightarrow> time_entry \<Rightarrow> time_entry" where
  "approvedEntry approve a now e = (if approve
     then e \<lparr> te_isApproved := True, te_approvedBy := Some (ta_userId a), te_approvedAt := Some now, te_updatedAt := now \<rparr>
     else e \<lparr> te_isApproved := False, te_approvedBy := None, te_approvedAt := None, te_updatedAt := now \<rparr>)"

definition approveTimeEntries :: "uuid list \<Rightarrow> bool \<Rightarrow> time_actor \<Rightarrow> instant \<Rightarrow> db \<Rightarrow> bulk_approve_result svc" where
  "approveTimeEntries ids approve a now s =
     bindE (guardE (ta_manageAll a) (TimeErr 403 ADMIN_REQUIRED)) (\<lambda>_.
     let candidates = selectWhere (\<lambda>e. te_id e \<in> set ids \<and> entryOrgAllowed e (ta_accessibleOrgIds a)) (db_timeEntries s)
     in (case approveLoop candidates ids of (eligible, notFound, running) \<Rightarrow>
       let updated = selectWhere (\<lambda>e. te_id e \<in> set eligible) (db_timeEntries s);
           s1 = s \<lparr> db_timeEntries := updateWhere (\<lambda>e. te_id e \<in> set eligible) (approvedEntry approve a now) (db_timeEntries s) \<rparr>;
           s2 = (case updated of [] \<Rightarrow> s1 | e # es \<Rightarrow> if approve
                 then emit (TimeEntryEvent (Ev_time_approved (map te_id updated) (ta_userId a)) (te_id e) (te_partnerId e) (te_ticketId e) (ta_userId a)) s1
                 else s1)
       in Inr (\<lparr> bar_updated = length updated, bar_skipped = int (length ids) - int (length updated), bar_notFound = notFound, bar_running = running \<rparr>, s2)))"

section \<open>Parts\<close>

record part_input =
  pti_description :: string
  pti_partNumber :: "string option"
  pti_vendor :: "string option"
  pti_catalogItemId :: "uuid option"
  pti_quantity :: rat
  pti_unitPrice :: "rat option"
  pti_costBasis :: "rat option"
  pti_isBillable :: "bool option"
  pti_billingStatus :: "billing_status option"
  pti_notes :: "string option"

definition partFits :: "ticket_part \<Rightarrow> db \<Rightarrow> svc_error + unit" where
  "partFits p s =
     bindE (guardE (rateFits (tp_quantity p) \<and> rateFits (tp_unitPrice p) \<and> (case tp_costBasis p of None \<Rightarrow> True | Some c \<Rightarrow> rateFits c))
       (JsError ''numeric field overflow'')) (\<lambda>_.
     guardE (case tp_catalogItemId p of None \<Rightarrow> True | Some c \<Rightarrow> c \<in> set (map ci_id (db_catalogItems s))) (JsError ''foreign key violation''))"

definition addTicketPart :: "uuid \<Rightarrow> part_input \<Rightarrow> time_actor \<Rightarrow> instant \<Rightarrow> db \<Rightarrow> ticket_part svc" where
  "addTicketPart ticketId input a now s =
     bindE (resolveTicketLink ticketId a s) (\<lambda>l.
     let p = \<lparr> tp_id = db_next s, tp_ticketId = ticketId, tp_orgId = tk_orgId (tl_ticket l), tp_description = pti_description input,
               tp_partNumber = pti_partNumber input, tp_vendor = pti_vendor input,
               tp_quantity = toFixed 2 (js_Number (pti_quantity input)),
               tp_unitPrice = toFixed 2 (js_Number (nullish (pti_unitPrice input) 0)),
               tp_costBasis = toRate (pti_costBasis input), tp_isBillable = nullish (pti_isBillable input) (tl_defaultBillable l),
               tp_billingStatus = nullish (pti_billingStatus input) Bill_not_billed, tp_addedBy = Some (ta_userId a),
               tp_catalogItemId = pti_catalogItemId input, tp_notes = pti_notes input, tp_createdAt = now, tp_updatedAt = now \<rparr>
     in bindE (partFits p s) (\<lambda>_.
        Inr (p, s \<lparr> db_next := Suc (db_next s), db_ticketParts := insertRow p (db_ticketParts s) \<rparr>)))"

definition getPartOr404 :: "uuid \<Rightarrow> db \<Rightarrow> svc_error + ticket_part" where
  "getPartOr404 i s = ofOption (TimeErr 404 PART_NOT_FOUND) (selectOne (\<lambda>p. tp_id p = i) (db_ticketParts s))"

record part_patch =
  ptp_description :: "string option"
  ptp_partNumber :: "string option"
  ptp_vendor :: "string option"
  ptp_catalogItemId :: "uuid option option"
  ptp_quantity :: "rat option"
  ptp_unitPrice :: "rat option"
  ptp_costBasis :: "rat option option"
  ptp_isBillable :: "bool option"
  ptp_billingStatus :: "billing_status option"
  ptp_notes :: "string option"

definition patchPart :: "part_patch \<Rightarrow> instant \<Rightarrow> ticket_part \<Rightarrow> ticket_part" where
  "patchPart q now p = p \<lparr> tp_description := nullish (ptp_description q) (tp_description p),
     tp_partNumber := orElse (ptp_partNumber q) (tp_partNumber p), tp_vendor := orElse (ptp_vendor q) (tp_vendor p),
     tp_catalogItemId := nullish (ptp_catalogItemId q) (tp_catalogItemId p),
     tp_quantity := (case ptp_quantity q of None \<Rightarrow> tp_quantity p | Some v \<Rightarrow> toFixed 2 (js_Number v)),
     tp_unitPrice := (case ptp_unitPrice q of None \<Rightarrow> tp_unitPrice p | Some v \<Rightarrow> toFixed 2 (js_Number v)),
     tp_costBasis := (case ptp_costBasis q of None \<Rightarrow> tp_costBasis p | Some v \<Rightarrow> toRate v),
     tp_isBillable := nullish (ptp_isBillable q) (tp_isBillable p),
     tp_billingStatus := nullish (ptp_billingStatus q) (tp_billingStatus p), tp_notes := orElse (ptp_notes q) (tp_notes p),
     tp_updatedAt := now \<rparr>"

definition updateTicketPart :: "uuid \<Rightarrow> part_patch \<Rightarrow> instant \<Rightarrow> db \<Rightarrow> ticket_part svc" where
  "updateTicketPart i q now s =
     bindE (getPartOr404 i s) (\<lambda>p.
     bindE (partFits (patchPart q now p) s) (\<lambda>_.
     Inr (patchPart q now p, s \<lparr> db_ticketParts := updateWhere (\<lambda>r. tp_id r = i) (patchPart q now) (db_ticketParts s) \<rparr>)))"

definition deleteTicketPart :: "uuid \<Rightarrow> db \<Rightarrow> unit svc" where
  "deleteTicketPart i s =
     bindE (getPartOr404 i s) (\<lambda>_. Inr ((), s \<lparr> db_ticketParts := deleteWhere (\<lambda>r. tp_id r = i) (db_ticketParts s) \<rparr>))"

section \<open>Lists, timesheets, exports\<close>

record time_filters =
  tf_userId :: "uuid option"
  tf_ticketId :: "uuid option"
  tf_orgId :: "uuid option"
  tf_accessibleOrgIds :: "uuid list option"
  tf_from :: "instant option"
  tf_to :: "instant option"
  tf_running :: "bool option"
  tf_billingStatus :: "billing_status option"
  tf_approved :: "bool option"
  tf_limit :: nat
  tf_offset :: nat

definition ifGiven :: "'a option \<Rightarrow> ('a \<Rightarrow> bool) \<Rightarrow> bool" where
  "ifGiven v P = (case v of None \<Rightarrow> True | Some x \<Rightarrow> P x)"

definition listConditions :: "time_filters \<Rightarrow> time_entry \<Rightarrow> bool" where
  "listConditions f e \<longleftrightarrow>
     ifGiven (tf_userId f) (\<lambda>u. te_userId e = u) \<and> ifGiven (tf_ticketId f) (\<lambda>t. te_ticketId e = Some t) \<and>
     ifGiven (tf_orgId f) (\<lambda>g. te_orgId e = Some g) \<and>
     (tf_orgId f = None \<longrightarrow> entryOrgAllowed e (tf_accessibleOrgIds f)) \<and>
     ifGiven (tf_from f) (\<lambda>x. x \<le> te_startedAt e) \<and> ifGiven (tf_to f) (\<lambda>x. te_startedAt e < x) \<and>
     ifGiven (tf_running f) (\<lambda>r. r = (te_endedAt e = None)) \<and>
     ifGiven (tf_billingStatus f) (\<lambda>b. te_billingStatus e = b) \<and> ifGiven (tf_approved f) (\<lambda>b. te_isApproved e = b)"

definition listTimeEntries :: "time_filters \<Rightarrow> db \<Rightarrow> time_entry list \<times> nat" where
  "listTimeEntries f s =
     (let rows = selectWhere (listConditions f) (db_timeEntries s)
      in (take (tf_limit f) (drop (tf_offset f) (sort_key (\<lambda>e. - te_startedAt e) rows)), length rows))"

definition getRunningTimer :: "uuid \<Rightarrow> db \<Rightarrow> time_entry option" where
  "getRunningTimer userId s = selectOne (isRunning userId) (db_timeEntries s)"

record timesheet_day =
  td_date :: iso_date
  td_totalMinutes :: int
  td_billableMinutes :: int
  td_entries :: "time_entry list"

definition weekDays :: "instant \<Rightarrow> timesheet_day list" where
  "weekDays weekStart = map (\<lambda>i. \<lparr> td_date = utcDay (weekStart + int i * ms_per_day), td_totalMinutes = 0,
     td_billableMinutes = 0, td_entries = [] \<rparr>) [0..<7]"

definition addToDay :: "time_entry \<Rightarrow> timesheet_day \<Rightarrow> timesheet_day" where
  "addToDay e d = (let minutes = nullish (te_durationMinutes e) 0
     in d \<lparr> td_entries := td_entries d @ [e], td_totalMinutes := td_totalMinutes d + minutes,
            td_billableMinutes := (if te_isBillable e then td_billableMinutes d + minutes else td_billableMinutes d) \<rparr>)"

definition placeEntry :: "time_entry \<Rightarrow> timesheet_day list \<Rightarrow> timesheet_day list" where
  "placeEntry e days = map (\<lambda>d. if td_date d = utcDay (te_startedAt e) then addToDay e d else d) days"

definition timesheetLoop :: "time_entry list \<Rightarrow> timesheet_day list \<Rightarrow> timesheet_day list" where
  "timesheetLoop = fold placeEntry"

record timesheet =
  tsh_weekStart :: iso_date
  tsh_days :: "timesheet_day list"
  tsh_totalMinutes :: int
  tsh_billableMinutes :: int

definition inWeek :: "uuid \<Rightarrow> instant \<Rightarrow> uuid list option \<Rightarrow> time_entry \<Rightarrow> bool" where
  "inWeek userId weekStart accessible e \<longleftrightarrow> te_userId e = userId \<and> weekStart \<le> te_startedAt e \<and>
     te_startedAt e < weekStart + 7 * 24 * 60 * 60000 \<and> entryOrgAllowed e accessible"

definition getTimesheet :: "uuid \<Rightarrow> instant \<Rightarrow> uuid list option \<Rightarrow> db \<Rightarrow> timesheet" where
  "getTimesheet userId weekStart accessible s =
     (let entries = sort_key te_startedAt (selectWhere (inWeek userId weekStart accessible) (db_timeEntries s));
          days = timesheetLoop entries (weekDays weekStart)
      in \<lparr> tsh_weekStart = utcDay weekStart, tsh_days = days,
           tsh_totalMinutes = sum_list (map td_totalMinutes days), tsh_billableMinutes = sum_list (map td_billableMinutes days) \<rparr>)"

text \<open>
  The sums of a ticket, computed in SQL. \<open>hours\<close> is PostgreSQL's numeric quotient of minutes and 60,
  a parameter.
\<close>

record ticket_billing_summary =
  tbs_totalMinutes :: int
  tbs_billableMinutes :: int
  tbs_billableAmount :: money
  tbs_partsCount :: nat
  tbs_partsTotal :: money

definition getTicketBillingSummary :: "(int \<Rightarrow> rat) \<Rightarrow> uuid \<Rightarrow> db \<Rightarrow> ticket_billing_summary" where
  "getTicketBillingSummary hours ticketId s =
     (let es = selectWhere (\<lambda>e. te_ticketId e = Some ticketId) (db_timeEntries s);
          ps = selectWhere (\<lambda>p. tp_ticketId p = ticketId) (db_ticketParts s);
          minutes = (\<lambda>es. \<Sum>e\<leftarrow>es. nullish (te_durationMinutes e) 0)
      in \<lparr> tbs_totalMinutes = minutes es, tbs_billableMinutes = minutes (filter te_isBillable es),
           tbs_billableAmount = numeric2 (\<Sum>e\<leftarrow>filter te_isBillable es. case (te_durationMinutes e, te_hourlyRate e) of
             (Some m, Some r) \<Rightarrow> hours m * r | _ \<Rightarrow> 0),
           tbs_partsCount = length ps,
           tbs_partsTotal = numeric2 (\<Sum>p\<leftarrow>filter tp_isBillable ps. tp_quantity p * tp_unitPrice p) \<rparr>)"

datatype billable_kind = Billable_time bool | Billable_part

record billable_row =
  br_kind :: billable_kind
  br_date :: instant
  br_description :: "string option"
  br_quantity :: rat
  br_rate :: "money option"
  br_amount :: money
  br_billingStatus :: billing_status

definition timeBillable :: "time_entry \<Rightarrow> billable_row" where
  "timeBillable e = (let hours = fdiv (of_int (nullish (te_durationMinutes e) 0)) 60
     in \<lparr> br_kind = Billable_time (te_isApproved e), br_date = te_startedAt e, br_description = te_description e,
          br_quantity = toFixed 2 hours, br_rate = te_hourlyRate e,
          br_amount = (case te_hourlyRate e of None \<Rightarrow> 0 | Some r \<Rightarrow> toFixed 2 (fmul hours (js_Number r))),
          br_billingStatus = te_billingStatus e \<rparr>)"

definition partBillable :: "ticket_part \<Rightarrow> billable_row" where
  "partBillable p = \<lparr> br_kind = Billable_part, br_date = tp_createdAt p, br_description = Some (tp_description p),
     br_quantity = tp_quantity p, br_rate = Some (tp_unitPrice p),
     br_amount = toFixed 2 (fmul (js_Number (tp_quantity p)) (js_Number (tp_unitPrice p))), br_billingStatus = tp_billingStatus p \<rparr>"

definition listBillables :: "instant \<Rightarrow> instant \<Rightarrow> uuid option \<Rightarrow> uuid list option \<Rightarrow> db \<Rightarrow> billable_row list" where
  "listBillables from to orgId accessible s =
     (let timeRows = selectWhere (\<lambda>e. te_isBillable e \<and> te_endedAt e \<noteq> None \<and> from \<le> te_startedAt e \<and> te_startedAt e \<le> to \<and>
            ifGiven orgId (\<lambda>g. te_orgId e = Some g) \<and> (orgId = None \<longrightarrow> entryOrgAllowed e accessible)) (db_timeEntries s);
          partRows = selectWhere (\<lambda>p. tp_isBillable p \<and> from \<le> tp_createdAt p \<and> tp_createdAt p \<le> to \<and>
            ifGiven orgId (\<lambda>g. tp_orgId p = g) \<and> (orgId = None \<longrightarrow> ifGiven accessible (\<lambda>ids. tp_orgId p \<in> set ids))) (db_ticketParts s)
      in sort_key br_date (map timeBillable (sort_key te_startedAt timeRows) @ map partBillable (sort_key tp_createdAt partRows)))"

end
