(* ===== verification/TicketConfig.thy ===== *)
theory TicketConfig
  imports Numbering TimeTracking
begin

text \<open>
  The ticketing configuration of a partner (\<open>ticketConfigService.ts\<close>): statuses and how they map to
  the core states, service level targets per priority and organization, and the sender domains that
  route e-mail to organizations. Reads that only feed a settings page are left out. Definitions only.
\<close>

section \<open>Reading the configuration\<close>

text \<open>\<open>lower\<close> and \<open>toLowerCase\<close>, on ASCII letters.\<close>

definition lowerChar :: "char \<Rightarrow> char" where
  "lowerChar c = (if 65 \<le> (of_char c :: nat) \<and> (of_char c :: nat) \<le> 90 then char_of ((of_char c :: nat) + 32) else c)"

definition js_toLowerCase :: "string \<Rightarrow> string" where
  "js_toLowerCase = map lowerChar"

text \<open>A member of a JSON object; anything else has none.\<close>

definition jsonMember :: "string \<Rightarrow> json \<Rightarrow> json option" where
  "jsonMember k v = (case v of J_obj kvs \<Rightarrow> map_of kvs k | _ \<Rightarrow> None)"

definition parseSlaMinutes :: "json option \<Rightarrow> int option" where
  "parseSlaMinutes v = (case v of Some (J_num r) \<Rightarrow> if r = of_int \<lfloor>r\<rfloor> \<and> 0 \<le> r then Some \<lfloor>r\<rfloor> else None | _ \<Rightarrow> None)"

definition priorityKey :: "ticket_priority \<Rightarrow> string" where
  "priorityKey p = (case p of Prio_low \<Rightarrow> ''low'' | Prio_normal \<Rightarrow> ''normal'' | Prio_high \<Rightarrow> ''high'' | Prio_urgent \<Rightarrow> ''urgent'')"

definition getOrgSlaOverride :: "uuid \<Rightarrow> ticket_priority \<Rightarrow> db \<Rightarrow> int option \<times> int option" where
  "getOrgSlaOverride orgId priority s = (case selectOne (\<lambda>o'. ots_orgId o' = orgId) (db_orgTicketSettings s) of
     None \<Rightarrow> (None, None)
   | Some row \<Rightarrow> (case jsonMember (priorityKey priority) (ots_slaOverrides row) of
       None \<Rightarrow> (None, None)
     | Some tier \<Rightarrow> (parseSlaMinutes (jsonMember ''responseMinutes'' tier), parseSlaMinutes (jsonMember ''resolutionMinutes'' tier))))"

definition settingFor :: "uuid \<Rightarrow> ticket_priority \<Rightarrow> priority_setting \<Rightarrow> bool" where
  "settingFor partnerId priority p \<longleftrightarrow> tps_partnerId p = partnerId \<and> tps_priority p = priority"

definition columnMinutes :: "int option \<Rightarrow> int option" where
  "columnMinutes v = parseSlaMinutes (map_option (\<lambda>m. J_num (of_int m)) v)"

definition getPartnerPrioritySla :: "uuid \<Rightarrow> ticket_priority \<Rightarrow> db \<Rightarrow> int option \<times> int option" where
  "getPartnerPrioritySla partnerId priority s = (case selectOne (settingFor partnerId priority) (db_prioritySettings s) of
     None \<Rightarrow> (None, None)
   | Some row \<Rightarrow> (columnMinutes (tps_responseSlaMinutes row), columnMinutes (tps_resolutionSlaMinutes row)))"

definition systemStatus :: "uuid \<Rightarrow> ticket_status \<Rightarrow> ticket_status_row \<Rightarrow> bool" where
  "systemStatus partnerId core r \<longleftrightarrow> tst_partnerId r = partnerId \<and> tst_coreStatus r = core \<and> tst_isSystem r"

definition getSystemStatusId :: "uuid \<Rightarrow> ticket_status \<Rightarrow> db \<Rightarrow> uuid option" where
  "getSystemStatusId partnerId core s = map_option tst_id (selectOne (systemStatus partnerId core) (db_ticketStatuses s))"

definition getTicketStatusById :: "uuid \<Rightarrow> db \<Rightarrow> ticket_status_row option" where
  "getTicketStatusById i s = selectOne (\<lambda>r. tst_id r = i) (db_ticketStatuses s)"

definition findStatusByName :: "uuid \<Rightarrow> string \<Rightarrow> db \<Rightarrow> ticket_status_row option" where
  "findStatusByName partnerId name s =
     List.find (\<lambda>r. js_toLowerCase (tst_name r) = js_toLowerCase name)
       (selectWhere (\<lambda>r. tst_partnerId r = partnerId \<and> tst_isActive r) (db_ticketStatuses s))"

definition listActiveStatusNames :: "uuid \<Rightarrow> db \<Rightarrow> string list" where
  "listActiveStatusNames partnerId s = map tst_name (selectWhere (\<lambda>r. tst_partnerId r = partnerId \<and> tst_isActive r) (db_ticketStatuses s))"

section \<open>Statuses\<close>

definition nameTaken :: "uuid \<Rightarrow> string \<Rightarrow> ticket_status_row list \<Rightarrow> bool" where
  "nameTaken partnerId name t \<longleftrightarrow> (\<exists>r \<in> set t. tst_partnerId r = partnerId \<and> js_toLowerCase (tst_name r) = js_toLowerCase name)"

text \<open>An insert under the two unique indexes of the table.\<close>

definition insertStatus :: "ticket_status_row \<Rightarrow> db \<Rightarrow> svc_error + db" where
  "insertStatus r s =
     bindE (guardE (\<not> nameTaken (tst_partnerId r) (tst_name r) (db_ticketStatuses s)) (JsError ''ticket_statuses_partner_name_uq'')) (\<lambda>_.
     bindE (guardE (\<not> tst_isSystem r \<or> selectOne (systemStatus (tst_partnerId r) (tst_coreStatus r)) (db_ticketStatuses s) = None)
       (JsError ''ticket_statuses_partner_core_status_system_uq'')) (\<lambda>_.
     Inr (s \<lparr> db_next := Suc (db_next s), db_ticketStatuses := insertRow r (db_ticketStatuses s) \<rparr>)))"

definition DEFAULT_STATUSES :: "(ticket_status \<times> string \<times> int) list" where
  "DEFAULT_STATUSES = [(Tk_new, ''New'', 0), (Tk_open, ''Open'', 1), (Tk_pending, ''Pending'', 2),
     (Tk_on_hold, ''On hold'', 3), (Tk_resolved, ''Resolved'', 4), (Tk_closed, ''Closed'', 5)]"

definition seedSystemTicketStatuses :: "uuid \<Rightarrow> instant \<Rightarrow> db \<Rightarrow> svc_error + db" where
  "seedSystemTicketStatuses partnerId now s = foldE (\<lambda>(core, name, order) s.
     insertStatus \<lparr> tst_id = db_next s, tst_partnerId = partnerId, tst_name = name, tst_coreStatus = core, tst_color = None,
       tst_sortOrder = order, tst_isSystem = True, tst_isActive = True, tst_updatedAt = now \<rparr> s) DEFAULT_STATUSES s"

record create_status_input =
  csi_name :: string
  csi_coreStatus :: ticket_status
  csi_color :: "string option"
  csi_sortOrder :: "int option"

definition createTicketStatus :: "uuid \<Rightarrow> create_status_input \<Rightarrow> instant \<Rightarrow> db \<Rightarrow> ticket_status_row svc" where
  "createTicketStatus partnerId input now s =
     (let r = \<lparr> tst_id = db_next s, tst_partnerId = partnerId, tst_name = csi_name input, tst_coreStatus = csi_coreStatus input,
                tst_color = csi_color input, tst_sortOrder = nullish (csi_sortOrder input) 0, tst_isSystem = False,
                tst_isActive = True, tst_updatedAt = now \<rparr>
      in (case insertStatus r s of
            Inl e \<Rightarrow> Inl (if e = JsError ''ticket_statuses_partner_name_uq'' then TicketConfigErr 409 STATUS_NAME_TAKEN else e)
          | Inr s1 \<Rightarrow> Inr (r, s1)))"

record update_status_input =
  usi_name :: "string option"
  usi_coreStatus :: "ticket_status option"
  usi_color :: "string option option"
  usi_sortOrder :: "int option"
  usi_isActive :: "bool option"

definition patchStatus :: "update_status_input \<Rightarrow> instant \<Rightarrow> ticket_status_row \<Rightarrow> ticket_status_row" where
  "patchStatus input now r = r \<lparr> tst_name := nullish (usi_name input) (tst_name r), tst_coreStatus := nullish (usi_coreStatus input) (tst_coreStatus r),
     tst_color := nullish (usi_color input) (tst_color r), tst_sortOrder := nullish (usi_sortOrder input) (tst_sortOrder r),
     tst_isActive := nullish (usi_isActive input) (tst_isActive r), tst_updatedAt := now \<rparr>"

definition updateTicketStatus :: "uuid \<Rightarrow> uuid \<Rightarrow> update_status_input \<Rightarrow> instant \<Rightarrow> db \<Rightarrow> ticket_status_row svc" where
  "updateTicketStatus partnerId i input now s =
     bindE (ofOption (TicketConfigErr 404 CFG_STATUS_NOT_FOUND)
       (selectOne (\<lambda>r. tst_id r = i \<and> tst_partnerId r = partnerId) (db_ticketStatuses s))) (\<lambda>row.
     bindE (guardE (\<not> tst_isSystem row \<or> usi_coreStatus input = None \<or> usi_coreStatus input = Some (tst_coreStatus row))
       (TicketConfigErr 400 SYSTEM_STATUS_IMMUTABLE)) (\<lambda>_.
     bindE (guardE (\<not> tst_isSystem row \<or> usi_isActive input \<noteq> Some False) (TicketConfigErr 400 SYSTEM_STATUS_REQUIRED)) (\<lambda>_.
     bindE (guardE (\<not> nameTaken partnerId (tst_name (patchStatus input now row)) (deleteWhere (\<lambda>r. tst_id r = i) (db_ticketStatuses s)))
       (TicketConfigErr 409 STATUS_NAME_TAKEN)) (\<lambda>_.
     Inr (patchStatus input now row,
       s \<lparr> db_ticketStatuses := updateWhere (\<lambda>r. tst_id r = i \<and> tst_partnerId r = partnerId) (patchStatus input now) (db_ticketStatuses s) \<rparr>)))))"

text \<open>The loop over the requested order; the ids of other partners are skipped.\<close>

fun reorderLoop :: "uuid \<Rightarrow> uuid set \<Rightarrow> instant \<Rightarrow> int \<Rightarrow> uuid list \<Rightarrow> ticket_status_row list \<Rightarrow> nat \<times> ticket_status_row list" where
  "reorderLoop partnerId owned now index [] t = (0, t)"
| "reorderLoop partnerId owned now index (i # ids) t =
     (if i \<in> owned
      then case reorderLoop partnerId owned now (index + 1) ids
             (updateWhere (\<lambda>r. tst_id r = i \<and> tst_partnerId r = partnerId) (\<lambda>r. r \<lparr> tst_sortOrder := index, tst_updatedAt := now \<rparr>) t)
           of (n, t') \<Rightarrow> (Suc n, t')
      else reorderLoop partnerId owned now (index + 1) ids t)"

definition reorderTicketStatuses :: "uuid \<Rightarrow> uuid list \<Rightarrow> instant \<Rightarrow> db \<Rightarrow> nat \<times> db" where
  "reorderTicketStatuses partnerId ids now s =
     (let owned = tst_id ` set (selectWhere (\<lambda>r. tst_id r \<in> set ids \<and> tst_partnerId r = partnerId) (db_ticketStatuses s))
      in case reorderLoop partnerId owned now 0 ids (db_ticketStatuses s) of (n, t) \<Rightarrow> (n, s \<lparr> db_ticketStatuses := t \<rparr>))"

section \<open>Priorities and organizations\<close>

text \<open>A field of the input is absent, null or set.\<close>

record priority_input =
  pin_label :: "string option option"
  pin_responseSlaMinutes :: "int option option"
  pin_resolutionSlaMinutes :: "int option option"

definition upsertPriority :: "uuid \<Rightarrow> instant \<Rightarrow> ticket_priority \<times> priority_input \<Rightarrow> priority_setting list \<Rightarrow> priority_setting list" where
  "upsertPriority partnerId now e t = (case e of (priority, input) \<Rightarrow>
     (case selectOne (settingFor partnerId priority) t of
        None \<Rightarrow> insertRow \<lparr> tps_partnerId = partnerId, tps_priority = priority, tps_label = nullish (pin_label input) None,
          tps_responseSlaMinutes = nullish (pin_responseSlaMinutes input) None,
          tps_resolutionSlaMinutes = nullish (pin_resolutionSlaMinutes input) None, tps_updatedAt = now \<rparr> t
      | Some row \<Rightarrow> updateWhere (settingFor partnerId priority) (\<lambda>r. r \<lparr> tps_label := nullish (pin_label input) (tps_label r),
          tps_responseSlaMinutes := nullish (pin_responseSlaMinutes input) (tps_responseSlaMinutes r),
          tps_resolutionSlaMinutes := nullish (pin_resolutionSlaMinutes input) (tps_resolutionSlaMinutes r), tps_updatedAt := now \<rparr>) t))"

definition PRIORITIES :: "ticket_priority list" where
  "PRIORITIES = [Prio_low, Prio_normal, Prio_high, Prio_urgent]"

definition readPriorities :: "uuid \<Rightarrow> db \<Rightarrow> (ticket_priority \<times> string option \<times> int option \<times> int option) list" where
  "readPriorities partnerId s = map (\<lambda>p. case selectOne (settingFor partnerId p) (db_prioritySettings s) of
     None \<Rightarrow> (p, None, None, None)
   | Some r \<Rightarrow> (p, tps_label r, tps_responseSlaMinutes r, tps_resolutionSlaMinutes r)) PRIORITIES"

definition upsertPrioritySettings ::
    "uuid \<Rightarrow> (ticket_priority \<times> priority_input) list \<Rightarrow> instant \<Rightarrow> db \<Rightarrow> (ticket_priority \<times> string option \<times> int option \<times> int option) list \<times> db" where
  "upsertPrioritySettings partnerId input now s =
     (let s1 = s \<lparr> db_prioritySettings := fold (upsertPriority partnerId now) input (db_prioritySettings s) \<rparr>
      in (readPriorities partnerId s1, s1))"

record org_settings_input =
  osi_slaOverrides :: "json option"
  osi_defaultHourlyRate :: "rat option option"
  osi_defaultBillable :: "bool option option"

definition storedRate :: "rat option \<Rightarrow> money option" where
  "storedRate v = map_option (\<lambda>r. numeric2 (js_Number r)) v"

definition upsertOrgTicketSettings :: "uuid \<Rightarrow> org_settings_input \<Rightarrow> instant \<Rightarrow> db \<Rightarrow> unit svc" where
  "upsertOrgTicketSettings orgId input now s =
     bindE (guardE (case osi_defaultHourlyRate input of Some (Some r) \<Rightarrow> rateFits (numeric2 (js_Number r)) | _ \<Rightarrow> True)
       (JsError ''numeric field overflow'')) (\<lambda>_.
     bindE (guardE (orgOf s orgId \<noteq> None) (JsError ''foreign key violation'')) (\<lambda>_.
     Inr ((), case selectOne (\<lambda>r. ots_orgId r = orgId) (db_orgTicketSettings s) of
        None \<Rightarrow> s \<lparr> db_orgTicketSettings := insertRow \<lparr> ots_orgId = orgId, ots_slaOverrides = nullish (osi_slaOverrides input) (J_obj []),
          ots_defaultHourlyRate = storedRate (nullish (osi_defaultHourlyRate input) None),
          ots_defaultBillable = nullish (osi_defaultBillable input) None, ots_updatedAt = now \<rparr> (db_orgTicketSettings s) \<rparr>
      | Some row \<Rightarrow> s \<lparr> db_orgTicketSettings := updateWhere (\<lambda>r. ots_orgId r = orgId) (\<lambda>r. r \<lparr>
          ots_slaOverrides := nullish (osi_slaOverrides input) (ots_slaOverrides r),
          ots_defaultHourlyRate := (case osi_defaultHourlyRate input of None \<Rightarrow> ots_defaultHourlyRate r | Some v \<Rightarrow> storedRate v),
          ots_defaultBillable := nullish (osi_defaultBillable input) (ots_defaultBillable r), ots_updatedAt := now \<rparr>) (db_orgTicketSettings s) \<rparr>)))"

section \<open>Sender domains\<close>

definition createCustomerEmailDomain :: "uuid \<Rightarrow> string \<Rightarrow> uuid \<Rightarrow> bool \<Rightarrow> uuid \<Rightarrow> instant \<Rightarrow> db \<Rightarrow> email_domain svc" where
  "createCustomerEmailDomain partnerId domain orgId autoCreateContact userId now s =
     bindE (guardE (orgOfPartner orgId partnerId s) (TicketConfigErr 400 ORG_NOT_ACCESSIBLE)) (\<lambda>_.
     bindE (guardE (\<forall>r \<in> set (db_emailDomains s). \<not> (ced_partnerId r = partnerId \<and> ced_domain r = domain))
       (TicketConfigErr 409 DOMAIN_ALREADY_MAPPED)) (\<lambda>_.
     let r = \<lparr> ced_id = db_next s, ced_partnerId = partnerId, ced_orgId = orgId, ced_domain = domain, ced_autoCreateContact = autoCreateContact,
               ced_isActive = True, ced_createdBy = Some userId, ced_updatedAt = now \<rparr>
     in Inr (r, s \<lparr> db_next := Suc (db_next s), db_emailDomains := insertRow r (db_emailDomains s) \<rparr>)))"

record email_domain_patch =
  edp_orgId :: "uuid option"
  edp_autoCreateContact :: "bool option"
  edp_isActive :: "bool option"

definition patchDomain :: "email_domain_patch \<Rightarrow> instant \<Rightarrow> email_domain \<Rightarrow> email_domain" where
  "patchDomain input now r = r \<lparr> ced_orgId := nullish (edp_orgId input) (ced_orgId r),
     ced_autoCreateContact := nullish (edp_autoCreateContact input) (ced_autoCreateContact r),
     ced_isActive := nullish (edp_isActive input) (ced_isActive r), ced_updatedAt := now \<rparr>"

definition updateCustomerEmailDomain :: "uuid \<Rightarrow> uuid \<Rightarrow> email_domain_patch \<Rightarrow> instant \<Rightarrow> db \<Rightarrow> email_domain svc" where
  "updateCustomerEmailDomain partnerId i input now s =
     bindE (guardE (case edp_orgId input of None \<Rightarrow> True | Some g \<Rightarrow> orgOfPartner g partnerId s) (TicketConfigErr 400 ORG_NOT_ACCESSIBLE)) (\<lambda>_.
     bindE (ofOption (TicketConfigErr 404 DOMAIN_MAPPING_NOT_FOUND)
       (selectOne (\<lambda>r. ced_id r = i \<and> ced_partnerId r = partnerId) (db_emailDomains s))) (\<lambda>r.
     Inr (patchDomain input now r,
       s \<lparr> db_emailDomains := updateWhere (\<lambda>r. ced_id r = i \<and> ced_partnerId r = partnerId) (patchDomain input now) (db_emailDomains s) \<rparr>)))"

definition deleteCustomerEmailDomain :: "uuid \<Rightarrow> uuid \<Rightarrow> db \<Rightarrow> unit svc" where
  "deleteCustomerEmailDomain partnerId i s =
     bindE (ofOption (TicketConfigErr 404 DOMAIN_MAPPING_NOT_FOUND)
       (selectOne (\<lambda>r. ced_id r = i \<and> ced_partnerId r = partnerId) (db_emailDomains s))) (\<lambda>_.
     Inr ((), s \<lparr> db_emailDomains := deleteWhere (\<lambda>r. ced_id r = i \<and> ced_partnerId r = partnerId) (db_emailDomains s) \<rparr>))"

end
