(* ===== verification/Ticketing.thy ===== *)
theory Ticketing
  imports TicketConfig
begin

text \<open>
  Tickets: service level targets (\<open>ticketSla.ts\<close>), numbers (\<open>ticketNumbers.ts\<close>), the ticket service
  (\<open>ticketService.ts\<close>), the monitor of service levels (\<open>jobs/ticketSlaWorker.ts\<close>) and the review queue
  of inbound e-mail (\<open>ticketConfigService.ts\<close>). The random display number of a ticket and the year of
  the server's local clock are arguments; a call has one time, for the service and the database. Audit entries are left out. Definitions only.
\<close>

section \<open>ticketSla.ts\<close>

definition PRIORITY_SLA_DEFAULTS :: "ticket_priority \<Rightarrow> int option \<times> int option" where
  "PRIORITY_SLA_DEFAULTS p = (case p of Prio_urgent \<Rightarrow> (Some 60, Some 240) | Prio_high \<Rightarrow> (Some 240, Some 1440)
     | Prio_normal \<Rightarrow> (None, None) | Prio_low \<Rightarrow> (None, None))"

text \<open>Pairs of a response and a resolution target, in the order of the chain.\<close>

record sla_input =
  sla_override :: "int option \<times> int option"
  sla_category :: "int option \<times> int option"
  sla_org :: "int option \<times> int option"
  sla_partner :: "int option \<times> int option"
  sla_priority :: ticket_priority

definition resolveSlaTargets :: "sla_input \<Rightarrow> int option \<times> int option" where
  "resolveSlaTargets i =
     (let pick = (\<lambda>f. orElse (f (sla_override i)) (orElse (f (sla_category i)) (orElse (f (sla_org i)) (orElse (f (sla_partner i))
        (f (PRIORITY_SLA_DEFAULTS (sla_priority i)))))))
      in (pick fst, pick snd))"

definition targetText :: "sla_target \<Rightarrow> string" where
  "targetText k = (case k of Sla_response \<Rightarrow> ''response'' | Sla_resolution \<Rightarrow> ''resolution'')"

definition targetOfText :: "string \<Rightarrow> sla_target option" where
  "targetOfText v = (if v = ''response'' then Some Sla_response else if v = ''resolution'' then Some Sla_resolution else None)"

text \<open>The set of breached targets, in insertion order.\<close>

definition breachedTargets :: "string option \<Rightarrow> sla_target list" where
  "breachedTargets reason = fold (\<lambda>part out. case targetOfText (js_trim part) of None \<Rightarrow> out
     | Some k \<Rightarrow> if k \<in> set out then out else out @ [k]) (splitOn (CHR '','') (nullish reason [])) []"

fun joinWith :: "string \<Rightarrow> string list \<Rightarrow> string" where
  "joinWith sep [] = []"
| "joinWith sep [s] = s"
| "joinWith sep (s # t # ss) = s @ sep @ joinWith sep (t # ss)"

definition appendBreachTarget :: "string option \<Rightarrow> sla_target \<Rightarrow> string" where
  "appendBreachTarget reason k =
     (let existing = breachedTargets reason
      in if k \<in> set existing then nullish reason (targetText k)
         else if existing = [] then targetText k
         else joinWith '','' (map targetText existing) @ '','' @ targetText k)"

section \<open>ticketNumbers.ts\<close>

definition formatInternalNumber :: "int \<Rightarrow> int \<Rightarrow> string" where
  "formatInternalNumber year counter = ''T-'' @ js_String year @ ''-'' @ padStart 4 (CHR ''0'') (js_String counter)"

text \<open>The counter is committed in a transaction of its own; a ticket whose insert fails afterwards leaves a gap.\<close>

definition allocateInternalTicketNumber :: "uuid \<Rightarrow> int \<Rightarrow> db \<Rightarrow> string svc" where
  "allocateInternalTicketNumber partnerId year s = (case nextCounter partnerId year (db_ticketSequences s) of (counter, t) \<Rightarrow>
     bindE (guardE (1 \<le> counter) (JsError ''Failed to allocate ticket number'')) (\<lambda>_.
     Inr (formatInternalNumber year counter, s \<lparr> db_ticketSequences := t \<rparr>)))"

section \<open>Guards\<close>

definition TICKET_STATUS_TRANSITIONS :: "ticket_status \<Rightarrow> ticket_status list" where
  "TICKET_STATUS_TRANSITIONS st = (case st of
     Tk_new \<Rightarrow> [Tk_open, Tk_pending, Tk_on_hold, Tk_resolved, Tk_closed]
   | Tk_open \<Rightarrow> [Tk_pending, Tk_on_hold, Tk_resolved, Tk_closed]
   | Tk_pending \<Rightarrow> [Tk_open, Tk_on_hold, Tk_resolved, Tk_closed]
   | Tk_on_hold \<Rightarrow> [Tk_open, Tk_pending, Tk_resolved, Tk_closed]
   | Tk_resolved \<Rightarrow> [Tk_open, Tk_closed]
   | Tk_closed \<Rightarrow> [Tk_open])"

record ticket_actor =
  tka_userId :: uuid
  tka_name :: "string option"

definition ticketOf :: "db \<Rightarrow> uuid \<Rightarrow> ticket option" where
  "ticketOf s i = selectOne (\<lambda>t. tk_id t = i) (db_tickets s)"

definition getTicketOrThrow :: "uuid \<Rightarrow> db \<Rightarrow> svc_error + ticket" where
  "getTicketOrThrow i s = ofOption (TicketErr 404 None) (ticketOf s i)"

definition resolveTicketPartnerId :: "ticket \<Rightarrow> db \<Rightarrow> uuid option" where
  "resolveTicketPartnerId t s = (case tk_partnerId t of Some p \<Rightarrow> Some p | None \<Rightarrow> map_option org_partnerId (orgOf s (tk_orgId t)))"

definition getAssigneeForValidation :: "uuid \<Rightarrow> db \<Rightarrow> user option" where
  "getAssigneeForValidation i s = selectOne (\<lambda>u. usr_id u = i) (db_users s)"

definition throwIfPartnerUnresolvable :: "uuid option \<Rightarrow> svc_error + uuid" where
  "throwIfPartnerUnresolvable p = ofOption (TicketErr 500 (Some TICKET_PARTNER_UNRESOLVABLE)) p"

definition assertAssigneeInPartner :: "uuid \<Rightarrow> uuid option \<Rightarrow> db \<Rightarrow> svc_error + unit" where
  "assertAssigneeInPartner assigneeId partnerId s =
     bindE (ofOption (TicketErr 404 (Some ASSIGNEE_NOT_FOUND)) (getAssigneeForValidation assigneeId s)) (\<lambda>u.
     bindE (throwIfPartnerUnresolvable partnerId) (\<lambda>p.
     guardE (usr_partnerId u = p) (TicketErr 400 (Some ASSIGNEE_WRONG_PARTNER))))"

definition getPortalUserForValidation :: "uuid \<Rightarrow> db \<Rightarrow> portal_user option" where
  "getPortalUserForValidation i s = selectOne (\<lambda>u. pu_id u = i) (db_portalUsers s)"

definition assertRequesterInOrg :: "uuid \<Rightarrow> uuid \<Rightarrow> db \<Rightarrow> svc_error + portal_user" where
  "assertRequesterInOrg portalUserId orgId s =
     bindE (ofOption (TicketErr 404 (Some REQUESTER_NOT_FOUND)) (getPortalUserForValidation portalUserId s)) (\<lambda>u.
     bindE (guardE (pu_orgId u = orgId) (TicketErr 400 (Some REQUESTER_WRONG_ORG))) (\<lambda>_. Inr u))"

definition assertCategoryInPartner :: "uuid \<Rightarrow> uuid option \<Rightarrow> db \<Rightarrow> svc_error + ticket_category" where
  "assertCategoryInPartner categoryId partnerId s =
     bindE (ofOption (TicketErr 404 (Some CATEGORY_NOT_FOUND)) (getCategoryDefaults categoryId s)) (\<lambda>c.
     bindE (throwIfPartnerUnresolvable partnerId) (\<lambda>p.
     bindE (guardE (tcat_partnerId c = p) (TicketErr 400 (Some CATEGORY_WRONG_PARTNER))) (\<lambda>_. Inr c)))"

definition assertDeviceInOrg :: "uuid \<Rightarrow> uuid \<Rightarrow> db \<Rightarrow> svc_error + unit" where
  "assertDeviceInOrg deviceId orgId s =
     bindE (ofOption (TicketErr 404 None) (selectOne (\<lambda>d. dev_id d = deviceId) (db_devices s))) (\<lambda>d.
     guardE (dev_orgId d = orgId) (TicketErr 400 None))"

text \<open>A guard that runs only when the optional value is given.\<close>

definition whenGiven :: "'a option \<Rightarrow> ('a \<Rightarrow> svc_error + 'b) \<Rightarrow> svc_error + 'b option" where
  "whenGiven v f = (case v of None \<Rightarrow> Inr None | Some x \<Rightarrow> bindE (f x) (\<lambda>y. Inr (Some y)))"

section \<open>Creating tickets\<close>

record create_ticket_input =
  cti_orgId :: uuid
  cti_subject :: string
  cti_description :: "string option"
  cti_deviceId :: "uuid option"
  cti_categoryId :: "uuid option"
  cti_priority :: "ticket_priority option"
  cti_dueDate :: "instant option"
  cti_assigneeId :: "uuid option"
  cti_source :: ticket_source
  cti_submittedBy :: "uuid option"
  cti_submitterEmail :: "string option"
  cti_submitterName :: "string option"

definition resolveRequester :: "create_ticket_input \<Rightarrow> ticket_actor \<Rightarrow> db \<Rightarrow> svc_error + (uuid option \<times> string option \<times> string option)" where
  "resolveRequester input a s =
     (if cti_source input = From_portal \<or> cti_source input = From_email
      then Inr (cti_submittedBy input, cti_submitterName input, cti_submitterEmail input)
      else case cti_submittedBy input of
        Some p \<Rightarrow> bindE (assertRequesterInOrg p (cti_orgId input) s) (\<lambda>u.
          Inr (Some (pu_id u), orElse (cti_submitterName input) (pu_name u), orElse (cti_submitterEmail input) (Some (pu_email u))))
      | None \<Rightarrow> if isPgText (cti_submitterName input) \<or> isPgText (cti_submitterEmail input)
          then Inr (None, cti_submitterName input, cti_submitterEmail input)
          else Inr (None, tka_name a, None))"

text \<open>An insert under the unique indexes, the foreign key of the requester and the width of the columns.\<close>

definition insertTicket :: "ticket \<Rightarrow> db \<Rightarrow> svc_error + db" where
  "insertTicket t s =
     bindE (guardE (\<forall>r \<in> set (db_tickets s). tk_ticketNumber r \<noteq> tk_ticketNumber t) (DbError ''unique violation'')) (\<lambda>_.
     bindE (guardE (\<forall>r \<in> set (db_tickets s). \<not> (tk_partnerId r = tk_partnerId t \<and> tk_internalNumber r = tk_internalNumber t))
       (DbError ''tickets_partner_internal_number_uq'')) (\<lambda>_.
     bindE (guardE (case tk_submittedBy t of None \<Rightarrow> True | Some p \<Rightarrow> getPortalUserForValidation p s \<noteq> None) (DbError ''foreign key violation'')) (\<lambda>_.
     bindE (guardE (length (tk_subject t) \<le> 255 \<and> length (nullish (tk_submitterEmail t) []) \<le> 255 \<and> length (nullish (tk_submitterName t) []) \<le> 255)
       (DbError ''value too long for type character varying(255)'')) (\<lambda>_.
     Inr (s \<lparr> db_next := Suc (db_next s), db_tickets := insertRow t (db_tickets s) \<rparr>)))))"

definition newTicketSla :: "create_ticket_input \<Rightarrow> ticket_category option \<Rightarrow> uuid \<Rightarrow> db \<Rightarrow> int option \<times> int option" where
  "newTicketSla input category partnerId s =
     (let priority = nullish (cti_priority input) Prio_normal
      in resolveSlaTargets \<lparr> sla_override = (None, None),
        sla_category = (Option.bind category tcat_responseSlaMinutes, Option.bind category tcat_resolutionSlaMinutes),
        sla_org = getOrgSlaOverride (cti_orgId input) priority s, sla_partner = getPartnerPrioritySla partnerId priority s,
        sla_priority = priority \<rparr>)"

definition createTicket :: "create_ticket_input \<Rightarrow> ticket_actor \<Rightarrow> string \<Rightarrow> int \<Rightarrow> instant \<Rightarrow> db \<Rightarrow> ticket svc" where
  "createTicket input a legacyNumber year now s =
     bindE (ofOption (TicketErr 404 None) (orgOf s (cti_orgId input))) (\<lambda>org.
     bindE (whenGiven (cti_deviceId input) (\<lambda>d. assertDeviceInOrg d (cti_orgId input) s)) (\<lambda>_.
     bindE (whenGiven (cti_assigneeId input) (\<lambda>u. assertAssigneeInPartner u (Some (org_partnerId org)) s)) (\<lambda>_.
     bindE (whenGiven (cti_categoryId input) (\<lambda>c. assertCategoryInPartner c (Some (org_partnerId org)) s)) (\<lambda>category.
     bindE (resolveRequester input a s) (\<lambda>(submittedBy, submitterName, submitterEmail).
     let status = (if cti_assigneeId input \<noteq> None then Tk_open else Tk_new);
         statusId = getSystemStatusId (org_partnerId org) status s;
         targets = newTicketSla input category (org_partnerId org) s
     in bindE (allocateInternalTicketNumber (org_partnerId org) year s) (\<lambda>(internalNumber, s1).
     let t = \<lparr> tk_id = db_next s1, tk_orgId = cti_orgId input, tk_ticketNumber = legacyNumber, tk_submittedBy = submittedBy,
               tk_submitterEmail = submitterEmail, tk_submitterName = submitterName, tk_subject = cti_subject input,
               tk_description = cti_description input, tk_status = status, tk_priority = nullish (cti_priority input) Prio_normal,
               tk_assignedTo = cti_assigneeId input, tk_deviceId = cti_deviceId input, tk_tags = [], tk_firstResponseAt = None,
               tk_resolvedAt = None, tk_closedAt = None, tk_partnerId = Some (org_partnerId org), tk_categoryId = cti_categoryId input,
               tk_pendingReason = None, tk_dueDate = cti_dueDate input, tk_responseSlaMinutes = fst targets,
               tk_resolutionSlaMinutes = snd targets, tk_slaBreachedAt = None, tk_slaBreachReason = None, tk_slaPausedAt = None,
               tk_slaPausedMinutes = Some 0, tk_source = cti_source input, tk_internalNumber = Some internalNumber,
               tk_emailMessageId = None, tk_emailThreadKey = None,
               tk_closedBy = None, tk_resolutionNote = None, tk_statusId = statusId, tk_createdAt = now, tk_updatedAt = now \<rparr>
     in bindE (insertTicket t s1) (\<lambda>s2.
     Inr (t, emit (TicketEvent (Ev_ticket_created internalNumber (cti_subject input) (cti_assigneeId input) (cti_source input))
       (tk_id t) (cti_orgId input) (Some (org_partnerId org)) (Some (tka_userId a))) s2))))))))"

section \<open>Status changes\<close>

definition feedLine :: "uuid \<Rightarrow> ticket_actor \<Rightarrow> comment_type \<Rightarrow> string \<Rightarrow> feed_value option \<Rightarrow> feed_value option \<Rightarrow> instant \<Rightarrow> ticket_comment" where
  "feedLine ticketId a ct content old new now = \<lparr> tcm_id = 0, tcm_ticketId = ticketId, tcm_portalUserId = None,
     tcm_userId = Some (tka_userId a), tcm_authorName = tka_name a, tcm_authorType = Some ''internal'', tcm_content = content,
     tcm_isPublic = False, tcm_commentType = ct, tcm_oldValue = old, tcm_newValue = new, tcm_deletedAt = None, tcm_editedAt = None,
     tcm_createdAt = now \<rparr>"

definition updateTickets :: "(ticket \<Rightarrow> bool) \<Rightarrow> (ticket \<Rightarrow> ticket) \<Rightarrow> db \<Rightarrow> db" where
  "updateTickets P f s = s \<lparr> db_tickets := updateWhere P f (db_tickets s) \<rparr>"

record status_target =
  stt_status :: "ticket_status option"
  stt_statusId :: "uuid option"

record status_options =
  sto_resolutionNote :: "string option"
  sto_pendingReason :: "string option"

text \<open>The core state, the status row and its name that the target stands for.\<close>

definition resolveTarget :: "status_target \<Rightarrow> uuid option \<Rightarrow> db \<Rightarrow> svc_error + (ticket_status \<times> uuid option \<times> string option)" where
  "resolveTarget target partnerId s = (case (stt_status target, stt_statusId target) of
     (None, Some i) \<Rightarrow> bindE (ofOption (TicketErr 404 (Some STATUS_NOT_FOUND)) (getTicketStatusById i s)) (\<lambda>row.
       bindE (guardE (Some (tst_partnerId row) = partnerId) (TicketErr 404 (Some STATUS_NOT_FOUND))) (\<lambda>_.
       bindE (guardE (tst_isActive row) (TicketErr 400 (Some STATUS_INACTIVE))) (\<lambda>_.
       Inr (tst_coreStatus row, Some i, Some (tst_name row)))))
   | (Some st, None) \<Rightarrow> Inr (st, Option.bind partnerId (\<lambda>p. getSystemStatusId p st s), None)
   | _ \<Rightarrow> Inl (TicketErr 400 (Some INVALID_INPUT)))"

definition isPaused :: "ticket_status \<Rightarrow> bool" where
  "isPaused st \<longleftrightarrow> st = Tk_pending \<or> st = Tk_on_hold"

text \<open>The columns a transition stamps, and the pause of the service level clock; \<open>t\<close> is the ticket that was read.\<close>

definition stampTransition :: "ticket \<Rightarrow> ticket_status \<Rightarrow> status_options \<Rightarrow> uuid \<Rightarrow> instant \<Rightarrow> ticket \<Rightarrow> ticket" where
  "stampTransition t toStatus opts userId now r =
     (if toStatus = Tk_resolved
      then r \<lparr> tk_resolvedAt := Some (nullish (tk_resolvedAt t) now), tk_resolutionNote := sto_resolutionNote opts, tk_pendingReason := None \<rparr>
      else if toStatus = Tk_closed
      then r \<lparr> tk_closedAt := Some now, tk_closedBy := Some userId, tk_resolvedAt := Some (nullish (tk_resolvedAt t) now), tk_pendingReason := None \<rparr>
      else if toStatus = Tk_open \<and> (tk_status t = Tk_resolved \<or> tk_status t = Tk_closed)
      then r \<lparr> tk_resolvedAt := None, tk_closedAt := None, tk_closedBy := None, tk_pendingReason := None \<rparr>
      else if toStatus = Tk_pending \<or> toStatus = Tk_on_hold
      then r \<lparr> tk_pendingReason := sto_pendingReason opts \<rparr>
      else r \<lparr> tk_pendingReason := None \<rparr>)"

definition pausedMinutesAfter :: "ticket \<Rightarrow> instant \<Rightarrow> int option" where
  "pausedMinutesAfter t now = (case tk_slaPausedAt t of None \<Rightarrow> tk_slaPausedMinutes t
     | Some p \<Rightarrow> Some (nullish (tk_slaPausedMinutes t) 0 + max 0 (computeDurationMinutes p now)))"

definition foldPause :: "ticket \<Rightarrow> ticket_status \<Rightarrow> instant \<Rightarrow> ticket \<Rightarrow> ticket" where
  "foldPause t toStatus now r =
     (if \<not> isPaused (tk_status t) \<and> isPaused toStatus then r \<lparr> tk_slaPausedAt := Some now \<rparr>
      else if isPaused (tk_status t) \<and> \<not> isPaused toStatus
      then (if tk_slaPausedAt t = None then r else r \<lparr> tk_slaPausedMinutes := pausedMinutesAfter t now \<rparr>) \<lparr> tk_slaPausedAt := None \<rparr>
      else r)"

definition transitionPatch :: "ticket \<Rightarrow> ticket_status \<Rightarrow> uuid option \<Rightarrow> status_options \<Rightarrow> uuid \<Rightarrow> instant \<Rightarrow> ticket \<Rightarrow> ticket" where
  "transitionPatch t toStatus statusId opts userId now r =
     foldPause t toStatus now (stampTransition t toStatus opts userId now (r \<lparr> tk_status := toStatus, tk_statusId := statusId, tk_updatedAt := now \<rparr>))"

text \<open>An update with the compare-and-swap condition in its \<open>WHERE\<close>.\<close>

definition casTicket :: "(ticket \<Rightarrow> bool) \<Rightarrow> (ticket \<Rightarrow> ticket) \<Rightarrow> db \<Rightarrow> ticket svc" where
  "casTicket P f s = (case selectOne P (db_tickets s) of
     None \<Rightarrow> Inl (TicketErr 409 (Some CONCURRENT_MODIFICATION))
   | Some r \<Rightarrow> Inr (f r, updateTickets P f s))"

definition relabelTicket :: "ticket \<Rightarrow> uuid option \<Rightarrow> string option \<Rightarrow> ticket_actor \<Rightarrow> instant \<Rightarrow> db \<Rightarrow> ticket svc" where
  "relabelTicket t statusId name a now s =
     bindE (casTicket (\<lambda>r. tk_id r = tk_id t \<and> tk_status r = tk_status t \<and> tk_statusId r = tk_statusId t)
       (\<lambda>r. r \<lparr> tk_statusId := statusId, tk_updatedAt := now \<rparr>) s) (\<lambda>(r, s1).
     Inr (r, case name of None \<Rightarrow> s1
       | Some n \<Rightarrow> if n = [] then s1 else insertComment (feedLine (tk_id t) a Com_status_change n (Some (Fv_status (tk_status t))) (Some (Fv_status (tk_status t))) now) s1))"

definition changeTicketStatus :: "uuid \<Rightarrow> status_target \<Rightarrow> status_options \<Rightarrow> ticket_actor \<Rightarrow> instant \<Rightarrow> db \<Rightarrow> ticket svc" where
  "changeTicketStatus i target opts a now s =
     bindE (getTicketOrThrow i s) (\<lambda>t.
     bindE (resolveTarget target (resolveTicketPartnerId t s) s) (\<lambda>(toStatus, statusId, name).
     if toStatus = tk_status t \<and> statusId = tk_statusId t then Inr (t, s)
     else if toStatus = tk_status t then relabelTicket t statusId name a now s
     else
       bindE (guardE (toStatus \<in> set (TICKET_STATUS_TRANSITIONS (tk_status t))) (TicketErr 409 (Some INVALID_TRANSITION))) (\<lambda>_.
       bindE (guardE (toStatus \<noteq> Tk_resolved \<or> isPgText (sto_resolutionNote opts)) (TicketErr 400 None)) (\<lambda>_.
       bindE (guardE (case tk_slaPausedMinutes (transitionPatch t toStatus statusId opts (tka_userId a) now t) of None \<Rightarrow> True | Some m \<Rightarrow> minutesFit m)
         (JsError ''integer out of range'')) (\<lambda>_.
       bindE (casTicket (\<lambda>r. tk_id r = i \<and> tk_status r = tk_status t) (transitionPatch t toStatus statusId opts (tka_userId a) now) s) (\<lambda>(r, s1).
       Inr (r, emit (TicketEvent (Ev_ticket_status_changed (tk_status t) toStatus (sto_resolutionNote opts)) i (tk_orgId t) (tk_partnerId t) (Some (tka_userId a)))
         (insertComment (feedLine i a Com_status_change
           (nullish (orElse (sto_resolutionNote opts) (orElse (sto_pendingReason opts) name)) [])
           (Some (Fv_status (tk_status t))) (Some (Fv_status toStatus)) now) s1))))))))"

section \<open>Fields, assignment, comments\<close>

text \<open>A field of the input is absent, or set; nullable fields are absent, null or set.\<close>

record update_fields_input =
  ufi_subject :: "string option"
  ufi_description :: "string option"
  ufi_categoryId :: "uuid option option"
  ufi_priority :: "ticket_priority option"
  ufi_dueDate :: "instant option option"
  ufi_responseSlaMinutes :: "int option option"
  ufi_resolutionSlaMinutes :: "int option option"
  ufi_deviceId :: "uuid option option"
  ufi_tags :: "string list option"
  ufi_submittedBy :: "uuid option option"
  ufi_submitterName :: "string option option"
  ufi_submitterEmail :: "string option option"

definition differs :: "'a option \<Rightarrow> 'a \<Rightarrow> bool" where
  "differs v old \<longleftrightarrow> (case v of None \<Rightarrow> False | Some x \<Rightarrow> x \<noteq> old)"

text \<open>The keys and labels of the fields that change, in canonical order.\<close>

definition changedFields :: "update_fields_input \<Rightarrow> ticket \<Rightarrow> (string \<times> string) list" where
  "changedFields f t =
     (if differs (ufi_subject f) (tk_subject t) then [(''subject'', ''subject'')] else []) @
     (if differs (map_option Some (ufi_description f)) (tk_description t) then [(''description'', ''description'')] else []) @
     (if differs (ufi_categoryId f) (tk_categoryId t) then [(''categoryId'', ''category'')] else []) @
     (if differs (ufi_priority f) (tk_priority t) then [(''priority'', ''priority'')] else []) @
     (if differs (ufi_dueDate f) (tk_dueDate t) then [(''dueDate'', ''due date'')] else []) @
     (if differs (ufi_responseSlaMinutes f) (tk_responseSlaMinutes t) then [(''responseSlaMinutes'', ''response SLA'')] else []) @
     (if differs (ufi_resolutionSlaMinutes f) (tk_resolutionSlaMinutes t) then [(''resolutionSlaMinutes'', ''resolution SLA'')] else []) @
     (if differs (ufi_deviceId f) (tk_deviceId t) then [(''deviceId'', ''device'')] else []) @
     (if differs (ufi_tags f) (tk_tags t) then [(''tags'', ''tags'')] else [])"

record requester_patch =
  rqp_submittedBy :: "uuid option option"
  rqp_submitterName :: "string option option"
  rqp_submitterEmail :: "string option option"

definition requesterPatch :: "update_fields_input \<Rightarrow> ticket \<Rightarrow> db \<Rightarrow> svc_error + requester_patch" where
  "requesterPatch f t s = (case ufi_submittedBy f of
     Some (Some p) \<Rightarrow> bindE (assertRequesterInOrg p (tk_orgId t) s) (\<lambda>u.
       Inr \<lparr> rqp_submittedBy = Some (Some (pu_id u)), rqp_submitterName = Some (nullish (ufi_submitterName f) (pu_name u)),
         rqp_submitterEmail = Some (nullish (ufi_submitterEmail f) (Some (pu_email u))) \<rparr>)
   | v \<Rightarrow> Inr \<lparr> rqp_submittedBy = v, rqp_submitterName = ufi_submitterName f, rqp_submitterEmail = ufi_submitterEmail f \<rparr>)"

definition requesterChanged :: "requester_patch \<Rightarrow> ticket \<Rightarrow> bool" where
  "requesterChanged q t \<longleftrightarrow> differs (rqp_submittedBy q) (tk_submittedBy t) \<or> differs (rqp_submitterName q) (tk_submitterName t) \<or>
     differs (rqp_submitterEmail q) (tk_submitterEmail t)"

definition patchTicket :: "update_fields_input \<Rightarrow> requester_patch \<Rightarrow> instant \<Rightarrow> ticket \<Rightarrow> ticket" where
  "patchTicket f q now t = t \<lparr> tk_subject := nullish (ufi_subject f) (tk_subject t),
     tk_description := orElse (ufi_description f) (tk_description t), tk_categoryId := nullish (ufi_categoryId f) (tk_categoryId t),
     tk_priority := nullish (ufi_priority f) (tk_priority t), tk_dueDate := nullish (ufi_dueDate f) (tk_dueDate t),
     tk_responseSlaMinutes := nullish (ufi_responseSlaMinutes f) (tk_responseSlaMinutes t),
     tk_resolutionSlaMinutes := nullish (ufi_resolutionSlaMinutes f) (tk_resolutionSlaMinutes t),
     tk_deviceId := nullish (ufi_deviceId f) (tk_deviceId t), tk_tags := nullish (ufi_tags f) (tk_tags t),
     tk_submittedBy := nullish (rqp_submittedBy q) (tk_submittedBy t), tk_submitterName := nullish (rqp_submitterName q) (tk_submitterName t),
     tk_submitterEmail := nullish (rqp_submitterEmail q) (tk_submitterEmail t), tk_updatedAt := now \<rparr>"

definition feedbackIf :: "bool \<Rightarrow> string \<Rightarrow> ticket \<Rightarrow> ticket_actor \<Rightarrow> db \<Rightarrow> db" where
  "feedbackIf c eventType t a s = (if c then emit (TriageFeedback eventType (tk_orgId t) (tk_id t) (tka_userId a)) s else s)"

definition updateTicketFields :: "uuid \<Rightarrow> update_fields_input \<Rightarrow> ticket_actor \<Rightarrow> instant \<Rightarrow> db \<Rightarrow> ticket svc" where
  "updateTicketFields i f a now s =
     bindE (getTicketOrThrow i s) (\<lambda>t.
     bindE (case ufi_deviceId f of Some (Some d) \<Rightarrow> assertDeviceInOrg d (tk_orgId t) s | _ \<Rightarrow> Inr ()) (\<lambda>_.
     bindE (case ufi_categoryId f of Some (Some c) \<Rightarrow> bindE (assertCategoryInPartner c (resolveTicketPartnerId t s) s) (\<lambda>_. Inr ()) | _ \<Rightarrow> Inr ()) (\<lambda>_.
     bindE (requesterPatch f t s) (\<lambda>q.
     let changed = changedFields f t; moved = requesterChanged q t;
         keys = map fst changed @ (if moved then [''requester''] else []);
         labels = map snd changed @ (if moved then [''requester''] else [])
     in if keys = [] then Inr (t, s)
        else let r = patchTicket f q now t;
                 s1 = insertComment (feedLine i a Com_system (''Updated '' @ joinComma labels) None None now)
                   (updateTickets (\<lambda>r. tk_id r = i) (patchTicket f q now) s);
                 s2 = emit (TicketEvent (Ev_ticket_updated keys) i (tk_orgId t) (tk_partnerId t) (Some (tka_userId a))) s1
             in Inr (r, feedbackIf (''priority'' \<in> set keys) ''ticket.priority_changed'' t a
                  (feedbackIf (''categoryId'' \<in> set keys) ''ticket.category_changed'' t a s2))))))"

definition assignPatch :: "ticket \<Rightarrow> uuid option \<Rightarrow> instant \<Rightarrow> ticket \<Rightarrow> ticket" where
  "assignPatch t assigneeId now r =
     (if assigneeId \<noteq> None \<and> tk_status t = Tk_new then r \<lparr> tk_assignedTo := assigneeId, tk_updatedAt := now, tk_status := Tk_open \<rparr>
      else r \<lparr> tk_assignedTo := assigneeId, tk_updatedAt := now \<rparr>)"

text \<open>The read and the write of an assignment are separate statements; \<open>t\<close> is the ticket that was read.\<close>

definition assignRead :: "uuid \<Rightarrow> uuid option \<Rightarrow> db \<Rightarrow> svc_error + ticket" where
  "assignRead i assigneeId s =
     bindE (getTicketOrThrow i s) (\<lambda>t.
     bindE (whenGiven assigneeId (\<lambda>u. assertAssigneeInPartner u (resolveTicketPartnerId t s) s)) (\<lambda>_. Inr t))"

definition assignWrite :: "ticket \<Rightarrow> uuid option \<Rightarrow> ticket_actor \<Rightarrow> instant \<Rightarrow> db \<Rightarrow> ticket svc" where
  "assignWrite t assigneeId a now s =
     bindE (casTicket (\<lambda>r. tk_id r = tk_id t \<and> tk_assignedTo r = tk_assignedTo t) (assignPatch t assigneeId now) s) (\<lambda>(r, s1).
     Inr (r, feedbackIf True ''ticket.assignee_changed'' t a
       (emit (TicketEvent (Ev_ticket_assigned assigneeId) (tk_id t) (tk_orgId t) (tk_partnerId t) (Some (tka_userId a)))
         (insertComment (feedLine (tk_id t) a Com_assignment [] (map_option Fv_id (tk_assignedTo t)) (map_option Fv_id assigneeId) now) s1))))"

definition assignTicket :: "uuid \<Rightarrow> uuid option \<Rightarrow> ticket_actor \<Rightarrow> instant \<Rightarrow> db \<Rightarrow> ticket svc" where
  "assignTicket i assigneeId a now s = bindE (assignRead i assigneeId s) (\<lambda>t. assignWrite t assigneeId a now s)"

definition addTicketComment :: "uuid \<Rightarrow> string \<Rightarrow> bool \<Rightarrow> ticket_actor \<Rightarrow> instant \<Rightarrow> db \<Rightarrow> (nat \<times> bool) svc" where
  "addTicketComment i content isPublic a now s =
     bindE (getTicketOrThrow i s) (\<lambda>t.
     let commentId = length (db_ticketComments s);
         s1 = insertComment ((feedLine i a (if isPublic then Com_comment else Com_internal) content None None now) \<lparr> tcm_isPublic := isPublic \<rparr>) s;
         stamp = (isPublic \<and> tk_firstResponseAt t = None);
         s2 = (if stamp then updateTickets (\<lambda>r. tk_id r = i) (\<lambda>r. r \<lparr> tk_firstResponseAt := Some now, tk_updatedAt := now \<rparr>) s1 else s1)
     in Inr ((commentId, stamp), emit (TicketEvent (Ev_ticket_commented commentId isPublic False) i (tk_orgId t) (tk_partnerId t) (Some (tka_userId a))) s2))"

definition systemComment :: "comment_type \<Rightarrow> bool" where
  "systemComment ct \<longleftrightarrow> ct \<in> {Com_status_change, Com_assignment, Com_time_entry, Com_system}"

definition loadCommentWithTicket :: "nat \<Rightarrow> db \<Rightarrow> svc_error + (ticket_comment \<times> ticket)" where
  "loadCommentWithTicket commentId s =
     bindE (ofOption (TicketErr 404 None) (selectOne (\<lambda>c. tcm_id c = commentId) (db_ticketComments s))) (\<lambda>c.
     bindE (getTicketOrThrow (tcm_ticketId c) s) (\<lambda>t. Inr (c, t)))"

definition assertCommentEditable :: "ticket_comment \<Rightarrow> ticket_actor \<Rightarrow> bool \<Rightarrow> svc_error + unit" where
  "assertCommentEditable c a canManageAny =
     bindE (guardE (\<not> systemComment (tcm_commentType c)) (TicketErr 400 None)) (\<lambda>_.
     bindE (guardE (tcm_deletedAt c = None) (TicketErr 409 None)) (\<lambda>_.
     guardE (tcm_userId c = Some (tka_userId a) \<or> canManageAny) (TicketErr 403 None)))"

definition changeComment :: "(ticket_comment \<Rightarrow> ticket_comment) \<Rightarrow> nat \<Rightarrow> ticket_actor \<Rightarrow> bool \<Rightarrow> uuid option \<Rightarrow> db \<Rightarrow> ticket_comment svc" where
  "changeComment f commentId a canManageAny expectedTicketId s =
     bindE (loadCommentWithTicket commentId s) (\<lambda>(c, t).
     bindE (guardE (expectedTicketId = None \<or> expectedTicketId = Some (tcm_ticketId c)) (TicketErr 404 None)) (\<lambda>_.
     bindE (assertCommentEditable c a canManageAny) (\<lambda>_.
     Inr (f c, s \<lparr> db_ticketComments := updateWhere (\<lambda>c. tcm_id c = commentId) f (db_ticketComments s) \<rparr>))))"

definition editTicketComment :: "nat \<Rightarrow> string \<Rightarrow> ticket_actor \<Rightarrow> bool \<Rightarrow> uuid option \<Rightarrow> instant \<Rightarrow> db \<Rightarrow> ticket_comment svc" where
  "editTicketComment commentId content a canManageAny expectedTicketId now s =
     changeComment (\<lambda>c. c \<lparr> tcm_content := content, tcm_editedAt := Some now \<rparr>) commentId a canManageAny expectedTicketId s"

definition deleteTicketComment :: "nat \<Rightarrow> ticket_actor \<Rightarrow> bool \<Rightarrow> uuid option \<Rightarrow> instant \<Rightarrow> db \<Rightarrow> ticket_comment svc" where
  "deleteTicketComment commentId a canManageAny expectedTicketId now s =
     changeComment (\<lambda>c. c \<lparr> tcm_deletedAt := Some now \<rparr>) commentId a canManageAny expectedTicketId s"

datatype comment_mutable = Mutable | Mut_not_found | Mut_not_author | Mut_staff_replied

text \<open>The later rows are limited to fifty; the model takes them in table order.\<close>

definition portalCommentMutable :: "nat \<Rightarrow> uuid \<Rightarrow> db \<Rightarrow> comment_mutable" where
  "portalCommentMutable commentId portalUserId s = (case selectOne (\<lambda>c. tcm_id c = commentId) (db_ticketComments s) of
     None \<Rightarrow> Mut_not_found
   | Some c \<Rightarrow> if tcm_deletedAt c \<noteq> None then Mut_not_found
       else if tcm_portalUserId c \<noteq> Some portalUserId then Mut_not_author
       else if \<exists>r \<in> set (take 50 (selectWhere (\<lambda>r. tcm_ticketId r = tcm_ticketId c \<and> tcm_createdAt c < tcm_createdAt r) (db_ticketComments s))).
           tcm_authorType r \<noteq> Some ''portal''
       then Mut_staff_replied else Mutable)"

section \<open>Alerts\<close>

definition SEVERITY_TO_PRIORITY :: "alert_severity \<Rightarrow> ticket_priority" where
  "SEVERITY_TO_PRIORITY sv = (case sv of Sev_critical \<Rightarrow> Prio_urgent | Sev_high \<Rightarrow> Prio_high | Sev_medium \<Rightarrow> Prio_normal
     | Sev_low \<Rightarrow> Prio_low | Sev_info \<Rightarrow> Prio_low)"

definition alertOf :: "db \<Rightarrow> uuid \<Rightarrow> alert option" where
  "alertOf s i = selectOne (\<lambda>x. al_id x = i) (db_alerts s)"

text \<open>
  The title of an alert is a column that is not null, so the fallback of the feed line to the identifier of the alert
  never applies.
\<close>

definition linkAlertToTicket :: "uuid \<Rightarrow> uuid \<Rightarrow> ticket_actor \<Rightarrow> alert_link_type \<Rightarrow> instant \<Rightarrow> db \<Rightarrow> alert_link svc" where
  "linkAlertToTicket i alertId a linkType now s =
     bindE (getTicketOrThrow i s) (\<lambda>t.
     bindE (ofOption (TicketErr 404 None) (alertOf s alertId)) (\<lambda>x.
     bindE (guardE (al_orgId x = tk_orgId t) (TicketErr 400 None)) (\<lambda>_.
     bindE (guardE (\<forall>l \<in> set (db_alertLinks s). \<not> (lk_ticketId l = i \<and> lk_alertId l = alertId)) (TicketErr 409 None)) (\<lambda>_.
     let l = \<lparr> lk_id = db_next s, lk_ticketId = i, lk_orgId = tk_orgId t, lk_alertId = alertId, lk_linkType = linkType,
               lk_createdBy = Some (tka_userId a) \<rparr>
     in Inr (l, insertComment (feedLine i a Com_system (''Linked alert: '' @ al_title x) None (Some (Fv_id alertId)) now)
          (s \<lparr> db_next := Suc (db_next s), db_alertLinks := insertRow l (db_alertLinks s) \<rparr>))))))"

definition unlinkAlertFromTicket :: "uuid \<Rightarrow> uuid \<Rightarrow> ticket_actor \<Rightarrow> instant \<Rightarrow> db \<Rightarrow> unit svc" where
  "unlinkAlertFromTicket i alertId a now s =
     bindE (getTicketOrThrow i s) (\<lambda>t.
     bindE (guardE (selectOne (\<lambda>l. lk_ticketId l = i \<and> lk_alertId l = alertId) (db_alertLinks s) \<noteq> None) (TicketErr 404 None)) (\<lambda>_.
     Inr ((), insertComment (feedLine i a Com_system ''Unlinked alert'' (Some (Fv_id alertId)) None now)
       (s \<lparr> db_alertLinks := deleteWhere (\<lambda>l. lk_ticketId l = i \<and> lk_alertId l = alertId) (db_alertLinks s) \<rparr>))))"

record alert_overrides =
  alo_subject :: "string option"
  alo_description :: "string option"
  alo_categoryId :: "uuid option"
  alo_priority :: "ticket_priority option"
  alo_assigneeId :: "uuid option"

definition alertTicketInput :: "alert \<Rightarrow> alert_overrides \<Rightarrow> create_ticket_input" where
  "alertTicketInput x o' = \<lparr> cti_orgId = al_orgId x, cti_subject = nullish (alo_subject o') (al_title x),
     cti_description = orElse (alo_description o') (al_message x), cti_deviceId = Some (al_deviceId x), cti_categoryId = alo_categoryId o',
     cti_priority = Some (nullish (alo_priority o') (SEVERITY_TO_PRIORITY (al_severity x))), cti_dueDate = None,
     cti_assigneeId = alo_assigneeId o', cti_source = From_alert, cti_submittedBy = None, cti_submitterEmail = None, cti_submitterName = None \<rparr>"

definition createTicketFromAlert :: "uuid \<Rightarrow> ticket_actor \<Rightarrow> alert_overrides \<Rightarrow> string \<Rightarrow> int \<Rightarrow> instant \<Rightarrow> db \<Rightarrow> ticket svc" where
  "createTicketFromAlert alertId a o' legacyNumber year now s =
     bindE (ofOption (TicketErr 404 None) (alertOf s alertId)) (\<lambda>x.
     bindE (createTicket (alertTicketInput x o') a legacyNumber year now s) (\<lambda>(t, s1).
     case linkAlertToTicket (tk_id t) alertId a Link_created_from now s1 of
       Inl e \<Rightarrow> Inl (JsError ''created but alert link failed'')
     | Inr (l, s2) \<Rightarrow> Inr (t, s2)))"

section \<open>Moving a ticket to another organization\<close>

text \<open>The ticket, and the tables that carry a copy of its organization.\<close>

definition restampOrg :: "uuid \<Rightarrow> uuid \<Rightarrow> instant \<Rightarrow> db \<Rightarrow> db" where
  "restampOrg i orgId now s = s \<lparr>
     db_tickets := updateWhere (\<lambda>t. tk_id t = i) (\<lambda>t. t \<lparr> tk_orgId := orgId, tk_deviceId := None, tk_updatedAt := now \<rparr>) (db_tickets s),
     db_timeEntries := updateWhere (\<lambda>e. te_ticketId e = Some i) (\<lambda>e. e \<lparr> te_orgId := Some orgId, te_updatedAt := now \<rparr>) (db_timeEntries s),
     db_ticketParts := updateWhere (\<lambda>p. tp_ticketId p = i) (\<lambda>p. p \<lparr> tp_orgId := orgId, tp_updatedAt := now \<rparr>) (db_ticketParts s),
     db_alertLinks := updateWhere (\<lambda>l. lk_ticketId l = i) (\<lambda>l. l \<lparr> lk_orgId := orgId \<rparr>) (db_alertLinks s) \<rparr>"

definition moveTicketOrg :: "uuid \<Rightarrow> uuid \<Rightarrow> ticket_actor \<Rightarrow> instant \<Rightarrow> db \<Rightarrow> ticket svc" where
  "moveTicketOrg i targetOrgId a now s =
     bindE (getTicketOrThrow i s) (\<lambda>t.
     if tk_orgId t = targetOrgId then Inr (t, s)
     else
       bindE (ofOption (TicketErr 404 None) (orgOf s targetOrgId)) (\<lambda>target.
       bindE (guardE (case orgOf s (tk_orgId t) of None \<Rightarrow> False | Some src \<Rightarrow> org_partnerId src = org_partnerId target) (TicketErr 400 None)) (\<lambda>_.
       Inr (t \<lparr> tk_orgId := targetOrgId, tk_deviceId := None, tk_updatedAt := now \<rparr>,
         emit (TicketEvent (Ev_ticket_updated [''orgId'']) i targetOrgId (tk_partnerId t) (Some (tka_userId a)))
           (insertComment (feedLine i a Com_system (''Moved to '' @ org_name target) None None now) (restampOrg i targetOrgId now s))))))"

section \<open>jobs/ticketSlaWorker.ts\<close>

definition MAX_BREACHES_PER_RUN :: nat where
  "MAX_BREACHES_PER_RUN = 200"

definition targetMinutes :: "sla_target \<Rightarrow> ticket \<Rightarrow> int option" where
  "targetMinutes k t = (case k of Sla_response \<Rightarrow> tk_responseSlaMinutes t | Sla_resolution \<Rightarrow> tk_resolutionSlaMinutes t)"

definition targetMet :: "sla_target \<Rightarrow> ticket \<Rightarrow> bool" where
  "targetMet k t = (case k of Sla_response \<Rightarrow> tk_firstResponseAt t \<noteq> None | Sla_resolution \<Rightarrow> tk_resolvedAt t \<noteq> None)"

definition breachDue :: "sla_target \<Rightarrow> instant \<Rightarrow> ticket \<Rightarrow> bool" where
  "breachDue k now t \<longleftrightarrow> (tk_status t = Tk_new \<or> tk_status t = Tk_open) \<and> tk_slaPausedAt t = None \<and> \<not> targetMet k t \<and>
     targetText k \<notin> set (splitOn (CHR '','') (nullish (tk_slaBreachReason t) [])) \<and>
     (case targetMinutes k t of None \<Rightarrow> False
      | Some m \<Rightarrow> tk_createdAt t + (m + nullish (tk_slaPausedMinutes t) 0) * 60000 \<le> now)"

definition stampBreach :: "sla_target \<Rightarrow> instant \<Rightarrow> ticket \<Rightarrow> ticket" where
  "stampBreach k now t = t \<lparr> tk_slaBreachedAt := Some (nullish (tk_slaBreachedAt t) now),
     tk_slaBreachReason := Some (if nullish (tk_slaBreachReason t) [] = [] then targetText k
       else nullish (tk_slaBreachReason t) [] @ '','' @ targetText k),
     tk_updatedAt := now \<rparr>"

definition stampBreaches :: "sla_target \<Rightarrow> instant \<Rightarrow> db \<Rightarrow> ticket list \<times> db" where
  "stampBreaches k now s =
     (let due = map tk_id (take MAX_BREACHES_PER_RUN (sort_key tk_createdAt (selectWhere (breachDue k now) (db_tickets s))))
      in (map (stampBreach k now) (selectWhere (\<lambda>t. tk_id t \<in> set due) (db_tickets s)),
          updateTickets (\<lambda>t. tk_id t \<in> set due) (stampBreach k now) s))"

definition sweepTicketSlaBreaches :: "instant \<Rightarrow> db \<Rightarrow> (ticket \<times> sla_target) list \<times> db" where
  "sweepTicketSlaBreaches now s = (case stampBreaches Sla_response now s of (response, s1) \<Rightarrow>
     case stampBreaches Sla_resolution now s1 of (resolution, s2) \<Rightarrow>
       (map (\<lambda>t. (t, Sla_response)) response @ map (\<lambda>t. (t, Sla_resolution)) resolution, s2))"

definition breachEvent :: "ticket \<times> sla_target \<Rightarrow> ticket_event_type" where
  "breachEvent e = Ev_ticket_sla_breached (snd e) (tk_internalNumber (fst e)) (tk_subject (fst e)) (tk_assignedTo (fst e))"

text \<open>
  The announcements follow the commit of the stamps, and each may be lost: the queue or the event bus may refuse
  it, which is swallowed, or the process may die. \<open>arrives\<close> says of each whether the queue and the bus get it.
\<close>

definition notifyBreaches :: "(ticket \<times> sla_target \<Rightarrow> bool \<times> bool) \<Rightarrow> (ticket \<times> sla_target) list \<Rightarrow> db \<Rightarrow> db" where
  "notifyBreaches arrives rows s = fold (\<lambda>e s.
     let s1 = (if fst (arrives e)
               then emit (TicketEvent (breachEvent e) (tk_id (fst e)) (tk_orgId (fst e)) (tk_partnerId (fst e)) None) s else s)
     in if snd (arrives e) then emit (BusPublish (breachEvent e) (tk_id (fst e)) (tk_orgId (fst e))) s1 else s1) rows s"

definition slaSweepJob :: "(ticket \<times> sla_target \<Rightarrow> bool \<times> bool) \<Rightarrow> instant \<Rightarrow> db \<Rightarrow> nat \<times> db" where
  "slaSweepJob arrives now s = (case sweepTicketSlaBreaches now s of (rows, s1) \<Rightarrow> (length rows, notifyBreaches arrives rows s1))"

section \<open>The review queue of inbound e-mail\<close>

definition inReview :: "parse_status \<Rightarrow> bool" where
  "inReview st \<longleftrightarrow> st = Mail_quarantined \<or> st = Mail_failed"

text \<open>The regular expression: blanks, an optional quote, the name, an optional quote, blanks, an angle bracket.\<close>

definition dropQuote :: "string \<Rightarrow> string" where
  "dropQuote v = (case v of [] \<Rightarrow> [] | c # cs \<Rightarrow> if c = CHR 0x22 then cs else v)"

definition extractFromName :: "string \<Rightarrow> string" where
  "extractFromName h =
     (let v = dropQuote (dropWhile isBlank h); body = takeWhile (\<lambda>c. c \<noteq> CHR 0x22 \<and> c \<noteq> CHR ''<'') v;
          rest = drop (length body) v;
          after = (if take 1 rest = [CHR 0x22] then dropWhile isBlank (dropQuote rest) else rest)
      in if body \<noteq> [] \<and> take 1 after = ''<'' then js_trim body else [])"

definition readQueueRow :: "uuid \<Rightarrow> uuid \<Rightarrow> db \<Rightarrow> svc_error + email_inbound" where
  "readQueueRow partnerId i s =
     bindE (ofOption (TicketConfigErr 404 INBOUND_ROW_NOT_FOUND)
       (selectOne (\<lambda>r. em_id r = i \<and> em_partnerId r = Some partnerId) (db_inboundEmails s))) (\<lambda>row.
     bindE (guardE (inReview (em_parseStatus row)) (TicketConfigErr 409 INBOUND_ROW_ALREADY_RESOLVED)) (\<lambda>_. Inr row))"

definition jsonText :: "string \<Rightarrow> json option \<Rightarrow> string" where
  "jsonText k raw = (case Option.bind raw (jsonMember k) of Some (J_str v) \<Rightarrow> v | _ \<Rightarrow> [])"

definition emailTicketInput :: "email_inbound \<Rightarrow> uuid \<Rightarrow> create_ticket_input" where
  "emailTicketInput row orgId =
     (let subject = js_trim (nullish (em_subject row) []); stripped = jsonText ''stripped-text'' (em_raw row);
          fromName = extractFromName (jsonText ''from'' (em_raw row))
      in \<lparr> cti_orgId = orgId, cti_subject = (if subject = [] then ''(no subject)'' else subject),
           cti_description = Some (if stripped = [] then jsonText ''body-plain'' (em_raw row) else stripped), cti_deviceId = None,
           cti_categoryId = None, cti_priority = None, cti_dueDate = None, cti_assigneeId = None, cti_source = From_email,
           cti_submittedBy = None, cti_submitterEmail = Some (js_trim (nullish (em_fromAddress row) [])),
           cti_submitterName = (if fromName = [] then None else Some fromName) \<rparr>)"

text \<open>The validating read, and the claim with which the row leaves the queue before the ticket is created.\<close>

definition convertRead :: "uuid \<Rightarrow> uuid \<Rightarrow> uuid \<Rightarrow> db \<Rightarrow> svc_error + email_inbound" where
  "convertRead partnerId i orgId s =
     bindE (readQueueRow partnerId i s) (\<lambda>row.
     bindE (guardE (orgOfPartner orgId partnerId s) (TicketConfigErr 400 ORG_NOT_ACCESSIBLE)) (\<lambda>_.
     bindE (guardE (js_trim (nullish (em_fromAddress row) []) \<noteq> []) (TicketConfigErr 400 INBOUND_ROW_NO_SENDER)) (\<lambda>_. Inr row)))"

definition updateInbound :: "(email_inbound \<Rightarrow> bool) \<Rightarrow> (email_inbound \<Rightarrow> email_inbound) \<Rightarrow> db \<Rightarrow> email_inbound svc" where
  "updateInbound P f s =
     bindE (ofOption (TicketConfigErr 404 INBOUND_ROW_NOT_FOUND) (selectOne P (db_inboundEmails s))) (\<lambda>r.
     Inr (f r, s \<lparr> db_inboundEmails := updateWhere P f (db_inboundEmails s) \<rparr>))"

definition convertWrite :: "email_inbound \<Rightarrow> uuid \<Rightarrow> uuid \<Rightarrow> ticket_actor \<Rightarrow> string \<Rightarrow> int \<Rightarrow> instant \<Rightarrow> db \<Rightarrow> email_inbound svc" where
  "convertWrite row partnerId orgId a legacyNumber year now s =
     bindE (updateInbound (\<lambda>r. em_id r = em_id row \<and> em_partnerId r = Some partnerId \<and> inReview (em_parseStatus r))
       (\<lambda>r. r \<lparr> em_parseStatus := Mail_created \<rparr>) s) (\<lambda>(_, s1).
     bindE (createTicket (emailTicketInput row orgId) a legacyNumber year now s1) (\<lambda>(t, s2).
     updateInbound (\<lambda>r. em_id r = em_id row \<and> em_partnerId r = Some partnerId) (\<lambda>r. r \<lparr> em_ticketId := Some (tk_id t) \<rparr>) s2))"

definition convertEmailInbound :: "uuid \<Rightarrow> uuid \<Rightarrow> uuid \<Rightarrow> ticket_actor \<Rightarrow> string \<Rightarrow> int \<Rightarrow> instant \<Rightarrow> db \<Rightarrow> email_inbound svc" where
  "convertEmailInbound partnerId i orgId a legacyNumber year now s =
     bindE (convertRead partnerId i orgId s) (\<lambda>row. convertWrite row partnerId orgId a legacyNumber year now s)"

definition dismissWrite :: "uuid \<Rightarrow> uuid \<Rightarrow> db \<Rightarrow> email_inbound svc" where
  "dismissWrite partnerId i s =
     updateInbound (\<lambda>r. em_id r = i \<and> em_partnerId r = Some partnerId) (\<lambda>r. r \<lparr> em_parseStatus := Mail_ignored \<rparr>) s"

definition dismissEmailInbound :: "uuid \<Rightarrow> uuid \<Rightarrow> db \<Rightarrow> email_inbound svc" where
  "dismissEmailInbound partnerId i s = bindE (readQueueRow partnerId i s) (\<lambda>_. dismissWrite partnerId i s)"

end
