(* ===== verification/InboundMail.thy ===== *)
theory InboundMail
  imports Ticketing
begin

text \<open>
  Tickets by e-mail: what the webhook provider reports about a message (\<open>inboundEmail/mailgun.ts\<close>), who it is
  for and from (\<open>resolvePartner.ts\<close>, \<open>resolveOrg.ts\<close>), the processing of a message
  (\<open>inboundEmailService.ts\<close>) and the acknowledgement (\<open>loopPrevention.ts\<close>, \<open>autoresponder.ts\<close>). Arguments stand
  for what is outside: the configured domain, the verdict of the rate limiter on Redis, and the hash of the
  provider. The key 0 stands for the all-zero key of the synthetic actor and for the empty organization of the
  event of an inbound comment; the texts of database errors are abbreviated. Definitions only.
\<close>

section \<open>Text\<close>

text \<open>The text of a key, which the code puts into addresses and message identifiers.\<close>

definition uuidText :: "uuid \<Rightarrow> string" where
  "uuidText i = js_String (int i)"

definition uuidOfText :: "string \<Rightarrow> uuid option" where
  "uuidOfText v = (let i = nat (parse_digits v) in if uuidText i = v then Some i else None)"

definition isDigit :: "char \<Rightarrow> bool" where
  "isDigit c \<longleftrightarrow> 48 \<le> (of_char c :: nat) \<and> (of_char c :: nat) \<le> 57"

definition isLetter :: "char \<Rightarrow> bool" where
  "isLetter c \<longleftrightarrow> (65 \<le> (of_char c :: nat) \<and> (of_char c :: nat) \<le> 90) \<or> (97 \<le> (of_char c :: nat) \<and> (of_char c :: nat) \<le> 122)"

text \<open>The class \<open>\w\<close>, and \<open>\b\<close> before and after it.\<close>

definition isWord :: "char \<Rightarrow> bool" where
  "isWord c \<longleftrightarrow> isDigit c \<or> isLetter c \<or> c = CHR ''_''"

definition startsWord :: "string \<Rightarrow> bool" where
  "startsWord v \<longleftrightarrow> (case v of [] \<Rightarrow> False | c # cs \<Rightarrow> isWord c)"

text \<open>\<open>v || w\<close> on text.\<close>

definition orText :: "string option \<Rightarrow> string \<Rightarrow> string" where
  "orText v w = (case v of None \<Rightarrow> w | Some t \<Rightarrow> if t = [] then w else t)"

definition orUndefined :: "string option \<Rightarrow> string option" where
  "orUndefined v = (if isPgText v then v else None)"

definition atPart :: "string \<Rightarrow> string option" where
  "atPart v = (case dropWhile (\<lambda>c. c \<noteq> CHR ''@'') v of [] \<Rightarrow> None | _ # d \<Rightarrow> Some d)"

text \<open>The part after the last at sign.\<close>

definition lastAtPart :: "string \<Rightarrow> string option" where
  "lastAtPart v = (if CHR ''@'' \<in> set v then Some (rev (takeWhile (\<lambda>c. c \<noteq> CHR ''@'') (rev v))) else None)"

definition splitBlanks :: "string \<Rightarrow> string list" where
  "splitBlanks v = filter (\<lambda>w. w \<noteq> []) (splitOn (CHR '' '') (map (\<lambda>c. if isBlank c then CHR '' '' else c) v))"

section \<open>types.ts\<close>

datatype auth_verdict = Auth_pass | Auth_fail | Auth_neutral | Auth_none | Auth_unknown

record sender_auth =
  sau_spf :: auth_verdict
  sau_dkim :: auth_verdict
  sau_dmarc :: auth_verdict
  sau_verified :: bool

record inbound_mail =
  ni_provider :: inbound_provider
  ni_providerMessageId :: string
  ni_to :: string
  ni_from :: string
  ni_fromName :: "string option"
  ni_subject :: string
  ni_text :: string
  ni_messageId :: "string option"
  ni_inReplyTo :: "string option"
  ni_references :: "string list option"
  ni_autoSubmitted :: "string option"
  ni_precedence :: "string option"
  ni_senderAuth :: "sender_auth option"
  ni_raw :: json

section \<open>mailgun.ts\<close>

text \<open>The fields of the form, and the header list decoded from its JSON; None when it is absent or malformed.\<close>

record mail_form =
  mf_fields :: "(string \<times> string) list"
  mf_headers :: "(string \<times> string) list option"

definition field :: "mail_form \<Rightarrow> string \<Rightarrow> string option" where
  "field b k = map_of (mf_fields b) k"

definition parseHeader :: "mail_form \<Rightarrow> string \<Rightarrow> string option" where
  "parseHeader b name = Option.bind (mf_headers b) (\<lambda>hs. map_option snd (List.find (\<lambda>h. js_toLowerCase (fst h) = js_toLowerCase name) hs))"

definition MAILGUN_AUTHSERV_ID :: string where
  "MAILGUN_AUTHSERV_ID = ''mx.mailgun.org''"

definition mailgunAuthResults :: "mail_form \<Rightarrow> string" where
  "mailgunAuthResults b = (let raw = orText (parseHeader b ''Authentication-Results'') [];
       authservId = js_toLowerCase (takeWhile (\<lambda>c. \<not> isBlank c) (js_trim (takeWhile (\<lambda>c. c \<noteq> CHR '';'') raw)))
     in if authservId = MAILGUN_AUTHSERV_ID then raw else [])"

text \<open>The regular expression at one place: the mechanism, an equals sign between blanks, letters.\<close>

definition mechanismAt :: "string \<Rightarrow> string \<Rightarrow> string option" where
  "mechanismAt mechanism v =
     (if js_toLowerCase (take (length mechanism) v) \<noteq> mechanism then None
      else case dropWhile isBlank (drop (length mechanism) v) of [] \<Rightarrow> None
        | c # cs \<Rightarrow> if c \<noteq> CHR ''='' then None
            else (let w = takeWhile isLetter (dropWhile isBlank cs) in if w = [] then None else Some w))"

text \<open>The first place after a word boundary; the flag tells whether the character before is a word character.\<close>

fun searchMechanism :: "string \<Rightarrow> bool \<Rightarrow> string \<Rightarrow> string option" where
  "searchMechanism mechanism inWord [] = None"
| "searchMechanism mechanism inWord (c # cs) =
     (case if inWord then None else mechanismAt mechanism (c # cs) of
        Some w \<Rightarrow> Some w
      | None \<Rightarrow> searchMechanism mechanism (isWord c) cs)"

definition extractMechanism :: "string \<Rightarrow> string \<Rightarrow> string option" where
  "extractMechanism authResults mechanism = searchMechanism mechanism False authResults"

definition normalizeVerdict :: "string option \<Rightarrow> auth_verdict" where
  "normalizeVerdict raw =
     (let v = js_toLowerCase (js_trim (nullish raw []))
      in if v = ''pass'' then Auth_pass
         else if v = ''fail'' \<or> v = ''softfail'' \<or> v = ''permerror'' \<or> v = ''temperror'' then Auth_fail
         else if v = ''neutral'' then Auth_neutral else if v = ''none'' then Auth_none else Auth_unknown)"

definition extractSenderAuth :: "mail_form \<Rightarrow> sender_auth" where
  "extractSenderAuth b =
     (let trusted = mailgunAuthResults b; dmarc = normalizeVerdict (extractMechanism trusted ''dmarc'')
      in \<lparr> sau_spf = normalizeVerdict (orElse (field b ''X-Mailgun-Spf'') (extractMechanism trusted ''spf'')),
           sau_dkim = normalizeVerdict (orElse (field b ''X-Mailgun-Dkim-Check-Result'') (extractMechanism trusted ''dkim'')),
           sau_dmarc = dmarc, sau_verified = (dmarc = Auth_pass) \<rparr>)"

text \<open>The first bracketed, nonempty address.\<close>

fun angleAddress :: "string \<Rightarrow> string option" where
  "angleAddress [] = None"
| "angleAddress (c # cs) =
     (let body = takeWhile (\<lambda>d. d \<noteq> CHR ''>'') cs
      in if c = CHR ''<'' \<and> body \<noteq> [] \<and> length body < length cs then Some body else angleAddress cs)"

definition extractEmail :: "string \<Rightarrow> string" where
  "extractEmail v = js_toLowerCase (js_trim (nullish (angleAddress v) v))"

text \<open>\<open>sha256\<close> is the hexadecimal digest of the runtime. \<open>extractName\<close> is the expression of \<open>extractFromName\<close>.\<close>

definition parseMail :: "(string \<Rightarrow> string) \<Rightarrow> mail_form \<Rightarrow> inbound_mail" where
  "parseMail sha256 b =
     (let from' = extractEmail (orText (field b ''sender'') (orText (field b ''from'') []));
          refs = js_trim (orText (field b ''References'') []);
          messageId = orText (field b ''Message-Id'') (nullish (field b ''message-id'') []);
          fallbackId = ''sha256:'' @ sha256 (from' @ [CHR 0x0A] @ nullish (field b ''subject'') [] @ [CHR 0x0A] @
            nullish (orElse (field b ''stripped-text'') (field b ''body-plain'')) [])
      in \<lparr> ni_provider = Prov_mailgun, ni_providerMessageId = (if messageId = [] then fallbackId else messageId),
           ni_to = extractEmail (orText (field b ''recipient'') []), ni_from = from',
           ni_fromName = orUndefined (Some (extractFromName (orText (field b ''from'') []))),
           ni_subject = orText (field b ''subject'') [],
           ni_text = orText (field b ''stripped-text'') (orText (field b ''body-plain'') []),
           ni_messageId = orUndefined (field b ''Message-Id''), ni_inReplyTo = orUndefined (field b ''In-Reply-To''),
           ni_references = (if refs = [] then None else Some (splitBlanks refs)),
           ni_autoSubmitted = parseHeader b ''Auto-Submitted'', ni_precedence = parseHeader b ''Precedence'',
           ni_senderAuth = Some (extractSenderAuth b),
           ni_raw = J_obj (map (\<lambda>(k, v). (k, J_str v)) (mf_fields b)) \<rparr>)"

section \<open>resolvePartner.ts and resolveOrg.ts\<close>

text \<open>
  The surroundings of one delivery: the configuration (None when it is not initialized, else the optional
  \<open>TICKETS_INBOUND_DOMAIN\<close>), the answer of the rate limiter, the random display number and the year of a
  ticket that may be created.
\<close>

record mail_env =
  me_config :: "string option option"
  me_capAllowed :: bool
  me_legacyNumber :: string
  me_year :: int

definition getInboundDomain :: "mail_env \<Rightarrow> svc_error + string option" where
  "getInboundDomain env = ofOption (JsError ''Config has not been validated'') (me_config env)"

definition inboundDomainOrNull :: "mail_env \<Rightarrow> string option" where
  "inboundDomainOrNull env = nullish (me_config env) None"

definition resolvePartnerByRecipient :: "mail_env \<Rightarrow> string \<Rightarrow> db \<Rightarrow> svc_error + uuid option" where
  "resolvePartnerByRecipient env recipient s =
     (let addr = js_toLowerCase (js_trim recipient); local = takeWhile (\<lambda>c. c \<noteq> CHR ''@'') addr
      in case atPart addr of None \<Rightarrow> Inr None
       | Some domain \<Rightarrow> (case selectOne (\<lambda>d. pid_domain d = domain) (db_inboundDomains s) of
           Some d \<Rightarrow> Inr (Some (pid_partnerId d))
         | None \<Rightarrow> bindE (getInboundDomain env) (\<lambda>cfg.
             if isPgText cfg \<and> cfg = Some domain then Inr (map_option pr_id (selectOne (\<lambda>p. pr_slug p = local) (db_partners s)))
             else Inr None)))"

definition domainOf :: "string \<Rightarrow> string option" where
  "domainOf address = orUndefined (map_option (\<lambda>d. js_toLowerCase (js_trim d)) (lastAtPart address))"

definition resolveOrgBySenderDomain :: "string \<Rightarrow> uuid \<Rightarrow> db \<Rightarrow> email_domain option" where
  "resolveOrgBySenderDomain from' partnerId s = (case domainOf from' of None \<Rightarrow> None
     | Some domain \<Rightarrow> selectOne (\<lambda>d. ced_partnerId d = partnerId \<and> ced_domain d = domain \<and> ced_isActive d) (db_emailDomains s))"

definition findOrCreateEmailContact :: "uuid \<Rightarrow> string \<Rightarrow> string option \<Rightarrow> db \<Rightarrow> uuid \<times> db" where
  "findOrCreateEmailContact orgId email name s =
     (let lower = js_toLowerCase email
      in case selectOne (\<lambda>u. pu_orgId u = orgId \<and> pu_email u = lower) (db_portalUsers s) of
        Some u \<Rightarrow> (pu_id u, s)
      | None \<Rightarrow> (db_next s, s \<lparr> db_next := Suc (db_next s), db_portalUsers := insertRow \<lparr> pu_id = db_next s, pu_orgId = orgId, pu_email = lower,
          pu_name = name, pu_passwordHash = None, pu_authMethod = ''password'', pu_status = ''active'' \<rparr> (db_portalUsers s) \<rparr>))"

definition inboundSettings :: "uuid \<Rightarrow> db \<Rightarrow> json option" where
  "inboundSettings partnerId s =
     Option.bind (Option.bind (Option.bind (partnerOf s partnerId) pr_settings) (jsonMember ''ticketing'')) (jsonMember ''inbound'')"

definition jsTruthy :: "json \<Rightarrow> bool" where
  "jsTruthy v = (case v of J_null \<Rightarrow> False | J_bool b \<Rightarrow> b | J_num r \<Rightarrow> r \<noteq> 0 | J_str t \<Rightarrow> t \<noteq> [] | _ \<Rightarrow> True)"

text \<open>Whether unknown senders go to triage, and where to.\<close>

definition loadPartnerInboundPolicy :: "uuid \<Rightarrow> db \<Rightarrow> bool \<times> json option" where
  "loadPartnerInboundPolicy partnerId s = (let i = inboundSettings partnerId s
     in (Option.bind i (jsonMember ''triageUnknownSenders'') = Some (J_bool True), Option.bind i (jsonMember ''defaultTriageOrgId'')))"

section \<open>loopPrevention.ts and autoresponder.ts\<close>

definition SYSTEM_LOCALPARTS :: "string list" where
  "SYSTEM_LOCALPARTS = [''no-reply'', ''noreply'', ''mailer-daemon'', ''postmaster'']"

definition BULK_PRECEDENCE :: "string list" where
  "BULK_PRECEDENCE = [''bulk'', ''list'', ''junk'']"

definition autoresponseSuppressionReason :: "inbound_mail \<Rightarrow> string option \<Rightarrow> string option" where
  "autoresponseSuppressionReason n inboundDomain =
     (let from' = js_toLowerCase (js_trim (ni_from n)); localPart = takeWhile (\<lambda>c. c \<noteq> CHR ''@'') from'
      in if isPgText (ni_autoSubmitted n) \<and> js_toLowerCase (js_trim (nullish (ni_autoSubmitted n) [])) \<noteq> ''no'' then Some ''auto-submitted''
         else if isPgText (ni_precedence n) \<and> js_toLowerCase (js_trim (nullish (ni_precedence n) [])) \<in> set BULK_PRECEDENCE then Some ''precedence''
         else if localPart \<in> set SYSTEM_LOCALPARTS then Some ''system-sender''
         else if isPgText inboundDomain \<and> nullish (atPart from') [] = js_toLowerCase (js_trim (nullish inboundDomain [])) then Some ''self-domain''
         else None)"

definition autoresponderEnabled :: "uuid \<Rightarrow> db \<Rightarrow> bool" where
  "autoresponderEnabled partnerId s \<longleftrightarrow> Option.bind (inboundSettings partnerId s) (jsonMember ''autoresponderEnabled'') \<noteq> Some (J_bool False)"

definition maybeSendAutoresponse :: "mail_env \<Rightarrow> inbound_mail \<Rightarrow> uuid \<Rightarrow> ticket \<Rightarrow> uuid \<Rightarrow> uuid option \<Rightarrow> db \<Rightarrow> svc_error + db" where
  "maybeSendAutoresponse env n partnerId persisted orgId ticketPartner s =
     bindE (guardE (ticketPartner = Some partnerId) (JsError ''partner mismatch'')) (\<lambda>_.
     if autoresponseSuppressionReason n (inboundDomainOrNull env) \<noteq> None then Inr s
     else if \<not> autoresponderEnabled partnerId s then Inr s
     else if \<not> me_capAllowed env then Inr s
     else Inr (emit (TicketEvent (Ev_ticket_autoresponse (ni_from n) (tk_internalNumber persisted) (tk_subject persisted)) (tk_id persisted) orgId
       ticketPartner None) s))"

section \<open>inboundEmailService.ts: matching\<close>

definition SYSTEM_ACTOR :: ticket_actor where
  "SYSTEM_ACTOR = \<lparr> tka_userId = 0, tka_name = Some ''Inbound Email'' \<rparr>"

text \<open>\<open>TOKEN_RE\<close> at one place after a boundary: the digits of the counter run to the next non-digit, where the word must end.\<close>

definition tokenAt :: "string \<Rightarrow> string option" where
  "tokenAt v = (let year = take 4 (drop 2 v); ds = takeWhile isDigit (drop 7 v)
     in if take 2 v = ''T-'' \<and> length year = 4 \<and> list_all isDigit year \<and> take 1 (drop 6 v) = ''-'' \<and> 4 \<le> length ds \<and>
          \<not> startsWord (drop (7 + length ds) v)
        then Some (''T-'' @ year @ ''-'' @ ds) else None)"

text \<open>The first match: what stands before it, the match, and the rest.\<close>

fun searchToken :: "bool \<Rightarrow> string \<Rightarrow> (string \<times> string \<times> string) option" where
  "searchToken inWord [] = None"
| "searchToken inWord (c # cs) = (case if inWord then None else tokenAt (c # cs) of
     Some m \<Rightarrow> Some ([], m, drop (length m) (c # cs))
   | None \<Rightarrow> map_option (\<lambda>(u, m, v). (c # u, m, v)) (searchToken (isWord c) cs))"

definition matchToken :: "string \<Rightarrow> string option" where
  "matchToken subject = map_option (\<lambda>(u, m, v). m) (searchToken False subject)"

definition stripToken :: "string \<Rightarrow> string" where
  "stripToken subject = (case searchToken False subject of None \<Rightarrow> subject | Some (u, m, v) \<Rightarrow> u @ v)"

definition candidateThreadKeys :: "inbound_mail \<Rightarrow> string list" where
  "candidateThreadKeys n = rev (remdups (rev (filter (\<lambda>k. k \<noteq> []) (case_option [] (\<lambda>k. [k]) (ni_inReplyTo n) @ nullish (ni_references n) []))))"

definition keyIn :: "string option \<Rightarrow> string list \<Rightarrow> bool" where
  "keyIn v ks \<longleftrightarrow> (case v of None \<Rightarrow> False | Some k \<Rightarrow> k \<in> set ks)"

definition liveThread :: "uuid \<Rightarrow> string list \<Rightarrow> ticket \<Rightarrow> bool" where
  "liveThread partnerId ks t \<longleftrightarrow> tk_partnerId t = Some partnerId \<and> tk_status t \<noteq> Tk_closed \<and>
     (keyIn (tk_emailThreadKey t) ks \<or> keyIn (tk_emailMessageId t) ks)"

definition numbered :: "uuid \<Rightarrow> string \<Rightarrow> ticket \<Rightarrow> bool" where
  "numbered partnerId m t \<longleftrightarrow> tk_partnerId t = Some partnerId \<and> tk_internalNumber t = Some m"

definition findTicketInPartner :: "inbound_mail \<Rightarrow> uuid \<Rightarrow> db \<Rightarrow> ticket option" where
  "findTicketInPartner n partnerId s =
     orElse (if candidateThreadKeys n = [] then None else selectOne (liveThread partnerId (candidateThreadKeys n)) (db_tickets s))
       (Option.bind (matchToken (ni_subject n)) (\<lambda>m. selectOne (\<lambda>t. numbered partnerId m t \<and> tk_status t \<noteq> Tk_closed) (db_tickets s)))"

definition closedThread :: "uuid \<Rightarrow> string list \<Rightarrow> ticket \<Rightarrow> bool" where
  "closedThread partnerId ks t \<longleftrightarrow> tk_partnerId t = Some partnerId \<and> tk_status t = Tk_closed \<and> keyIn (tk_emailThreadKey t) ks"

definition findClosedTicketInPartner :: "inbound_mail \<Rightarrow> uuid \<Rightarrow> db \<Rightarrow> ticket option" where
  "findClosedTicketInPartner n partnerId s =
     orElse (if candidateThreadKeys n = [] then None else selectOne (closedThread partnerId (candidateThreadKeys n)) (db_tickets s))
       (Option.bind (matchToken (ni_subject n)) (\<lambda>m. selectOne (\<lambda>t. numbered partnerId m t \<and> tk_status t = Tk_closed) (db_tickets s)))"

definition findPortalUserInPartner :: "string \<Rightarrow> uuid \<Rightarrow> db \<Rightarrow> portal_user option" where
  "findPortalUserInPartner email partnerId s =
     selectOne (\<lambda>u. pu_email u = js_toLowerCase email \<and> orgOfPartner (pu_orgId u) partnerId s) (db_portalUsers s)"

definition senderDomain :: "string \<Rightarrow> string" where
  "senderDomain addr = nullish (lastAtPart (js_toLowerCase (js_trim addr))) []"

section \<open>inboundEmailService.ts: processing\<close>

text \<open>The log row under the unique index on partner and provider message; rows without a partner never collide.\<close>

definition logRow :: "inbound_mail \<Rightarrow> uuid option \<Rightarrow> parse_status \<Rightarrow> uuid option \<Rightarrow> string option \<Rightarrow> instant \<Rightarrow> uuid \<Rightarrow> email_inbound" where
  "logRow n partnerId st ticketId err now i = \<lparr> em_id = i, em_partnerId = partnerId, em_provider = ni_provider n,
     em_providerMessageId = ni_providerMessageId n, em_fromAddress = Some (ni_from n), em_toAddress = Some (ni_to n),
     em_subject = Some (ni_subject n), em_messageId = ni_messageId n, em_inReplyTo = ni_inReplyTo n,
     em_references = map_option (joinWith '' '') (ni_references n), em_parseStatus = st, em_ticketId = ticketId, em_error = err,
     em_raw = Some (ni_raw n), em_createdAt = now \<rparr>"

definition onLog :: "uuid option \<Rightarrow> string \<Rightarrow> db \<Rightarrow> bool" where
  "onLog partnerId m s \<longleftrightarrow> (\<exists>r \<in> set (db_inboundEmails s). partnerId \<noteq> None \<and> em_partnerId r = partnerId \<and> em_providerMessageId r = m)"

definition logInbound :: "inbound_mail \<Rightarrow> uuid option \<Rightarrow> parse_status \<Rightarrow> uuid option \<Rightarrow> string option \<Rightarrow> instant \<Rightarrow> db \<Rightarrow> svc_error + db" where
  "logInbound n partnerId st ticketId err now s =
     bindE (guardE (\<not> onLog partnerId (ni_providerMessageId n) s) (DbError ''ticket_email_inbound_provider_msg_uq'')) (\<lambda>_.
     Inr (s \<lparr> db_next := Suc (db_next s), db_inboundEmails := insertRow (logRow n partnerId st ticketId err now (db_next s)) (db_inboundEmails s) \<rparr>))"

definition errorMessage :: "svc_error \<Rightarrow> string" where
  "errorMessage e = (case e of JsError m \<Rightarrow> m | DbError m \<Rightarrow> m | _ \<Rightarrow> ''Ticket service error'')"

text \<open>The log of a failure has a transaction of its own; an error in it is swallowed.\<close>

definition logInboundFailedDurable :: "inbound_mail \<Rightarrow> uuid option \<Rightarrow> svc_error \<Rightarrow> instant \<Rightarrow> db \<Rightarrow> db" where
  "logInboundFailedDurable n partnerId e now s =
     (case logInbound n partnerId Mail_failed None (Some (errorMessage e)) now s of Inl _ \<Rightarrow> s | Inr t \<Rightarrow> t)"

definition appendInboundComment :: "uuid \<Rightarrow> inbound_mail \<Rightarrow> uuid \<Rightarrow> instant \<Rightarrow> db \<Rightarrow> db" where
  "appendInboundComment ticketId n partnerId now s =
     (let sender = findPortalUserInPartner (ni_from n) partnerId s; commentId = length (db_ticketComments s)
      in emit (TicketEvent (Ev_ticket_commented commentId True True) ticketId 0 (Some partnerId) None)
        (insertComment \<lparr> tcm_id = 0, tcm_ticketId = ticketId, tcm_portalUserId = map_option pu_id sender, tcm_userId = None,
          tcm_authorName = Some (nullish (orElse (Option.bind sender pu_name) (ni_fromName n)) (ni_from n)), tcm_authorType = Some ''email'',
          tcm_content = ni_text n, tcm_isPublic = True, tcm_commentType = Com_comment, tcm_oldValue = None, tcm_newValue = None,
          tcm_deletedAt = None, tcm_editedAt = None, tcm_createdAt = now \<rparr> s))"

definition reopenResolvedTicket :: "uuid \<Rightarrow> uuid \<Rightarrow> instant \<Rightarrow> db \<Rightarrow> db" where
  "reopenResolvedTicket ticketId partnerId now s =
     updateTickets (\<lambda>t. tk_id t = ticketId \<and> tk_partnerId t = Some partnerId \<and> tk_status t = Tk_resolved)
       (\<lambda>t. t \<lparr> tk_status := Tk_open, tk_resolvedAt := None, tk_updatedAt := now \<rparr>) s"

definition mailTicketInput :: "inbound_mail \<Rightarrow> uuid \<Rightarrow> string option \<Rightarrow> uuid option \<Rightarrow> create_ticket_input" where
  "mailTicketInput n orgId priorNumber submittedBy =
     (let subject = js_trim (stripToken (ni_subject n));
          description = (if isPgText priorNumber then ''Re: '' @ nullish priorNumber [] @ '' (continued)'' @ [CHR 0x0A, CHR 0x0A] @ ni_text n else ni_text n)
      in \<lparr> cti_orgId = orgId, cti_subject = (if subject = [] then ''(no subject)'' else subject), cti_description = Some description,
           cti_deviceId = None, cti_categoryId = None, cti_priority = None, cti_dueDate = None, cti_assigneeId = None,
           cti_source = From_email, cti_submittedBy = submittedBy, cti_submitterEmail = Some (ni_from n), cti_submitterName = ni_fromName n \<rparr>)"

definition threadAnchor :: "uuid \<Rightarrow> string \<Rightarrow> string" where
  "threadAnchor ticketId domain = ''<ticket-'' @ uuidText ticketId @ ''@'' @ domain @ ''>''"

definition threadKeyFor :: "mail_env \<Rightarrow> string option \<Rightarrow> inbound_mail \<Rightarrow> uuid \<Rightarrow> string option" where
  "threadKeyFor env carryThreadKey n ticketId =
     orElse carryThreadKey (let domain = inboundDomainOrNull env
       in if isPgText domain then Some (threadAnchor ticketId (nullish domain [])) else ni_messageId n)"

definition createFromEmail :: "mail_env \<Rightarrow> inbound_mail \<Rightarrow> uuid \<Rightarrow> uuid \<Rightarrow> string option \<Rightarrow> string option \<Rightarrow> uuid option \<Rightarrow> instant \<Rightarrow> db \<Rightarrow> ticket svc" where
  "createFromEmail env n partnerId orgId carryThreadKey priorNumber submittedBy now s =
     bindE (guardE (orgOfPartner orgId partnerId s) (JsError ''org not in partner'')) (\<lambda>_.
     bindE (createTicket (mailTicketInput n orgId priorNumber submittedBy) SYSTEM_ACTOR (me_legacyNumber env) (me_year env) now s) (\<lambda>(t, s1).
     let s2 = updateTickets (\<lambda>r. tk_id r = tk_id t)
           (\<lambda>r. r \<lparr> tk_emailThreadKey := threadKeyFor env carryThreadKey n (tk_id t), tk_emailMessageId := ni_messageId n \<rparr>) s1
     in bindE (if submittedBy \<noteq> None \<and> \<not> isPgText priorNumber
               then maybeSendAutoresponse env n partnerId (nullish (ticketOf s2 (tk_id t)) t) orgId (Some partnerId) s2 else Inr s2) (\<lambda>s3.
        Inr (t, s3))))"

definition createAndLog :: "mail_env \<Rightarrow> inbound_mail \<Rightarrow> uuid \<Rightarrow> uuid \<Rightarrow> string option \<Rightarrow> string option \<Rightarrow> uuid option \<Rightarrow> instant \<Rightarrow> db \<Rightarrow> svc_error + db" where
  "createAndLog env n partnerId orgId carryThreadKey priorNumber submittedBy now s =
     bindE (createFromEmail env n partnerId orgId carryThreadKey priorNumber submittedBy now s) (\<lambda>(t, s1).
     logInbound n (Some partnerId) Mail_created (Some (tk_id t)) None now s1)"

text \<open>
  A message is one transaction, and its error is caught inside it. An error carries what the transaction commits
  then: an error of the database has aborted it and leaves the state \<open>s\<close> before it, a plain error leaves the
  writes made so far, \<open>s1\<close>.
\<close>

definition caught :: "db \<Rightarrow> db \<Rightarrow> svc_error + db \<Rightarrow> (svc_error \<times> db) + db" where
  "caught s s1 r = (case r of Inl e \<Rightarrow> Inl (e, case e of DbError _ \<Rightarrow> s | _ \<Rightarrow> s1) | Inr t \<Rightarrow> Inr t)"

text \<open>A message that belongs to no ticket: a known sender, a mapped domain, triage, or quarantine.\<close>

definition routeBySender :: "mail_env \<Rightarrow> inbound_mail \<Rightarrow> uuid \<Rightarrow> instant \<Rightarrow> db \<Rightarrow> (svc_error \<times> db) + db" where
  "routeBySender env n partnerId now s =
     (case findPortalUserInPartner (ni_from n) partnerId s of
        Some u \<Rightarrow> caught s s (createAndLog env n partnerId (pu_orgId u) None None (Some (pu_id u)) now s)
      | None \<Rightarrow> (case resolveOrgBySenderDomain (ni_from n) partnerId s of
          Some d \<Rightarrow> if ced_autoCreateContact d
            then (case findOrCreateEmailContact (ced_orgId d) (ni_from n) (ni_fromName n) s of
              (contact, s1) \<Rightarrow> caught s s1 (createAndLog env n partnerId (ced_orgId d) None None (Some contact) now s1))
            else caught s s (createAndLog env n partnerId (ced_orgId d) None None None now s)
        | None \<Rightarrow> (case loadPartnerInboundPolicy partnerId s of
            (True, Some v) \<Rightarrow> if jsTruthy v
              then caught s s (bindE (ofOption (DbError ''invalid input syntax for type uuid'') (case v of J_str g \<Rightarrow> uuidOfText g | _ \<Rightarrow> None)) (\<lambda>orgId.
                createAndLog env n partnerId orgId None None None now s))
              else caught s s (logInbound n (Some partnerId) Mail_quarantined None None now s)
          | _ \<Rightarrow> caught s s (logInbound n (Some partnerId) Mail_quarantined None None now s))))"

definition threadMessage :: "mail_env \<Rightarrow> inbound_mail \<Rightarrow> uuid \<Rightarrow> instant \<Rightarrow> db \<Rightarrow> (svc_error \<times> db) + db" where
  "threadMessage env n partnerId now s =
     (case findTicketInPartner n partnerId s of
        Some t \<Rightarrow>
          caught s s (bindE (guardE (tk_partnerId t = Some partnerId) (JsError ''cross-partner match'')) (\<lambda>_.
          let s1 = appendInboundComment (tk_id t) n partnerId now s;
              s2 = (if tk_status t = Tk_resolved then reopenResolvedTicket (tk_id t) partnerId now s1 else s1)
          in logInbound n (Some partnerId) Mail_matched (Some (tk_id t)) None now s2))
      | None \<Rightarrow> (case findClosedTicketInPartner n partnerId s of
          Some t \<Rightarrow> caught s s (createAndLog env n partnerId (tk_orgId t) (tk_emailThreadKey t) (tk_internalNumber t) None now s)
        | None \<Rightarrow> routeBySender env n partnerId now s))"

definition partnerStatusText :: "partner_status option \<Rightarrow> string" where
  "partnerStatusText st = (case st of None \<Rightarrow> ''unknown'' | Some Partner_pending \<Rightarrow> ''pending'' | Some Partner_active \<Rightarrow> ''active''
     | Some Partner_suspended \<Rightarrow> ''suspended'' | Some Partner_churned \<Rightarrow> ''churned'')"

definition handleForPartner :: "mail_env \<Rightarrow> inbound_mail \<Rightarrow> uuid \<Rightarrow> instant \<Rightarrow> db \<Rightarrow> (svc_error \<times> db) + db" where
  "handleForPartner env n partnerId now s =
     (let status = map_option pr_status (partnerOf s partnerId); domain = inboundDomainOrNull env
      in if status \<noteq> Some Partner_active
         then caught s s (logInbound n (Some partnerId) Mail_skipped None (Some (''partner '' @ uuidText partnerId @ '' status='' @ partnerStatusText status)) now s)
         else if isPgText domain \<and> senderDomain (ni_from n) = js_toLowerCase (nullish domain [])
         then caught s s (logInbound n (Some partnerId) Mail_ignored None (Some (''self-loop: sender is inbound domain '' @ nullish domain [])) now s)
         else if onLog (Some partnerId) (ni_providerMessageId n) s then Inr s
         else if \<not> (case ni_senderAuth n of None \<Rightarrow> False | Some v \<Rightarrow> sau_verified v)
         then caught s s (logInbound n (Some partnerId) Mail_quarantined None (Some ''unverified sender (SPF/DKIM/DMARC)'') now s)
         else threadMessage env n partnerId now s)"

text \<open>The failure is logged in a transaction of its own under the partner that was resolved.\<close>

definition processInboundEmail :: "mail_env \<Rightarrow> inbound_mail \<Rightarrow> instant \<Rightarrow> db \<Rightarrow> db" where
  "processInboundEmail env n now s = (case resolvePartnerByRecipient env (ni_to n) s of
     Inl e \<Rightarrow> logInboundFailedDurable n None e now s
   | Inr None \<Rightarrow> (case logInbound n None Mail_ignored None
         (if CHR ''@'' \<notin> set (ni_to n) then Some ''malformed/empty recipient'' else None) now s of
       Inl e \<Rightarrow> logInboundFailedDurable n None e now s | Inr t \<Rightarrow> t)
   | Inr (Some p) \<Rightarrow> (case handleForPartner env n p now s of Inl (e, s1) \<Rightarrow> logInboundFailedDurable n (Some p) e now s1 | Inr t \<Rightarrow> t))"

end
