(* ===== verification/TicketNotify.thy ===== *)
theory TicketNotify
  imports InboundMail
begin

text \<open>
  The notifications of tickets: threading of outgoing mail (\<open>inboundEmail/outboundThreading.ts\<close>), the
  acknowledgement (\<open>autoresponseTemplate.ts\<close>) and the worker of ticket events (\<open>jobs/ticketNotifyWorker.ts\<close>).
  The worker returns the messages it hands to the mail service. Definitions only.
\<close>

section \<open>outboundThreading.ts and autoresponseTemplate.ts\<close>

definition ticketThreadAnchor :: "mail_env \<Rightarrow> uuid \<Rightarrow> string option" where
  "ticketThreadAnchor env ticketId = (case orUndefined (inboundDomainOrNull env) of None \<Rightarrow> None
     | Some d \<Rightarrow> Some (''<ticket-'' @ uuidText ticketId @ ''@'' @ d @ ''>''))"

definition commentMessageId :: "mail_env \<Rightarrow> uuid \<Rightarrow> nat \<Rightarrow> string option" where
  "commentMessageId env ticketId commentId = (case orUndefined (inboundDomainOrNull env) of None \<Rightarrow> None
     | Some d \<Rightarrow> Some (''<ticket-'' @ uuidText ticketId @ ''-'' @ uuidText commentId @ ''@'' @ d @ ''>''))"

definition partnerInboundAddress :: "mail_env \<Rightarrow> string \<Rightarrow> string option \<Rightarrow> string option" where
  "partnerInboundAddress env partnerSlug configuredOverride =
     (case orUndefined (map_option js_trim configuredOverride) of Some v \<Rightarrow> Some v
      | None \<Rightarrow> map_option (\<lambda>d. partnerSlug @ ''@'' @ d) (orUndefined (inboundDomainOrNull env)))"

definition buildThreadingHeaders :: "mail_env \<Rightarrow> uuid \<Rightarrow> nat option \<Rightarrow> (string \<times> string) list" where
  "buildThreadingHeaders env ticketId commentId = (case ticketThreadAnchor env ticketId of None \<Rightarrow> []
     | Some anchor \<Rightarrow> (case commentId of None \<Rightarrow> [(''Message-ID'', anchor)]
       | Some c \<Rightarrow> [(''Message-ID'', nullish (commentMessageId env ticketId c) anchor), (''In-Reply-To'', anchor), (''References'', anchor)]))"

definition escapeChar :: "char \<Rightarrow> string" where
  "escapeChar c = (if c = CHR ''&'' then ''&amp;'' else if c = CHR ''<'' then ''&lt;'' else if c = CHR ''>'' then ''&gt;''
     else if c = CHR 0x22 then ''&quot;'' else if c = CHR 0x27 then ''&#39;'' else [c])"

definition escapeHtml :: "string \<Rightarrow> string" where
  "escapeHtml v = concat (map escapeChar v)"

text \<open>The dash of the texts, in UTF-8.\<close>

definition dash :: string where
  "dash = [CHR 0xE2, CHR 0x80, CHR 0x94]"

definition buildAutoresponseEmail :: "string option \<Rightarrow> string \<Rightarrow> string \<times> string" where
  "buildAutoresponseEmail internalNumber subject =
     ((if isPgText internalNumber then ''['' @ nullish internalNumber [] @ ''] '' else []) @ ''We received your request: '' @ subject,
      ''<p>Thanks '' @ dash @ '' we'' @ [CHR 0x27] @ ''ve received your request and opened ticket <strong>'' @
        escapeHtml (nullish internalNumber ''your request'') @ ''</strong>.</p><p>Reply to this email to add more detail; our team will follow up.</p>'')"

section \<open>ticketNotifyWorker.ts\<close>

record email_payload =
  ep_to :: string
  ep_subject :: string
  ep_html :: string
  ep_bestEffort :: bool
  ep_replyTo :: "string option"
  ep_headers :: "(string \<times> string) list option"

definition plainMail :: "string \<Rightarrow> string \<Rightarrow> string \<Rightarrow> bool \<Rightarrow> email_payload" where
  "plainMail to subject html bestEffort = \<lparr> ep_to = to, ep_subject = subject, ep_html = html, ep_bestEffort = bestEffort, ep_replyTo = None, ep_headers = None \<rparr>"

text \<open>A ticket that is not visible yet makes the job fail, and the queue retries it.\<close>

definition getTicketOrRetry :: "uuid \<Rightarrow> db \<Rightarrow> svc_error + ticket" where
  "getTicketOrRetry i s = ofOption (JsError ''Ticket not found (likely uncommitted)'') (ticketOf s i)"

definition notifyUser :: "uuid \<Rightarrow> uuid \<Rightarrow> string \<Rightarrow> string \<Rightarrow> string \<Rightarrow> db \<Rightarrow> db" where
  "notifyUser userId orgId title message link s = s \<lparr> db_next := Suc (db_next s),
     db_userNotifications := insertRow \<lparr> un_id = db_next s, un_userId = userId, un_orgId = Some orgId, un_type = ''ticket'', un_priority = ''normal'',
       un_title = title, un_message = Some message, un_link = Some link \<rparr> (db_userNotifications s) \<rparr>"

definition ticketLabel :: "ticket \<Rightarrow> string" where
  "ticketLabel t = nullish (tk_internalNumber t) (tk_ticketNumber t)"

definition collectAssigneeNotification :: "uuid \<Rightarrow> uuid \<Rightarrow> uuid option \<Rightarrow> uuid \<Rightarrow> db \<Rightarrow> email_payload list svc" where
  "collectAssigneeNotification i orgId actorUserId assigneeId s =
     (if Some assigneeId = actorUserId then Inr ([], s)
      else bindE (getTicketOrRetry i s) (\<lambda>t.
        case getAssigneeForValidation assigneeId s of None \<Rightarrow> Inr ([], s)
        | Some u \<Rightarrow> Inr (if usr_email u = [] then []
              else [plainMail (usr_email u) (''['' @ ticketLabel t @ ''] Assigned to you: '' @ tk_subject t)
                (''<p>You have been assigned ticket <strong>'' @ escapeHtml (ticketLabel t) @ ''</strong>: '' @ escapeHtml (tk_subject t) @ ''</p>'') True],
            notifyUser assigneeId orgId (''Ticket assigned: '' @ ticketLabel t) (tk_subject t)
              (''/tickets#'' @ nullish (tk_internalNumber t) (uuidText (tk_id t))) s)))"

definition replyAddress :: "mail_env \<Rightarrow> ticket \<Rightarrow> db \<Rightarrow> string option" where
  "replyAddress env t s = (case Option.bind (tk_partnerId t) (partnerOf s) of None \<Rightarrow> None
     | Some p \<Rightarrow> if pr_slug p = [] then None
         else partnerInboundAddress env (pr_slug p) (case Option.bind (inboundSettings (pr_id p) s) (jsonMember ''address'') of Some (J_str v) \<Rightarrow> Some v | _ \<Rightarrow> None))"

definition collectRequesterEmail :: "mail_env \<Rightarrow> uuid \<Rightarrow> string \<Rightarrow> string \<Rightarrow> nat option \<Rightarrow> db \<Rightarrow> email_payload list svc" where
  "collectRequesterEmail env i bodyHtml subjectPrefix commentId s =
     bindE (getTicketOrRetry i s) (\<lambda>t.
     let subject = ''['' @ ticketLabel t @ ''] '' @ subjectPrefix @ '': '' @ tk_subject t
     in case orUndefined (tk_submitterEmail t) of None \<Rightarrow> Inr ([], s)
        | Some to \<Rightarrow> (case commentId of None \<Rightarrow> Inr ([plainMail to subject bodyHtml False], s)
          | Some c \<Rightarrow>
              let built = buildThreadingHeaders env (tk_id t) (Some c); anchor = ticketThreadAnchor env (tk_id t);
                  s1 = (if anchor \<noteq> None \<and> \<not> isPgText (tk_emailThreadKey t)
                        then updateTickets (\<lambda>r. tk_id r = tk_id t) (\<lambda>r. r \<lparr> tk_emailThreadKey := anchor \<rparr>) s else s)
              in Inr ([\<lparr> ep_to = to, ep_subject = subject, ep_html = bodyHtml, ep_bestEffort = False, ep_replyTo = replyAddress env t s,
                   ep_headers = (if built = [] then None else Some built) \<rparr>], s1)))"

definition collectAutoresponse :: "mail_env \<Rightarrow> uuid \<Rightarrow> string \<Rightarrow> string option \<Rightarrow> string \<Rightarrow> db \<Rightarrow> email_payload list svc" where
  "collectAutoresponse env i to internalNumber subject s =
     bindE (getTicketOrRetry i s) (\<lambda>t.
     let tpl = buildAutoresponseEmail internalNumber subject
     in Inr ([\<lparr> ep_to = to, ep_subject = fst tpl, ep_html = snd tpl, ep_bestEffort = True, ep_replyTo = replyAddress env t s,
          ep_headers = Some ((''Auto-Submitted'', ''auto-replied'') #
            (case ticketThreadAnchor env (tk_id t) of None \<Rightarrow> [] | Some anchor \<Rightarrow> [(''Message-ID'', anchor)])) \<rparr>], s))"

definition collectSlaBreachNotification :: "uuid \<Rightarrow> uuid \<Rightarrow> sla_target \<Rightarrow> string option \<Rightarrow> string \<Rightarrow> uuid \<Rightarrow> db \<Rightarrow> email_payload list svc" where
  "collectSlaBreachNotification i orgId k internalNumber subject assigneeId s =
     bindE (getTicketOrRetry i s) (\<lambda>t.
     let label = nullish internalNumber (uuidText i)
     in case getAssigneeForValidation assigneeId s of None \<Rightarrow> Inr ([], s)
        | Some u \<Rightarrow> Inr (if usr_email u = [] then []
              else [plainMail (usr_email u) (''SLA breached: '' @ label @ '' '' @ dash @ '' '' @ subject)
                (''<p>The '' @ escapeHtml (targetText k) @ '' SLA breached for ticket <strong>'' @ escapeHtml label @ ''</strong>: '' @ escapeHtml subject @ ''</p>'') True],
            notifyUser assigneeId orgId (''SLA breached: '' @ label) (targetText k @ '' SLA breached for '' @ subject) (''/tickets#'' @ label) s))"

text \<open>The handler of a ticket event, up to the sending of the collected messages.\<close>

definition handleTicketEvent :: "mail_env \<Rightarrow> ticket_event_type \<Rightarrow> uuid \<Rightarrow> uuid \<Rightarrow> uuid option \<Rightarrow> db \<Rightarrow> email_payload list svc" where
  "handleTicketEvent env e i orgId actorUserId s = (case e of
     Ev_ticket_created n v (Some u) q \<Rightarrow> collectAssigneeNotification i orgId actorUserId u s
   | Ev_ticket_assigned (Some u) \<Rightarrow> collectAssigneeNotification i orgId actorUserId u s
   | Ev_ticket_sla_breached k n v (Some u) \<Rightarrow> collectSlaBreachNotification i orgId k n v u s
   | Ev_ticket_commented c isPublic inbound \<Rightarrow> if isPublic \<and> \<not> inbound
       then collectRequesterEmail env i ''<p>Your ticket has a new reply. Sign in to the portal to view it.</p>'' ''New reply'' (Some c) s
       else Inr ([], s)
   | Ev_ticket_autoresponse to n v \<Rightarrow> collectAutoresponse env i to n v s
   | Ev_ticket_status_changed st st' note \<Rightarrow> if st' = Tk_resolved
       then collectRequesterEmail env i (''<p>Your ticket has been resolved.</p>'' @
         (if isPgText note then ''<p>'' @ escapeHtml (nullish note []) @ ''</p>'' else [])) ''Resolved'' None s
       else Inr ([], s)
   | _ \<Rightarrow> Inr ([], s))"

end
