(* ===== verification/TimeProperties.thy ===== *)
theory TimeProperties
  imports InvoiceProperties TimeTracking
begin

text \<open>
  What the time tracking guarantees: its calls refine the ledger as long as they keep the billing
  marks of invoiced work (\<open>work_kept\<close>), a user has at most one running timer, and the totals of a
  timesheet. Nothing in the code enforces \<open>work_kept\<close> for edits and deletions; the last section shows
  what an edit of billed work does.
\<close>

section \<open>Calls that keep the billing marks of invoiced work\<close>

definition work_kept :: "db \<Rightarrow> db \<Rightarrow> bool" where
  "work_kept s t \<longleftrightarrow> (\<forall>i. sources (ledgerOf s) i \<subseteq> knownSources t) \<and>
     (\<forall>i r. invOf s i = Some r \<longrightarrow> live r \<longrightarrow> sources (ledgerOf s) i \<subseteq> billedSources t)"

text \<open>A state that differs from \<open>s\<close> in the work only.\<close>

definition work_only :: "db \<Rightarrow> db \<Rightarrow> bool" where
  "work_only s t \<longleftrightarrow> same_tables (s \<lparr> db_timeEntries := db_timeEntries t, db_ticketParts := db_ticketParts t \<rparr>) t \<and> db_next s \<le> db_next t \<and>
     (key_ok te_id (db_next s) (db_timeEntries s) \<longrightarrow> key_ok te_id (db_next t) (db_timeEntries t)) \<and>
     (key_ok tp_id (db_next s) (db_ticketParts s) \<longrightarrow> key_ok tp_id (db_next t) (db_ticketParts t))"

lemma refines_work:
  assumes "work_only s t" "billing_ok s \<Longrightarrow> work_kept s t"
  shows "refines s t"
  unfolding refines_by_def
proof
  assume ok: "billing_ok s"
  note w = assms(1)[unfolded work_only_def same_tables_def, simplified]
  have rows: "rows_ok t"
    using ok w by (auto simp: billing_ok_def rows_ok_def intro: key_ok_mono mappings_ok_mono)
  let ?M = "ledgerOf s \<lparr> lg_inv := invOf s, lg_next := db_next t \<rparr>"
  have "ledger_step False (ledgerOf s) ?M" using w by (intro ledger_step.frame) (auto intro: option.rel_refl)
  moreover have "ledger_step False ?M (?M \<lparr> lg_known := knownSources t, lg_billed := billedSources t \<rparr>)"
    using assms(2)[OF ok] by (intro ledger_step.work) (auto simp: work_kept_def sources_def)
  moreover have "ledgerOf t = ?M \<lparr> lg_known := knownSources t, lg_billed := billedSources t \<rparr>"
    using w by (simp add: ledgerOf_def invOf_def[abs_def])
  ultimately show "rows_ok t \<and> (ledger_step False)\<^sup>*\<^sup>* (ledgerOf s) (ledgerOf t)" using rows by auto
qed

lemma work_kept_mono:
  assumes "billing_ok s" "knownSources s \<subseteq> knownSources t" "billedSources s \<subseteq> billedSources t"
  shows "work_kept s t"
proof -
  have "sources_ok (ledgerOf s)" using assms(1) by (simp add: billing_ok_def ledger_ok_def)
  then show ?thesis using sources_okD(1,3)[of "ledgerOf s"] assms(2,3) unfolding work_kept_def by simp (meson subset_trans)
qed

text \<open>A call that only adds work keeps the marks of all of it.\<close>

definition more_work :: "db \<Rightarrow> db \<Rightarrow> bool" where
  "more_work s t \<longleftrightarrow> work_only s t \<and> knownSources s \<subseteq> knownSources t \<and> billedSources s \<subseteq> billedSources t"

lemma more_workI: "work_only s t \<Longrightarrow> knownSources s \<subseteq> knownSources t \<Longrightarrow> billedSources s \<subseteq> billedSources t \<Longrightarrow> more_work s t"
  by (simp add: more_work_def)

lemma more_work_kept: "more_work s t \<Longrightarrow> billing_ok s \<Longrightarrow> work_kept s t"
  by (simp add: more_work_def work_kept_mono)

lemma refines_more_work: "more_work s t \<Longrightarrow> refines s t"
  using more_work_kept by (auto simp: more_work_def intro: refines_work)

lemma work_only_simps [simp]:
  "work_only s (emit e t) = work_only s t" "work_only s (insertTimeEntryFeedComment k a c n t) = work_only s t"
  by (auto simp: work_only_def same_tables_def insertTimeEntryFeedComment_def insertComment_def split: option.splits)

lemma sources_simps [simp]:
  "knownSources (emit e t) = knownSources t" "billedSources (emit e t) = billedSources t"
  "knownSources (insertTimeEntryFeedComment k a c n t) = knownSources t" "billedSources (insertTimeEntryFeedComment k a c n t) = billedSources t"
  by (auto simp: knownSources_def billedSources_def insertTimeEntryFeedComment_def insertComment_def split: option.splits)

lemma feed_sel [simp]:
  "db_timeEntries (insertTimeEntryFeedComment k a c n t) = db_timeEntries t" "db_ticketParts (insertTimeEntryFeedComment k a c n t) = db_ticketParts t"
  "db_next (insertTimeEntryFeedComment k a c n t) = db_next t" "invOf (insertTimeEntryFeedComment k a c n t) = invOf t"
  "db_invoiceLines (insertTimeEntryFeedComment k a c n t) = db_invoiceLines t" "db_invoices (insertTimeEntryFeedComment k a c n t) = db_invoices t"
  "db_invoicePayments (insertTimeEntryFeedComment k a c n t) = db_invoicePayments t" "db_invoiceSequences (insertTimeEntryFeedComment k a c n t) = db_invoiceSequences t"
  "db_stripePayments (insertTimeEntryFeedComment k a c n t) = db_stripePayments t"
  by (auto simp: insertTimeEntryFeedComment_def insertComment_def invOf_def[abs_def] split: option.splits)

subsection \<open>Entries\<close>

lemma insertTimeEntry_eq:
  "insertTimeEntry e s = Inr t \<Longrightarrow> t = s \<lparr> db_next := Suc (db_next s), db_timeEntries := insertRow e (db_timeEntries s) \<rparr>"
  by (auto simp: insertTimeEntry_def guard_simps)

lemma work_insertTimeEntry:
  assumes "insertTimeEntry e s = Inr t" "te_id e = db_next s"
  shows "work_only s t" "knownSources s \<subseteq> knownSources t" "billedSources s \<subseteq> billedSources t"
  using assms(2) unfolding insertTimeEntry_eq[OF assms(1)]
  by (auto simp: work_only_def same_tables_def knownSources_def billedSources_def set_insertRow intro: key_ok_insertRow key_ok_mono)

text \<open>An update of entries that keeps their identity and their billing status.\<close>

lemma work_updateEntries:
  assumes "\<And>e. te_id (f e) = te_id e" "\<And>e. te_billingStatus (f e) = te_billingStatus e"
  shows "work_only s (s \<lparr> db_timeEntries := updateWhere P f (db_timeEntries s) \<rparr>)"
    "knownSources (s \<lparr> db_timeEntries := updateWhere P f (db_timeEntries s) \<rparr>) = knownSources s"
    "billedSources (s \<lparr> db_timeEntries := updateWhere P f (db_timeEntries s) \<rparr>) = billedSources s"
  using assms updateWhere_marks[of te_id f "\<lambda>_. True"] updateWhere_marks[of te_id f "\<lambda>t. te_billingStatus t \<noteq> Bill_not_billed"]
  by (simp_all add: work_only_def same_tables_def knownSources_def billedSources_def key_ok_updateWhere)

lemma stoppedEntry_sel [simp]:
  "te_id (stoppedEntry d b now e) = te_id e" "te_billingStatus (stoppedEntry d b now e) = te_billingStatus e"
  "te_userId (stoppedEntry d b now e) = te_userId e" "te_endedAt (stoppedEntry d b now e) = Some now"
  by (simp_all add: stoppedEntry_def)

lemma work_only_trans: "work_only s t \<Longrightarrow> work_only t u \<Longrightarrow> work_only s u"
  by (auto simp: work_only_def same_tables_def)

lemma more_work_createTimeEntry:
  assumes "createTimeEntry input a now s = Inr (e, t)"
  shows "more_work s t"
proof -
  obtain u k c n ev where u: "insertTimeEntry e s = Inr u" "te_id e = db_next s" "t = emit ev (insertTimeEntryFeedComment k a c n u)"
    using assms by (auto simp: createTimeEntry_def guard_simps Let_def split: prod.splits)
  then show ?thesis using work_insertTimeEntry[OF u(1,2)] by (intro more_workI) simp_all
qed

text \<open>What an attempt to start a timer does: every running entry of the user is stopped, then one starts.\<close>

lemma startAttempt_effect:
  assumes "startAttempt k d link a now s = Inr (e, t)"
  shows "work_only s t" "knownSources s \<subseteq> knownSources t" "billedSources s \<subseteq> billedSources t"
    "db_timeEntries t = insertRow e (updateWhere (isRunning (ta_userId a)) (stoppedEntry None None now) (db_timeEntries s))"
    "isRunning (ta_userId a) e" "te_startedAt e = now" "te_ticketId e = k" "te_id e = db_next s"
proof -
  let ?s1 = "s \<lparr> db_timeEntries := updateWhere (isRunning (ta_userId a)) (stoppedEntry None None now) (db_timeEntries s) \<rparr>"
  define s2 where "s2 = (case map_option (stoppedEntry None None now) (selectOne (isRunning (ta_userId a)) (db_timeEntries s)) of None \<Rightarrow> ?s1
    | Some e \<Rightarrow> insertTimeEntryFeedComment (te_ticketId e) a (loggedText a e) now ?s1)"
  have s2: "work_only s s2" "knownSources s2 = knownSources s" "billedSources s2 = billedSources s" "db_timeEntries s2 = db_timeEntries ?s1" "db_next s2 = db_next s"
    using work_updateEntries[where f = "stoppedEntry None None now" and s = s and P = "isRunning (ta_userId a)"]
    by (simp_all add: s2_def split: option.split)
  have e: "insertTimeEntry e s2 = Inr t" "te_id e = db_next s2" "te_userId e = ta_userId a" "te_endedAt e = None" "te_startedAt e = now" "te_ticketId e = k"
    using assms by (auto simp: startAttempt_def stopRunningEntry_def guard_simps Let_def s2_def split: prod.splits)
  note i = work_insertTimeEntry[OF e(1,2)]
  show "work_only s t" using work_only_trans[OF s2(1) i(1)] .
  show "knownSources s \<subseteq> knownSources t" "billedSources s \<subseteq> billedSources t" using i(2,3) s2(2,3) by simp_all
  show "db_timeEntries t = insertRow e (updateWhere (isRunning (ta_userId a)) (stoppedEntry None None now) (db_timeEntries s))"
    using insertTimeEntry_eq[OF e(1)] s2(4) by simp
  show "isRunning (ta_userId a) e" "te_startedAt e = now" "te_ticketId e = k" "te_id e = db_next s" using e s2(5) by (simp_all add: isRunning_def)
qed

lemma startTimer_cases:
  assumes "startTimer k d a now s = Inr (e, t)"
  obtains link u ev where "startAttempt k d link a now s = Inr (e, u)" "t = emit ev u"
  using assms by (auto simp: startTimer_def bindE_eq_Inr split: sum.splits if_splits prod.splits)

lemma more_work_startTimer: "startTimer k d a now s = Inr (e, t) \<Longrightarrow> more_work s t"
  by (erule startTimer_cases) (simp add: more_work_def startAttempt_effect)

lemma stopTimer_eq:
  assumes "stopTimer d b a now s = Inr (e, t)"
  obtains k c n ev where "t = emit ev (insertTimeEntryFeedComment k a c n
    (s \<lparr> db_timeEntries := updateWhere (isRunning (ta_userId a)) (stoppedEntry d b now) (db_timeEntries s) \<rparr>))"
  using assms by (auto simp: stopTimer_def stopRunningEntry_def guard_simps)

lemma more_work_stopTimer: "stopTimer d b a now s = Inr (e, t) \<Longrightarrow> more_work s t"
  by (erule stopTimer_eq) (auto intro!: more_workI work_updateEntries simp: work_updateEntries(2,3))

lemma approvedEntry_sel [simp]:
  "te_id (approvedEntry x a now e) = te_id e" "te_billingStatus (approvedEntry x a now e) = te_billingStatus e"
  "te_endedAt (approvedEntry x a now e) = te_endedAt e" "te_userId (approvedEntry x a now e) = te_userId e"
  by (simp_all add: approvedEntry_def)

lemma approveTimeEntries_eq:
  assumes "approveTimeEntries ids x a now s = Inr (r, t)"
  obtains P where "t = s \<lparr> db_timeEntries := updateWhere P (approvedEntry x a now) (db_timeEntries s) \<rparr>"
    | P ev where "t = emit ev (s \<lparr> db_timeEntries := updateWhere P (approvedEntry x a now) (db_timeEntries s) \<rparr>)"
  using assms by (auto simp: approveTimeEntries_def guard_simps Let_def split: prod.splits list.splits if_splits)

lemma more_work_approveTimeEntries: "approveTimeEntries ids x a now s = Inr (r, t) \<Longrightarrow> more_work s t"
  by (erule approveTimeEntries_eq) (auto intro!: more_workI work_updateEntries simp: work_updateEntries(2,3))

subsection \<open>Edits, deletions, parts\<close>

lemma patchEntry_sel [simp]:
  "te_id (patchEntry p l now e) = te_id e" "te_userId (patchEntry p l now e) = te_userId e"
  "te_endedAt (patchEntry p l now e) = orElse (tep_endedAt p) (te_endedAt e)"
  "te_billingStatus (patchEntry p l now e) = nullish (tep_billingStatus p) (te_billingStatus e)"
  "te_isBillable (patchEntry p l now e) = nullish (tep_isBillable p) (te_isBillable e)"
  by (simp_all add: patchEntry_def Let_def)

lemma updateTimeEntry_eq:
  assumes "updateTimeEntry i p a now s = Inr (e', t)"
  obtains e l ev where "entryOf s i = Some e" "e' = patchEntry p l now e" "t = emit ev (updateTimeEntries i (patchEntry p l now) s)"
  using assms by (auto simp: updateTimeEntry_def getEntryOr404_def bindE_eq_Inr ofOption_eq_Inr Let_def)

lemma deleteTimeEntry_eq:
  assumes "deleteTimeEntry i a now s = Inr (u, t)"
  obtains k c n ev where "t = emit ev (insertTimeEntryFeedComment k a c n (s \<lparr> db_timeEntries := deleteWhere (\<lambda>r. te_id r = i) (db_timeEntries s) \<rparr>))"
  using assms by (auto simp: deleteTimeEntry_def bindE_eq_Inr)

lemma patchPart_sel [simp]: "tp_id (patchPart q now p) = tp_id p"
  by (simp add: patchPart_def)

lemma work_only_edits:
  "updateTimeEntry i p a now s = Inr (e, t) \<Longrightarrow> work_only s t"
  "deleteTimeEntry i a now s = Inr (u, t) \<Longrightarrow> work_only s t"
  "updateTicketPart i q now s = Inr (x, t) \<Longrightarrow> work_only s t"
  "deleteTicketPart i s = Inr (u, t) \<Longrightarrow> work_only s t"
  subgoal by (erule updateTimeEntry_eq) (simp add: updateTimeEntries_def work_only_def same_tables_def key_ok_updateWhere)
  subgoal by (erule deleteTimeEntry_eq) (simp add: work_only_def same_tables_def key_ok_deleteWhere)
  subgoal by (auto simp: updateTicketPart_def guard_simps work_only_def same_tables_def key_ok_updateWhere)
  subgoal by (auto simp: deleteTicketPart_def guard_simps work_only_def same_tables_def key_ok_deleteWhere)
  done

lemma more_work_addTicketPart:
  assumes "addTicketPart k input a now s = Inr (p, t)"
  shows "more_work s t"
proof (rule more_workI)
  have id: "tp_id p = db_next s" and t: "t = s \<lparr> db_next := Suc (db_next s), db_ticketParts := insertRow p (db_ticketParts s) \<rparr>"
    using assms by (auto simp: addTicketPart_def bindE_eq_Inr Let_def)
  show "work_only s t"
    using id unfolding t work_only_def same_tables_def by (auto intro: key_ok_insertRow key_ok_mono)
  show "knownSources s \<subseteq> knownSources t" "billedSources s \<subseteq> billedSources t"
    unfolding t by (auto simp: knownSources_def billedSources_def set_insertRow)
qed

text \<open>One call of the time tracking, and one that keeps the billing marks of invoiced work.\<close>

inductive time_call :: "db \<Rightarrow> db \<Rightarrow> bool" where
  "createTimeEntry input a now s = Inr (e, t) \<Longrightarrow> time_call s t"
| "startTimer k d a now s = Inr (e, t) \<Longrightarrow> time_call s t"
| "stopTimer d b a now s = Inr (e, t) \<Longrightarrow> time_call s t"
| "updateTimeEntry i p a now s = Inr (e, t) \<Longrightarrow> time_call s t"
| "deleteTimeEntry i a now s = Inr (u, t) \<Longrightarrow> time_call s t"
| "approveTimeEntries ids x a now s = Inr (r, t) \<Longrightarrow> time_call s t"
| "addTicketPart k pinput a now s = Inr (pt, t) \<Longrightarrow> time_call s t"
| "updateTicketPart i q now s = Inr (pt, t) \<Longrightarrow> time_call s t"
| "deleteTicketPart i s = Inr (u, t) \<Longrightarrow> time_call s t"

lemmas more_work_calls = more_work_createTimeEntry more_work_startTimer more_work_stopTimer more_work_approveTimeEntries more_work_addTicketPart

definition time_step :: "db \<Rightarrow> db \<Rightarrow> bool" where
  "time_step s t \<longleftrightarrow> time_call s t \<and> work_kept s t"

lemma time_step_refines: "time_step s t \<Longrightarrow> refines s t"
  unfolding time_step_def
proof (elim conjE, induction rule: time_call.induct)
qed (auto intro: refines_work work_only_edits refines_more_work more_work_calls)

interpretation timekeeping: ledger_client False time_step
  by unfold_locales (rule time_step_refines)

text \<open>Logging, timing, stopping and approving work and adding parts never need the condition.\<close>

lemma time_step_free:
  assumes "billing_ok s"
  shows "createTimeEntry input a now s = Inr (e, t) \<Longrightarrow> time_step s t"
    "startTimer k d a now s = Inr (e, t) \<Longrightarrow> time_step s t"
    "stopTimer d b a now s = Inr (e, t) \<Longrightarrow> time_step s t"
    "approveTimeEntries ids x a now s = Inr (r, t) \<Longrightarrow> time_step s t"
    "addTicketPart tk pinput a now s = Inr (pt, t) \<Longrightarrow> time_step s t"
  unfolding time_step_def using assms by (blast intro: time_call.intros more_work_kept more_work_calls)+

section \<open>Timers\<close>

definition runningOf :: "uuid \<Rightarrow> db \<Rightarrow> time_entry list" where
  "runningOf u s = filter (isRunning u) (db_timeEntries s)"

lemma runningOf_emit [simp]: "runningOf u (emit ev s) = runningOf u s" "runningOf u (insertTimeEntryFeedComment k a c n s) = runningOf u s"
  by (simp_all add: runningOf_def)

text \<open>An update that keeps the user and never clears the end adds no running entry.\<close>

lemma running_update:
  assumes "\<And>e. te_userId (f e) = te_userId e" "\<And>e. te_endedAt e \<noteq> None \<Longrightarrow> te_endedAt (f e) \<noteq> None"
  shows "length (filter (isRunning u) (updateWhere P f ws)) \<le> length (filter (isRunning u) ws)"
proof -
  have "isRunning u e" if "isRunning u (f e)" for e using that assms(1) assms(2)[of e] by (cases "te_endedAt e") (auto simp: isRunning_def)
  then show ?thesis by (induction ws) (auto simp: updateWhere_def intro: le_SucI)
qed

lemma running_stop:
  "filter (isRunning u) (updateWhere (isRunning v) (stoppedEntry d b now) ws) = (if u = v then [] else filter (isRunning u) ws)"
  by (induction ws) (auto simp: updateWhere_def isRunning_def[abs_def])

lemma running_insert:
  assumes "insertTimeEntry e s = Inr t"
  shows "runningOf u t = runningOf u s @ (if isRunning u e then [e] else [])" "isRunning u e \<Longrightarrow> runningOf u s = []"
  subgoal using insertTimeEntry_eq[OF assms] by (simp add: runningOf_def insertRow_def)
  subgoal using assms by (auto simp: insertTimeEntry_def guard_simps runningOf_def filter_empty_conv isRunning_def)
  done

text \<open>After a start the new entry is the user's only running one; other users are not touched.\<close>

lemma startTimer_running:
  assumes "startTimer k d a now s = Inr (e, t)"
  shows "runningOf u t = (if u = ta_userId a then [e] else runningOf u s)"
proof -
  obtain link v ev where v: "startAttempt k d link a now s = Inr (e, v)" "t = emit ev v" using assms by (rule startTimer_cases)
  note eff = startAttempt_effect[OF v(1)]
  then show ?thesis by (auto simp: v(2) runningOf_def eff(4) insertRow_def running_stop isRunning_def)
qed

definition one_timer :: "db \<Rightarrow> bool" where
  "one_timer s \<longleftrightarrow> (\<forall>u. length (runningOf u s) \<le> 1)"

lemma one_timer_update:
  assumes "one_timer s" "db_timeEntries t = updateWhere P f (db_timeEntries s)"
    "\<And>e. te_userId (f e) = te_userId e" "\<And>e. te_endedAt e \<noteq> None \<Longrightarrow> te_endedAt (f e) \<noteq> None"
  shows "one_timer t"
  using assms(1,2) running_update[of f, OF assms(3,4)] unfolding one_timer_def runningOf_def by (metis order_trans)

lemma one_timer_same: "one_timer s \<Longrightarrow> db_timeEntries t = db_timeEntries s \<Longrightarrow> one_timer t"
  by (simp add: one_timer_def runningOf_def)

lemma time_call_one_timer: "time_call s t \<Longrightarrow> one_timer s \<Longrightarrow> one_timer t"
proof (induction rule: time_call.induct)
  case (1 input a now s e t)
  then obtain k c n ev v where v: "insertTimeEntry e s = Inr v" "te_endedAt e \<noteq> None" "t = emit ev (insertTimeEntryFeedComment k a c n v)"
    by (auto simp: createTimeEntry_def guard_simps Let_def split: prod.splits)
  then show ?case using 1(2) running_insert(1)[OF v(1)] by (auto simp: one_timer_def isRunning_def)
next
  case (2 k d a now s e t)
  then show ?case by (simp add: one_timer_def startTimer_running[OF 2(1)])
next
  case (3 d b a now s e t)
  then show ?case by (elim stopTimer_eq) (auto elim: one_timer_update)
next
  case (4 i p a now s e t)
  then show ?case by (elim updateTimeEntry_eq) (auto simp: updateTimeEntries_def orElse_def elim!: one_timer_update split: option.splits)
next
  case (5 i a now s u t)
  then obtain k c n ev where "t = emit ev (insertTimeEntryFeedComment k a c n (s \<lparr> db_timeEntries := deleteWhere (\<lambda>r. te_id r = i) (db_timeEntries s) \<rparr>))"
    by (elim deleteTimeEntry_eq)
  moreover have "length (filter (isRunning v) (deleteWhere P ws)) \<le> length (filter (isRunning v) ws)" for v P ws
    by (induction ws) (auto simp: deleteWhere_def)
  ultimately show ?case using 5(2) unfolding one_timer_def runningOf_def by simp (meson order_trans)
next
  case (6 ids x a now s r t)
  then show ?case by (elim approveTimeEntries_eq) (auto elim: one_timer_update)
next
  case (7 k pinput a now s pt t)
  then show ?case by (elim one_timer_same) (auto simp: addTicketPart_def bindE_eq_Inr Let_def)
next
  case (8 i q now s pt t)
  then show ?case by (elim one_timer_same) (auto simp: updateTicketPart_def bindE_eq_Inr)
next
  case (9 i s u t)
  then show ?case by (elim one_timer_same) (auto simp: deleteTicketPart_def bindE_eq_Inr)
qed

lemma time_calls_one_timer: "time_call\<^sup>*\<^sup>* s t \<Longrightarrow> one_timer s \<Longrightarrow> one_timer t"
  by (induction rule: rtranclp_induct) (auto intro: time_call_one_timer)

lemma selectOne_filter: "selectOne P ws = (case filter P ws of [] \<Rightarrow> None | r # _ \<Rightarrow> Some r)"
  by (induction ws) (simp_all add: selectOne_def)

text \<open>
  (C31) One timer per user. From a state in which every user has at most one running entry, every
  sequence of calls of the time tracking leads to such a state, so that the running timer
  \<open>getRunningTimer\<close> shows is the only one; the entry a start returns is running and is the one shown.
\<close>

theorem one_timer_per_user:
  assumes "time_call\<^sup>*\<^sup>* s t" "one_timer s"
  shows "(isRunning u e \<and> e \<in> set (db_timeEntries t) \<longrightarrow> getRunningTimer u t = Some e) \<and> length (runningOf u t) \<le> 1 \<and>
    (startTimer k d a now t = Inr (e, t') \<longrightarrow> getRunningTimer (ta_userId a) t' = Some e \<and> runningOf (ta_userId a) t' = [e])"
proof -
  note show_running = getRunningTimer_def selectOne_filter runningOf_def[symmetric]
  have one: "one_timer t" using time_calls_one_timer assms by blast
  have "getRunningTimer u t = Some e" if "isRunning u e" "e \<in> set (db_timeEntries t)"
  proof -
    have "e \<in> set (runningOf u t)" using that by (simp add: runningOf_def)
    moreover have "length (runningOf u t) \<le> 1" using one by (simp add: one_timer_def)
    ultimately have "runningOf u t = [e]" by (cases "runningOf u t") auto
    then show ?thesis by (simp add: show_running)
  qed
  then show ?thesis using one startTimer_running[of k d a now t e t'] by (auto simp: show_running one_timer_def)
qed

text \<open>
  Starting a timer. With a valid ticket link (or none, for an actor with a partner) a start
  succeeds whether or not a timer is running: the entry of the user that was running is stopped at
  this instant with its whole minutes, the new entry starts now with the defaults of the ticket and
  not billed, nothing else changes in the entries, and the 409 \<open>ENTRY_RUNNING\<close> is never the answer.
\<close>

lemma startTimer_switches:
  assumes "entryDefaults k a s = Inr (partner, org, billable, rate)" "\<And>r. rate = Some r \<Longrightarrow> rateFits r"
    and "\<And>e. e \<in> set (db_timeEntries s) \<Longrightarrow> isRunning (ta_userId a) e \<Longrightarrow> minutesFit ((now - te_startedAt e) div 60000)"
  shows "\<exists>e t. startTimer k d a now s = Inr (e, t) \<and> isRunning (ta_userId a) e \<and> te_startedAt e = now \<and> te_ticketId e = k \<and>
    te_partnerId e = partner \<and> te_isBillable e = billable \<and> te_hourlyRate e = rate \<and> te_billingStatus e = Bill_not_billed \<and>
    db_timeEntries t = insertRow e (updateWhere (isRunning (ta_userId a)) (stoppedEntry None None now) (db_timeEntries s))"
proof -
  let ?ws = "updateWhere (isRunning (ta_userId a)) (stoppedEntry None None now) (db_timeEntries s)"
  have none: "\<not> isRunning (ta_userId a) r" if "r \<in> set ?ws" for r
    using that by (auto simp: set_updateWhere isRunning_def split: if_splits)
  have fit: "\<forall>e \<in> set (selectWhere (isRunning (ta_userId a)) (db_timeEntries s)). minutesFit ((now - te_startedAt e) div 60000)"
    using assms(3) by (auto simp: set_selectWhere)
  have "\<exists>e t. startAttempt k d (partner, org, billable, rate) a now s = Inr (e, t) \<and>
      te_partnerId e = partner \<and> te_isBillable e = billable \<and> te_hourlyRate e = rate \<and> te_billingStatus e = Bill_not_billed"
    using fit none assms(2)
    by (auto simp: startAttempt_def stopRunningEntry_def insertTimeEntry_def entryFits_def guardE_def Let_def split: option.split)
  then obtain e t where t: "startAttempt k d (partner, org, billable, rate) a now s = Inr (e, t)"
    and e: "te_partnerId e = partner \<and> te_isBillable e = billable \<and> te_hourlyRate e = rate \<and> te_billingStatus e = Bill_not_billed" by blast
  then show ?thesis using startAttempt_effect[OF t] assms(1) by (auto simp: startTimer_def)
qed

text \<open>A technician whose timer has been running for an hour.\<close>

definition tech :: time_actor where
  "tech = \<lparr> ta_userId = 7, ta_name = Some ''Kim'', ta_partnerId = Some 10, ta_manageAll = True, ta_accessibleOrgIds = None \<rparr>"

definition running_entry :: time_entry where
  "running_entry = (work_entry 42) \<lparr> te_startedAt := noon - 3600000, te_endedAt := None, te_durationMinutes := None, te_isApproved := False \<rparr>"

definition timing :: db where
  "timing = day0 \<lparr> db_timeEntries := [work_entry 40, work_entry 41, running_entry] \<rparr>"

lemma tech_sel [simp]:
  "ta_userId tech = 7" "ta_name tech = Some ''Kim''" "ta_partnerId tech = Some 10" "ta_manageAll tech" "ta_accessibleOrgIds tech = None"
  by (simp_all add: tech_def)

lemma running_entry_sel:
  "te_id running_entry = 42" "te_userId running_entry = 7" "te_startedAt running_entry = noon - 3600000" "te_endedAt running_entry = None"
  "te_userId (work_entry i) = 7" "te_endedAt (work_entry i) = Some 1750000000000"
  by (simp_all add: running_entry_def work_entry_def)

lemma timing_sel: "db_timeEntries timing = [work_entry 40, work_entry 41, running_entry]" "db_tickets timing = db_tickets day0"
  "db_orgTicketSettings timing = []" "db_ticketCategories timing = []"
  by (simp_all add: timing_def day0_def empty_db_def)

lemma one_timer_timing: "one_timer timing"
  by (simp add: one_timer_def runningOf_def timing_sel isRunning_def running_entry_sel)

lemma link_timing: "entryDefaults (Some 30) tech timing = Inr (10, Some 20, False, None)"
  by (simp add: entryDefaults_def resolveTicketLink_def getTicketForTimeTracking_def resolveTicketPartner_def selectOne_def timing_sel day0_sel work_ticket_sel
      getOrgBillingDefaults_def Let_def)

lemma stop_timing: "\<exists>e t. stopTimer None None tech noon timing = Inr (e, t)"
  by (simp add: stopTimer_def stopRunningEntry_def selectWhere_def selectOne_def timing_sel isRunning_def running_entry_sel minutesFit_def)

theorem one_timer_per_user_witness:
  "\<exists>e t. stopTimer None None tech noon timing = Inr (e, t) \<and> length (runningOf 7 t) \<le> 1"
proof -
  obtain e t where t: "stopTimer None None tech noon timing = Inr (e, t)" using stop_timing by blast
  show ?thesis using t one_timer_per_user[OF r_into_rtranclp[of time_call, OF time_call.intros(3)[OF t]] one_timer_timing, of 7] by blast
qed

lemma startTimer_switches_witness:
  "\<exists>e t. startTimer (Some 30) None tech noon timing = Inr (e, t) \<and> isRunning 7 e \<and>
     map te_endedAt (db_timeEntries t) = [Some 1750000000000, Some 1750000000000, Some noon, None] \<and>
     map te_durationMinutes (butlast (db_timeEntries t)) = [Some 90, Some 90, Some 60]"
proof -
  have "minutesFit ((noon - te_startedAt e) div 60000)" if "e \<in> set (db_timeEntries timing)" "isRunning (ta_userId tech) e" for e
    using that by (auto simp: timing_sel isRunning_def running_entry_sel minutesFit_def)
  then obtain e t where t: "startTimer (Some 30) None tech noon timing = Inr (e, t)" "isRunning 7 e"
    "db_timeEntries t = insertRow e (updateWhere (isRunning 7) (stoppedEntry None None noon) (db_timeEntries timing))"
    using startTimer_switches[OF link_timing, of noon None] by auto
  have "map te_durationMinutes [work_entry 40, work_entry 41] = [Some 90, Some 90]" by (simp add: work_entry_def)
  then show ?thesis using t
    by (auto simp: timing_sel isRunning_def running_entry_sel insertRow_def updateWhere_def stoppedEntry_def)
qed

section \<open>Durations\<close>

text \<open>Below \<open>2 ^ 53\<close> milliseconds the double quotient never rounds across a whole minute.\<close>

lemma computeDurationMinutes_exact:
  assumes "a \<le> b" "b - a < 2 ^ 53"
  shows "computeDurationMinutes a b = (b - a) div 60000"
proof -
  define d where "d = b - a"
  define q :: rat where "q = of_int d / 60000"
  have q: "q = of_int (d div 60000) + of_int (d mod 60000) / 60000"
  proof -
    have "(of_int d :: rat) = of_int (60000 * (d div 60000) + d mod 60000)" by (simp only: mult_div_mod_eq)
    then show ?thesis unfolding q_def of_int_add of_int_mult by (simp add: add_divide_distrib)
  qed
  have "\<lfloor>rnd q\<rfloor> = d div 60000"
  proof (cases "d mod 60000 = 0")
    case True
    have "0 \<le> d div 60000" "d div 60000 \<le> d" using assms(1) mult_div_mod_eq[of 60000 d] True
      by (simp_all add: d_def pos_imp_zdiv_nonneg_iff)
    then show ?thesis using assms True by (simp add: q rnd_of_int d_def)
  next
    case False
    then have m: "1 \<le> d mod 60000" "d mod 60000 \<le> 59999" using pos_mod_bound[of 60000 d] pos_mod_sign[of 60000 d] by linarith+
    then have d1: "1 \<le> d" using assms(1) by (cases "d = 0") (auto simp: d_def)
    have "(2::rat) powi (- 1022) \<le> 1 / 2 ^ 65" by (rule powi_m1022_le)
    also have "\<dots> \<le> 1 / 60000" by simp
    also have "\<dots> \<le> q" using d1 by (simp add: q_def field_simps)
    finally have "(2::rat) powi (- 1022) \<le> \<bar>q\<bar>" by simp
    then have e: "\<bar>rnd q - q\<bar> \<le> \<bar>q\<bar> * 2 powi (- 53)" by (rule rnd_error)
    have "(of_int d :: rat) < of_int (2 ^ 53)" using assms(2) unfolding of_int_less_iff d_def .
    then have "\<bar>q\<bar> * 2 powi (- 53) < 1 / 60000" using d1 by (simp add: q_def power_int_minus field_simps)
    with e have e: "\<bar>rnd q - q\<bar> < 1 / 60000" by linarith
    have "(1 :: rat) / 60000 \<le> of_int (d mod 60000) / 60000" "of_int (d mod 60000) / 60000 \<le> (59999 :: rat) / 60000"
      using m of_int_le_iff[where 'a = rat, of 1 "d mod 60000"] of_int_le_iff[where 'a = rat, of "d mod 60000" 59999] by (simp_all add: divide_right_mono)
    then have "of_int (d div 60000) \<le> rnd q" "rnd q < of_int (d div 60000) + 1" using e q by linarith+
    then show ?thesis by (simp add: floor_unique)
  qed
  then show ?thesis by (simp add: computeDurationMinutes_def fdiv_def q_def d_def)
qed

text \<open>
  A duration does not depend on how the time was recorded: logging an interval, moving an entry to
  it, and a timer that ran over it all store the whole minutes of the interval, although the first
  two divide doubles in the service and the last divides in SQL.
\<close>

lemma durations_agree:
  assumes "y - x < 2 ^ 53" "tei_startedAt input = x" "tei_endedAt input = y" "createTimeEntry input a now s = Inr (e, t)"
    and "tep_startedAt p = Some x" "tep_endedAt p = Some y" "updateTimeEntry i p a' now' s' = Inr (e', t')" "te_startedAt r = x"
  shows "te_durationMinutes e = Some ((y - x) div 60000) \<and> te_durationMinutes e' = te_durationMinutes e \<and>
    te_durationMinutes (stoppedEntry d b y r) = te_durationMinutes e"
proof -
  have e: "x < y" "te_durationMinutes e = Some (computeDurationMinutes x y)"
    using assms(2-4) by (auto simp: createTimeEntry_def guard_simps Let_def split: prod.splits)
  have "te_durationMinutes e' = Some (computeDurationMinutes x y)"
    using assms(7) by (rule updateTimeEntry_eq) (simp add: patchEntry_def assms(5,6) Let_def)
  then show ?thesis using e computeDurationMinutes_exact[of x y] assms(1,8) by (simp add: stoppedEntry_def)
qed

definition logged :: time_entry_input where
  "logged = \<lparr> tei_ticketId = None, tei_startedAt = noon - 5459999, tei_endedAt = noon, tei_description = None, tei_isBillable = None,
     tei_hourlyRate = None, tei_billingStatus = None \<rparr>"

definition moved :: time_entry_patch where
  "moved = \<lparr> tep_ticketId = None, tep_startedAt = Some (noon - 5459999), tep_endedAt = Some noon, tep_description = None, tep_isBillable = None,
     tep_hourlyRate = None, tep_billingStatus = None \<rparr>"

lemma moved_minutes: "computeDurationMinutes (noon - 5459999) noon = 90"
  by (simp add: computeDurationMinutes_exact)

lemma logged_day0: "\<exists>e t. createTimeEntry logged tech noon day0 = Inr (e, t)"
  by (simp add: createTimeEntry_def entryDefaults_def logged_def Let_def moved_minutes insertTimeEntry_def entryFits_def minutesFit_def)

lemma moved_day0: "\<exists>e t. updateTimeEntry 40 moved tech noon day0 = Inr (e, t)"
  by (simp add: updateTimeEntry_def getEntryOr404_def entryOf_def entryOrgAllowed_def assertCanMutate_def patchLink_def moved_def selectOne_def
      day0_sel work_entry_def entryFits_def patchEntry_def minutesFit_def rateFits_def moved_minutes Let_def)

lemma durations_agree_witness:
  "\<exists>e t e' t'. createTimeEntry logged tech noon day0 = Inr (e, t) \<and> updateTimeEntry 40 moved tech noon day0 = Inr (e', t') \<and>
     te_durationMinutes e = Some 90 \<and> te_durationMinutes e' = Some 90"
proof -
  obtain e t e' t' where r: "createTimeEntry logged tech noon day0 = Inr (e, t)" "updateTimeEntry 40 moved tech noon day0 = Inr (e', t')"
    using logged_day0 moved_day0 by blast
  have "te_durationMinutes e = Some 90 \<and> te_durationMinutes e' = Some 90"
    using durations_agree[OF _ _ _ r(1) _ _ r(2), of noon "noon - 5459999" "running_entry \<lparr> te_startedAt := noon - 5459999 \<rparr>"]
    by (simp add: logged_def moved_def)
  then show ?thesis using r by blast
qed

section \<open>Timesheets\<close>

definition minutesOf :: "time_entry \<Rightarrow> int" where
  "minutesOf e = nullish (te_durationMinutes e) 0"

lemma addToDay_sel [simp]:
  "td_date (addToDay e d) = td_date d" "td_totalMinutes (addToDay e d) = td_totalMinutes d + minutesOf e"
  "td_billableMinutes (addToDay e d) = td_billableMinutes d + (if te_isBillable e then minutesOf e else 0)"
  "td_entries (addToDay e d) = td_entries d @ [e]"
  by (simp_all add: addToDay_def minutesOf_def Let_def)

text \<open>One entry reaches the one day of its date, and no day when there is none.\<close>

lemma placeEntry_sums:
  assumes "distinct (map td_date ds)"
  shows "map td_date (placeEntry e ds) = map td_date ds"
    "sum_list (map td_totalMinutes (placeEntry e ds)) = sum_list (map td_totalMinutes ds) + (if utcDay (te_startedAt e) \<in> td_date ` set ds then minutesOf e else 0)"
    "sum_list (map td_billableMinutes (placeEntry e ds)) = sum_list (map td_billableMinutes ds) +
      (if utcDay (te_startedAt e) \<in> td_date ` set ds \<and> te_isBillable e then minutesOf e else 0)"
    "mset (concat (map td_entries (placeEntry e ds))) = mset (concat (map td_entries ds)) +
      (if utcDay (te_startedAt e) \<in> td_date ` set ds then {#e#} else {#})"
proof -
  show "map td_date (placeEntry e ds) = map td_date ds" by (simp add: placeEntry_def)
  show "sum_list (map td_totalMinutes (placeEntry e ds)) = sum_list (map td_totalMinutes ds) + (if utcDay (te_startedAt e) \<in> td_date ` set ds then minutesOf e else 0)"
    using assms by (induction ds) (auto simp: placeEntry_def image_iff)
  show "sum_list (map td_billableMinutes (placeEntry e ds)) = sum_list (map td_billableMinutes ds) +
      (if utcDay (te_startedAt e) \<in> td_date ` set ds \<and> te_isBillable e then minutesOf e else 0)"
    using assms by (induction ds) (auto simp: placeEntry_def image_iff)
  show "mset (concat (map td_entries (placeEntry e ds))) = mset (concat (map td_entries ds)) +
      (if utcDay (te_startedAt e) \<in> td_date ` set ds then {#e#} else {#})"
    using assms by (induction ds) (auto simp: placeEntry_def image_iff)
qed

lemma timesheetLoop_sums:
  assumes "distinct (map td_date ds)"
  shows "map td_date (timesheetLoop es ds) = map td_date ds"
    "sum_list (map td_totalMinutes (timesheetLoop es ds)) =
      sum_list (map td_totalMinutes ds) + (\<Sum>e\<leftarrow>filter (\<lambda>e. utcDay (te_startedAt e) \<in> td_date ` set ds) es. minutesOf e)"
    "sum_list (map td_billableMinutes (timesheetLoop es ds)) =
      sum_list (map td_billableMinutes ds) + (\<Sum>e\<leftarrow>filter (\<lambda>e. utcDay (te_startedAt e) \<in> td_date ` set ds \<and> te_isBillable e) es. minutesOf e)"
    "mset (concat (map td_entries (timesheetLoop es ds))) =
      mset (concat (map td_entries ds)) + mset (filter (\<lambda>e. utcDay (te_startedAt e) \<in> td_date ` set ds) es)"
proof -
  have "map td_date (timesheetLoop es ds) = map td_date ds \<and>
    sum_list (map td_totalMinutes (timesheetLoop es ds)) =
      sum_list (map td_totalMinutes ds) + (\<Sum>e\<leftarrow>filter (\<lambda>e. utcDay (te_startedAt e) \<in> td_date ` set ds) es. minutesOf e) \<and>
    sum_list (map td_billableMinutes (timesheetLoop es ds)) =
      sum_list (map td_billableMinutes ds) + (\<Sum>e\<leftarrow>filter (\<lambda>e. utcDay (te_startedAt e) \<in> td_date ` set ds \<and> te_isBillable e) es. minutesOf e) \<and>
    mset (concat (map td_entries (timesheetLoop es ds))) =
      mset (concat (map td_entries ds)) + mset (filter (\<lambda>e. utcDay (te_startedAt e) \<in> td_date ` set ds) es)"
    using assms
  proof (induction es arbitrary: ds)
    case Nil
    then show ?case by (simp add: timesheetLoop_def)
  next
    case (Cons e es)
    define ds' where "ds' = placeEntry e ds"
    note one = placeEntry_sums[OF Cons.prems, of e, folded ds'_def]
    have dates: "td_date ` set ds' = td_date ` set ds" using arg_cong[OF one(1), of set] by simp
    have "timesheetLoop (e # es) ds = timesheetLoop es ds'" by (simp add: timesheetLoop_def ds'_def)
    moreover have "distinct (map td_date ds')" using Cons.prems one(1) by simp
    ultimately show ?case using Cons.IH[of ds'] one unfolding dates by simp
  qed
  then show "map td_date (timesheetLoop es ds) = map td_date ds"
    "sum_list (map td_totalMinutes (timesheetLoop es ds)) =
      sum_list (map td_totalMinutes ds) + (\<Sum>e\<leftarrow>filter (\<lambda>e. utcDay (te_startedAt e) \<in> td_date ` set ds) es. minutesOf e)"
    "sum_list (map td_billableMinutes (timesheetLoop es ds)) =
      sum_list (map td_billableMinutes ds) + (\<Sum>e\<leftarrow>filter (\<lambda>e. utcDay (te_startedAt e) \<in> td_date ` set ds \<and> te_isBillable e) es. minutesOf e)"
    "mset (concat (map td_entries (timesheetLoop es ds))) =
      mset (concat (map td_entries ds)) + mset (filter (\<lambda>e. utcDay (te_startedAt e) \<in> td_date ` set ds) es)"
    by blast+
qed

text \<open>The seven days of a week whose start is in range.\<close>

definition week_ok :: "instant \<Rightarrow> bool" where
  "week_ok w \<longleftrightarrow> day_ok (w div ms_per_day) \<and> day_ok (w div ms_per_day + 7)"

lemma weekDays_dates: "map td_date (weekDays w) = map (\<lambda>i. isoOfDay (w div ms_per_day + int i)) [0..<7]"
proof -
  have "(w + int i * ms_per_day) div ms_per_day = w div ms_per_day + int i" for i by simp
  then show ?thesis by (simp add: weekDays_def utcDay_def add.commute)
qed

lemma week_day_ok: "week_ok w \<Longrightarrow> 0 \<le> k \<Longrightarrow> k \<le> 7 \<Longrightarrow> day_ok (w div ms_per_day + k)"
  by (auto simp: week_ok_def day_ok_def)

lemma isoOfDay_inject: "day_ok m \<Longrightarrow> day_ok n \<Longrightarrow> isoOfDay m = isoOfDay n \<longleftrightarrow> m = n"
  by (metis isoOfDay_ok(3))

lemma weekDays_distinct: "week_ok w \<Longrightarrow> distinct (map td_date (weekDays w))"
  unfolding weekDays_dates distinct_map
  by (auto simp: inj_on_def isoOfDay_inject week_day_ok)

lemma in_weekDays:
  assumes "week_ok w" "w div ms_per_day \<le> n" "n \<le> w div ms_per_day + 7"
  shows "isoOfDay n \<in> td_date ` set (weekDays w) \<longleftrightarrow> n < w div ms_per_day + 7"
proof -
  have "td_date ` set (weekDays w) = (\<lambda>i. isoOfDay (w div ms_per_day + int i)) ` {0..<7}"
    using arg_cong[OF weekDays_dates[of w], of set] by (simp only: set_map set_upt)
  moreover have "day_ok n" using week_day_ok[OF assms(1), of "n - w div ms_per_day"] assms(2,3) by simp
  moreover have "n < w div ms_per_day + 7 \<longleftrightarrow> (\<exists>i\<in>{0..<7}. n = w div ms_per_day + int i)"
    using assms(2) by (auto intro!: bexI[of _ "nat (n - w div ms_per_day)"])
  ultimately show ?thesis using isoOfDay_inject week_day_ok[OF assms(1)] by (auto simp: image_iff)
qed

text \<open>What a timesheet counts: the entries of the seven days whose dates it lists.\<close>

definition counted :: "uuid \<Rightarrow> instant \<Rightarrow> uuid list option \<Rightarrow> db \<Rightarrow> time_entry list" where
  "counted u w acc s = filter (\<lambda>e. inWeek u w acc e \<and> te_startedAt e div ms_per_day < w div ms_per_day + 7) (db_timeEntries s)"

lemma timesheet_counts:
  assumes "week_ok w"
  shows "length (tsh_days (getTimesheet u w acc s)) = 7"
    "mset (concat (map td_entries (tsh_days (getTimesheet u w acc s)))) = mset (counted u w acc s)"
    "tsh_totalMinutes (getTimesheet u w acc s) = (\<Sum>e\<leftarrow>counted u w acc s. minutesOf e)"
    "tsh_billableMinutes (getTimesheet u w acc s) = (\<Sum>e\<leftarrow>filter te_isBillable (counted u w acc s). minutesOf e)"
proof -
  define es where "es = sort_key te_startedAt (selectWhere (inWeek u w acc) (db_timeEntries s))"
  let ?in = "\<lambda>e. utcDay (te_startedAt e) \<in> td_date ` set (weekDays w)"
  have in_iff: "?in e \<longleftrightarrow> te_startedAt e div ms_per_day < w div ms_per_day + 7" if "inWeek u w acc e" for e
  proof -
    have "w \<le> te_startedAt e" "te_startedAt e < w + 7 * ms_per_day" using that by (simp_all add: inWeek_def)
    then have "w div ms_per_day \<le> te_startedAt e div ms_per_day" "te_startedAt e div ms_per_day \<le> (w + 7 * ms_per_day) div ms_per_day"
      by (simp_all only: zdiv_mono1 less_imp_le zero_less_numeral)
    then show ?thesis unfolding utcDay_def by (intro in_weekDays[OF assms]) simp_all
  qed
  have es: "mset es = mset (selectWhere (inWeek u w acc) (db_timeEntries s))" by (simp add: es_def)
  have m: "mset (filter ?in es) = mset (counted u w acc s)"
    unfolding mset_filter es by (simp add: selectWhere_def counted_def filter_filter_mset flip: mset_filter) (metis (no_types, lifting) in_iff filter_cong)
  have b: "mset (filter (\<lambda>e. ?in e \<and> te_isBillable e) es) = mset (filter te_isBillable (counted u w acc s))"
    using arg_cong[OF m, of "filter_mset te_isBillable"] by (simp add: conj_commute flip: mset_filter)
  have sum: "(\<Sum>e\<leftarrow>xs. minutesOf e) = (\<Sum>e\<leftarrow>ys. minutesOf e)" if "mset xs = mset ys" for xs ys
    using that by (metis mset_map sum_mset_sum_list)
  have zero: "sum_list (map td_totalMinutes (weekDays w)) = 0" "sum_list (map td_billableMinutes (weekDays w)) = 0"
    "concat (map td_entries (weekDays w)) = []" by (simp_all add: weekDays_def comp_def)
  note sums = timesheetLoop_sums[OF weekDays_distinct[OF assms], of es, unfolded zero, simplified]
  have days: "tsh_days (getTimesheet u w acc s) = timesheetLoop es (weekDays w)" by (simp add: getTimesheet_def es_def Let_def)
  show "length (tsh_days (getTimesheet u w acc s)) = 7" using arg_cong[OF sums(1), of length] by (simp add: days weekDays_def)
  show "mset (concat (map td_entries (tsh_days (getTimesheet u w acc s)))) = mset (counted u w acc s)" using sums(4) m by (simp add: days)
  show "tsh_totalMinutes (getTimesheet u w acc s) = (\<Sum>e\<leftarrow>counted u w acc s. minutesOf e)"
    using sums(2) sum[OF m] by (simp add: getTimesheet_def es_def Let_def)
  show "tsh_billableMinutes (getTimesheet u w acc s) = (\<Sum>e\<leftarrow>filter te_isBillable (counted u w acc s). minutesOf e)"
    using sums(3) sum[OF b] by (simp add: getTimesheet_def es_def Let_def)
qed

text \<open>
  (C32) Timesheets. For a week that starts at midnight UTC the timesheet has seven days; the entries of
  its days together are exactly the user's visible entries that start in the week, each on one day,
  and the totals are the exact sums of their minutes and of the billable ones.
\<close>

theorem timesheet_exact:
  assumes "week_ok w" "w mod ms_per_day = 0"
  shows "length (tsh_days (getTimesheet u w acc s)) = 7 \<and>
    mset (concat (map td_entries (tsh_days (getTimesheet u w acc s)))) = mset (filter (inWeek u w acc) (db_timeEntries s)) \<and>
    tsh_totalMinutes (getTimesheet u w acc s) = (\<Sum>e\<leftarrow>filter (inWeek u w acc) (db_timeEntries s). minutesOf e) \<and>
    tsh_billableMinutes (getTimesheet u w acc s) = (\<Sum>e\<leftarrow>filter te_isBillable (filter (inWeek u w acc) (db_timeEntries s)). minutesOf e)"
proof -
  have "te_startedAt e div ms_per_day < w div ms_per_day + 7" if "inWeek u w acc e" for e
  proof -
    have "te_startedAt e < (w div ms_per_day + 7) * ms_per_day" using that assms(2) mult_div_mod_eq[of ms_per_day w] by (simp add: inWeek_def algebra_simps)
    then show ?thesis using pos_mod_sign[of ms_per_day "te_startedAt e"] mult_div_mod_eq[of ms_per_day "te_startedAt e"] by (simp add: algebra_simps)
  qed
  then have "counted u w acc s = filter (inWeek u w acc) (db_timeEntries s)" unfolding counted_def by (metis (mono_tags, lifting))
  then show ?thesis using timesheet_counts[OF assms(1)] by simp
qed

text \<open>
  A week that starts in the middle of a day reads entries up to the same time seven days later but
  lists seven dates, so an entry it reads on the eighth date is on no day and in no total: both sums
  are those of the other entries. The comment at the skip says such rows are still in the totals.
\<close>

lemma timesheet_drops_boundary:
  assumes "week_ok w" "inWeek u w acc e" "te_startedAt e div ms_per_day = w div ms_per_day + 7" "e \<in> set (db_timeEntries s)"
  shows "e \<notin> set (concat (map td_entries (tsh_days (getTimesheet u w acc s)))) \<and>
    tsh_totalMinutes (getTimesheet u w acc s) = tsh_totalMinutes (getTimesheet u w acc (s \<lparr> db_timeEntries := removeAll e (db_timeEntries s) \<rparr>))"
proof -
  have out: "e \<notin> set (counted u w acc s)" using assms(3) by (simp add: counted_def)
  have "set_mset (mset (concat (map td_entries (tsh_days (getTimesheet u w acc s))))) = set (counted u w acc s)"
    unfolding timesheet_counts(2)[OF assms(1)] by simp
  moreover have "filter P (removeAll e xs) = filter P xs" if "\<not> P e" for P and xs :: "time_entry list" using that by (induction xs) auto
  then have "counted u w acc (s \<lparr> db_timeEntries := removeAll e (db_timeEntries s) \<rparr>) = counted u w acc s" using assms(3) by (simp add: counted_def)
  ultimately show ?thesis using out timesheet_counts(3)[OF assms(1)] by simp
qed

lemma week_ok_june: "week_ok 1749427200000" "week_ok 1749391200000"
  by (simp_all add: week_ok_def day_ok_def dayFromYear_def)

theorem timesheet_exact_witness:
  "tsh_totalMinutes (getTimesheet 7 1749427200000 None day0) = 180 \<and> tsh_billableMinutes (getTimesheet 7 1749427200000 None day0) = 180"
  using timesheet_exact[OF week_ok_june(1), of 7 None day0]
  by (simp add: day0_sel inWeek_def entryOrgAllowed_def minutesOf_def work_entry_def)

lemma timesheet_drops_boundary_witness:
  "work_entry 40 \<notin> set (concat (map td_entries (tsh_days (getTimesheet 7 1749391200000 None day0)))) \<and> inWeek 7 1749391200000 None (work_entry 40)"
  using timesheet_drops_boundary[OF week_ok_june(2), of 7 None "work_entry 40" day0]
  by (simp add: day0_sel inWeek_def entryOrgAllowed_def work_entry_def)

section \<open>Edits of billed work\<close>

lemma issueGuard_reset:
  assumes "issueGuard (removeAll k ts) ps s = Inr ()" "\<And>e. te_id (f e) = te_id e" "\<And>e. te_billingStatus (f e) = Bill_not_billed"
  shows "issueGuard ts ps (updateTimeEntries k f s) = Inr ()"
  using assms by (auto simp: issueGuard_def guard_simps updateTimeEntries_def set_updateWhere)

text \<open>
  (C37) Nothing protects the billing mark of invoiced work. An edit of a time entry may set it back to
  not billed although the entry stands on a live invoice; the double-bill guard, which refused the
  work before, accepts it, and issuing another draft puts the work on a second live invoice. So the
  exclusion of double billing holds for the calls of the time tracking only under \<open>work_kept\<close>.
\<close>

theorem reset_work_billed_twice:
  assumes "TimeSource k \<in> billedSources s" "invOf s i = Some r" "live r" "i \<noteq> j" "l \<in> set (linesOf s i)" "sourceOf l = Some (TimeSource k)"
    and "issueRead j b s = Inr (q, ts, ps)" "k \<in> set ts" "issueGuard (removeAll k ts) ps s = Inr ()"
    and "updateTimeEntry k p a now s = Inr (e, t)" "tep_billingStatus p = Some Bill_not_billed"
    and "issueWrite j q ts ps now' t = Inr u"
  shows "issueGuard ts ps s = Inl (InvoiceErr 409 SOURCE_ALREADY_BILLED) \<and> \<not> work_kept s t \<and>
    issueRead j b t = Inr (q, ts, ps) \<and> issueGuard ts ps t = Inr () \<and>
    (\<exists>r' q'. invOf u i = Some r' \<and> live r' \<and> invOf u j = Some q' \<and> live q') \<and>
    TimeSource k \<in> sources (ledgerOf u) i \<and> TimeSource k \<in> sources (ledgerOf u) j"
proof -
  obtain lk ev where t: "t = emit ev (updateTimeEntries k (patchEntry p lk now) s)" using assms(10) by (elim updateTimeEntry_eq)
  have frame: "invOf t = invOf s" "linesOf t = linesOf s" "db_invoiceLines t = db_invoiceLines s"
    by (simp_all add: t updateTimeEntries_def invOf_def[abs_def] linesOf_def[abs_def])
  have src: "TimeSource k \<in> sources (ledgerOf s) i"
    using assms(5,6) by (auto simp: sources_def linesOf_def set_selectWhere ledgerOf_def)
  have q: "invOf s j = Some q" "ts = timeIdsOf (linesOf s j)" using assms(7) by (auto simp: issueRead_eq)
  have srcj: "TimeSource k \<in> sources (ledgerOf s) j" using assms(8) q(2) by (auto simp: sources_linesOf)
  have "issueGuard ts ps s \<noteq> Inr ()" using assms(1,8) issueGuard_eq[of ts ps s "()"] by auto
  then have refused: "issueGuard ts ps s = Inl (InvoiceErr 409 SOURCE_ALREADY_BILLED)"
    by (auto simp: issueGuard_def bindE_def guardE_def split: if_splits)
  have "te_billingStatus x = Bill_not_billed" if "x \<in> set (db_timeEntries t)" "te_id x = k" for x
  proof -
    have "x \<in> (\<lambda>y. if te_id y = k then patchEntry p lk now y else y) ` set (db_timeEntries s)"
      using that(1) by (simp add: t updateTimeEntries_def updateWhere_def)
    then obtain y where "x = (if te_id y = k then patchEntry p lk now y else y)" by (rule imageE)
    then show ?thesis using that(2) assms(11) by (cases "te_id y = k") simp_all
  qed
  then have unbilled: "TimeSource k \<notin> billedSources t" by (auto simp: billedSources_def)
  have passes: "issueGuard ts ps t = Inr ()"
    using issueGuard_reset[OF assms(9), of "patchEntry p lk now"] assms(11) by (simp add: t) (simp add: issueGuard_def guard_simps)
  have reads: "issueRead j b t = Inr (q, ts, ps)"
    using assms(7) unfolding issueRead_def draftForEdit_def getOwnedInvoiceOr404_def frame .
  note w = issueWrite_issues[OF assms(12), unfolded frame, OF q(1)]
  have "sources (ledgerOf u) = sources (ledgerOf s)" using w(2) by (simp add: sources_def[abs_def] ledgerOf_def)
  moreover have "\<not> work_kept s t" unfolding work_kept_def using unbilled src assms(2,3) by blast
  ultimately show ?thesis using refused passes reads src srcj w(1) w(3)[OF assms(4)] assms(2,3) by auto
qed

definition reset_patch :: time_entry_patch where
  "reset_patch = \<lparr> tep_ticketId = None, tep_startedAt = None, tep_endedAt = None, tep_description = None, tep_isBillable = None,
     tep_hourlyRate = None, tep_billingStatus = Some Bill_not_billed \<rparr>"

definition reset_entry :: "uuid \<Rightarrow> time_entry" where
  "reset_entry i = patchEntry reset_patch None noon (billed_entry i)"

text \<open>
  Both drafts list the entries 40 and 41; the first is issued, then both entries are set back to not
  billed, and the second draft is issued too.
\<close>

definition reset1 :: db where
  "reset1 = emit (TimeEntryEvent (Ev_time_updated [''billingStatus'']) 41 10 (Some 30) 7)
     (race1 \<lparr> db_timeEntries := [billed_entry 40, reset_entry 41] \<rparr>)"

definition reset2 :: db where
  "reset2 = emit (TimeEntryEvent (Ev_time_updated [''billingStatus'']) 40 10 (Some 30) 7)
     (reset1 \<lparr> db_timeEntries := [reset_entry 40, reset_entry 41] \<rparr>)"

lemmas reset_defs = updateTimeEntry_def getEntryOr404_def entryOf_def entryOrgAllowed_def assertCanMutate_def patchLink_def reset_patch_def
  entryFits_def patchEntry_def minutesFit_def rateFits_def changedColumns_def updateTimeEntries_def

lemma race1_entries: "db_timeEntries race1 = [billed_entry 40, billed_entry 41]"
  by (simp add: race1_def setSources_def updateInvoices_def day1_twice_sel updateWhere_def billed_entry_def work_entry_def)

lemma resets:
  "updateTimeEntry 41 reset_patch tech noon race1 = Inr (reset_entry 41, reset1)"
  "updateTimeEntry 40 reset_patch tech noon reset1 = Inr (reset_entry 40, reset2)"
  by (simp_all add: reset_defs reset1_def reset2_def selectOne_def race1_entries updateWhere_def billed_entry_def work_entry_def
      reset_entry_def Let_def)

lemma reset1_frame:
  "invOf reset1 = invOf race1" "linesOf reset1 = linesOf race1" "db_timeEntries reset1 = [billed_entry 40, reset_entry 41]" "db_ticketParts reset1 = []"
  by (simp_all add: reset1_def invOf_def[abs_def] linesOf_def[abs_def]) (simp add: race1_def setSources_def updateInvoices_def day1_twice_sel updateWhere_def)

lemma reset1_read: "issueRead 103 msp reset1 = Inr (work_draft 103, [40, 41], [])"
  by (simp add: issue_defs lookup_defs statement_defs day1_twice_sel day_sel msp_def reset1_def race1_def setSources_def)

lemma reset2_write: "\<exists>u. issueWrite 103 (work_draft 103) [40, 41] [] noon reset2 = Inr u"
  by (simp add: issue_defs lookup_defs statement_defs day1_twice_sel day_sel Let_def work_totals js_simps noon_year
      race1_def setSources_def seqKey_def reset1_def reset2_def)

theorem reset_work_billed_twice_witness:
  "updateTimeEntry 40 reset_patch tech noon reset1 = Inr (reset_entry 40, reset2) \<and>
   (\<exists>u r q. issueWrite 103 (work_draft 103) [40, 41] [] noon reset2 = Inr u \<and> invOf u 100 = Some r \<and> live r \<and> invOf u 103 = Some q \<and> live q)"
proof -
  obtain u where u: "issueWrite 103 (work_draft 103) [40, 41] [] noon reset2 = Inr u" using reset2_write by blast
  obtain r where r: "invOf reset1 100 = Some r" "live r"
    by (simp add: reset1_frame race1_def invOf_def setSources_def updateInvoices_def day1_twice_sel updateWhere_def selectOne_def day_sel issueFields_def live_def)
  have "TimeSource 40 \<in> billedSources reset1" by (auto simp: billedSources_def reset1_frame billed_entry_def work_entry_def intro!: imageI image_eqI[of 40 _ "billed_entry 40"])
  moreover have "work_line 101 100 40 0 \<in> set (linesOf reset1 100)"
    by (simp add: reset1_frame race1_def linesOf_def setSources_def updateInvoices_def day1_twice_sel selectWhere_def work_line_sel)
  moreover have "issueGuard (removeAll 40 [40, 41]) [] reset1 = Inr ()"
    by (simp add: issueGuard_def reset1_frame billed_entry_def work_entry_def reset_entry_def reset_patch_def)
  ultimately show ?thesis
    using reset_work_billed_twice[OF _ r(1,2) _ _ _ reset1_read _ _ resets(2) _ u, of "work_line 101 100 40 0"] resets(2) u
    by (simp add: sourceOf_def work_line_sel reset_patch_def)
qed

end
