(* ===== verification/TicketBoard.thy ===== *)
theory TicketBoard
  imports TicketNotify TimeProperties
begin

text \<open>
  The contract of the ticket service: a board of tickets, with the status changes of their feed and the
  breaches that were announced. The board has seven moves. Its invariant says what the columns of a ticket
  mean: they agree with its state, the pause of its service level clock can be replayed from its feed, and
  no breach was announced before it was stamped, or twice. The locale \<open>desk_client\<close> is the interface of any service whose
  steps are moves of the board.
\<close>

section \<open>The list of breached targets\<close>

lemma splitOn_nonempty: "splitOn c v \<noteq> []"
  by (induction v) (auto split: list.splits)

lemma splitOn_append: "splitOn c (v @ c # w) = splitOn c v @ splitOn c w"
proof (induction v)
  case (Cons x v)
  then show ?case using splitOn_nonempty[of c v] by (auto split: list.splits)
qed simp

lemma splitOn_plain: "c \<notin> set v \<Longrightarrow> splitOn c v = [v]"
  by (induction v) auto

lemma targetText_simps [simp]:
  "CHR '','' \<notin> set (targetText k)" "targetText k \<noteq> []" "targetOfText (targetText k) = Some k"
  by (cases k; simp add: targetText_def targetOfText_def)+

lemma targetText_trim [simp]: "js_trim (targetText k) = targetText k"
  by (cases k) (simp_all add: targetText_def js_trim_def isBlank_def)

lemma targetText_inj [simp]: "targetText k = targetText l \<longleftrightarrow> k = l"
  by (cases k; cases l) (simp_all add: targetText_def)

definition reasonOf :: "sla_target list \<Rightarrow> string option" where
  "reasonOf ks = (if ks = [] then None else Some (joinWith '','' (map targetText ks)))"

lemma split_join: "ks \<noteq> [] \<Longrightarrow> splitOn (CHR '','') (joinWith '','' (map targetText ks)) = map targetText ks"
proof (induction ks rule: induct_list012)
  case (3 k l ks)
  then show ?case using splitOn_append[of "CHR '',''" "targetText k" "joinWith '','' (map targetText (l # ks))"]
    by (simp add: splitOn_plain)
qed (simp_all add: splitOn_plain)

lemma join_nonempty: "ks \<noteq> [] \<Longrightarrow> joinWith '','' (map targetText ks) \<noteq> []"
  by (induction ks rule: induct_list012) simp_all

lemma join_snoc: "ks \<noteq> [] \<Longrightarrow> joinWith '','' (map targetText ks @ [targetText k]) = joinWith '','' (map targetText ks) @ '','' @ targetText k"
  by (induction ks rule: induct_list012) simp_all

lemma breachedTargets_reasonOf:
  assumes "distinct ks"
  shows "breachedTargets (reasonOf ks) = ks"
proof -
  have "fold (\<lambda>part out. case targetOfText (js_trim part) of None \<Rightarrow> out | Some k \<Rightarrow> if k \<in> set out then out else out @ [k]) (map targetText ks) out = out @ ks"
    if "distinct (out @ ks)" for ks out
    using that by (induction ks arbitrary: out) auto
  from this[of "[]" ks] show ?thesis using assms
    by (auto simp: breachedTargets_def reasonOf_def split_join js_trim_def targetOfText_def)
qed

text \<open>The statement of the monitor appends a target the way \<open>appendBreachTarget\<close> does.\<close>

lemma stampBreach_reason:
  assumes "k \<notin> set ks" "tk_slaBreachReason t = reasonOf ks"
  shows "tk_slaBreachReason (stampBreach k now t) = reasonOf (ks @ [k])"
  using assms join_nonempty[of ks] join_snoc[of ks k] by (auto simp: stampBreach_def reasonOf_def)

lemma appendBreachTarget_reason:
  assumes "distinct ks" "k \<notin> set ks"
  shows "Some (appendBreachTarget (reasonOf ks) k) = reasonOf (ks @ [k])"
  using assms join_snoc[of ks k] breachedTargets_reasonOf[OF assms(1)]
  by (auto simp: appendBreachTarget_def reasonOf_def Let_def split: if_splits)

lemma listed_iff: "targetText k \<in> set (splitOn (CHR '','') (nullish (reasonOf ks) [])) \<longleftrightarrow> k \<in> set ks"
  by (auto simp: reasonOf_def split_join)

section \<open>Boards\<close>

text \<open>The status changes of a feed: ticket, old and new value, time.\<close>

type_synonym feed_row = "uuid \<times> feed_value option \<times> feed_value option \<times> instant"

record board =
  bd_next :: nat
  bd_tickets :: "ticket list"
  bd_feed :: "feed_row list"
  bd_breaches :: "(uuid \<times> sla_target) list"

definition feedOf :: "ticket_comment list \<Rightarrow> feed_row list" where
  "feedOf cs = map (\<lambda>c. (tcm_ticketId c, tcm_oldValue c, tcm_newValue c, tcm_createdAt c)) (filter (\<lambda>c. tcm_commentType c = Com_status_change) cs)"

definition breachOf :: "billing_event \<Rightarrow> (uuid \<times> sla_target) list" where
  "breachOf e = (case e of TicketEvent (Ev_ticket_sla_breached k n v u) i g p a \<Rightarrow> [(i, k)] | _ \<Rightarrow> [])"

definition boardOf :: "db \<Rightarrow> board" where
  "boardOf s = \<lparr> bd_next = db_next s, bd_tickets = db_tickets s, bd_feed = feedOf (db_ticketComments s),
     bd_breaches = concat (map breachOf (db_events s)) \<rparr>"

text \<open>The columns the moves are about.\<close>

definition life :: "ticket \<Rightarrow> uuid \<times> ticket_status \<times> instant \<times> (instant option \<times> int option) \<times>
    (instant option \<times> instant option \<times> uuid option \<times> string option) \<times> string option" where
  "life t = (tk_id t, tk_status t, tk_createdAt t, (tk_slaPausedAt t, tk_slaPausedMinutes t),
     (tk_resolvedAt t, tk_closedAt t, tk_closedBy t, tk_pendingReason t), tk_slaBreachReason t)"

definition fresh_ticket :: "instant \<Rightarrow> ticket \<Rightarrow> bool" where
  "fresh_ticket now t \<longleftrightarrow> (tk_status t = Tk_new \<or> tk_status t = Tk_open) \<and>
     life t = (tk_id t, tk_status t, now, (None, Some 0), (None, None, None, None), None)"

definition statusRow :: "uuid \<Rightarrow> ticket_status \<Rightarrow> ticket_status \<Rightarrow> instant \<Rightarrow> feed_row" where
  "statusRow i x y now = (i, Some (Fv_status x), Some (Fv_status y), now)"

inductive board_move :: "instant \<Rightarrow> board \<Rightarrow> board \<Rightarrow> bool" where
  retouch: "map life ts = map life (bd_tickets b) \<Longrightarrow> bd_next b \<le> n \<Longrightarrow> board_move now b (b \<lparr> bd_next := n, bd_tickets := ts \<rparr>)"
| relabel: "t \<in> set (bd_tickets b) \<Longrightarrow> board_move now b (b \<lparr> bd_feed := bd_feed b @ [statusRow (tk_id t) (tk_status t) (tk_status t) now] \<rparr>)"
| raised: "fresh_ticket now t \<Longrightarrow> tk_id t = bd_next b \<Longrightarrow>
    board_move now b (b \<lparr> bd_next := Suc (bd_next b), bd_tickets := insertRow t (bd_tickets b) \<rparr>)"
| picked_up: "t \<in> set (bd_tickets b) \<Longrightarrow> tk_status t = Tk_new \<Longrightarrow>
    board_move now b (b \<lparr> bd_tickets := updateWhere (\<lambda>r. tk_id r = tk_id t) (\<lambda>r. r \<lparr> tk_status := Tk_open \<rparr>) (bd_tickets b) \<rparr>)"
| answered: "t \<in> set (bd_tickets b) \<Longrightarrow> tk_status t = Tk_resolved \<Longrightarrow>
    board_move now b (b \<lparr> bd_tickets := updateWhere (\<lambda>r. tk_id r = tk_id t) (\<lambda>r. r \<lparr> tk_status := Tk_open, tk_resolvedAt := None \<rparr>) (bd_tickets b) \<rparr>)"
| changed: "t \<in> set (bd_tickets b) \<Longrightarrow> st \<in> set (TICKET_STATUS_TRANSITIONS (tk_status t)) \<Longrightarrow>
    board_move now b (b \<lparr> bd_tickets := updateWhere (\<lambda>r. tk_id r = tk_id t) (transitionPatch t st sid opts u now) (bd_tickets b),
      bd_feed := bd_feed b @ [statusRow (tk_id t) (tk_status t) st now] \<rparr>)"
| breached: "(\<And>r. r \<in> set (bd_tickets b) \<Longrightarrow> tk_id r \<in> D \<Longrightarrow> breachDue k now r) \<Longrightarrow>
    board_move now b (b \<lparr> bd_tickets := updateWhere (\<lambda>r. tk_id r \<in> D) (stampBreach k now) (bd_tickets b),
      bd_breaches := bd_breaches b @ map (\<lambda>r. (tk_id r, k)) (filter (\<lambda>r. tk_id r \<in> D \<and> A r) (bd_tickets b)) \<rparr>)"

section \<open>The invariant\<close>

definition ticket_ok :: "ticket \<Rightarrow> bool" where
  "ticket_ok t \<longleftrightarrow> (tk_slaPausedAt t \<noteq> None \<longleftrightarrow> isPaused (tk_status t)) \<and>
     (tk_resolvedAt t \<noteq> None \<longleftrightarrow> tk_status t = Tk_resolved \<or> tk_status t = Tk_closed) \<and>
     (tk_closedAt t \<noteq> None \<longleftrightarrow> tk_status t = Tk_closed) \<and> (tk_closedBy t \<noteq> None \<longleftrightarrow> tk_status t = Tk_closed) \<and>
     (tk_pendingReason t \<noteq> None \<longrightarrow> isPaused (tk_status t)) \<and> 0 \<le> nullish (tk_slaPausedMinutes t) 0"

text \<open>The pause of a clock replayed from the feed: since when it is paused, and the minutes so far.\<close>

fun replayRow :: "feed_row \<Rightarrow> instant option \<times> int \<Rightarrow> instant option \<times> int" where
  "replayRow (i, Some (Fv_status x), Some (Fv_status y), now) (p, m) =
     (if \<not> isPaused x \<and> isPaused y then (Some now, m)
      else if isPaused x \<and> \<not> isPaused y then (None, m + (case p of None \<Rightarrow> 0 | Some q \<Rightarrow> max 0 (computeDurationMinutes q now)))
      else (p, m))"
| "replayRow r c = c"

definition replay :: "uuid \<Rightarrow> feed_row list \<Rightarrow> instant option \<times> int" where
  "replay i fs = fold replayRow (filter (\<lambda>f. fst f = i) fs) (None, 0)"

definition audited :: "board \<Rightarrow> ticket \<Rightarrow> bool" where
  "audited b t \<longleftrightarrow> replay (tk_id t) (bd_feed b) = (tk_slaPausedAt t, nullish (tk_slaPausedMinutes t) 0)"

definition announced :: "board \<Rightarrow> ticket \<Rightarrow> bool" where
  "announced b t \<longleftrightarrow> (\<exists>ks. distinct ks \<and> tk_slaBreachReason t = reasonOf ks \<and>
     (\<forall>k. count_list (bd_breaches b) (tk_id t, k) \<le> (if k \<in> set ks then 1 else 0)))"

definition board_ok :: "board \<Rightarrow> bool" where
  "board_ok b \<longleftrightarrow> key_ok tk_id (bd_next b) (bd_tickets b) \<and> (\<forall>t \<in> set (bd_tickets b). ticket_ok t \<and> audited b t \<and> announced b t) \<and>
     (\<forall>f \<in> set (bd_feed b). fst f < bd_next b) \<and> (\<forall>e \<in> set (bd_breaches b). fst e < bd_next b)"

lemma life_eqD:
  assumes "life t = life r"
  shows "tk_id t = tk_id r" "tk_status t = tk_status r" "tk_createdAt t = tk_createdAt r" "tk_slaPausedAt t = tk_slaPausedAt r"
    "tk_slaPausedMinutes t = tk_slaPausedMinutes r" "tk_slaBreachReason t = tk_slaBreachReason r"
    "ticket_ok t = ticket_ok r" "audited b t = audited b r" "announced b t = announced b r"
  using assms by (simp_all add: life_def ticket_ok_def audited_def announced_def)

lemma row_simps_board [simp]:
  "audited (b \<lparr> bd_tickets := ts \<rparr>) t = audited b t" "announced (b \<lparr> bd_tickets := ts \<rparr>) t = announced b t"
  "audited (b \<lparr> bd_next := n \<rparr>) t = audited b t" "announced (b \<lparr> bd_next := n \<rparr>) t = announced b t"
  "announced (b \<lparr> bd_feed := fs \<rparr>) t = announced b t" "audited (b \<lparr> bd_breaches := bs \<rparr>) t = audited b t"
  by (simp_all add: audited_def announced_def)

lemma replay_snoc: "replay i (fs @ [f]) = (if fst f = i then replayRow f (replay i fs) else replay i fs)"
  by (simp add: replay_def)

lemma audited_other: "tk_id t \<noteq> i \<Longrightarrow> audited (b \<lparr> bd_feed := bd_feed b @ [statusRow i x y now] \<rparr>) t = audited b t"
  by (auto simp: audited_def replay_snoc statusRow_def)

text \<open>A status change and its feed line agree on the clock.\<close>

lemma isPaused_simps [simp]:
  "isPaused Tk_pending" "isPaused Tk_on_hold" "\<not> isPaused Tk_new" "\<not> isPaused Tk_open" "\<not> isPaused Tk_resolved" "\<not> isPaused Tk_closed"
  by (simp_all add: isPaused_def)

lemma transition_keeps [simp]:
  "tk_id (transitionPatch t st sid opts u now r) = tk_id r" "tk_createdAt (transitionPatch t st sid opts u now r) = tk_createdAt r"
  "tk_slaBreachReason (transitionPatch t st sid opts u now r) = tk_slaBreachReason r" "tk_status (transitionPatch t st sid opts u now r) = st"
  by (simp_all add: transitionPatch_def foldPause_def stampTransition_def)

lemma transition_clock:
  assumes "ticket_ok t"
  shows "(tk_slaPausedAt (transitionPatch t st sid opts u now t), nullish (tk_slaPausedMinutes (transitionPatch t st sid opts u now t)) 0) =
    replayRow (statusRow i (tk_status t) st now) (tk_slaPausedAt t, nullish (tk_slaPausedMinutes t) 0)"
  using assms by (auto simp: transitionPatch_def foldPause_def stampTransition_def statusRow_def pausedMinutesAfter_def ticket_ok_def)

lemma transition_ok:
  assumes "ticket_ok t" "st \<in> set (TICKET_STATUS_TRANSITIONS (tk_status t))"
  shows "ticket_ok (transitionPatch t st sid opts u now t)"
proof -
  let ?r = "transitionPatch t st sid opts u now t"
  have "(tk_slaPausedAt ?r \<noteq> None \<longleftrightarrow> isPaused (tk_status ?r)) \<and> 0 \<le> nullish (tk_slaPausedMinutes ?r) 0"
    using transition_clock[OF assms(1), of st sid opts u now 0] assms(1)
    by (auto simp: statusRow_def ticket_ok_def split: option.splits if_splits)
  then show ?thesis using assms
    by (cases "tk_status t"; cases st)
       (auto simp: ticket_ok_def TICKET_STATUS_TRANSITIONS_def transitionPatch_def foldPause_def stampTransition_def)
qed

lemma changed_row:
  fixes sid opts u now
  assumes "ticket_ok t" "audited b t" "announced b t" "st \<in> set (TICKET_STATUS_TRANSITIONS (tk_status t))"
  defines "r \<equiv> transitionPatch t st sid opts u now t" and "b' \<equiv> b \<lparr> bd_feed := bd_feed b @ [statusRow (tk_id t) (tk_status t) st now] \<rparr>"
  shows "ticket_ok r \<and> audited b' r \<and> announced b' r"
  using transition_ok[OF assms(1,4)] transition_clock[OF assms(1)] assms(2,3)
  by (simp add: r_def b'_def audited_def announced_def replay_snoc) (simp add: statusRow_def)

text \<open>A breach is stamped, and announced or lost.\<close>

lemma stamp_keeps [simp]:
  "tk_id (stampBreach k now r) = tk_id r" "ticket_ok (stampBreach k now r) = ticket_ok r" "audited b (stampBreach k now r) = audited b r"
  "tk_status (stampBreach k now r) = tk_status r" "tk_createdAt (stampBreach k now r) = tk_createdAt r"
  "tk_slaPausedAt (stampBreach k now r) = tk_slaPausedAt r" "tk_slaPausedMinutes (stampBreach k now r) = tk_slaPausedMinutes r"
  by (simp_all add: stampBreach_def ticket_ok_def audited_def)

lemma count_distinct: "distinct xs \<Longrightarrow> count_list xs x = (if x \<in> set xs then 1 else 0)"
  by (induction xs) auto

lemma count_breaches:
  assumes "distinct (map tk_id ts)" "t \<in> set ts"
  shows "count_list (map (\<lambda>r. (tk_id r, k)) (filter P ts)) (tk_id t, l) = (if P t \<and> l = k then 1 else 0)"
proof -
  have "r = t" if "r \<in> set ts" "tk_id r = tk_id t" for r using assms that by (auto simp: distinct_map inj_on_def)
  moreover have "distinct (map (\<lambda>r. (tk_id r, k)) (filter P ts))"
    using assms(1) by (auto simp: distinct_map inj_on_def)
  ultimately show ?thesis using assms(2) by (auto simp: count_distinct image_iff)
qed

lemma breached_row:
  fixes A :: "ticket \<Rightarrow> bool"
  assumes "announced b t" "t \<in> set (bd_tickets b)" "distinct (map tk_id (bd_tickets b))" "tk_id t \<in> D \<Longrightarrow> breachDue k now t"
  defines "b' \<equiv> b \<lparr> bd_breaches := bd_breaches b @ map (\<lambda>r. (tk_id r, k)) (filter (\<lambda>r. tk_id r \<in> D \<and> A r) (bd_tickets b)) \<rparr>"
  shows "announced b' (if tk_id t \<in> D then stampBreach k now t else t)"
proof -
  obtain ks where ks: "distinct ks" "tk_slaBreachReason t = reasonOf ks" "\<And>l. count_list (bd_breaches b) (tk_id t, l) \<le> (if l \<in> set ks then 1 else 0)"
    using assms(1) by (auto simp: announced_def)
  have n: "count_list (bd_breaches b') (tk_id t, l) \<le> (if l \<in> set ks then 1 else 0) + (if tk_id t \<in> D \<and> l = k then 1 else 0)" for l
    using count_breaches[OF assms(3,2), of k "\<lambda>r. tk_id r \<in> D \<and> A r" l] ks(3)[of l] by (auto simp: b'_def)
  show ?thesis
  proof (cases "tk_id t \<in> D")
    case True
    then have k: "k \<notin> set ks" using assms(4) listed_iff[of k ks] ks(2) by (auto simp: breachDue_def)
    have "count_list (bd_breaches b') (tk_id t, l) \<le> (if l \<in> set (ks @ [k]) then 1 else 0)" for l
      using n[of l] k by (cases "l = k") (auto split: if_splits)
    then show ?thesis using True ks(1) k stampBreach_reason[OF k ks(2)] unfolding announced_def by (intro exI[of _ "ks @ [k]"]) simp
  next
    case False
    then have "count_list (bd_breaches b') (tk_id t, l) \<le> (if l \<in> set ks then 1 else 0)" for l using n[of l] by simp
    then show ?thesis using False ks(1,2) unfolding announced_def by (intro exI[of _ ks]) simp
  qed
qed

section \<open>Every move keeps the invariant\<close>

lemma board_okD:
  assumes "board_ok b"
  shows "key_ok tk_id (bd_next b) (bd_tickets b)" "distinct (map tk_id (bd_tickets b))"
    "t \<in> set (bd_tickets b) \<Longrightarrow> ticket_ok t \<and> audited b t \<and> announced b t \<and> tk_id t < bd_next b"
    "f \<in> set (bd_feed b) \<Longrightarrow> fst f < bd_next b" "e \<in> set (bd_breaches b) \<Longrightarrow> fst e < bd_next b"
  using assms by (auto simp: board_ok_def key_ok_def)

text \<open>The rows of a board that updates one of its tickets.\<close>

lemma update_one:
  assumes "board_ok b" "t \<in> set (bd_tickets b)"
    and "r \<in> set (updateWhere (\<lambda>r. tk_id r = tk_id t) f (bd_tickets b))"
  obtains "r = f t" | "r \<in> set (bd_tickets b)" "tk_id r \<noteq> tk_id t"
  using assms key_ok_unique[OF board_okD(1)[OF assms(1)] _ assms(2)] by (auto simp: set_updateWhere split: if_splits)

lemma life_row:
  assumes "map life ts = map life us" "t \<in> set ts"
  obtains r where "r \<in> set us" "life t = life r"
  using assms(2) arg_cong[OF assms(1), of set] by auto

lemma retouch_ok:
  assumes "board_ok b" "map life ts = map life (bd_tickets b)" "bd_next b \<le> n"
  shows "board_ok (b \<lparr> bd_next := n, bd_tickets := ts \<rparr>)"
proof -
  have "map (fst \<circ> life) ts = map (fst \<circ> life) (bd_tickets b)" using assms(2) by (metis map_map)
  then have ids: "map tk_id ts = map tk_id (bd_tickets b)" by (simp add: life_def comp_def)
  have "ticket_ok t \<and> audited b t \<and> announced b t" if t: "t \<in> set ts" for t
  proof -
    obtain r where "r \<in> set (bd_tickets b)" "life t = life r"
      using life_row[OF assms(2) t] .
    then show ?thesis using board_okD(3)[OF assms(1), of r] life_eqD(7-9)[of t r] by simp
  qed
  then show ?thesis using assms(1,3) key_ok_mono[of tk_id "bd_next b" ts n]
    by (auto simp: board_ok_def key_ok_map[OF ids] intro: less_le_trans)
qed

lemma raised_ok:
  assumes "board_ok b" "fresh_ticket now t" "tk_id t = bd_next b"
  shows "board_ok (b \<lparr> bd_next := Suc (bd_next b), bd_tickets := insertRow t (bd_tickets b) \<rparr>)"
proof -
  have "filter (\<lambda>f. fst f = bd_next b) (bd_feed b) = []" using board_okD(4)[OF assms(1)] by (fastforce simp: filter_empty_conv)
  moreover have "count_list (bd_breaches b) (bd_next b, k) = 0" for k using board_okD(5)[OF assms(1)] by (fastforce simp: count_list_0_iff)
  ultimately have "ticket_ok t \<and> audited b t \<and> announced b t"
    using assms(2,3) by (auto simp: fresh_ticket_def life_def ticket_ok_def audited_def announced_def replay_def reasonOf_def)
  then show ?thesis using board_okD[OF assms(1)] key_ok_insertRow[OF board_okD(1)[OF assms(1)] assms(3)]
    by (auto simp: board_ok_def set_insertRow less_Suc_eq)
qed

text \<open>A move that changes one ticket and neither feed nor announcements.\<close>

lemma update_one_ok:
  assumes "board_ok b" "t \<in> set (bd_tickets b)" "ticket_ok (f t)" "audited b (f t)" "announced b (f t)" "\<And>r. tk_id (f r) = tk_id r"
  shows "board_ok (b \<lparr> bd_tickets := updateWhere (\<lambda>r. tk_id r = tk_id t) f (bd_tickets b) \<rparr>)"
proof -
  note ok = board_okD[OF assms(1)]
  have "ticket_ok r \<and> audited b r \<and> announced b r" if "r \<in> set (updateWhere (\<lambda>r. tk_id r = tk_id t) f (bd_tickets b))" for r
    using assms(1,2) that by (rule update_one) (use ok(3) assms(3-5) in blast)+
  then show ?thesis using ok assms(6) by (auto simp: board_ok_def key_ok_updateWhere_iff)
qed

lemma board_move_ok: "board_move now b c \<Longrightarrow> board_ok b \<Longrightarrow> board_ok c"
proof (induction rule: board_move.induct)
  case (retouch ts b n now)
  then show ?case by (simp add: retouch_ok)
next
  case (relabel t b now)
  have "audited (b \<lparr> bd_feed := bd_feed b @ [statusRow (tk_id t) (tk_status t) (tk_status t) now] \<rparr>) r" if "r \<in> set (bd_tickets b)" for r
    using that board_okD(3)[OF relabel(2) that] by (auto simp: audited_def replay_snoc statusRow_def)
  then show ?case using relabel(2) board_okD(3)[OF relabel(2,1)] by (auto simp: board_ok_def statusRow_def)
next
  case (raised now t b)
  then show ?case by (simp add: raised_ok)
next
  case (picked_up t b now)
  then show ?case using board_okD(3)[OF picked_up(3,1)] by (intro update_one_ok) (auto simp: ticket_ok_def audited_def announced_def)
next
  case (answered t b now)
  then show ?case using board_okD(3)[OF answered(3,1)] by (intro update_one_ok) (auto simp: ticket_ok_def audited_def announced_def)
next
  case (changed t b st now sid opts u)
  note ok = board_okD[OF changed(3)]
  let ?b = "b \<lparr> bd_feed := bd_feed b @ [statusRow (tk_id t) (tk_status t) st now] \<rparr>"
  have "ticket_ok r \<and> audited ?b r \<and> announced ?b r" if "r \<in> set (updateWhere (\<lambda>r. tk_id r = tk_id t) (transitionPatch t st sid opts u now) (bd_tickets b))" for r
    using changed(3,1) that
  proof (rule update_one)
    assume "r = transitionPatch t st sid opts u now t"
    then show ?thesis using changed_row[OF _ _ _ changed(2)] ok(3)[OF changed(1)] by blast
  qed (use ok(3) audited_other in auto)
  moreover have "audited (b \<lparr> bd_tickets := ts, bd_feed := fs \<rparr>) r = audited (b \<lparr> bd_feed := fs \<rparr>) r" for ts fs r by (simp add: audited_def)
  ultimately show ?case using ok ok(3)[OF changed(1)] by (auto simp: board_ok_def key_ok_updateWhere_iff statusRow_def)
next
  case (breached b D k now A)
  note ok = board_okD[OF breached(2)]
  let ?b = "b \<lparr> bd_breaches := bd_breaches b @ map (\<lambda>r. (tk_id r, k)) (filter (\<lambda>r. tk_id r \<in> D \<and> A r) (bd_tickets b)) \<rparr>"
  have "ticket_ok r \<and> audited b r \<and> announced ?b r" if r: "r \<in> set (updateWhere (\<lambda>r. tk_id r \<in> D) (stampBreach k now) (bd_tickets b))" for r
  proof -
    obtain t where t: "t \<in> set (bd_tickets b)" "r = (if tk_id t \<in> D then stampBreach k now t else t)" using r by (auto simp: set_updateWhere)
    then show ?thesis using breached_row[OF _ t(1) ok(2) breached(1)[OF t(1)]] ok(3)[OF t(1)] by auto
  qed
  moreover have "announced (b \<lparr> bd_tickets := ts, bd_breaches := bs \<rparr>) r = announced (b \<lparr> bd_breaches := bs \<rparr>) r" for ts bs r by (simp add: announced_def)
  ultimately show ?case using ok by (auto simp: board_ok_def key_ok_updateWhere_iff)
qed

lemma board_moves_ok: "(board_move now)\<^sup>*\<^sup>* b c \<Longrightarrow> board_ok b \<Longrightarrow> board_ok c"
  by (induction rule: rtranclp_induct) (auto intro: board_move_ok)

section \<open>The clock\<close>

text \<open>The feed read with a stopwatch: since when it is paused, the milliseconds so far, and how often it was.\<close>

fun pauseRow :: "feed_row \<Rightarrow> instant option \<times> int \<times> nat \<Rightarrow> instant option \<times> int \<times> nat" where
  "pauseRow (i, Some (Fv_status x), Some (Fv_status y), now) (p, ms, n) =
     (if \<not> isPaused x \<and> isPaused y then (Some now, ms, n)
      else if isPaused x \<and> \<not> isPaused y then (None, ms + (case p of None \<Rightarrow> 0 | Some q \<Rightarrow> now - q), Suc n)
      else (p, ms, n))"
| "pauseRow r c = c"

definition pauses :: "uuid \<Rightarrow> feed_row list \<Rightarrow> instant option \<times> int \<times> nat" where
  "pauses i fs = fold pauseRow (filter (\<lambda>f. fst f = i) fs) (None, 0, 0)"

definition pausedMs :: "uuid \<Rightarrow> feed_row list \<Rightarrow> int" where
  "pausedMs i fs = fst (snd (pauses i fs))"

definition pauseCount :: "uuid \<Rightarrow> feed_row list \<Rightarrow> nat" where
  "pauseCount i fs = snd (snd (pauses i fs))"

lemma pauses_snoc: "pauses i (fs @ [f]) = (if fst f = i then pauseRow f (pauses i fs) else pauses i fs)"
  by (simp add: pauses_def)

text \<open>The minutes of the column against the stopwatch: each pause loses less than a minute.\<close>

definition clocked :: "instant \<Rightarrow> int \<Rightarrow> int option \<Rightarrow> instant option \<times> int \<times> nat \<Rightarrow> bool" where
  "clocked now created m c \<longleftrightarrow> (case c of (p, ms, n) \<Rightarrow>
     60000 * nullish m 0 \<le> ms \<and> ms \<le> 60000 * nullish m 0 + 59999 * int n \<and> 0 \<le> created \<and> created \<le> now \<and>
     (case p of None \<Rightarrow> ms \<le> now - created | Some q \<Rightarrow> created \<le> q \<and> q \<le> now \<and> ms \<le> q - created))"

definition on_clock :: "instant \<Rightarrow> board \<Rightarrow> ticket \<Rightarrow> bool" where
  "on_clock now b t \<longleftrightarrow> fst (pauses (tk_id t) (bd_feed b)) = tk_slaPausedAt t \<and>
     clocked now (tk_createdAt t) (tk_slaPausedMinutes t) (pauses (tk_id t) (bd_feed b))"

definition timed_ok :: "instant \<Rightarrow> board \<Rightarrow> bool" where
  "timed_ok now b \<longleftrightarrow> board_ok b \<and> (\<forall>t \<in> set (bd_tickets b). on_clock now b t)"

lemma on_clock_mono: "on_clock m b t \<Longrightarrow> m \<le> now \<Longrightarrow> on_clock now b t"
  by (auto simp: on_clock_def clocked_def split: option.splits prod.splits)

lemma timed_ok_mono: "timed_ok m b \<Longrightarrow> m \<le> now \<Longrightarrow> timed_ok now b"
  by (auto simp: timed_ok_def intro: on_clock_mono)

lemma minutes_floor: "0 \<le> (d::int) \<Longrightarrow> 60000 * (d div 60000) \<le> d \<and> d \<le> 60000 * (d div 60000) + 59999"
  by presburger

lemma clocked_change:
  fixes st sid opts u i
  assumes "clocked now (tk_createdAt t) (tk_slaPausedMinutes t) c" "fst c = tk_slaPausedAt t" "ticket_ok t" "now < 2 ^ 53"
  defines "r \<equiv> transitionPatch t st sid opts u now t" and "c' \<equiv> pauseRow (statusRow i (tk_status t) st now) c"
  shows "fst c' = tk_slaPausedAt r \<and> clocked now (tk_createdAt r) (tk_slaPausedMinutes r) c'"
proof (cases "isPaused (tk_status t)")
  case True
  then obtain q ms n where q: "tk_slaPausedAt t = Some q" "c = (Some q, ms, n)" using assms(2,3) by (cases c) (auto simp: ticket_ok_def)
  then have b: "0 \<le> q" "q \<le> now" using assms(1) by (auto simp: clocked_def)
  then have d: "computeDurationMinutes q now = (now - q) div 60000" "0 \<le> (now - q) div 60000"
    using assms(4) computeDurationMinutes_exact[of q now] by (simp_all add: pos_imp_zdiv_nonneg_iff)
  show ?thesis using True assms(1) q d minutes_floor[of "now - q"] b
    by (auto simp: r_def c'_def statusRow_def clocked_def transitionPatch_def foldPause_def stampTransition_def pausedMinutesAfter_def)
next
  case False
  then obtain ms n where "tk_slaPausedAt t = None" "c = (None, ms, n)" using assms(2,3) by (cases c) (auto simp: ticket_ok_def)
  then show ?thesis using False assms(1)
    by (auto simp: r_def c'_def statusRow_def clocked_def transitionPatch_def foldPause_def stampTransition_def)
qed

lemma on_clock_life: "life t = life r \<Longrightarrow> on_clock now b t = on_clock now b r"
  by (simp add: on_clock_def life_def)

lemma on_clock_simps [simp]:
  "on_clock now (b \<lparr> bd_tickets := ts \<rparr>) t = on_clock now b t" "on_clock now (b \<lparr> bd_next := n \<rparr>) t = on_clock now b t"
  "on_clock now (b \<lparr> bd_breaches := bs \<rparr>) t = on_clock now b t" "on_clock now b (stampBreach k m r) = on_clock now b r"
  by (simp_all add: on_clock_def)

lemma on_clock_feed: "on_clock now (b \<lparr> bd_feed := fs, bd_tickets := ts \<rparr>) t = on_clock now (b \<lparr> bd_feed := fs \<rparr>) t"
  by (simp add: on_clock_def)

lemma on_clock_other: "tk_id t \<noteq> i \<Longrightarrow> on_clock now (b \<lparr> bd_feed := bd_feed b @ [statusRow i x y m] \<rparr>) t = on_clock now b t"
  by (simp add: on_clock_def pauses_snoc statusRow_def)

lemma on_clock_relabel: "on_clock now b t \<Longrightarrow> on_clock now (b \<lparr> bd_feed := bd_feed b @ [statusRow i x x m] \<rparr>) t"
  by (cases "pauses (tk_id t) (bd_feed b)") (auto simp: on_clock_def pauses_snoc statusRow_def)

lemma board_move_clock:
  assumes "board_move now b c" "timed_ok now b" "0 \<le> now" "now < 2 ^ 53"
  shows "timed_ok now c"
proof -
  have ok: "board_ok b" and clock: "\<And>t. t \<in> set (bd_tickets b) \<Longrightarrow> on_clock now b t" using assms(2) by (auto simp: timed_ok_def)
  have "on_clock now c r" if r: "r \<in> set (bd_tickets c)" for r
    using assms(1)
  proof cases
    case (retouch ts n)
    then have "r \<in> set ts" using r by simp
    then obtain t where t: "t \<in> set (bd_tickets b)" "life r = life t" using life_row[OF retouch(2)] by blast
    show ?thesis using clock[OF t(1)] on_clock_life[OF t(2)] by (simp add: retouch(1))
  next
    case (relabel t)
    then show ?thesis using clock on_clock_relabel that by auto
  next
    case (raised t)
    have "filter (\<lambda>f. fst f = bd_next b) (bd_feed b) = []" using board_okD(4)[OF ok] by (fastforce simp: filter_empty_conv)
    then have "on_clock now b t" using raised(2,3) assms(3) by (auto simp: on_clock_def clocked_def pauses_def fresh_ticket_def life_def)
    then show ?thesis using that clock raised(1) by (auto simp: set_insertRow)
  next
    case (picked_up t)
    then have "r \<in> set (updateWhere (\<lambda>r. tk_id r = tk_id t) (\<lambda>r. r \<lparr> tk_status := Tk_open \<rparr>) (bd_tickets b))" using that by simp
    then show ?thesis using clock picked_up(1) clock[OF picked_up(2)] by (elim update_one[OF ok picked_up(2)]) (auto simp: on_clock_def)
  next
    case (answered t)
    then have "r \<in> set (updateWhere (\<lambda>r. tk_id r = tk_id t) (\<lambda>r. r \<lparr> tk_status := Tk_open, tk_resolvedAt := None \<rparr>) (bd_tickets b))" using that by simp
    then show ?thesis using clock answered(1) clock[OF answered(2)] by (elim update_one[OF ok answered(2)]) (auto simp: on_clock_def)
  next
    case (changed t st sid opts u)
    then have "r \<in> set (updateWhere (\<lambda>r. tk_id r = tk_id t) (transitionPatch t st sid opts u now) (bd_tickets b))" using that by simp
    then show ?thesis
    proof (rule update_one[OF ok changed(2)])
      assume "r = transitionPatch t st sid opts u now t"
      then show ?thesis using clocked_change[of now t "pauses (tk_id t) (bd_feed b)"] clock[OF changed(2)] board_okD(3)[OF ok changed(2)] assms(4) changed(1)
        by (simp add: on_clock_def pauses_snoc) (simp add: statusRow_def)
    next
      assume "r \<in> set (bd_tickets b)" "tk_id r \<noteq> tk_id t"
      then show ?thesis using clock on_clock_other changed(1) by (simp add: on_clock_def pauses_snoc statusRow_def)
    qed
  next
    case (breached D k A)
    then show ?thesis using that clock by (auto simp: set_updateWhere on_clock_def)
  qed
  then show ?thesis using board_move_ok[OF assms(1) ok] by (simp add: timed_ok_def)
qed

lemma board_moves_clock: "(board_move now)\<^sup>*\<^sup>* b c \<Longrightarrow> timed_ok now b \<Longrightarrow> 0 \<le> now \<Longrightarrow> now < 2 ^ 53 \<Longrightarrow> timed_ok now c"
  by (induction rule: rtranclp_induct) (auto intro: board_move_clock)

text \<open>What the monitor sees of a running clock.\<close>

lemma breachDue_accurate:
  assumes "on_clock now b t" "ticket_ok t" "tk_status t = Tk_new \<or> tk_status t = Tk_open" "\<not> targetMet k t" "targetMinutes k t = Some m"
    and "targetText k \<notin> set (splitOn (CHR '','') (nullish (tk_slaBreachReason t) []))"
  defines "active \<equiv> now - tk_createdAt t - pausedMs (tk_id t) (bd_feed b)"
  shows "60000 * m \<le> active \<Longrightarrow> breachDue k now t"
    and "breachDue k now t \<Longrightarrow> 60000 * m - 59999 * int (pauseCount (tk_id t) (bd_feed b)) \<le> active"
  using assms(1-6) unfolding active_def
  by (auto simp: breachDue_def on_clock_def clocked_def pausedMs_def pauseCount_def ticket_ok_def isPaused_def split: prod.splits)

section \<open>Services over the board\<close>

text \<open>Runs of a service with a clock that never goes back.\<close>

inductive timed_run :: "(instant \<Rightarrow> db \<Rightarrow> db \<Rightarrow> bool) \<Rightarrow> instant \<Rightarrow> db \<Rightarrow> instant \<Rightarrow> db \<Rightarrow> bool"
  for step :: "instant \<Rightarrow> db \<Rightarrow> db \<Rightarrow> bool" and m :: instant and s :: db where
  start: "timed_run step m s m s"
| call: "timed_run step m s n t \<Longrightarrow> step n t u \<Longrightarrow> n < 2 ^ 53 \<Longrightarrow> timed_run step m s n u"
| wait: "timed_run step m s n t \<Longrightarrow> n \<le> k \<Longrightarrow> timed_run step m s k t"

definition anytime :: "(instant \<Rightarrow> db \<Rightarrow> db \<Rightarrow> bool) \<Rightarrow> db \<Rightarrow> db \<Rightarrow> bool" where
  "anytime step s t \<longleftrightarrow> (\<exists>now. step now s t)"

text \<open>Comments carry their position as identifier, so that an edit reaches one comment.\<close>

definition keyed_feed :: "db \<Rightarrow> bool" where
  "keyed_feed s \<longleftrightarrow> map tcm_id (db_ticketComments s) = [0..<length (db_ticketComments s)]"

definition desk_ok :: "db \<Rightarrow> bool" where
  "desk_ok s \<longleftrightarrow> board_ok (boardOf s) \<and> keyed_feed s"

definition desk_moves :: "instant \<Rightarrow> db \<Rightarrow> db \<Rightarrow> bool" where
  "desk_moves now s t \<longleftrightarrow> (desk_ok s \<longrightarrow> (board_move now)\<^sup>*\<^sup>* (boardOf s) (boardOf t) \<and> keyed_feed t)"

lemma desk_moves_ok: "desk_moves now s t \<Longrightarrow> desk_ok s \<Longrightarrow> desk_ok t"
  using board_moves_ok by (auto simp: desk_moves_def desk_ok_def)

locale desk_client =
  fixes step :: "instant \<Rightarrow> db \<Rightarrow> db \<Rightarrow> bool"
  assumes step_moves: "step now s t \<Longrightarrow> desk_moves now s t"
begin

lemma reaches_ok: "(anytime step)\<^sup>*\<^sup>* s t \<Longrightarrow> desk_ok s \<Longrightarrow> desk_ok t"
proof (induction rule: rtranclp_induct)
  case (step t u)
  then obtain now where "step now t u" by (auto simp: anytime_def)
  then show ?case using step desk_moves_ok step_moves by blast
qed

lemma run_ok:
  "timed_run step m s n t \<Longrightarrow> desk_ok s \<Longrightarrow> timed_ok m (boardOf s) \<Longrightarrow> 0 \<le> m \<Longrightarrow> desk_ok t \<and> timed_ok n (boardOf t) \<and> 0 \<le> n"
proof (induction rule: timed_run.induct)
  case (call n t u)
  note m = step_moves[OF call(2)]
  then have "(board_move n)\<^sup>*\<^sup>* (boardOf t) (boardOf u)" using call by (simp add: desk_moves_def)
  then show ?case using call board_moves_clock desk_moves_ok[OF m] by blast
qed (auto intro: timed_ok_mono)

end

end
