(* ===== verification/TicketRefinement.thy ===== *)
theory TicketRefinement
  imports TicketBoard
begin

text \<open>
  The ticket service implements the board. \<open>ticket_call\<close> is one call of the ticket service, of its settings, of
  the review queue, of the mail worker, of the notifications or of the monitor; every call is a sequence of moves of the board (\<open>TicketBoard\<close>) and
  leaves the billing ledger as it is. The time tracking writes to the same feed; \<open>desk_step\<close> is a call of either.
\<close>

section \<open>What calls leave alone\<close>

definition elsewhere :: "db \<Rightarrow> db" where
  "elsewhere s = s \<lparr> db_next := 0, db_tickets := [], db_orgTicketSettings := [], db_ticketComments := [], db_ticketSequences := [],
     db_ticketStatuses := [], db_prioritySettings := [], db_alertLinks := [], db_inboundEmails := [], db_emailDomains := [], db_portalUsers := [],
     db_userNotifications := [], db_events := [] \<rparr>"

definition desk_only :: "db \<Rightarrow> db \<Rightarrow> bool" where
  "desk_only s t \<longleftrightarrow> elsewhere t = elsewhere s \<and> db_next s \<le> db_next t"

lemma elsewhere_simps [simp]:
  "elsewhere (emit e s) = elsewhere s" "elsewhere (insertComment c s) = elsewhere s" "elsewhere (updateTickets P f s) = elsewhere s"
  "elsewhere (feedbackIf x v t a s) = elsewhere s" "elsewhere (s \<lparr> db_next := n \<rparr>) = elsewhere s" "elsewhere (s \<lparr> db_tickets := ts \<rparr>) = elsewhere s"
  "elsewhere (s \<lparr> db_orgTicketSettings := os \<rparr>) = elsewhere s" "elsewhere (s \<lparr> db_ticketComments := cs \<rparr>) = elsewhere s"
  "elsewhere (s \<lparr> db_ticketSequences := qs \<rparr>) = elsewhere s" "elsewhere (s \<lparr> db_ticketStatuses := ss \<rparr>) = elsewhere s"
  "elsewhere (s \<lparr> db_prioritySettings := ps \<rparr>) = elsewhere s" "elsewhere (s \<lparr> db_alertLinks := ls \<rparr>) = elsewhere s"
  "elsewhere (s \<lparr> db_inboundEmails := es \<rparr>) = elsewhere s" "elsewhere (s \<lparr> db_emailDomains := ds \<rparr>) = elsewhere s"
  "elsewhere (s \<lparr> db_portalUsers := us \<rparr>) = elsewhere s" "elsewhere (s \<lparr> db_userNotifications := ns \<rparr>) = elsewhere s"
  by (simp_all add: elsewhere_def emit_def insertComment_def updateTickets_def feedbackIf_def)

lemma next_simps [simp]:
  "db_next (insertComment c s) = db_next s" "db_next (updateTickets P f s) = db_next s" "db_next (feedbackIf x v t a s) = db_next s"
  by (simp_all add: insertComment_def updateTickets_def feedbackIf_def)

lemma tickets_simps [simp]:
  "db_tickets (insertComment c s) = db_tickets s" "db_tickets (feedbackIf x v t a s) = db_tickets s"
  "db_tickets (updateTickets P f s) = updateWhere P f (db_tickets s)"
  by (simp_all add: insertComment_def updateTickets_def feedbackIf_def)

lemma statuses_simps [simp]:
  "db_ticketStatuses (insertComment c s) = db_ticketStatuses s" "db_ticketStatuses (feedbackIf x v t a s) = db_ticketStatuses s"
  "db_ticketStatuses (updateTickets P f s) = db_ticketStatuses s"
  by (simp_all add: insertComment_def updateTickets_def feedbackIf_def)

lemma desk_only_refl [simp]: "desk_only s s"
  by (simp add: desk_only_def)

lemma desk_only_trans [trans]: "desk_only s t \<Longrightarrow> desk_only t u \<Longrightarrow> desk_only s u"
  by (simp add: desk_only_def)

lemma elsewhereD:
  assumes "elsewhere t = elsewhere s"
  shows "db_organizations t = db_organizations s" "db_devices t = db_devices s" "db_users t = db_users s" "db_ticketCategories t = db_ticketCategories s"
    "db_timeEntries t = db_timeEntries s" "db_ticketParts t = db_ticketParts s" "db_invoices t = db_invoices s"
    "db_invoiceLines t = db_invoiceLines s" "db_invoicePayments t = db_invoicePayments s" "db_invoiceSequences t = db_invoiceSequences s"
    "db_stripePayments t = db_stripePayments s"
  using arg_cong[OF assms, of db_organizations] arg_cong[OF assms, of db_devices] arg_cong[OF assms, of db_users]
    arg_cong[OF assms, of db_ticketCategories] arg_cong[OF assms, of db_timeEntries]
    arg_cong[OF assms, of db_ticketParts] arg_cong[OF assms, of db_invoices] arg_cong[OF assms, of db_invoiceLines]
    arg_cong[OF assms, of db_invoicePayments] arg_cong[OF assms, of db_invoiceSequences] arg_cong[OF assms, of db_stripePayments]
  by (simp_all add: elsewhere_def)

lemma desk_only_more_work:
  assumes "desk_only s t"
  shows "more_work s t"
proof -
  note e = elsewhereD[OF conjunct1[OF assms[unfolded desk_only_def]]]
  have "db_next s \<le> db_next t" using assms by (simp add: desk_only_def)
  then show ?thesis by (auto simp: more_work_def work_only_def same_tables_def knownSources_def billedSources_def e intro: key_ok_mono)
qed

section \<open>Calls and boards\<close>

lemma breachOf_simps [simp]:
  "breachOf (TicketEvent (Ev_ticket_created n v u q) i g p a) = []" "breachOf (TicketEvent (Ev_ticket_status_changed x y note) i g p a) = []"
  "breachOf (TicketEvent (Ev_ticket_assigned u) i g p a) = []" "breachOf (TicketEvent (Ev_ticket_commented c d f) i g p a) = []"
  "breachOf (TicketEvent (Ev_ticket_updated ks) i g p a) = []" "breachOf (TicketEvent (Ev_ticket_autoresponse v m w) i g p a) = []" "breachOf (TriageFeedback v i g j) = []" "breachOf (BusPublish et i g) = []"
  "breachOf (TicketEvent (Ev_ticket_sla_breached k m v u) i g p a) = [(i, k)]" "breachOf (TimeEntryEvent te i g p j) = []"
  by (simp_all add: breachOf_def)

lemma boardOf_sel [simp]:
  "bd_next (boardOf s) = db_next s" "bd_tickets (boardOf s) = db_tickets s" "bd_feed (boardOf s) = feedOf (db_ticketComments s)"
  "bd_breaches (boardOf s) = concat (map breachOf (db_events s))"
  by (simp_all add: boardOf_def)

lemma boardOf_emit [simp]: "breachOf e = [] \<Longrightarrow> boardOf (emit e s) = boardOf s"
  by (simp add: boardOf_def)

lemma boardOf_feedback [simp]: "boardOf (feedbackIf x v t a s) = boardOf s"
  by (simp add: feedbackIf_def)

lemma feedLine_sel [simp]:
  "tcm_commentType (feedLine i a ct v x y now) = ct" "tcm_ticketId (feedLine i a ct v x y now) = i"
  "tcm_oldValue (feedLine i a ct v x y now) = x" "tcm_newValue (feedLine i a ct v x y now) = y" "tcm_createdAt (feedLine i a ct v x y now) = now"
  by (simp_all add: feedLine_def)

lemma feedOf_snoc: "feedOf (insertRow (c \<lparr> tcm_id := i \<rparr>) cs) = feedOf cs @ (if tcm_commentType c = Com_status_change
    then [(tcm_ticketId c, tcm_oldValue c, tcm_newValue c, tcm_createdAt c)] else [])"
  by (simp add: feedOf_def insertRow_def)

lemma boardOf_comment: "boardOf (insertComment c s) = boardOf s \<lparr> bd_feed := feedOf (db_ticketComments s) @ (if tcm_commentType c = Com_status_change
    then [(tcm_ticketId c, tcm_oldValue c, tcm_newValue c, tcm_createdAt c)] else []) \<rparr>"
  by (simp add: boardOf_def insertComment_def feedOf_snoc)

lemma boardOf_plain [simp]: "tcm_commentType c \<noteq> Com_status_change \<Longrightarrow> boardOf (insertComment c s) = boardOf s"
  unfolding boardOf_comment by (simp add: boardOf_def)

lemma feed_simps [simp]:
  "tcm_commentType c \<noteq> Com_status_change \<Longrightarrow> feedOf (db_ticketComments (insertComment c s)) = feedOf (db_ticketComments s)"
  "db_ticketComments (updateTickets P f s) = db_ticketComments s" "db_events (insertComment c s) = db_events s" "db_events (updateTickets P f s) = db_events s"
  by (simp_all add: insertComment_def feedOf_snoc updateTickets_def)

lemma boardOf_tickets [simp]: "boardOf (updateTickets P f s) = boardOf s \<lparr> bd_tickets := updateWhere P f (db_tickets s) \<rparr>"
  by (simp add: boardOf_def updateTickets_def)

lemma keyed_feed_simps [simp]:
  "keyed_feed (emit e s) = keyed_feed s" "keyed_feed (insertComment c s) = keyed_feed s" "keyed_feed (updateTickets P f s) = keyed_feed s"
  "keyed_feed (feedbackIf x v t a s) = keyed_feed s" "keyed_feed (s \<lparr> db_tickets := ts \<rparr>) = keyed_feed s" "keyed_feed (s \<lparr> db_next := n \<rparr>) = keyed_feed s"
  "keyed_feed (s \<lparr> db_alertLinks := ls \<rparr>) = keyed_feed s" "keyed_feed (s \<lparr> db_ticketSequences := qs \<rparr>) = keyed_feed s"
  by (simp_all add: keyed_feed_def insertComment_def insertRow_def updateTickets_def feedbackIf_def)

lemma keyed_feed_same: "db_ticketComments t = db_ticketComments s \<Longrightarrow> keyed_feed t = keyed_feed s"
  by (simp add: keyed_feed_def)

lemma desk_moves_refl [simp]: "desk_moves now s s"
  by (simp add: desk_moves_def desk_ok_def)

lemma desk_moves_trans: "desk_moves now s t \<Longrightarrow> desk_moves now t u \<Longrightarrow> desk_moves now s u"
  using desk_moves_ok[of now s t] unfolding desk_moves_def by (meson rtranclp_trans)

lemma desk_moves_one:
  assumes "desk_ok s \<Longrightarrow> board_move now (boardOf s) (boardOf t)" "keyed_feed s \<Longrightarrow> keyed_feed t"
  shows "desk_moves now s t"
  using assms by (auto simp: desk_moves_def desk_ok_def)

text \<open>A call that changes no column of the lives of tickets.\<close>

lemma desk_moves_retouch:
  assumes "map life (db_tickets t) = map life (db_tickets s)" "db_next s \<le> db_next t" "concat (map breachOf (db_events t)) = concat (map breachOf (db_events s))"
    "keyed_feed s \<Longrightarrow> feedOf (db_ticketComments t) = feedOf (db_ticketComments s)" "keyed_feed s \<Longrightarrow> keyed_feed t"
  shows "desk_moves now s t"
proof (rule desk_moves_one[OF _ assms(5)])
  assume "desk_ok s"
  then have "boardOf t = boardOf s \<lparr> bd_next := db_next t, bd_tickets := db_tickets t \<rparr>" using assms(3,4) by (simp add: boardOf_def desk_ok_def)
  then show "board_move now (boardOf s) (boardOf t)" using assms(1,2) by (simp add: board_move.retouch)
qed

lemma desk_moves_still:
  assumes "db_tickets t = db_tickets s" "db_next s \<le> db_next t" "db_events t = db_events s" "db_ticketComments t = db_ticketComments s"
  shows "desk_moves now s t"
  using assms by (intro desk_moves_retouch) (simp_all add: keyed_feed_def)

subsection \<open>New tickets\<close>

lemma allocate_eq:
  "allocateInternalTicketNumber p year s = Inr (n, t) \<Longrightarrow> \<exists>q. t = s \<lparr> db_ticketSequences := q \<rparr>"
  by (auto simp: allocateInternalTicketNumber_def guard_simps split: prod.splits)

lemma insertTicket_eq:
  "insertTicket r s = Inr t \<Longrightarrow> t = s \<lparr> db_next := Suc (db_next s), db_tickets := insertRow r (db_tickets s) \<rparr>"
  by (auto simp: insertTicket_def guard_simps)

lemma createTicket_eq:
  assumes "createTicket input a v year now s = Inr (r, t)"
  obtains q e org where "t = emit e (s \<lparr> db_ticketSequences := q, db_next := Suc (db_next s), db_tickets := insertRow r (db_tickets s) \<rparr>)"
    "breachOf e = []" "fresh_ticket now r" "tk_id r = db_next s" "orgOf s (cti_orgId input) = Some org"
    "tk_orgId r = cti_orgId input" "tk_partnerId r = Some (org_partnerId org)" "tk_assignedTo r = cti_assigneeId input"
    "tk_categoryId r = cti_categoryId input" "tk_deviceId r = cti_deviceId input" "tk_submittedBy r \<noteq> None \<longrightarrow> cti_submittedBy input \<noteq> None"
    "\<And>u. cti_assigneeId input = Some u \<Longrightarrow> assertAssigneeInPartner u (Some (org_partnerId org)) s = Inr ()"
    "\<And>c. cti_categoryId input = Some c \<Longrightarrow> \<exists>x. assertCategoryInPartner c (Some (org_partnerId org)) s = Inr x"
    "\<And>d. cti_deviceId input = Some d \<Longrightarrow> assertDeviceInOrg d (cti_orgId input) s = Inr ()"
proof -
  obtain org x y z rq n s1 s2 where c: "orgOf s (cti_orgId input) = Some org"
    "whenGiven (cti_deviceId input) (\<lambda>d. assertDeviceInOrg d (cti_orgId input) s) = Inr x"
    "whenGiven (cti_assigneeId input) (\<lambda>u. assertAssigneeInPartner u (Some (org_partnerId org)) s) = Inr y"
    "whenGiven (cti_categoryId input) (\<lambda>c. assertCategoryInPartner c (Some (org_partnerId org)) s) = Inr z"
    "resolveRequester input a s = Inr rq" "allocateInternalTicketNumber (org_partnerId org) year s = Inr (n, s1)"
    and r: "insertTicket r s1 = Inr s2" "tk_id r = db_next s1" "fresh_ticket now r" "tk_submittedBy r = fst rq"
    "tk_orgId r = cti_orgId input" "tk_partnerId r = Some (org_partnerId org)" "tk_assignedTo r = cti_assigneeId input"
    "tk_categoryId r = cti_categoryId input" "tk_deviceId r = cti_deviceId input"
    "t = emit (TicketEvent (Ev_ticket_created n (cti_subject input) (cti_assigneeId input) (cti_source input))
       (tk_id r) (cti_orgId input) (Some (org_partnerId org)) (Some (tka_userId a))) s2"
    using assms unfolding createTicket_def Let_def
    by (auto simp: bindE_eq_Inr ofOption_eq_Inr fresh_ticket_def life_def split: prod.splits)
  obtain q where q: "s1 = s \<lparr> db_ticketSequences := q \<rparr>" using allocate_eq[OF c(6)] by blast
  have rq: "fst rq \<noteq> None \<longrightarrow> cti_submittedBy input \<noteq> None"
    using c(5) by (auto simp: resolveRequester_def guard_simps split: if_splits option.splits)
  show thesis
    by (rule that[OF _ _ r(3) _ c(1) r(5-9)])
       (use r(1,2,4,10) c(2-4) rq in \<open>auto simp: q insertTicket_eq[OF r(1)] whenGiven_def guard_simps split: option.splits\<close>)
qed

lemma create_frame:
  assumes "createTicket input a v year now s = Inr (r, t)"
  shows "desk_only s t" "desk_moves now s t"
proof -
  obtain q e where t: "t = emit e (s \<lparr> db_ticketSequences := q, db_next := Suc (db_next s), db_tickets := insertRow r (db_tickets s) \<rparr>)"
    "breachOf e = []" "fresh_ticket now r" "tk_id r = db_next s"
    using assms by (rule createTicket_eq)
  show "desk_only s t" by (simp add: t(1) desk_only_def)
  have "boardOf t = boardOf s \<lparr> bd_next := Suc (bd_next (boardOf s)), bd_tickets := insertRow r (bd_tickets (boardOf s)) \<rparr>"
    using t(2) by (simp add: t(1) boardOf_def)
  then show "desk_moves now s t" using board_move.raised[OF t(3), of "boardOf s"] t(4) by (intro desk_moves_one) (simp_all add: t(1))
qed

subsection \<open>Status changes\<close>

lemma ticketOf_mem: "getTicketOrThrow i s = Inr r \<Longrightarrow> r \<in> set (db_tickets s) \<and> tk_id r = i"
  by (auto simp: getTicketOrThrow_def ticketOf_def guard_simps dest: selectOne_Some)

lemma casTicket_eq: "casTicket P f s = Inr (r, t) \<Longrightarrow> t = updateTickets P f s \<and> (\<exists>q. selectOne P (db_tickets s) = Some q \<and> r = f q)"
  by (auto simp: casTicket_def split: option.splits)

definition transitionLine :: "ticket \<Rightarrow> ticket_status \<Rightarrow> ticket_actor \<Rightarrow> string \<Rightarrow> instant \<Rightarrow> ticket_comment" where
  "transitionLine r st a v now = feedLine (tk_id r) a Com_status_change v (Some (Fv_status (tk_status r))) (Some (Fv_status st)) now"

lemma changeTicketStatus_cases:
  assumes "changeTicketStatus i target opts a now s = Inr (q, t)"
  obtains (same) "t = s"
  | (relabel) r sid x where "r \<in> set (db_tickets s)"
      "t = updateTickets (\<lambda>p. tk_id p = tk_id r \<and> tk_status p = tk_status r \<and> tk_statusId p = tk_statusId r) (\<lambda>p. p \<lparr> tk_statusId := sid, tk_updatedAt := now \<rparr>) s \<or>
       t = insertComment (transitionLine r (tk_status r) a x now)
         (updateTickets (\<lambda>p. tk_id p = tk_id r \<and> tk_status p = tk_status r \<and> tk_statusId p = tk_statusId r) (\<lambda>p. p \<lparr> tk_statusId := sid, tk_updatedAt := now \<rparr>) s)"
  | (change) r st sid x e where "r \<in> set (db_tickets s)" "tk_id r = i" "st \<in> set (TICKET_STATUS_TRANSITIONS (tk_status r))" "breachOf e = []"
      "t = emit e (insertComment (transitionLine r st a x now)
        (updateTickets (\<lambda>p. tk_id p = i \<and> tk_status p = tk_status r) (transitionPatch r st sid opts (tka_userId a) now) s))"
proof -
  obtain r st sid name where r: "getTicketOrThrow i s = Inr r" "resolveTarget target (resolveTicketPartnerId r s) s = Inr (st, sid, name)"
    using assms unfolding changeTicketStatus_def by (auto simp: bindE_eq_Inr)
  note m = ticketOf_mem[OF r(1)]
  note body = assms[unfolded changeTicketStatus_def, simplified r bindE_simps prod.case]
  show thesis
  proof (cases "st = tk_status r")
    case True
    then show thesis using body m same relabel[of r sid]
      by (auto simp: relabelTicket_def bindE_eq_Inr transitionLine_def dest!: casTicket_eq split: if_splits option.splits)
  next
    case False
    define e where "e = TicketEvent (Ev_ticket_status_changed (tk_status r) st (sto_resolutionNote opts)) i (tk_orgId r) (tk_partnerId r) (Some (tka_userId a))"
    define x where "x = nullish (orElse (sto_resolutionNote opts) (orElse (sto_pendingReason opts) name)) []"
    have "breachOf e = []" by (simp add: e_def)
    moreover obtain r' s1 where "st \<in> set (TICKET_STATUS_TRANSITIONS (tk_status r))"
      "casTicket (\<lambda>p. tk_id p = i \<and> tk_status p = tk_status r) (transitionPatch r st sid opts (tka_userId a) now) s = Inr (r', s1)"
      "t = emit e (insertComment (transitionLine r st a x now) s1)"
      using body m False by (auto simp: bindE_eq_Inr guardE_eq_Inr transitionLine_def e_def x_def)
    ultimately show thesis using change[of r st e x sid] m by (auto dest: casTicket_eq)
  qed
qed

lemma map_life_update: "(\<And>r. life (f r) = life r) \<Longrightarrow> map life (updateWhere P f ts) = map life ts"
  by (rule map_updateWhere) simp

lemma update_key:
  assumes "key_ok tk_id n ts" "r \<in> set ts" "P r"
  shows "updateWhere (\<lambda>q. tk_id q = tk_id r \<and> P q) f ts = updateWhere (\<lambda>q. tk_id q = tk_id r) f ts"
  using key_ok_unique[OF assms(1) _ assms(2)] assms(3) by (auto simp: updateWhere_def)

lemma status_frame:
  assumes "changeTicketStatus i target opts a now s = Inr (q, t)"
  shows "desk_only s t" "desk_moves now s t"
proof -
  show "desk_only s t" using assms by (cases rule: changeTicketStatus_cases) (auto simp: desk_only_def)
  show "desk_moves now s t" using assms
  proof (cases rule: changeTicketStatus_cases)
    case same
    then show ?thesis by simp
  next
    case (relabel r sid x)
    let ?u = "updateTickets (\<lambda>p. tk_id p = tk_id r \<and> tk_status p = tk_status r \<and> tk_statusId p = tk_statusId r) (\<lambda>p. p \<lparr> tk_statusId := sid, tk_updatedAt := now \<rparr>) s"
    have u: "desk_moves now s ?u" by (rule desk_moves_retouch) (simp_all add: updateTickets_def map_life_update life_def)
    let ?r = "r \<lparr> tk_statusId := sid, tk_updatedAt := now \<rparr>"
    have r': "?r \<in> set (db_tickets ?u)" "life ?r = life r"
      using relabel(1) by (simp_all add: updateTickets_def set_updateWhere life_def image_eqI[of _ _ r])
    have "board_move now (boardOf ?u) (boardOf (insertComment (transitionLine r (tk_status r) a x now) ?u))"
      using board_move.relabel[of ?r "boardOf ?u" now] r' life_eqD(1,2)[OF r'(2)]
      unfolding boardOf_comment by (simp add: transitionLine_def statusRow_def updateTickets_def boardOf_def)
    then have "desk_moves now ?u (insertComment (transitionLine r (tk_status r) a x now) ?u)" by (rule desk_moves_one) simp
    then show ?thesis using relabel(2) u desk_moves_trans[OF u] by blast
  next
    case (change r st sid x e)
    show ?thesis
    proof (rule desk_moves_one)
      assume "desk_ok s"
      then have "key_ok tk_id (db_next s) (db_tickets s)" using board_okD(1) by (fastforce simp: desk_ok_def)
      from update_key[OF this change(1), of "\<lambda>p. tk_status p = tk_status r"] change(2,4)
      have "boardOf t = boardOf s \<lparr> bd_tickets := updateWhere (\<lambda>p. tk_id p = tk_id r) (transitionPatch r st sid opts (tka_userId a) now) (bd_tickets (boardOf s)),
          bd_feed := bd_feed (boardOf s) @ [statusRow (tk_id r) (tk_status r) st now] \<rparr>"
        by (simp add: change(5) boardOf_comment) (simp add: transitionLine_def statusRow_def updateTickets_def)
      then show "board_move now (boardOf s) (boardOf t)" using board_move.changed[of r "boardOf s" st now sid opts "tka_userId a"] change(1,3) by simp
    qed (simp add: change(5))
  qed
qed

subsection \<open>Fields, assignment, comments\<close>

lemma updateTicketFields_eq:
  assumes "updateTicketFields i f a now s = Inr (q, t)"
  obtains (same) "t = s"
  | (patched) r p where "r \<in> set (db_tickets s)" "tk_id r = i" "requesterPatch f r s = Inr p"
      "elsewhere t = elsewhere s" "db_next t = db_next s \<and> db_ticketStatuses t = db_ticketStatuses s"
      "db_tickets t = updateWhere (\<lambda>r. tk_id r = i) (patchTicket f p now) (db_tickets s)"
      "boardOf t = boardOf s \<lparr> bd_tickets := updateWhere (\<lambda>r. tk_id r = i) (patchTicket f p now) (db_tickets s) \<rparr>" "keyed_feed t = keyed_feed s"
      "\<And>d. ufi_deviceId f = Some (Some d) \<Longrightarrow> assertDeviceInOrg d (tk_orgId r) s = Inr ()"
      "\<And>c. ufi_categoryId f = Some (Some c) \<Longrightarrow> \<exists>x. assertCategoryInPartner c (resolveTicketPartnerId r s) s = Inr x"
proof -
  obtain r x y p where r: "getTicketOrThrow i s = Inr r"
    "(case ufi_deviceId f of Some (Some d) \<Rightarrow> assertDeviceInOrg d (tk_orgId r) s | _ \<Rightarrow> Inr ()) = Inr x"
    "(case ufi_categoryId f of Some (Some c) \<Rightarrow> bindE (assertCategoryInPartner c (resolveTicketPartnerId r s) s) (\<lambda>_. Inr ()) | _ \<Rightarrow> Inr ()) = Inr y"
    "requesterPatch f r s = Inr p"
    using assms unfolding updateTicketFields_def by (auto simp: bindE_eq_Inr)
  note m = ticketOf_mem[OF r(1)]
  note body = assms[unfolded updateTicketFields_def, simplified r bindE_simps Let_def]
  show thesis
  proof (cases "t = s")
    case False
    with body obtain x y v ks where eq: "t = feedbackIf x ''ticket.priority_changed'' r a (feedbackIf y ''ticket.category_changed'' r a
        (emit (TicketEvent (Ev_ticket_updated ks) i (tk_orgId r) (tk_partnerId r) (Some (tka_userId a)))
          (insertComment (feedLine i a Com_system v None None now) (updateTickets (\<lambda>r. tk_id r = i) (patchTicket f p now) s))))"
      by (auto split: if_splits)
    then have t: "elsewhere t = elsewhere s" "db_next t = db_next s \<and> db_ticketStatuses t = db_ticketStatuses s" "db_tickets t = updateWhere (\<lambda>r. tk_id r = i) (patchTicket f p now) (db_tickets s)"
      "boardOf t = boardOf s \<lparr> bd_tickets := updateWhere (\<lambda>r. tk_id r = i) (patchTicket f p now) (db_tickets s) \<rparr>" "keyed_feed t = keyed_feed s"
      by simp_all
    show thesis
      by (rule patched[OF _ _ r(4) t]) (use m r(2,3) in \<open>auto simp: bindE_eq_Inr\<close>)
  qed (rule same)
qed

lemma fields_frame:
  assumes "updateTicketFields i f a now s = Inr (q, t)"
  shows "desk_only s t" "desk_moves now s t"
proof -
  show "desk_only s t" using assms by (cases rule: updateTicketFields_eq) (simp_all add: desk_only_def)
  show "desk_moves now s t" using assms
  proof (cases rule: updateTicketFields_eq)
    case (patched r p)
    have "map life (db_tickets t) = map life (db_tickets s)" by (simp add: patched(6) map_life_update life_def patchTicket_def)
    then have "board_move now (boardOf s) (boardOf t)"
      using board_move.retouch[of "db_tickets t" "boardOf s" "db_next s" now] patched(6,7) by (simp add: boardOf_def)
    then show ?thesis using patched(8) by (intro desk_moves_one) simp_all
  qed simp
qed

lemma assignWrite_eq:
  assumes "assignWrite r u a now s = Inr (q, t)"
  obtains v x y where "t = feedbackIf True v r a (emit (TicketEvent (Ev_ticket_assigned u) (tk_id r) (tk_orgId r) (tk_partnerId r) (Some (tka_userId a))) (insertComment (feedLine (tk_id r) a Com_assignment [] x y now)
    (updateTickets (\<lambda>p. tk_id p = tk_id r \<and> tk_assignedTo p = tk_assignedTo r) (assignPatch r u now) s)))"
  using assms unfolding assignWrite_def by (elim bindE_InrE) (auto simp: bindE_eq_Inr dest!: casTicket_eq)

lemma assignTicket_eq:
  assumes "assignTicket i u a now s = Inr (q, t)"
  obtains r where "r \<in> set (db_tickets s)" "tk_id r = i" "assignWrite r u a now s = Inr (q, t)"
    "\<And>x. u = Some x \<Longrightarrow> assertAssigneeInPartner x (resolveTicketPartnerId r s) s = Inr ()"
  using assms unfolding assignTicket_def assignRead_def
  by (auto simp: bindE_eq_Inr whenGiven_def split: option.splits dest!: ticketOf_mem)

lemma assign_frame:
  assumes "assignTicket i u a now s = Inr (q, t)"
  shows "desk_only s t" "desk_moves now s t"
proof -
  obtain r where r: "r \<in> set (db_tickets s)" "tk_id r = i" and w: "assignWrite r u a now s = Inr (q, t)" using assms by (rule assignTicket_eq)
  obtain v x y where t: "t = feedbackIf True v r a (emit (TicketEvent (Ev_ticket_assigned u) (tk_id r) (tk_orgId r) (tk_partnerId r) (Some (tka_userId a))) (insertComment (feedLine (tk_id r) a Com_assignment [] x y now)
    (updateTickets (\<lambda>p. tk_id p = tk_id r \<and> tk_assignedTo p = tk_assignedTo r) (assignPatch r u now) s)))"
    using w by (rule assignWrite_eq)
  show "desk_only s t" by (simp add: desk_only_def t)
  let ?ts = "updateWhere (\<lambda>p. tk_id p = tk_id r) (assignPatch r u now) (db_tickets s)"
  show "desk_moves now s t" unfolding desk_moves_def
  proof
    assume ok: "desk_ok s"
    then have "key_ok tk_id (db_next s) (db_tickets s)" using board_okD(1) by (fastforce simp: desk_ok_def)
    from update_key[OF this r(1), of "\<lambda>p. tk_assignedTo p = tk_assignedTo r"]
    have b: "boardOf t = boardOf s \<lparr> bd_tickets := ?ts \<rparr>" by (simp add: t)
    have "(board_move now)\<^sup>*\<^sup>* (boardOf s) (boardOf t)"
    proof (cases "u \<noteq> None \<and> tk_status r = Tk_new")
      case True
      let ?b = "boardOf s \<lparr> bd_tickets := updateWhere (\<lambda>p. tk_id p = tk_id r) (\<lambda>p. p \<lparr> tk_status := Tk_open \<rparr>) (bd_tickets (boardOf s)) \<rparr>"
      have "board_move now (boardOf s) ?b" using r True by (intro board_move.picked_up) simp_all
      moreover have "board_move now ?b (?b \<lparr> bd_next := db_next s, bd_tickets := ?ts \<rparr>)"
        using True by (intro board_move.retouch) (auto simp: updateWhere_def life_def assignPatch_def)
      ultimately show ?thesis using b by (simp add: boardOf_def)
    next
      case False
      then have "map life ?ts = map life (db_tickets s)" by (intro map_life_update) (auto simp: life_def assignPatch_def)
      then have "board_move now (boardOf s) (boardOf s \<lparr> bd_next := db_next s, bd_tickets := ?ts \<rparr>)" by (intro board_move.retouch) simp_all
      then show ?thesis using b by (simp add: boardOf_def)
    qed
    then show "(board_move now)\<^sup>*\<^sup>* (boardOf s) (boardOf t) \<and> keyed_feed t" using ok by (simp add: desk_ok_def t)
  qed
qed

lemma comment_frame:
  assumes "addTicketComment i v pub a now s = Inr (q, t)"
  shows "desk_only s t" "desk_moves now s t"
proof -
  obtain g p where t: "t = emit (TicketEvent (Ev_ticket_commented (length (db_ticketComments s)) pub False) i g p (Some (tka_userId a)))
        (insertComment ((feedLine i a (if pub then Com_comment else Com_internal) v None None now) \<lparr> tcm_isPublic := pub \<rparr>) s) \<or>
      t = emit (TicketEvent (Ev_ticket_commented (length (db_ticketComments s)) pub False) i g p (Some (tka_userId a))) (updateTickets (\<lambda>r. tk_id r = i) (\<lambda>r. r \<lparr> tk_firstResponseAt := Some now, tk_updatedAt := now \<rparr>)
        (insertComment ((feedLine i a (if pub then Com_comment else Com_internal) v None None now) \<lparr> tcm_isPublic := pub \<rparr>) s))"
    using assms unfolding addTicketComment_def Let_def by (auto simp: bindE_eq_Inr split: if_splits)
  then show "desk_only s t" by (auto simp: desk_only_def)
  show "desk_moves now s t" by (rule desk_moves_retouch) (use t in \<open>auto simp: map_life_update life_def\<close>)
qed

lemma feedOf_update:
  assumes "\<And>y. y \<in> set cs \<Longrightarrow> P y \<Longrightarrow> tcm_commentType y \<noteq> Com_status_change" "\<And>y. tcm_commentType (f y) = tcm_commentType y"
  shows "feedOf (updateWhere P f cs) = feedOf cs"
  using assms by (induction cs) (auto simp: feedOf_def updateWhere_def)

lemma changeComment_frame:
  assumes "changeComment f c a any k s = Inr (q, t)" "\<And>x. tcm_id (f x) = tcm_id x \<and> tcm_commentType (f x) = tcm_commentType x"
  shows "desk_only s t" "desk_moves now s t"
proof -
  obtain x where x: "selectOne (\<lambda>x. tcm_id x = c) (db_ticketComments s) = Some x" "tcm_commentType x \<noteq> Com_status_change"
    and t: "t = s \<lparr> db_ticketComments := updateWhere (\<lambda>x. tcm_id x = c) f (db_ticketComments s) \<rparr>"
    using assms(1) unfolding changeComment_def loadCommentWithTicket_def
    by (auto simp: bindE_eq_Inr guard_simps assertCommentEditable_def systemComment_def)
  show "desk_only s t" by (simp add: desk_only_def t)
  show "desk_moves now s t"
  proof (rule desk_moves_retouch)
    assume "keyed_feed s"
    then have "distinct (map tcm_id (db_ticketComments s))" by (simp add: keyed_feed_def)
    then have "tcm_commentType y \<noteq> Com_status_change" if "y \<in> set (db_ticketComments s)" "tcm_id y = c" for y
      using that x selectOne_Some[OF x(1)] by (auto simp: distinct_map dest: inj_onD)
    then show "feedOf (db_ticketComments t) = feedOf (db_ticketComments s)"
      using assms(2) by (simp add: t feedOf_update)
  next
    assume "keyed_feed s"
    then show "keyed_feed t" using assms(2) by (simp add: keyed_feed_def t map_updateWhere)
  qed (simp_all add: t)
qed

subsection \<open>Alerts\<close>

lemma link_frame:
  assumes "linkAlertToTicket i x a lt now s = Inr (l, t)"
  shows "desk_only s t" "desk_moves now s t"
proof -
  obtain v q ls where t: "t = insertComment (feedLine i a Com_system v None q now) (s \<lparr> db_next := Suc (db_next s), db_alertLinks := ls \<rparr>)"
    using assms unfolding linkAlertToTicket_def Let_def by (auto simp: bindE_eq_Inr)
  show "desk_only s t" by (simp add: desk_only_def t)
  show "desk_moves now s t" by (rule desk_moves_retouch) (simp_all add: t)
qed

lemma unlink_frame:
  assumes "unlinkAlertFromTicket i x a now s = Inr (l, t)"
  shows "desk_only s t" "desk_moves now s t"
proof -
  obtain ls where t: "t = insertComment (feedLine i a Com_system ''Unlinked alert'' (Some (Fv_id x)) None now) (s \<lparr> db_alertLinks := ls \<rparr>)"
    using assms unfolding unlinkAlertFromTicket_def by (auto simp: bindE_eq_Inr)
  show "desk_only s t" by (simp add: desk_only_def t)
  show "desk_moves now s t" by (rule desk_moves_retouch) (simp_all add: t)
qed

lemma createTicketFromAlert_eq:
  assumes "createTicketFromAlert x a os v year now s = Inr (r, t)"
  obtains input s1 l where "createTicket input a v year now s = Inr (r, s1)" "linkAlertToTicket (tk_id r) x a Link_created_from now s1 = Inr (l, t)"
proof -
  obtain z s1 where "createTicket (alertTicketInput z os) a v year now s = Inr (r, s1)"
    "(case linkAlertToTicket (tk_id r) x a Link_created_from now s1 of Inl e \<Rightarrow> Inl (JsError ''created but alert link failed'') | Inr (l, s2) \<Rightarrow> Inr (r, s2)) = Inr (r, t)"
  proof -
    from assms obtain z r' s1 where "createTicket (alertTicketInput z os) a v year now s = Inr (r', s1)"
      "(case linkAlertToTicket (tk_id r') x a Link_created_from now s1 of Inl e \<Rightarrow> Inl (JsError ''created but alert link failed'') | Inr (l, s2) \<Rightarrow> Inr (r', s2)) = Inr (r, t)"
      unfolding createTicketFromAlert_def by (auto simp: bindE_eq_Inr)
    moreover from this(2) have "r' = r" by (simp split: sum.split_asm prod.split_asm)
    ultimately show thesis using that by blast
  qed
  then show thesis using that by (auto split: sum.split_asm)
qed

lemma fromAlert_frame:
  assumes "createTicketFromAlert x a os v year now s = Inr (r, t)"
  shows "desk_only s t" "desk_moves now s t"
  using assms by (elim createTicketFromAlert_eq; blast intro: desk_only_trans desk_moves_trans create_frame link_frame)+

subsection \<open>Moves between organizations\<close>

lemma moveTicketOrg_eq:
  assumes "moveTicketOrg i g a now s = Inr (q, t)"
  obtains (same) "t = s"
  | (moved) r target src where "r \<in> set (db_tickets s)" "tk_id r = i" "tk_orgId r \<noteq> g" "orgOf s g = Some target" "orgOf s (tk_orgId r) = Some src"
      "org_partnerId src = org_partnerId target"
      "t = emit (TicketEvent (Ev_ticket_updated [''orgId'']) i g (tk_partnerId r) (Some (tka_userId a)))
        (insertComment (feedLine i a Com_system (''Moved to '' @ org_name target) None None now) (restampOrg i g now s))"
  using assms unfolding moveTicketOrg_def
  by (auto simp: bindE_eq_Inr guard_simps dest!: ticketOf_mem split: if_splits option.splits)

lemma restamp_work:
  "work_only s (restampOrg i g now s)" "knownSources (restampOrg i g now s) = knownSources s" "billedSources (restampOrg i g now s) = billedSources s"
proof -
  let ?f = "\<lambda>e. e \<lparr> te_orgId := Some g, te_updatedAt := now \<rparr>" and ?g = "\<lambda>p. p \<lparr> tp_orgId := g, tp_updatedAt := now \<rparr>"
  note e = updateWhere_marks[where f = ?f and k = te_id and Q = "\<lambda>_. True", simplified] updateWhere_marks[where f = ?f and k = te_id and Q = "\<lambda>e. te_billingStatus e \<noteq> Bill_not_billed", simplified]
  note p = updateWhere_marks[where f = ?g and k = tp_id and Q = "\<lambda>_. True", simplified] updateWhere_marks[where f = ?g and k = tp_id and Q = "\<lambda>e. tp_billingStatus e \<noteq> Bill_not_billed", simplified]
  show "work_only s (restampOrg i g now s)" by (auto simp: work_only_def same_tables_def restampOrg_def key_ok_updateWhere_iff)
  show "knownSources (restampOrg i g now s) = knownSources s" "billedSources (restampOrg i g now s) = billedSources s"
    by (simp_all add: knownSources_def billedSources_def restampOrg_def e p)
qed

lemma insertComment_work [simp]:
  "work_only s (insertComment c t) = work_only s t" "knownSources (insertComment c t) = knownSources t" "billedSources (insertComment c t) = billedSources t"
  by (simp_all add: work_only_def same_tables_def knownSources_def billedSources_def insertComment_def)

lemma move_frame:
  assumes "moveTicketOrg i g a now s = Inr (q, t)"
  shows "more_work s t" "desk_moves now s t"
proof -
  show "more_work s t" using assms by (cases rule: moveTicketOrg_eq) (simp_all add: more_work_def restamp_work, simp add: work_only_def same_tables_def)
  show "desk_moves now s t" using assms
  proof (cases rule: moveTicketOrg_eq)
    case (moved r target src)
    have "map life (db_tickets (restampOrg i g now s)) = map life (db_tickets s)" by (simp add: restampOrg_def map_life_update life_def)
    moreover have "keyed_feed (restampOrg i g now s) = keyed_feed s" by (rule keyed_feed_same) (simp add: restampOrg_def)
    ultimately show ?thesis by (intro desk_moves_retouch) (simp_all add: moved(7), simp_all add: restampOrg_def)
  qed simp
qed

subsection \<open>The monitor\<close>

definition dueIds :: "sla_target \<Rightarrow> instant \<Rightarrow> db \<Rightarrow> uuid set" where
  "dueIds k now s = tk_id ` set (take MAX_BREACHES_PER_RUN (sort_key tk_createdAt (filter (breachDue k now) (db_tickets s))))"

lemma stampBreaches_eq:
  "stampBreaches k now s = (map (stampBreach k now) (filter (\<lambda>r. tk_id r \<in> dueIds k now s) (db_tickets s)),
     updateTickets (\<lambda>r. tk_id r \<in> dueIds k now s) (stampBreach k now) s)"
  by (simp add: stampBreaches_def dueIds_def Let_def selectWhere_def)

lemma dueIds_due:
  assumes "key_ok tk_id n (db_tickets s)" "r \<in> set (db_tickets s)" "tk_id r \<in> dueIds k now s"
  shows "breachDue k now r"
proof -
  obtain q where q: "q \<in> set (take MAX_BREACHES_PER_RUN (sort_key tk_createdAt (filter (breachDue k now) (db_tickets s))))" "tk_id q = tk_id r"
    using assms(3) by (auto simp: dueIds_def)
  from in_set_takeD[OF q(1)] have "q \<in> set (db_tickets s)" "breachDue k now q" by simp_all
  then show ?thesis using key_ok_unique[OF assms(1) _ assms(2) q(2)] by simp
qed

lemma notify_sel:
  "elsewhere (notifyBreaches arrives rows s) = elsewhere s" "db_next (notifyBreaches arrives rows s) = db_next s"
  "db_tickets (notifyBreaches arrives rows s) = db_tickets s" "db_ticketComments (notifyBreaches arrives rows s) = db_ticketComments s"
  "db_ticketStatuses (notifyBreaches arrives rows s) = db_ticketStatuses s"
  "concat (map breachOf (db_events (notifyBreaches arrives rows s))) =
     concat (map breachOf (db_events s)) @ map (\<lambda>e. (tk_id (fst e), snd e)) (filter (\<lambda>e. fst (arrives e)) rows)"
  by (induction rows arbitrary: s) (simp_all add: notifyBreaches_def breachEvent_def Let_def)

definition stamped :: "sla_target \<Rightarrow> instant \<Rightarrow> db \<Rightarrow> db" where
  "stamped k now s = updateTickets (\<lambda>r. tk_id r \<in> dueIds k now s) (stampBreach k now) s"

definition stampedRows :: "sla_target \<Rightarrow> instant \<Rightarrow> db \<Rightarrow> ticket list" where
  "stampedRows k now s = filter (\<lambda>r. tk_id r \<in> dueIds k now s) (db_tickets s)"

lemma slaSweepJob_eq:
  "slaSweepJob arrives now s = (let u = stamped Sla_response now s; rows = map (\<lambda>t. (stampBreach Sla_response now t, Sla_response)) (stampedRows Sla_response now s) @
       map (\<lambda>t. (stampBreach Sla_resolution now t, Sla_resolution)) (stampedRows Sla_resolution now u)
     in (length rows, notifyBreaches arrives rows (stamped Sla_resolution now u)))"
  by (simp add: slaSweepJob_def sweepTicketSlaBreaches_def stampBreaches_eq stamped_def stampedRows_def Let_def comp_def)

definition stampBoard :: "(ticket \<times> sla_target \<Rightarrow> bool \<times> bool) \<Rightarrow> sla_target \<Rightarrow> instant \<Rightarrow> db \<Rightarrow> board \<Rightarrow> board" where
  "stampBoard arrives k now s b = b \<lparr> bd_tickets := db_tickets (stamped k now s),
     bd_breaches := bd_breaches b @ map (\<lambda>r. (tk_id r, k)) (filter (\<lambda>r. fst (arrives (stampBreach k now r, k))) (stampedRows k now s)) \<rparr>"

lemma stampBoard_move:
  assumes "bd_tickets b = db_tickets s" "board_ok b"
  shows "board_move now b (stampBoard arrives k now s b)"
proof -
  have key: "key_ok tk_id (bd_next b) (db_tickets s)" using board_okD(1)[OF assms(2)] assms(1) by simp
  have "board_move now b (b \<lparr> bd_tickets := updateWhere (\<lambda>r. tk_id r \<in> dueIds k now s) (stampBreach k now) (bd_tickets b),
      bd_breaches := bd_breaches b @ map (\<lambda>r. (tk_id r, k)) (filter (\<lambda>r. tk_id r \<in> dueIds k now s \<and> fst (arrives (stampBreach k now r, k))) (bd_tickets b)) \<rparr>)"
    by (rule board_move.breached) (use dueIds_due[OF key] assms(1) in simp)
  then show ?thesis by (simp add: stampBoard_def stamped_def stampedRows_def assms(1) conj_commute)
qed

lemma sweep_frame:
  assumes "slaSweepJob arrives now s = (n, t)"
  shows "desk_only s t" "desk_moves now s t"
proof -
  let ?u = "stamped Sla_response now s"
  obtain rows where t: "t = notifyBreaches arrives rows (stamped Sla_resolution now ?u)"
    and rows: "map (\<lambda>e. (tk_id (fst e), snd e)) (filter (\<lambda>e. fst (arrives e)) rows) =
      map (\<lambda>r. (tk_id r, Sla_response)) (filter (\<lambda>r. fst (arrives (stampBreach Sla_response now r, Sla_response))) (stampedRows Sla_response now s)) @
      map (\<lambda>r. (tk_id r, Sla_resolution)) (filter (\<lambda>r. fst (arrives (stampBreach Sla_resolution now r, Sla_resolution))) (stampedRows Sla_resolution now ?u))"
    using assms by (auto simp: slaSweepJob_eq Let_def comp_def filter_map)
  show "desk_only s t" by (simp add: desk_only_def t notify_sel stamped_def)
  have b: "boardOf t = stampBoard arrives Sla_resolution now ?u (stampBoard arrives Sla_response now s (boardOf s))"
    by (simp add: boardOf_def t notify_sel rows stampBoard_def) (simp add: stamped_def)
  show "desk_moves now s t" unfolding desk_moves_def
  proof
    assume ok: "desk_ok s"
    then have "board_move now (boardOf s) (stampBoard arrives Sla_response now s (boardOf s))" by (intro stampBoard_move) (simp_all add: desk_ok_def)
    moreover from board_move_ok[OF this] ok have "board_ok (stampBoard arrives Sla_response now s (boardOf s))" by (simp add: desk_ok_def)
    then have "board_move now (stampBoard arrives Sla_response now s (boardOf s)) (boardOf t)" unfolding b
      by (intro stampBoard_move) (simp_all add: stampBoard_def)
    moreover have "keyed_feed t" using ok by (simp add: desk_ok_def keyed_feed_def t notify_sel stamped_def)
    ultimately show "(board_move now)\<^sup>*\<^sup>* (boardOf s) (boardOf t) \<and> keyed_feed t" by auto
  qed
qed

subsection \<open>Mail\<close>

lemma logInbound_eq: "logInbound n p st k err now s = Inr t \<Longrightarrow> \<exists>es. t = s \<lparr> db_next := Suc (db_next s), db_inboundEmails := es \<rparr>"
  by (auto simp: logInbound_def guard_simps)

lemma logInbound_frame: "logInbound n p st k err now s = Inr t \<Longrightarrow> desk_only s t" "logInbound n p st k err now s = Inr t \<Longrightarrow> desk_moves m s t"
  by (auto dest!: logInbound_eq simp: desk_only_def intro: desk_moves_still)

lemma append_frame: "desk_only s (appendInboundComment i n p now s)" "desk_moves m s (appendInboundComment i n p now s)"
  by (auto simp: appendInboundComment_def Let_def desk_only_def intro!: desk_moves_retouch)

lemma keys_frame:
  "desk_only s (updateTickets P (\<lambda>r. r \<lparr> tk_emailThreadKey := k, tk_emailMessageId := m \<rparr>) s)"
  "desk_moves now s (updateTickets P (\<lambda>r. r \<lparr> tk_emailThreadKey := k, tk_emailMessageId := m \<rparr>) s)"
  by (auto simp: desk_only_def updateWhere_def life_def intro!: desk_moves_retouch)

lemma reopen_frame: "desk_only s (reopenResolvedTicket i p now s)" "desk_moves now s (reopenResolvedTicket i p now s)"
proof -
  let ?P = "\<lambda>t. tk_id t = i \<and> tk_partnerId t = Some p \<and> tk_status t = Tk_resolved" and ?open = "\<lambda>t. t \<lparr> tk_status := Tk_open, tk_resolvedAt := None \<rparr>"
  let ?ts = "updateWhere ?P (\<lambda>t. t \<lparr> tk_status := Tk_open, tk_resolvedAt := None, tk_updatedAt := now \<rparr>) (db_tickets s)"
  show "desk_only s (reopenResolvedTicket i p now s)" by (simp add: reopenResolvedTicket_def desk_only_def)
  have "(board_move now)\<^sup>*\<^sup>* (boardOf s) (boardOf s \<lparr> bd_tickets := ?ts \<rparr>)" if ok: "desk_ok s"
  proof (cases "\<exists>t \<in> set (db_tickets s). ?P t")
    case True
    then obtain t where t: "t \<in> set (db_tickets s)" "?P t" by blast
    have "r = t" if "r \<in> set (db_tickets s)" "tk_id r = i" for r
      using key_ok_unique[OF board_okD(1), of "boardOf s" r t] ok that t by (simp add: desk_ok_def)
    then have "(tk_id r = tk_id t) = ?P r" if "r \<in> set (db_tickets s)" for r using t(2) that by blast
    then have "updateWhere (\<lambda>r. tk_id r = tk_id t) ?open (db_tickets s) = updateWhere ?P ?open (db_tickets s)"
      unfolding updateWhere_def by (intro map_cong) simp_all
    moreover have "board_move now (boardOf s) (boardOf s \<lparr> bd_tickets := updateWhere (\<lambda>r. tk_id r = tk_id t) ?open (db_tickets s) \<rparr>)"
      using board_move.answered[of t "boardOf s" now] t by simp
    ultimately have first: "board_move now (boardOf s) (boardOf s \<lparr> bd_tickets := updateWhere ?P ?open (db_tickets s) \<rparr>)" by simp
    have "map life ?ts = map life (updateWhere ?P ?open (db_tickets s))" by (simp add: updateWhere_def life_def)
    from board_move.retouch[of ?ts "boardOf s \<lparr> bd_tickets := updateWhere ?P ?open (db_tickets s) \<rparr>" "db_next s" now] this
    have "board_move now (boardOf s \<lparr> bd_tickets := updateWhere ?P ?open (db_tickets s) \<rparr>) (boardOf s \<lparr> bd_tickets := ?ts \<rparr>)"
      by (simp add: boardOf_def)
    with first show ?thesis by (meson converse_rtranclp_into_rtranclp rtranclp.rtrancl_refl)
  next
    case False
    then have "?ts = db_tickets s" by (auto simp: updateWhere_def intro!: map_idI)
    then show ?thesis by (simp add: boardOf_def)
  qed
  then show "desk_moves now s (reopenResolvedTicket i p now s)" by (simp add: desk_moves_def reopenResolvedTicket_def desk_ok_def)
qed

lemma contact_frame: "findOrCreateEmailContact g v name s = (u, t) \<Longrightarrow> desk_only s t" "findOrCreateEmailContact g v name s = (u, t) \<Longrightarrow> desk_moves now s t"
  by (auto simp: findOrCreateEmailContact_def Let_def desk_only_def intro!: desk_moves_still split: option.splits)

lemma autoresponse_frame: "maybeSendAutoresponse env n p r g q s = Inr t \<Longrightarrow> desk_only s t" "maybeSendAutoresponse env n p r g q s = Inr t \<Longrightarrow> desk_moves now s t"
  by (auto simp: maybeSendAutoresponse_def guard_simps desk_only_def intro!: desk_moves_retouch split: if_splits)

lemma caught_Inr: "caught s s1 r = Inr t \<longleftrightarrow> r = Inr t"
  by (simp add: caught_def split: sum.split)

lemma caught_Inl: "caught s s1 r = Inl (e, t) \<Longrightarrow> t = s \<or> t = s1"
  by (auto simp: caught_def split: sum.splits svc_error.splits)

text \<open>
  A relation of states that is kept by every write of the mail worker is kept by the worker: it composes the
  writes and nothing else.
\<close>

locale mail_writes =
  fixes keeps :: "instant \<Rightarrow> db \<Rightarrow> db \<Rightarrow> bool"
  assumes keeps_refl: "keeps now s s"
    and keeps_trans: "keeps now s t \<Longrightarrow> keeps now t u \<Longrightarrow> keeps now s u"
    and create: "createTicket input a v year now s = Inr (r, t) \<Longrightarrow> keeps now s t"
    and keys: "keeps now s (updateTickets P (\<lambda>r. r \<lparr> tk_emailThreadKey := k, tk_emailMessageId := m \<rparr>) s)"
    and autoresponse: "maybeSendAutoresponse env n p q g w s = Inr t \<Longrightarrow> keeps now s t"
    and append: "keeps now s (appendInboundComment i n p now s)"
    and reopen: "keeps now s (reopenResolvedTicket i p now s)"
    and contact: "findOrCreateEmailContact g v name s = (i, t) \<Longrightarrow> keeps now s t"
    and log: "logInbound n w st j err now s = Inr t \<Longrightarrow> keeps now s t"
begin

lemma from_email:
  assumes "createFromEmail env n p g key prior u now s = Inr (r, t)"
  shows "keeps now s t"
proof -
  obtain s1 s2 where "createTicket (mailTicketInput n g prior u) SYSTEM_ACTOR (me_legacyNumber env) (me_year env) now s = Inr (r, s1)"
    and s2: "s2 = updateTickets (\<lambda>q. tk_id q = tk_id r) (\<lambda>q. q \<lparr> tk_emailThreadKey := threadKeyFor env key n (tk_id r), tk_emailMessageId := ni_messageId n \<rparr>) s1"
    and rest: "(if u \<noteq> None \<and> \<not> isPgText prior then maybeSendAutoresponse env n p (nullish (ticketOf s2 (tk_id r)) r) g (Some p) s2 else Inr s2) = Inr t"
    using assms unfolding createFromEmail_def by (auto simp: bindE_eq_Inr guard_simps Let_def)
  then have "keeps now s s2" unfolding s2 by (blast intro: keeps_trans create keys)
  then show ?thesis using rest by (auto intro: keeps_trans autoresponse split: if_splits)
qed

lemma create_log: "createAndLog env n p g key prior u now s = Inr t \<Longrightarrow> keeps now s t"
  by (auto simp: createAndLog_def bindE_eq_Inr intro: keeps_trans from_email log)

lemma route: "routeBySender env n p now s = Inr t \<Longrightarrow> keeps now s t"
  unfolding routeBySender_def
  by (auto simp: caught_Inr bindE_eq_Inr intro: create_log log keeps_trans[OF contact] split: option.splits if_splits prod.splits bool.splits)

lemma route_error: "routeBySender env n p now s = Inl (e, t) \<Longrightarrow> keeps now s t"
  unfolding routeBySender_def
  by (auto dest!: caught_Inl intro: keeps_refl contact split: option.splits if_splits prod.splits bool.splits)

lemma thread: "threadMessage env n p now s = Inr t \<Longrightarrow> keeps now s t"
  unfolding threadMessage_def Let_def
  by (auto simp: caught_Inr guard_simps intro: create_log route keeps_trans[OF append log] keeps_trans[OF keeps_trans[OF append reopen] log]
      split: option.splits if_splits)

lemma thread_error: "threadMessage env n p now s = Inl (e, t) \<Longrightarrow> keeps now s t"
  unfolding threadMessage_def by (auto dest!: caught_Inl intro: keeps_refl route_error split: option.splits)

lemma for_partner: "handleForPartner env n p now s = Inr t \<Longrightarrow> keeps now s t"
  by (auto simp: handleForPartner_def caught_Inr Let_def intro: log thread keeps_refl split: if_splits)

lemma for_partner_error: "handleForPartner env n p now s = Inl (e, t) \<Longrightarrow> keeps now s t"
  by (auto simp: handleForPartner_def Let_def dest!: caught_Inl intro: keeps_refl thread_error split: if_splits)

lemma failed: "keeps now s (logInboundFailedDurable n w e now s)"
  by (auto simp: logInboundFailedDurable_def intro: log keeps_refl split: sum.split)

lemma inbound: "processInboundEmail env n now s = t \<Longrightarrow> keeps now s t"
  by (auto simp: processInboundEmail_def intro: failed log for_partner keeps_trans[OF for_partner_error failed] split: sum.splits option.splits prod.splits)

end

interpretation mail_only: mail_writes "\<lambda>_. desk_only"
  by unfold_locales (blast intro: desk_only_refl desk_only_trans create_frame keys_frame autoresponse_frame append_frame reopen_frame contact_frame logInbound_frame)+

interpretation mail_board: mail_writes desk_moves
  by unfold_locales (blast intro: desk_moves_refl desk_moves_trans create_frame keys_frame autoresponse_frame append_frame reopen_frame contact_frame logInbound_frame)+

lemma notifyUser_frame: "desk_only s (notifyUser u g v w l s)" "desk_moves now s (notifyUser u g v w l s)"
  by (auto simp: notifyUser_def desk_only_def intro!: desk_moves_still)

lemma stampAnchor_frame:
  "desk_only s (updateTickets P (\<lambda>r. r \<lparr> tk_emailThreadKey := k \<rparr>) s)" "desk_moves now s (updateTickets P (\<lambda>r. r \<lparr> tk_emailThreadKey := k \<rparr>) s)"
  by (auto simp: desk_only_def updateWhere_def life_def intro!: desk_moves_retouch)

lemma event_frame:
  assumes "handleTicketEvent env e i g a s = Inr (ms, t)"
  shows "desk_only s t" "desk_moves now s t"
  using assms unfolding handleTicketEvent_def collectAssigneeNotification_def collectSlaBreachNotification_def collectRequesterEmail_def collectAutoresponse_def
  by (auto simp: bindE_eq_Inr Let_def intro: notifyUser_frame stampAnchor_frame split: ticket_event_type.splits option.splits if_splits)

subsection \<open>The review queue and the settings\<close>

lemma updateInbound_eq: "updateInbound P f s = Inr (r, t) \<Longrightarrow> \<exists>es. t = s \<lparr> db_inboundEmails := es \<rparr>"
  by (auto simp: updateInbound_def bindE_eq_Inr)

lemma inbound_frame: "updateInbound P f s = Inr (r, t) \<Longrightarrow> desk_only s t" "updateInbound P f s = Inr (r, t) \<Longrightarrow> desk_moves now s t"
  by (auto dest!: updateInbound_eq simp: desk_only_def intro: desk_moves_still)

lemma convert_frame:
  assumes "convertEmailInbound p i g a v year now s = Inr (r, t)"
  shows "desk_only s t" "desk_moves now s t"
proof -
  obtain P f s1 q s2 Q f' h input where "updateInbound P f s = Inr (q, s1)" "createTicket input a v year now s1 = Inr (h, s2)" "updateInbound Q f' s2 = Inr (r, t)"
    using assms unfolding convertEmailInbound_def convertWrite_def by (auto simp: bindE_eq_Inr)
  then show "desk_only s t" "desk_moves now s t"
    by (blast intro: desk_only_trans desk_moves_trans create_frame inbound_frame)+
qed

lemma dismiss_frame:
  assumes "dismissEmailInbound p i s = Inr (r, t)"
  shows "desk_only s t" "desk_moves now s t"
  using assms unfolding dismissEmailInbound_def dismissWrite_def by (auto simp: bindE_eq_Inr intro: inbound_frame)

definition desk_still :: "db \<Rightarrow> db \<Rightarrow> bool" where
  "desk_still s t \<longleftrightarrow> desk_only s t \<and> db_tickets t = db_tickets s \<and> db_events t = db_events s \<and> db_ticketComments t = db_ticketComments s"

lemma still_frame: "desk_still s t \<Longrightarrow> desk_only s t" "desk_still s t \<Longrightarrow> desk_moves now s t"
  by (auto simp: desk_still_def desk_only_def intro: desk_moves_still)

lemma desk_still_refl [simp]: "desk_still s s"
  by (simp add: desk_still_def)

lemma insertStatus_still: "desk_still s u \<Longrightarrow> insertStatus r u = Inr t \<Longrightarrow> desk_still s t"
  by (auto simp: insertStatus_def guard_simps desk_still_def desk_only_def)

inductive settings_call :: "instant \<Rightarrow> db \<Rightarrow> db \<Rightarrow> bool" where
  "seedSystemTicketStatuses p now s = Inr t \<Longrightarrow> settings_call now s t"
| "createTicketStatus p si now s = Inr (r, t) \<Longrightarrow> settings_call now s t"
| "updateTicketStatus p i su now s = Inr (r, t) \<Longrightarrow> settings_call now s t"
| "reorderTicketStatuses p ids now s = (n, t) \<Longrightarrow> settings_call now s t"
| "upsertPrioritySettings p pis now s = (qs, t) \<Longrightarrow> settings_call now s t"
| "upsertOrgTicketSettings g oi now s = Inr (u, t) \<Longrightarrow> settings_call now s t"
| "createCustomerEmailDomain p v g auto_contact j now s = Inr (d, t) \<Longrightarrow> settings_call now s t"
| "updateCustomerEmailDomain p i dp now s = Inr (d, t) \<Longrightarrow> settings_call now s t"
| "deleteCustomerEmailDomain p i s = Inr (u, t) \<Longrightarrow> settings_call now s t"
| "allocateInternalTicketNumber p year s = Inr (v, t) \<Longrightarrow> settings_call now s t"

lemma settings_still: "settings_call now s t \<Longrightarrow> desk_still s t"
proof (induction rule: settings_call.induct)
  case (1 p now s t)
  then show ?case unfolding seedSystemTicketStatuses_def
    by (rule foldE_invariant) (auto intro: insertStatus_still split: prod.splits)
next
  case (2 p si now s r t)
  then show ?case unfolding createTicketStatus_def Let_def
    by (auto intro: insertStatus_still[OF desk_still_refl] split: sum.splits)
next
  case (3 p i su now s r t)
  then show ?case by (auto simp: updateTicketStatus_def guard_simps desk_still_def desk_only_def)
next
  case (4 p ids now s n t)
  then show ?case by (auto simp: reorderTicketStatuses_def Let_def desk_still_def desk_only_def split: prod.splits)
next
  case (5 p pis now s qs t)
  then show ?case by (auto simp: upsertPrioritySettings_def Let_def desk_still_def desk_only_def)
next
  case (6 g oi now s u t)
  then show ?case by (auto simp: upsertOrgTicketSettings_def guard_simps desk_still_def desk_only_def split: option.splits)
next
  case (7 p v g auto_contact j now s d t)
  then show ?case by (auto simp: createCustomerEmailDomain_def guard_simps Let_def desk_still_def desk_only_def)
next
  case (8 p i dp now s d t)
  then show ?case by (auto simp: updateCustomerEmailDomain_def guard_simps desk_still_def desk_only_def)
next
  case (9 p i s u t now)
  then show ?case by (auto simp: deleteCustomerEmailDomain_def guard_simps desk_still_def desk_only_def)
next
  case (10 p year s v t now)
  then show ?case by (auto dest: allocate_eq simp: desk_still_def desk_only_def)
qed

section \<open>The ticket service as a whole\<close>

text \<open>The last rule of \<open>settings_call\<close> is a number whose ticket was not inserted: it is gone.\<close>

inductive ticket_call :: "instant \<Rightarrow> db \<Rightarrow> db \<Rightarrow> bool" where
  create: "createTicket input a v year now s = Inr (r, t) \<Longrightarrow> ticket_call now s t"
| status: "changeTicketStatus i target opts a now s = Inr (r, t) \<Longrightarrow> ticket_call now s t"
| fields: "updateTicketFields i f a now s = Inr (r, t) \<Longrightarrow> ticket_call now s t"
| assign: "assignTicket i u a now s = Inr (r, t) \<Longrightarrow> ticket_call now s t"
| comment: "addTicketComment i v pub a now s = Inr (c, t) \<Longrightarrow> ticket_call now s t"
| edit_comment: "editTicketComment j v a any k now s = Inr (tc, t) \<Longrightarrow> ticket_call now s t"
| delete_comment: "deleteTicketComment j a any k now s = Inr (tc, t) \<Longrightarrow> ticket_call now s t"
| link: "linkAlertToTicket i x a lt now s = Inr (l, t) \<Longrightarrow> ticket_call now s t"
| unlink: "unlinkAlertFromTicket i x a now s = Inr (z, t) \<Longrightarrow> ticket_call now s t"
| from_alert: "createTicketFromAlert x a os v year now s = Inr (r, t) \<Longrightarrow> ticket_call now s t"
| move: "moveTicketOrg i g a now s = Inr (r, t) \<Longrightarrow> ticket_call now s t"
| monitor: "slaSweepJob arrives now s = (n, t) \<Longrightarrow> ticket_call now s t"
| convert: "convertEmailInbound p i g a v year now s = Inr (em, t) \<Longrightarrow> ticket_call now s t"
| dismiss: "dismissEmailInbound p i s = Inr (em, t) \<Longrightarrow> ticket_call now s t"
| inbound: "processInboundEmail env n now s = t \<Longrightarrow> ticket_call now s t"
| notify: "handleTicketEvent env e i g actor s = Inr (ms, t) \<Longrightarrow> ticket_call now s t"
| settings: "settings_call now s t \<Longrightarrow> ticket_call now s t"

lemma commentChange_frame:
  assumes "editTicketComment j v a any k now s = Inr (tc, t) \<or> deleteTicketComment j a any k now s = Inr (tc, t)"
  shows "desk_only s t" "desk_moves now s t"
  using assms changeComment_frame[of _ j a any k s tc t] unfolding editTicketComment_def deleteTicketComment_def by fastforce+

lemmas call_frames = create_frame status_frame fields_frame assign_frame comment_frame link_frame unlink_frame fromAlert_frame sweep_frame
  convert_frame dismiss_frame event_frame mail_only.inbound mail_board.inbound still_frame[OF settings_still]

lemma ticket_call_moves: "ticket_call now s t \<Longrightarrow> desk_moves now s t"
  by (induction rule: ticket_call.induct) (blast intro: call_frames commentChange_frame move_frame)+

lemma ticket_call_more_work: "ticket_call now s t \<Longrightarrow> more_work s t"
  by (induction rule: ticket_call.induct) (blast intro: desk_only_more_work call_frames commentChange_frame move_frame)+

text \<open>The time tracking writes to the feed too, but no status change.\<close>

definition desk_quiet :: "db \<Rightarrow> db \<Rightarrow> bool" where
  "desk_quiet s t \<longleftrightarrow> db_tickets t = db_tickets s \<and> db_next s \<le> db_next t \<and> feedOf (db_ticketComments t) = feedOf (db_ticketComments s) \<and>
     concat (map breachOf (db_events t)) = concat (map breachOf (db_events s)) \<and> keyed_feed t = keyed_feed s"

lemma desk_quiet_moves: "desk_quiet s t \<Longrightarrow> desk_moves now s t"
  by (rule desk_moves_retouch) (simp_all add: desk_quiet_def)

lemma desk_quiet_feed [simp]: "desk_quiet s (insertTimeEntryFeedComment k a c n t) = desk_quiet s t"
  by (simp add: desk_quiet_def insertTimeEntryFeedComment_def split: option.split)

lemma desk_quiet_emit [simp]: "desk_quiet s (emit (TimeEntryEvent te i g p j) t) = desk_quiet s t"
  by (simp add: desk_quiet_def)

lemma desk_quiet_work [simp]: "desk_quiet s (t \<lparr> db_timeEntries := es \<rparr>) = desk_quiet s t" "desk_quiet s (t \<lparr> db_ticketParts := ps \<rparr>) = desk_quiet s t"
  by (simp_all add: desk_quiet_def keyed_feed_def)

lemma desk_quiet_next [simp]: "desk_quiet s t \<Longrightarrow> desk_quiet s (t \<lparr> db_next := Suc (db_next t) \<rparr>)"
  by (simp add: desk_quiet_def)

lemma desk_quiet_refl [simp]: "desk_quiet s s"
  by (simp add: desk_quiet_def)

lemma desk_quiet_insert: "insertTimeEntry e u = Inr t \<Longrightarrow> desk_quiet s u \<Longrightarrow> desk_quiet s t"
  by (drule insertTimeEntry_eq) (simp add: desk_quiet_def keyed_feed_def)

lemma startAttempt_quiet: "startAttempt k d link a now s = Inr (e, t) \<Longrightarrow> desk_quiet s t"
  by (auto simp: startAttempt_def stopRunningEntry_def guard_simps Let_def elim!: desk_quiet_insert split: prod.splits option.splits)

lemma time_call_quiet: "time_call s t \<Longrightarrow> desk_quiet s t"
proof (induction rule: time_call.induct)
  case (1 input a now s e t)
  then show ?case by (auto simp: createTimeEntry_def guard_simps Let_def elim!: desk_quiet_insert split: prod.splits)
next
  case (2 k d a now s e t)
  then obtain link u te i g p j where "startAttempt k d link a now s = Inr (e, u)" "t = emit (TimeEntryEvent te i g p j) u"
    by (auto simp: startTimer_def bindE_eq_Inr split: sum.splits if_splits prod.splits)
  then show ?case using startAttempt_quiet by simp
qed (auto simp: stopTimer_def stopRunningEntry_def updateTimeEntry_def updateTimeEntries_def deleteTimeEntry_def approveTimeEntries_def addTicketPart_def
      updateTicketPart_def deleteTicketPart_def bindE_eq_Inr Let_def split: prod.splits list.splits if_splits)

text \<open>One call of the ticket service or of the time tracking.\<close>

definition desk_step :: "instant \<Rightarrow> db \<Rightarrow> db \<Rightarrow> bool" where
  "desk_step now s t \<longleftrightarrow> ticket_call now s t \<or> time_call s t"

interpretation desk: desk_client desk_step
  by unfold_locales (auto simp: desk_step_def intro: ticket_call_moves desk_quiet_moves time_call_quiet)

interpretation ticketing: ledger_client False "anytime ticket_call"
  by unfold_locales (auto simp: anytime_def intro: refines_more_work ticket_call_more_work)

end
