(* ===== verification/TicketProperties.thy ===== *)
theory TicketProperties
  imports TicketRefinement
begin

text \<open>
  What the ticket service guarantees: the columns of a ticket agree with its state, the pause of the service
  level clock can be replayed from the feed, the monitor is accurate to a minute per pause, complete, and
  announces a breach at most once, tickets stay within their tenant, and a partner keeps its system statuses. The
  last section has two behaviours the code does not mean to have.
\<close>

section \<open>A worked day\<close>

definition agent :: ticket_actor where
  "agent = \<lparr> tka_userId = 7, tka_name = Some ''Kim'' \<rparr>"

definition toStatus :: "ticket_status \<Rightarrow> status_target" where
  "toStatus st = \<lparr> stt_status = Some st, stt_statusId = None \<rparr>"

definition noNote :: status_options where
  "noNote = \<lparr> sto_resolutionNote = None, sto_pendingReason = None \<rparr>"

text \<open>The ticket of the worked day waits for the customer for thirty minutes and a second less than another one.\<close>

definition raised_at :: instant where
  "raised_at = 1749990000000"

definition paused_at :: instant where
  "paused_at = raised_at + 600000"

definition resumed_at :: instant where
  "resumed_at = paused_at + 1859000"

definition waiting_ticket :: ticket where
  "waiting_ticket = work_ticket \<lparr> tk_status := Tk_pending, tk_slaPausedAt := Some paused_at, tk_updatedAt := paused_at \<rparr>"

definition resumed_ticket :: ticket where
  "resumed_ticket = waiting_ticket \<lparr> tk_status := Tk_open, tk_slaPausedAt := None, tk_slaPausedMinutes := Some 30, tk_updatedAt := resumed_at \<rparr>"

definition statusLine :: "ticket_status \<Rightarrow> ticket_status \<Rightarrow> instant \<Rightarrow> ticket_comment" where
  "statusLine x y now = feedLine 30 agent Com_status_change [] (Some (Fv_status x)) (Some (Fv_status y)) now"

definition statusEvent :: "ticket_status \<Rightarrow> ticket_status \<Rightarrow> billing_event" where
  "statusEvent x y = TicketEvent (Ev_ticket_status_changed x y None) 30 20 (Some 10) (Some 7)"

definition desk1 :: db where
  "desk1 = day0 \<lparr> db_tickets := [waiting_ticket], db_ticketComments := [statusLine Tk_open Tk_pending paused_at],
     db_events := [statusEvent Tk_open Tk_pending] \<rparr>"

definition desk2 :: db where
  "desk2 = day0 \<lparr> db_tickets := [resumed_ticket],
     db_ticketComments := [statusLine Tk_open Tk_pending paused_at, (statusLine Tk_pending Tk_open resumed_at) \<lparr> tcm_id := 1 \<rparr>],
     db_events := [statusEvent Tk_open Tk_pending, statusEvent Tk_pending Tk_open] \<rparr>"

lemmas desk_defs = agent_def toStatus_def noNote_def raised_at_def paused_at_def resumed_at_def work_ticket_def statusEvent_def

lemma changed_to_pending: "changeTicketStatus 30 (toStatus Tk_pending) noNote agent paused_at day0 = Inr (waiting_ticket, desk1)"
  by (simp add: changeTicketStatus_def getTicketOrThrow_def ticketOf_def selectOne_def day0_def empty_db_def resolveTarget_def resolveTicketPartnerId_def
      getSystemStatusId_def transitionPatch_def stampTransition_def foldPause_def isPaused_def TICKET_STATUS_TRANSITIONS_def minutesFit_def casTicket_def
      updateTickets_def updateWhere_def insertComment_def insertRow_def emit_def desk1_def statusLine_def feedLine_def waiting_ticket_def desk_defs)

lemma resumed_minutes: "computeDurationMinutes paused_at resumed_at = 30"
  by (simp add: computeDurationMinutes_exact resumed_at_def)

lemma changed_to_open: "changeTicketStatus 30 (toStatus Tk_open) noNote agent resumed_at desk1 = Inr (resumed_ticket, desk2)"
  using resumed_minutes
  by (simp add: changeTicketStatus_def getTicketOrThrow_def ticketOf_def selectOne_def day0_def empty_db_def resolveTarget_def resolveTicketPartnerId_def
      getSystemStatusId_def transitionPatch_def stampTransition_def foldPause_def isPaused_def TICKET_STATUS_TRANSITIONS_def minutesFit_def casTicket_def
      updateTickets_def updateWhere_def insertComment_def insertRow_def emit_def desk1_def desk2_def statusLine_def feedLine_def waiting_ticket_def
      resumed_ticket_def pausedMinutesAfter_def desk_defs)

lemma day0_desk: "desk_ok day0" "timed_ok raised_at (boardOf day0)" "timed_ok paused_at (boardOf day0)"
proof -
  have d: "db_next day0 = 100" "db_tickets day0 = [work_ticket]" "db_ticketComments day0 = []" "db_events day0 = []"
    by (simp_all add: day0_def empty_db_def)
  have "announced (boardOf day0) work_ticket" unfolding announced_def by (intro exI[of _ "[]"]) (simp add: d reasonOf_def work_ticket_def)
  then have ok: "board_ok (boardOf day0)" by (simp add: board_ok_def key_ok_def ticket_ok_def audited_def replay_def feedOf_def d work_ticket_def)
  then show "desk_ok day0" by (simp add: desk_ok_def keyed_feed_def d)
  show t: "timed_ok raised_at (boardOf day0)"
    using ok by (simp add: timed_ok_def on_clock_def clocked_def pauses_def feedOf_def d work_ticket_def raised_at_def)
  show "timed_ok paused_at (boardOf day0)" using timed_ok_mono[OF t] by (simp add: paused_at_def)
qed

lemma desk_steps: "desk_step paused_at day0 desk1" "desk_step resumed_at desk1 desk2"
  using changed_to_pending changed_to_open by (auto simp: desk_step_def intro: ticket_call.intros)

lemma desk_run: "(anytime desk_step)\<^sup>*\<^sup>* day0 desk2"
proof -
  have "anytime desk_step day0 desk1" "anytime desk_step desk1 desk2" using desk_steps unfolding anytime_def by blast+
  then show ?thesis by (meson converse_rtranclp_into_rtranclp r_into_rtranclp)
qed

lemma desk_timed: "resumed_at \<le> now \<Longrightarrow> timed_run desk_step paused_at day0 now desk2"
proof -
  assume "resumed_at \<le> now"
  have "timed_run desk_step paused_at day0 paused_at desk1"
    using timed_run.call[OF timed_run.start[of desk_step paused_at day0] desk_steps(1)] by (simp add: paused_at_def raised_at_def)
  then have "timed_run desk_step paused_at day0 resumed_at desk1" by (rule timed_run.wait) (simp add: resumed_at_def)
  from timed_run.call[where step = desk_step, OF this desk_steps(2)] have "timed_run desk_step paused_at day0 resumed_at desk2"
    by (simp add: resumed_at_def paused_at_def raised_at_def)
  then show "timed_run desk_step paused_at day0 now desk2" by (rule timed_run.wait) fact
qed

lemma desk2_sel: "db_tickets desk2 = [resumed_ticket]"
  "feedOf (db_ticketComments desk2) = [statusRow 30 Tk_open Tk_pending paused_at, statusRow 30 Tk_pending Tk_open resumed_at]"
  by (simp_all add: desk2_def feedOf_def statusLine_def statusRow_def)

lemma resumed_sel: "tk_id resumed_ticket = 30" "tk_status resumed_ticket = Tk_open" "tk_slaPausedAt resumed_ticket = None" "tk_slaPausedMinutes resumed_ticket = Some 30"
  "tk_resolvedAt resumed_ticket = None" "tk_createdAt resumed_ticket = raised_at" "tk_responseSlaMinutes resumed_ticket = Some 240"
  "tk_firstResponseAt resumed_ticket = None" "tk_slaBreachReason resumed_ticket = None" "tk_closedAt resumed_ticket = None" "tk_resolutionSlaMinutes resumed_ticket = Some 1440"
  by (simp_all add: resumed_ticket_def waiting_ticket_def work_ticket_def raised_at_def)

section \<open>The state of a ticket\<close>

text \<open>
  (C13) The columns of a ticket agree with its state. Whatever calls of the ticket service and the time tracking
  are made, and at whatever times, a ticket is the only one of its identifier; its clock is paused exactly while it is pending or
  on hold; it has a resolution time exactly while resolved or closed, a closing time and a closer exactly
  while closed, and a pending reason only while its clock is paused; its paused minutes are not negative.
\<close>

theorem ticket_states:
  assumes "(anytime desk_step)\<^sup>*\<^sup>* s t" "desk_ok s" "r \<in> set (db_tickets t)"
  shows "ticketOf t (tk_id r) = Some r \<and> (tk_slaPausedAt r \<noteq> None \<longleftrightarrow> tk_status r \<in> {Tk_pending, Tk_on_hold}) \<and>
    (tk_resolvedAt r \<noteq> None \<longleftrightarrow> tk_status r \<in> {Tk_resolved, Tk_closed}) \<and> (tk_closedAt r \<noteq> None \<longleftrightarrow> tk_status r = Tk_closed) \<and>
    (tk_closedBy r \<noteq> None \<longleftrightarrow> tk_status r = Tk_closed) \<and> (tk_pendingReason r \<noteq> None \<longrightarrow> tk_status r \<in> {Tk_pending, Tk_on_hold}) \<and>
    0 \<le> nullish (tk_slaPausedMinutes r) 0"
proof -
  have ok: "board_ok (boardOf t)" using desk.reaches_ok[OF assms(1,2)] by (simp add: desk_ok_def)
  have "ticketOf t (tk_id r) = Some r" using selectOne_key[OF board_okD(1)[OF ok]] assms(3) by (simp add: ticketOf_def)
  then show ?thesis using board_okD(3)[OF ok, of r] assms(3) by (auto simp: ticket_ok_def isPaused_def)
qed

theorem ticket_states_witness: "ticketOf desk2 30 = Some resumed_ticket \<and> tk_slaPausedAt resumed_ticket = None \<and> tk_resolvedAt resumed_ticket = None"
  using ticket_states[OF desk_run day0_desk(1), of resumed_ticket] by (simp add: desk2_sel resumed_sel)

text \<open>
  The feed of a ticket accounts for its clock: reading the status changes of its feed in order, opening
  a pause when one enters pending or on hold and adding its whole minutes when one leaves, gives the
  pause and the paused minutes stored on the ticket. The model reads one clock per call; in the code the
  columns take the time of the application and the line of the feed that of the database, a difference the
  replay would show.
\<close>

lemma feed_accounts_for_clock:
  assumes "(anytime desk_step)\<^sup>*\<^sup>* s t" "desk_ok s" "r \<in> set (db_tickets t)"
  shows "replay (tk_id r) (feedOf (db_ticketComments t)) = (tk_slaPausedAt r, nullish (tk_slaPausedMinutes r) 0)"
  using desk.reaches_ok[OF assms(1,2)] board_okD(3)[of "boardOf t" r] assms(3) by (simp add: desk_ok_def audited_def)

section \<open>The monitor\<close>

text \<open>
  (C12) The monitor is accurate to a minute per pause. In every run with a clock that does not go back, let the active
  time of a ticket be its age less the time it was pending or on hold, to the millisecond, by its feed. A
  monitored target that is neither met nor stamped is due once the active time reaches it, and it is due
  only if the active time is at most one minute per pause short of it.
\<close>

theorem monitor_accurate:
  assumes "timed_run desk_step m s now t" "desk_ok s" "timed_ok m (boardOf s)" "0 \<le> m" "r \<in> set (db_tickets t)"
    and "tk_status r = Tk_new \<or> tk_status r = Tk_open" "\<not> targetMet k r" "targetMinutes k r = Some n" "k \<notin> set (breachedTargets (tk_slaBreachReason r))"
    and "active = now - tk_createdAt r - pausedMs (tk_id r) (feedOf (db_ticketComments t))"
  shows "(60000 * n \<le> active \<longrightarrow> breachDue k now r) \<and>
    (breachDue k now r \<longrightarrow> 60000 * n - 59999 * int (pauseCount (tk_id r) (feedOf (db_ticketComments t))) \<le> active)"
proof -
  have ok: "board_ok (boardOf t)" "on_clock now (boardOf t) r"
    using desk.run_ok[OF assms(1-4)] assms(5) by (auto simp: desk_ok_def timed_ok_def)
  have r: "ticket_ok r" "announced (boardOf t) r" using board_okD(3)[OF ok(1), of r] assms(5) by simp_all
  obtain ks where "distinct ks" "tk_slaBreachReason r = reasonOf ks" using r(2) by (auto simp: announced_def)
  then have "targetText k \<notin> set (splitOn (CHR '','') (nullish (tk_slaBreachReason r) []))"
    using assms(9) breachedTargets_reasonOf[of ks] listed_iff[of k ks] by simp
  from breachDue_accurate[OF ok(2) r(1) assms(6-8) this] show ?thesis using assms(10) by simp
qed

theorem monitor_accurate_witness: "breachDue Sla_response (raised_at + 240 * 60000 + 1859000) resumed_ticket"
proof -
  have p: "pausedMs 30 [statusRow 30 Tk_open Tk_pending paused_at, statusRow 30 Tk_pending Tk_open resumed_at] = 1859000"
    by (simp add: pausedMs_def pauses_def statusRow_def resumed_at_def)
  have b: "breachedTargets None = []" using breachedTargets_reasonOf[of "[]"] by (simp add: reasonOf_def)
  show ?thesis
    using monitor_accurate[OF desk_timed day0_desk(1,3), of "raised_at + 240 * 60000 + 1859000" resumed_ticket Sla_response 240 "240 * 60000"]
    by (simp add: desk2_sel resumed_sel p b targetMet_def targetMinutes_def) (simp add: paused_at_def raised_at_def resumed_at_def)
qed

text \<open>What a run of the monitor adds to the targets on record, and what it announces when nothing is lost.\<close>

lemma stamp_lists:
  assumes "announced b q" "breachDue l now q"
  shows "set (breachedTargets (tk_slaBreachReason (stampBreach l now q))) = insert l (set (breachedTargets (tk_slaBreachReason q)))"
proof -
  obtain ks where ks: "distinct ks" "tk_slaBreachReason q = reasonOf ks" using assms(1) by (auto simp: announced_def)
  then have "l \<notin> set ks" using assms(2) listed_iff[of l ks] by (auto simp: breachDue_def)
  then show ?thesis using ks breachedTargets_reasonOf[of ks] breachedTargets_reasonOf[of "ks @ [l]"] stampBreach_reason[of l ks q now] by simp
qed

lemma stamped_lists:
  assumes "board_ok b" "bd_tickets b = db_tickets s" "q' \<in> set (db_tickets (stamped l now s))"
  shows "\<exists>q \<in> set (db_tickets s). tk_id q = tk_id q' \<and>
    (k \<in> set (breachedTargets (tk_slaBreachReason q')) \<longrightarrow> k \<in> set (breachedTargets (tk_slaBreachReason q)) \<or> k = l \<and> q \<in> set (stampedRows l now s))"
proof -
  obtain q where q: "q \<in> set (db_tickets s)" "q' = (if tk_id q \<in> dueIds l now s then stampBreach l now q else q)"
    using assms(3) by (auto simp: stamped_def set_updateWhere)
  have "announced b q" "key_ok tk_id (bd_next b) (db_tickets s)" using board_okD(1,3)[OF assms(1)] assms(2) q(1) by simp_all
  then show ?thesis using q stamp_lists[of b q l now] dueIds_due[of _ s q l now] by (auto simp: stampedRows_def)
qed

lemma sweep_announces:
  assumes "desk_ok s" "slaSweepJob arrives now s = (n, t)" "\<And>e. fst (arrives e)" "r \<in> set (db_tickets s)" "r' \<in> set (db_tickets t)"
    and "tk_id r' = tk_id r" "k \<notin> set (breachedTargets (tk_slaBreachReason r))" "k \<in> set (breachedTargets (tk_slaBreachReason r'))"
  shows "(tk_id r, k) \<in> set (concat (map breachOf (db_events t)))"
proof -
  let ?u = "stamped Sla_response now s" and ?b = "stampBoard arrives Sla_response now s (boardOf s)"
  have ok: "board_ok (boardOf s)" using assms(1) by (simp add: desk_ok_def)
  have ok1: "board_ok ?b" using board_move_ok[OF stampBoard_move[OF _ ok] ok] by simp
  have t: "db_tickets t = db_tickets (stamped Sla_resolution now ?u)"
    "set (concat (map breachOf (db_events t))) \<supseteq> (\<lambda>q. (tk_id q, Sla_response)) ` set (stampedRows Sla_response now s) \<union>
       (\<lambda>q. (tk_id q, Sla_resolution)) ` set (stampedRows Sla_resolution now ?u)"
    using assms(2,3) unfolding slaSweepJob_eq Let_def by (auto simp only: notify_sel prod.inject) (auto simp: image_iff)
  obtain q where q: "q \<in> set (db_tickets ?u)" "tk_id q = tk_id r"
    "k \<in> set (breachedTargets (tk_slaBreachReason q)) \<or> k = Sla_resolution \<and> q \<in> set (stampedRows Sla_resolution now ?u)"
    using stamped_lists[OF ok1, of ?u r' Sla_resolution now k] assms(5,6,8) t(1) by (auto simp: stampBoard_def)
  obtain p where p: "p \<in> set (db_tickets s)" "tk_id p = tk_id q"
    "k \<in> set (breachedTargets (tk_slaBreachReason q)) \<longrightarrow> k \<in> set (breachedTargets (tk_slaBreachReason p)) \<or> k = Sla_response \<and> p \<in> set (stampedRows Sla_response now s)"
    using stamped_lists[OF ok _ q(1), of k] by auto
  have "p = r" using key_ok_unique[OF board_okD(1)[OF ok], of p r] p(1,2) q(2) assms(4) by simp
  then have "(tk_id r, k) \<in> (\<lambda>q. (tk_id q, Sla_response)) ` set (stampedRows Sla_response now s) \<union>
      (\<lambda>q. (tk_id q, Sla_resolution)) ` set (stampedRows Sla_resolution now ?u)"
    using p(2,3) q(2,3) assms(7) by (auto intro: rev_image_eqI)
  then show ?thesis using t(2) by blast
qed

text \<open>
  (C15) A breach is announced at most once. Whatever calls are made and whatever announcements are lost, the breach
  events of a ticket and a target number at most one, and none while the target is not on the ticket's list of
  breached targets; a run of the monitor whose announcements all reach the queue has exactly one for every target
  it stamps. The statement of the monitor extends the list as \<open>appendBreachTarget\<close> does.
\<close>

theorem breach_announced_at_most_once:
  assumes "(anytime desk_step)\<^sup>*\<^sup>* s t" "desk_ok s" "r \<in> set (db_tickets t)"
  shows "count_list (concat (map breachOf (db_events t))) (tk_id r, k) \<le> (if k \<in> set (breachedTargets (tk_slaBreachReason r)) then 1 else 0) \<and>
    (k \<notin> set (breachedTargets (tk_slaBreachReason r)) \<longrightarrow> tk_slaBreachReason (stampBreach k now r) = Some (appendBreachTarget (tk_slaBreachReason r) k)) \<and>
    (\<forall>arrives n u r'. slaSweepJob arrives now t = (n, u) \<and> (\<forall>e. fst (arrives e)) \<and> r' \<in> set (db_tickets u) \<and> tk_id r' = tk_id r \<and>
       k \<in> set (breachedTargets (tk_slaBreachReason r')) - set (breachedTargets (tk_slaBreachReason r)) \<longrightarrow>
       count_list (concat (map breachOf (db_events u))) (tk_id r, k) = 1)"
proof -
  have at_most: "count_list (concat (map breachOf (db_events u))) (tk_id q, k) \<le> (if k \<in> set (breachedTargets (tk_slaBreachReason q)) then 1 else 0)"
    if u: "desk_ok u" "q \<in> set (db_tickets u)" for u q
  proof -
    obtain ks where ks: "distinct ks" "tk_slaBreachReason q = reasonOf ks"
      "\<forall>l. count_list (concat (map breachOf (db_events u))) (tk_id q, l) \<le> (if l \<in> set ks then 1 else 0)"
      using u board_okD(3)[of "boardOf u" q] by (auto simp: desk_ok_def announced_def)
    then show ?thesis using breachedTargets_reasonOf[OF ks(1)] ks(3)[rule_format, of k] by simp
  qed
  have ok: "desk_ok t" by (rule desk.reaches_ok[OF assms(1,2)])
  have "announced (boardOf t) r" using ok board_okD(3)[of "boardOf t" r] assms(3) by (simp add: desk_ok_def)
  then obtain ks where ks: "distinct ks" "tk_slaBreachReason r = reasonOf ks" by (auto simp: announced_def)
  have sql: "tk_slaBreachReason (stampBreach k now r) = Some (appendBreachTarget (tk_slaBreachReason r) k)" if "k \<notin> set (breachedTargets (tk_slaBreachReason r))"
    using that ks breachedTargets_reasonOf[OF ks(1)] stampBreach_reason[OF _ ks(2), of k now] appendBreachTarget_reason[OF ks(1), of k] by simp
  have one: "count_list (concat (map breachOf (db_events u))) (tk_id r, k) = 1"
    if w: "slaSweepJob arrives now t = (n, u)" "\<forall>e. fst (arrives e)" "r' \<in> set (db_tickets u)" "tk_id r' = tk_id r"
      "k \<in> set (breachedTargets (tk_slaBreachReason r')) - set (breachedTargets (tk_slaBreachReason r))" for arrives n u r'
  proof -
    have "(tk_id r, k) \<in> set (concat (map breachOf (db_events u)))" using sweep_announces[OF ok w(1) _ assms(3) w(3,4)] w(2,5) by blast
    then have "count_list (concat (map breachOf (db_events u))) (tk_id r, k) \<noteq> 0" by (simp only: count_list_0_iff) simp
    moreover have "desk_ok u" using desk_moves_ok[OF sweep_frame(2)[OF w(1)]] ok by blast
    ultimately show ?thesis using at_most[of u r'] w(3-5) by simp
  qed
  show ?thesis using at_most[OF ok assms(3)] sql one by blast
qed

text \<open>The worked ticket an hour after its response target: the monitor stamps and announces it.\<close>

definition breach_at :: instant where
  "breach_at = raised_at + 18000000"

definition breached_ticket :: ticket where
  "breached_ticket = resumed_ticket \<lparr> tk_slaBreachedAt := Some breach_at, tk_slaBreachReason := Some ''response'', tk_updatedAt := breach_at \<rparr>"

definition desk3 :: "(ticket \<times> sla_target \<Rightarrow> bool \<times> bool) \<Rightarrow> db" where
  "desk3 arrives = notifyBreaches arrives [(breached_ticket, Sla_response)] (desk2 \<lparr> db_tickets := [breached_ticket] \<rparr>)"

lemma swept: "slaSweepJob arrives breach_at desk2 = (1, desk3 arrives)"
proof -
  have r: "breachDue Sla_response breach_at resumed_ticket" "\<not> breachDue Sla_resolution breach_at breached_ticket"
    by (simp_all add: breachDue_def targetMet_def targetMinutes_def targetText_def breached_ticket_def resumed_sel breach_at_def)
  have b: "stampBreach Sla_response breach_at resumed_ticket = breached_ticket"
    by (simp add: stampBreach_def breached_ticket_def resumed_ticket_def waiting_ticket_def work_ticket_def targetText_def)
  have i: "tk_id breached_ticket = 30" by (simp add: breached_ticket_def resumed_sel)
  show ?thesis using r b i
    by (simp add: slaSweepJob_def sweepTicketSlaBreaches_def stampBreaches_def selectWhere_def desk2_sel MAX_BREACHES_PER_RUN_def updateTickets_def
        updateWhere_def resumed_sel desk3_def)
qed

theorem breach_announced_at_most_once_witness:
  "count_list (concat (map breachOf (db_events desk2))) (30, Sla_response) = 0 \<and>
   count_list (concat (map breachOf (db_events (desk3 (\<lambda>_. (True, True)))))) (30, Sla_response) = 1"
proof -
  have r: "resumed_ticket \<in> set (db_tickets desk2)" "breached_ticket \<in> set (db_tickets (desk3 a))" "tk_id resumed_ticket = 30" "tk_id breached_ticket = 30"
    "breachedTargets (tk_slaBreachReason breached_ticket) = [Sla_response]" "breachedTargets (tk_slaBreachReason resumed_ticket) = []" for a
    using breachedTargets_reasonOf[of "[Sla_response]"] breachedTargets_reasonOf[of "[]"]
    by (simp_all add: desk3_def notify_sel breached_ticket_def resumed_sel reasonOf_def targetText_def desk2_sel)
  show ?thesis
    using breach_announced_at_most_once[OF desk_run day0_desk(1) r(1), of Sla_response breach_at] swept[of "\<lambda>_. (True, True)"] r(2-6) by force
qed

text \<open>How many tickets are due, and what a stamp does to it.\<close>

definition dueCount :: "sla_target \<Rightarrow> instant \<Rightarrow> db \<Rightarrow> nat" where
  "dueCount k now s = length (filter (breachDue k now) (db_tickets s))"

lemma stamp_due:
  assumes "announced b r" "breachDue k now r"
  shows "breachDue l now (stampBreach k now r) \<longleftrightarrow> l \<noteq> k \<and> breachDue l now r"
proof -
  obtain ks where ks: "distinct ks" "tk_slaBreachReason r = reasonOf ks" using assms(1) by (auto simp: announced_def)
  then have k: "k \<notin> set ks" using assms(2) listed_iff[of k ks] by (auto simp: breachDue_def)
  have "targetText l \<in> set (splitOn (CHR '','') (nullish (tk_slaBreachReason (stampBreach k now r)) [])) \<longleftrightarrow> l = k \<or> l \<in> set ks"
    using listed_iff[of l "ks @ [k]"] stampBreach_reason[OF k ks(2)] by auto
  moreover have "targetText l \<in> set (splitOn (CHR '','') (nullish (tk_slaBreachReason r) [])) \<longleftrightarrow> l \<in> set ks" using listed_iff ks(2) by simp
  moreover have "targetMet l (stampBreach k now r) = targetMet l r" "targetMinutes l (stampBreach k now r) = targetMinutes l r"
    by (simp_all add: stampBreach_def targetMet_def targetMinutes_def split: sla_target.split)
  ultimately show ?thesis by (auto simp: breachDue_def split: option.splits)
qed

lemma stampedRows_length:
  assumes "key_ok tk_id n (db_tickets s)"
  shows "length (stampedRows k now s) = min MAX_BREACHES_PER_RUN (dueCount k now s)"
proof -
  let ?due = "take MAX_BREACHES_PER_RUN (sort_key tk_createdAt (filter (breachDue k now) (db_tickets s)))"
  have d: "distinct (db_tickets s)" using assms by (auto simp: key_ok_def distinct_map)
  have due: "set ?due \<subseteq> set (db_tickets s)" using set_take_subset[of MAX_BREACHES_PER_RUN] by fastforce
  have "set (stampedRows k now s) = set ?due"
  proof (intro set_eqI iffI)
    fix r
    assume r: "r \<in> set (stampedRows k now s)"
    then obtain q where q: "q \<in> set ?due" "tk_id r = tk_id q" by (auto simp: stampedRows_def dueIds_def)
    moreover have "r \<in> set (db_tickets s)" using r by (simp add: stampedRows_def)
    ultimately have "r = q" using due by (intro key_ok_unique[OF assms]) auto
    then show "r \<in> set ?due" using q(1) by simp
  qed (use due in \<open>auto simp: stampedRows_def dueIds_def\<close>)
  moreover have "distinct (stampedRows k now s)" "distinct ?due" using d by (simp_all add: stampedRows_def)
  ultimately have "length (stampedRows k now s) = length ?due" by (metis distinct_card)
  then show ?thesis by (simp add: dueCount_def min.commute)
qed

lemma stamped_count:
  assumes "key_ok tk_id n (db_tickets s)" "\<And>r. r \<in> set (db_tickets s) \<Longrightarrow> announced b r"
  shows "dueCount l now (stamped k now s) = (if l = k then dueCount k now s - MAX_BREACHES_PER_RUN else dueCount l now s)"
proof -
  let ?D = "dueIds k now s"
  have e: "breachDue l now (if tk_id r \<in> ?D then stampBreach k now r else r) \<longleftrightarrow> breachDue l now r \<and> (l = k \<longrightarrow> tk_id r \<notin> ?D)" if "r \<in> set (db_tickets s)" for r
    using stamp_due[OF assms(2)[OF that], of k now l] dueIds_due[OF assms(1) that, of k now] by auto
  have "dueCount l now (stamped k now s) = length (filter (\<lambda>r. breachDue l now r \<and> (l = k \<longrightarrow> tk_id r \<notin> ?D)) (db_tickets s))"
    using e by (simp add: dueCount_def stamped_def updateWhere_def filter_map comp_def cong: filter_cong)
  moreover have "length (filter (\<lambda>r. breachDue k now r \<and> tk_id r \<notin> ?D) (db_tickets s)) + length (stampedRows k now s) = dueCount k now s"
  proof -
    have "stampedRows k now s = filter (\<lambda>r. tk_id r \<in> ?D) (filter (breachDue k now) (db_tickets s))"
      using dueIds_due[OF assms(1)] unfolding stampedRows_def filter_filter by (intro filter_cong) auto
    then show ?thesis using sum_length_filter_compl[of "\<lambda>r. tk_id r \<in> ?D" "filter (breachDue k now) (db_tickets s)"]
      by (simp add: dueCount_def conj_commute)
  qed
  ultimately show ?thesis using stampedRows_length[OF assms(1), of k now] by (auto simp: dueCount_def)
qed

lemma sweep_count:
  assumes "desk_ok s" "slaSweepJob arrives now s = (n, t)"
  shows "dueCount k now t = dueCount k now s - MAX_BREACHES_PER_RUN"
    "n = min MAX_BREACHES_PER_RUN (dueCount Sla_response now s) + min MAX_BREACHES_PER_RUN (dueCount Sla_resolution now s)"
proof -
  let ?u = "stamped Sla_response now s" and ?b = "stampBoard arrives Sla_response now s (boardOf s)"
  have ok: "board_ok (boardOf s)" using assms(1) by (simp add: desk_ok_def)
  have ok1: "board_ok ?b" using board_move_ok[OF stampBoard_move[OF _ ok] ok] by simp
  have key: "key_ok tk_id (db_next s) (db_tickets s)" "key_ok tk_id (db_next s) (db_tickets ?u)"
    using board_okD(1)[OF ok] board_okD(1)[OF ok1] by (simp_all add: stampBoard_def)
  note c = stamped_count[OF key(1), of "boardOf s" _ now Sla_response] stamped_count[OF key(2), of ?b _ now Sla_resolution]
  have a: "announced (boardOf s) r" if "r \<in> set (db_tickets s)" for r using board_okD(3)[OF ok, of r] that by simp
  have a1: "announced ?b r" if "r \<in> set (db_tickets ?u)" for r using board_okD(3)[OF ok1, of r] that by (simp add: stampBoard_def)
  have "dueCount k now t = dueCount k now (stamped Sla_resolution now ?u)"
    using assms(2) by (auto simp: slaSweepJob_eq Let_def dueCount_def notify_sel)
  then show "dueCount k now t = dueCount k now s - MAX_BREACHES_PER_RUN" using c a a1 by (cases k) simp_all
  show "n = min MAX_BREACHES_PER_RUN (dueCount Sla_response now s) + min MAX_BREACHES_PER_RUN (dueCount Sla_resolution now s)"
    using assms(2) stampedRows_length[OF key(1)] stampedRows_length[OF key(2)] c(1)[OF a, of Sla_resolution] by (auto simp: slaSweepJob_eq Let_def)
qed

text \<open>
  (C16) The monitor gets to every breach. A run stamps two hundred tickets that are due for each target, or all
  when there are fewer, and counts them, so that enough runs at one instant leave no ticket due, whatever announcements are
  lost.
\<close>

theorem sweeps_clear_due:
  assumes "desk_ok s" "dueCount k now s \<le> 200 * length runs"
  shows "filter (breachDue k now) (db_tickets (fold (\<lambda>arrives u. snd (slaSweepJob arrives now u)) runs s)) = [] \<and>
    fst (slaSweepJob arrives now s) = min 200 (dueCount Sla_response now s) + min 200 (dueCount Sla_resolution now s)"
proof -
  have "dueCount k now (fold (\<lambda>arrives u. snd (slaSweepJob arrives now u)) runs s) = dueCount k now s - 200 * length runs"
    using assms(1)
  proof (induction runs arbitrary: s)
    case (Cons a runs)
    have u: "slaSweepJob a now s = (fst (slaSweepJob a now s), snd (slaSweepJob a now s))" by simp
    have "desk_ok (snd (slaSweepJob a now s))" using desk_moves_ok[OF sweep_frame(2)[OF u]] Cons.prems by blast
    then show ?case using Cons.IH sweep_count(1)[OF Cons.prems u, of k] by (simp add: MAX_BREACHES_PER_RUN_def)
  qed simp
  then have "dueCount k now (fold (\<lambda>arrives u. snd (slaSweepJob arrives now u)) runs s) = 0" using assms(2) by simp
  moreover have "slaSweepJob arrives now s = (fst (slaSweepJob arrives now s), snd (slaSweepJob arrives now s))" by simp
  from sweep_count(2)[OF assms(1) this]
  have "fst (slaSweepJob arrives now s) = min 200 (dueCount Sla_response now s) + min 200 (dueCount Sla_resolution now s)" by (simp add: MAX_BREACHES_PER_RUN_def)
  ultimately show ?thesis by (simp add: dueCount_def)
qed

theorem sweeps_clear_due_witness:
  "filter (breachDue Sla_response breach_at) (db_tickets (desk3 (\<lambda>_. (False, False)))) = [] \<and> dueCount Sla_response breach_at desk2 = 1"
proof -
  have r: "dueCount Sla_response breach_at desk2 = 1"
    by (simp add: dueCount_def desk2_sel breachDue_def targetMet_def targetMinutes_def targetText_def resumed_sel breach_at_def)
  have "desk_ok desk2" using desk.reaches_ok[OF desk_run day0_desk(1)] .
  then show ?thesis using sweeps_clear_due[of desk2 Sla_response breach_at "[\<lambda>_. (False, False)]"] r swept by simp
qed

section \<open>Tenants\<close>

definition tenant_ok :: "db \<Rightarrow> ticket \<Rightarrow> bool" where
  "tenant_ok s r \<longleftrightarrow> (\<exists>org. orgOf s (tk_orgId r) = Some org \<and> tk_partnerId r = Some (org_partnerId org) \<and>
     (\<forall>u. tk_assignedTo r = Some u \<longrightarrow> map_option usr_partnerId (getAssigneeForValidation u s) = Some (org_partnerId org)) \<and>
     (\<forall>c. tk_categoryId r = Some c \<longrightarrow> map_option tcat_partnerId (getCategoryDefaults c s) = Some (org_partnerId org)) \<and>
     (\<forall>d. tk_deviceId r = Some d \<longrightarrow> map_option dev_orgId (selectOne (\<lambda>v. dev_id v = d) (db_devices s)) = Some (tk_orgId r)))"

definition tenants_ok :: "db \<Rightarrow> bool" where
  "tenants_ok s \<longleftrightarrow> key_ok tk_id (db_next s) (db_tickets s) \<and> (\<forall>r \<in> set (db_tickets s). tenant_ok s r)"

definition place :: "ticket \<Rightarrow> uuid \<times> uuid option \<times> uuid option \<times> uuid option \<times> uuid option" where
  "place r = (tk_orgId r, tk_partnerId r, tk_assignedTo r, tk_categoryId r, tk_deviceId r)"

definition same_world :: "db \<Rightarrow> db \<Rightarrow> bool" where
  "same_world s t \<longleftrightarrow> db_organizations t = db_organizations s \<and> db_users t = db_users s \<and> db_ticketCategories t = db_ticketCategories s \<and> db_devices t = db_devices s"

lemma tenant_ok_cong: "same_world s t \<Longrightarrow> place q = place r \<Longrightarrow> tenant_ok t q = tenant_ok s r"
  by (simp add: tenant_ok_def same_world_def place_def orgOf_def getAssigneeForValidation_def getCategoryDefaults_def)

lemma desk_only_world: "desk_only s t \<Longrightarrow> same_world s t"
  using elsewhereD[of t s] by (simp add: desk_only_def same_world_def)

lemma guards_tenant:
  "assertAssigneeInPartner u (Some p) s = Inr x \<Longrightarrow> map_option usr_partnerId (getAssigneeForValidation u s) = Some p"
  "assertCategoryInPartner c (Some p) s = Inr y \<Longrightarrow> map_option tcat_partnerId (getCategoryDefaults c s) = Some p"
  "assertDeviceInOrg d g s = Inr z \<Longrightarrow> map_option dev_orgId (selectOne (\<lambda>v. dev_id v = d) (db_devices s)) = Some g"
  by (auto simp: assertAssigneeInPartner_def assertCategoryInPartner_def assertDeviceInOrg_def throwIfPartnerUnresolvable_def guard_simps)

text \<open>Rows that a statement keeps in place, and the one row that a call writes after its guards.\<close>

lemma tenants_update:
  assumes "tenants_ok s" "same_world s t" "db_next s \<le> db_next t" "db_tickets t = updateWhere P f (db_tickets s)" "\<And>r. tk_id (f r) = tk_id r"
    and "\<And>r. r \<in> set (db_tickets s) \<Longrightarrow> P r \<Longrightarrow> tenant_ok s r \<Longrightarrow> tenant_ok s (f r)"
  shows "tenants_ok t"
proof -
  have "tenant_ok t q" if q: "q \<in> set (db_tickets t)" for q
  proof -
    obtain r where r: "r \<in> set (db_tickets s)" "q = (if P r then f r else r)" using q by (auto simp: assms(4) set_updateWhere)
    moreover have "tenant_ok s r" using r(1) assms(1) by (simp add: tenants_ok_def)
    ultimately show ?thesis using assms(6)[OF r(1)] tenant_ok_cong[OF assms(2) refl] by simp
  qed
  moreover have "key_ok tk_id (db_next t) (db_tickets t)"
    using assms(1,3,4,5) by (auto simp: tenants_ok_def key_ok_updateWhere_iff intro: key_ok_mono)
  ultimately show ?thesis by (simp add: tenants_ok_def)
qed

lemma tenants_same: "tenants_ok s \<Longrightarrow> desk_only s t \<Longrightarrow> db_tickets t = db_tickets s \<Longrightarrow> tenants_ok t"
  using tenants_update[of s t "\<lambda>_. False" id] desk_only_world[of s t] by (simp add: updateWhere_def desk_only_def)

lemma tenants_place:
  assumes "tenants_ok s" "desk_only s t" "db_tickets t = updateWhere P f (db_tickets s)" "\<And>r. tk_id (f r) = tk_id r" "\<And>r. place (f r) = place r"
  shows "tenants_ok t"
proof (rule tenants_update[OF assms(1) desk_only_world[OF assms(2)] _ assms(3,4)])
  show "tenant_ok s (f r)" if "tenant_ok s r" for r using that tenant_ok_cong[of s s "f r" r] assms(5) by (simp add: same_world_def)
qed (use assms(2) in \<open>simp add: desk_only_def\<close>)

lemma tenants_create:
  assumes "createTicket input a v year now s = Inr (r, t)" "tenants_ok s"
  shows "tenants_ok t"
  using assms(1)
proof (rule createTicket_eq)
  fix q e org
  assume t: "t = emit e (s \<lparr> db_ticketSequences := q, db_next := Suc (db_next s), db_tickets := insertRow r (db_tickets s) \<rparr>)" and i: "tk_id r = db_next s"
    and r: "orgOf s (cti_orgId input) = Some org" "tk_orgId r = cti_orgId input" "tk_partnerId r = Some (org_partnerId org)" "tk_assignedTo r = cti_assigneeId input"
      "tk_categoryId r = cti_categoryId input" "tk_deviceId r = cti_deviceId input"
    and g: "\<And>u. cti_assigneeId input = Some u \<Longrightarrow> assertAssigneeInPartner u (Some (org_partnerId org)) s = Inr ()"
      "\<And>c. cti_categoryId input = Some c \<Longrightarrow> \<exists>x. assertCategoryInPartner c (Some (org_partnerId org)) s = Inr x"
      "\<And>d. cti_deviceId input = Some d \<Longrightarrow> assertDeviceInOrg d (cti_orgId input) s = Inr ()"
  have "\<And>u. cti_assigneeId input = Some u \<Longrightarrow> map_option usr_partnerId (getAssigneeForValidation u s) = Some (org_partnerId org)"
    "\<And>c. cti_categoryId input = Some c \<Longrightarrow> map_option tcat_partnerId (getCategoryDefaults c s) = Some (org_partnerId org)"
    "\<And>d. cti_deviceId input = Some d \<Longrightarrow> map_option dev_orgId (selectOne (\<lambda>v. dev_id v = d) (db_devices s)) = Some (cti_orgId input)"
    using g guards_tenant by blast+
  then have "tenant_ok s r" using r by (simp add: tenant_ok_def)
  moreover have "same_world s t" by (simp add: t same_world_def)
  ultimately show ?thesis using assms(2) key_ok_insertRow[where k = tk_id, OF _ i] tenant_ok_cong[OF \<open>same_world s t\<close> refl]
    by (auto simp: tenants_ok_def t set_insertRow)
qed

lemma tenants_fields:
  assumes "updateTicketFields i f a now s = Inr (q, t)" "tenants_ok s"
  shows "tenants_ok t"
  using assms(1)
proof (cases rule: updateTicketFields_eq)
  case (patched r p)
  have "desk_only s t" using patched(4,5) by (simp add: desk_only_def)
  then show ?thesis
  proof (intro tenants_update[OF assms(2) desk_only_world _ patched(6)])
    fix x
    assume "x \<in> set (db_tickets s)" "tk_id x = i" and ok: "tenant_ok s x"
    then have x: "x = r" using assms(2) patched(1,2) by (auto simp: tenants_ok_def dest: key_ok_unique)
    obtain org where org: "orgOf s (tk_orgId r) = Some org" "tk_partnerId r = Some (org_partnerId org)" using ok x by (auto simp: tenant_ok_def)
    have "map_option tcat_partnerId (getCategoryDefaults c s) = Some (org_partnerId org)" if "ufi_categoryId f = Some (Some c)" for c
      using patched(10)[OF that] guards_tenant(2) org(2) by (auto simp: resolveTicketPartnerId_def)
    moreover have "map_option dev_orgId (selectOne (\<lambda>v. dev_id v = d) (db_devices s)) = Some (tk_orgId r)" if "ufi_deviceId f = Some (Some d)" for d
      using patched(9)[OF that] guards_tenant(3) by blast
    ultimately show "tenant_ok s (patchTicket f p now x)"
      using ok x org by (auto simp: tenant_ok_def patchTicket_def nullish_def split: option.splits)
  qed (simp_all add: patchTicket_def desk_only_def)
qed (use assms(2) in simp)

lemma tenants_assign:
  assumes "assignTicket i u a now s = Inr (q, t)" "tenants_ok s"
  shows "tenants_ok t"
proof -
  obtain r where r: "r \<in> set (db_tickets s)" "tk_id r = i" "assignWrite r u a now s = Inr (q, t)"
    "\<And>x. u = Some x \<Longrightarrow> assertAssigneeInPartner x (resolveTicketPartnerId r s) s = Inr ()"
    using assignTicket_eq[OF assms(1)] by blast
  have t: "db_tickets t = updateWhere (\<lambda>p. tk_id p = tk_id r \<and> tk_assignedTo p = tk_assignedTo r) (assignPatch r u now) (db_tickets s)"
    using r(3) by (rule assignWrite_eq) simp
  show ?thesis
  proof (rule tenants_update[OF assms(2) desk_only_world[OF assign_frame(1)[OF assms(1)]] _ t])
    fix x
    assume "x \<in> set (db_tickets s)" "tk_id x = tk_id r \<and> tk_assignedTo x = tk_assignedTo r" and ok: "tenant_ok s x"
    then have x: "x = r" using assms(2) r(1) by (auto simp: tenants_ok_def dest: key_ok_unique)
    obtain org where org: "orgOf s (tk_orgId r) = Some org" "tk_partnerId r = Some (org_partnerId org)" using ok x by (auto simp: tenant_ok_def)
    have "map_option usr_partnerId (getAssigneeForValidation y s) = Some (org_partnerId org)" if "u = Some y" for y
      using r(4)[OF that] guards_tenant(1) org(2) by (auto simp: resolveTicketPartnerId_def)
    then show "tenant_ok s (assignPatch r u now x)" using ok x org by (auto simp: tenant_ok_def assignPatch_def)
  qed (use assign_frame(1)[OF assms(1)] in \<open>simp_all add: assignPatch_def desk_only_def\<close>)
qed

lemma tenants_move:
  assumes "moveTicketOrg i g a now s = Inr (q, t)" "tenants_ok s"
  shows "tenants_ok t"
  using assms(1)
proof (cases rule: moveTicketOrg_eq)
  case (moved r target src)
  have t: "db_tickets t = updateWhere (\<lambda>r. tk_id r = i) (\<lambda>r. r \<lparr> tk_orgId := g, tk_deviceId := None, tk_updatedAt := now \<rparr>) (db_tickets s)"
    by (simp add: moved(7) restampOrg_def)
  have w: "same_world s t" "db_next t = db_next s" by (simp_all add: moved(7) same_world_def insertComment_def restampOrg_def)
  show ?thesis
  proof (rule tenants_update[OF assms(2) w(1) _ t])
    fix x
    assume "x \<in> set (db_tickets s)" "tk_id x = i" and ok: "tenant_ok s x"
    then have "x = r" using assms(2) moved(1,2) by (auto simp: tenants_ok_def dest: key_ok_unique)
    then show "tenant_ok s (x \<lparr> tk_orgId := g, tk_deviceId := None, tk_updatedAt := now \<rparr>)" using ok moved(4-6) by (auto simp: tenant_ok_def)
  qed (simp_all add: w)
qed (use assms(2) in simp)

lemma tenants_sweep:
  assumes "slaSweepJob arrives now s = (n, t)" "tenants_ok s"
  shows "tenants_ok t"
proof -
  have keep: "tenants_ok (stamped k now u)" if "tenants_ok u" for k u
    by (rule tenants_place[OF that, where t = "stamped k now u" and f = "stampBreach k now"]) (simp_all add: stamped_def desk_only_def, simp add: stampBreach_def place_def)
  obtain rows where t: "t = notifyBreaches arrives rows (stamped Sla_resolution now (stamped Sla_response now s))"
    using assms(1) by (auto simp: slaSweepJob_eq Let_def)
  show ?thesis by (rule tenants_same[OF keep[OF keep[OF assms(2)]]]) (simp_all add: t notify_sel desk_only_def)
qed

lemma tenants_status:
  assumes "changeTicketStatus i target opts a now s = Inr (q, t)" "tenants_ok s"
  shows "tenants_ok t"
proof -
  note d = status_frame(1)[OF assms(1)]
  have p: "place (transitionPatch r st sid opts u now x) = place x" for r st sid u x
    by (simp add: place_def transitionPatch_def foldPause_def stampTransition_def)
  from assms(1) show ?thesis
  proof (cases rule: changeTicketStatus_cases)
    case (relabel r sid x)
    then have "db_tickets t = updateWhere (\<lambda>p. tk_id p = tk_id r \<and> tk_status p = tk_status r \<and> tk_statusId p = tk_statusId r)
        (\<lambda>p. p \<lparr> tk_statusId := sid, tk_updatedAt := now \<rparr>) (db_tickets s)" by auto
    then show ?thesis by (rule tenants_place[OF assms(2) d]) (simp_all add: place_def)
  next
    case (change r st sid x e)
    then have "db_tickets t = updateWhere (\<lambda>p. tk_id p = i \<and> tk_status p = tk_status r) (transitionPatch r st sid opts (tka_userId a) now) (db_tickets s)" by simp
    then show ?thesis by (rule tenants_place[OF assms(2) d]) (simp_all add: p)
  qed (use assms(2) in simp)
qed

lemma tenants_comment:
  assumes "addTicketComment i v pub a now s = Inr (c, t)" "tenants_ok s"
  shows "tenants_ok t"
proof -
  note d = comment_frame(1)[OF assms(1)]
  have "db_tickets t = db_tickets s \<or> db_tickets t = updateWhere (\<lambda>r. tk_id r = i) (\<lambda>r. r \<lparr> tk_firstResponseAt := Some now, tk_updatedAt := now \<rparr>) (db_tickets s)"
    using assms(1) unfolding addTicketComment_def Let_def by (auto simp: bindE_eq_Inr split: if_splits)
  then show ?thesis using tenants_same[OF assms(2) d] tenants_place[OF assms(2) d] by (auto simp: place_def)
qed

lemma tickets_kept:
  "editTicketComment j v a any k now s = Inr (tc, t) \<Longrightarrow> db_tickets t = db_tickets s"
  "deleteTicketComment j a any k now s = Inr (tc, t) \<Longrightarrow> db_tickets t = db_tickets s"
  "linkAlertToTicket i x a lt now s = Inr (l, t) \<Longrightarrow> db_tickets t = db_tickets s"
  "unlinkAlertFromTicket i x a now s = Inr (z, t) \<Longrightarrow> db_tickets t = db_tickets s"
  "updateInbound P f s = Inr (em, t) \<Longrightarrow> db_tickets t = db_tickets s"
  by (auto simp: editTicketComment_def deleteTicketComment_def changeComment_def linkAlertToTicket_def unlinkAlertFromTicket_def updateInbound_def
      bindE_eq_Inr Let_def)

lemma mail_tickets_kept:
  "db_tickets (appendInboundComment i n p now s) = db_tickets s" "logInbound n w st k err now s = Inr t \<Longrightarrow> db_tickets t = db_tickets s"
  "maybeSendAutoresponse env n p q g w s = Inr t \<Longrightarrow> db_tickets t = db_tickets s" "findOrCreateEmailContact g v name s = (u, t) \<Longrightarrow> db_tickets t = db_tickets s"
  by (auto simp: appendInboundComment_def maybeSendAutoresponse_def findOrCreateEmailContact_def guard_simps Let_def dest!: logInbound_eq split: if_splits option.splits)

interpretation mail_tenants: mail_writes "\<lambda>_ s t. tenants_ok s \<longrightarrow> tenants_ok t"
proof
  fix now :: instant and s P and k m :: "string option"
  show "tenants_ok s \<longrightarrow> tenants_ok (updateTickets P (\<lambda>r. r \<lparr> tk_emailThreadKey := k, tk_emailMessageId := m \<rparr>) s)"
    by (auto intro!: tenants_place[OF _ keys_frame(1)] simp: place_def)
next
  fix now s i p
  show "tenants_ok s \<longrightarrow> tenants_ok (reopenResolvedTicket i p now s)"
    using tenants_place[OF _ reopen_frame(1), of s i p now] by (simp add: place_def reopenResolvedTicket_def)
qed (blast intro: tenants_create tenants_same mail_tickets_kept append_frame logInbound_frame autoresponse_frame contact_frame)+

lemma tenants_event:
  assumes "handleTicketEvent env e i g a s = Inr (ms, t)" "tenants_ok s"
  shows "tenants_ok t"
proof -
  have "tenants_ok (updateTickets P (\<lambda>r. r \<lparr> tk_emailThreadKey := k \<rparr>) s)" for P k
    by (rule tenants_place[OF assms(2) stampAnchor_frame(1)], rule tickets_simps(3)) (simp_all add: place_def)
  moreover have "tenants_ok (notifyUser u g v w l s)" for u g v w l
    by (rule tenants_same[OF assms(2) notifyUser_frame(1)]) (simp add: notifyUser_def)
  ultimately show ?thesis using assms unfolding handleTicketEvent_def collectAssigneeNotification_def collectSlaBreachNotification_def collectRequesterEmail_def collectAutoresponse_def
    by (auto simp: bindE_eq_Inr Let_def split: ticket_event_type.splits option.splits if_splits)
qed

lemma tenants_call: "ticket_call now s t \<Longrightarrow> tenants_ok s \<Longrightarrow> tenants_ok t"
proof (induction rule: ticket_call.induct)
  case (from_alert x a os v year now s r t)
  then show ?case by (elim createTicketFromAlert_eq) (metis tenants_create tenants_same tickets_kept(3) link_frame(1))
next
  case (convert p i g a v year now s em t)
  then obtain P f s1 q s2 Q f' h input where "updateInbound P f s = Inr (q, s1)" "createTicket input a v year now s1 = Inr (h, s2)" "updateInbound Q f' s2 = Inr (em, t)"
    unfolding convertEmailInbound_def convertWrite_def by (auto simp: bindE_eq_Inr)
  then show ?case using convert(2) by (metis tenants_create tenants_same tickets_kept(5) inbound_frame(1))
next
  case (dismiss p i s em t now)
  then show ?case unfolding dismissEmailInbound_def dismissWrite_def by (auto simp: bindE_eq_Inr intro: tenants_same tickets_kept inbound_frame)
next
  case (settings now s t)
  then show ?case using settings_still by (auto simp: desk_still_def intro: tenants_same)
qed (blast intro: tenants_create tenants_status tenants_fields tenants_assign tenants_comment tenants_move tenants_sweep
    tenants_same tickets_kept commentChange_frame link_frame unlink_frame tenants_event mail_tenants.inbound[rule_format])+

text \<open>
  (C17) Tickets stay within their tenant: whatever calls of the ticket service are made, the partner of a
  ticket is the partner of its organization, its assignee and its category are of that partner, and its device is of
  that organization.
\<close>

theorem tickets_within_tenant:
  assumes "(anytime ticket_call)\<^sup>*\<^sup>* s t" "tenants_ok s" "r \<in> set (db_tickets t)"
  shows "\<exists>org. orgOf t (tk_orgId r) = Some org \<and> tk_partnerId r = Some (org_partnerId org) \<and>
    (tk_assignedTo r = Some u \<longrightarrow> map_option usr_partnerId (getAssigneeForValidation u t) = Some (org_partnerId org)) \<and>
    (tk_categoryId r = Some c \<longrightarrow> map_option tcat_partnerId (getCategoryDefaults c t) = Some (org_partnerId org)) \<and>
    (tk_deviceId r = Some d \<longrightarrow> map_option dev_orgId (selectOne (\<lambda>v. dev_id v = d) (db_devices t)) = Some (tk_orgId r))"
proof -
  have "tenants_ok t" using assms(1,2) by (induction rule: rtranclp_induct) (auto simp: anytime_def intro: tenants_call)
  then show ?thesis using assms(3) by (auto simp: tenants_ok_def tenant_ok_def)
qed

definition kim :: user where
  "kim = \<lparr> usr_id = 7, usr_partnerId = 10, usr_email = ''kim@msp.example'', usr_status = User_active \<rparr>"

definition branch :: organization where
  "branch = acme \<lparr> org_id := 21, org_name := ''Acme Branch'' \<rparr>"

definition guest :: portal_user where
  "guest = \<lparr> pu_id = 60, pu_orgId = 20, pu_email = ''guest@acme.example'', pu_name = None, pu_passwordHash = None,
     pu_authMethod = ''password'', pu_status = ''active'' \<rparr>"

text \<open>A new, unassigned ticket of a customer's user.\<close>

definition new_ticket :: ticket where
  "new_ticket = work_ticket \<lparr> tk_status := Tk_new, tk_submittedBy := Some 60 \<rparr>"

definition front_desk :: db where
  "front_desk = day0 \<lparr> db_users := [kim], db_organizations := [acme, branch], db_portalUsers := [guest], db_tickets := [new_ticket] \<rparr>"

lemmas front_defs = front_desk_def day0_def empty_db_def selectOne_def new_ticket_def work_ticket_def

lemma front_tenants: "tenants_ok front_desk"
  by (simp add: tenants_ok_def key_ok_def tenant_ok_def front_defs orgOf_def acme_def)

lemma front_guard: "assignRead 30 (Some 7) front_desk = Inr new_ticket"
  by (simp add: assignRead_def getTicketOrThrow_def ticketOf_def whenGiven_def assertAssigneeInPartner_def getAssigneeForValidation_def
      throwIfPartnerUnresolvable_def resolveTicketPartnerId_def front_defs kim_def)

lemma front_assigned: "\<exists>q t. assignTicket 30 (Some 7) agent paused_at front_desk = Inr (q, t) \<and> q \<in> set (db_tickets t) \<and> tk_orgId q = 20 \<and> tk_assignedTo q = Some 7"
  unfolding assignTicket_def front_guard bindE_simps
  by (simp add: assignWrite_def casTicket_def assignPatch_def updateWhere_def front_defs)

theorem tickets_within_tenant_witness:
  "\<exists>q t. assignTicket 30 (Some 7) agent paused_at front_desk = Inr (q, t) \<and> tk_assignedTo q = Some 7 \<and>
     map_option usr_partnerId (getAssigneeForValidation 7 t) = tk_partnerId q"
proof -
  obtain q t where t: "assignTicket 30 (Some 7) agent paused_at front_desk = Inr (q, t)" "q \<in> set (db_tickets t)" "tk_assignedTo q = Some 7"
    using front_assigned by blast
  have "anytime ticket_call front_desk t" using t(1) by (auto simp: anytime_def intro: ticket_call.intros)
  then have "(anytime ticket_call)\<^sup>*\<^sup>* front_desk t" by (rule r_into_rtranclp)
  from tickets_within_tenant[OF this front_tenants t(2), of 7 0 0] show ?thesis using t by auto
qed

section \<open>System statuses\<close>

text \<open>A partner has an active system status for every core state.\<close>

definition statuses_ok :: "uuid \<Rightarrow> db \<Rightarrow> bool" where
  "statuses_ok p s \<longleftrightarrow> key_ok tst_id (db_next s) (db_ticketStatuses s) \<and>
     (\<forall>core. \<exists>r \<in> set (db_ticketStatuses s). systemStatus p core r) \<and>
     (\<forall>r \<in> set (db_ticketStatuses s). tst_isSystem r \<and> tst_partnerId r = p \<longrightarrow> tst_isActive r)"

lemma insertStatus_eq:
  "insertStatus r s = Inr t \<Longrightarrow> t = s \<lparr> db_next := Suc (db_next s), db_ticketStatuses := insertRow r (db_ticketStatuses s) \<rparr>"
  by (auto simp: insertStatus_def guard_simps)

lemma statuses_insert: "insertStatus r s = Inr t \<Longrightarrow> tst_id r = db_next s \<Longrightarrow> tst_isActive r \<Longrightarrow> statuses_ok p s \<Longrightarrow> statuses_ok p t"
  by (drule insertStatus_eq) (auto simp: statuses_ok_def set_insertRow intro: key_ok_insertRow)

lemma statuses_update:
  assumes "statuses_ok p s" "db_next s \<le> db_next t" "db_ticketStatuses t = updateWhere P f (db_ticketStatuses s)" "\<And>r. tst_id (f r) = tst_id r"
    and "\<And>r. r \<in> set (db_ticketStatuses s) \<Longrightarrow> P r \<Longrightarrow> tst_isSystem (f r) = tst_isSystem r \<and> tst_partnerId (f r) = tst_partnerId r \<and>
      (tst_isSystem r \<longrightarrow> tst_coreStatus (f r) = tst_coreStatus r \<and> (tst_isActive r \<longrightarrow> tst_isActive (f r)))"
  shows "statuses_ok p t"
proof -
  let ?g = "\<lambda>r. if P r then f r else r"
  have t: "set (db_ticketStatuses t) = ?g ` set (db_ticketStatuses s)" by (simp only: assms(3) set_updateWhere)
  have "\<exists>q \<in> set (db_ticketStatuses t). systemStatus p core q" for core
  proof -
    obtain r where r: "r \<in> set (db_ticketStatuses s)" "systemStatus p core r" using assms(1) by (auto simp: statuses_ok_def)
    then have "systemStatus p core (?g r)" using assms(5)[OF r(1)] by (auto simp: systemStatus_def)
    then show ?thesis using r(1) unfolding t by blast
  qed
  moreover have "tst_isActive q" if q: "q \<in> set (db_ticketStatuses t)" "tst_isSystem q \<and> tst_partnerId q = p" for q
  proof -
    obtain r where r: "r \<in> set (db_ticketStatuses s)" "q = ?g r" using q(1) unfolding t by blast
    moreover have "tst_isSystem r \<and> tst_partnerId r = p \<longrightarrow> tst_isActive r" using assms(1) r(1) by (simp add: statuses_ok_def)
    ultimately show ?thesis using q(2) assms(5)[OF r(1)] by (cases "P r") auto
  qed
  moreover have "key_ok tst_id (db_next t) (db_ticketStatuses t)"
    using assms(1-4) by (auto simp: statuses_ok_def key_ok_updateWhere_iff intro: key_ok_mono)
  ultimately show ?thesis by (simp add: statuses_ok_def)
qed

lemma statuses_same: "statuses_ok p s \<Longrightarrow> db_next s \<le> db_next t \<Longrightarrow> db_ticketStatuses t = db_ticketStatuses s \<Longrightarrow> statuses_ok p t"
  by (auto simp: statuses_ok_def intro: key_ok_mono)

lemma reorderLoop_shape: "\<exists>g. snd (reorderLoop p owned now j ids rows) = map (\<lambda>r. r \<lparr> tst_sortOrder := fst (g r), tst_updatedAt := snd (g r) \<rparr>) rows"
proof (induction ids arbitrary: j rows)
  case Nil
  show ?case by (rule exI[of _ "\<lambda>r. (tst_sortOrder r, tst_updatedAt r)"]) simp
next
  case (Cons i ids)
  let ?f = "\<lambda>r. if tst_id r = i \<and> tst_partnerId r = p then r \<lparr> tst_sortOrder := j, tst_updatedAt := now \<rparr> else r"
  obtain g where "snd (reorderLoop p owned now (j + 1) ids (map ?f rows)) = map (\<lambda>r. r \<lparr> tst_sortOrder := fst (g r), tst_updatedAt := snd (g r) \<rparr>) (map ?f rows)"
    using Cons by blast
  then have "snd (reorderLoop p owned now (j + 1) ids (map ?f rows)) = map (\<lambda>r. r \<lparr> tst_sortOrder := fst (g (?f r)), tst_updatedAt := snd (g (?f r)) \<rparr>) rows" by simp
  then have "\<exists>g. snd (reorderLoop p owned now (j + 1) ids (updateWhere (\<lambda>r. tst_id r = i \<and> tst_partnerId r = p) (\<lambda>r. r \<lparr> tst_sortOrder := j, tst_updatedAt := now \<rparr>) rows)) =
      map (\<lambda>r. r \<lparr> tst_sortOrder := fst (g r), tst_updatedAt := snd (g r) \<rparr>) rows"
    unfolding updateWhere_def by (rule exI[of _ "\<lambda>r. g (?f r)"])
  then show ?case using Cons[of "j + 1" rows] by (auto split: prod.split)
qed

lemma statuses_settings: "settings_call now s t \<Longrightarrow> statuses_ok p s \<Longrightarrow> statuses_ok p t"
proof (induction rule: settings_call.induct)
  case (1 q now s t)
  then show ?case unfolding seedSystemTicketStatuses_def
    by (rule foldE_invariant[where P = "statuses_ok p"]) (auto intro: statuses_insert split: prod.splits)
next
  case (2 q si now s r t)
  then show ?case unfolding createTicketStatus_def Let_def by (auto intro: statuses_insert split: sum.splits)
next
  case (3 q i su now s r t)
  then obtain row where row: "selectOne (\<lambda>r. tst_id r = i \<and> tst_partnerId r = q) (db_ticketStatuses s) = Some row"
    "\<not> tst_isSystem row \<or> usi_coreStatus su = None \<or> usi_coreStatus su = Some (tst_coreStatus row)" "\<not> tst_isSystem row \<or> usi_isActive su \<noteq> Some False"
    and t: "t = s \<lparr> db_ticketStatuses := updateWhere (\<lambda>r. tst_id r = i \<and> tst_partnerId r = q) (patchStatus su now) (db_ticketStatuses s) \<rparr>"
    by (auto simp: updateTicketStatus_def guard_simps)
  have id: "tst_id (patchStatus su now r) = tst_id r" for r by (simp add: patchStatus_def)
  show ?case
  proof (rule statuses_update[OF 3(2)])
    fix r
    assume r: "r \<in> set (db_ticketStatuses s)" "tst_id r = i \<and> tst_partnerId r = q"
    then have "r = row" using 3(2) selectOne_Some[OF row(1)] by (auto simp: statuses_ok_def dest: key_ok_unique)
    then show "tst_isSystem (patchStatus su now r) = tst_isSystem r \<and> tst_partnerId (patchStatus su now r) = tst_partnerId r \<and>
        (tst_isSystem r \<longrightarrow> tst_coreStatus (patchStatus su now r) = tst_coreStatus r \<and> (tst_isActive r \<longrightarrow> tst_isActive (patchStatus su now r)))"
      using row(2,3) by (auto simp: patchStatus_def nullish_def split: option.splits)
  qed (simp_all add: t id)
next
  case (4 q ids now s n t)
  obtain g where g: "db_ticketStatuses t = map (\<lambda>r. r \<lparr> tst_sortOrder := fst (g r), tst_updatedAt := snd (g r) \<rparr>) (db_ticketStatuses s)" "db_next t = db_next s"
  proof -
    from 4(1) obtain owned rows where "reorderLoop q owned now 0 ids (db_ticketStatuses s) = (n, rows)" "t = s \<lparr> db_ticketStatuses := rows \<rparr>"
      by (auto simp: reorderTicketStatuses_def Let_def split: prod.splits)
    then show thesis using reorderLoop_shape[of q owned now 0 ids "db_ticketStatuses s"] that by auto
  qed
  show ?case
    by (rule statuses_update[OF 4(2), where P = "\<lambda>_. True" and f = "\<lambda>r. r \<lparr> tst_sortOrder := fst (g r), tst_updatedAt := snd (g r) \<rparr>"])
       (simp_all add: g updateWhere_def)
qed (auto elim!: statuses_same simp: upsertPrioritySettings_def upsertOrgTicketSettings_def createCustomerEmailDomain_def updateCustomerEmailDomain_def
    deleteCustomerEmailDomain_def guard_simps Let_def dest!: allocate_eq split: option.splits)

lemma statuses_kept:
  "createTicket input a v year now s = Inr (r, t) \<Longrightarrow> db_ticketStatuses t = db_ticketStatuses s"
  "changeTicketStatus i target opts a now s = Inr (r, t) \<Longrightarrow> db_ticketStatuses t = db_ticketStatuses s"
  "updateTicketFields i f a now s = Inr (r, t) \<Longrightarrow> db_ticketStatuses t = db_ticketStatuses s"
  "assignTicket i u a now s = Inr (r, t) \<Longrightarrow> db_ticketStatuses t = db_ticketStatuses s"
  "moveTicketOrg i g a now s = Inr (r, t) \<Longrightarrow> db_ticketStatuses t = db_ticketStatuses s"
  "slaSweepJob arrives now s = (n, t) \<Longrightarrow> db_ticketStatuses t = db_ticketStatuses s"
  subgoal by (erule createTicket_eq) simp
  subgoal by (erule changeTicketStatus_cases) auto
  subgoal by (erule updateTicketFields_eq) simp_all
  subgoal by (erule assignTicket_eq, erule assignWrite_eq) simp
  subgoal by (erule moveTicketOrg_eq) (simp_all add: restampOrg_def)
  subgoal by (auto simp: slaSweepJob_eq Let_def notify_sel stamped_def)
  done

lemma statuses_kept_more:
  "addTicketComment i v pub a now s = Inr (c, t) \<Longrightarrow> db_ticketStatuses t = db_ticketStatuses s"
  "editTicketComment j v a any k now s = Inr (tc, t) \<Longrightarrow> db_ticketStatuses t = db_ticketStatuses s"
  "deleteTicketComment j a any k now s = Inr (tc, t) \<Longrightarrow> db_ticketStatuses t = db_ticketStatuses s"
  "linkAlertToTicket i x a lt now s = Inr (l, t) \<Longrightarrow> db_ticketStatuses t = db_ticketStatuses s"
  "unlinkAlertFromTicket i x a now s = Inr (z, t) \<Longrightarrow> db_ticketStatuses t = db_ticketStatuses s"
  "updateInbound P f s = Inr (em, t) \<Longrightarrow> db_ticketStatuses t = db_ticketStatuses s"
  by (auto simp: addTicketComment_def editTicketComment_def deleteTicketComment_def changeComment_def linkAlertToTicket_def unlinkAlertFromTicket_def
      updateInbound_def bindE_eq_Inr Let_def)

interpretation mail_statuses: mail_writes "\<lambda>_ s t. db_ticketStatuses t = db_ticketStatuses s"
  by unfold_locales (auto simp: statuses_kept appendInboundComment_def reopenResolvedTicket_def maybeSendAutoresponse_def findOrCreateEmailContact_def guard_simps
      Let_def dest!: logInbound_eq split: if_splits option.splits)

lemma statuses_event: "handleTicketEvent env e i g a s = Inr (ms, t) \<Longrightarrow> db_ticketStatuses t = db_ticketStatuses s"
  unfolding handleTicketEvent_def collectAssigneeNotification_def collectSlaBreachNotification_def collectRequesterEmail_def collectAutoresponse_def
  by (auto simp: bindE_eq_Inr Let_def notifyUser_def split: ticket_event_type.splits option.splits if_splits)

lemma statuses_call: "ticket_call now s t \<Longrightarrow> db_ticketStatuses t = db_ticketStatuses s \<or> settings_call now s t"
proof (induction rule: ticket_call.induct)
  case (from_alert x a os v year now s r t)
  then show ?case by (elim createTicketFromAlert_eq) (simp add: statuses_kept(1) statuses_kept_more(4))
next
  case (convert p i g a v year now s em t)
  then obtain P f s1 q s2 Q f' h input where "updateInbound P f s = Inr (q, s1)" "createTicket input a v year now s1 = Inr (h, s2)" "updateInbound Q f' s2 = Inr (em, t)"
    unfolding convertEmailInbound_def convertWrite_def by (auto simp: bindE_eq_Inr)
  then show ?case using statuses_kept(1) statuses_kept_more(6) by metis
next
  case (dismiss p i s em t now)
  then show ?case unfolding dismissEmailInbound_def dismissWrite_def using statuses_kept_more(6) by (auto simp: bindE_eq_Inr)
qed (blast intro: statuses_kept statuses_kept_more statuses_event mail_statuses.inbound)+

definition seedRow :: "uuid \<Rightarrow> instant \<Rightarrow> nat \<Rightarrow> ticket_status \<times> string \<times> int \<Rightarrow> ticket_status_row" where
  "seedRow p now i d = \<lparr> tst_id = i, tst_partnerId = p, tst_name = fst (snd d), tst_coreStatus = fst d, tst_color = None, tst_sortOrder = snd (snd d),
     tst_isSystem = True, tst_isActive = True, tst_updatedAt = now \<rparr>"

lemma seed_fold:
  assumes "foldE (\<lambda>d s. insertStatus (seedRow p now (db_next s) d) s) ds s = Inr u" "key_ok tst_id (db_next s) (db_ticketStatuses s)"
  shows "key_ok tst_id (db_next u) (db_ticketStatuses u) \<and> set (db_ticketStatuses s) \<subseteq> set (db_ticketStatuses u) \<and>
    (\<forall>r \<in> set (db_ticketStatuses u). r \<in> set (db_ticketStatuses s) \<or> tst_isActive r) \<and>
    (\<forall>d \<in> set ds. (\<exists>r \<in> set (db_ticketStatuses u). systemStatus p (fst d) r) \<and> (\<forall>r \<in> set (db_ticketStatuses s). \<not> systemStatus p (fst d) r))"
  using assms
proof (induction ds arbitrary: s)
  case (Cons d ds)
  then obtain v where v: "insertStatus (seedRow p now (db_next s) d) s = Inr v" "foldE (\<lambda>d s. insertStatus (seedRow p now (db_next s) d) s) ds v = Inr u"
    by (auto simp: bindE_eq_Inr)
  have e: "db_ticketStatuses v = insertRow (seedRow p now (db_next s) d) (db_ticketStatuses s)" "db_next v = Suc (db_next s)" using insertStatus_eq[OF v(1)] by simp_all
  have n: "\<forall>r \<in> set (db_ticketStatuses s). \<not> systemStatus p (fst d) r"
    using v(1) by (auto simp: insertStatus_def guard_simps seedRow_def selectOne_None)
  have "key_ok tst_id (db_next v) (db_ticketStatuses v)" unfolding e using Cons.prems(2) by (rule key_ok_insertRow) (simp add: seedRow_def)
  note ih = Cons.IH[OF v(2) this]
  have row: "set (db_ticketStatuses v) = insert (seedRow p now (db_next s) d) (set (db_ticketStatuses s))" "systemStatus p (fst d) (seedRow p now (db_next s) d)"
    "tst_isActive (seedRow p now (db_next s) d)" by (simp_all add: e(1) set_insertRow seedRow_def systemStatus_def)
  have sub: "r \<in> set (db_ticketStatuses u)" if "r \<in> set (db_ticketStatuses v)" for r using conjunct1[OF conjunct2[OF ih]] that by (rule subsetD)
  have new: "r \<in> set (db_ticketStatuses v) \<or> tst_isActive r" if "r \<in> set (db_ticketStatuses u)" for r
    using conjunct1[OF conjunct2[OF conjunct2[OF ih]]] that by (rule bspec)
  have each: "(\<exists>r \<in> set (db_ticketStatuses u). systemStatus p (fst e) r) \<and> (\<forall>r \<in> set (db_ticketStatuses v). \<not> systemStatus p (fst e) r)" if "e \<in> set ds" for e
    using conjunct2[OF conjunct2[OF conjunct2[OF ih]]] that by (rule bspec)
  show ?case
  proof (intro conjI ballI)
    show "key_ok tst_id (db_next u) (db_ticketStatuses u)" by (rule conjunct1[OF ih])
    show "set (db_ticketStatuses s) \<subseteq> set (db_ticketStatuses u)" using sub row(1) by (intro subsetI) simp
    show "r \<in> set (db_ticketStatuses s) \<or> tst_isActive r" if "r \<in> set (db_ticketStatuses u)" for r using new[OF that] row(1,3) by auto
    show "\<exists>r \<in> set (db_ticketStatuses u). systemStatus p (fst e) r" if "e \<in> set (d # ds)" for e
      using that each[of e] sub[of "seedRow p now (db_next s) d"] row by auto
    show "\<not> systemStatus p (fst e) r" if "e \<in> set (d # ds)" "r \<in> set (db_ticketStatuses s)" for e r
      using that each[of e] n row(1) by auto
  qed
qed simp

lemma seeded_ok:
  assumes "seedSystemTicketStatuses p now s = Inr u" "key_ok tst_id (db_next s) (db_ticketStatuses s)"
  shows "statuses_ok p u"
proof -
  have "foldE (\<lambda>d s. insertStatus (seedRow p now (db_next s) d) s) DEFAULT_STATUSES s = Inr u"
    using assms(1) by (simp add: seedSystemTicketStatuses_def seedRow_def case_prod_unfold)
  note f = seed_fold[OF this assms(2)]
  have d: "\<exists>d \<in> set DEFAULT_STATUSES. fst d = core" for core by (cases core) (simp_all add: DEFAULT_STATUSES_def)
  have "\<exists>r \<in> set (db_ticketStatuses u). systemStatus p core r" for core using f d[of core] by blast
  moreover have "tst_isActive r" if "r \<in> set (db_ticketStatuses u)" "tst_isSystem r \<and> tst_partnerId r = p" for r
  proof -
    have "r \<notin> set (db_ticketStatuses s)" using f d[of "tst_coreStatus r"] that(2) by (auto simp: systemStatus_def)
    then show ?thesis using f that(1) by blast
  qed
  ultimately show ?thesis using f by (simp add: statuses_ok_def)
qed

text \<open>
  A partner keeps its system statuses. Seeding gives a partner an active system status for every core
  state, and whatever calls of the ticket service and its settings follow, renames, remaps,
  deactivations and reorderings included, every core state still has one: a status change by core state
  always finds the status row to show.
\<close>

lemma system_statuses_kept:
  assumes "seedSystemTicketStatuses p now s = Inr u" "key_ok tst_id (db_next s) (db_ticketStatuses s)" "(anytime ticket_call)\<^sup>*\<^sup>* u t"
  shows "\<exists>r. getSystemStatusId p core t = Some (tst_id r) \<and> getTicketStatusById (tst_id r) t = Some r \<and>
    tst_partnerId r = p \<and> tst_coreStatus r = core \<and> tst_isSystem r \<and> tst_isActive r"
proof -
  have "statuses_ok p t" using assms(3) seeded_ok[OF assms(1,2)]
  proof (induction rule: rtranclp_induct)
    case (step t v)
    then obtain now where c: "ticket_call now t v" by (auto simp: anytime_def)
    then have "db_next t \<le> db_next v" using ticket_call_more_work by (auto simp: more_work_def work_only_def)
    then show ?case using statuses_call[OF c] step statuses_same statuses_settings by blast
  qed
  then obtain q where "q \<in> set (db_ticketStatuses t)" "systemStatus p core q" and ok: "key_ok tst_id (db_next t) (db_ticketStatuses t)"
    and active: "\<And>r. r \<in> set (db_ticketStatuses t) \<Longrightarrow> tst_isSystem r \<and> tst_partnerId r = p \<Longrightarrow> tst_isActive r"
    by (auto simp: statuses_ok_def)
  then obtain r where r: "selectOne (systemStatus p core) (db_ticketStatuses t) = Some r" using selectOne_None[of "systemStatus p core" "db_ticketStatuses t"] by fastforce
  note m = selectOne_Some[OF r]
  then show ?thesis using r selectOne_key[OF ok, of r] active[of r]
    by (intro exI[of _ r]) (auto simp: getSystemStatusId_def getTicketStatusById_def systemStatus_def)
qed

definition rename_open :: update_status_input where
  "rename_open = \<lparr> usi_name = Some ''In progress'', usi_coreStatus = None, usi_color = None, usi_sortOrder = None, usi_isActive = None \<rparr>"

lemma seeded_day: "\<exists>u r t. seedSystemTicketStatuses 10 noon empty_db = Inr u \<and> updateTicketStatus 10 1 rename_open noon u = Inr (r, t) \<and> tst_name r = ''In progress''"
  by (simp add: seedSystemTicketStatuses_def DEFAULT_STATUSES_def insertStatus_def nameTaken_def js_toLowerCase_def lowerChar_def empty_db_def insertRow_def
      selectOne_def systemStatus_def updateTicketStatus_def rename_open_def patchStatus_def deleteWhere_def)

lemma system_statuses_kept_witness:
  "\<exists>u r t. seedSystemTicketStatuses 10 noon empty_db = Inr u \<and> updateTicketStatus 10 1 rename_open noon u = Inr (r, t) \<and> getSystemStatusId 10 Tk_open t \<noteq> None"
proof -
  obtain u r t where t: "seedSystemTicketStatuses 10 noon empty_db = Inr u" "updateTicketStatus 10 1 rename_open noon u = Inr (r, t)" using seeded_day by blast
  have "anytime ticket_call u t" unfolding anytime_def using t(2) by (blast intro: ticket_call.settings settings_call.intros)
  from system_statuses_kept[OF t(1) _ r_into_rtranclp[of "anytime ticket_call", OF this], of Tk_open] show ?thesis using t by (auto simp: empty_db_def)
qed

section \<open>An assignment that overlaps a resolution, and a moved requester\<close>

lemma assignWrite_row:
  assumes "assignWrite r (Some u) a now s = Inr (q, t)" "tk_status r = Tk_new"
  obtains p where "p \<in> set (db_tickets s)" "tk_id p = tk_id r" "q = p \<lparr> tk_assignedTo := Some u, tk_updatedAt := now, tk_status := Tk_open \<rparr>" "q \<in> set (db_tickets t)"
proof -
  obtain s1 where c: "casTicket (\<lambda>p. tk_id p = tk_id r \<and> tk_assignedTo p = tk_assignedTo r) (assignPatch r (Some u) now) s = Inr (q, s1)" and t: "db_tickets t = db_tickets s1"
    using assms(1) unfolding assignWrite_def by (auto simp: bindE_eq_Inr)
  from casTicket_eq[OF c] obtain p where p: "selectOne (\<lambda>p. tk_id p = tk_id r \<and> tk_assignedTo p = tk_assignedTo r) (db_tickets s) = Some p"
    "q = assignPatch r (Some u) now p" "s1 = updateTickets (\<lambda>p. tk_id p = tk_id r \<and> tk_assignedTo p = tk_assignedTo r) (assignPatch r (Some u) now) s" by blast
  have m: "p \<in> set (db_tickets s)" "tk_id p = tk_id r" "tk_assignedTo p = tk_assignedTo r" using selectOne_Some[OF p(1)] by simp_all
  then have "q \<in> set (db_tickets t)" by (auto simp: t p(2,3) set_updateWhere intro!: image_eqI[of _ _ p])
  then show thesis using that[OF m(1,2)] assms(2) p(2) by (simp add: assignPatch_def)
qed

lemma status_reached:
  assumes "changeTicketStatus i (toStatus st) opts a now s = Inr (x, t)" "key_ok tk_id n (db_tickets s)" "p \<in> set (db_tickets t)" "tk_id p = i"
  shows "tk_status p = st"
proof -
  obtain r sid where r: "getTicketOrThrow i s = Inr r" "resolveTarget (toStatus st) (resolveTicketPartnerId r s) s = Inr (st, sid, None)"
    using assms(1) unfolding changeTicketStatus_def by (auto simp: bindE_eq_Inr toStatus_def resolveTarget_def)
  note body = assms(1)[unfolded changeTicketStatus_def, simplified r bindE_simps prod.case]
  have m: "r \<in> set (db_tickets s)" "tk_id r = i" using ticketOf_mem[OF r(1)] by simp_all
  obtain P f where t: "db_tickets t = updateWhere P f (db_tickets s)" "\<And>y. tk_id (f y) = tk_id y" "tk_status (if P r then f r else r) = st"
  proof (cases "st = tk_status r")
    case True
    then have "db_tickets t = updateWhere (\<lambda>_. False) id (db_tickets s) \<or>
        db_tickets t = updateWhere (\<lambda>p. tk_id p = tk_id r \<and> tk_status p = tk_status r \<and> tk_statusId p = tk_statusId r) (\<lambda>p. p \<lparr> tk_statusId := sid, tk_updatedAt := now \<rparr>) (db_tickets s)"
      using body by (auto simp: relabelTicket_def bindE_eq_Inr updateWhere_def dest!: casTicket_eq split: if_splits)
    then show thesis using that[of "\<lambda>_. False" id] that[of _ "\<lambda>p. p \<lparr> tk_statusId := sid, tk_updatedAt := now \<rparr>"] True by auto
  next
    case False
    then have "db_tickets t = updateWhere (\<lambda>p. tk_id p = i \<and> tk_status p = tk_status r) (transitionPatch r st sid opts (tka_userId a) now) (db_tickets s)"
      using body by (auto simp: bindE_eq_Inr dest!: casTicket_eq)
    then show thesis by (rule that) (simp_all add: m)
  qed
  obtain y where y: "y \<in> set (db_tickets s)" "p = (if P y then f y else y)" using assms(3) by (auto simp: t(1) set_updateWhere)
  then have "y = r" using assms(2,4) m t(2) by (auto dest: key_ok_unique split: if_splits)
  then show ?thesis using t(3) y(2) by (cases "P r") simp_all
qed

text \<open>
  (C38) An assignment that overlaps a resolution reopens the ticket. The assignment reads the ticket as new,
  the ticket is resolved, and the write of the assignment, which compares only the assignee, sets it to
  open: the ticket is open with a resolution time, which no sequence of complete calls produces, and the
  monitor never finds its resolution overdue.
\<close>

theorem assign_race_reopens:
  assumes "assignRead i (Some u) s = Inr r" "tk_status r = Tk_new" "desk_ok s"
    and "changeTicketStatus i (toStatus Tk_resolved) opts a now s = Inr (x, s')" "assignWrite r (Some u) a' now' s' = Inr (q, t)"
  shows "q \<in> set (db_tickets t) \<and> tk_id q = i \<and> tk_status q = Tk_open \<and> tk_resolvedAt q \<noteq> None \<and> \<not> ticket_ok q \<and> \<not> breachDue Sla_resolution later q"
proof -
  have r: "r \<in> set (db_tickets s)" "tk_id r = i" using assms(1) unfolding assignRead_def by (auto simp: bindE_eq_Inr dest: ticketOf_mem)
  obtain p where p: "p \<in> set (db_tickets s')" "tk_id p = tk_id r" "q = p \<lparr> tk_assignedTo := Some u, tk_updatedAt := now', tk_status := Tk_open \<rparr>" "q \<in> set (db_tickets t)"
    using assms(5,2) by (rule assignWrite_row)
  have ok: "desk_ok s'" using desk_moves_ok[OF status_frame(2)[OF assms(4)] assms(3)] .
  have "key_ok tk_id (db_next s) (db_tickets s)" using board_okD(1)[of "boardOf s"] assms(3) by (simp add: desk_ok_def)
  from status_reached[OF assms(4) this p(1)] have "tk_status p = Tk_resolved" using p(2) r(2) by simp
  moreover have "ticket_ok p" using board_okD(3)[of "boardOf s'" p] ok p(1) by (simp add: desk_ok_def)
  ultimately have "tk_resolvedAt p \<noteq> None" by (simp add: ticket_ok_def)
  then show ?thesis using p r(2) by (auto simp: ticket_ok_def breachDue_def targetMet_def)
qed

definition solved :: status_options where
  "solved = \<lparr> sto_resolutionNote = Some ''Rebooted'', sto_pendingReason = None \<rparr>"

lemma front_resolved: "\<exists>x s'. changeTicketStatus 30 (toStatus Tk_resolved) solved agent paused_at front_desk = Inr (x, s') \<and>
    (\<exists>q t. assignWrite new_ticket (Some 7) agent resumed_at s' = Inr (q, t))"
  by (simp add: changeTicketStatus_def getTicketOrThrow_def ticketOf_def resolveTarget_def resolveTicketPartnerId_def solved_def isPgText_def
      getSystemStatusId_def transitionPatch_def stampTransition_def foldPause_def isPaused_def TICKET_STATUS_TRANSITIONS_def minutesFit_def casTicket_def
      updateTickets_def updateWhere_def insertComment_def insertRow_def emit_def toStatus_def assignWrite_def front_defs)

lemma front_desk_ok: "desk_ok front_desk"
proof -
  have d: "db_next front_desk = 100" "db_tickets front_desk = [new_ticket]" "db_ticketComments front_desk = []" "db_events front_desk = []"
    by (simp_all add: front_desk_def day0_def empty_db_def)
  have "announced (boardOf front_desk) new_ticket" unfolding announced_def by (intro exI[of _ "[]"]) (simp add: d reasonOf_def new_ticket_def work_ticket_def)
  then show ?thesis
    by (simp add: desk_ok_def keyed_feed_def board_ok_def key_ok_def ticket_ok_def audited_def replay_def feedOf_def d new_ticket_def work_ticket_def)
qed

theorem assign_race_reopens_witness:
  "\<exists>x s' q t. changeTicketStatus 30 (toStatus Tk_resolved) solved agent paused_at front_desk = Inr (x, s') \<and>
     assignWrite new_ticket (Some 7) agent resumed_at s' = Inr (q, t) \<and> tk_status q = Tk_open \<and> tk_resolvedAt q \<noteq> None"
proof -
  obtain x s' q t where t: "changeTicketStatus 30 (toStatus Tk_resolved) solved agent paused_at front_desk = Inr (x, s')"
    "assignWrite new_ticket (Some 7) agent resumed_at s' = Inr (q, t)" using front_resolved by blast
  then show ?thesis using assign_race_reopens[OF front_guard _ front_desk_ok t] by (auto simp: new_ticket_def)
qed

text \<open>
  A moved ticket keeps a requester of the organization it left. Every other call checks that the portal
  user a ticket names is of the ticket's organization; a move to another organization detaches the device
  and restamps the work, but leaves the requester.
\<close>

lemma move_keeps_requester:
  assumes "moveTicketOrg i g a now s = Inr (q, t)" "ticketOf s i = Some r" "tk_orgId r \<noteq> g" "tk_submittedBy r = Some p"
    and "getPortalUserForValidation p s = Some u" "pu_orgId u = tk_orgId r"
  shows "ticketOf t i = Some q \<and> tk_orgId q = g \<and> tk_deviceId q = None \<and> tk_submittedBy q = Some p \<and>
    assertRequesterInOrg p (tk_orgId q) t = Inl (TicketErr 400 (Some REQUESTER_WRONG_ORG))"
proof -
  obtain v where q: "q = r \<lparr> tk_orgId := g, tk_deviceId := None, tk_updatedAt := now \<rparr>"
    and t: "t = emit (TicketEvent (Ev_ticket_updated [''orgId'']) i g (tk_partnerId r) (Some (tka_userId a)))
      (insertComment (feedLine i a Com_system v None None now) (restampOrg i g now s))"
    using assms(1-3) unfolding moveTicketOrg_def getTicketOrThrow_def by (auto simp: bindE_eq_Inr)
  have "ticketOf t i = map_option (\<lambda>r. if tk_id r = i then r \<lparr> tk_orgId := g, tk_deviceId := None, tk_updatedAt := now \<rparr> else r) (ticketOf s i)"
    unfolding ticketOf_def by (simp add: t restampOrg_def selectOne_updateWhere)
  moreover have "tk_id r = i" using assms(2) by (auto simp: ticketOf_def dest: selectOne_Some)
  ultimately have "ticketOf t i = Some q" using assms(2) q by simp
  moreover have "getPortalUserForValidation p t = Some u"
    using assms(5) by (simp add: getPortalUserForValidation_def t insertComment_def restampOrg_def)
  ultimately show ?thesis using assms(3,4,6) q by (auto simp: assertRequesterInOrg_def)
qed

lemma move_keeps_requester_witness:
  "\<exists>q t. moveTicketOrg 30 21 agent paused_at front_desk = Inr (q, t) \<and> tk_orgId q = 21 \<and> tk_submittedBy q = Some 60 \<and>
     assertRequesterInOrg 60 21 t = Inl (TicketErr 400 (Some REQUESTER_WRONG_ORG))"
proof -
  have "\<exists>q t. moveTicketOrg 30 21 agent paused_at front_desk = Inr (q, t)"
    by (simp add: moveTicketOrg_def getTicketOrThrow_def ticketOf_def orgOf_def front_defs acme_def branch_def)
  then obtain q t where t: "moveTicketOrg 30 21 agent paused_at front_desk = Inr (q, t)" by blast
  have r: "ticketOf front_desk 30 = Some new_ticket" "getPortalUserForValidation 60 front_desk = Some guest"
    by (simp_all add: ticketOf_def getPortalUserForValidation_def front_defs guest_def)
  show ?thesis using move_keeps_requester[OF t r(1) _ _ r(2)] t by (auto simp: new_ticket_def work_ticket_def guest_def)
qed

end
