(* ===== verification/MailProperties.thy ===== *)
theory MailProperties
  imports TicketProperties
begin

text \<open>
  What tickets by e-mail guarantee (\<open>InboundMail\<close>, \<open>TicketNotify\<close>): a message counts once however often it is
  delivered, touches no partner but the one it is addressed to, and does nothing without an authenticated sender; the
  answer to an outgoing notification comes back to its ticket.
\<close>

section \<open>A worked desk\<close>

definition desk_env :: mail_env where
  "desk_env = \<lparr> me_config = Some (Some ''tickets.example''), me_capAllowed = True, me_legacyNumber = ''XYZ'', me_year = 2025 \<rparr>"

text \<open>An authenticated letter about the ticket of the worked day.\<close>

definition letter :: "string \<Rightarrow> inbound_mail" where
  "letter m = \<lparr> ni_provider = Prov_mailgun, ni_providerMessageId = m, ni_to = ''msp@tickets.example'', ni_from = ''guest@acme.example'',
     ni_fromName = None, ni_subject = ''Re: [T-2025-0001] Server down'', ni_text = ''Still down'', ni_messageId = Some m, ni_inReplyTo = None,
     ni_references = None, ni_autoSubmitted = None, ni_precedence = None,
     ni_senderAuth = Some \<lparr> sau_spf = Auth_pass, sau_dkim = Auth_pass, sau_dmarc = Auth_pass, sau_verified = True \<rparr>, ni_raw = J_obj [] \<rparr>"

definition anonymous :: "string \<Rightarrow> inbound_mail" where
  "anonymous m = letter m \<lparr> ni_senderAuth := None \<rparr>"

lemmas text_defs = js_toLowerCase_def lowerChar_def js_trim_def isBlank_def isPgText_def atPart_def lastAtPart_def

lemma letter_sel:
  "ni_to (letter m) = ''msp@tickets.example''" "ni_providerMessageId (letter m) = m" "ni_from (letter m) = ''guest@acme.example''"
  "ni_subject (letter m) = ''Re: [T-2025-0001] Server down''" "ni_to (anonymous m) = ''msp@tickets.example''" "ni_senderAuth (anonymous m) = None"
  "candidateThreadKeys (letter m) = []" "ni_text (letter m) = ''Still down''"
  by (simp_all add: letter_def anonymous_def candidateThreadKeys_def)

lemma addressed:
  assumes "db_partners s = [msp_partner]" "db_inboundDomains s = []"
  shows "resolvePartnerByRecipient desk_env ''msp@tickets.example'' s = Inr (Some 10)"
  using assms by (simp add: resolvePartnerByRecipient_def getInboundDomain_def ofOption_def desk_env_def text_defs selectOne_def msp_partner_def)

lemma day0_mail: "db_partners day0 = [msp_partner]" "db_inboundDomains day0 = []" "db_inboundEmails day0 = []" "db_organizations day0 = [acme]"
    "db_tickets day0 = [work_ticket]" "db_next day0 = 100"
  by (simp_all add: day0_def empty_db_def)

section \<open>The log of messages\<close>

lemma logInbound_Inr: "logInbound n w st j err now s = Inr t \<longleftrightarrow> \<not> onLog w (ni_providerMessageId n) s \<and>
    t = s \<lparr> db_next := Suc (db_next s), db_inboundEmails := insertRow (logRow n w st j err now (db_next s)) (db_inboundEmails s) \<rparr>"
  by (auto simp: logInbound_def guard_simps)

lemma logged_log: "logInbound n (Some p) st j err now s = Inr t \<Longrightarrow> onLog (Some p) (ni_providerMessageId n) t"
  by (auto simp: logInbound_Inr onLog_def set_insertRow logRow_def)

lemma logged_mono: "set (db_inboundEmails s) \<subseteq> set (db_inboundEmails t) \<Longrightarrow> onLog w m s \<Longrightarrow> onLog w m t"
  by (auto simp: onLog_def)

text \<open>What the routing of messages reads is not written by any of them, and the log only grows.\<close>

definition mail_world :: "db \<Rightarrow> db \<Rightarrow> bool" where
  "mail_world s t \<longleftrightarrow> db_partners t = db_partners s \<and> db_inboundDomains t = db_inboundDomains s \<and> set (db_inboundEmails s) \<subseteq> set (db_inboundEmails t)"

interpretation mail_log: mail_writes "\<lambda>_. mail_world"
proof
  fix input :: create_ticket_input and a v year now s r t
  assume "createTicket input a v year now s = Inr (r, t)"
  then show "mail_world s t" by (rule createTicket_eq) (simp add: mail_world_def)
qed (auto simp: mail_world_def updateTickets_def appendInboundComment_def insertComment_def reopenResolvedTicket_def maybeSendAutoresponse_def
    findOrCreateEmailContact_def logInbound_Inr set_insertRow guard_simps Let_def split: if_splits option.splits)

lemma resolve_world:
  assumes "mail_world s t" "me_config env' = me_config env"
  shows "resolvePartnerByRecipient env' v t = resolvePartnerByRecipient env v s"
proof -
  have "db_partners t = db_partners s" "db_inboundDomains t = db_inboundDomains s" "getInboundDomain env' = getInboundDomain env"
    using assms by (simp_all add: mail_world_def getInboundDomain_def)
  then show ?thesis unfolding resolvePartnerByRecipient_def by (simp only:)
qed

lemma createAndLog_logged: "createAndLog env n p g key prior u now s = Inr t \<Longrightarrow> onLog (Some p) (ni_providerMessageId n) t"
  by (auto simp: createAndLog_def bindE_eq_Inr intro: logged_log)

lemma handle_logged:
  assumes "handleForPartner env n p now s = Inr t"
  shows "onLog (Some p) (ni_providerMessageId n) t"
  using assms unfolding handleForPartner_def threadMessage_def routeBySender_def Let_def
  by (auto simp: caught_Inr bindE_eq_Inr guard_simps intro: logged_log createAndLog_logged split: if_splits option.splits prod.splits bool.splits)

lemma failed_logged: "onLog (Some p) (ni_providerMessageId n) (logInboundFailedDurable n (Some p) e now s)"
proof (cases "logInbound n (Some p) Mail_failed None (Some (errorMessage e)) now s")
  case (Inl x)
  then show ?thesis by (auto simp: logInboundFailedDurable_def logInbound_def guard_simps split: if_splits)
qed (simp add: logInboundFailedDurable_def logged_log)

lemma process_logs:
  assumes "resolvePartnerByRecipient env (ni_to n) s = Inr (Some p)"
  shows "onLog (Some p) (ni_providerMessageId n) (processInboundEmail env n now s)"
  using assms by (auto simp: processInboundEmail_def failed_logged intro: handle_logged split: sum.split prod.split)

text \<open>A message that is on the log changes nothing: where the guards do not notice it, the unique index does.\<close>

lemma logInbound_logged: "onLog w (ni_providerMessageId n) s \<Longrightarrow> \<exists>e. logInbound n w st j err now s = Inl e"
  by (simp add: logInbound_def guardE_def)

lemma logged_inert:
  assumes "resolvePartnerByRecipient env (ni_to n) s = Inr (Some p)" "onLog (Some p) (ni_providerMessageId n) s"
  shows "processInboundEmail env n now s = s"
proof -
  have failed: "logInboundFailedDurable n (Some p) e now s = s" for e
    using logInbound_logged[OF assms(2), of Mail_failed None "Some (errorMessage e)" now] by (auto simp: logInboundFailedDurable_def)
  have log: "\<exists>e. caught s s (logInbound n (Some p) st j err now s) = Inl (e, s)" for st j err
    using logInbound_logged[OF assms(2), of st j err now] by (auto simp: caught_def split: svc_error.split)
  have "handleForPartner env n p now s = Inr s \<or> (\<exists>e. handleForPartner env n p now s = Inl (e, s))"
    unfolding handleForPartner_def Let_def using log assms(2) by simp
  then show ?thesis using assms(1) failed by (auto simp: processInboundEmail_def)
qed

definition deliver :: "mail_env \<times> inbound_mail \<times> instant \<Rightarrow> db \<Rightarrow> db" where
  "deliver d s = (case d of (env, n, now) \<Rightarrow> processInboundEmail env n now s)"

lemma deliver_world: "mail_world s (fold deliver ds s)"
proof (induction ds arbitrary: s)
  case (Cons d ds)
  have "mail_world s (deliver d s)" using mail_log.inbound by (simp add: deliver_def split: prod.split)
  then show ?case using Cons mail_log.keeps_trans by fastforce
qed (simp add: mail_world_def)

text \<open>
  (C18) A message counts once. However often the provider delivers it again, and whatever other messages are
  processed in between, once a message for a partner has been processed every further delivery leaves the whole
  database and the events as they are, on every path: matched, created, quarantined, skipped, dropped or failed.
\<close>

theorem redelivery_inert:
  assumes "resolvePartnerByRecipient env (ni_to n) s = Inr (Some p)" "me_config env' = me_config env"
    and "t = fold deliver ds (processInboundEmail env n now s)"
  shows "processInboundEmail env' n later t = t"
proof (rule logged_inert)
  have first: "mail_world s (processInboundEmail env n now s)" using mail_log.inbound by blast
  then have world: "mail_world s t" using mail_log.keeps_trans[OF _ deliver_world] assms(3) by blast
  show "resolvePartnerByRecipient env' (ni_to n) t = Inr (Some p)" using resolve_world[OF world assms(2)] assms(1) by simp
  show "onLog (Some p) (ni_providerMessageId n) t"
    using logged_mono[OF _ process_logs[OF assms(1), of now]] deliver_world[of "processInboundEmail env n now s" ds] by (simp add: mail_world_def assms(3))
qed

theorem redelivery_inert_witness:
  "resolvePartnerByRecipient desk_env (ni_to (letter ''a1'')) day0 = Inr (Some 10) \<and>
   (let t = processInboundEmail desk_env (letter ''b2'') 5 (processInboundEmail desk_env (letter ''a1'') 4 day0)
    in processInboundEmail desk_env (letter ''a1'') 6 t = t)"
proof -
  have a: "resolvePartnerByRecipient desk_env (ni_to (letter ''a1'')) day0 = Inr (Some 10)" using addressed[OF day0_mail(1,2)] by (simp add: letter_sel)
  show ?thesis using a redelivery_inert[OF a refl, of _ "[(desk_env, letter ''b2'', 5)]" 4 6] by (simp add: deliver_def Let_def)
qed

section \<open>Unauthenticated senders\<close>

text \<open>The states a message can leave behind when it only reaches the log.\<close>

definition only_logged :: "db \<Rightarrow> db \<Rightarrow> bool" where
  "only_logged s t \<longleftrightarrow> (\<exists>k es. t = s \<lparr> db_next := k, db_inboundEmails := db_inboundEmails s @ es \<rparr> \<and> length es \<le> 1 \<and>
     (\<forall>r \<in> set es. em_ticketId r = None \<and> em_parseStatus r \<in> {Mail_quarantined, Mail_ignored, Mail_skipped, Mail_failed}))"

lemma only_logged_refl: "only_logged s s"
  unfolding only_logged_def by (intro exI[of _ "db_next s"] exI[of _ "[]"]) simp

lemma only_logged_log:
  "logInbound n w st None err now s = Inr t \<Longrightarrow> st \<in> {Mail_quarantined, Mail_ignored, Mail_skipped, Mail_failed} \<Longrightarrow> only_logged s t"
  unfolding only_logged_def logInbound_Inr insertRow_def
  by (intro exI[of _ "Suc (db_next s)"] exI[of _ "[logRow n w st None err now (db_next s)]"]) (simp add: logRow_def)

lemma only_logged_failed: "only_logged s (logInboundFailedDurable n w e now s)"
  by (auto simp: logInboundFailedDurable_def intro: only_logged_refl only_logged_log split: sum.split)

definition verified :: "inbound_mail \<Rightarrow> bool" where
  "verified n \<longleftrightarrow> (\<exists>v. ni_senderAuth n = Some v \<and> sau_verified v)"

text \<open>
  (C20) A message whose sender is not authenticated touches nothing but the log: it leaves every table and the
  events as they are and adds at most one log row, which names no ticket, whatever ticket, thread or portal
  user it claims to belong to.
\<close>

theorem unverified_mail_inert:
  assumes "\<not> verified n"
  shows "only_logged s (processInboundEmail env n now s)"
proof -
  have "only_logged s t" if "handleForPartner env n p now s = Inr t" for p t
    using that assms unfolding handleForPartner_def Let_def
    by (auto simp: verified_def caught_Inr intro: only_logged_log only_logged_refl split: if_splits option.splits)
  moreover have "only_logged s (logInboundFailedDurable n w e now t)" if "handleForPartner env n p now s = Inl (e, t)" for p e t w
  proof -
    have "t = s" using that assms unfolding handleForPartner_def Let_def
      by (auto simp: verified_def dest!: caught_Inl split: if_splits option.splits)
    then show ?thesis by (simp add: only_logged_failed)
  qed
  ultimately show ?thesis
    by (auto simp: processInboundEmail_def intro: only_logged_failed only_logged_log split: sum.splits option.splits prod.splits)
qed

theorem unverified_mail_inert_witness: "\<not> verified (anonymous ''a1'') \<and> only_logged day0 (processInboundEmail desk_env (anonymous ''a1'') 4 day0)"
proof -
  have "\<not> verified (anonymous ''a1'')" by (simp add: verified_def letter_sel)
  then show ?thesis using unverified_mail_inert[of "anonymous ''a1''" day0 desk_env 4] by simp
qed

section \<open>Partners\<close>

text \<open>What a message for a partner may do to the tickets: those of other partners stay, and comments go to its own.\<close>

definition within_partner :: "uuid \<Rightarrow> db \<Rightarrow> db \<Rightarrow> bool" where
  "within_partner p s t \<longleftrightarrow> filter (\<lambda>r. tk_partnerId r \<noteq> Some p) (db_tickets t) = filter (\<lambda>r. tk_partnerId r \<noteq> Some p) (db_tickets s) \<and>
     (\<exists>cs. db_ticketComments t = db_ticketComments s @ cs \<and> (\<forall>c \<in> set cs. \<exists>r \<in> set (db_tickets s). tk_id r = tcm_ticketId c \<and> tk_partnerId r = Some p))"

lemma within_refl: "db_tickets t = db_tickets s \<Longrightarrow> db_ticketComments t = db_ticketComments s \<Longrightarrow> within_partner p s t"
  by (simp add: within_partner_def)

lemma within_log: "within_partner p s t \<Longrightarrow> logInbound n w st j err now t = Inr u \<Longrightarrow> within_partner p s u"
  by (simp add: within_partner_def logInbound_Inr)

lemma within_failed: "within_partner p s t \<Longrightarrow> within_partner p s (logInboundFailedDurable n w e now t)"
  by (auto simp: logInboundFailedDurable_def intro: within_log split: sum.split)

lemma filter_updateWhere:
  assumes "\<And>r. r \<in> set ts \<Longrightarrow> P r \<Longrightarrow> \<not> Q r \<and> \<not> Q (f r)"
  shows "filter Q (updateWhere P f ts) = filter Q ts"
  using assms by (induction ts) (auto simp: updateWhere_def)

lemma unique_org:
  assumes "distinct (map org_id (db_organizations s))" "orgOfPartner g p s" "orgOf s g = Some org"
  shows "org_partnerId org = p"
  using assms selectOne_Some[of "\<lambda>r. org_id r = g" "db_organizations s" org]
  by (auto simp: orgOfPartner_def orgOf_def distinct_map inj_on_def)

lemma within_create:
  assumes "createFromEmail env n p g key prior u now s = Inr (r, t)" "distinct (map org_id (db_organizations s))" "key_ok tk_id (db_next s) (db_tickets s)"
  shows "within_partner p s t"
proof -
  let ?f = "\<lambda>q. q \<lparr> tk_emailThreadKey := threadKeyFor env key n (tk_id r), tk_emailMessageId := ni_messageId n \<rparr>"
  obtain s1 s2 where s1: "createTicket (mailTicketInput n g prior u) SYSTEM_ACTOR (me_legacyNumber env) (me_year env) now s = Inr (r, s1)"
    and s2: "s2 = updateTickets (\<lambda>q. tk_id q = tk_id r) ?f s1" and org: "orgOfPartner g p s"
    and rest: "(if u \<noteq> None \<and> \<not> isPgText prior then maybeSendAutoresponse env n p (nullish (ticketOf s2 (tk_id r)) r) g (Some p) s2 else Inr s2) = Inr t"
    using assms(1) unfolding createFromEmail_def by (auto simp: bindE_eq_Inr guard_simps Let_def)
  have t: "db_tickets t = db_tickets s2" "db_ticketComments t = db_ticketComments s2"
    using rest by (auto simp: maybeSendAutoresponse_def guard_simps split: if_splits)
  from s1 obtain org where c: "db_tickets s1 = insertRow r (db_tickets s)" "db_ticketComments s1 = db_ticketComments s" "tk_id r = db_next s"
      "orgOf s g = Some org" "tk_partnerId r = Some (org_partnerId org)"
    by (rule createTicket_eq) (simp add: mailTicketInput_def Let_def)
  have r: "tk_partnerId r = Some p" using unique_org[OF assms(2) org c(4)] c(5) by simp
  have "tk_id q \<noteq> tk_id r" if "q \<in> set (db_tickets s)" for q using that assms(3) c(3) by (auto simp: key_ok_def)
  then have "filter (\<lambda>q. tk_partnerId q \<noteq> Some p) (db_tickets s2) = filter (\<lambda>q. tk_partnerId q \<noteq> Some p) (db_tickets s1)"
    unfolding s2 using r by (auto simp: c(1) set_insertRow intro!: filter_updateWhere)
  then show ?thesis using r by (simp add: within_partner_def t s2 c(1,2) insertRow_def)
qed

lemma within_createAndLog:
  assumes "createAndLog env n p g key prior u now s = Inr t" "distinct (map org_id (db_organizations s))" "key_ok tk_id (db_next s) (db_tickets s)"
  shows "within_partner p s t"
  using assms by (auto simp: createAndLog_def bindE_eq_Inr intro: within_log within_create)

lemma contact_eq:
  assumes "findOrCreateEmailContact g v name s = (u, t)"
  shows "db_tickets t = db_tickets s" "db_ticketComments t = db_ticketComments s" "db_organizations t = db_organizations s" "db_next s \<le> db_next t"
  using assms by (auto simp: findOrCreateEmailContact_def Let_def split: option.splits)

lemma within_route:
  assumes "routeBySender env n p now s = Inr t" "distinct (map org_id (db_organizations s))" "key_ok tk_id (db_next s) (db_tickets s)"
  shows "within_partner p s t"
proof -
  have contact: "within_partner p s t" if c: "findOrCreateEmailContact g v name s = (u, s1)" and l: "createAndLog env n p g None None (Some u) now s1 = Inr t" for g v name u s1
  proof -
    have "key_ok tk_id (db_next s1) (db_tickets s1)" using assms(3) contact_eq(1,4)[OF c] by (auto intro: key_ok_mono)
    then have "within_partner p s1 t" using within_createAndLog[OF l] contact_eq(3)[OF c] assms(2) by simp
    then show ?thesis using contact_eq(1,2)[OF c] by (simp add: within_partner_def)
  qed
  show ?thesis using assms unfolding routeBySender_def
    by (auto simp: caught_Inr bindE_eq_Inr intro: contact within_createAndLog within_log[OF within_refl] split: option.splits prod.splits bool.splits if_splits)
qed

text \<open>What a failed message leaves: at most a new contact.\<close>

lemma within_error:
  assumes "handleForPartner env n p now s = Inl (e, t)"
  shows "within_partner p s t"
proof -
  have route: "within_partner p s t" if "routeBySender env n p now s = Inl (e, t)"
    using that unfolding routeBySender_def
    by (auto dest!: caught_Inl intro!: within_refl dest: contact_eq(1,2) split: option.splits if_splits prod.splits bool.splits)
  show ?thesis using assms unfolding handleForPartner_def threadMessage_def Let_def
    by (auto dest!: caught_Inl intro: within_refl route split: option.splits if_splits)
qed

lemma findTicket_partner: "findTicketInPartner n p s = Some r \<Longrightarrow> r \<in> set (db_tickets s) \<and> tk_partnerId r = Some p"
  by (auto simp: findTicketInPartner_def orElse_def liveThread_def numbered_def bind_eq_Some_conv dest!: selectOne_Some split: option.splits if_splits)

lemma within_append:
  assumes "r \<in> set (db_tickets s)" "tk_partnerId r = Some p"
  shows "within_partner p s (appendInboundComment (tk_id r) n p now s)" "within_partner p s (reopenResolvedTicket (tk_id r) p now (appendInboundComment (tk_id r) n p now s))"
  using assms by (auto simp: within_partner_def appendInboundComment_def reopenResolvedTicket_def updateTickets_def insertComment_def insertRow_def Let_def
      intro!: filter_updateWhere)

text \<open>
  (C19) A message stays within the partner it is addressed to: whatever it says about itself, the tickets of every
  other partner are exactly what they were, and a comment it adds is on a ticket of that partner. This holds of
  the failure paths too.
\<close>

theorem mail_within_partner:
  assumes "resolvePartnerByRecipient env (ni_to n) s = Inr (Some p)" "distinct (map org_id (db_organizations s))" "key_ok tk_id (db_next s) (db_tickets s)"
  shows "within_partner p s (processInboundEmail env n now s)"
proof -
  have thread: "within_partner p s t" if "threadMessage env n p now s = Inr t" for t
    using that assms(2,3) findTicket_partner[of n p s] unfolding threadMessage_def Let_def
    by (auto simp: caught_Inr guard_simps intro: within_createAndLog within_route within_log[OF within_append(1)] within_log[OF within_append(2)] split: option.splits if_splits)
  have "within_partner p s t" if "handleForPartner env n p now s = Inr t" for t
    using that unfolding handleForPartner_def Let_def by (auto simp: caught_Inr intro: thread within_refl within_log[OF within_refl] split: if_splits)
  then show ?thesis using assms(1) by (auto simp: processInboundEmail_def intro: within_failed within_error split: sum.splits prod.splits)
qed

theorem mail_within_partner_witness:
  "resolvePartnerByRecipient desk_env (ni_to (letter ''a1'')) day0 = Inr (Some 10) \<and> within_partner 10 day0 (processInboundEmail desk_env (letter ''a1'') 4 day0)"
proof -
  have a: "resolvePartnerByRecipient desk_env (ni_to (letter ''a1'')) day0 = Inr (Some 10)" using addressed[OF day0_mail(1,2)] by (simp add: letter_sel)
  have "distinct (map org_id (db_organizations day0))" "key_ok tk_id (db_next day0) (db_tickets day0)"
    by (simp_all add: day0_mail key_ok_def work_ticket_def)
  then show ?thesis using a mail_within_partner[OF a] by simp
qed

section \<open>Threads\<close>

text \<open>A message for an active partner that nothing stops before the matching.\<close>

definition admitted :: "mail_env \<Rightarrow> inbound_mail \<Rightarrow> uuid \<Rightarrow> db \<Rightarrow> bool" where
  "admitted env n p s \<longleftrightarrow> resolvePartnerByRecipient env (ni_to n) s = Inr (Some p) \<and> map_option pr_status (partnerOf s p) = Some Partner_active \<and>
     (\<forall>d. inboundDomainOrNull env = Some d \<longrightarrow> senderDomain (ni_from n) \<noteq> js_toLowerCase d) \<and>
     \<not> onLog (Some p) (ni_providerMessageId n) s \<and> verified n"

lemma admitted_handle: "admitted env n p s \<Longrightarrow> handleForPartner env n p now s = threadMessage env n p now s"
  by (cases "inboundDomainOrNull env") (auto simp: admitted_def handleForPartner_def Let_def verified_def isPgText_def)

lemma process_admitted:
  "admitted env n p s \<Longrightarrow> processInboundEmail env n now s =
     (case threadMessage env n p now s of Inl (e, s1) \<Rightarrow> logInboundFailedDurable n (Some p) e now s1 | Inr t \<Rightarrow> t)"
  using admitted_handle[of env n p s now] by (simp add: processInboundEmail_def admitted_def)

text \<open>
  A failed message can leave a contact. When the domain of the sender is mapped to an organization outside the
  partner, the contact is created before the guard on the organization throws; the error is caught inside the
  transaction, which then commits, so the contact stays although no ticket was created.
\<close>

lemma failed_message_keeps_contact:
  assumes "admitted env n p s" "findTicketInPartner n p s = None" "findClosedTicketInPartner n p s = None"
    and "findPortalUserInPartner (ni_from n) p s = None" "resolveOrgBySenderDomain (ni_from n) p s = Some d" "ced_autoCreateContact d"
    and "\<not> orgOfPartner (ced_orgId d) p s"
  shows "\<exists>u t. findOrCreateEmailContact (ced_orgId d) (ni_from n) (ni_fromName n) s = (u, t) \<and>
    db_portalUsers (processInboundEmail env n now s) = db_portalUsers t \<and> db_tickets (processInboundEmail env n now s) = db_tickets s"
proof -
  obtain u t where c: "findOrCreateEmailContact (ced_orgId d) (ni_from n) (ni_fromName n) s = (u, t)" by fastforce
  have "\<not> orgOfPartner (ced_orgId d) p t" using assms(7) contact_eq(3)[OF c] by (simp add: orgOfPartner_def)
  then have "threadMessage env n p now s = Inl (JsError ''org not in partner'', t)"
    using assms(2-6) c by (simp add: threadMessage_def routeBySender_def caught_def createAndLog_def createFromEmail_def guardE_def)
  then have "processInboundEmail env n now s = logInboundFailedDurable n (Some p) (JsError ''org not in partner'') now t"
    using process_admitted[OF assms(1)] by simp
  then show ?thesis using c contact_eq(1)[OF c] by (auto simp: logInboundFailedDurable_def logInbound_def guardE_def)
qed

lemma append_sel:
  "db_tickets (appendInboundComment i n p now s) = db_tickets s" "db_inboundEmails (appendInboundComment i n p now s) = db_inboundEmails s"
  "\<exists>c. db_ticketComments (appendInboundComment i n p now s) = db_ticketComments s @ [c] \<and> tcm_ticketId c = i \<and> tcm_content c = ni_text n \<and> tcm_isPublic c"
  by (simp_all add: appendInboundComment_def insertComment_def insertRow_def Let_def)

lemma reopen_sel:
  "db_inboundEmails (reopenResolvedTicket i p now s) = db_inboundEmails s" "db_ticketComments (reopenResolvedTicket i p now s) = db_ticketComments s"
  "db_tickets (reopenResolvedTicket i p now s) = updateWhere (\<lambda>t. tk_id t = i \<and> tk_partnerId t = Some p \<and> tk_status t = Tk_resolved)
     (\<lambda>t. t \<lparr> tk_status := Tk_open, tk_resolvedAt := None, tk_updatedAt := now \<rparr>) (db_tickets s)"
  by (simp_all add: reopenResolvedTicket_def updateTickets_def)

text \<open>The outcome of a message that is matched with a ticket.\<close>

definition joins_thread :: "inbound_mail \<Rightarrow> ticket \<Rightarrow> db \<Rightarrow> db \<Rightarrow> bool" where
  "joins_thread n r s t \<longleftrightarrow> map tk_id (db_tickets t) = map tk_id (db_tickets s) \<and>
     map_option tk_status (ticketOf t (tk_id r)) = Some (if tk_status r = Tk_resolved then Tk_open else tk_status r) \<and>
     (\<exists>c. db_ticketComments t = db_ticketComments s @ [c] \<and> tcm_ticketId c = tk_id r \<and> tcm_content c = ni_text n \<and> tcm_isPublic c) \<and>
     (\<exists>l. db_inboundEmails t = db_inboundEmails s @ [l] \<and> em_parseStatus l = Mail_matched \<and> em_ticketId l = Some (tk_id r))"

lemma joins_thread_key: "joins_thread n (r \<lparr> tk_emailThreadKey := key \<rparr>) = joins_thread n r"
  by (simp add: joins_thread_def fun_eq_iff)

lemma find_updateWhere:
  assumes "\<And>x. k (f x) = k x"
  shows "selectOne (\<lambda>x. k x = i) (updateWhere P f xs) = map_option (\<lambda>x. if P x then f x else x) (selectOne (\<lambda>x. k x = i) xs)"
  using assms by (induction xs) (auto simp: selectOne_def updateWhere_def)

lemma ticketOf_key: "key_ok tk_id k (db_tickets s) \<Longrightarrow> r \<in> set (db_tickets s) \<Longrightarrow> ticketOf s (tk_id r) = Some r"
proof (cases "ticketOf s (tk_id r)")
  case (Some q)
  assume "key_ok tk_id k (db_tickets s)" "r \<in> set (db_tickets s)"
  then show ?thesis using Some selectOne_Some[OF Some[unfolded ticketOf_def]] key_ok_unique[of tk_id k "db_tickets s" q r] by simp
qed (auto simp: ticketOf_def selectOne_None)

lemma matched_joins:
  assumes "admitted env n p s" "findTicketInPartner n p s = Some r" "key_ok tk_id k (db_tickets s)"
  shows "joins_thread n r s (processInboundEmail env n now s)"
proof -
  let ?a = "appendInboundComment (tk_id r) n p now s"
  let ?u = "if tk_status r = Tk_resolved then reopenResolvedTicket (tk_id r) p now ?a else ?a"
  have r: "r \<in> set (db_tickets s)" "tk_partnerId r = Some p" using findTicket_partner[OF assms(2)] by auto
  have u: "db_inboundEmails ?u = db_inboundEmails s" by (simp add: append_sel reopen_sel)
  then have "\<not> onLog (Some p) (ni_providerMessageId n) ?u" using assms(1) by (simp add: admitted_def onLog_def)
  then have t: "processInboundEmail env n now s = ?u \<lparr> db_next := Suc (db_next ?u),
      db_inboundEmails := insertRow (logRow n (Some p) Mail_matched (Some (tk_id r)) None now (db_next ?u)) (db_inboundEmails ?u) \<rparr>"
    using process_admitted[OF assms(1), of now] assms(2) r(2) by (simp add: threadMessage_def caught_def Let_def logInbound_def guardE_def)
  have sel: "ticketOf s (tk_id r) = Some r" using ticketOf_key[OF assms(3) r(1)] .
  have "map tk_id (db_tickets ?u) = map tk_id (db_tickets s)" by (simp add: append_sel reopen_sel map_updateWhere)
  moreover have "map_option tk_status (ticketOf ?u (tk_id r)) = Some (if tk_status r = Tk_resolved then Tk_open else tk_status r)"
    using sel r(2) unfolding ticketOf_def by (simp add: append_sel reopen_sel find_updateWhere)
  moreover have "\<exists>c. db_ticketComments ?u = db_ticketComments s @ [c] \<and> tcm_ticketId c = tk_id r \<and> tcm_content c = ni_text n \<and> tcm_isPublic c"
    using append_sel(3)[of "tk_id r" n p now s] by (simp add: reopen_sel)
  ultimately show ?thesis unfolding joins_thread_def t using u by (simp add: ticketOf_def insertRow_def logRow_def)
qed

lemma candidate_set: "set (candidateThreadKeys n) = {k. k \<noteq> [] \<and> (ni_inReplyTo n = Some k \<or> k \<in> set (nullish (ni_references n) []))}"
  by (auto simp: candidateThreadKeys_def split: option.splits)

lemma keyIn_set: "keyIn v ks \<longleftrightarrow> (\<exists>k \<in> set ks. v = Some k)"
  by (auto simp: keyIn_def split: option.splits)

lemma anchor_text: "ticketThreadAnchor env i = Some anchor \<Longrightarrow> anchor \<noteq> []"
  by (auto simp: ticketThreadAnchor_def split: option.splits)

text \<open>The notification of a public comment: its headers, and the anchor stamped on a ticket that has none.\<close>

lemma comment_notice:
  assumes "handleTicketEvent env (Ev_ticket_commented c True False) i g a s = Inr ([m], t)" "ep_headers m = Some hs" "ticketOf s i = Some r"
  obtains anchor where "ticketThreadAnchor env i = Some anchor" "map_of hs ''References'' = Some anchor"
    "t = (if isPgText (tk_emailThreadKey r) then s else updateTickets (\<lambda>q. tk_id q = i) (\<lambda>q. q \<lparr> tk_emailThreadKey := Some anchor \<rparr>) s)"
    "ep_replyTo m = replyAddress env r s" "ep_to m = nullish (tk_submitterEmail r) []"
proof -
  have i: "tk_id r = i" using selectOne_Some[OF assms(3)[unfolded ticketOf_def]] by simp
  obtain anchor where anchor: "ticketThreadAnchor env i = Some anchor"
    using assms i by (auto simp: handleTicketEvent_def collectRequesterEmail_def getTicketOrRetry_def ofOption_def buildThreadingHeaders_def Let_def
        split: option.splits if_splits)
  show thesis
    by (rule that[OF anchor]) (use assms i anchor in \<open>auto simp: handleTicketEvent_def collectRequesterEmail_def getTicketOrRetry_def ofOption_def
      buildThreadingHeaders_def orUndefined_def Let_def split: option.splits if_splits\<close>)
qed

lemma find_live:
  assumes "key_ok tk_id k (db_tickets s)" "r \<in> set (db_tickets s)" "liveThread p (candidateThreadKeys n) r"
    and "\<And>q. q \<in> set (db_tickets s) \<Longrightarrow> liveThread p (candidateThreadKeys n) q \<Longrightarrow> tk_id q = tk_id r"
  shows "findTicketInPartner n p s = Some r"
proof -
  have keys: "candidateThreadKeys n \<noteq> []" using assms(3) by (auto simp: liveThread_def keyIn_set)
  obtain q where q: "selectOne (liveThread p (candidateThreadKeys n)) (db_tickets s) = Some q"
    using assms(2,3) by (cases "selectOne (liveThread p (candidateThreadKeys n)) (db_tickets s)") (auto simp: selectOne_None)
  then have "q = r" using selectOne_Some[OF q] assms(4) key_ok_unique[OF assms(1) _ assms(2)] by blast
  then show ?thesis using q keys by (simp add: findTicketInPartner_def orElse_def)
qed

text \<open>
  (C21) Mail threads round trip. A public comment sends its requester a message; an authenticated answer to that
  message, which by the rules of mail names it in \<open>In-Reply-To\<close> and carries its references on, becomes a public
  comment of the same ticket, whatever its subject: no ticket is created, and a resolved ticket is open again. This
  holds of a ticket that is not closed and whose thread key is its own, which the notification sets when it has none,
  as long as no other live ticket of the partner carries one of the two identifiers.
\<close>

theorem reply_joins_thread:
  assumes "handleTicketEvent env (Ev_ticket_commented c True False) i g a s = Inr ([m], s1)" "ep_headers m = Some hs"
    and "ticketOf s i = Some r" "tk_partnerId r = Some p" "tk_status r \<noteq> Tk_closed" "key_ok tk_id k (db_tickets s)"
    and "\<not> isPgText (tk_emailThreadKey r) \<or> tk_emailThreadKey r = ticketThreadAnchor env i"
    and "ni_inReplyTo n = map_of hs ''Message-ID''" "ni_references n = Some [the (map_of hs ''References''), the (map_of hs ''Message-ID'')]"
    and "\<And>q. q \<in> set (db_tickets s) \<Longrightarrow> liveThread p (candidateThreadKeys n) q \<Longrightarrow> tk_id q = i"
    and "admitted env' n p s1"
  shows "joins_thread n r s1 (processInboundEmail env' n now s1)"
proof -
  have i: "r \<in> set (db_tickets s)" "tk_id r = i" using selectOne_Some[OF assms(3)[unfolded ticketOf_def]] by simp_all
  obtain anchor where h: "ticketThreadAnchor env i = Some anchor" "map_of hs ''References'' = Some anchor"
    "s1 = (if isPgText (tk_emailThreadKey r) then s else updateTickets (\<lambda>q. tk_id q = i) (\<lambda>q. q \<lparr> tk_emailThreadKey := Some anchor \<rparr>) s)"
    using comment_notice[OF assms(1-3)] by metis
  let ?f = "\<lambda>q. if tk_id q = i \<and> \<not> isPgText (tk_emailThreadKey r) then q \<lparr> tk_emailThreadKey := Some anchor \<rparr> else q"
  have anchor: "keyIn (Some anchor) (candidateThreadKeys n)" using assms(9) h(2) anchor_text[OF h(1)] by (auto simp: keyIn_set candidate_set)
  have ts: "db_tickets s1 = map ?f (db_tickets s)" using h(3) by (auto simp: updateTickets_def updateWhere_def intro!: map_idI[symmetric])
  have ids: "map tk_id (db_tickets s1) = map tk_id (db_tickets s)" by (simp add: ts)
  have key: "key_ok tk_id k (db_tickets s1)" using key_ok_map[OF ids] assms(6) by simp
  have "findTicketInPartner n p s1 = Some (?f r)"
  proof (rule find_live[OF key])
    show "?f r \<in> set (db_tickets s1)" using i(1) by (auto simp: ts)
    show "liveThread p (candidateThreadKeys n) (?f r)" using anchor assms(4,5,7) i(2) h(1) by (auto simp: liveThread_def)
    show "tk_id q = tk_id (?f r)" if "q \<in> set (db_tickets s1)" "liveThread p (candidateThreadKeys n) q" for q
      using that assms(10) i(2) by (auto simp: ts split: if_splits)
  qed
  from matched_joins[OF assms(11) this key, of now] show ?thesis by (simp add: joins_thread_key split: if_splits)
qed

text \<open>A ticket of the guest, resolved, and his answer to the notification of a comment on it.\<close>

definition asked_ticket :: ticket where
  "asked_ticket = work_ticket \<lparr> tk_status := Tk_resolved, tk_resolvedAt := Some 5, tk_submitterEmail := Some ''guest@acme.example'' \<rparr>"

definition asked_desk :: db where
  "asked_desk = day0 \<lparr> db_tickets := [asked_ticket] \<rparr>"

definition answer :: inbound_mail where
  "answer = letter ''a1'' \<lparr> ni_subject := ''thanks'', ni_inReplyTo := Some ''<ticket-30-0@tickets.example>'',
     ni_references := Some [''<ticket-30@tickets.example>'', ''<ticket-30-0@tickets.example>''] \<rparr>"

lemma admitted_letter:
  assumes "db_partners s = [msp_partner]" "db_inboundDomains s = []" "\<not> onLog (Some 10) (ni_providerMessageId n) s"
    and "ni_to n = ''msp@tickets.example''" "ni_from n = ''guest@acme.example''" "ni_senderAuth n = ni_senderAuth (letter m)"
  shows "admitted desk_env n 10 s"
  using assms addressed[OF assms(1,2)]
  by (auto simp: admitted_def desk_env_def inboundDomainOrNull_def verified_def senderDomain_def letter_def msp_partner_def partnerOf_def selectOne_def text_defs)

theorem reply_joins_thread_witness:
  "\<exists>m s1. handleTicketEvent desk_env (Ev_ticket_commented 0 True False) 30 20 (Some 7) asked_desk = Inr ([m], s1) \<and>
     joins_thread answer asked_ticket s1 (processInboundEmail desk_env answer 9 s1)"
proof -
  let ?hs = "[(''Message-ID'', ''<ticket-30-0@tickets.example>''), (''In-Reply-To'', ''<ticket-30@tickets.example>''), (''References'', ''<ticket-30@tickets.example>'')]"
  let ?m = "\<lparr> ep_to = ''guest@acme.example'', ep_subject = ''[T-2025-0001] New reply: Server down'',
      ep_html = ''<p>Your ticket has a new reply. Sign in to the portal to view it.</p>'', ep_bestEffort = False, ep_replyTo = Some ''msp@tickets.example'',
      ep_headers = Some ?hs \<rparr>"
  let ?s = "updateTickets (\<lambda>q. tk_id q = 30) (\<lambda>q. q \<lparr> tk_emailThreadKey := Some ''<ticket-30@tickets.example>'' \<rparr>) asked_desk"
  have r: "ticketOf asked_desk 30 = Some asked_ticket" "tk_id asked_ticket = 30" "tk_partnerId asked_ticket = Some 10" "tk_emailThreadKey asked_ticket = None"
      "tk_status asked_ticket = Tk_resolved" "db_tickets asked_desk = [asked_ticket]"
    by (simp_all add: asked_desk_def asked_ticket_def work_ticket_def ticketOf_def selectOne_def)
  have h: "handleTicketEvent desk_env (Ev_ticket_commented 0 True False) 30 20 (Some 7) asked_desk = Inr ([?m], ?s)"
  proof -
    have d: "orUndefined (inboundDomainOrNull desk_env) = Some ''tickets.example''" by (simp add: desk_env_def inboundDomainOrNull_def orUndefined_def isPgText_def)
    have u: "uuidText 30 = ''30''" "uuidText 0 = ''0''" by (simp_all add: uuidText_def js_String_def show_digits.simps digit_char_def)
    have t: "orUndefined (tk_submitterEmail asked_ticket) = Some ''guest@acme.example''" "ticketLabel asked_ticket = ''T-2025-0001''" "tk_subject asked_ticket = ''Server down''"
      by (simp_all add: asked_ticket_def work_ticket_def orUndefined_def isPgText_def ticketLabel_def)
    have b: "ticketThreadAnchor desk_env 30 = Some ''<ticket-30@tickets.example>''" "commentMessageId desk_env 30 0 = Some ''<ticket-30-0@tickets.example>''"
      by (simp_all add: ticketThreadAnchor_def commentMessageId_def d u)
    have "replyAddress desk_env asked_ticket asked_desk = Some ''msp@tickets.example''"
      by (simp add: replyAddress_def r partnerOf_def selectOne_def asked_desk_def day0_mail msp_partner_def inboundSettings_def partnerInboundAddress_def d)
        (simp add: orUndefined_def isPgText_def desk_env_def inboundDomainOrNull_def)
    then show ?thesis using r t by (simp add: handleTicketEvent_def collectRequesterEmail_def getTicketOrRetry_def buildThreadingHeaders_def b isPgText_def Let_def)
  qed
  have "admitted desk_env answer 10 ?s"
    by (rule admitted_letter[where m = "''a1''"]) (simp_all add: asked_desk_def day0_mail answer_def letter_sel updateTickets_def onLog_def)
  moreover have "ni_inReplyTo answer = Some ''<ticket-30-0@tickets.example>''"
      "ni_references answer = Some [''<ticket-30@tickets.example>'', ''<ticket-30-0@tickets.example>'']" by (simp_all add: answer_def)
  ultimately have "joins_thread answer asked_ticket ?s (processInboundEmail desk_env answer 9 ?s)"
    by (intro reply_joins_thread[OF h, where k = 100 and p = 10 and hs = ?hs]) (simp_all add: r key_ok_def isPgText_def)
  then show ?thesis using h by blast
qed

section \<open>Tokens\<close>

lemma isDigit_digit: "0 \<le> digit_val c \<Longrightarrow> digit_val c < 10 \<Longrightarrow> isDigit c"
  using of_nat_of_char[of c, where 'a = int] by (auto simp: isDigit_def digit_val_def)

lemma digits_isDigit: "0 \<le> n \<Longrightarrow> list_all isDigit (js_String n)"
  using all_digits_js_String[of n] by (auto simp: all_digits_def list_all_iff intro: isDigit_digit)

lemma takeWhile_all: "list_all P xs \<Longrightarrow> (case ys of [] \<Rightarrow> True | y # _ \<Rightarrow> \<not> P y) \<Longrightarrow> takeWhile P (xs @ ys) = xs"
  by (induction xs) (auto split: list.splits)

text \<open>A number of a four-digit year is found where a word may begin and ends where the word does.\<close>

lemma tokenAt_number:
  assumes "1000 \<le> y" "y < 10000" "0 \<le> c" "\<not> startsWord post"
  shows "tokenAt (formatInternalNumber y c @ post) = Some (formatInternalNumber y c)"
proof -
  let ?d = "padStart 4 (CHR ''0'') (js_String c)"
  have len: "length (js_String y) = 4" using assms(1,2) length_show_digits[of 3 y] by (simp add: js_String_def)
  have d: "list_all isDigit ?d" "4 \<le> length ?d"
    using digits_isDigit[OF assms(3)] by (auto simp: padStart_def list_all_iff isDigit_def)
  have w: "takeWhile isDigit (?d @ post) = ?d"
    using assms(4) by (intro takeWhile_all[OF d(1)]) (auto simp: startsWord_def isWord_def split: list.splits)
  have f: "formatInternalNumber y c @ post = ''T-'' @ js_String y @ ''-'' @ ?d @ post" by (simp add: formatInternalNumber_def)
  have drops: "take 4 (drop 2 (formatInternalNumber y c @ post)) = js_String y" "drop 7 (formatInternalNumber y c @ post) = ?d @ post"
      "take 1 (drop 6 (formatInternalNumber y c @ post)) = ''-''" "take 2 (formatInternalNumber y c @ post) = ''T-''"
      "drop (7 + length ?d) (formatInternalNumber y c @ post) = post"
    unfolding f using len by (simp_all add: numeral_eq_Suc)
  show ?thesis unfolding tokenAt_def Let_def drops w using assms(1,4) len d digits_isDigit[of y] by (simp add: formatInternalNumber_def)
qed

lemma searchToken_skip:
  assumes "CHR ''T'' \<notin> set pre" "\<not> startsWord post" "pre = [] \<longrightarrow> \<not> w" "pre \<noteq> [] \<longrightarrow> \<not> isWord (last pre)" "1000 \<le> y" "y < 10000" "0 \<le> c"
  shows "searchToken w (pre @ formatInternalNumber y c @ post) = Some (pre, formatInternalNumber y c, post)"
  using assms(1,3,4)
proof (induction pre arbitrary: w)
  case Nil
  obtain v where v: "formatInternalNumber y c @ post = CHR ''T'' # v" by (simp add: formatInternalNumber_def)
  have "searchToken False (formatInternalNumber y c @ post) = Some ([], formatInternalNumber y c, post)"
    unfolding v searchToken.simps unfolding v[symmetric] by (simp add: tokenAt_number[OF assms(5-7,2)])
  then show ?case using Nil by simp
next
  case (Cons x pre)
  have "take 2 (x # pre @ formatInternalNumber y c @ post) \<noteq> ''T-''" using Cons(2) by (auto simp: numeral_eq_Suc)
  then have "tokenAt (x # pre @ formatInternalNumber y c @ post) = None" by (simp only: tokenAt_def Let_def simp_thms if_False)
  then show ?case using Cons by (cases "pre = []") auto
qed

text \<open>The answer to an acknowledgement carries the number of its ticket where the matching finds it, whatever the subject of the ticket.\<close>

lemma acknowledgement_token:
  assumes "1000 \<le> y" "y < 10000" "0 \<le> c"
  shows "matchToken (''Re: '' @ fst (buildAutoresponseEmail (Some (formatInternalNumber y c)) subject)) = Some (formatInternalNumber y c)"
proof -
  have "''Re: '' @ fst (buildAutoresponseEmail (Some (formatInternalNumber y c)) subject) = ''Re: ['' @ formatInternalNumber y c @ ''] We received your request: '' @ subject"
    by (simp add: buildAutoresponseEmail_def isPgText_def formatInternalNumber_def)
  then show ?thesis using searchToken_skip[of "''Re: [''" "''] We received your request: '' @ subject" False y c] assms
    by (simp add: matchToken_def startsWord_def isWord_def isDigit_def isLetter_def)
qed

section \<open>Limits\<close>

text \<open>
  (C39) The verdict that admits a sender can be written by the sender. The results header that Mailgun stamps
  quotes the envelope address before it states the verdict of DMARC; an envelope address whose local part is
  \<open>dmarc=pass\<close> makes the search find that text first, so the message counts as verified although the header says
  that DMARC failed, for every domain of the sender and every claimed author.
\<close>

theorem dmarc_verdict_spoofed:
  assumes "parseHeader b ''Authentication-Results'' =
    Some (''mx.mailgun.org; spf=pass smtp.mailfrom=dmarc=pass@'' @ d @ ''; dmarc=fail header.from='' @ author)"
  shows "sau_verified (extractSenderAuth b)"
proof -
  have "mailgunAuthResults b = ''mx.mailgun.org; spf=pass smtp.mailfrom=dmarc=pass@'' @ d @ ''; dmarc=fail header.from='' @ author"
    by (simp add: mailgunAuthResults_def assms orText_def js_trim_def isBlank_def js_toLowerCase_def lowerChar_def MAILGUN_AUTHSERV_ID_def)
  then have "extractMechanism (mailgunAuthResults b) ''dmarc'' = Some ''pass''"
    by (simp add: extractMechanism_def mechanismAt_def isWord_def isDigit_def isLetter_def isBlank_def js_toLowerCase_def lowerChar_def)
  moreover have "normalizeVerdict (Some ''pass'') = Auth_pass" by (simp add: normalizeVerdict_def js_trim_def isBlank_def js_toLowerCase_def lowerChar_def)
  ultimately show ?thesis by (simp add: extractSenderAuth_def Let_def)
qed

theorem dmarc_verdict_spoofed_witness:
  "sau_verified (extractSenderAuth \<lparr> mf_fields = [], mf_headers = Some [(''Authentication-Results'',
     ''mx.mailgun.org; spf=pass smtp.mailfrom=dmarc=pass@evil.example; dmarc=fail header.from=acme.example'')] \<rparr>)"
proof -
  have "''mx.mailgun.org; spf=pass smtp.mailfrom=dmarc=pass@evil.example; dmarc=fail header.from=acme.example'' =
      ''mx.mailgun.org; spf=pass smtp.mailfrom=dmarc=pass@'' @ ''evil.example'' @ ''; dmarc=fail header.from='' @ ''acme.example''" by simp
  then show ?thesis by (intro dmarc_verdict_spoofed[of _ "''evil.example''" "''acme.example''"]) (simp add: parseHeader_def)
qed

text \<open>The number of a new ticket is new to its partner.\<close>

lemma createTicket_number:
  assumes "createTicket input a v year now s = Inr (r, t)" "q \<in> set (db_tickets s)"
  shows "\<not> (tk_partnerId q = tk_partnerId r \<and> tk_internalNumber q = tk_internalNumber r)"
proof -
  obtain p m s1 s2 where i: "insertTicket r s1 = Inr s2" "allocateInternalTicketNumber p year s = Inr (m, s1)"
    using assms(1) unfolding createTicket_def by (auto simp: bindE_eq_Inr Let_def)
  then show ?thesis using assms(2) allocate_eq[OF i(2)] by (auto simp: insertTicket_def guard_simps)
qed

lemma createAndLog_appends:
  assumes "createAndLog env n p g key prior u now s = Inr t" "key_ok tk_id (db_next s) (db_tickets s)" "distinct (map org_id (db_organizations s))"
  obtains r where "db_tickets t = db_tickets s @ [r]" "tk_id r = db_next s" "db_ticketComments t = db_ticketComments s" "db_next s < db_next t"
    "tk_partnerId r = Some p" "db_organizations t = db_organizations s" "tk_status r = Tk_new"
    "\<And>q. q \<in> set (db_tickets s) \<Longrightarrow> tk_partnerId q = Some p \<Longrightarrow> tk_internalNumber q \<noteq> tk_internalNumber r"
proof -
  obtain r s3 where f: "createFromEmail env n p g key prior u now s = Inr (r, s3)" and l: "logInbound n (Some p) Mail_created (Some (tk_id r)) None now s3 = Inr t"
    using assms(1) by (auto simp: createAndLog_def bindE_eq_Inr)
  let ?f = "\<lambda>q. q \<lparr> tk_emailThreadKey := threadKeyFor env key n (tk_id r), tk_emailMessageId := ni_messageId n \<rparr>"
  obtain s1 s2 where s1: "createTicket (mailTicketInput n g prior u) SYSTEM_ACTOR (me_legacyNumber env) (me_year env) now s = Inr (r, s1)"
    and s2: "s2 = updateTickets (\<lambda>q. tk_id q = tk_id r) ?f s1" and org: "orgOfPartner g p s"
    and rest: "(if u \<noteq> None \<and> \<not> isPgText prior then maybeSendAutoresponse env n p (nullish (ticketOf s2 (tk_id r)) r) g (Some p) s2 else Inr s2) = Inr s3"
    using f unfolding createFromEmail_def by (auto simp: bindE_eq_Inr guard_simps Let_def)
  have s3: "db_tickets s3 = db_tickets s2" "db_ticketComments s3 = db_ticketComments s2" "db_next s3 = db_next s2" "db_organizations s3 = db_organizations s2"
    using rest by (auto simp: maybeSendAutoresponse_def guard_simps split: if_splits)
  from s1 obtain o' where c: "db_tickets s1 = insertRow r (db_tickets s)" "db_ticketComments s1 = db_ticketComments s" "tk_id r = db_next s" "db_next s1 = Suc (db_next s)"
      "orgOf s g = Some o'" "tk_partnerId r = Some (org_partnerId o')" "db_organizations s1 = db_organizations s" "fresh_ticket now r" "tk_assignedTo r = None"
    by (rule createTicket_eq) (simp add: mailTicketInput_def Let_def)
  have "tk_status r = Tk_new" using s1 unfolding createTicket_def by (auto simp: bindE_eq_Inr Let_def mailTicketInput_def)
  moreover have "tk_id q \<noteq> tk_id r" if "q \<in> set (db_tickets s)" for q using that assms(2) c(3) by (auto simp: key_ok_def)
  then have "db_tickets s2 = db_tickets s @ [?f r]" by (auto simp: s2 c(1) insertRow_def updateWhere_def intro: map_idI)
  ultimately show thesis using that[of "?f r"] l c unique_org[OF assms(3) org c(5)] createTicket_number[OF s1]
    by (auto simp: logInbound_Inr s3) (simp_all add: s2 updateTickets_def)
qed

text \<open>
  (C40) Answers to a closed ticket that are known by its number only fork it: when two messages with the same subject carry the
  number of a closed ticket there and no thread header at all, each of them opens a ticket of its own, because the
  second is matched with the closed ticket again and not with the ticket the first one opened.
\<close>

theorem closed_replies_fork:
  assumes "admitted env n p s" "admitted env' n' p (processInboundEmail env n now s)" "ni_subject n' = ni_subject n"
    and "candidateThreadKeys n = []" "candidateThreadKeys n' = []" "matchToken (ni_subject n) = Some m"
    and "\<And>q. q \<in> set (db_tickets s) \<Longrightarrow> numbered p m q \<Longrightarrow> tk_status q = Tk_closed" "\<exists>q \<in> set (db_tickets s). numbered p m q"
    and "threadMessage env n p now s = Inr t" "threadMessage env' n' p later t = Inr u"
    and "key_ok tk_id (db_next s) (db_tickets s)" "distinct (map org_id (db_organizations s))"
  shows "\<exists>r r'. db_tickets (processInboundEmail env' n' later (processInboundEmail env n now s)) = db_tickets s @ [r, r'] \<and>
    tk_id r \<noteq> tk_id r' \<and> tk_partnerId r = Some p \<and> tk_partnerId r' = Some p \<and> tk_status r = Tk_new \<and> tk_status r' = Tk_new"
proof -
  have once: "\<exists>g key prior. createAndLog env n p g key prior None now s = Inr t"
    if f: "candidateThreadKeys n = []" "matchToken (ni_subject n) = Some m" "threadMessage env n p now s = Inr t"
      "\<And>q. q \<in> set (db_tickets s) \<Longrightarrow> numbered p m q \<Longrightarrow> tk_status q = Tk_closed" "\<exists>q \<in> set (db_tickets s). numbered p m q" for env n now s t
  proof -
    have "findTicketInPartner n p s = None" using f(1,2,4) by (auto simp: findTicketInPartner_def orElse_def selectOne_None)
    moreover obtain q where "findClosedTicketInPartner n p s = Some q"
      using f(1,2,4,5) by (cases "selectOne (\<lambda>q. numbered p m q \<and> tk_status q = Tk_closed) (db_tickets s)")
        (auto simp: findClosedTicketInPartner_def orElse_def selectOne_None)
    ultimately show ?thesis using f(3) by (auto simp: threadMessage_def caught_Inr)
  qed
  obtain g key prior where c: "createAndLog env n p g key prior None now s = Inr t" using once[OF assms(4,6,9,7,8)] by blast
  obtain r where r: "db_tickets t = db_tickets s @ [r]" "tk_id r = db_next s" "db_next s < db_next t" "tk_partnerId r = Some p" "db_organizations t = db_organizations s"
      "tk_status r = Tk_new" "\<And>q. q \<in> set (db_tickets s) \<Longrightarrow> tk_partnerId q = Some p \<Longrightarrow> tk_internalNumber q \<noteq> tk_internalNumber r"
    using createAndLog_appends[OF c assms(11,12)] by metis
  have key: "key_ok tk_id (db_next t) (db_tickets t)" using assms(11) r(1-3) by (auto simp: key_ok_def less_Suc_eq)
  have "\<not> numbered p m r" using assms(8) r(7) by (auto simp: numbered_def)
  then have "\<exists>g key prior. createAndLog env' n' p g key prior None later t = Inr u"
    using once[OF assms(5) _ assms(10)] assms(3,6,7,8) r(1) by auto
  then obtain r' where r': "db_tickets u = db_tickets t @ [r']" "tk_id r' = db_next t" "tk_partnerId r' = Some p" "tk_status r' = Tk_new"
    using createAndLog_appends[OF _ key] assms(12) r(5) by (metis (no_types))
  have "processInboundEmail env n now s = t" using process_admitted[OF assms(1), of now] assms(9) by simp
  moreover from this have "processInboundEmail env' n' later t = u" using process_admitted[of env' n' p t later] assms(2,10) by simp
  ultimately show ?thesis using r(1,2,3,4,6) r' by auto
qed

definition closed_desk :: db where
  "closed_desk = day0 \<lparr> db_tickets := [work_ticket \<lparr> tk_status := Tk_closed \<rparr>] \<rparr>"

lemma letter_token: "matchToken (ni_subject (letter m)) = Some ''T-2025-0001''"
proof -
  have "formatInternalNumber 2025 1 = ''T-2025-0001''" by (simp add: formatInternalNumber_def js_String_def show_digits.simps digit_char_def padStart_def numeral_eq_Suc)
  then show ?thesis using searchToken_skip[of "''Re: [''" "''] Server down''" False 2025 1]
    by (simp add: matchToken_def letter_sel startsWord_def isWord_def isDigit_def isLetter_def)
qed

definition fork_env :: "string \<Rightarrow> mail_env" where
  "fork_env v = desk_env \<lparr> me_legacyNumber := v, me_year := 2026 \<rparr>"

lemma fork_numbers: "formatInternalNumber 2026 1 = ''T-2026-0001''" "formatInternalNumber 2026 2 = ''T-2026-0002''"
  by (simp_all add: formatInternalNumber_def js_String_def show_digits.simps digit_char_def padStart_def numeral_eq_Suc)

lemma trim_length: "length (js_trim v) \<le> length v"
  using length_dropWhile_le[of isBlank "rev (dropWhile isBlank v)"] length_dropWhile_le[of isBlank v] by (simp add: js_trim_def)

lemma createTicket_mail_ok:
  assumes "orgOf s g = Some org" "org_partnerId org = p" "nextCounter p year (db_ticketSequences s) = (c, qs)" "1 \<le> c"
    and "\<And>r. r \<in> set (db_tickets s) \<Longrightarrow> tk_ticketNumber r \<noteq> v \<and> tk_internalNumber r \<noteq> Some (formatInternalNumber year c)"
    and "length (stripToken (ni_subject n)) \<le> 255" "length (ni_from n) \<le> 255" "ni_fromName n = None"
  shows "\<exists>r t. createTicket (mailTicketInput n g prior None) SYSTEM_ACTOR v year now s = Inr (r, t) \<and> tk_id r = db_next s \<and> tk_ticketNumber r = v \<and>
    tk_internalNumber r = Some (formatInternalNumber year c) \<and> db_tickets t = insertRow r (db_tickets s) \<and> db_ticketSequences t = qs \<and>
    db_inboundEmails t = db_inboundEmails s \<and> db_organizations t = db_organizations s \<and> db_next t = Suc (db_next s)"
proof -
  have "length (js_trim (stripToken (ni_subject n))) \<le> 255" using trim_length assms(6) le_trans by blast
  then show ?thesis using assms
    by (auto simp: createTicket_def mailTicketInput_def allocateInternalTicketNumber_def insertTicket_def resolveRequester_def whenGiven_def guardE_def Let_def)
qed

definition shut_ticket :: ticket where
  "shut_ticket = work_ticket \<lparr> tk_status := Tk_closed \<rparr>"

lemma shut_sel: "tk_orgId shut_ticket = 20" "numbered 10 ''T-2025-0001'' shut_ticket" "tk_status shut_ticket = Tk_closed" "tk_internalNumber shut_ticket = Some ''T-2025-0001''"
    "tk_ticketNumber shut_ticket = ''ABC''" "tk_id shut_ticket = 30"
  by (simp_all add: shut_ticket_def work_ticket_def numbered_def)

lemma letter_length: "length (stripToken (ni_subject (letter m))) \<le> 255"
proof -
  have "length (stripToken v) \<le> length v" for v
  proof -
    have "length a + length b \<le> length v" if "searchToken w v = Some (a, x, b)" for w a x b
      using that by (induction w v arbitrary: a rule: searchToken.induct) (fastforce split: option.splits if_splits)+
    then show ?thesis by (auto simp: stripToken_def split: option.split)
  qed
  from this[of "ni_subject (letter m)"] show ?thesis by (simp add: letter_sel)
qed

lemma fork_step:
  assumes "db_organizations s = [acme]" "db_tickets s = shut_ticket # rs" "\<And>r. r \<in> set rs \<Longrightarrow> \<not> numbered 10 ''T-2025-0001'' r"
    and "nextCounter 10 2026 (db_ticketSequences s) = (c, qs)" "1 \<le> c" "\<not> onLog (Some 10) m s" "key_ok tk_id (db_next s) (db_tickets s)"
    and "\<And>r. r \<in> set (db_tickets s) \<Longrightarrow> tk_ticketNumber r \<noteq> v \<and> tk_internalNumber r \<noteq> Some (formatInternalNumber 2026 c)"
  shows "\<exists>t r l. threadMessage (fork_env v) (letter m) 10 now s = Inr t \<and> db_tickets t = db_tickets s @ [r] \<and> tk_ticketNumber r = v \<and>
    tk_internalNumber r = Some (formatInternalNumber 2026 c) \<and> db_ticketSequences t = qs \<and> db_inboundEmails t = db_inboundEmails s @ [l] \<and>
    em_providerMessageId l = m \<and> db_organizations t = [acme] \<and> key_ok tk_id (db_next t) (db_tickets t)"
proof -
  let ?n = "letter m" and ?prior = "Some ''T-2025-0001''"
  have org: "orgOf s 20 = Some acme" "org_partnerId acme = 10" "orgOfPartner 20 10 s" using assms(1) by (simp_all add: orgOf_def orgOfPartner_def selectOne_def acme_def)
  obtain r s1 where c: "createTicket (mailTicketInput ?n 20 ?prior None) SYSTEM_ACTOR v 2026 now s = Inr (r, s1)" "tk_id r = db_next s" "tk_ticketNumber r = v"
      "tk_internalNumber r = Some (formatInternalNumber 2026 c)" "db_tickets s1 = insertRow r (db_tickets s)" "db_ticketSequences s1 = qs"
      "db_inboundEmails s1 = db_inboundEmails s" "db_organizations s1 = db_organizations s" "db_next s1 = Suc (db_next s)"
    using createTicket_mail_ok[OF org(1,2) assms(4,5,8) letter_length[of m], of ?prior now] by (auto simp: letter_def)
  have e: "me_legacyNumber (fork_env v) = v" "me_year (fork_env v) = 2026" by (simp_all add: fork_env_def)
  let ?f = "\<lambda>q. q \<lparr> tk_emailThreadKey := threadKeyFor (fork_env v) (tk_emailThreadKey shut_ticket) ?n (tk_id r), tk_emailMessageId := ni_messageId ?n \<rparr>"
  let ?s2 = "updateTickets (\<lambda>q. tk_id q = tk_id r) ?f s1"
  have "tk_id q \<noteq> tk_id r" if "q \<in> set (db_tickets s)" for q using that assms(7) c(2) by (auto simp: key_ok_def)
  then have s2: "db_tickets ?s2 = db_tickets s @ [?f r]" by (auto simp: c(5) insertRow_def updateWhere_def intro: map_idI)
  have "findTicketInPartner ?n 10 s = None"
    using assms(2,3) by (auto simp: findTicketInPartner_def letter_sel letter_token[unfolded letter_sel] orElse_def selectOne_None shut_sel)
  moreover have "findClosedTicketInPartner ?n 10 s = Some shut_ticket"
    by (simp add: findClosedTicketInPartner_def letter_sel letter_token[unfolded letter_sel] orElse_def assms(2) selectOne_def shut_sel)
  moreover have "createFromEmail (fork_env v) ?n 10 20 (tk_emailThreadKey shut_ticket) ?prior None now s = Inr (r, ?s2)"
    using org(3) c(1) by (simp add: createFromEmail_def e guardE_def Let_def)
  moreover have "\<not> onLog (Some 10) m ?s2" using assms(6) c(7) by (simp add: onLog_def updateTickets_def)
  moreover have "key_ok tk_id (Suc (Suc (db_next s))) (db_tickets ?s2)" unfolding s2 using assms(7) c(2) by (auto simp: key_ok_def)
  ultimately show ?thesis using s2 c assms(1)
    by (simp add: threadMessage_def caught_def createAndLog_def shut_sel logInbound_def guardE_def letter_sel updateTickets_def insertRow_def logRow_def)
qed

lemma admitted_fork: "admitted (fork_env v) n p s = admitted desk_env n p s"
  using resolve_world[of s s "fork_env v" desk_env] by (simp add: admitted_def fork_env_def inboundDomainOrNull_def mail_world_def)

theorem closed_replies_fork_witness:
  "\<exists>r r'. db_tickets (processInboundEmail (fork_env ''Y'') (letter ''b2'') 5 (processInboundEmail (fork_env ''X'') (letter ''a1'') 4
     (day0 \<lparr> db_tickets := [shut_ticket] \<rparr>))) = [shut_ticket, r, r'] \<and> tk_id r \<noteq> tk_id r'"
proof -
  let ?s = "day0 \<lparr> db_tickets := [shut_ticket] \<rparr>" and ?q = "\<lparr> seq_partnerId = 10, seq_year = 2026, seq_counter = 1 \<rparr>"
  note d = day0_mail shut_sel fork_numbers
  have key: "key_ok tk_id (db_next ?s) (db_tickets ?s)" by (simp add: d key_ok_def)
  have "\<not> onLog (Some 10) ''a1'' ?s" "nextCounter 10 2026 (db_ticketSequences ?s) = (1, [?q])"
    by (simp_all add: onLog_def d nextCounter_def day0_def empty_db_def selectOne_def insertRow_def)
  then obtain t r l where t: "threadMessage (fork_env ''X'') (letter ''a1'') 10 4 ?s = Inr t" "db_tickets t = [shut_ticket, r]" "tk_ticketNumber r = ''X''"
      "tk_internalNumber r = Some ''T-2026-0001''" "db_ticketSequences t = [?q]" "db_inboundEmails t = [l]" "em_providerMessageId l = ''a1''" "db_organizations t = [acme]"
      "key_ok tk_id (db_next t) (db_tickets t)"
    using fork_step[of ?s "[]" 1 "[?q]" "''a1''" "''X''" 4] key by (auto simp: d)
  have a: "admitted (fork_env ''X'') (letter ''a1'') 10 ?s" unfolding admitted_fork
    by (rule admitted_letter[where m = "''a1''"]) (simp_all add: d letter_sel onLog_def)
  then have p: "processInboundEmail (fork_env ''X'') (letter ''a1'') 4 ?s = t" using process_admitted[of _ _ 10 ?s 4] t(1) by simp
  have w: "mail_world ?s t" using mail_log.thread[OF t(1)] .
  have a': "admitted (fork_env ''Y'') (letter ''b2'') 10 t" unfolding admitted_fork
    by (rule admitted_letter[where m = "''b2''"]) (use w t(6,7) in \<open>simp_all add: mail_world_def d letter_sel onLog_def\<close>)
  have "nextCounter 10 2026 (db_ticketSequences t) = (2, [?q \<lparr> seq_counter := 2 \<rparr>])" by (simp add: t(5) nextCounter_def seqKey_def selectOne_def updateWhere_def)
  moreover have "tk_ticketNumber q \<noteq> ''Y'' \<and> tk_internalNumber q \<noteq> Some (formatInternalNumber 2026 2)" if "q \<in> set (db_tickets t)" for q
    using that t(2-4) by (auto simp: d)
  ultimately obtain u where u: "threadMessage (fork_env ''Y'') (letter ''b2'') 10 5 t = Inr u"
    using fork_step[of t "[r]" 2 "[?q \<lparr> seq_counter := 2 \<rparr>]" "''b2''" "''Y''" 5] t by (auto simp: numbered_def onLog_def)
  have "\<exists>r r'. db_tickets (processInboundEmail (fork_env ''Y'') (letter ''b2'') 5 (processInboundEmail (fork_env ''X'') (letter ''a1'') 4 ?s)) = db_tickets ?s @ [r, r'] \<and>
    tk_id r \<noteq> tk_id r' \<and> tk_partnerId r = Some 10 \<and> tk_partnerId r' = Some 10 \<and> tk_status r = Tk_new \<and> tk_status r' = Tk_new"
    by (rule closed_replies_fork[OF a _ _ _ _ letter_token _ _ t(1) u key]) (use a' p in \<open>simp_all add: letter_sel d\<close>)
  then show ?thesis by auto
qed

end
