(* ===== verification/Spec2Isabelle.thy ===== *)
theory Spec2Isabelle
  imports Numbering Catalog StripeProperties MailProperties
begin

text \<open>
  Verification of the billing engine of the Breeze RMM platform
  (\<open>src/apps/api/src/services\<close>, \<open>src/apps/api/src/jobs\<close>), with the ticketing and the time tracking whose work
  it bills.

  \<^bold>\<open>The program.\<close> A managed service provider (a partner) bills its customers (organizations) for work on
  tickets, for catalog items, for recurring contracts and for accepted quotes; customers pay by hand or
  by card through Stripe. The parts and how they interact:

  \<^item> the \<^emph>\<open>ticket service\<close> takes requests by hand, from alerts and from e-mail, moves tickets through their
    states, keeps their feed and their service level clock; a monitor stamps and announces breaches; the mail
    worker turns messages into tickets and comments, and the notifications that leave bring answers back;
  \<^item> the \<^emph>\<open>time tracking\<close> records the technicians' hours, by hand or by timer, and the parts used on tickets;
  \<^item> the \<^emph>\<open>catalog\<close> prices items and bundles, per organization where an override exists;
  \<^item> \<^emph>\<open>quotes\<close> collect priced lines, are sent, viewed, declined, expired or accepted; acceptance creates an
    invoice for the one-time part and contracts for the recurring part in one transaction;
  \<^item> \<^emph>\<open>contracts\<close> generate one draft invoice per billing period (a daily job), renew and expire;
  \<^item> the \<^emph>\<open>invoice service\<close> assembles drafts from unbilled work, edits, issues, collects and voids them,
    and is called by the quotes and the contracts;
  \<^item> \<^emph>\<open>online payments\<close> open checkout sessions for the balance of an invoice and reflect captures and
    refunds from webhooks, from the customer's return and from a sweep of pending sessions.

  \<^bold>\<open>Theories.\<close> Each models its files function by function, under the source's names.

  \<^item> \<open>Prelude\<close>: results and guards (\<open>bindE\<close>, \<open>guardE\<close>), table statements
    (\<open>selectOne\<close>, \<open>updateWhere\<close>, \<open>insertRow\<close>, \<open>deleteWhere\<close>) and primary keys. \<open>JsNumber\<close>: IEEE double
    rounding, \<open>Math.round\<close>, \<open>toFixed\<close>. \<open>Calendar\<close>: \<open>Date.UTC\<close> and ISO dates.
  \<^item> \<open>Money\<close> (\<open>invoiceMath.ts\<close>, \<open>quoteMath.ts\<close>, \<open>stripeMoney.ts\<close>): amounts as rationals, computed in
    double arithmetic as the code does; totals are exact on cents for amounts a column can hold.
  \<^item> \<open>ContractMath\<close> (\<open>contractMath.ts\<close>, \<open>quoteExpiry.ts\<close>, \<open>addMonthsToDate\<close>): billing periods, renewal
    extension, notice window. The two loops carry the runaway guard of the source; the theorems show
    they end before it with the right period.
  \<^item> \<open>BillingDb\<close> (\<open>db/schema\<close>): the rows, enumerations and error codes, and the state \<open>db\<close>, a record of
    tables; \<open>db_next\<close> is the supply of fresh identifiers and \<open>db_events\<close> the events and jobs emitted.
    Checks and unique indexes the services rely on are branches of the inserts that meet them.
  \<^item> \<open>Numbering\<close> (\<open>invoiceNumbers.ts\<close>, \<open>quoteNumbers.ts\<close>): counters are gapless per partner and year.
  \<^item> \<open>Catalog\<close> (\<open>catalogService.ts\<close>, \<open>catalogPricing.ts\<close>): bundles never nest, overrides round trip.
  \<^item> \<open>InvoiceService\<close> (\<open>invoiceService.ts\<close>, \<open>invoiceAssembly.ts\<close>): every operation. \<open>InvoiceLedger\<close> is the
    contract of the engine, an abstract ledger with fourteen moves and the invariant every move keeps; its flag
    \<open>raises\<close> says whether a move may raise the amount of a payment, and without such moves a \<open>solvent\<close> ledger stays solvent;
    \<open>InvoiceRefinement\<close> shows that every operation is a sequence of moves; \<open>InvoiceProperties\<close> has the
    locale \<open>ledger_client\<close>, the guarantees of any service whose steps refine the ledger with either flag, and its
    interpretation for the invoice service.
  \<^item> \<open>TimeTracking\<close>, \<open>TimeProperties\<close> (\<open>timeEntryService.ts\<close>): entries, timers, approval, parts, lists,
    timesheets, export. A user has at most one running timer, a start switches timers, durations are the
    same on all paths, a timesheet is exact. Its calls refine the ledger as long as they keep the billing
    marks of invoiced work (\<open>work_kept\<close>, part of \<open>time_step\<close>); logging, timing, stopping and approving
    always do (\<open>time_step_free\<close>), an edit or a deletion need not.
  \<^item> \<open>TicketConfig\<close> (\<open>ticketConfigService.ts\<close>), \<open>Ticketing\<close> (\<open>ticketService.ts\<close>, \<open>ticketSla.ts\<close>, \<open>ticketNumbers.ts\<close>,
    \<open>jobs/ticketSlaWorker.ts\<close>, the review queue): every operation. \<open>TicketBoard\<close> is the contract, a board with seven
    moves, its invariant, the invariant of its clock, and the locale \<open>desk_client\<close>; \<open>TicketRefinement\<close> shows that
    every call is a sequence of moves and interprets the locale on the ticket service together with the time
    tracking, which writes to the same feed; \<open>TicketProperties\<close> has the guarantees: states and columns agree,
    the feed accounts for the clock, the monitor is accurate and complete and announces a breach at most once,
    tickets stay within their tenant, system statuses stay.
  \<^item> \<open>InboundMail\<close> (\<open>inboundEmail/inboundEmailService.ts\<close>, \<open>mailgun.ts\<close>, \<open>resolvePartner.ts\<close>, \<open>resolveOrg.ts\<close>,
    \<open>loopPrevention.ts\<close>, \<open>autoresponder.ts\<close>) and \<open>TicketNotify\<close> (\<open>jobs/ticketNotifyWorker.ts\<close>, \<open>outboundThreading.ts\<close>,
    \<open>autoresponseTemplate.ts\<close>): messages in and out. The locale \<open>mail_writes\<close> of \<open>TicketRefinement\<close> carries a relation from
    the single writes of the mail worker to the whole of it; it is interpreted for the frame of the calls, the board,
    the tenants, the statuses and the log. \<open>MailProperties\<close>: a message counts once, stays within its partner, does nothing
    without an authenticated sender, and an answer joins the
    thread of the message it answers as long as the ticket is not closed and its thread key is its own.
  \<^item> \<open>BillingFrame\<close>: what calls of the invoice service leave of contracts and quotes.
  \<^item> \<open>ContractService\<close>, \<open>ContractProperties\<close> (\<open>contractService.ts\<close>, \<open>contractQuantities.ts\<close>,
    \<open>contractRenewal.ts\<close>, \<open>jobs/contractWorker.ts\<close>, \<open>quoteToContract.ts\<close>): a billing run bills the due
    period at the counted quantities and advances the contract; a period is billed at most once.
  \<^item> \<open>QuoteService\<close>, \<open>QuoteLifecycle\<close>, \<open>QuoteProperties\<close> (\<open>quoteService.ts\<close>, \<open>quoteLifecycle.ts\<close>,
    \<open>quoteAcceptService.ts\<close>, \<open>jobs/quoteExpiryReaper.ts\<close>): acceptance invoices what the quote advertises
    as due and contracts the rest; a quote is accepted at most once.
  \<^item> \<open>StripePayments\<close>, \<open>StripeProperties\<close> (\<open>partnerStripe.ts\<close>, \<open>stripeConnectService.ts\<close>,
    \<open>invoiceCheckout.ts\<close>, \<open>quotePay.ts\<close>, \<open>stripeReconcile.ts\<close>, \<open>stripeSettle.ts\<close>, \<open>stripeWebhook.ts\<close>,
    \<open>jobs/stripeReconcileSweep.ts\<close>): a capture is recorded at most once, an event reaches only invoices
    of its account, a paid session does not stay pending. \<open>stripe_step\<close> is one call; with its flag \<open>late\<close> off, a refund
    event arrives only in order (\<open>eventInOrder\<close>: it does not raise the payment it is about), with \<open>late\<close> on, any event
    arrives at any time, as the code allows. The calls refine the ledger in both cases; an invoice is never
    overpaid in the first, and \<open>late_refund_overpays\<close> shows what happens in the second.
  \<^item> This theory composes the services: \<open>system_step\<close> is one complete call of any of them, and the guarantees of the
    ledger hold in every state such calls reach, in any order. Two conditions on the calls are not checked by the
    code: the edits and deletions of the time tracking keep the billing marks of invoiced work (\<open>work_kept\<close>), and,
    where \<open>late\<close> is off, the refund events of a charge arrive in order. What the code does without them is in
    \<open>reset_work_billed_twice\<close> and \<open>late_refund_overpays\<close>.

  \<^bold>\<open>Conventions.\<close> A service call takes the state and returns \<open>Inl\<close> the error thrown or \<open>Inr\<close> the result
  and the new state; a thrown error leaves the state as it was, as the enclosing transaction does. Where the code
  commits a part first, that part can be told apart: \<open>sendQuote\<close>, which commits before it mails, returns the state in
  both cases; \<open>voidCommit\<close> is the transaction \<open>voidInvoice\<close> commits before it recomputes the draft, and a run may stop
  after it; the mail worker catches its errors inside the transaction, so that a database error rolls it back and any
  other error keeps what was written (\<open>caught\<close>). The one exception is \<open>createTicket\<close>, whose counter the code
  commits on its own, so that a failed call may leave a gap in the numbers.
  The clock is an argument, one reading per call (the billing job reads it for each issue): the code stamps lines of the feed with the clock
  of the database and the pause of the ticket with its own, and the model takes them as equal. \<open>db_events\<close> holds the
  events the queue accepts, and an error drops those of its call; the announcements of the monitor, which the code
  sends after the stamps are committed, may each be lost. Races are stated where the code reads and writes in separate statements: the
  read and the write are definitions of their own (\<open>issueRead\<close> and \<open>issueWrite\<close>, \<open>viewRead\<close> and
  \<open>viewWrite\<close>, \<open>assignRead\<close> and \<open>assignWrite\<close>) and the theorem puts another call between them.

  \<^bold>\<open>Bounds.\<close> Exactness of money holds for amounts of a \<open>numeric(12,2)\<close> column (below 10 to the 12th
  cents), where sums of cents stay below 2 to the 53rd; durations are below 2 to the 53rd milliseconds. Dates are four-digit years. No theorem has fuel:
  the loops of the source are total functions with a termination proof.

  \<^bold>\<open>Parameters.\<close> Stripe, the key cipher, the digest of a signed quote and the token signer are arguments
  of the definitions that call them, as are the configured mail domain, the hash of a message and the answer of
  the rate limiter for acknowledgements, which announcements of the monitor arrive, and the numeric quotient of minutes and 60 that PostgreSQL computes in
  the billing summary of a ticket.

  \<^bold>\<open>Findings.\<close> Some theorems state a behaviour the code does not mean to have: line totals on an exact half
  cent, sales tax rates with four decimals, month-end billing anchors, two concurrent issues of the same
  work, automatic renewal of contracts billed in advance, a resumed contract whose period was billed,
  a view that overlaps an acceptance, a full refund of a card payment, a refund event that arrives late, a refunded charge
  settled again, a second click on a pay link, an edit that clears the billing mark of invoiced work, a timesheet
  whose week starts within a day, an assignment that overlaps a resolution, a moved ticket that keeps
  its requester, a failed message that leaves a contact, an envelope address that is read as a DMARC verdict, and answers
  to a closed ticket that fork it.

  \<^bold>\<open>Not modelled.\<close> HTTP routes and their request schemas, row-level security and authentication, the mail and
  PDF rendering of invoices and quotes (only the events and jobs that trigger them), images of quotes, audit log entries, and the
  rest of the platform: device agent and remote sessions, monitoring, alerting and automation, policy
  evaluation, AI tools, and the web, portal and viewer clients. Of ticketing: the signature check and the queues of
  the mail webhook, the sending of messages, reads that only feed a page, the metadata of triage feedback, and the
  upkeep of categories and portal users, whose rows the calls read.
\<close>

section \<open>All services together\<close>

text \<open>
  One complete call of any service, in any order. Two conditions are not checked by the code. Edits and deletions of
  time entries and parts keep the billing marks of invoiced work (\<open>work_kept\<close>). With \<open>late\<close> off, the refund events
  of a charge arrive in order (\<open>eventInOrder\<close>); with \<open>late\<close> on, any event may arrive at any time.
\<close>

inductive system_step :: "bool \<Rightarrow> db \<Rightarrow> db \<Rightarrow> bool" for late where
  invoices: "invoice_step s t \<Longrightarrow> system_step late s t"
| contracts: "contract_step s t \<Longrightarrow> system_step late s t"
| quotes: "quote_step s t \<Longrightarrow> system_step late s t"
| payments: "stripe_step late s t \<Longrightarrow> system_step late s t"
| timekeeping: "time_call s t \<Longrightarrow> work_kept s t \<Longrightarrow> system_step late s t"
| tickets: "anytime ticket_call s t \<Longrightarrow> system_step late s t"

lemma system_step_refines: "system_step late s t \<Longrightarrow> refines_by late s t"
  by (induction rule: system_step.induct)
     (auto intro: refines_mono invoice_step_refines contracts.step_refines quoting.step_refines payments.step_refines
      timekeeping.step_refines[unfolded time_step_def] ticketing.step_refines)

interpretation system: ledger_client late "system_step late" for late
  by unfold_locales (rule system_step_refines)

text \<open>
  The worked day of the invoices continued with a card payment, and the same work drafted twice with one of the
  drafts issued.
\<close>

lemma system_run: "(system_step late)\<^sup>*\<^sup>* day0 day1_twice" "(system_step late)\<^sup>*\<^sup>* day0 day2" "(system_step late)\<^sup>*\<^sup>* day2 card2"
proof -
  have "system_step late day0 day1" "system_step late day1 day1_twice" "system_step late day1 day2"
    using day_steps by (auto intro: system_step.invoices)
  then show "(system_step late)\<^sup>*\<^sup>* day0 day1_twice" "(system_step late)\<^sup>*\<^sup>* day0 day2" by auto
  have "invoice_step day2 card0" by (rule invoice_step.elsewhere) (simp_all add: card0_def same_tables_def)
  moreover have "stripe_step late card0 card1" using card1_eq stripe_step.invoice_link by blast
  moreover have "stripe_step late card1 card2"
    by (rule stripe_step.webhook[OF card_delivered]) (simp add: eventInOrder_def card_event_def)
  ultimately show "(system_step late)\<^sup>*\<^sup>* day2 card2"
    by (meson converse_rtranclp_into_rtranclp rtranclp.rtrancl_refl system_step.intros)
qed


section \<open>Guarantees\<close>

text \<open>
  (C1) The services implement the ledger: whatever complete calls are made and in whatever order, by hand, by the
  daily jobs, by webhooks that arrive in any order, by quote acceptance, on tickets or by technicians whose edits keep the
  marks of billed work, the run of the tables is a run of the abstract ledger,
  and its invariant (rows keyed, lines and payments attached, work and numbers accounted for, mappings
  linked to payments of their invoice) holds in every state reached. A payment is raised only in a run that admits
  refund events out of order (\<open>late\<close>).
\<close>

theorem services_refine_ledger:
  assumes "(system_step late)\<^sup>*\<^sup>* s t" "billing_ok s"
  shows "(ledger_step late)\<^sup>*\<^sup>* (ledgerOf s) (ledgerOf t) \<and> billing_ok t"
  using system.reaches_refines[OF assms(1)] system.reaches_ok[OF assms] assms(2) by (simp add: refines_by_def)

theorem services_refine_ledger_witness:
  "(ledger_step False)\<^sup>*\<^sup>* (ledgerOf day0) (ledgerOf card2) \<and> billing_ok card2"
  using services_refine_ledger[OF rtranclp_trans[OF system_run(2,3)] day0_ok] .



text \<open>
  (C3) The books balance: in every state reached, an invoice that is issued and not void shows as paid
  exactly the sum of its payments, as balance exactly what is left of its total, and
  is marked paid only without an open balance and partially paid or overdue only with one, also when refund events
  arrive out of order. As long as those of a charge arrive in order, no invoice is ever overpaid; what a late one
  does is the subject of a theorem of its own.
\<close>

theorem books_balance:
  assumes "(system_step late)\<^sup>*\<^sup>* s t" "billing_ok s" "invOf t i = Some r" "live r"
  shows "inv_amountPaid r = dollars (paidCents i (db_invoicePayments t)) \<and>
    inv_balance r = dollars (cents_of (inv_total r) - paidCents i (db_invoicePayments t)) \<and>
    (inv_status r = Inv_paid \<longrightarrow> inv_balance r \<le> 0) \<and>
    (inv_status r \<in> {Inv_partially_paid, Inv_overdue} \<longrightarrow> 0 < inv_balance r) \<and>
    (\<not> late \<and> solvent (ledgerOf s) \<longrightarrow> paidCents i (db_invoicePayments t) \<le> max 0 (cents_of (inv_total r)))"
proof -
  have "paidCents i (db_invoicePayments t) \<le> max 0 (cents_of (inv_total r))" if "\<not> late" "solvent (ledgerOf s)"
    using system.never_overpaid[OF assms(1,2) that] assms(3) by (simp add: solvent_def)
  then show ?thesis using system.balanced[OF assms] by blast
qed

theorem books_balance_witness:
  "invOf card2 100 = Some paid_row \<and> inv_amountPaid paid_row = 300 \<and> inv_balance paid_row = 0 \<and> solvent (ledgerOf day2) \<and>
   paidCents 100 (db_invoicePayments card2) \<le> max 0 (cents_of (inv_total paid_row))"
proof -
  have r: "invOf card2 100 = Some paid_row" by (simp add: invOf_def selectOne_def card2_sel row_sel)
  have l: "live paid_row"
    by (simp add: live_def paid_row_def restate_sel issued_invoice_sel charged_sel sumCents_def js_simps paid_status)
  have so: "solvent (ledgerOf day2)" by (simp add: solvent_def day2_sel paidCents_def)
  show ?thesis
    using books_balance[OF system_run(3)[of False] days_ok(3) r l] r so
    by (simp add: card2_sel paidCents_def charged_sel row_sel dollars_def cents_of_def)
qed

text \<open>
  (C23) Invoice numbers are unique: in every state reached, no two invoices of a partner carry the same
  number.
\<close>

theorem invoice_numbers_unique:
  assumes "(system_step late)\<^sup>*\<^sup>* s t" "billing_ok s" "invOf t i = Some r" "invOf t j = Some q" "i \<noteq> j"
    and "inv_partnerId r = inv_partnerId q" "inv_invoiceNumber r \<noteq> None"
  shows "inv_invoiceNumber r \<noteq> inv_invoiceNumber q"
  using system.numbers_unique[OF assms(1-4,6)] assms(5,7) by blast

theorem invoice_numbers_unique_witness:
  "\<exists>q t r. createManualInvoice 20 None None None msp noon day2 = Inr (q, t) \<and> invOf t 100 = Some r \<and> invOf t 103 = Some q \<and>
    inv_invoiceNumber r \<noteq> inv_invoiceNumber q"
proof -
  have "\<exists>q t. createManualInvoice 20 None None None msp noon day2 = Inr (q, t) \<and> inv_partnerId q = 10 \<and>
      invOf t 100 = Some (issued_invoice 100 1) \<and> invOf t 103 = Some q"
    by (simp add: createManualInvoice_def insertInvoice_def lookup_defs statement_defs day2_sel day2_def day_sel day1_sel msp_def Let_def
        blankInvoice_def issued_invoice_sel js_simps)
  then obtain q t where t: "createManualInvoice 20 None None None msp noon day2 = Inr (q, t)" "inv_partnerId q = 10"
    "invOf t 100 = Some (issued_invoice 100 1)" "invOf t 103 = Some q" by blast
  have "system_step True day2 t" using t(1) by (blast intro: system_step.intros invoice_step.intros)
  then have "(system_step True)\<^sup>*\<^sup>* day0 t" using system_run(2) by (metis rtranclp.rtrancl_into_rtrancl)
  from invoice_numbers_unique[OF this day0_ok t(3,4)] show ?thesis using t by (auto simp: issued_invoice_sel)
qed

text \<open>
  (C22) An issued invoice is final: whatever calls follow, it stays on record with its partner, its
  organization, its number and its total, and a void invoice stays void.
\<close>

theorem issued_invoice_final:
  assumes "(system_step late)\<^sup>*\<^sup>* s t" "billing_ok s" "invOf s i = Some r" "inv_status r \<noteq> Inv_draft"
  shows "\<exists>r'. invOf t i = Some r' \<and> inv_partnerId r' = inv_partnerId r \<and> inv_orgId r' = inv_orgId r \<and>
    inv_invoiceNumber r' = inv_invoiceNumber r \<and> inv_total r' = inv_total r \<and> (inv_status r = Inv_void \<longrightarrow> inv_status r' = Inv_void)"
  using system.issued_final[OF assms] by (auto simp: kept_def same_identity_def)

theorem issued_invoice_final_witness:
  "\<exists>r'. invOf card2 100 = Some r' \<and> inv_invoiceNumber r' = Some (formatInvoiceNumber ''INV'' 2025 1) \<and> inv_total r' = 300"
  using issued_invoice_final[OF system_run(3)[of True] days_ok(3) invOf_day2] by (auto simp: issued_invoice_sel)

end
